(* ===== verification/Prelude.thy ===== *)
theory Prelude
  imports Main "HOL-Library.Word" "HOL-Library.Sublist"
begin

text \<open>
  Shared vocabulary of the development: what the components take from the Rust
  language and its standard library.  A Rust \<open>String\<close> is the list of its UTF-8
  bytes (type \<open>string\<close>, a \<open>char\<close> being one byte), so \<open>length\<close> is
  \<open>str::len\<close>.  A fallible call returns \<open>error + 'a\<close> with the error in \<open>Inl\<close>
  (\<open>Result\<close> with \<open>Err\<close>), an optional one returns \<open>'a option\<close>.
  \<open>i32\<close> counters are 32-bit words read with \<open>sint\<close>.
\<close>

named_theorems rust_std \<open>unfolding rules for the standard-library functions\<close>
named_theorems visibility_simps \<open>how an operation acts on the visibility of messages\<close>

subsection \<open>Results\<close>

type_synonym 'a result = "string + 'a"

definition result_bind :: "'e + 'a \<Rightarrow> ('a \<Rightarrow> 'e + 'b) \<Rightarrow> 'e + 'b" where
  "result_bind r f = (case r of Inl e \<Rightarrow> Inl e | Inr x \<Rightarrow> f x)"

lemma result_bind_simps [simp]:
  "result_bind (Inl e) f = Inl e"
  "result_bind (Inr x) f = f x"
  by (simp_all add: result_bind_def)

lemma result_bind_Inr_iff:
  "result_bind r f = Inr y \<longleftrightarrow> (\<exists>x. r = Inr x \<and> f x = Inr y)"
  by (cases r) auto

fun is_ok :: "'e + 'a \<Rightarrow> bool" where
  "is_ok (Inl _) = False"
| "is_ok (Inr _) = True"

definition result_ok :: "'e + 'a \<Rightarrow> 'a option" where
  "result_ok r = (case r of Inl _ \<Rightarrow> None | Inr x \<Rightarrow> Some x)"

lemma result_ok_simps [simp]: "result_ok (Inl e) = None" "result_ok (Inr x) = Some x"
  by (simp_all add: result_ok_def)

subsection \<open>Options and lists\<close>

definition option_or :: "'a option \<Rightarrow> 'a option \<Rightarrow> 'a option" where
  "option_or a b = (case a of None \<Rightarrow> b | Some x \<Rightarrow> Some x)"

lemma option_or_simps [simp]: "option_or None b = b" "option_or (Some x) b = Some x"
  by (simp_all add: option_or_def)

definition unwrap_or :: "'a option \<Rightarrow> 'a \<Rightarrow> 'a" where
  "unwrap_or a d = (case a of None \<Rightarrow> d | Some x \<Rightarrow> x)"

lemma unwrap_or_simps [simp]: "unwrap_or None d = d" "unwrap_or (Some x) d = x"
  by (simp_all add: unwrap_or_def)

definition is_some_and :: "'a option \<Rightarrow> ('a \<Rightarrow> bool) \<Rightarrow> bool" where
  "is_some_and a p = (case a of None \<Rightarrow> False | Some x \<Rightarrow> p x)"

lemma is_some_and_simps [simp]: "is_some_and None p = False" "is_some_and (Some x) p = p x"
  by (simp_all add: is_some_and_def)

lemma is_some_and_iff: "is_some_and a p \<longleftrightarrow> (\<exists>x. a = Some x \<and> p x)"
  by (cases a) auto

definition last_opt :: "'a list \<Rightarrow> 'a option" where
  "last_opt xs = (if xs = [] then None else Some (last xs))"

lemma last_opt_simps [simp]: "last_opt [] = None" "last_opt (xs @ [x]) = Some x"
  by (simp_all add: last_opt_def)

lemma last_opt_Some_iff: "last_opt xs = Some x \<longleftrightarrow> xs \<noteq> [] \<and> last xs = x"
  by (auto simp: last_opt_def)

lemma last_opt_None_iff [simp]: "last_opt xs = None \<longleftrightarrow> xs = []"
  by (simp add: last_opt_def)

definition first_opt :: "'a list \<Rightarrow> 'a option" where
  "first_opt xs = (case xs of [] \<Rightarrow> None | x # _ \<Rightarrow> Some x)"

lemma first_opt_simps [simp]: "first_opt [] = None" "first_opt (x # xs) = Some x"
  by (simp_all add: first_opt_def)

lemma first_opt_None_iff [simp]: "first_opt xs = None \<longleftrightarrow> xs = []"
  by (cases xs) simp_all

text \<open>\<open>Vec::iter().find_map(f)\<close>.\<close>

fun find_map :: "('a \<Rightarrow> 'b option) \<Rightarrow> 'a list \<Rightarrow> 'b option" where
  "find_map f [] = None"
| "find_map f (x # xs) = (case f x of None \<Rightarrow> find_map f xs | Some y \<Rightarrow> Some y)"

lemma find_map_None_iff: "find_map f xs = None \<longleftrightarrow> (\<forall>x \<in> set xs. f x = None)"
  by (induction xs) (auto split: option.splits)

lemma find_map_SomeD: "find_map f xs = Some y \<Longrightarrow> \<exists>x \<in> set xs. f x = Some y"
  by (induction xs) (auto split: option.splits)

text \<open>The suffix from the last element with \<open>p\<close> on (\<open>rposition\<close>, then a slice).\<close>

fun suffix_from_last :: "('a \<Rightarrow> bool) \<Rightarrow> 'a list \<Rightarrow> 'a list option" where
  "suffix_from_last p [] = None"
| "suffix_from_last p (x # xs) =
     (case suffix_from_last p xs of
        Some ys \<Rightarrow> Some ys
      | None \<Rightarrow> if p x then Some (x # xs) else None)"

lemma suffix_from_last_None_iff: "suffix_from_last p xs = None \<longleftrightarrow> (\<forall>x \<in> set xs. \<not> p x)"
  by (induction xs) (auto split: option.splits)

lemma suffix_from_last_SomeD:
  "suffix_from_last p xs = Some ys \<Longrightarrow>
     \<exists>pre y zs. xs = pre @ ys \<and> ys = y # zs \<and> p y \<and> (\<forall>z \<in> set zs. \<not> p z)"
proof (induction xs arbitrary: ys)
  case Nil
  then show ?case by simp
next
  case (Cons x xs)
  show ?case
  proof (cases "suffix_from_last p xs")
    case None
    with Cons.prems show ?thesis
      by (auto simp: suffix_from_last_None_iff split: if_splits)
  next
    case (Some ys')
    with Cons obtain pre y zs where
      "xs = pre @ ys'" "ys' = y # zs" "p y" "\<forall>z \<in> set zs. \<not> p z" by blast
    with Cons.prems Some show ?thesis by (auto intro: exI [of _ "x # pre"])
  qed
qed

lemma suffix_from_last_map:
  "(\<And>x. p (f x) = p x) \<Longrightarrow>
   suffix_from_last p (map f xs) = map_option (map f) (suffix_from_last p xs)"
  by (induction xs) (auto split: option.split)

lemma suffix_from_last_append:
  "suffix_from_last p (xs @ ys) =
     (case suffix_from_last p ys of
        Some zs \<Rightarrow> Some zs
      | None \<Rightarrow> map_option (\<lambda>zs. zs @ ys) (suffix_from_last p xs))"
  by (induction xs) (auto split: option.splits)

lemma suffix_from_last_split:
  "p y \<Longrightarrow> \<forall>z \<in> set zs. \<not> p z \<Longrightarrow> suffix_from_last p (pre @ y # zs) = Some (y # zs)"
  by (simp add: suffix_from_last_append suffix_from_last_None_iff [THEN iffD2])

text \<open>Update the last element with \<open>p\<close> (\<open>iter_mut().rev().find(p)\<close>).\<close>

fun update_last :: "('a \<Rightarrow> bool) \<Rightarrow> ('a \<Rightarrow> 'a) \<Rightarrow> 'a list \<Rightarrow> 'a list option" where
  "update_last p f [] = None"
| "update_last p f (x # xs) =
     (case update_last p f xs of
        Some ys \<Rightarrow> Some (x # ys)
      | None \<Rightarrow> if p x then Some (f x # xs) else None)"

lemma update_last_None_iff: "update_last p f xs = None \<longleftrightarrow> (\<forall>x \<in> set xs. \<not> p x)"
  by (induction xs) (auto split: option.splits)

lemma update_last_SomeD:
  "update_last p f xs = Some ys \<Longrightarrow>
     \<exists>pre x post. xs = pre @ x # post \<and> ys = pre @ f x # post \<and> p x \<and> (\<forall>z \<in> set post. \<not> p z)"
proof (induction xs arbitrary: ys)
  case Nil
  then show ?case by simp
next
  case (Cons a xs)
  show ?case
  proof (cases "update_last p f xs")
    case None
    with Cons.prems show ?thesis
      by (intro exI [of _ "[]"]) (auto simp: update_last_None_iff split: if_splits)
  next
    case (Some ys')
    with Cons.IH obtain pre x post where
      "xs = pre @ x # post" "ys' = pre @ f x # post" "p x" "\<forall>z \<in> set post. \<not> p z"
      by blast
    with Cons.prems Some show ?thesis by (intro exI [of _ "a # pre"]) auto
  qed
qed

subsection \<open>Strings as UTF-8 bytes\<close>

definition byte :: "nat \<Rightarrow> char" where
  "byte n = char_of n"

text \<open>
  The encodings of the characters with the Unicode property \<open>White_Space\<close>, which
  \<open>char::is_whitespace\<close> recognises, as \<open>str::trim\<close> does.
\<close>

definition ascii_whitespace :: "string list" where
  "ascii_whitespace = map (\<lambda>n. [byte n]) [9, 10, 11, 12, 13, 32]"

definition wide_whitespace :: "string list" where
  "wide_whitespace =
     [[byte 0xC2, byte 0x85], [byte 0xC2, byte 0xA0], [byte 0xE1, byte 0x9A, byte 0x80],
      [byte 0xE2, byte 0x80, byte 0x80], [byte 0xE2, byte 0x80, byte 0x81],
      [byte 0xE2, byte 0x80, byte 0x82], [byte 0xE2, byte 0x80, byte 0x83],
      [byte 0xE2, byte 0x80, byte 0x84], [byte 0xE2, byte 0x80, byte 0x85],
      [byte 0xE2, byte 0x80, byte 0x86], [byte 0xE2, byte 0x80, byte 0x87],
      [byte 0xE2, byte 0x80, byte 0x88], [byte 0xE2, byte 0x80, byte 0x89],
      [byte 0xE2, byte 0x80, byte 0x8A], [byte 0xE2, byte 0x80, byte 0xA8],
      [byte 0xE2, byte 0x80, byte 0xA9], [byte 0xE2, byte 0x80, byte 0xAF],
      [byte 0xE2, byte 0x81, byte 0x9F], [byte 0xE3, byte 0x80, byte 0x80]]"

definition whitespace :: "string list" where
  "whitespace = ascii_whitespace @ wide_whitespace"

fun strip_prefix :: "string \<Rightarrow> string \<Rightarrow> string option" where
  "strip_prefix [] s = Some s"
| "strip_prefix (c # cs) [] = None"
| "strip_prefix (c # cs) (d # s) = (if c = d then strip_prefix cs s else None)"

lemma strip_prefix_Some_iff: "strip_prefix p s = Some r \<longleftrightarrow> s = p @ r"
  by (induction p s rule: strip_prefix.induct) auto

lemma strip_prefix_append [simp]: "strip_prefix p (p @ r) = Some r"
  by (simp add: strip_prefix_Some_iff)

lemma strip_prefix_length:
  "strip_prefix p s = Some r \<Longrightarrow> length r \<le> length s \<and> (p \<noteq> [] \<longrightarrow> length r < length s)"
  by (auto simp: strip_prefix_Some_iff)

definition strip_any :: "string list \<Rightarrow> string \<Rightarrow> string option" where
  "strip_any ps s = find_map (\<lambda>p. if p = [] then None else strip_prefix p s) ps"

lemma strip_any_length: "strip_any ps s = Some r \<Longrightarrow> length r < length s"
  by (auto simp: strip_any_def dest!: find_map_SomeD strip_prefix_length split: if_splits)

text \<open>Strip characters of a set of encodings from the front, as long as there is one.\<close>

function trim_with :: "string list \<Rightarrow> string \<Rightarrow> string" where
  "trim_with ps s = (case strip_any ps s of None \<Rightarrow> s | Some r \<Rightarrow> trim_with ps r)"
  by pat_completeness auto
termination
  by (relation "measure (\<lambda>(ps, s). length s)") (auto dest: strip_any_length)

declare trim_with.simps [simp del]

definition trim_start :: "string \<Rightarrow> string" where
  "trim_start s = trim_with whitespace s"

definition trim_end :: "string \<Rightarrow> string" where
  "trim_end s = rev (trim_with (map rev whitespace) (rev s))"

definition trim :: "string \<Rightarrow> string" where
  "trim s = trim_end (trim_start s)"

lemma trim_with_stuck: "strip_any ps (trim_with ps s) = None"
  by (induction ps s rule: trim_with.induct)
    (subst trim_with.simps, auto split: option.splits)

lemma trim_with_idem [simp]: "trim_with ps (trim_with ps s) = trim_with ps s"
  by (subst trim_with.simps) (simp add: trim_with_stuck)

lemma trim_with_length: "length (trim_with ps s) \<le> length s"
proof (induction ps s rule: trim_with.induct)
  case (1 ps s)
  show ?case
  proof (cases "strip_any ps s")
    case None
    then show ?thesis by (subst trim_with.simps) simp
  next
    case (Some r)
    from "1.IH" [OF Some] strip_any_length [OF Some] Some show ?thesis
      by (subst trim_with.simps) simp
  qed
qed

lemma trim_with_suffix: "suffix (trim_with ps s) s"
proof (induction ps s rule: trim_with.induct)
  case (1 ps s)
  show ?case
  proof (cases "strip_any ps s")
    case None
    then show ?thesis by (subst trim_with.simps) simp
  next
    case (Some r)
    then have "suffix r s"
      by (auto simp: strip_any_def strip_prefix_Some_iff suffix_def
          dest!: find_map_SomeD split: if_splits)
    with "1.IH" [OF Some] Some show ?thesis
      by (subst trim_with.simps) (auto intro: suffix_order.trans)
  qed
qed

lemma trim_end_idem [simp]: "trim_end (trim_end s) = trim_end s"
  by (simp add: trim_end_def)

lemma trim_end_prefix: "prefix (trim_end s) s"
  using trim_with_suffix [of "map rev whitespace" "rev s"]
  by (simp add: trim_end_def suffix_to_prefix)

lemma trim_end_length_eq: "length (trim_end s) = length s \<longleftrightarrow> trim_end s = s"
proof
  assume "length (trim_end s) = length s"
  moreover obtain zs where "s = trim_end s @ zs"
    using trim_end_prefix [of s] by (auto simp: prefix_def)
  then have "length s = length (trim_end s) + length zs"
    by (metis length_append)
  ultimately have "zs = []" by simp
  with \<open>s = trim_end s @ zs\<close> show "trim_end s = s" by simp
qed simp

lemma trim_end_Nil [simp]: "trim_end [] = []"
  using trim_end_prefix [of "[]"] by simp

text \<open>A string that begins and ends with visible ASCII is left alone.\<close>

definition visible_ascii :: "char \<Rightarrow> bool" where
  "visible_ascii c \<longleftrightarrow> 32 < (of_char c :: nat) \<and> (of_char c :: nat) < 128"

lemma whitespace_not_visible:
  "list_all (\<lambda>p. p \<noteq> [] \<and> \<not> visible_ascii (hd p) \<and> \<not> visible_ascii (last p)) whitespace"
  by (simp add: whitespace_def ascii_whitespace_def wide_whitespace_def visible_ascii_def byte_def)

lemma trim_with_visible:
  assumes "list_all (\<lambda>p. p \<noteq> [] \<and> \<not> visible_ascii (hd p)) ps"
    and "s = [] \<or> visible_ascii (hd s)"
  shows "trim_with ps s = s"
proof -
  have "strip_prefix p s = None" if "p \<in> set ps" for p
  proof (rule ccontr)
    assume "strip_prefix p s \<noteq> None"
    then obtain r where "s = p @ r" by (auto simp: strip_prefix_Some_iff)
    with assms that show False by (auto simp: list_all_iff)
  qed
  then have "strip_any ps s = None" by (simp add: strip_any_def find_map_None_iff)
  then show ?thesis by (subst trim_with.simps) simp
qed

lemma trim_visible:
  assumes "s = [] \<or> visible_ascii (hd s) \<and> visible_ascii (last s)"
  shows "trim s = s"
proof -
  have "list_all (\<lambda>p. p \<noteq> [] \<and> \<not> visible_ascii (hd p)) whitespace"
    and "list_all (\<lambda>p. p \<noteq> [] \<and> \<not> visible_ascii (hd p)) (map rev whitespace)"
    using whitespace_not_visible by (auto simp: list_all_iff hd_rev)
  with assms show ?thesis
    by (cases "s = []") (simp_all add: trim_def trim_start_def trim_end_def trim_with_visible hd_rev)
qed

text \<open>What trimming takes off holds no visible ASCII.\<close>

lemma whitespace_invisible: "list_all (list_all (\<lambda>c. \<not> visible_ascii c)) whitespace"
  by (simp add: whitespace_def ascii_whitespace_def wide_whitespace_def visible_ascii_def byte_def)

lemma trim_with_split:
  "list_all (list_all (\<lambda>c. \<not> visible_ascii c)) ps \<Longrightarrow>
   \<exists>w. s = w @ trim_with ps s \<and> list_all (\<lambda>c. \<not> visible_ascii c) w"
proof (induction ps s rule: trim_with.induct)
  case (1 ps s)
  show ?case
  proof (cases "strip_any ps s")
    case None
    then show ?thesis by (intro exI [of _ "[]"]) (subst trim_with.simps, simp)
  next
    case (Some r)
    then obtain p where p: "p \<in> set ps" "s = p @ r"
      by (auto simp: strip_any_def strip_prefix_Some_iff dest!: find_map_SomeD split: if_splits)
    obtain w where "r = w @ trim_with ps r" "list_all (\<lambda>c. \<not> visible_ascii c) w"
      using "1.IH" [OF Some "1.prems"] by blast
    moreover have "list_all (\<lambda>c. \<not> visible_ascii c) p" using "1.prems" p by (auto simp: list_all_iff)
    moreover have "trim_with ps s = trim_with ps r" using Some by (subst trim_with.simps) simp
    ultimately show ?thesis by (intro exI [of _ "p @ w"]) (use p in simp)
  qed
qed

lemma trim_end_split: "\<exists>w. s = trim_end s @ w \<and> list_all (\<lambda>c. \<not> visible_ascii c) w"
proof -
  have "list_all (list_all (\<lambda>c. \<not> visible_ascii c)) (map rev whitespace)"
    using whitespace_invisible by (auto simp: list_all_iff)
  from trim_with_split [OF this, of "rev s"] obtain w
    where w: "rev s = w @ rev (trim_end s)" "list_all (\<lambda>c. \<not> visible_ascii c) w"
    by (auto simp: trim_end_def)
  from w(1) have "s = trim_end s @ rev w" by (metis rev_append rev_rev_ident)
  moreover have "list_all (\<lambda>c. \<not> visible_ascii c) (rev w)" using w(2) by (auto simp: list_all_iff)
  ultimately show ?thesis by blast
qed

text \<open>\<open>s.contains(p)\<close>, \<open>s.split_once(p)\<close>, \<open>[..].join(sep)\<close>.\<close>

fun split_once :: "string \<Rightarrow> string \<Rightarrow> (string \<times> string) option" where
  "split_once p [] = (if p = [] then Some ([], []) else None)"
| "split_once p (c # s) =
     (case strip_prefix p (c # s) of
        Some r \<Rightarrow> Some ([], r)
      | None \<Rightarrow> map_option (\<lambda>(a, b). (c # a, b)) (split_once p s))"

lemma split_once_SomeD: "split_once p s = Some (a, b) \<Longrightarrow> s = a @ p @ b"
  by (induction p s arbitrary: a b rule: split_once.induct)
    (auto simp: strip_prefix_Some_iff split: if_splits option.splits)

text \<open>\<open>split(d)\<close> for one character.\<close>

fun split_char :: "char \<Rightarrow> string \<Rightarrow> string list" where
  "split_char d [] = [[]]"
| "split_char d (c # s) =
     (if c = d then [] # split_char d s
      else (case split_char d s of [] \<Rightarrow> [[c]] | p # ps \<Rightarrow> (c # p) # ps))"

definition str_contains :: "string \<Rightarrow> string \<Rightarrow> bool" where
  "str_contains s p = (split_once p s \<noteq> None)"

definition starts_with :: "string \<Rightarrow> string \<Rightarrow> bool" where
  "starts_with s p = (strip_prefix p s \<noteq> None)"

lemma starts_with_iff: "starts_with s p \<longleftrightarrow> prefix p s"
  by (auto simp: starts_with_def strip_prefix_Some_iff prefix_def)

lemma split_once_None_iff: "split_once p s = None \<longleftrightarrow> \<not> sublist p s"
proof (induction p s rule: split_once.induct)
  case (1 p)
  then show ?case by simp
next
  case (2 p c s)
  show ?case
  proof (cases "strip_prefix p (c # s)")
    case None
    then have "\<not> prefix p (c # s)" by (auto simp: strip_prefix_Some_iff prefix_def)
    with None 2 show ?thesis by (simp add: sublist_Cons_right)
  next
    case (Some r)
    then have "prefix p (c # s)" by (auto simp: strip_prefix_Some_iff prefix_def)
    with Some show ?thesis by (simp add: sublist_Cons_right)
  qed
qed

lemma str_contains_iff: "str_contains s p \<longleftrightarrow> sublist p s"
  by (simp add: str_contains_def split_once_None_iff)

fun join :: "string \<Rightarrow> string list \<Rightarrow> string" where
  "join sep [] = []"
| "join sep [s] = s"
| "join sep (s # t # ss) = s @ sep @ join sep (t # ss)"

lemma join_empty_sep: "join [] ss = concat ss"
  by (induction "[] :: string" ss rule: join.induct) auto

text \<open>Decimal digits, as \<open>format!("{}", n)\<close> prints an unsigned integer.\<close>

fun show_nat :: "nat \<Rightarrow> string" where
  "show_nat n = (if n < 10 then [byte (48 + n)] else show_nat (n div 10) @ [byte (48 + n mod 10)])"

declare show_nat.simps [simp del]

definition show_int :: "int \<Rightarrow> string" where
  "show_int i = (if i < 0 then ''-'' @ show_nat (nat (- i)) else show_nat (nat i))"

definition newline :: string where
  "newline = [byte 10]"

definition quoted :: "string \<Rightarrow> string" where
  "quoted s = [byte 39] @ s @ [byte 39]"

subsection \<open>Signed 32-bit counters\<close>

type_synonym i32 = "32 word"
type_synonym u32 = "32 word"

definition i32_max :: int where "i32_max = 2 ^ 31 - 1"
definition i32_min :: int where "i32_min = - (2 ^ 31)"

definition clamp_i32 :: "int \<Rightarrow> int" where
  "clamp_i32 i = max i32_min (min i32_max i)"

text \<open>\<open>i32::saturating_add\<close>.\<close>

definition saturating_add :: "i32 \<Rightarrow> i32 \<Rightarrow> i32" where
  "saturating_add a b = word_of_int (clamp_i32 (sint a + sint b))"

lemma clamp_i32_range: "i32_min \<le> clamp_i32 i" "clamp_i32 i \<le> i32_max"
  by (simp_all add: clamp_i32_def i32_min_def i32_max_def)

lemma sint_word_of_int_i32:
  "i32_min \<le> i \<Longrightarrow> i \<le> i32_max \<Longrightarrow> sint (word_of_int i :: i32) = i"
  by (simp add: signed_of_int signed_take_bit_int_eq_self i32_min_def i32_max_def)

lemma sint_i32_range: "i32_min \<le> sint (a :: i32)" "sint (a :: i32) \<le> i32_max"
  using sint_greater_eq [of a] sint_less [of a] by (simp_all add: i32_min_def i32_max_def)

lemma sint_saturating_add: "sint (saturating_add a b) = clamp_i32 (sint a + sint b)"
  by (simp add: saturating_add_def sint_word_of_int_i32 clamp_i32_range)

lemma saturating_add_commute: "saturating_add a b = saturating_add b a"
  by (simp add: saturating_add_def add.commute)

end
