(* ===== verification/Json.thy ===== *)
theory Json
  imports Prelude
begin

text \<open>
  The values the code exchanges as \<open>serde_json::Value\<close>, with the accessors it uses.
  Objects keep insertion order (the workspace turns the \<open>preserve_order\<close> feature on, in
  \<open>crates/aibuddy-context-management/Cargo.toml\<close>, and Cargo unifies features), so an object
  is an association list; \<open>insert\<close> replaces the value of a present key in place.
  A float is kept as its bit pattern: no arithmetic on JSON floats is modelled.
\<close>

type_synonym f64_bits = "64 word"

datatype json =
    JNull
  | JBool bool
  | JInt int
  | JFloat f64_bits
  | JStr string
  | JArr "json list"
  | JObj "(string \<times> json) list"

type_synonym json_object = "(string \<times> json) list"

definition map_insert :: "'k \<Rightarrow> 'v \<Rightarrow> ('k \<times> 'v) list \<Rightarrow> ('k \<times> 'v) list" where
  "map_insert k v m =
     (if k \<in> set (map fst m) then map (\<lambda>(k', v'). if k' = k then (k', v) else (k', v')) m
      else m @ [(k, v)])"

fun json_get :: "json \<Rightarrow> string \<Rightarrow> json option" where
  "json_get (JObj m) k = map_of m k"
| "json_get _ k = None"

fun json_as_str :: "json \<Rightarrow> string option" where
  "json_as_str (JStr s) = Some s"
| "json_as_str _ = None"

fun json_as_bool :: "json \<Rightarrow> bool option" where
  "json_as_bool (JBool b) = Some b"
| "json_as_bool _ = None"

fun json_as_u64 :: "json \<Rightarrow> nat option" where
  "json_as_u64 (JInt i) = (if 0 \<le> i \<and> i < 2 ^ 64 then Some (nat i) else None)"
| "json_as_u64 _ = None"

fun json_as_i64 :: "json \<Rightarrow> int option" where
  "json_as_i64 (JInt i) = (if - (2 ^ 63) \<le> i \<and> i < 2 ^ 63 then Some i else None)"
| "json_as_i64 _ = None"

fun json_as_array :: "json \<Rightarrow> json list option" where
  "json_as_array (JArr vs) = Some vs"
| "json_as_array _ = None"

fun json_as_object :: "json \<Rightarrow> json_object option" where
  "json_as_object (JObj m) = Some m"
| "json_as_object _ = None"

text \<open>
  \<open>==\<close> of values: the order of an object's entries does not count.
\<close>

function json_equal :: "json \<Rightarrow> json \<Rightarrow> bool" where
  "json_equal (JArr vs) (JArr ws) =
     (length vs = length ws \<and> list_all (\<lambda>(v, w). json_equal v w) (zip vs ws))"
| "json_equal (JObj m) (JObj m') =
     (length m = length m' \<and>
      list_all (\<lambda>(k, v). case map_of m' k of Some v' \<Rightarrow> json_equal v v' | None \<Rightarrow> False) m)"
| "json_equal JNull w = (w = JNull)"
| "json_equal (JBool b) w = (w = JBool b)"
| "json_equal (JInt i) w = (w = JInt i)"
| "json_equal (JFloat x) w = (w = JFloat x)"
| "json_equal (JStr s) w = (w = JStr s)"
| "json_equal (JArr vs) JNull = False"
| "json_equal (JArr vs) (JBool b) = False"
| "json_equal (JArr vs) (JInt i) = False"
| "json_equal (JArr vs) (JFloat x) = False"
| "json_equal (JArr vs) (JStr s) = False"
| "json_equal (JArr vs) (JObj m) = False"
| "json_equal (JObj m) JNull = False"
| "json_equal (JObj m) (JBool b) = False"
| "json_equal (JObj m) (JInt i) = False"
| "json_equal (JObj m) (JFloat x) = False"
| "json_equal (JObj m) (JStr s) = False"
| "json_equal (JObj m) (JArr vs) = False"
  by pat_completeness auto
termination
  by (relation "measure (\<lambda>(v, w). size v)")
    (auto dest!: set_zip_leftD simp: less_Suc_eq_le size_list_estimation')

lemma map_of_map_replace:
  "map_of (map (\<lambda>(k', v'). if k' = k then (k', v) else (k', v')) m) j =
     (if j = k then map_option (\<lambda>_. v) (map_of m j) else map_of m j)"
  by (induction m) auto

lemma map_insert_lookup [simp]:
  "map_of (map_insert k v m) j = (if j = k then Some v else map_of m j)"
proof (cases "k \<in> set (map fst m)")
  case True
  then obtain v' where "map_of m k = Some v'"
    by (metis map_of_eq_None_iff not_None_eq set_map)
  with True show ?thesis by (simp add: map_insert_def map_of_map_replace)
next
  case False
  then have "map_of m k = None" by (simp add: map_of_eq_None_iff)
  with False show ?thesis by (auto simp: map_insert_def map_add_def split: option.splits)
qed

lemma map_fst_replace:
  "map fst (map (\<lambda>(k', v'). if k' = k then (k', v) else (k', v')) m) = map fst m"
  by (induction m) auto

lemma map_insert_keys: "set (map fst (map_insert k v m)) = insert k (set (map fst m))"
proof (cases "k \<in> set (map fst m)")
  case True
  then show ?thesis by (simp only: map_insert_def if_True map_fst_replace) blast
next
  case False
  then show ?thesis by (simp add: map_insert_def)
qed

lemma map_insert_distinct:
  "distinct (map fst m) \<Longrightarrow> distinct (map fst (map_insert k v m))"
proof (cases "k \<in> set (map fst m)")
  case True
  then show "distinct (map fst m) \<Longrightarrow> ?thesis"
    by (simp only: map_insert_def if_True map_fst_replace)
next
  case False
  then show "distinct (map fst m) \<Longrightarrow> ?thesis" by (simp add: map_insert_def)
qed

end
