(* ===== verification/Token_Usage.thy ===== *)
theory Token_Usage
  imports Json
begin

text \<open>
  \<open>crates/aibuddy-provider-types/src/conversation/token_usage.rs\<close>: token counters of a
  provider call.  The counters are \<open>i32\<close> (32-bit words): \<open>Usage::new\<close> saturates, the
  \<open>+\<close> of \<open>sum_optionals\<close> wraps, as in the release profile.  Costs are \<open>f64\<close> bit patterns.
\<close>

subsection \<open>Data\<close>

datatype cost_source = ProviderReported | Estimated

record draft_stats =
  ds_model :: "string option"
  ds_draft_tokens :: nat
  ds_accepted_tokens :: nat
  ds_target_tokens :: nat
  ds_rounds :: nat
  ds_accept_rate :: f64_bits

record provider_stats =
  time_to_first_token_ms :: "nat option"
  model_load_ms :: "nat option"
  elapsed_ms :: "nat option"
  stats_output_tokens :: "nat option"
  draft :: "draft_stats option"

record usage =
  input_tokens :: "i32 option"
  output_tokens :: "i32 option"
  total_tokens :: "i32 option"
  cache_read_input_tokens :: "i32 option"
  cache_write_input_tokens :: "i32 option"

record provider_usage =
  pu_model :: string
  pu_usage :: usage
  pu_stats :: "provider_stats option"
  pu_cost :: "f64_bits option"
  pu_cost_source :: "cost_source option"
  pu_finish_reasons :: "string list option"
  pu_response_id :: "string option"
  pu_additional_data :: "json_object option"

subsection \<open>Operations\<close>

definition provider_usage_new :: "string \<Rightarrow> usage \<Rightarrow> provider_usage" where
  "provider_usage_new m u =
     \<lparr>pu_model = m, pu_usage = u, pu_stats = None, pu_cost = None, pu_cost_source = None,
      pu_finish_reasons = None, pu_response_id = None, pu_additional_data = None\<rparr>"

definition pu_with_cost :: "f64_bits \<Rightarrow> cost_source \<Rightarrow> provider_usage \<Rightarrow> provider_usage" where
  "pu_with_cost c src pu = pu\<lparr>pu_cost := Some c, pu_cost_source := Some src\<rparr>"

definition usage_default :: usage where
  "usage_default = \<lparr>input_tokens = None, output_tokens = None, total_tokens = None,
     cache_read_input_tokens = None, cache_write_input_tokens = None\<rparr>"

fun sum_optionals :: "i32 option \<Rightarrow> i32 option \<Rightarrow> i32 option" where
  "sum_optionals (Some x) (Some y) = Some (x + y)"
| "sum_optionals (Some x) None = Some x"
| "sum_optionals None (Some y) = Some y"
| "sum_optionals None None = None"

definition usage_new :: "i32 option \<Rightarrow> i32 option \<Rightarrow> i32 option \<Rightarrow> usage" where
  "usage_new i out t =
     (let calculated_total =
        (if t = None then
           (case (i, out) of
              (Some a, Some b) \<Rightarrow> Some (saturating_add a b)
            | (Some a, None) \<Rightarrow> Some a
            | (None, Some b) \<Rightarrow> Some b
            | (None, None) \<Rightarrow> None)
         else t)
      in \<lparr>input_tokens = i, output_tokens = out, total_tokens = calculated_total,
          cache_read_input_tokens = None, cache_write_input_tokens = None\<rparr>)"

definition with_cache_tokens :: "i32 option \<Rightarrow> i32 option \<Rightarrow> usage \<Rightarrow> usage" where
  "with_cache_tokens r w u =
     u\<lparr>cache_read_input_tokens := r, cache_write_input_tokens := w\<rparr>"

definition usage_add :: "usage \<Rightarrow> usage \<Rightarrow> usage" where
  "usage_add a b =
     with_cache_tokens
       (sum_optionals (cache_read_input_tokens a) (cache_read_input_tokens b))
       (sum_optionals (cache_write_input_tokens a) (cache_write_input_tokens b))
       (usage_new
         (sum_optionals (input_tokens a) (input_tokens b))
         (sum_optionals (output_tokens a) (output_tokens b))
         (sum_optionals (total_tokens a) (total_tokens b)))"

definition from_cache_exclusive_input ::
  "i32 option \<Rightarrow> i32 option \<Rightarrow> i32 option \<Rightarrow> i32 option \<Rightarrow> i32 option \<Rightarrow> usage" where
  "from_cache_exclusive_input i out t r w =
     (let cache_tokens = saturating_add (unwrap_or r 0) (unwrap_or w 0) in
      with_cache_tokens r w
        (usage_new (map_option (\<lambda>v. saturating_add v cache_tokens) i) out
          (map_option (\<lambda>v. saturating_add v cache_tokens) t)))"

subsection \<open>Algebra of the counters\<close>

text \<open>
  A usage built by \<open>Usage::new\<close> has a total whenever it has a part; \<open>has_total\<close> says so,
  and every operation keeps it.
\<close>

definition has_total :: "usage \<Rightarrow> bool" where
  "has_total u \<longleftrightarrow>
     (total_tokens u = None \<longrightarrow> input_tokens u = None \<and> output_tokens u = None)"

lemma sum_optionals_None_iff [simp]: "sum_optionals a b = None \<longleftrightarrow> a = None \<and> b = None"
  by (cases a; cases b) simp_all

lemma sum_optionals_right_None [simp]: "sum_optionals a None = a"
  by (cases a) simp_all

lemma sum_optionals_left_None [simp]: "sum_optionals None a = a"
  by (cases a) simp_all

lemma sum_optionals_commute: "sum_optionals a b = sum_optionals b a"
  by (cases a; cases b) simp_all

lemma sum_optionals_assoc:
  "sum_optionals (sum_optionals a b) c = sum_optionals a (sum_optionals b c)"
  by (cases a; cases b; cases c) simp_all

lemma has_total_usage_new [simp]: "has_total (usage_new i out t)"
  by (auto simp: has_total_def usage_new_def Let_def split: option.splits)

lemma has_total_with_cache [simp]: "has_total (with_cache_tokens r w u) \<longleftrightarrow> has_total u"
  by (simp add: has_total_def with_cache_tokens_def)

lemma has_total_usage_add [simp]: "has_total (usage_add a b)"
  by (simp add: usage_add_def)

lemma has_total_default [simp]: "has_total usage_default"
  by (simp add: has_total_def usage_default_def)

lemma usage_new_total: "t \<noteq> None \<or> i = None \<and> out = None \<Longrightarrow> total_tokens (usage_new i out t) = t"
  by (auto simp: usage_new_def)

lemma usage_new_fields [simp]:
  "input_tokens (usage_new i out t) = i"
  "output_tokens (usage_new i out t) = out"
  "cache_read_input_tokens (usage_new i out t) = None"
  "cache_write_input_tokens (usage_new i out t) = None"
  by (simp_all add: usage_new_def Let_def)

lemma with_cache_fields [simp]:
  "input_tokens (with_cache_tokens r w u) = input_tokens u"
  "output_tokens (with_cache_tokens r w u) = output_tokens u"
  "total_tokens (with_cache_tokens r w u) = total_tokens u"
  "cache_read_input_tokens (with_cache_tokens r w u) = r"
  "cache_write_input_tokens (with_cache_tokens r w u) = w"
  by (simp_all add: with_cache_tokens_def)

lemma usage_add_fields:
  "input_tokens (usage_add a b) = sum_optionals (input_tokens a) (input_tokens b)"
  "output_tokens (usage_add a b) = sum_optionals (output_tokens a) (output_tokens b)"
  "cache_read_input_tokens (usage_add a b) =
     sum_optionals (cache_read_input_tokens a) (cache_read_input_tokens b)"
  "cache_write_input_tokens (usage_add a b) =
     sum_optionals (cache_write_input_tokens a) (cache_write_input_tokens b)"
  by (simp_all add: usage_add_def)

lemma usage_add_total:
  assumes "has_total a" "has_total b"
  shows "total_tokens (usage_add a b) = sum_optionals (total_tokens a) (total_tokens b)"
proof -
  have "sum_optionals (total_tokens a) (total_tokens b) \<noteq> None \<or>
      sum_optionals (input_tokens a) (input_tokens b) = None \<and>
      sum_optionals (output_tokens a) (output_tokens b) = None"
    using assms by (auto simp: has_total_def)
  then show ?thesis by (simp only: usage_add_def with_cache_fields usage_new_total)
qed

lemma usage_eqI:
  assumes "input_tokens a = input_tokens b" "output_tokens a = output_tokens b"
    "total_tokens a = total_tokens b"
    "cache_read_input_tokens a = cache_read_input_tokens b"
    "cache_write_input_tokens a = cache_write_input_tokens b"
  shows "a = (b :: usage)"
  using assms by (cases a; cases b) simp

end
