(* ===== verification/Provider_Error.thy ===== *)
theory Provider_Error
  imports Prelude
begin

text \<open>
  \<open>crates/aibuddy-provider-types/src/errors.rs\<close>: the errors a provider call returns, with
  their display strings and telemetry classes.  A \<open>Duration\<close> is a number of milliseconds.
\<close>

datatype provider_error =
    NotConfigured
  | Authentication string
  | ContextLengthExceeded string
  | RateLimitExceeded (rl_details: string) (rl_retry_delay: "nat option")
  | ServerError string
  | NetworkError string
  | RequestFailed string
  | InvalidValue string
  | ExecutionError string
  | UsageError string
  | NotImplemented string
  | EndpointNotFound string
  | CreditsExhausted (ce_details: string) (ce_top_up_url: "string option")
  | Refusal (rf_details: string) (rf_category: "string option")

fun error_display :: "provider_error \<Rightarrow> string" where
  "error_display NotConfigured = ''Provider is not configured''"
| "error_display (Authentication s) = ''Authentication error: '' @ s"
| "error_display (ContextLengthExceeded s) = ''Context length exceeded: '' @ s"
| "error_display (RateLimitExceeded d r) = ''Rate limit exceeded: '' @ d"
| "error_display (ServerError s) = ''Server error: '' @ s"
| "error_display (NetworkError s) = ''Network error: '' @ s"
| "error_display (RequestFailed s) = ''Request failed: '' @ s"
| "error_display (InvalidValue s) = ''Invalid value: '' @ s"
| "error_display (ExecutionError s) = ''Execution error: '' @ s"
| "error_display (UsageError s) = ''Usage data error: '' @ s"
| "error_display (NotImplemented s) = ''Unsupported operation: '' @ s"
| "error_display (EndpointNotFound s) = ''Endpoint not found (404): '' @ s"
| "error_display (CreditsExhausted d u) = ''Credits exhausted: '' @ d"
| "error_display (Refusal d c) = ''Provider refused request: '' @ d"

fun telemetry_type :: "provider_error \<Rightarrow> string" where
  "telemetry_type NotConfigured = ''not_configured''"
| "telemetry_type (Authentication _) = ''auth''"
| "telemetry_type (ContextLengthExceeded _) = ''context_length''"
| "telemetry_type (RateLimitExceeded _ _) = ''rate_limit''"
| "telemetry_type (ServerError _) = ''server''"
| "telemetry_type (NetworkError _) = ''network''"
| "telemetry_type (RequestFailed _) = ''request''"
| "telemetry_type (InvalidValue _) = ''invalid_value''"
| "telemetry_type (ExecutionError _) = ''execution''"
| "telemetry_type (UsageError _) = ''usage''"
| "telemetry_type (NotImplemented _) = ''not_implemented''"
| "telemetry_type (EndpointNotFound _) = ''endpoint_not_found''"
| "telemetry_type (CreditsExhausted _ _) = ''credits_exhausted''"
| "telemetry_type (Refusal _ _) = ''refusal''"

fun is_endpoint_not_found :: "provider_error \<Rightarrow> bool" where
  "is_endpoint_not_found (EndpointNotFound _) = True"
| "is_endpoint_not_found _ = False"

lemma telemetry_type_endpoint:
  "telemetry_type e = ''endpoint_not_found'' \<longleftrightarrow> is_endpoint_not_found e"
  by (cases e) simp_all

lemma error_display_not_empty: "error_display e \<noteq> []"
  by (cases e) simp_all

end
