(* ===== verification/Messages.thy ===== *)
theory Messages
  imports Token_Usage Provider_Error
begin

text \<open>
  \<open>crates/aibuddy-provider-types/src/conversation/message.rs\<close> and \<open>tool_request.rs\<close>:
  the messages of a conversation, their content blocks and metadata, the constructors and
  accessors, the filters by audience.  The protocol types of the \<open>rmcp\<close> crate appear with
  the fields the code reads; a block kind the code only meets in a wildcard arm is
  \<open>COther\<close>.  Unicode normalisation and base64 are parameters (\<open>ext_env\<close>), as is the clock.
\<close>

subsection \<open>Library functions the code calls\<close>

record ext_env =
  nfc :: "string \<Rightarrow> string"
  b64_decode :: "string \<Rightarrow> string option"
  b64_encode :: "string \<Rightarrow> string"
  now :: int

subsection \<open>Protocol types\<close>

datatype role = User | Assistant

record annotations =
  audience :: "role list option"
  ann_priority :: "f64_bits option"
  ann_last_modified :: "string option"

record text_content =
  tc_text :: string
  tc_annotations :: "annotations option"
  tc_meta :: "json_object option"

record image_content =
  img_data :: string
  img_mime_type :: string
  img_annotations :: "annotations option"
  img_meta :: "json_object option"

datatype resource_contents =
    TextResource (tr_uri: string) (tr_mime: "string option") (tr_text: string)
  | BlobResource (br_uri: string) (br_mime: "string option") (br_blob: string)
  | OtherResource json

datatype content_block =
    CText text_content
  | CImage image_content
  | CAudio (ca_data: string) (ca_annotations: "annotations option")
  | CResource (cr_resource: resource_contents) (cr_annotations: "annotations option")
  | CResourceLink (cl_uri: string) (cl_annotations: "annotations option")
  | COther json

record error_data =
  ed_code :: int
  ed_message :: string
  ed_data :: "json option"

record call_tool_params =
  ct_name :: string
  ct_arguments :: "json_object option"

record call_tool_result =
  cr_content :: "content_block list"
  cr_structured_content :: "json option"
  cr_is_error :: "bool option"
  cr_meta :: "json_object option"

datatype elicitation_action = ElicitAccept | ElicitDecline | ElicitCancel

definition text_content_new :: "string \<Rightarrow> text_content" where
  "text_content_new s = \<lparr>tc_text = s, tc_annotations = None, tc_meta = None\<rparr>"

definition content_text :: "string \<Rightarrow> content_block" where
  "content_text s = CText (text_content_new s)"

definition call_result_error :: "content_block list \<Rightarrow> call_tool_result" where
  "call_result_error cs =
     \<lparr>cr_content = cs, cr_structured_content = None, cr_is_error = Some True, cr_meta = None\<rparr>"

definition call_result_success :: "content_block list \<Rightarrow> call_tool_result" where
  "call_result_success cs =
     \<lparr>cr_content = cs, cr_structured_content = None, cr_is_error = Some False, cr_meta = None\<rparr>"

subsection \<open>Content blocks\<close>

datatype permission = AlwaysAllow | AllowOnce | Cancel | DenyOnce | AlwaysDeny

record tool_request =
  tq_id :: string
  tq_tool_call :: "error_data + call_tool_params"
  tq_metadata :: "json_object option"
  tq_tool_meta :: "json option"

record tool_name_parts =
  tn_extension_name :: "string option"
  tn_tool_name :: string

record tool_chain_summary =
  tcs_summary :: string
  tcs_count :: nat

record tool_response =
  tr_id :: string
  tr_tool_result :: "error_data + call_tool_result"
  tr_metadata :: "json_object option"

record tool_confirmation_request =
  tcr_id :: string
  tcr_tool_name :: string
  tcr_arguments :: json_object
  tcr_prompt :: "string option"

datatype action_required_data =
    ToolConfirmation (ac_id: string) (ac_tool_name: string) (ac_arguments: json_object)
      (ac_prompt: "string option")
  | Elicitation (el_id: string) (el_message: string) (el_schema: json)
  | ElicitationResponse (er_id: string) (er_user_data: json) (er_action: elicitation_action)
  | ToolConfirmationResponse (cp_id: string) (cp_permission: permission)

record thinking_block =
  thinking :: string
  signature :: string

datatype system_notification_type =
  ThinkingMessage | ProgressMessage | InlineMessage | CreditsExhaustedNotice

record system_notification =
  sn_type :: system_notification_type
  sn_msg :: string
  sn_data :: "json option"

datatype message_error_kind = KAuthentication | KContextLengthExceeded | KCreditsExhausted | KOther

fun error_kind_of :: "provider_error \<Rightarrow> message_error_kind" where
  "error_kind_of (Authentication _) = KAuthentication"
| "error_kind_of (ContextLengthExceeded _) = KContextLengthExceeded"
| "error_kind_of (CreditsExhausted _ _) = KCreditsExhausted"
| "error_kind_of _ = KOther"

record error_content =
  ec_kind :: message_error_kind
  ec_message :: string

record document_content =
  doc_data :: string
  doc_mime_type :: string
  doc_name :: "string option"

datatype message_content =
    Text text_content
  | Image image_content
  | Document document_content
  | ToolRequest tool_request
  | ToolResponse tool_response
  | ToolConfirmationRequest tool_confirmation_request
  | ActionRequired action_required_data
  | Thinking thinking_block
  | RedactedThinking string
  | SystemNotification system_notification
  | Error error_content

subsection \<open>Messages\<close>

record inference_metadata =
  im_provider :: string
  im_requested_model :: string
  im_resolved_model :: "string option"
  im_provider_session_id :: "string option"

record message_usage =
  mu_input_tokens :: "i32 option"
  mu_output_tokens :: "i32 option"
  mu_total_tokens :: "i32 option"
  mu_cache_read_tokens :: "i32 option"
  mu_cache_write_tokens :: "i32 option"
  mu_cost :: "f64_bits option"
  mu_cost_source :: "cost_source option"
  mu_elapsed_ms :: "nat option"
  mu_time_to_first_token_ms :: "nat option"
  mu_is_compaction :: bool

type_synonym operation_notes = "(string \<times> json_object) list"

record message_metadata =
  user_visible :: bool
  agent_visible :: bool
  inference :: "inference_metadata option"
  output_token_limit_reached :: bool
  steer :: bool
  turn_context :: bool
  md_usage :: "message_usage option"
  operations :: "operation_notes option"

record message =
  msg_id :: "string option"
  msg_role :: role
  msg_created :: int
  msg_content :: "message_content list"
  msg_metadata :: message_metadata

subsection \<open>Text sanitising\<close>

text \<open>
  \<open>utils.rs\<close>: NFC normalisation, then the characters U+E0000 to U+E007F are dropped.  Their
  encodings are the four-byte sequences F3 A0 80 xx and F3 A0 81 xx.
\<close>

fun strip_unicode_tags :: "string \<Rightarrow> string" where
  "strip_unicode_tags (a # b # c # d # s) =
     (if a = byte 0xF3 \<and> b = byte 0xA0 \<and> (c = byte 0x80 \<or> c = byte 0x81)
      then strip_unicode_tags s
      else a # strip_unicode_tags (b # c # d # s))"
| "strip_unicode_tags s = s"

definition sanitize_unicode_tags :: "ext_env \<Rightarrow> string \<Rightarrow> string" where
  "sanitize_unicode_tags E s = strip_unicode_tags (nfc E s)"

text \<open>\<open>String::from_utf8\<close>: the length of the first well-formed character, 0 for none.\<close>

definition is_cont :: "char \<Rightarrow> bool" where
  "is_cont c \<longleftrightarrow> (of_char c :: nat) div 64 = 2"

fun utf8_char_len :: "string \<Rightarrow> nat" where
  "utf8_char_len [] = 0"
| "utf8_char_len (a # s) =
     (let n = (of_char a :: nat);
          c = (\<lambda>i. i < length s \<and> is_cont (s ! i));
          b = (if s = [] then 0 else (of_char (hd s) :: nat)) in
      if n < 0x80 then 1
      else if 0xC2 \<le> n \<and> n \<le> 0xDF \<and> c 0 then 2
      else if (n = 0xE0 \<and> 0xA0 \<le> b \<or> n = 0xED \<and> b \<le> 0x9F \<or>
               0xE1 \<le> n \<and> n \<le> 0xEF \<and> n \<noteq> 0xED) \<and> c 0 \<and> c 1 then 3
      else if (n = 0xF0 \<and> 0x90 \<le> b \<or> 0xF1 \<le> n \<and> n \<le> 0xF3 \<or> n = 0xF4 \<and> b \<le> 0x8F)
              \<and> c 0 \<and> c 1 \<and> c 2 then 4
      else 0)"

function utf8_valid :: "string \<Rightarrow> bool" where
  "utf8_valid s =
     (if s = [] then True
      else if utf8_char_len s = 0 then False
      else utf8_valid (drop (utf8_char_len s) s))"
  by pat_completeness auto
termination
  by (relation "measure length") auto

declare utf8_valid.simps [simp del]

fun extract_text_from_resource :: "ext_env \<Rightarrow> resource_contents \<Rightarrow> string" where
  "extract_text_from_resource E (TextResource _ _ text) = sanitize_unicode_tags E text"
| "extract_text_from_resource E (BlobResource _ mime blob) =
     (case b64_decode E blob of
        Some bytes \<Rightarrow>
          if utf8_valid bytes then sanitize_unicode_tags E bytes
          else ''[Binary content ('' @ unwrap_or mime ''application/octet-stream'' @ '') - ''
               @ show_nat (length bytes) @ '' bytes]''
      | None \<Rightarrow> sanitize_unicode_tags E blob)"
| "extract_text_from_resource E (OtherResource _) = []"

fun sanitize_content_block :: "ext_env \<Rightarrow> content_block \<Rightarrow> content_block" where
  "sanitize_content_block E (CText t) =
     CText (t\<lparr>tc_text := sanitize_unicode_tags E (tc_text t)\<rparr>)"
| "sanitize_content_block E (CResource (TextResource u m text) a) =
     CResource (TextResource u m (sanitize_unicode_tags E text)) a"
| "sanitize_content_block E (CResource (BlobResource u m blob) a) =
     (case b64_decode E blob of
        None \<Rightarrow> CResource (BlobResource u m (sanitize_unicode_tags E blob)) a
      | Some bytes \<Rightarrow>
          if \<not> utf8_valid bytes then CResource (BlobResource u m blob) a
          else if bytes \<noteq> sanitize_unicode_tags E bytes
          then CResource (BlobResource u m (b64_encode E (sanitize_unicode_tags E bytes))) a
          else CResource (BlobResource u m blob) a)"
| "sanitize_content_block E c = c"

fun sanitize_tool_result ::
  "ext_env \<Rightarrow> error_data + call_tool_result \<Rightarrow> error_data + call_tool_result" where
  "sanitize_tool_result E (Inr r) =
     Inr (r\<lparr>cr_content := map (sanitize_content_block E) (cr_content r)\<rparr>)"
| "sanitize_tool_result E (Inl e) =
     Inl (e\<lparr>ed_message := sanitize_unicode_tags E (ed_message e)\<rparr>)"

subsection \<open>Tool requests\<close>

definition META_EXTERNAL_DISPATCH :: string where
  "META_EXTERNAL_DISPATCH = ''aibuddy.external_dispatch''"
definition META_TITLE :: string where
  "META_TITLE = ''aibuddy.toolSummary.title''"
definition META_PROVIDER_INDEX :: string where
  "META_PROVIDER_INDEX = ''aibuddy.toolCall.providerIndex''"
definition META_CHAIN_SUMMARY :: string where
  "META_CHAIN_SUMMARY = ''aibuddy.toolChain.summary''"

definition meta_get :: "tool_request \<Rightarrow> string \<Rightarrow> json option" where
  "meta_get r k = Option.bind (tq_tool_meta r) (\<lambda>v. json_get v k)"

definition tool_name_parts_of :: "string \<Rightarrow> tool_name_parts" where
  "tool_name_parts_of name =
     (case split_once ''__'' name of
        Some (ext, tool) \<Rightarrow> \<lparr>tn_extension_name = Some ext, tn_tool_name = tool\<rparr>
      | None \<Rightarrow> \<lparr>tn_extension_name = None, tn_tool_name = name\<rparr>)"

definition tq_name_parts :: "tool_request \<Rightarrow> tool_name_parts option" where
  "tq_name_parts r =
     (case tq_tool_call r of
        Inl _ \<Rightarrow> None
      | Inr call \<Rightarrow>
          (let name = ct_name call; parts = tool_name_parts_of name in
           case Option.bind (meta_get r ''aibuddy_extension'') json_as_str of
             None \<Rightarrow> Some parts
           | Some ext \<Rightarrow>
               Some \<lparr>tn_extension_name = Some ext,
                     tn_tool_name =
                       unwrap_or (Option.bind (strip_prefix ext name) (strip_prefix ''__''))
                         (tn_tool_name parts)\<rparr>))"

definition was_executed_externally :: "tool_request \<Rightarrow> bool" where
  "was_executed_externally r =
     unwrap_or (Option.bind (meta_get r META_EXTERNAL_DISPATCH) json_as_bool) False"

definition generated_title :: "tool_request \<Rightarrow> string option" where
  "generated_title r = Option.bind (meta_get r META_TITLE) json_as_str"

definition provider_index :: "tool_request \<Rightarrow> i32 option" where
  "provider_index r =
     map_option word_of_int (Option.bind (meta_get r META_PROVIDER_INDEX) json_as_i64)"

definition generated_chain_summary :: "tool_request \<Rightarrow> tool_chain_summary option" where
  "generated_chain_summary r =
     Option.bind (meta_get r META_CHAIN_SUMMARY) (\<lambda>obj.
       Option.bind (Option.bind (json_get obj ''summary'') json_as_str) (\<lambda>summary.
         Option.bind (Option.bind (json_get obj ''count'') json_as_u64) (\<lambda>count.
           if count = 0 then None
           else Some \<lparr>tcs_summary = summary, tcs_count = count\<rparr>)))"

end
