(* ===== verification/Message_Ops.thy ===== *)
theory Message_Ops
  imports Messages
begin

text \<open>
  The operations of \<open>message.rs\<close>: constructors and accessors of content blocks, the
  audience filters that project a message for the agent or for the user, the metadata
  builders and the message builders.  Each has its branches in the order of the source.
\<close>

subsection \<open>Audience of a block\<close>

definition audience_of :: "annotations option \<Rightarrow> role list option" where
  "audience_of a = Option.bind a audience"

definition audience_allows :: "role \<Rightarrow> role list option \<Rightarrow> bool" where
  "audience_allows r aud = (case aud of None \<Rightarrow> True | Some roles \<Rightarrow> r \<in> set roles)"

fun content_audience :: "content_block \<Rightarrow> role list option" where
  "content_audience (CText t) = audience_of (tc_annotations t)"
| "content_audience (CImage i) = audience_of (img_annotations i)"
| "content_audience (CAudio _ a) = audience_of a"
| "content_audience (CResource _ a) = audience_of a"
| "content_audience (CResourceLink _ a) = audience_of a"
| "content_audience (COther _) = None"

fun filter_for_audience :: "role \<Rightarrow> message_content \<Rightarrow> message_content option" where
  "filter_for_audience aud (Text t) =
     (if audience_allows aud (audience_of (tc_annotations t)) then Some (Text t) else None)"
| "filter_for_audience aud (Image i) =
     (if audience_allows aud (audience_of (img_annotations i)) then Some (Image i) else None)"
| "filter_for_audience aud (ToolResponse res) =
     (case tr_tool_result res of
        Inl _ \<Rightarrow> Some (ToolResponse res)
      | Inr result \<Rightarrow>
          Some (ToolResponse
            \<lparr>tr_id = tr_id res,
             tr_tool_result = Inr (result\<lparr>cr_content :=
               filter (\<lambda>c. audience_allows aud (content_audience c)) (cr_content result)\<rparr>),
             tr_metadata = tr_metadata res\<rparr>))"
| "filter_for_audience aud (Thinking t) = (if aud = Assistant then Some (Thinking t) else None)"
| "filter_for_audience aud (RedactedThinking d) =
     (if aud = Assistant then Some (RedactedThinking d) else None)"
| "filter_for_audience aud c = Some c"

fun content_user_visible :: "message_content \<Rightarrow> message_content option" where
  "content_user_visible (Text t) = filter_for_audience User (Text t)"
| "content_user_visible (Image i) = filter_for_audience User (Image i)"
| "content_user_visible (ToolResponse r) = filter_for_audience User (ToolResponse r)"
| "content_user_visible c = Some c"

subsection \<open>Block constructors and accessors\<close>

definition mc_text :: "string \<Rightarrow> message_content" where
  "mc_text s = Text (text_content_new s)"

definition mc_image :: "string \<Rightarrow> string \<Rightarrow> message_content" where
  "mc_image data mime =
     Image \<lparr>img_data = data, img_mime_type = mime, img_annotations = None, img_meta = None\<rparr>"

definition document_new :: "string \<Rightarrow> string \<Rightarrow> document_content" where
  "document_new data mime = \<lparr>doc_data = data, doc_mime_type = mime, doc_name = None\<rparr>"

definition mc_document :: "string \<Rightarrow> string \<Rightarrow> string option \<Rightarrow> message_content" where
  "mc_document data mime name =
     (let document = document_new data mime in
      Document (case name of Some n \<Rightarrow> document\<lparr>doc_name := Some n\<rparr> | None \<Rightarrow> document))"

definition mc_tool_request :: "string \<Rightarrow> error_data + call_tool_params \<Rightarrow> message_content" where
  "mc_tool_request i call =
     ToolRequest \<lparr>tq_id = i, tq_tool_call = call, tq_metadata = None, tq_tool_meta = None\<rparr>"

definition mc_tool_request_with_metadata ::
  "string \<Rightarrow> error_data + call_tool_params \<Rightarrow> json_object option \<Rightarrow> message_content" where
  "mc_tool_request_with_metadata i call md =
     ToolRequest \<lparr>tq_id = i, tq_tool_call = call, tq_metadata = md, tq_tool_meta = None\<rparr>"

definition mc_tool_request_with_provider_index ::
  "string \<Rightarrow> error_data + call_tool_params \<Rightarrow> json_object option \<Rightarrow> i32 \<Rightarrow> message_content"
where
  "mc_tool_request_with_provider_index i call md idx =
     ToolRequest \<lparr>tq_id = i, tq_tool_call = call, tq_metadata = md,
       tq_tool_meta = Some (JObj [(META_PROVIDER_INDEX, JInt (sint idx))])\<rparr>"

definition mc_tool_response ::
  "ext_env \<Rightarrow> string \<Rightarrow> error_data + call_tool_result \<Rightarrow> message_content" where
  "mc_tool_response E i result =
     ToolResponse \<lparr>tr_id = i, tr_tool_result = sanitize_tool_result E result, tr_metadata = None\<rparr>"

definition mc_tool_response_with_metadata ::
  "ext_env \<Rightarrow> string \<Rightarrow> error_data + call_tool_result \<Rightarrow> json_object option \<Rightarrow> message_content"
where
  "mc_tool_response_with_metadata E i result md =
     ToolResponse \<lparr>tr_id = i, tr_tool_result = sanitize_tool_result E result, tr_metadata = md\<rparr>"

definition mc_action_required ::
  "string \<Rightarrow> string \<Rightarrow> json_object \<Rightarrow> string option \<Rightarrow> message_content" where
  "mc_action_required i tool args prompt = ActionRequired (ToolConfirmation i tool args prompt)"

definition mc_tool_confirmation_response :: "string \<Rightarrow> permission \<Rightarrow> message_content" where
  "mc_tool_confirmation_response i p = ActionRequired (ToolConfirmationResponse i p)"

definition mc_thinking :: "string \<Rightarrow> string \<Rightarrow> message_content" where
  "mc_thinking t s = Thinking \<lparr>thinking = t, signature = s\<rparr>"

definition mc_system_notification ::
  "system_notification_type \<Rightarrow> string \<Rightarrow> message_content" where
  "mc_system_notification ty msg =
     SystemNotification \<lparr>sn_type = ty, sn_msg = msg, sn_data = None\<rparr>"

definition mc_error :: "message_error_kind \<Rightarrow> string \<Rightarrow> message_content" where
  "mc_error k msg = Error \<lparr>ec_kind = k, ec_message = msg\<rparr>"

fun as_error :: "message_content \<Rightarrow> error_content option" where
  "as_error (Error e) = Some e"
| "as_error _ = None"

fun as_tool_request :: "message_content \<Rightarrow> tool_request option" where
  "as_tool_request (ToolRequest r) = Some r"
| "as_tool_request _ = None"

fun as_tool_response :: "message_content \<Rightarrow> tool_response option" where
  "as_tool_response (ToolResponse r) = Some r"
| "as_tool_response _ = None"

fun as_action_required :: "message_content \<Rightarrow> action_required_data option" where
  "as_action_required (ActionRequired a) = Some a"
| "as_action_required _ = None"

fun as_text :: "message_content \<Rightarrow> string option" where
  "as_text (Text t) = Some (tc_text t)"
| "as_text _ = None"

fun as_thinking :: "message_content \<Rightarrow> thinking_block option" where
  "as_thinking (Thinking t) = Some t"
| "as_thinking _ = None"

fun block_as_text :: "content_block \<Rightarrow> string option" where
  "block_as_text (CText t) = Some (tc_text t)"
| "block_as_text _ = None"

definition filter_map :: "('a \<Rightarrow> 'b option) \<Rightarrow> 'a list \<Rightarrow> 'b list" where
  "filter_map f xs = List.map_filter f xs"

lemma filter_map_simps [simp]:
  "filter_map f [] = []"
  "filter_map f (x # xs) = (case f x of None \<Rightarrow> filter_map f xs | Some y \<Rightarrow> y # filter_map f xs)"
  "filter_map f (xs @ ys) = filter_map f xs @ filter_map f ys"
  by (simp_all add: filter_map_def map_filter_def split: option.splits)

lemma set_filter_map: "set (filter_map f xs) = {y. \<exists>x \<in> set xs. f x = Some y}"
  by (induction xs) (auto split: option.splits)

definition as_tool_response_text :: "message_content \<Rightarrow> string option" where
  "as_tool_response_text c =
     (case as_tool_response c of
        None \<Rightarrow> None
      | Some res \<Rightarrow>
          (case tr_tool_result res of
             Inl _ \<Rightarrow> None
           | Inr result \<Rightarrow>
               (let texts = filter_map block_as_text (cr_content result) in
                if texts \<noteq> [] then Some (join newline texts) else None)))"

fun content_from_block :: "ext_env \<Rightarrow> content_block \<Rightarrow> message_content" where
  "content_from_block E (CText t) = Text t"
| "content_from_block E (CImage i) = Image i"
| "content_from_block E (CResourceLink _ _) = mc_text ''[Resource link]''"
| "content_from_block E (CResource r _) = mc_text (extract_text_from_resource E r)"
| "content_from_block E (CAudio _ _) = mc_text ''[Audio content: not supported]''"
| "content_from_block E (COther _) = mc_text ''[Unsupported content]''"

subsection \<open>Metadata\<close>

definition metadata_default :: message_metadata where
  "metadata_default =
     \<lparr>user_visible = True, agent_visible = True, inference = None,
      output_token_limit_reached = False, steer = False, turn_context = False,
      md_usage = None, operations = None\<rparr>"

definition metadata_agent_only :: message_metadata where
  "metadata_agent_only = metadata_default\<lparr>user_visible := False, agent_visible := True\<rparr>"

definition metadata_user_only :: message_metadata where
  "metadata_user_only = metadata_default\<lparr>user_visible := True, agent_visible := False\<rparr>"

definition metadata_invisible :: message_metadata where
  "metadata_invisible = metadata_default\<lparr>user_visible := False, agent_visible := False\<rparr>"

definition operation_note :: "message_metadata \<Rightarrow> string \<Rightarrow> string \<Rightarrow> json option" where
  "operation_note md oper k =
     Option.bind (operations md) (\<lambda>notes. Option.bind (map_of notes oper) (\<lambda>o'. map_of o' k))"

definition set_operation_note ::
  "string \<Rightarrow> string \<Rightarrow> json \<Rightarrow> message_metadata \<Rightarrow> message_metadata" where
  "set_operation_note oper k v md =
     (let notes = unwrap_or (operations md) [];
          entry = unwrap_or (map_of notes oper) []
      in md\<lparr>operations := Some (map_insert oper (map_insert k v entry) notes)\<rparr>)"

definition message_usage_from :: "provider_usage \<Rightarrow> bool \<Rightarrow> message_usage" where
  "message_usage_from pu is_compaction =
     \<lparr>mu_input_tokens = input_tokens (pu_usage pu),
      mu_output_tokens = output_tokens (pu_usage pu),
      mu_total_tokens = total_tokens (pu_usage pu),
      mu_cache_read_tokens = cache_read_input_tokens (pu_usage pu),
      mu_cache_write_tokens = cache_write_input_tokens (pu_usage pu),
      mu_cost = pu_cost pu,
      mu_cost_source = pu_cost_source pu,
      mu_elapsed_ms = Option.bind (pu_stats pu) elapsed_ms,
      mu_time_to_first_token_ms = Option.bind (pu_stats pu) time_to_first_token_ms,
      mu_is_compaction = is_compaction\<rparr>"

subsection \<open>Messages\<close>

definition message_new :: "role \<Rightarrow> int \<Rightarrow> message_content list \<Rightarrow> message" where
  "message_new r t cs =
     \<lparr>msg_id = None, msg_role = r, msg_created = t, msg_content = cs,
      msg_metadata = metadata_default\<rparr>"

definition message_user :: "ext_env \<Rightarrow> message" where
  "message_user E = message_new User (now E) []"

definition message_assistant :: "ext_env \<Rightarrow> message" where
  "message_assistant E = message_new Assistant (now E) []"

definition agent_visible_content :: "message \<Rightarrow> message" where
  "agent_visible_content m =
     m\<lparr>msg_content := filter_map (filter_for_audience Assistant) (msg_content m)\<rparr>"

text \<open>
  The user projection joins neighbouring text blocks of equal audience: one step of the loop
  (\<open>push_user_visible\<close>) sees the blocks collected so far and the next visible block.
\<close>

definition push_user_visible :: "message_content list \<Rightarrow> message_content \<Rightarrow> message_content list" where
  "push_user_visible acc c =
     (case (last_opt acc, c) of
        (Some (Text l), Text n) \<Rightarrow>
          if audience_of (tc_annotations l) = audience_of (tc_annotations n)
          then butlast acc @ [Text (l\<lparr>tc_text := tc_text l @ tc_text n\<rparr>)]
          else acc @ [c]
      | _ \<Rightarrow> acc @ [c])"

definition user_visible_content :: "message \<Rightarrow> message" where
  "user_visible_content m =
     m\<lparr>msg_content :=
        foldl push_user_visible [] (filter_map content_user_visible (msg_content m))\<rparr>"

definition with_id :: "string \<Rightarrow> message \<Rightarrow> message" where
  "with_id i m = m\<lparr>msg_id := Some i\<rparr>"

text \<open>A fresh \<open>Uuid::new_v4()\<close> is the parameter \<open>uuid\<close>.\<close>

definition with_generated_id :: "string \<Rightarrow> message \<Rightarrow> message" where
  "with_generated_id uuid m = with_id (''msg_'' @ uuid) m"

definition with_generated_id_if_missing :: "string \<Rightarrow> message \<Rightarrow> message" where
  "with_generated_id_if_missing uuid m =
     (if msg_id m \<noteq> None then m else with_generated_id uuid m)"

definition with_content :: "message_content \<Rightarrow> message \<Rightarrow> message" where
  "with_content c m = m\<lparr>msg_content := msg_content m @ [c]\<rparr>"

definition with_text :: "ext_env \<Rightarrow> string \<Rightarrow> message \<Rightarrow> message" where
  "with_text E s m = with_content (Text (text_content_new (sanitize_unicode_tags E s))) m"

definition add_tool_response_with_metadata ::
  "ext_env \<Rightarrow> string \<Rightarrow> error_data + call_tool_result \<Rightarrow> json_object option \<Rightarrow> message \<Rightarrow> message"
where
  "add_tool_response_with_metadata E i result md m =
     with_content (mc_tool_response_with_metadata E i result md) m"

definition with_action_required ::
  "string \<Rightarrow> string \<Rightarrow> json_object \<Rightarrow> string option \<Rightarrow> message \<Rightarrow> message" where
  "with_action_required i tool args prompt m = with_content (mc_action_required i tool args prompt) m"

definition as_concat_text :: "message \<Rightarrow> string" where
  "as_concat_text m = join newline (filter_map as_text (msg_content m))"

fun is_tool_request_block :: "message_content \<Rightarrow> bool" where
  "is_tool_request_block (ToolRequest _) = True"
| "is_tool_request_block _ = False"

fun is_tool_response_block :: "message_content \<Rightarrow> bool" where
  "is_tool_response_block (ToolResponse _) = True"
| "is_tool_response_block _ = False"

fun is_text_block :: "message_content \<Rightarrow> bool" where
  "is_text_block (Text _) = True"
| "is_text_block _ = False"

definition is_tool_call :: "message \<Rightarrow> bool" where
  "is_tool_call m \<longleftrightarrow> list_ex is_tool_request_block (msg_content m)"

definition is_tool_response :: "message \<Rightarrow> bool" where
  "is_tool_response m \<longleftrightarrow> list_ex is_tool_response_block (msg_content m)"

fun request_id_of :: "message_content \<Rightarrow> string option" where
  "request_id_of (ToolRequest r) = Some (tq_id r)"
| "request_id_of _ = None"

fun response_id_of :: "message_content \<Rightarrow> string option" where
  "response_id_of (ToolResponse r) = Some (tr_id r)"
| "response_id_of _ = None"

fun tool_id_of :: "message_content \<Rightarrow> string option" where
  "tool_id_of (ToolRequest r) = Some (tq_id r)"
| "tool_id_of (ToolResponse r) = Some (tr_id r)"
| "tool_id_of _ = None"

definition get_tool_ids :: "message \<Rightarrow> string set" where
  "get_tool_ids m = set (filter_map tool_id_of (msg_content m))"

definition get_tool_request_ids :: "message \<Rightarrow> string set" where
  "get_tool_request_ids m = set (filter_map request_id_of (msg_content m))"

definition get_tool_response_ids :: "message \<Rightarrow> string set" where
  "get_tool_response_ids m = set (filter_map response_id_of (msg_content m))"

definition has_only_text_content :: "message \<Rightarrow> bool" where
  "has_only_text_content m \<longleftrightarrow> list_all is_text_block (msg_content m)"

definition with_metadata :: "message_metadata \<Rightarrow> message \<Rightarrow> message" where
  "with_metadata md m = m\<lparr>msg_metadata := md\<rparr>"

definition with_visibility :: "bool \<Rightarrow> bool \<Rightarrow> message \<Rightarrow> message" where
  "with_visibility u a m =
     m\<lparr>msg_metadata := (msg_metadata m)\<lparr>user_visible := u, agent_visible := a\<rparr>\<rparr>"

definition with_system_notification :: "system_notification_type \<Rightarrow> string \<Rightarrow> message \<Rightarrow> message"
where
  "with_system_notification ty msg m =
     with_metadata metadata_user_only (with_content (mc_system_notification ty msg) m)"

definition with_error :: "message_error_kind \<Rightarrow> string \<Rightarrow> message \<Rightarrow> message" where
  "with_error k msg m = with_metadata metadata_user_only (with_content (mc_error k msg) m)"

definition provider_error_text :: "provider_error \<Rightarrow> string" where
  "provider_error_text err =
     (case err of
        NetworkError _ \<Rightarrow>
          error_display err @ newline @ newline @ ''Please resend your message to try again.''
      | ContextLengthExceeded _ \<Rightarrow>
          error_display err @ newline @ newline @
          ''The conversation is too long for the model's context window.''
      | _ \<Rightarrow>
          ''Ran into this error: '' @ error_display err @ ''.'' @ newline @ newline @
          ''Please retry if you think this is a transient or recoverable error.'')"

definition from_provider_error :: "ext_env \<Rightarrow> provider_error \<Rightarrow> message" where
  "from_provider_error E err =
     with_error (error_kind_of err) (provider_error_text err) (message_assistant E)"

definition error_kind :: "message \<Rightarrow> message_error_kind option" where
  "error_kind m = find_map (\<lambda>c. map_option ec_kind (as_error c)) (msg_content m)"

definition with_inference :: "inference_metadata \<Rightarrow> message \<Rightarrow> message" where
  "with_inference im m = m\<lparr>msg_metadata := (msg_metadata m)\<lparr>inference := Some im\<rparr>\<rparr>"

definition with_steer :: "message \<Rightarrow> message" where
  "with_steer m = m\<lparr>msg_metadata := (msg_metadata m)\<lparr>steer := True\<rparr>\<rparr>"

definition with_inference_if_assistant :: "inference_metadata \<Rightarrow> message \<Rightarrow> message" where
  "with_inference_if_assistant im m =
     (if msg_role m = Assistant \<and> inference (msg_metadata m) = None
      then with_inference im m else m)"

definition user_only :: "message \<Rightarrow> message" where
  "user_only m = with_visibility True False m"

definition agent_only :: "message \<Rightarrow> message" where
  "agent_only m = with_visibility False True m"

definition is_user_visible :: "message \<Rightarrow> bool" where
  "is_user_visible m \<longleftrightarrow> user_visible (msg_metadata m)"

definition is_agent_visible :: "message \<Rightarrow> bool" where
  "is_agent_visible m \<longleftrightarrow> agent_visible (msg_metadata m)"

definition is_turn_context :: "message \<Rightarrow> bool" where
  "is_turn_context m \<longleftrightarrow> turn_context (msg_metadata m)"

subsection \<open>Example environment\<close>

text \<open>A concrete instance of the library functions, for closed examples.\<close>

definition plain_env :: ext_env where
  "plain_env = \<lparr>nfc = (\<lambda>s. s), b64_decode = (\<lambda>_. None), b64_encode = (\<lambda>s. s), now = 0\<rparr>"

end
