(* ===== verification/Conversation.thy ===== *)
theory Conversation
  imports Message_Ops
begin

text \<open>
  \<open>crates/aibuddy-provider-types/src/conversation.rs\<close>: a conversation is a list of messages;
  streamed chunks are folded into it by \<open>push\<close>, and \<open>fix_conversation\<close> repairs it before
  it is sent to a provider by a pipeline of nine processors, each returning the repaired
  messages and the issues it found.
\<close>

type_synonym conversation = "message list"

subsection \<open>Streaming: push and extend\<close>

definition absorb_flags :: "message \<Rightarrow> message \<Rightarrow> message" where
  "absorb_flags m existing =
     existing\<lparr>msg_metadata := (msg_metadata existing)
        \<lparr>inference := (case inference (msg_metadata m) of
            Some i \<Rightarrow> Some i | None \<Rightarrow> inference (msg_metadata existing)),
         output_token_limit_reached :=
           (output_token_limit_reached (msg_metadata existing)
            \<or> output_token_limit_reached (msg_metadata m))\<rparr>\<rparr>"

definition merge_chunk_content ::
  "message_content list \<Rightarrow> message_content list \<Rightarrow> message_content list" where
  "merge_chunk_content old new =
     (case (last_opt old, last_opt new) of
        (Some (Text l), Some (Text n)) \<Rightarrow>
          if length new = 1
             \<and> audience_of (tc_annotations l) = audience_of (tc_annotations n)
          then butlast old @ [Text (l\<lparr>tc_text := tc_text l @ tc_text n\<rparr>)]
          else old @ new
      | (Some (Thinking l), Some (Thinking n)) \<Rightarrow>
          if length new = 1 \<and> (signature l = [] \<or> signature n = signature l)
          then butlast old @ [Thinking (l\<lparr>thinking := thinking l @ thinking n,
                 signature := (if signature n \<noteq> [] then signature n else signature l)\<rparr>)]
          else old @ new
      | _ \<Rightarrow> old @ new)"

definition merge_chunk :: "message \<Rightarrow> message \<Rightarrow> message" where
  "merge_chunk l m =
     (absorb_flags m l)\<lparr>msg_content := merge_chunk_content (msg_content l) (msg_content m)\<rparr>"

definition conv_push :: "conversation \<Rightarrow> message \<Rightarrow> conversation" where
  "conv_push c m =
     (let limit = output_token_limit_reached (msg_metadata m) in
      if msg_content m = [] \<and> (inference (msg_metadata m) \<noteq> None \<or> limit) then
        (case update_last
            (\<lambda>existing. msg_role existing = msg_role m \<and> is_user_visible existing
               \<and> (\<not> limit \<or> msg_id m \<noteq> None \<and> msg_id existing = msg_id m))
            (absorb_flags m) c of
           Some c' \<Rightarrow> c'
         | None \<Rightarrow> if limit then c @ [with_visibility True False m] else c)
      else
        (case last_opt c of
           Some l \<Rightarrow>
             if msg_id l \<noteq> None \<and> msg_id l = msg_id m
             then butlast c @ [merge_chunk l m]
             else c @ [m]
         | None \<Rightarrow> c @ [m]))"

definition conv_extend :: "conversation \<Rightarrow> message list \<Rightarrow> conversation" where
  "conv_extend c ms = foldl conv_push c ms"

definition filtered_messages :: "(message_metadata \<Rightarrow> bool) \<Rightarrow> conversation \<Rightarrow> message list" where
  "filtered_messages p c = filter (\<lambda>m. p (msg_metadata m)) c"

definition agent_visible_messages :: "conversation \<Rightarrow> message list" where
  "agent_visible_messages c =
     filter (\<lambda>m. msg_content m \<noteq> [])
       (map agent_visible_content (filter (\<lambda>m. agent_visible (msg_metadata m)) c))"

definition user_visible_messages :: "conversation \<Rightarrow> message list" where
  "user_visible_messages c =
     filter (\<lambda>m. msg_content m \<noteq> [])
       (map user_visible_content (filter (\<lambda>m. user_visible (msg_metadata m)) c))"

subsection \<open>Roles\<close>

datatype effective_role = ERUser | ERAssistant | ERTool

fun effective_role_display :: "effective_role \<Rightarrow> string" where
  "effective_role_display ERUser = ''user''"
| "effective_role_display ERAssistant = ''assistant''"
| "effective_role_display ERTool = ''tool''"

definition has_tool_response :: "message \<Rightarrow> bool" where
  "has_tool_response m \<longleftrightarrow> list_ex is_tool_response_block (msg_content m)"

definition effective_role :: "message \<Rightarrow> effective_role" where
  "effective_role m =
     (if msg_role m = User \<and> has_tool_response m then ERTool
      else (case msg_role m of User \<Rightarrow> ERUser | Assistant \<Rightarrow> ERAssistant))"

subsection \<open>Processors\<close>

type_synonym processor = "message list \<Rightarrow> message list \<times> string list"

definition push_text_item :: "message_content list \<Rightarrow> message_content \<Rightarrow> message_content list" where
  "push_text_item content item =
     (case item of
        Text text \<Rightarrow>
          (case last_opt content of
             Some (Text l) \<Rightarrow>
               if audience_of (tc_annotations l) = audience_of (tc_annotations text)
               then butlast content @ [Text (l\<lparr>tc_text := tc_text l @ tc_text text\<rparr>)]
               else content @ [Text text]
           | _ \<Rightarrow> content @ [Text text])
      | other \<Rightarrow> content @ [other])"

definition merge_text_content_in_message :: "message \<Rightarrow> message" where
  "merge_text_content_in_message m =
     (if msg_role m \<noteq> Assistant then m
      else m\<lparr>msg_content := foldl push_text_item [] (msg_content m)\<rparr>)"

definition merge_text_content_items :: processor where
  "merge_text_content_items ms =
     (map merge_text_content_in_message ms,
      concat (map (\<lambda>m.
        if length (msg_content m) \<noteq> length (msg_content (merge_text_content_in_message m))
        then [''Merged text content''] else []) ms))"

definition trim_text_block :: "message_content \<Rightarrow> message_content \<times> string list" where
  "trim_text_block c =
     (case c of
        Text text \<Rightarrow>
          (let trimmed = trim_end (tc_text text) in
           if length trimmed \<noteq> length (tc_text text)
           then (Text (text\<lparr>tc_text := trimmed\<rparr>),
                 [''Trimmed trailing whitespace from assistant message''])
           else (c, []))
      | _ \<Rightarrow> (c, []))"

definition trim_assistant_message :: "message \<Rightarrow> message \<times> string list" where
  "trim_assistant_message m =
     (if msg_role m = Assistant
      then (m\<lparr>msg_content := map (fst \<circ> trim_text_block) (msg_content m)\<rparr>,
            concat (map (snd \<circ> trim_text_block) (msg_content m)))
      else (m, []))"

definition trim_assistant_text_whitespace :: processor where
  "trim_assistant_text_whitespace ms =
     (map (fst \<circ> trim_assistant_message) ms, concat (map (snd \<circ> trim_assistant_message) ms))"

definition is_empty_message :: "message \<Rightarrow> bool" where
  "is_empty_message m \<longleftrightarrow> list_all (\<lambda>c. as_text c = Some []) (msg_content m)"

definition remove_empty_messages :: processor where
  "remove_empty_messages ms =
     (filter (\<lambda>m. \<not> is_empty_message m) ms,
      map (\<lambda>_. ''Removed empty message'') (filter is_empty_message ms))"

definition block_has_payload :: "ext_env \<Rightarrow> content_block \<Rightarrow> bool" where
  "block_has_payload E c =
     (case c of
        CText t \<Rightarrow> tc_text t \<noteq> []
      | CResource r _ \<Rightarrow> extract_text_from_resource E r \<noteq> []
      | CImage _ \<Rightarrow> True
      | _ \<Rightarrow> False)"

definition has_tool_result_content :: "ext_env \<Rightarrow> content_block list \<Rightarrow> bool" where
  "has_tool_result_content E cs = list_ex (block_has_payload E) cs"

definition fix_empty_result_block :: "ext_env \<Rightarrow> message_content \<Rightarrow> message_content \<times> string list" where
  "fix_empty_result_block E c =
     (case c of
        ToolResponse res \<Rightarrow>
          (case tr_tool_result res of
             Inr result \<Rightarrow>
               if \<not> has_tool_result_content E (cr_content result)
               then (ToolResponse (res\<lparr>tr_tool_result := Inr (result\<lparr>cr_content :=
                        cr_content result @ [content_text ''(empty result)'']\<rparr>)\<rparr>),
                     [''Added placeholder to empty tool result '' @ quoted (tr_id res)])
               else (c, [])
           | Inl _ \<Rightarrow> (c, []))
      | _ \<Rightarrow> (c, []))"

definition fix_empty_tool_results :: "ext_env \<Rightarrow> processor" where
  "fix_empty_tool_results E ms =
     (map (\<lambda>m. m\<lparr>msg_content := map (fst \<circ> fix_empty_result_block E) (msg_content m)\<rparr>) ms,
      concat (map (\<lambda>m. concat (map (snd \<circ> fix_empty_result_block E) (msg_content m))) ms))"

text \<open>
  \<open>fix_tool_calling\<close>: the first pass walks the messages with the set of pending request
  ids; each block is kept or dropped with an issue.  The second pass drops the assistant's
  requests that stayed pending.  A pass over one message returns the kept blocks, the new
  pending set and the issues.
\<close>

fun scan_user_content ::
  "string set \<Rightarrow> message_content list \<Rightarrow> message_content list \<times> string set \<times> string list" where
  "scan_user_content P [] = ([], P, [])"
| "scan_user_content P (c # cs) =
     (case c of
        ToolRequest req \<Rightarrow>
          (let (k, P', is) = scan_user_content P cs in
           (k, P', (''Removed tool request '' @ quoted (tq_id req) @ '' from user message'') # is))
      | ToolConfirmationRequest req \<Rightarrow>
          (let (k, P', is) = scan_user_content P cs in
           (k, P', (''Removed tool confirmation request '' @ quoted (tcr_id req)
                    @ '' from user message'') # is))
      | Thinking _ \<Rightarrow>
          (let (k, P', is) = scan_user_content P cs in
           (k, P', ''Removed thinking content from user message'' # is))
      | RedactedThinking _ \<Rightarrow>
          (let (k, P', is) = scan_user_content P cs in
           (k, P', ''Removed thinking content from user message'' # is))
      | ToolResponse resp \<Rightarrow>
          (if tr_id resp \<in> P then
             (let (k, P', is) = scan_user_content (P - {tr_id resp}) cs in (c # k, P', is))
           else
             (let (k, P', is) = scan_user_content P cs in
              (k, P', (''Removed orphaned tool response '' @ quoted (tr_id resp)) # is)))
      | _ \<Rightarrow> (let (k, P', is) = scan_user_content P cs in (c # k, P', is)))"

fun scan_assistant_content ::
  "string set \<Rightarrow> message_content list \<Rightarrow> message_content list \<times> string set \<times> string list" where
  "scan_assistant_content P [] = ([], P, [])"
| "scan_assistant_content P (c # cs) =
     (case c of
        ToolResponse resp \<Rightarrow>
          (let (k, P', is) = scan_assistant_content P cs in
           (k, P', (''Removed tool response '' @ quoted (tr_id resp)
                    @ '' from assistant message'') # is))
      | ToolRequest req \<Rightarrow>
          (let (k, P', is) = scan_assistant_content (insert (tq_id req) P) cs in (c # k, P', is))
      | _ \<Rightarrow> (let (k, P', is) = scan_assistant_content P cs in (c # k, P', is)))"

definition scan_message :: "string set \<Rightarrow> message \<Rightarrow> message \<times> string set \<times> string list" where
  "scan_message P m =
     (let (k, P', is) =
        (case msg_role m of
           User \<Rightarrow> scan_user_content P (msg_content m)
         | Assistant \<Rightarrow> scan_assistant_content P (msg_content m))
      in (m\<lparr>msg_content := k\<rparr>, P', is))"

fun scan_messages :: "string set \<Rightarrow> message list \<Rightarrow> message list \<times> string set \<times> string list" where
  "scan_messages P [] = ([], P, [])"
| "scan_messages P (m # ms) =
     (let (m', P1, is1) = scan_message P m; (ms', P2, is2) = scan_messages P1 ms
      in (m' # ms', P2, is1 @ is2))"

definition is_orphan_request :: "string set \<Rightarrow> message_content \<Rightarrow> bool" where
  "is_orphan_request P c \<longleftrightarrow> (case c of ToolRequest req \<Rightarrow> tq_id req \<in> P | _ \<Rightarrow> False)"

definition drop_orphan_requests :: "string set \<Rightarrow> message \<Rightarrow> message" where
  "drop_orphan_requests P m =
     (if msg_role m = Assistant
      then m\<lparr>msg_content := filter (\<lambda>c. \<not> is_orphan_request P c) (msg_content m)\<rparr>
      else m)"

definition orphan_request_issues :: "string set \<Rightarrow> message \<Rightarrow> string list" where
  "orphan_request_issues P m =
     (if msg_role m = Assistant
      then map (\<lambda>i. ''Removed orphaned tool request '' @ quoted i)
             (filter_map request_id_of (filter (is_orphan_request P) (msg_content m)))
      else [])"

definition fix_tool_calling :: processor where
  "fix_tool_calling ms =
     (let (ms1, P, is1) = scan_messages {} ms;
          ms2 = map (drop_orphan_requests P) ms1;
          is2 = concat (map (orphan_request_issues P) ms1);
          (ms3, is3) = remove_empty_messages ms2
      in (ms3, is1 @ is2 @ is3))"

definition merge_step ::
  "bool \<Rightarrow> message list \<times> string list \<Rightarrow> message \<Rightarrow> message list \<times> string list" where
  "merge_step across acc m =
     (case last_opt (fst acc) of
        Some l \<Rightarrow>
          (let eff = effective_role m in
           if effective_role l = eff
              \<and> (across
                 \<or> user_visible (msg_metadata l) = user_visible (msg_metadata m)
                   \<and> turn_context (msg_metadata l) = turn_context (msg_metadata m))
           then (butlast (fst acc) @ [l\<lparr>msg_content := msg_content l @ msg_content m\<rparr>],
                 snd acc @ [''Merged consecutive '' @ effective_role_display eff @ '' messages''])
           else (fst acc @ [m], snd acc))
      | None \<Rightarrow> (fst acc @ [m], snd acc))"

definition merge_consecutive :: "bool \<Rightarrow> processor" where
  "merge_consecutive across ms = foldl (merge_step across) ([], []) ms"

definition merge_consecutive_messages :: processor where
  "merge_consecutive_messages ms = merge_consecutive False ms"

definition merge_consecutive_messages_for_request :: "message list \<Rightarrow> message list" where
  "merge_consecutive_messages_for_request ms = fst (merge_consecutive True ms)"

definition is_signed_thinking :: "message_content \<Rightarrow> bool" where
  "is_signed_thinking c =
     (case c of
        Thinking t \<Rightarrow> signature t \<noteq> []
      | RedactedThinking _ \<Rightarrow> True
      | _ \<Rightarrow> False)"

text \<open>The blocks of one message that survive, and the signed blocks seen so far.\<close>

fun dedupe_content ::
  "message_content list \<Rightarrow> message_content list \<Rightarrow> message_content list \<times> message_content list"
where
  "dedupe_content seen [] = ([], seen)"
| "dedupe_content seen (c # cs) =
     (if is_signed_thinking c \<and> c \<in> set seen then dedupe_content seen cs
      else
        (let (k, seen') =
           dedupe_content (if is_signed_thinking c then seen @ [c] else seen) cs
         in (c # k, seen')))"

fun dedupe_messages ::
  "message_content list \<Rightarrow> message list \<Rightarrow> message list \<times> string list" where
  "dedupe_messages seen [] = ([], [])"
| "dedupe_messages seen (m # ms) =
     (if msg_role m \<noteq> Assistant
      then (let (ms', is) = dedupe_messages seen ms in (m # ms', is))
      else
        (let (deduped, seen') = dedupe_content seen (msg_content m);
             (ms', is) = dedupe_messages seen' ms
         in if length deduped \<noteq> length (msg_content m)
            then (m\<lparr>msg_content := deduped\<rparr> # ms',
                  ''Removed duplicate signed thinking block'' # is)
            else (m # ms', is)))"

definition dedupe_signed_thinking :: processor where
  "dedupe_signed_thinking ms = dedupe_messages [] ms"

definition drop_leading_assistant :: processor where
  "drop_leading_assistant ms =
     (case ms of
        m # rest \<Rightarrow>
          if msg_role m = Assistant then (rest, [''Removed leading assistant message''])
          else (ms, [])
      | [] \<Rightarrow> (ms, []))"

definition drop_trailing_assistant :: processor where
  "drop_trailing_assistant ms =
     (case last_opt ms of
        Some l \<Rightarrow>
          if msg_role l = Assistant then (butlast ms, [''Removed trailing assistant message''])
          else (ms, [])
      | None \<Rightarrow> (ms, []))"

definition fix_lead_trail :: processor where
  "fix_lead_trail ms =
     (let (ms1, is1) = drop_leading_assistant ms; (ms2, is2) = drop_trailing_assistant ms1
      in (ms2, is1 @ is2))"

definition PLACEHOLDER_USER_MESSAGE :: string where
  "PLACEHOLDER_USER_MESSAGE = ''Hello''"

definition populate_if_empty :: "ext_env \<Rightarrow> processor" where
  "populate_if_empty E ms =
     (if ms = []
      then ([with_text E PLACEHOLDER_USER_MESSAGE (message_user E)],
            [''Added placeholder user message to empty conversation''])
      else (ms, []))"

subsection \<open>The pipeline\<close>

definition run_processor ::
  "message list \<times> string list \<Rightarrow> processor \<Rightarrow> message list \<times> string list" where
  "run_processor acc p = (let (ms, is) = p (fst acc) in (ms, snd acc @ is))"

definition fix_pipeline :: "ext_env \<Rightarrow> processor list" where
  "fix_pipeline E =
     [merge_text_content_items,
      trim_assistant_text_whitespace,
      remove_empty_messages,
      fix_empty_tool_results E,
      fix_tool_calling,
      merge_consecutive_messages,
      dedupe_signed_thinking,
      fix_lead_trail,
      populate_if_empty E]"

definition fix_messages :: "ext_env \<Rightarrow> processor" where
  "fix_messages E ms = foldl run_processor (ms, []) (fix_pipeline E)"

text \<open>
  \<open>fix_conversation\<close> repairs the agent-visible messages and puts the repaired list back
  into the slots of the visible ones, one by one; slots beyond its length vanish.
\<close>

datatype message_slot = Visible nat | NonVisible message

fun shadow_map :: "nat \<Rightarrow> message list \<Rightarrow> message_slot list" where
  "shadow_map n [] = []"
| "shadow_map n (m # ms) =
     (if agent_visible (msg_metadata m) then Visible n # shadow_map (Suc n) ms
      else NonVisible m # shadow_map n ms)"

fun fill_slot :: "message list \<Rightarrow> message_slot \<Rightarrow> message option" where
  "fill_slot fixed (Visible i) = (if i < length fixed then Some (fixed ! i) else None)"
| "fill_slot fixed (NonVisible m) = Some m"

definition fix_conversation :: "ext_env \<Rightarrow> conversation \<Rightarrow> conversation \<times> string list" where
  "fix_conversation E c =
     (let (fixed, issues) = fix_messages E (filter (\<lambda>m. agent_visible (msg_metadata m)) c)
      in (filter_map (fill_slot fixed) (shadow_map 0 c), issues))"

definition conv_validate :: "ext_env \<Rightarrow> conversation \<Rightarrow> string + conversation" where
  "conv_validate E c =
     (let issues = snd (fix_messages E c)
      in if issues \<noteq> [] then Inl (join newline issues) else Inr c)"

definition conversation_new :: "ext_env \<Rightarrow> message list \<Rightarrow> string + conversation" where
  "conversation_new E ms = conv_validate E ms"

end
