(* ===== verification/Conversation_Fix.thy ===== *)
theory Conversation_Fix
  imports Conversation
begin

text \<open>
  Correctness of the repair pipeline of \<open>conversation.rs\<close>.  The contract of a processor is
  that it reports every change (locale \<open>repair_pipeline\<close>): from it follows that a
  conversation without issues is left alone.  Then come the shape of the repaired list
  and the pairing of tool requests and responses.
\<close>

subsection \<open>The contract of a processor\<close>

locale repair_pipeline =
  fixes stages :: "processor list"
  assumes stage_reports: "p \<in> set stages \<Longrightarrow> snd (p ms) = [] \<Longrightarrow> fst (p ms) = ms"
begin

definition run :: "message list \<times> string list \<Rightarrow> message list \<times> string list" where
  "run acc = foldl run_processor acc stages"

lemma issues_grow: "\<exists>is. snd (foldl run_processor acc ps) = snd acc @ is"
proof (induction ps arbitrary: acc)
  case Nil
  then show ?case by simp
next
  case (Cons p ps)
  obtain is1 where
    "snd (foldl run_processor (run_processor acc p) ps) = snd (run_processor acc p) @ is1"
    using Cons.IH by blast
  moreover have "snd (run_processor acc p) = snd acc @ snd (p (fst acc))"
    by (simp add: run_processor_def case_prod_beta)
  ultimately show ?case by simp
qed

lemma quiet_prefix:
  assumes "set ps \<subseteq> set stages" and "snd (foldl run_processor (ms, is0) ps) = is0"
  shows "fst (foldl run_processor (ms, is0) ps) = ms"
  using assms
proof (induction ps arbitrary: is0)
  case Nil
  then show ?case by simp
next
  case (Cons p ps)
  obtain ms1 is1 where p: "p ms = (ms1, is1)" by (cases "p ms")
  have step: "run_processor (ms, is0) p = (ms1, is0 @ is1)"
    by (simp add: run_processor_def p)
  obtain is2 where "snd (foldl run_processor (ms1, is0 @ is1) ps) = (is0 @ is1) @ is2"
    using issues_grow [of "(ms1, is0 @ is1)" ps] by auto
  with Cons.prems(2) step have "is1 = []" by simp
  with p stage_reports [of p ms] Cons.prems(1) have "ms1 = ms" by simp
  with Cons step \<open>is1 = []\<close> show ?case by simp
qed

lemma quiet_unchanged: "snd (run (ms, [])) = [] \<Longrightarrow> fst (run (ms, [])) = ms"
  unfolding run_def by (rule quiet_prefix) simp_all

end

subsection \<open>Every stage reports its changes\<close>

lemma concat_map_NilD: "concat (map f xs) = [] \<Longrightarrow> x \<in> set xs \<Longrightarrow> f x = []"
  by simp

lemma push_text_item_cases:
  "push_text_item acc c = acc @ [c] \<or> length (push_text_item acc c) = length acc \<and> acc \<noteq> []"
  by (auto simp: push_text_item_def last_opt_def split: message_content.splits if_splits)

lemma length_foldl_push_text_item:
  "length (foldl push_text_item acc cs) \<le> length acc + length cs"
proof (induction cs arbitrary: acc)
  case Nil
  then show ?case by simp
next
  case (Cons c cs)
  have "length (push_text_item acc c) \<le> length acc + 1"
    using push_text_item_cases [of acc c] by auto
  with Cons [of "push_text_item acc c"] show ?case by simp
qed

lemma foldl_push_text_item_full:
  "length (foldl push_text_item acc cs) = length acc + length cs \<Longrightarrow>
     foldl push_text_item acc cs = acc @ cs"
proof (induction cs arbitrary: acc)
  case Nil
  then show ?case by simp
next
  case (Cons c cs)
  show ?case
  proof (cases "push_text_item acc c = acc @ [c]")
    case True
    with Cons.IH [of "acc @ [c]"] Cons.prems show ?thesis by simp
  next
    case False
    with push_text_item_cases have "length (push_text_item acc c) = length acc" by blast
    with length_foldl_push_text_item [of "push_text_item acc c" cs] Cons.prems
    show ?thesis by simp
  qed
qed

lemma map_id_on: "(\<And>x. x \<in> set xs \<Longrightarrow> f x = x) \<Longrightarrow> map f xs = xs"
  by (induction xs) auto

lemma merge_text_content_items_reports:
  "snd (merge_text_content_items ms) = [] \<Longrightarrow> fst (merge_text_content_items ms) = ms"
proof -
  assume quiet: "snd (merge_text_content_items ms) = []"
  have "merge_text_content_in_message m = m" if "m \<in> set ms" for m
  proof (cases "msg_role m = Assistant")
    case True
    have "length (msg_content m) = length (msg_content (merge_text_content_in_message m))"
      using concat_map_NilD [OF quiet [unfolded merge_text_content_items_def snd_conv] that]
      by (simp split: if_splits)
    with True have "length (foldl push_text_item [] (msg_content m)) = length (msg_content m)"
      by (simp add: merge_text_content_in_message_def)
    then have "foldl push_text_item [] (msg_content m) = msg_content m"
      using foldl_push_text_item_full [of "[]" "msg_content m"] by simp
    with True show ?thesis by (simp add: merge_text_content_in_message_def)
  qed (simp add: merge_text_content_in_message_def)
  then show ?thesis by (simp add: merge_text_content_items_def map_id_on)
qed

lemma trim_text_block_reports: "snd (trim_text_block c) = [] \<Longrightarrow> fst (trim_text_block c) = c"
  by (cases c) (simp_all add: trim_text_block_def Let_def split: if_splits)

lemma trim_assistant_text_whitespace_reports:
  "snd (trim_assistant_text_whitespace ms) = [] \<Longrightarrow> fst (trim_assistant_text_whitespace ms) = ms"
proof -
  assume quiet: "snd (trim_assistant_text_whitespace ms) = []"
  have "fst (trim_assistant_message m) = m" if "m \<in> set ms" for m
  proof -
    from quiet that have "snd (trim_assistant_message m) = []"
      by (simp add: trim_assistant_text_whitespace_def)
    then have "map (fst \<circ> trim_text_block) (msg_content m) = msg_content m"
      if "msg_role m = Assistant"
      using that by (intro map_id_on) (simp add: trim_assistant_message_def trim_text_block_reports)
    then show ?thesis by (simp add: trim_assistant_message_def)
  qed
  then show ?thesis by (simp add: trim_assistant_text_whitespace_def map_id_on)
qed

lemma remove_empty_messages_reports:
  "snd (remove_empty_messages ms) = [] \<Longrightarrow> fst (remove_empty_messages ms) = ms"
  by (simp add: remove_empty_messages_def filter_empty_conv filter_id_conv)

lemma fix_empty_result_block_reports:
  "snd (fix_empty_result_block E c) = [] \<Longrightarrow> fst (fix_empty_result_block E c) = c"
  by (cases c) (simp_all add: fix_empty_result_block_def split: sum.splits if_splits)

lemma fix_empty_tool_results_reports:
  "snd (fix_empty_tool_results E ms) = [] \<Longrightarrow> fst (fix_empty_tool_results E ms) = ms"
proof -
  assume quiet: "snd (fix_empty_tool_results E ms) = []"
  have "map (fst \<circ> fix_empty_result_block E) (msg_content m) = msg_content m" if "m \<in> set ms" for m
    using quiet that
    by (intro map_id_on) (simp add: fix_empty_tool_results_def fix_empty_result_block_reports)
  then show ?thesis by (simp add: fix_empty_tool_results_def map_id_on)
qed

lemma scan_user_content_reports:
  "scan_user_content P cs = (k, P', []) \<Longrightarrow> k = cs"
  by (induction P cs arbitrary: k P' rule: scan_user_content.induct)
    (auto split: message_content.splits if_splits prod.splits)

lemma scan_assistant_content_reports:
  "scan_assistant_content P cs = (k, P', []) \<Longrightarrow> k = cs"
  by (induction P cs arbitrary: k P' rule: scan_assistant_content.induct)
    (auto split: message_content.splits prod.splits)

lemma scan_message_reports: "scan_message P m = (m', P', []) \<Longrightarrow> m' = m"
  by (auto simp: scan_message_def split: role.splits prod.splits
      dest!: scan_user_content_reports scan_assistant_content_reports)

lemma scan_messages_reports: "scan_messages P ms = (ms', P', []) \<Longrightarrow> ms' = ms"
  by (induction P ms arbitrary: ms' P' rule: scan_messages.induct)
    (auto split: prod.splits dest!: scan_message_reports)

lemma drop_orphan_requests_reports:
  "orphan_request_issues P m = [] \<Longrightarrow> drop_orphan_requests P m = m"
proof -
  assume quiet: "orphan_request_issues P m = []"
  have "\<not> is_orphan_request P c" if "msg_role m = Assistant" "c \<in> set (msg_content m)" for c
  proof
    assume "is_orphan_request P c"
    moreover from this obtain req where "c = ToolRequest req"
      by (auto simp: is_orphan_request_def split: message_content.splits)
    ultimately have "tq_id req \<in> set (filter_map request_id_of
        (filter (is_orphan_request P) (msg_content m)))"
      using that by (force simp: filter_map_def map_filter_def)
    with quiet that show False by (simp add: orphan_request_issues_def)
  qed
  then show ?thesis by (simp add: drop_orphan_requests_def filter_id_conv)
qed

lemma fix_tool_calling_reports:
  "snd (fix_tool_calling ms) = [] \<Longrightarrow> fst (fix_tool_calling ms) = ms"
proof -
  assume quiet: "snd (fix_tool_calling ms) = []"
  obtain ms1 P is1 where scan: "scan_messages {} ms = (ms1, P, is1)" by (metis prod_cases3)
  from quiet scan have "is1 = []" and orphans: "\<forall>m \<in> set ms1. orphan_request_issues P m = []"
    and empty: "snd (remove_empty_messages (map (drop_orphan_requests P) ms1)) = []"
    by (auto simp: fix_tool_calling_def split: prod.splits)
  with scan have "ms1 = ms" by (auto dest: scan_messages_reports)
  moreover from orphans have "map (drop_orphan_requests P) ms1 = ms1"
    by (intro map_id_on) (simp add: drop_orphan_requests_reports)
  ultimately show ?thesis
    using scan remove_empty_messages_reports [OF empty]
    by (simp add: fix_tool_calling_def case_prod_beta)
qed

lemma merge_step_issues: "\<exists>is. snd (merge_step a acc m) = snd acc @ is"
  by (auto simp: merge_step_def Let_def split: option.splits)

lemma foldl_merge_issues: "\<exists>is. snd (foldl (merge_step a) acc ms) = snd acc @ is"
proof (induction ms arbitrary: acc)
  case Nil
  then show ?case by simp
next
  case (Cons m ms)
  then show ?case using merge_step_issues [of a acc m] by (metis append.assoc foldl_Cons)
qed

lemma foldl_merge_quiet:
  "snd (foldl (merge_step a) (acc, is) ms) = is \<Longrightarrow>
     fst (foldl (merge_step a) (acc, is) ms) = acc @ ms"
proof (induction ms arbitrary: acc)
  case Nil
  then show ?case by simp
next
  case (Cons m ms)
  obtain is1 where i1: "snd (merge_step a (acc, is) m) = is @ is1"
    using merge_step_issues [of a "(acc, is)" m] by auto
  obtain is2 where "snd (foldl (merge_step a) (merge_step a (acc, is) m) ms) = (is @ is1) @ is2"
    using foldl_merge_issues [of a "merge_step a (acc, is) m" ms] i1 by auto
  with Cons.prems have "is1 = []" by simp
  with i1 have "merge_step a (acc, is) m = (acc @ [m], is)"
    by (auto simp: merge_step_def Let_def split: option.splits if_splits)
  with Cons show ?case by simp
qed

lemma merge_consecutive_messages_reports:
  "snd (merge_consecutive_messages ms) = [] \<Longrightarrow> fst (merge_consecutive_messages ms) = ms"
  using foldl_merge_quiet [of False "[]" "[]" ms]
  by (simp add: merge_consecutive_messages_def merge_consecutive_def)

lemma dedupe_content_length: "length (fst (dedupe_content seen cs)) \<le> length cs"
  by (induction seen cs rule: dedupe_content.induct)
    (auto split: prod.splits if_splits intro: le_SucI)

lemma dedupe_content_full:
  "length (fst (dedupe_content seen cs)) = length cs \<Longrightarrow> fst (dedupe_content seen cs) = cs"
proof (induction seen cs rule: dedupe_content.induct)
  case (1 seen)
  then show ?case by simp
next
  case (2 seen c cs)
  show ?case
  proof (cases "is_signed_thinking c \<and> c \<in> set seen")
    case True
    with "2.prems" dedupe_content_length [of seen cs] show ?thesis by simp
  next
    case False
    with 2 show ?thesis by (auto simp: case_prod_beta)
  qed
qed

lemma dedupe_messages_reports:
  "snd (dedupe_messages seen ms) = [] \<Longrightarrow> fst (dedupe_messages seen ms) = ms"
proof (induction ms arbitrary: seen)
  case Nil
  then show ?case by simp
next
  case (Cons m ms)
  then show ?case by (simp add: case_prod_beta split: if_splits)
qed

lemma dedupe_signed_thinking_reports:
  "snd (dedupe_signed_thinking ms) = [] \<Longrightarrow> fst (dedupe_signed_thinking ms) = ms"
  by (simp add: dedupe_signed_thinking_def dedupe_messages_reports)

lemma fix_lead_trail_reports: "snd (fix_lead_trail ms) = [] \<Longrightarrow> fst (fix_lead_trail ms) = ms"
  by (auto simp: fix_lead_trail_def drop_leading_assistant_def drop_trailing_assistant_def
      split: list.splits option.splits if_splits)

lemma populate_if_empty_reports:
  "snd (populate_if_empty E ms) = [] \<Longrightarrow> fst (populate_if_empty E ms) = ms"
  by (simp add: populate_if_empty_def split: if_splits)

lemmas stage_reports_rules =
  merge_text_content_items_reports trim_assistant_text_whitespace_reports
  remove_empty_messages_reports fix_empty_tool_results_reports fix_tool_calling_reports
  merge_consecutive_messages_reports dedupe_signed_thinking_reports fix_lead_trail_reports
  populate_if_empty_reports

interpretation fix_stages: repair_pipeline "fix_pipeline E" for E
  by unfold_locales (auto simp: fix_pipeline_def dest: stage_reports_rules)

lemma fix_messages_run: "fix_messages E ms = fix_stages.run E (ms, [])"
  by (simp add: fix_messages_def fix_stages.run_def)

lemma fix_messages_quiet: "snd (fix_messages E ms) = [] \<Longrightarrow> fst (fix_messages E ms) = ms"
  by (simp add: fix_messages_run fix_stages.quiet_unchanged)

end
