(* ===== verification/Conversation_Pairing.thy ===== *)
theory Conversation_Pairing
  imports Conversation_Fix
begin

text \<open>
  The pairing of tool requests and tool responses that \<open>fix_tool_calling\<close> establishes.  The
  tool blocks of a conversation are read as a sequence of events; \<open>run_events\<close> is the
  pending set after the sequence, \<open>None\<close> once a response has no pending request.
\<close>

datatype tool_event = Req string | Resp string

fun event_of :: "message_content \<Rightarrow> tool_event option" where
  "event_of (ToolRequest r) = Some (Req (tq_id r))"
| "event_of (ToolResponse r) = Some (Resp (tr_id r))"
| "event_of _ = None"

definition content_events :: "message_content list \<Rightarrow> tool_event list" where
  "content_events cs = filter_map event_of cs"

definition tool_events :: "message list \<Rightarrow> tool_event list" where
  "tool_events ms = concat (map (\<lambda>m. content_events (msg_content m)) ms)"

fun block_legal :: "role \<Rightarrow> message_content \<Rightarrow> bool" where
  "block_legal User (ToolRequest _) = False"
| "block_legal User (ToolConfirmationRequest _) = False"
| "block_legal User (Thinking _) = False"
| "block_legal User (RedactedThinking _) = False"
| "block_legal Assistant (ToolResponse _) = False"
| "block_legal _ _ = True"

definition roles_legal :: "message list \<Rightarrow> bool" where
  "roles_legal ms \<longleftrightarrow> (\<forall>m \<in> set ms. \<forall>c \<in> set (msg_content m). block_legal (msg_role m) c)"

definition request_ids :: "tool_event list \<Rightarrow> string list" where
  "request_ids es = filter_map (\<lambda>e. case e of Req i \<Rightarrow> Some i | Resp _ \<Rightarrow> None) es"

fun run_events :: "string set \<Rightarrow> tool_event list \<Rightarrow> string set option" where
  "run_events P [] = Some P"
| "run_events P (Req i # es) = run_events (insert i P) es"
| "run_events P (Resp i # es) = (if i \<in> P then run_events (P - {i}) es else None)"

definition paired :: "tool_event list \<Rightarrow> bool" where
  "paired es \<longleftrightarrow>
     (\<forall>pre i post. es = pre @ Resp i # post \<longrightarrow> Req i \<in> set pre) \<and>
     (\<forall>pre i post. es = pre @ Req i # post \<longrightarrow> Resp i \<in> set post)"

subsection \<open>Events\<close>

lemma content_events_simps [simp]:
  "content_events [] = []"
  "content_events (c # cs) =
     (case event_of c of None \<Rightarrow> content_events cs | Some e \<Rightarrow> e # content_events cs)"
  "content_events (cs @ ds) = content_events cs @ content_events ds"
  by (simp_all add: content_events_def split: option.splits)

lemma tool_events_simps [simp]:
  "tool_events [] = []"
  "tool_events (m # ms) = content_events (msg_content m) @ tool_events ms"
  "tool_events (ms @ ns) = tool_events ms @ tool_events ns"
  by (simp_all add: tool_events_def)

lemma request_ids_simps [simp]:
  "request_ids [] = []"
  "request_ids (Req i # es) = i # request_ids es"
  "request_ids (Resp i # es) = request_ids es"
  "request_ids (es @ fs) = request_ids es @ request_ids fs"
  by (simp_all add: request_ids_def)

lemma run_events_append:
  "run_events P (es @ fs) = Option.bind (run_events P es) (\<lambda>Q. run_events Q fs)"
  by (induction P es rule: run_events.induct) auto

lemma run_events_subset:
  "run_events P es = Some Q \<Longrightarrow> Q \<subseteq> P \<union> {i. Req i \<in> set es}"
  by (induction P es rule: run_events.induct) (fastforce split: if_splits)+

lemma run_events_drains:
  "run_events P es = Some Q \<Longrightarrow> i \<in> P \<Longrightarrow> i \<notin> Q \<Longrightarrow> Resp i \<in> set es"
  by (induction P es rule: run_events.induct) (auto split: if_splits)

lemma paired_if_run: "run_events {} es = Some {} \<Longrightarrow> paired es"
proof -
  assume run: "run_events {} es = Some {}"
  have "Req i \<in> set pre" if es: "es = pre @ Resp i # post" for pre i post
  proof -
    from run es obtain Q where Q: "run_events {} pre = Some Q" and "i \<in> Q"
      by (auto simp: run_events_append bind_eq_Some_conv split: if_splits)
    with run_events_subset [OF Q] show ?thesis by auto
  qed
  moreover have "Resp i \<in> set post" if es: "es = pre @ Req i # post" for pre i post
  proof -
    from run es obtain Q where "run_events (insert i Q) post = Some {}"
      by (auto simp: run_events_append bind_eq_Some_conv)
    then show ?thesis by (rule run_events_drains) simp_all
  qed
  ultimately show ?thesis unfolding paired_def by blast
qed

text \<open>Dropping the requests that stay pending leaves a balanced sequence.\<close>

definition keep_event :: "string set \<Rightarrow> tool_event \<Rightarrow> bool" where
  "keep_event P e = (case e of Req i \<Rightarrow> i \<notin> P | Resp _ \<Rightarrow> True)"

lemma keep_event_simps [simp]:
  "keep_event P (Req i) \<longleftrightarrow> i \<notin> P"
  "keep_event P (Resp i)"
  by (simp_all add: keep_event_def)

lemma set_request_ids: "set (request_ids es) = {i. Req i \<in> set es}"
proof (induction es)
  case Nil
  then show ?case by simp
next
  case (Cons e es)
  then show ?case by (cases e) auto
qed

lemma run_events_drop_pending:
  "run_events Q es = Some P \<Longrightarrow> distinct (request_ids es) \<Longrightarrow>
     set (request_ids es) \<inter> Q = {} \<Longrightarrow>
     run_events (Q - P) (filter (keep_event P) es) = Some {}"
proof (induction Q es rule: run_events.induct)
  case (1 Q)
  then show ?case by simp
next
  case (2 Q i es)
  then have "run_events (insert i Q - P) (filter (keep_event P) es) = Some {}" by auto
  moreover have "insert i Q - P = (if i \<in> P then Q - P else insert i (Q - P))" by auto
  ultimately show ?case by (simp split: if_splits)
next
  case (3 Q i es)
  then have i: "i \<in> Q" and run: "run_events (Q - {i}) es = Some P"
    by (auto split: if_splits)
  have "i \<notin> P"
    using run_events_subset [OF run] 3(4) i by (auto simp: set_request_ids)
  moreover have "run_events (Q - {i} - P) (filter (keep_event P) es) = Some {}"
    using 3 i run by auto
  moreover have "Q - {i} - P = Q - P - {i}" by auto
  ultimately show ?case using i by simp
qed

subsection \<open>The scan\<close>

lemma scan_user_content_events:
  "scan_user_content P cs = (k, P', iss) \<Longrightarrow>
     run_events P (content_events k) = Some P' \<and> (\<forall>c \<in> set k. block_legal User c)"
  by (induction P cs arbitrary: k P' iss rule: scan_user_content.induct)
    (auto split: message_content.splits if_splits prod.splits)

lemma scan_assistant_content_events:
  "scan_assistant_content P cs = (k, P', iss) \<Longrightarrow>
     run_events P (content_events k) = Some P' \<and> (\<forall>c \<in> set k. block_legal Assistant c)"
  by (induction P cs arbitrary: k P' iss rule: scan_assistant_content.induct)
    (auto split: message_content.splits prod.splits)

lemma scan_message_events:
  "scan_message P m = (m', P', iss) \<Longrightarrow>
     run_events P (content_events (msg_content m')) = Some P' \<and> roles_legal [m'] \<and>
     msg_role m' = msg_role m \<and> msg_metadata m' = msg_metadata m"
  by (auto simp: scan_message_def roles_legal_def split: role.splits prod.splits
      dest!: scan_user_content_events scan_assistant_content_events)

lemma roles_legal_Cons: "roles_legal (m # ms) \<longleftrightarrow> roles_legal [m] \<and> roles_legal ms"
  by (simp add: roles_legal_def)

lemma scan_messages_events:
  "scan_messages P ms = (ms', P', iss) \<Longrightarrow>
     run_events P (tool_events ms') = Some P' \<and> roles_legal ms'"
proof (induction ms arbitrary: P ms' P' iss)
  case Nil
  then show ?case by (simp add: roles_legal_def)
next
  case (Cons m ms)
  obtain m1 P1 is1 where m: "scan_message P m = (m1, P1, is1)" by (metis prod_cases3)
  obtain ms1 P2 is2 where ms: "scan_messages P1 ms = (ms1, P2, is2)" by (metis prod_cases3)
  from Cons.prems m ms have "ms' = m1 # ms1" "P' = P2" by auto
  with Cons.IH [OF ms] scan_message_events [OF m] show ?case
    by (simp add: run_events_append roles_legal_Cons [of m1 ms1])
qed

text \<open>The scan keeps a subsequence of the assistant's requests, so distinct ids stay distinct.\<close>

lemma scan_user_content_requests:
  "scan_user_content P cs = (k, P', iss) \<Longrightarrow> request_ids (content_events k) = []"
  by (induction P cs arbitrary: k P' iss rule: scan_user_content.induct)
    (auto split: message_content.splits if_splits prod.splits)

lemma scan_assistant_content_requests:
  "scan_assistant_content P cs = (k, P', iss) \<Longrightarrow>
     request_ids (content_events k) = request_ids (content_events cs)"
  by (induction P cs arbitrary: k P' iss rule: scan_assistant_content.induct)
    (auto split: message_content.splits prod.splits)

definition assistant_request_ids :: "message list \<Rightarrow> string list" where
  "assistant_request_ids ms =
     concat (map (\<lambda>m. if msg_role m = Assistant
                       then request_ids (content_events (msg_content m)) else []) ms)"

lemma scan_messages_requests:
  "scan_messages P ms = (ms', P', iss) \<Longrightarrow> request_ids (tool_events ms') = assistant_request_ids ms"
proof (induction ms arbitrary: P ms' P' iss)
  case Nil
  then show ?case by (simp add: assistant_request_ids_def)
next
  case (Cons m ms)
  obtain m1 P1 is1 where m: "scan_message P m = (m1, P1, is1)" by (metis prod_cases3)
  obtain ms1 P2 is2 where ms: "scan_messages P1 ms = (ms1, P2, is2)" by (metis prod_cases3)
  from Cons.prems m ms have "ms' = m1 # ms1" by auto
  moreover have "request_ids (content_events (msg_content m1)) =
      (if msg_role m = Assistant then request_ids (content_events (msg_content m)) else [])"
    using m by (auto simp: scan_message_def split: role.splits prod.splits
        dest: scan_user_content_requests scan_assistant_content_requests)
  ultimately show ?case using Cons.IH [OF ms] by (simp add: assistant_request_ids_def)
qed

subsection \<open>The second pass and the removal of emptied messages\<close>

lemma content_events_filter_orphans:
  "content_events (filter (\<lambda>c. \<not> is_orphan_request P c) cs) =
     filter (keep_event P) (content_events cs)"
  by (induction cs) (auto simp: is_orphan_request_def split: message_content.splits)

lemma tool_events_drop_orphans:
  "roles_legal ms \<Longrightarrow>
     tool_events (map (drop_orphan_requests P) ms) = filter (keep_event P) (tool_events ms)"
proof (induction ms)
  case Nil
  then show ?case by simp
next
  case (Cons m ms)
  have "filter (keep_event P) (content_events cs) = content_events cs"
    if "\<forall>c \<in> set cs. block_legal User c" for cs
    using that
  proof (induction cs)
    case (Cons c cs)
    then show ?case by (cases c) auto
  qed simp
  with Cons show ?case
    by (cases "msg_role m") (auto simp: drop_orphan_requests_def content_events_filter_orphans
        roles_legal_def)
qed

lemma empty_message_events: "is_empty_message m \<Longrightarrow> content_events (msg_content m) = []"
proof -
  have "list_all (\<lambda>c. as_text c = Some []) cs \<Longrightarrow> content_events cs = []" for cs
  proof (induction cs)
    case Nil
    then show ?case by simp
  next
    case (Cons c cs)
    then show ?case by (cases c) auto
  qed
  then show "is_empty_message m \<Longrightarrow> ?thesis" by (simp add: is_empty_message_def)
qed

lemma tool_events_remove_empty:
  "tool_events (fst (remove_empty_messages ms)) = tool_events ms"
  by (induction ms) (auto simp: remove_empty_messages_def empty_message_events)

lemma roles_legal_remove_empty:
  "roles_legal ms \<Longrightarrow> roles_legal (fst (remove_empty_messages ms))"
  by (simp add: roles_legal_def remove_empty_messages_def)

lemma roles_legal_drop_orphans:
  "roles_legal ms \<Longrightarrow> roles_legal (map (drop_orphan_requests P) ms)"
  by (auto simp: roles_legal_def drop_orphan_requests_def)

lemma fix_tool_calling_run:
  assumes "distinct (assistant_request_ids ms)"
  shows "run_events {} (tool_events (fst (fix_tool_calling ms))) = Some {}"
    and "roles_legal (fst (fix_tool_calling ms))"
proof -
  obtain ms1 P is1 where scan: "scan_messages {} ms = (ms1, P, is1)" by (metis prod_cases3)
  note ev = scan_messages_events [OF scan]
  have fst: "fst (fix_tool_calling ms) =
      fst (remove_empty_messages (map (drop_orphan_requests P) ms1))"
    by (simp add: fix_tool_calling_def scan case_prod_beta Let_def)
  have "run_events ({} - P) (filter (keep_event P) (tool_events ms1)) = Some {}"
    using ev assms scan_messages_requests [OF scan] by (intro run_events_drop_pending) auto
  then show "run_events {} (tool_events (fst (fix_tool_calling ms))) = Some {}"
    using ev by (simp add: fst tool_events_remove_empty tool_events_drop_orphans)
  show "roles_legal (fst (fix_tool_calling ms))"
    using ev by (simp add: fst roles_legal_remove_empty roles_legal_drop_orphans)
qed

end
