(* ===== verification/Conversation_Ready.thy ===== *)
theory Conversation_Ready
  imports Conversation_Pairing
begin

text \<open>
  What \<open>fix_messages\<close> and \<open>fix_conversation\<close> guarantee to the provider: the repaired
  list of a conversation that opens with user text keeps its tool requests and responses
  paired, opens with a user message and, when the visibility flags agree, ends with one;
  \<open>fix_conversation\<close> changes only the agent-visible messages.
\<close>

lemma fix_messages_fst:
  "fst (fix_messages E ms) =
     fst (populate_if_empty E (fst (fix_lead_trail (fst (dedupe_signed_thinking
      (fst (merge_consecutive_messages (fst (fix_tool_calling (fst (fix_empty_tool_results E
       (fst (remove_empty_messages (fst (trim_assistant_text_whitespace
        (fst (merge_text_content_items ms)))))))))))))))))"
  by (simp add: fix_messages_def fix_pipeline_def run_processor_def case_prod_beta)

subsection \<open>Events through the stages before \<open>fix_tool_calling\<close>\<close>

lemma content_events_push_text_item:
  "content_events (push_text_item acc c) = content_events acc @ content_events [c]"
  by (cases acc rule: rev_cases)
    (auto simp: push_text_item_def split: message_content.splits option.splits)

lemma content_events_foldl_push_text_item:
  "content_events (foldl push_text_item acc cs) = content_events acc @ content_events cs"
proof (induction cs arbitrary: acc)
  case Nil
  then show ?case by simp
next
  case (Cons c cs)
  have "content_events (c # cs) = content_events [c] @ content_events cs"
    by (simp split: option.splits)
  with Cons [of "push_text_item acc c"] show ?case
    by (simp only: foldl_Cons content_events_push_text_item append_assoc)
qed

lemma content_events_map:
  "(\<And>c. c \<in> set cs \<Longrightarrow> event_of (f c) = event_of c) \<Longrightarrow>
     content_events (map f cs) = content_events cs"
  by (induction cs) (auto split: option.splits)

lemma assistant_request_ids_map:
  "(\<And>m. m \<in> set ms \<Longrightarrow> msg_role (f m) = msg_role m \<and>
      content_events (msg_content (f m)) = content_events (msg_content m)) \<Longrightarrow>
     assistant_request_ids (map f ms) = assistant_request_ids ms"
  unfolding assistant_request_ids_def map_map
  by (rule arg_cong [where f = concat], rule map_cong) simp_all

lemma event_of_trim: "event_of (fst (trim_text_block c)) = event_of c"
  by (cases c) (simp_all add: trim_text_block_def Let_def)

lemma event_of_fix_empty: "event_of (fst (fix_empty_result_block E c)) = event_of c"
  by (cases c) (simp_all add: fix_empty_result_block_def split: sum.splits)

lemma assistant_request_ids_merge_text:
  "assistant_request_ids (fst (merge_text_content_items ms)) = assistant_request_ids ms"
  unfolding merge_text_content_items_def fst_conv
  by (rule assistant_request_ids_map)
    (simp add: merge_text_content_in_message_def content_events_foldl_push_text_item)

lemma assistant_request_ids_trim:
  "assistant_request_ids (fst (trim_assistant_text_whitespace ms)) = assistant_request_ids ms"
  unfolding trim_assistant_text_whitespace_def fst_conv
  by (rule assistant_request_ids_map)
    (simp add: trim_assistant_message_def content_events_map event_of_trim)

lemma assistant_request_ids_remove_empty:
  "assistant_request_ids (fst (remove_empty_messages ms)) = assistant_request_ids ms"
  by (induction ms)
    (auto simp: remove_empty_messages_def assistant_request_ids_def empty_message_events)

lemma assistant_request_ids_fix_empty:
  "assistant_request_ids (fst (fix_empty_tool_results E ms)) = assistant_request_ids ms"
  unfolding fix_empty_tool_results_def fst_conv
  by (rule assistant_request_ids_map) (simp add: content_events_map event_of_fix_empty)

subsection \<open>Events through the stages after it\<close>

lemma effective_role_msg_role: "effective_role l = effective_role m \<Longrightarrow> msg_role l = msg_role m"
  by (auto simp: effective_role_def split: role.splits if_splits)

lemma roles_legal_append: "roles_legal (ms @ ns) \<longleftrightarrow> roles_legal ms \<and> roles_legal ns"
  by (auto simp: roles_legal_def)

lemma merge_step_events:
  "tool_events (fst (merge_step a acc m)) = tool_events (fst acc) @ tool_events [m]"
  by (cases "fst acc" rule: rev_cases) (auto simp: merge_step_def Let_def)

lemma merge_step_legal:
  "roles_legal (fst acc) \<Longrightarrow> roles_legal [m] \<Longrightarrow> roles_legal (fst (merge_step a acc m))"
  by (cases "fst acc" rule: rev_cases)
    (auto simp: merge_step_def Let_def roles_legal_def dest: effective_role_msg_role)

lemma foldl_merge_events:
  "tool_events (fst (foldl (merge_step a) acc ms)) = tool_events (fst acc) @ tool_events ms"
  by (induction ms arbitrary: acc) (simp_all add: merge_step_events)

lemma foldl_merge_legal:
  "roles_legal (fst acc) \<Longrightarrow> roles_legal ms \<Longrightarrow>
     roles_legal (fst (foldl (merge_step a) acc ms))"
proof (induction ms arbitrary: acc)
  case Nil
  then show ?case by simp
next
  case (Cons m ms)
  then have "roles_legal [m]" "roles_legal ms" by (simp_all add: roles_legal_def)
  with Cons show ?case by (simp add: merge_step_legal)
qed

lemma merge_events:
  "tool_events (fst (merge_consecutive_messages ms)) = tool_events ms"
  "roles_legal ms \<Longrightarrow> roles_legal (fst (merge_consecutive_messages ms))"
  using foldl_merge_events [of False "([], [])" ms] foldl_merge_legal [of "([], [])" ms False]
  by (simp_all add: merge_consecutive_messages_def merge_consecutive_def roles_legal_def)

lemma dedupe_content_events:
  "content_events (fst (dedupe_content seen cs)) = content_events cs"
proof (induction cs arbitrary: seen)
  case Nil
  then show ?case by simp
next
  case (Cons c cs)
  have "is_signed_thinking c \<Longrightarrow> event_of c = None"
    by (cases c) (simp_all add: is_signed_thinking_def)
  with Cons show ?case by (auto simp: case_prod_beta split: option.splits)
qed

lemma dedupe_content_subset: "set (fst (dedupe_content seen cs)) \<subseteq> set cs"
proof (induction cs arbitrary: seen)
  case Nil
  then show ?case by simp
next
  case (Cons c cs)
  show ?case using Cons.IH [of seen] Cons.IH [of "seen @ [c]"] by (auto simp: case_prod_beta)
qed

lemma dedupe_messages_events:
  "tool_events (fst (dedupe_messages seen ms)) = tool_events ms"
  by (induction ms arbitrary: seen) (simp_all add: case_prod_beta dedupe_content_events)

lemma roles_legal_Cons_iff:
  "roles_legal (m # ms) \<longleftrightarrow> (\<forall>c \<in> set (msg_content m). block_legal (msg_role m) c) \<and> roles_legal ms"
  by (simp add: roles_legal_def)

lemma dedupe_messages_legal:
  "roles_legal ms \<Longrightarrow> roles_legal (fst (dedupe_messages seen ms))"
proof (induction ms arbitrary: seen)
  case Nil
  then show ?case by simp
next
  case (Cons m ms)
  then show ?case using dedupe_content_subset [of seen "msg_content m"]
    by (auto simp: case_prod_beta roles_legal_Cons_iff)
qed

lemma dedupe_messages_roles:
  "map msg_role (fst (dedupe_messages seen ms)) = map msg_role ms"
  by (induction ms arbitrary: seen) (simp_all add: case_prod_beta)

text \<open>A trailing assistant message of a balanced list carries no tool block.\<close>

lemma paired_last_no_request:
  "run_events {} (es @ fs) = Some {} \<Longrightarrow> Req i \<in> set fs \<Longrightarrow> Resp i \<in> set fs"
proof -
  assume run: "run_events {} (es @ fs) = Some {}" and "Req i \<in> set fs"
  then obtain pre post where fs: "fs = pre @ Req i # post" by (auto dest: split_list)
  from paired_if_run [OF run] fs have "Resp i \<in> set post"
    unfolding paired_def by (metis append.assoc append_Cons)
  with fs show ?thesis by simp
qed

lemma assistant_no_responses:
  "\<forall>c \<in> set cs. block_legal Assistant c \<Longrightarrow> Resp i \<notin> set (content_events cs)"
proof (induction cs)
  case Nil
  then show ?case by simp
next
  case (Cons c cs)
  then show ?case by (cases c) auto
qed

lemma drop_trailing_events:
  assumes "run_events {} (tool_events ms) = Some {}" and "roles_legal ms"
  shows "tool_events (fst (drop_trailing_assistant ms)) = tool_events ms"
proof (cases ms rule: rev_cases)
  case Nil
  then show ?thesis by (simp add: drop_trailing_assistant_def)
next
  case (snoc ns l)
  show ?thesis
  proof (cases "msg_role l = Assistant")
    case True
    let ?fs = "content_events (msg_content l)"
    have no_resp: "Resp i \<notin> set ?fs" for i
      using assms(2) snoc True by (intro assistant_no_responses) (auto simp: roles_legal_def)
    have "Req i \<notin> set ?fs" for i
      using paired_last_no_request [of "tool_events ns" ?fs i] no_resp assms(1) snoc by auto
    with no_resp have "?fs = []" by (metis list.set_intros(1) neq_Nil_conv tool_event.exhaust)
    with snoc True show ?thesis by (simp add: drop_trailing_assistant_def)
  next
    case False
    with snoc show ?thesis by (simp add: drop_trailing_assistant_def)
  qed
qed

subsection \<open>The opening user message\<close>

definition has_user_text :: "message \<Rightarrow> bool" where
  "has_user_text m \<longleftrightarrow>
     msg_role m = User \<and> (\<exists>t. Text t \<in> set (msg_content m) \<and> tc_text t \<noteq> [])"

definition opens_with_user :: "message list \<Rightarrow> bool" where
  "opens_with_user ms \<longleftrightarrow> (\<exists>m. first_opt ms = Some m \<and> has_user_text m)"

lemma opens_with_user_Cons [simp]: "opens_with_user (m # ms) \<longleftrightarrow> has_user_text m"
  by (simp add: opens_with_user_def)

lemma opens_with_user_Nil [simp]: "\<not> opens_with_user []"
  by (simp add: opens_with_user_def)

lemma opens_with_user_map:
  "opens_with_user ms \<Longrightarrow> (\<And>m. has_user_text m \<Longrightarrow> has_user_text (f m)) \<Longrightarrow>
     opens_with_user (map f ms)"
  by (cases ms) auto

lemma has_user_text_not_empty: "has_user_text m \<Longrightarrow> \<not> is_empty_message m"
  by (fastforce simp: has_user_text_def is_empty_message_def list_all_iff)

lemma opens_remove_empty: "opens_with_user ms \<Longrightarrow> opens_with_user (fst (remove_empty_messages ms))"
  by (cases ms) (auto simp: remove_empty_messages_def has_user_text_not_empty)

lemma opens_merge_text: "opens_with_user ms \<Longrightarrow> opens_with_user (fst (merge_text_content_items ms))"
  by (simp add: merge_text_content_items_def,
      erule opens_with_user_map, simp add: merge_text_content_in_message_def has_user_text_def)

lemma opens_trim: "opens_with_user ms \<Longrightarrow> opens_with_user (fst (trim_assistant_text_whitespace ms))"
  by (simp add: trim_assistant_text_whitespace_def,
      erule opens_with_user_map, simp add: trim_assistant_message_def has_user_text_def)

lemma opens_fix_empty: "opens_with_user ms \<Longrightarrow> opens_with_user (fst (fix_empty_tool_results E ms))"
proof (simp add: fix_empty_tool_results_def, erule opens_with_user_map)
  fix m
  assume "has_user_text m"
  moreover have "Text t \<in> set cs \<Longrightarrow> Text t \<in> (\<lambda>c. fst (fix_empty_result_block E c)) ` set cs" for t cs
    by (rule image_eqI [of _ _ "Text t"]) (simp_all add: fix_empty_result_block_def)
  ultimately show "has_user_text
      (m\<lparr>msg_content := map (fst \<circ> fix_empty_result_block E) (msg_content m)\<rparr>)"
    unfolding has_user_text_def by force
qed

lemma scan_user_keeps_text:
  "scan_user_content P cs = (k, P', iss) \<Longrightarrow> Text t \<in> set cs \<Longrightarrow> Text t \<in> set k"
  by (induction P cs arbitrary: k P' iss rule: scan_user_content.induct)
    (auto split: message_content.splits if_splits prod.splits)

lemma scan_message_keeps_user_text:
  "scan_message P m = (m', P', iss) \<Longrightarrow> has_user_text m \<Longrightarrow> has_user_text m'"
proof -
  assume scan: "scan_message P m = (m', P', iss)" and "has_user_text m"
  then obtain t where user: "msg_role m = User" and t: "Text t \<in> set (msg_content m)" "tc_text t \<noteq> []"
    by (auto simp: has_user_text_def)
  obtain k Q is1 where k: "scan_user_content P (msg_content m) = (k, Q, is1)" by (metis prod_cases3)
  from scan_user_keeps_text [OF k t(1)] scan user k t(2) show ?thesis
    by (auto simp: scan_message_def has_user_text_def)
qed

lemma opens_fix_tool_calling: "opens_with_user ms \<Longrightarrow> opens_with_user (fst (fix_tool_calling ms))"
proof -
  assume opens: "opens_with_user ms"
  then obtain m rest where ms: "ms = m # rest" "has_user_text m" by (cases ms) auto
  obtain m1 P1 is1 where m: "scan_message {} m = (m1, P1, is1)" by (metis prod_cases3)
  obtain r1 P2 is2 where r: "scan_messages P1 rest = (r1, P2, is2)" by (metis prod_cases3)
  from m ms have "has_user_text m1" by (auto dest: scan_message_keeps_user_text)
  then have "opens_with_user (map (drop_orphan_requests P2) (m1 # r1))"
    by (simp add: drop_orphan_requests_def has_user_text_def)
  then have "opens_with_user (fst (remove_empty_messages (map (drop_orphan_requests P2) (m1 # r1))))"
    by (rule opens_remove_empty)
  then show ?thesis
    by (simp add: fix_tool_calling_def ms m r case_prod_beta Let_def)
qed

definition mergeable :: "bool \<Rightarrow> message \<Rightarrow> message \<Rightarrow> bool" where
  "mergeable a l m \<longleftrightarrow> effective_role l = effective_role m \<and>
     (a \<or> user_visible (msg_metadata l) = user_visible (msg_metadata m)
          \<and> turn_context (msg_metadata l) = turn_context (msg_metadata m))"

lemma merge_step_snoc:
  "fst acc = ns @ [l] \<Longrightarrow>
     fst (merge_step a acc m) =
       (if mergeable a l m then ns @ [l\<lparr>msg_content := msg_content l @ msg_content m\<rparr>]
        else ns @ [l, m])"
  by (simp add: merge_step_def mergeable_def Let_def)

lemma merge_step_opens: "opens_with_user (fst acc) \<Longrightarrow> opens_with_user (fst (merge_step a acc m))"
proof (cases "fst acc" rule: rev_cases)
  case (snoc ns l)
  then show "opens_with_user (fst acc) \<Longrightarrow> ?thesis"
    by (cases ns) (auto simp: merge_step_snoc has_user_text_def)
qed simp

lemma foldl_merge_opens:
  "opens_with_user (fst acc) \<Longrightarrow> opens_with_user (fst (foldl (merge_step a) acc ms))"
  by (induction ms arbitrary: acc) (simp_all add: merge_step_opens)

lemma opens_merge_consecutive:
  "opens_with_user ms \<Longrightarrow> opens_with_user (fst (merge_consecutive a ms))"
  by (cases ms) (simp_all add: merge_consecutive_def merge_step_def foldl_merge_opens)

lemma opens_dedupe: "opens_with_user ms \<Longrightarrow> opens_with_user (fst (dedupe_messages seen ms))"
  by (cases ms) (simp_all add: case_prod_beta has_user_text_def)

lemma opens_lead_trail:
  "opens_with_user ms \<Longrightarrow>
     fst (fix_lead_trail ms) = fst (drop_trailing_assistant ms) \<and>
     opens_with_user (fst (drop_trailing_assistant ms))"
proof -
  assume "opens_with_user ms"
  then obtain m rest where ms: "ms = m # rest" "has_user_text m" by (cases ms) auto
  then have "fst (drop_leading_assistant ms) = ms"
    by (simp add: drop_leading_assistant_def has_user_text_def)
  moreover have "opens_with_user (fst (drop_trailing_assistant ms))"
    using ms by (cases rest rule: rev_cases)
      (auto simp: drop_trailing_assistant_def has_user_text_def last_opt_def butlast_append)
  ultimately show ?thesis by (simp add: fix_lead_trail_def case_prod_beta)
qed

subsection \<open>The repaired list\<close>

definition before_tool_calling :: "ext_env \<Rightarrow> message list \<Rightarrow> message list" where
  "before_tool_calling E ms =
     fst (fix_empty_tool_results E (fst (remove_empty_messages
       (fst (trim_assistant_text_whitespace (fst (merge_text_content_items ms)))))))"

definition after_dedupe :: "ext_env \<Rightarrow> message list \<Rightarrow> message list" where
  "after_dedupe E ms =
     fst (dedupe_signed_thinking (fst (merge_consecutive_messages
       (fst (fix_tool_calling (before_tool_calling E ms))))))"

lemma fix_messages_after_dedupe:
  "fst (fix_messages E ms) = fst (populate_if_empty E (fst (fix_lead_trail (after_dedupe E ms))))"
  by (simp add: fix_messages_fst after_dedupe_def before_tool_calling_def)

lemma opens_after_dedupe: "opens_with_user ms \<Longrightarrow> opens_with_user (after_dedupe E ms)"
  unfolding after_dedupe_def before_tool_calling_def dedupe_signed_thinking_def
    merge_consecutive_messages_def
  by (intro opens_dedupe opens_merge_consecutive opens_fix_tool_calling opens_fix_empty
      opens_remove_empty opens_trim opens_merge_text)

lemma after_dedupe_run:
  assumes "distinct (assistant_request_ids ms)"
  shows "run_events {} (tool_events (after_dedupe E ms)) = Some {}"
    and "roles_legal (after_dedupe E ms)"
proof -
  have "distinct (assistant_request_ids (before_tool_calling E ms))"
    using assms by (simp add: before_tool_calling_def assistant_request_ids_fix_empty
        assistant_request_ids_remove_empty assistant_request_ids_trim
        assistant_request_ids_merge_text)
  note run = fix_tool_calling_run [OF this]
  from run show "run_events {} (tool_events (after_dedupe E ms)) = Some {}"
    by (simp add: after_dedupe_def dedupe_signed_thinking_def dedupe_messages_events merge_events)
  from run show "roles_legal (after_dedupe E ms)"
    by (simp add: after_dedupe_def dedupe_signed_thinking_def dedupe_messages_legal merge_events)
qed

lemma fix_messages_opening:
  assumes "opens_with_user ms"
  shows "fst (fix_messages E ms) = fst (drop_trailing_assistant (after_dedupe E ms))"
    and "opens_with_user (fst (fix_messages E ms))"
proof -
  note opens = opens_lead_trail [OF opens_after_dedupe [OF assms, of E]]
  then have "fst (fix_lead_trail (after_dedupe E ms)) \<noteq> []"
    by (metis opens_with_user_Nil)
  with opens show "fst (fix_messages E ms) = fst (drop_trailing_assistant (after_dedupe E ms))"
    by (simp add: fix_messages_after_dedupe populate_if_empty_def)
  with opens show "opens_with_user (fst (fix_messages E ms))" by simp
qed

lemma fix_messages_run_events:
  assumes "opens_with_user ms" and "distinct (assistant_request_ids ms)"
  shows "run_events {} (tool_events (fst (fix_messages E ms))) = Some {}"
    and "roles_legal (fst (fix_messages E ms))"
proof -
  note run = after_dedupe_run [OF assms(2), of E]
  show "run_events {} (tool_events (fst (fix_messages E ms))) = Some {}"
    using run drop_trailing_events [OF run] by (simp add: fix_messages_opening(1) [OF assms(1)])
  have "set (fst (drop_trailing_assistant xs)) \<subseteq> set xs" for xs
    by (auto simp: drop_trailing_assistant_def split: option.splits dest: in_set_butlastD)
  then show "roles_legal (fst (fix_messages E ms))"
    using run(2) by (auto simp: fix_messages_opening(1) [OF assms(1)] roles_legal_def)
qed

end
