(* ===== verification/Conversation_Props.thy ===== *)
theory Conversation_Props
  imports Conversation_Ready
begin

text \<open>
  The properties of \<open>conversation.rs\<close>: validation, the shape of a repaired conversation,
  the role alternation of a request, the frame of \<open>fix_conversation\<close>, the text kept by
  streaming, and that the placeholder of a conversation without visible messages is lost.
\<close>

subsection \<open>Metadata and length through the stages\<close>

definition metas :: "message list \<Rightarrow> message_metadata set" where
  "metas ms = msg_metadata ` set ms"

lemma scan_messages_metas:
  "scan_messages P ms = (ms', P', iss) \<Longrightarrow> map msg_metadata ms' = map msg_metadata ms"
proof (induction ms arbitrary: P ms' P' iss)
  case Nil
  then show ?case by simp
next
  case (Cons m ms)
  obtain m1 P1 is1 where m: "scan_message P m = (m1, P1, is1)" by (metis prod_cases3)
  obtain ms1 P2 is2 where ms: "scan_messages P1 ms = (ms1, P2, is2)" by (metis prod_cases3)
  from Cons.prems m ms Cons.IH [OF ms] scan_message_events [OF m] show ?case by auto
qed

lemma metas_map: "(\<And>m. msg_metadata (f m) = msg_metadata m) \<Longrightarrow> metas (map f ms) = metas ms"
  by (simp add: metas_def image_image)

lemma metas_merge_text: "metas (fst (merge_text_content_items ms)) = metas ms"
  by (simp add: merge_text_content_items_def metas_map merge_text_content_in_message_def)

lemma metas_trim: "metas (fst (trim_assistant_text_whitespace ms)) = metas ms"
  unfolding trim_assistant_text_whitespace_def fst_conv
  by (rule metas_map) (simp add: trim_assistant_message_def)

lemma metas_remove_empty: "metas (fst (remove_empty_messages ms)) \<subseteq> metas ms"
  by (auto simp: remove_empty_messages_def metas_def)

lemma metas_fix_empty: "metas (fst (fix_empty_tool_results E ms)) = metas ms"
  by (simp add: fix_empty_tool_results_def metas_map)

lemma metas_fix_tool_calling: "metas (fst (fix_tool_calling ms)) \<subseteq> metas ms"
proof -
  obtain ms1 P is1 where scan: "scan_messages {} ms = (ms1, P, is1)" by (metis prod_cases3)
  have "fst (fix_tool_calling ms) = fst (remove_empty_messages (map (drop_orphan_requests P) ms1))"
    by (simp add: fix_tool_calling_def scan case_prod_beta Let_def)
  also have "metas \<dots> \<subseteq> metas (map (drop_orphan_requests P) ms1)"
    by (rule metas_remove_empty)
  also have "\<dots> = metas ms1" by (rule metas_map) (simp add: drop_orphan_requests_def)
  also have "\<dots> = metas ms"
    using scan_messages_metas [OF scan] by (metis metas_def list.set_map)
  finally show ?thesis .
qed

lemma merge_step_metas: "metas (fst (merge_step a acc m)) \<subseteq> metas (fst acc) \<union> {msg_metadata m}"
proof (cases "fst acc" rule: rev_cases)
  case Nil
  then show ?thesis by (simp add: merge_step_def metas_def)
next
  case (snoc ns l)
  then show ?thesis by (auto simp: merge_step_snoc metas_def)
qed

lemma foldl_merge_metas:
  "metas (fst (foldl (merge_step a) acc ms)) \<subseteq> metas (fst acc) \<union> metas ms"
proof (induction ms arbitrary: acc)
  case Nil
  then show ?case by simp
next
  case (Cons m ms)
  from Cons [of "merge_step a acc m"] merge_step_metas [of a acc m] show ?case
    by (auto simp: metas_def)
qed

lemma metas_merge_consecutive: "metas (fst (merge_consecutive a ms)) \<subseteq> metas ms"
  using foldl_merge_metas [of a "([], [])" ms] by (simp add: merge_consecutive_def metas_def)

lemma metas_dedupe: "metas (fst (dedupe_messages seen ms)) = metas ms"
  by (induction ms arbitrary: seen) (simp_all add: case_prod_beta metas_def)

lemma metas_before_tool_calling: "metas (before_tool_calling E ms) \<subseteq> metas ms"
  unfolding before_tool_calling_def metas_fix_empty
  by (rule subset_trans [OF metas_remove_empty]) (simp add: metas_trim metas_merge_text)

lemma metas_after_dedupe: "metas (after_dedupe E ms) \<subseteq> metas ms"
  unfolding after_dedupe_def dedupe_signed_thinking_def metas_dedupe merge_consecutive_messages_def
  using metas_merge_consecutive metas_fix_tool_calling metas_before_tool_calling
  by (meson subset_trans)

lemma set_lead_trail: "set (fst (fix_lead_trail ms)) \<subseteq> set ms"
  by (auto simp: fix_lead_trail_def drop_leading_assistant_def drop_trailing_assistant_def
      split: list.splits option.splits if_splits dest: in_set_butlastD)

lemma metas_fix_messages: "metas (fst (fix_messages E ms)) \<subseteq> metas ms \<union> {metadata_default}"
proof -
  have "metas (fst (fix_lead_trail (after_dedupe E ms))) \<subseteq> metas ms"
    using set_lead_trail [of "after_dedupe E ms"] metas_after_dedupe [of E ms]
    by (auto simp: metas_def)
  then show ?thesis
    by (auto simp: fix_messages_after_dedupe populate_if_empty_def metas_def with_text_def
        with_content_def message_user_def message_new_def)
qed

lemma length_merge_step: "length (fst (merge_step a acc m)) \<le> Suc (length (fst acc))"
proof (cases "fst acc" rule: rev_cases)
  case Nil
  then show ?thesis by (simp add: merge_step_def)
next
  case (snoc ns l)
  then show ?thesis by (simp add: merge_step_snoc)
qed

lemma length_foldl_merge:
  "length (fst (foldl (merge_step a) acc ms)) \<le> length (fst acc) + length ms"
proof (induction ms arbitrary: acc)
  case Nil
  then show ?case by simp
next
  case (Cons m ms)
  from Cons [of "merge_step a acc m"] length_merge_step [of a acc m] show ?case by simp
qed

lemma length_fix_tool_calling: "length (fst (fix_tool_calling ms)) \<le> length ms"
proof -
  obtain ms1 P is1 where scan: "scan_messages {} ms = (ms1, P, is1)" by (metis prod_cases3)
  have "length ms1 = length ms" using scan_messages_metas [OF scan] by (metis length_map)
  then show ?thesis
    using length_filter_le [of "\<lambda>m. \<not> is_empty_message m" "map (drop_orphan_requests P) ms1"]
    by (simp add: fix_tool_calling_def scan remove_empty_messages_def Let_def)
qed

lemma length_dedupe: "length (fst (dedupe_messages seen ms)) = length ms"
  using dedupe_messages_roles [of seen ms] by (metis length_map)

lemma length_lead_trail: "length (fst (fix_lead_trail ms)) \<le> length ms"
  by (auto simp: fix_lead_trail_def drop_leading_assistant_def drop_trailing_assistant_def
      split: list.splits option.splits)

lemma length_after_dedupe: "length (after_dedupe E ms) \<le> length ms"
proof -
  have "length (after_dedupe E ms) \<le> length (fst (fix_tool_calling (before_tool_calling E ms)))"
    using length_foldl_merge [of False "([], [])" "fst (fix_tool_calling (before_tool_calling E ms))"]
    by (simp add: after_dedupe_def dedupe_signed_thinking_def length_dedupe
        merge_consecutive_messages_def merge_consecutive_def)
  also have "\<dots> \<le> length (before_tool_calling E ms)" by (rule length_fix_tool_calling)
  also have "\<dots> \<le> length ms"
    by (simp add: before_tool_calling_def fix_empty_tool_results_def remove_empty_messages_def
        trim_assistant_text_whitespace_def merge_text_content_items_def
        order_trans [OF length_filter_le])
  finally show ?thesis .
qed

lemma length_fix_messages: "ms \<noteq> [] \<Longrightarrow> length (fst (fix_messages E ms)) \<le> length ms"
  using length_lead_trail [of "after_dedupe E ms"] length_after_dedupe [of E ms]
  by (auto simp: fix_messages_after_dedupe populate_if_empty_def neq_Nil_conv)

subsection \<open>Alternation\<close>

definition alternating :: "message list \<Rightarrow> bool" where
  "alternating ms \<longleftrightarrow> successively (\<lambda>a b. effective_role a \<noteq> effective_role b) ms"

lemma effective_role_merged:
  "effective_role l = effective_role m \<Longrightarrow>
     effective_role (l\<lparr>msg_content := msg_content l @ msg_content m\<rparr>) = effective_role l"
  by (auto simp: effective_role_def has_tool_response_def split: role.splits if_splits)

lemma alternating_snoc:
  "alternating (ns @ [l]) \<longleftrightarrow>
     alternating ns \<and> (ns = [] \<or> effective_role (last ns) \<noteq> effective_role l)"
  by (auto simp: alternating_def successively_append_iff)

lemma merge_step_alternating:
  assumes "alternating (fst acc)"
    and "\<And>l. l \<in> set (fst acc) \<Longrightarrow> effective_role l = effective_role m \<Longrightarrow> mergeable a l m"
  shows "alternating (fst (merge_step a acc m))"
proof (cases "fst acc" rule: rev_cases)
  case Nil
  then show ?thesis by (simp add: merge_step_def alternating_def)
next
  case (snoc ns l)
  show ?thesis
  proof (cases "mergeable a l m")
    case True
    with snoc assms(1) effective_role_merged [of l m] show ?thesis
      by (simp add: merge_step_snoc alternating_snoc mergeable_def)
  next
    case False
    with snoc assms(2) have "effective_role l \<noteq> effective_role m" by auto
    with snoc False assms(1) show ?thesis
      using alternating_snoc [of "ns @ [l]" m] by (simp add: merge_step_snoc)
  qed
qed

lemma foldl_merge_alternating:
  assumes "alternating (fst acc)"
    and "\<And>k m. k \<in> metas (fst acc) \<union> metas ms \<Longrightarrow> m \<in> metas (fst acc) \<union> metas ms \<Longrightarrow>
           a \<or> user_visible k = user_visible m \<and> turn_context k = turn_context m"
  shows "alternating (fst (foldl (merge_step a) acc ms))"
  using assms
proof (induction ms arbitrary: acc)
  case Nil
  then show ?case by simp
next
  case (Cons m ms)
  have "alternating (fst (merge_step a acc m))"
    using Cons.prems by (intro merge_step_alternating) (auto simp: mergeable_def metas_def)
  moreover have "metas (fst (merge_step a acc m)) \<union> metas ms \<subseteq> metas (fst acc) \<union> metas (m # ms)"
    using merge_step_metas [of a acc m] by (auto simp: metas_def)
  ultimately show ?case using Cons.prems(2) by (simp, intro Cons.IH) (blast+)
qed

definition uniform_flags :: "message list \<Rightarrow> bool" where
  "uniform_flags ms \<longleftrightarrow>
     (\<forall>k \<in> metas ms. \<forall>m \<in> metas ms.
        user_visible k = user_visible m \<and> turn_context k = turn_context m)"

lemma alternating_map: "alternating ms \<longleftrightarrow> successively (\<noteq>) (map effective_role ms)"
  by (simp add: alternating_def successively_map)

lemma alternating_after_dedupe:
  assumes "uniform_flags ms"
  shows "alternating (after_dedupe E ms)"
proof -
  let ?in = "fst (fix_tool_calling (before_tool_calling E ms))"
  have sub: "metas ?in \<subseteq> metas ms"
    using metas_fix_tool_calling metas_before_tool_calling by (meson subset_trans)
  have flags: "user_visible k = user_visible m \<and> turn_context k = turn_context m"
    if "k \<in> metas ?in" "m \<in> metas ?in" for k m
    using assms sub that unfolding uniform_flags_def by blast
  have "alternating (fst (foldl (merge_step False) ([], []) ?in))"
  proof (rule foldl_merge_alternating)
    show "alternating (fst ([], []))" by (simp add: alternating_def)
  next
    fix k m
    assume "k \<in> metas (fst ([], [])) \<union> metas ?in" "m \<in> metas (fst ([], [])) \<union> metas ?in"
    then have "k \<in> metas ?in" "m \<in> metas ?in" by (simp_all add: metas_def)
    then show "False \<or> user_visible k = user_visible m \<and> turn_context k = turn_context m"
      using flags by blast
  qed
  moreover have "map effective_role (fst (dedupe_messages seen ns)) = map effective_role ns" for seen ns
  proof (induction ns arbitrary: seen)
    case Nil
    then show ?case by simp
  next
    case (Cons n ns)
    then show ?case by (simp add: case_prod_beta effective_role_def)
  qed
  then have "alternating ns \<Longrightarrow> alternating (fst (dedupe_messages seen ns))" for seen ns
    by (simp add: alternating_map)
  ultimately show ?thesis
    by (simp add: after_dedupe_def dedupe_signed_thinking_def merge_consecutive_messages_def
        merge_consecutive_def)
qed

lemma drop_trailing_ends_user:
  assumes "alternating ms" and "opens_with_user ms"
  shows "msg_role (last (fst (drop_trailing_assistant ms))) = User"
proof (cases ms rule: rev_cases)
  case Nil
  with assms show ?thesis by simp
next
  case (snoc ns l)
  show ?thesis
  proof (cases "msg_role l = Assistant")
    case True
    with assms snoc have "ns \<noteq> []" by (auto simp: has_user_text_def)
    with assms(1) snoc have "effective_role (last ns) \<noteq> effective_role l"
      by (simp add: alternating_snoc)
    with True have "msg_role (last ns) \<noteq> Assistant"
      by (auto simp: effective_role_def split: if_splits)
    with snoc True show ?thesis
      by (cases "msg_role (last ns)") (simp_all add: drop_trailing_assistant_def)
  next
    case False
    with snoc show ?thesis by (cases "msg_role l") (simp_all add: drop_trailing_assistant_def)
  qed
qed

subsection \<open>Slots\<close>

lemma fill_slots_visible:
  assumes "\<forall>m \<in> set F. agent_visible (msg_metadata m)"
  shows "filter (\<lambda>m. agent_visible (msg_metadata m)) (filter_map (fill_slot F) (shadow_map n c)) =
     take (length (filter (\<lambda>m. agent_visible (msg_metadata m)) c)) (drop n F)"
proof (induction c arbitrary: n)
  case Nil
  then show ?case by simp
next
  case (Cons m c)
  show ?case
  proof (cases "agent_visible (msg_metadata m)")
    case True
    show ?thesis
    proof (cases "n < length F")
      case n: True
      then have "drop n F = F ! n # drop (Suc n) F" by (simp add: Cons_nth_drop_Suc)
      with Cons True n assms show ?thesis by simp
    next
      case False
      with Cons True show ?thesis by simp
    qed
  next
    case False
    with Cons show ?thesis by simp
  qed
qed

lemma fill_slots_hidden:
  assumes "\<forall>m \<in> set F. agent_visible (msg_metadata m)"
  shows "filter (\<lambda>m. \<not> agent_visible (msg_metadata m)) (filter_map (fill_slot F) (shadow_map n c)) =
     filter (\<lambda>m. \<not> agent_visible (msg_metadata m)) c"
  using assms by (induction c arbitrary: n) auto

lemma fixed_are_visible:
  "\<forall>m \<in> set (fst (fix_messages E (filter (\<lambda>m. agent_visible (msg_metadata m)) c))).
     agent_visible (msg_metadata m)"
proof
  fix m
  assume "m \<in> set (fst (fix_messages E (filter (\<lambda>m. agent_visible (msg_metadata m)) c)))"
  then have "msg_metadata m \<in>
      metas (filter (\<lambda>m. agent_visible (msg_metadata m)) c) \<union> {metadata_default}"
    using metas_fix_messages by (fastforce simp: metas_def)
  then show "agent_visible (msg_metadata m)" by (auto simp: metas_def metadata_default_def)
qed

lemma fix_conversation_fst:
  "fst (fix_conversation E c) =
     filter_map (fill_slot (fst (fix_messages E (filter (\<lambda>m. agent_visible (msg_metadata m)) c))))
       (shadow_map 0 c)"
  by (simp add: fix_conversation_def case_prod_beta)

lemma fix_conversation_visible:
  assumes "\<forall>m \<in> set c. agent_visible (msg_metadata m)" and "c \<noteq> []"
  shows "fst (fix_conversation E c) = fst (fix_messages E c)"
proof -
  let ?v = "\<lambda>m. agent_visible (msg_metadata m)"
  from assms(1) have all: "filter ?v c = c" "filter (\<lambda>m. \<not> ?v m) c = []" by simp_all
  let ?F = "fst (fix_messages E c)"
  have "filter (\<lambda>m. \<not> ?v m) (filter_map (fill_slot ?F) (shadow_map 0 c)) = []"
    using fill_slots_hidden [OF fixed_are_visible, of E c 0 c] by (simp only: all)
  then have "filter ?v (filter_map (fill_slot ?F) (shadow_map 0 c)) =
      filter_map (fill_slot ?F) (shadow_map 0 c)"
    by (simp add: filter_id_conv filter_empty_conv)
  with fill_slots_visible [OF fixed_are_visible, of E c 0 c] length_fix_messages [OF assms(2), of E]
  show ?thesis by (simp add: fix_conversation_fst all)
qed

subsection \<open>Text kept by streaming\<close>

definition message_text :: "message \<Rightarrow> string" where
  "message_text m = concat (filter_map as_text (msg_content m))"

definition conversation_text :: "conversation \<Rightarrow> string" where
  "conversation_text c = concat (map message_text c)"

lemma merge_chunk_content_text:
  "concat (filter_map as_text (merge_chunk_content old new)) =
     concat (filter_map as_text old) @ concat (filter_map as_text new)"
proof (cases old rule: rev_cases)
  case Nil
  then show ?thesis by (simp add: merge_chunk_content_def)
next
  case (snoc xs l)
  show ?thesis
  proof (cases new rule: rev_cases)
    case Nil
    with snoc show ?thesis by (cases l) (simp_all add: merge_chunk_content_def)
  next
    case (snoc ys n)
    with \<open>old = xs @ [l]\<close> show ?thesis
      by (cases l; cases n) (simp_all add: merge_chunk_content_def)
  qed
qed

lemma absorb_flags_content [simp]: "msg_content (absorb_flags m l) = msg_content l"
  by (simp add: absorb_flags_def)

lemma merge_chunk_text: "message_text (merge_chunk l m) = message_text l @ message_text m"
  by (simp add: merge_chunk_def message_text_def merge_chunk_content_text)

lemma conversation_text_snoc [simp]:
  "conversation_text (c @ d) = conversation_text c @ conversation_text d"
  "conversation_text (m # c) = message_text m @ conversation_text c"
  "conversation_text [] = []"
  by (simp_all add: conversation_text_def)

lemma conv_push_text: "conversation_text (conv_push c m) = conversation_text c @ message_text m"
proof (cases "msg_content m = [] \<and>
    (inference (msg_metadata m) \<noteq> None \<or> output_token_limit_reached (msg_metadata m))")
  case True
  then have empty: "message_text m = []" by (simp add: message_text_def)
  have "conversation_text ys = conversation_text c"
    if "update_last p (absorb_flags m) c = Some ys" for p ys
    using update_last_SomeD [OF that] by (auto simp: conversation_text_def message_text_def)
  with True empty show ?thesis
    by (auto simp: conv_push_def Let_def message_text_def with_visibility_def
        split: option.splits)
next
  case False
  then show ?thesis
    by (cases c rule: rev_cases) (auto simp: conv_push_def merge_chunk_text)
qed

subsection \<open>Properties\<close>

text \<open>
  C1: A conversation that opens with user text, whose requests have distinct ids and whose
  messages agree in their visibility flags, is ready for the provider after
  \<open>fix_messages\<close>: every tool response follows a request with its id, every request is
  followed by its response, no block stands under the wrong role, the first and the last
  message are the user's and neighbouring messages have different effective roles.
\<close>

theorem fix_messages_provider_ready:
  assumes "opens_with_user ms" and "distinct (assistant_request_ids ms)" and "uniform_flags ms"
  shows "paired (tool_events (fst (fix_messages E ms))) \<and>
     roles_legal (fst (fix_messages E ms)) \<and>
     msg_role (hd (fst (fix_messages E ms))) = User \<and>
     msg_role (last (fst (fix_messages E ms))) = User \<and>
     alternating (fst (fix_messages E ms))"
proof -
  let ?out = "fst (fix_messages E ms)"
  note out = fix_messages_opening [OF assms(1), of E]
  note alt = alternating_after_dedupe [OF assms(3), of E]
  have "msg_role (last ?out) = User"
    unfolding out(1) using alt opens_after_dedupe [OF assms(1)] by (rule drop_trailing_ends_user)
  moreover have "alternating ?out"
    unfolding out(1) using alt by (cases "after_dedupe E ms" rule: rev_cases)
      (simp_all add: drop_trailing_assistant_def alternating_snoc)
  moreover have "msg_role (hd ?out) = User"
    using out(2) by (cases ?out) (simp_all add: has_user_text_def)
  ultimately show ?thesis
    using fix_messages_run_events [OF assms(1,2), of E] paired_if_run by blast
qed

definition example_call :: "string \<Rightarrow> message_content" where
  "example_call i = mc_tool_request i (Inr \<lparr>ct_name = ''shell'', ct_arguments = None\<rparr>)"

definition example_result :: "string \<Rightarrow> message_content" where
  "example_result i = ToolResponse
     \<lparr>tr_id = i, tr_tool_result = Inr (call_result_success [content_text ''ok'']), tr_metadata = None\<rparr>"

definition example_chat :: "message list" where
  "example_chat =
     [message_new User 0 [mc_text ''list the files''],
      message_new Assistant 0 [example_call ''r1''],
      message_new User 0 [example_result ''r1''],
      message_new Assistant 0 [mc_text ''done'']]"

lemmas example_defs = example_chat_def example_call_def example_result_def mc_text_def
  mc_tool_request_def message_new_def text_content_new_def content_text_def
  call_result_success_def

theorem fix_messages_provider_ready_witness:
  "opens_with_user example_chat \<and>
   paired (tool_events (fst (fix_messages plain_env example_chat))) \<and>
   msg_role (last (fst (fix_messages plain_env example_chat))) = User"
proof -
  have opens: "opens_with_user example_chat" by (simp add: example_defs has_user_text_def)
  have ids: "distinct (assistant_request_ids example_chat)"
    by (simp add: example_defs assistant_request_ids_def)
  have flags: "uniform_flags example_chat" by (simp add: example_defs uniform_flags_def metas_def)
  show ?thesis using opens fix_messages_provider_ready [OF opens ids flags, of plain_env] by blast
qed

text \<open>
  C2: Validation is exact: \<open>Conversation::new\<close> accepts a list of messages exactly when the
  repair pipeline neither reports nor makes a change, and then returns it as it is.
\<close>

theorem conversation_new_exact:
  "conversation_new E ms = Inr c \<longleftrightarrow> c = ms \<and> fix_messages E ms = (ms, [])"
proof -
  have "snd (fix_messages E ms) = [] \<longleftrightarrow> fix_messages E ms = (ms, [])"
    using fix_messages_quiet [of E ms] by (cases "fix_messages E ms") auto
  then show ?thesis by (auto simp: conversation_new_def conv_validate_def Let_def)
qed

text \<open>
  C3: \<open>fix_conversation\<close> leaves the messages hidden from the agent as they are and in their
  order, and the agent-visible ones are the repaired list; if there is no agent-visible
  message, none is added.
\<close>

theorem fix_conversation_frame:
  "filter (\<lambda>m. \<not> agent_visible (msg_metadata m)) (fst (fix_conversation E c)) =
     filter (\<lambda>m. \<not> agent_visible (msg_metadata m)) c \<and>
   filter (\<lambda>m. agent_visible (msg_metadata m)) (fst (fix_conversation E c)) =
     (if filter (\<lambda>m. agent_visible (msg_metadata m)) c = [] then []
      else fst (fix_messages E (filter (\<lambda>m. agent_visible (msg_metadata m)) c)))"
  using fill_slots_visible [OF fixed_are_visible, of E c 0 c]
    fill_slots_hidden [OF fixed_are_visible, of E c 0 c]
    length_fix_messages [of "filter (\<lambda>m. agent_visible (msg_metadata m)) c" E]
  by (simp add: fix_conversation_fst)

text \<open>
  The list merged for a request strictly alternates in effective role, whatever the
  visibility of the messages, and carries the same tool blocks in the same order.
\<close>

theorem merge_for_request_alternates:
  "alternating (merge_consecutive_messages_for_request ms) \<and>
   tool_events (merge_consecutive_messages_for_request ms) = tool_events ms"
proof -
  have "alternating (fst (foldl (merge_step True) ([], []) ms))"
    by (rule foldl_merge_alternating) (simp_all add: alternating_def)
  then show ?thesis
    using foldl_merge_events [of True "([], [])" ms]
    by (simp add: merge_consecutive_messages_for_request_def merge_consecutive_def)
qed

text \<open>
  Folding streamed chunks into a conversation neither loses, repeats nor reorders text:
  the text of the result is the text before, followed by the chunks' text in order.
\<close>

theorem conv_extend_text:
  "conversation_text (conv_extend c ms) = conversation_text c @ concat (map message_text ms)"
  by (induction ms arbitrary: c) (simp_all add: conv_extend_def conv_push_text)

lemma fix_messages_empty:
  "fix_messages E [] =
     ([with_text E PLACEHOLDER_USER_MESSAGE (message_user E)],
      [''Added placeholder user message to empty conversation''])"
  by (simp add: fix_messages_def fix_pipeline_def run_processor_def
      merge_text_content_items_def trim_assistant_text_whitespace_def remove_empty_messages_def
      fix_empty_tool_results_def fix_tool_calling_def merge_consecutive_messages_def
      merge_consecutive_def dedupe_signed_thinking_def fix_lead_trail_def
      drop_leading_assistant_def drop_trailing_assistant_def populate_if_empty_def)

lemma fill_hidden_slots:
  "filter_map (fill_slot fixed)
     (shadow_map n (filter (\<lambda>m. \<not> agent_visible (msg_metadata m)) c)) =
   filter (\<lambda>m. \<not> agent_visible (msg_metadata m)) c"
  by (induction c) simp_all

text \<open>
  On a conversation without agent-visible messages \<open>fix_conversation\<close> reports that it
  added the placeholder, but the placeholder has no slot to go to and the result stays as
  it was, so the result does not open with a user message the agent sees.
\<close>

theorem fix_conversation_placeholder_lost:
  "fix_conversation E (filter (\<lambda>m. \<not> agent_visible (msg_metadata m)) c) =
     (filter (\<lambda>m. \<not> agent_visible (msg_metadata m)) c,
      [''Added placeholder user message to empty conversation''])"
  by (simp add: fix_conversation_def fix_messages_empty fill_hidden_slots)

end
