(* ===== verification/Message_Props.thy ===== *)
theory Message_Props
  imports Message_Ops
begin

text \<open>
  Properties of \<open>message.rs\<close>: the projections for the agent and for the user are
  idempotent, operation notes behave as a two-level map, and a tool name built from an
  extension and a tool is taken apart again.
\<close>

subsection \<open>Projections\<close>

lemma filter_map_fixed: "(\<And>x. x \<in> set xs \<Longrightarrow> f x = Some x) \<Longrightarrow> filter_map f xs = xs"
  by (induction xs) auto

lemma filter_map_image: "y \<in> set (filter_map f xs) \<Longrightarrow> \<exists>x \<in> set xs. f x = Some y"
  by (induction xs) (auto split: option.splits)

lemma filter_for_audience_fixed:
  "filter_for_audience r c = Some d \<Longrightarrow> filter_for_audience r d = Some d"
proof (cases c)
  case (ToolResponse res)
  then show "filter_for_audience r c = Some d \<Longrightarrow> ?thesis"
    by (cases "tr_tool_result res") auto
qed (auto split: if_splits)

lemma content_user_visible_fixed:
  "content_user_visible c = Some d \<Longrightarrow> content_user_visible d = Some d"
proof (cases c)
  case (ToolResponse res)
  then show "content_user_visible c = Some d \<Longrightarrow> ?thesis"
    by (cases "tr_tool_result res") auto
qed (auto split: if_splits)

text \<open>Two neighbouring text blocks with the same audience would have been joined.\<close>

definition text_block :: "message_content \<Rightarrow> text_content option" where
  "text_block c = (case c of Text t \<Rightarrow> Some t | _ \<Rightarrow> None)"

lemma text_block_Some_iff [simp]: "text_block c = Some t \<longleftrightarrow> c = Text t"
  by (cases c) (simp_all add: text_block_def)

definition joinable :: "message_content \<Rightarrow> message_content \<Rightarrow> bool" where
  "joinable a b \<longleftrightarrow>
     (\<exists>l n. text_block a = Some l \<and> text_block b = Some n \<and>
        audience_of (tc_annotations l) = audience_of (tc_annotations n))"

lemma joinableE:
  assumes "joinable a b"
  obtains l n where "a = Text l" "b = Text n"
    "audience_of (tc_annotations l) = audience_of (tc_annotations n)"
  using assms by (auto simp: joinable_def)

definition joined :: "message_content list \<Rightarrow> bool" where
  "joined cs \<longleftrightarrow> successively (\<lambda>a b. \<not> joinable a b) cs"

lemma joined_snoc: "joined (cs @ [c]) \<longleftrightarrow> joined cs \<and> (cs = [] \<or> \<not> joinable (last cs) c)"
  by (auto simp: joined_def successively_append_iff)

definition append_text :: "message_content \<Rightarrow> message_content \<Rightarrow> message_content" where
  "append_text a b =
     (case text_block a of
        Some l \<Rightarrow> Text (l\<lparr>tc_text := tc_text l @ concat (filter_map as_text [b])\<rparr>)
      | None \<Rightarrow> a)"

lemma append_text_Text [simp]:
  "append_text (Text l) (Text n) = Text (l\<lparr>tc_text := tc_text l @ tc_text n\<rparr>)"
  by (simp add: append_text_def text_block_def)

lemma push_user_visible_snoc:
  "push_user_visible (acc @ [l]) c =
     (if joinable l c then acc @ [append_text l c] else acc @ [l, c])"
proof (cases "joinable l c")
  case True
  then show ?thesis by (rule joinableE) (simp add: push_user_visible_def joinable_def)
next
  case False
  then show ?thesis
    by (auto simp: push_user_visible_def joinable_def split: message_content.split)
qed

lemma push_user_visible_Nil: "push_user_visible [] c = [c]"
  by (simp add: push_user_visible_def)

lemma joinable_append_text: "joinable l c \<Longrightarrow> joinable k (append_text l c) = joinable k l"
  by (erule joinableE) (auto simp: joinable_def)

lemma push_user_visible_joined: "joined acc \<Longrightarrow> joined (push_user_visible acc c)"
proof (cases acc rule: rev_cases)
  case Nil
  then show ?thesis by (simp add: push_user_visible_Nil joined_def)
next
  case (snoc ns l)
  assume "joined acc"
  with snoc joinable_append_text [of l c] show ?thesis
    using joined_snoc [of "ns @ [l]" c]
    by (cases "joinable l c") (simp_all add: push_user_visible_snoc joined_snoc)
qed

lemma foldl_push_joined: "joined acc \<Longrightarrow> joined (foldl push_user_visible acc cs)"
  by (induction cs arbitrary: acc) (simp_all add: push_user_visible_joined)

lemma foldl_push_id: "joined (acc @ cs) \<Longrightarrow> foldl push_user_visible acc cs = acc @ cs"
proof (induction cs arbitrary: acc)
  case Nil
  then show ?case by simp
next
  case (Cons c cs)
  then have "joined (acc @ [c])"
    by (simp add: joined_def successively_append_iff)
  then have "push_user_visible acc c = acc @ [c]"
  proof (cases acc rule: rev_cases)
    case Nil
    then show ?thesis by (simp add: push_user_visible_Nil)
  next
    case (snoc ns l)
    with \<open>joined (acc @ [c])\<close> have "\<not> joinable l c"
      using joined_snoc [of "ns @ [l]" c] by simp
    with snoc show ?thesis by (simp add: push_user_visible_snoc)
  qed
  with Cons show ?case by simp
qed

lemma append_text_visible:
  "joinable l c \<Longrightarrow> content_user_visible l = Some l \<Longrightarrow>
     content_user_visible (append_text l c) = Some (append_text l c)"
  by (erule joinableE) (auto split: if_splits)

lemma push_user_visible_visible:
  assumes "\<forall>x \<in> set acc. content_user_visible x = Some x" and "content_user_visible c = Some c"
  shows "\<forall>x \<in> set (push_user_visible acc c). content_user_visible x = Some x"
proof (cases acc rule: rev_cases)
  case Nil
  with assms show ?thesis by (simp add: push_user_visible_Nil)
next
  case (snoc ns l)
  with assms append_text_visible [of l c] show ?thesis by (auto simp: push_user_visible_snoc)
qed

lemma foldl_push_visible:
  "\<forall>x \<in> set acc. content_user_visible x = Some x \<Longrightarrow>
   \<forall>x \<in> set cs. content_user_visible x = Some x \<Longrightarrow>
   \<forall>x \<in> set (foldl push_user_visible acc cs). content_user_visible x = Some x"
proof (induction cs arbitrary: acc)
  case Nil
  then show ?case by simp
next
  case (Cons c cs)
  have "\<forall>x \<in> set (push_user_visible acc c). content_user_visible x = Some x"
    using Cons.prems by (intro push_user_visible_visible) simp_all
  with Cons show ?case by simp
qed

text \<open>
  Projecting a message for the agent or for the user twice is the same as projecting it
  once, and the user's view has no two neighbouring text blocks of equal audience.
\<close>

theorem projections_idempotent:
  "agent_visible_content (agent_visible_content m) = agent_visible_content m \<and>
   user_visible_content (user_visible_content m) = user_visible_content m \<and>
   joined (msg_content (user_visible_content m))"
proof -
  let ?vis = "filter_map content_user_visible (msg_content m)"
  let ?out = "foldl push_user_visible [] ?vis"
  have "filter_map (filter_for_audience Assistant)
      (filter_map (filter_for_audience Assistant) (msg_content m)) =
      filter_map (filter_for_audience Assistant) (msg_content m)"
    by (rule filter_map_fixed) (blast dest: filter_map_image intro: filter_for_audience_fixed)
  moreover have "\<forall>x \<in> set ?vis. content_user_visible x = Some x"
    by (blast dest: filter_map_image intro: content_user_visible_fixed)
  then have "\<forall>x \<in> set ?out. content_user_visible x = Some x"
    by (intro foldl_push_visible) simp_all
  then have "filter_map content_user_visible ?out = ?out"
    by (intro filter_map_fixed) blast
  moreover have "joined ?out" by (rule foldl_push_joined) (simp add: joined_def)
  moreover from this have "foldl push_user_visible [] ?out = ?out"
    using foldl_push_id [of "[]" ?out] by simp
  ultimately show ?thesis by (simp add: agent_visible_content_def user_visible_content_def)
qed

subsection \<open>Notes\<close>

text \<open>
  An operation's note is read back under its own operation and key, and writing it
  changes no other note.
\<close>

theorem operation_note_set:
  "operation_note (set_operation_note oper k v md) oper' k' =
     (if oper' = oper \<and> k' = k then Some v else operation_note md oper' k')"
  by (cases "operations md"; cases "map_of (unwrap_or (operations md) []) oper")
    (auto simp: operation_note_def set_operation_note_def Let_def)

subsection \<open>Tool names\<close>

text \<open>
  A request whose metadata names the extension of its prefixed tool name is split into
  that extension and the bare tool name, also when either contains the separator.
\<close>

theorem tq_name_parts_owner:
  assumes "tq_tool_call r = Inr call" and "ct_name call = ext @ ''__'' @ tool"
    and "meta_get r ''aibuddy_extension'' = Some (JStr ext)"
  shows "tq_name_parts r = Some \<lparr>tn_extension_name = Some ext, tn_tool_name = tool\<rparr>"
  using assms by (simp add: tq_name_parts_def)

theorem tq_name_parts_owner_witness:
  "tq_name_parts
     \<lparr>tq_id = ''r'', tq_tool_call = Inr \<lparr>ct_name = ''my__ext__run'', ct_arguments = None\<rparr>,
      tq_metadata = None, tq_tool_meta = Some (JObj [(''aibuddy_extension'', JStr ''my__ext'')])\<rparr> =
   Some \<lparr>tn_extension_name = Some ''my__ext'', tn_tool_name = ''run''\<rparr>"
  by (rule tq_name_parts_owner
      [of _ "\<lparr>ct_name = ''my__ext__run'', ct_arguments = None\<rparr>" "''my__ext''" "''run''"])
    (simp_all add: meta_get_def)

end
