(* ===== verification/Agent_World.thy ===== *)
theory Agent_World
  imports Conversation
begin

text \<open>
  What an agent step acts on: the events sent to the client, the supply of uuids and the
  cancellation token (\<open>crates/aibuddy-agent/src/events.rs\<close> and the \<open>Emitter\<close> of
  \<open>operation.rs\<close>).  A step is a function from a world to its value and the world after it.
  The token fires at some tick of a clock that advances each time the token is looked at, so
  it can fire between any two looks; the world is extensible, for the state of providers
  and of the session store.
\<close>

datatype agent_event =
    EvMessage message
  | EvUsage provider_usage
  | EvMessageUsage (ev_message_id: "string option") (ev_usage: message_usage)
  | EvNotification (ev_request: string) (ev_notification: json)
  | EvHistoryReplaced conversation

record world =
  w_events :: "agent_event list"
  w_uuids :: "nat \<Rightarrow> string"
  w_next_uuid :: nat
  w_tick :: nat
  w_cancel_at :: "nat option"

type_synonym ('a, 'x) act = "'x world_scheme \<Rightarrow> 'a \<times> 'x world_scheme"

definition try_bind :: "('a result, 'x) act \<Rightarrow> ('a \<Rightarrow> ('b result, 'x) act) \<Rightarrow> ('b result, 'x) act"
where
  "try_bind m f w = (case m w of (Inl e, w') \<Rightarrow> (Inl e, w') | (Inr a, w') \<Rightarrow> f a w')"

lemma try_bind_simps [simp]:
  "m w = (Inl e, w') \<Longrightarrow> try_bind m f w = (Inl e, w')"
  "m w = (Inr a, w') \<Longrightarrow> try_bind m f w = f a w'"
  by (simp_all add: try_bind_def)

subsection \<open>The cancellation token\<close>

definition token_fired :: "'x world_scheme \<Rightarrow> bool" where
  "token_fired w \<longleftrightarrow> (case w_cancel_at w of None \<Rightarrow> False | Some n \<Rightarrow> n \<le> w_tick w)"

definition is_cancelled :: "(bool, 'x) act" where
  "is_cancelled w = (token_fired w, w\<lparr>w_tick := Suc (w_tick w)\<rparr>)"

text \<open>
  \<open>tokio::select! { biased; _ = cancelled => .., r = f => .. }\<close>: the token first; the
  raced call returns \<open>None\<close> when it is dropped because the token fired while it waited.
\<close>

definition race :: "('a option, 'x) act \<Rightarrow> ('a option, 'x) act" where
  "race f w = (let (c, w1) = is_cancelled w in if c then (None, w1) else f w1)"

subsection \<open>The emitter\<close>

definition emit :: "agent_event \<Rightarrow> 'x world_scheme \<Rightarrow> 'x world_scheme" where
  "emit ev w = w\<lparr>w_events := w_events w @ [ev]\<rparr>"

definition fresh_uuid :: "(string, 'x) act" where
  "fresh_uuid w = (w_uuids w (w_next_uuid w), w\<lparr>w_next_uuid := Suc (w_next_uuid w)\<rparr>)"

definition emit_message :: "message \<Rightarrow> (message, 'x) act" where
  "emit_message m w =
     (if msg_id m \<noteq> None then (m, emit (EvMessage m) w)
      else (let (u, w1) = fresh_uuid w; m' = with_generated_id_if_missing u m
            in (m', emit (EvMessage m') w1)))"

subsection \<open>Well-behaved steps\<close>

text \<open>
  \<open>advances w w'\<close>: the world only moves forward from \<open>w\<close> to \<open>w'\<close>: events are only added,
  uuids are not reused, the token does not change and its clock does not run back.
\<close>

definition advances :: "'x world_scheme \<Rightarrow> 'y world_scheme \<Rightarrow> bool" where
  "advances w w' \<longleftrightarrow>
     (\<exists>evs. w_events w' = w_events w @ evs) \<and> w_uuids w' = w_uuids w \<and>
     w_next_uuid w \<le> w_next_uuid w' \<and> w_tick w \<le> w_tick w' \<and> w_cancel_at w' = w_cancel_at w"

lemma advances_refl [simp, intro]: "advances w w"
  by (simp add: advances_def)

lemma advances_trans [trans]: "advances w1 w2 \<Longrightarrow> advances w2 w3 \<Longrightarrow> advances w1 w3"
  by (auto simp: advances_def)

lemma advances_token: "advances w w' \<Longrightarrow> token_fired w \<Longrightarrow> token_fired w'"
  by (auto simp: advances_def token_fired_def split: option.splits)

lemma advances_more: "advances w (w'\<lparr>w_tick := n\<rparr>) \<longleftrightarrow>
    (\<exists>evs. w_events w' = w_events w @ evs) \<and> w_uuids w' = w_uuids w \<and>
    w_next_uuid w \<le> w_next_uuid w' \<and> w_tick w \<le> n \<and> w_cancel_at w' = w_cancel_at w"
  by (simp add: advances_def)

lemma advances_is_cancelled [simp]: "advances w (snd (is_cancelled w))"
  by (simp add: is_cancelled_def advances_def)

lemma is_cancelled_fst [simp]: "fst (is_cancelled w) = token_fired w"
  by (simp add: is_cancelled_def)

lemma token_fired_after_look [simp]: "token_fired w \<Longrightarrow> token_fired (snd (is_cancelled w))"
  by (rule advances_token [OF advances_is_cancelled])

lemma advances_emit [simp]: "advances w (emit ev w)"
  by (simp add: emit_def advances_def)

lemma advances_fresh_uuid [simp]: "advances w (snd (fresh_uuid w))"
  by (simp add: fresh_uuid_def advances_def)

lemma advances_emit_message [simp]: "advances w (snd (emit_message m w))"
  by (simp add: emit_message_def fresh_uuid_def emit_def advances_def Let_def)

lemma emit_message_id: "msg_id (fst (emit_message m w)) \<noteq> None"
  by (auto simp: emit_message_def fresh_uuid_def with_generated_id_if_missing_def
      with_generated_id_def with_id_def Let_def)

lemma emit_message_fields [simp]:
  "msg_content (fst (emit_message m w)) = msg_content m"
  "msg_role (fst (emit_message m w)) = msg_role m"
  "msg_metadata (fst (emit_message m w)) = msg_metadata m"
  by (simp_all add: emit_message_def fresh_uuid_def with_generated_id_if_missing_def
      with_generated_id_def with_id_def Let_def)

lemma emit_message_event: "EvMessage (fst (emit_message m w)) \<in> set (w_events (snd (emit_message m w)))"
  by (simp add: emit_message_def fresh_uuid_def emit_def Let_def)

lemma race_fired: "token_fired w \<Longrightarrow> race f w = (None, snd (is_cancelled w))"
  by (simp add: race_def is_cancelled_def)

lemma race_not_fired: "\<not> token_fired w \<Longrightarrow> race f w = f (snd (is_cancelled w))"
  by (simp add: race_def is_cancelled_def)

lemma advances_race:
  assumes "\<And>v. advances v (snd (f v))"
  shows "advances w (snd (race f w))"
proof (cases "token_fired w")
  case True
  then show ?thesis by (simp add: race_fired)
next
  case False
  then show ?thesis
    using advances_trans [OF advances_is_cancelled assms] by (simp add: race_not_fired)
qed

lemma advances_try_bind:
  assumes "advances w (snd (m w))" and "\<And>a v. advances w v \<Longrightarrow> advances v (snd (f a v))"
  shows "advances w (snd (try_bind m f w))"
  using assms by (cases "m w") (auto simp: try_bind_def intro: advances_trans split: sum.splits)

end
