(* ===== verification/Operation.thy ===== *)
theory Operation
  imports Agent_World
begin

text \<open>
  \<open>crates/aibuddy-agent/src/operation.rs\<close>: what the operations of the agent loop share, the
  queries on a conversation, the result of a step and the effects it asks for.  The trait
  \<open>Operation\<close> is a record of its methods, each of them a function on the world.
\<close>

subsection \<open>Queries on a conversation\<close>

definition is_kickoff :: "message \<Rightarrow> bool" where
  "is_kickoff m \<longleftrightarrow> msg_role m = User \<and> is_user_visible m \<and> \<not> is_tool_response m"

definition messages_since_kickoff :: "conversation \<Rightarrow> message list result" where
  "messages_since_kickoff c =
     (case suffix_from_last is_kickoff c of
        Some ms \<Rightarrow> Inr ms
      | None \<Rightarrow> Inl ''state machine conversation has no kickoff message'')"

definition trailing_error :: "conversation \<Rightarrow> message_error_kind option" where
  "trailing_error c = Option.bind (last_opt c) error_kind"

definition last_effective_role :: "message list \<Rightarrow> effective_role result" where
  "last_effective_role ms =
     (case last_opt ms of
        Some m \<Rightarrow> Inr (effective_role m)
      | None \<Rightarrow> Inl ''cannot determine the role of an empty conversation'')"

text \<open>The loop over the messages from the last to the first; \<open>u32\<close> counts wrap.\<close>

fun count_turns :: "u32 \<Rightarrow> bool \<Rightarrow> message list \<Rightarrow> u32" where
  "count_turns turns in_block [] = turns"
| "count_turns turns in_block (m # ms) =
     (if msg_role m = Assistant
      then (if \<not> in_block then count_turns (turns + 1) True ms else count_turns turns in_block ms)
      else count_turns turns False ms)"

definition assistant_turn_count :: "message list \<Rightarrow> u32" where
  "assistant_turn_count ms = count_turns 0 False (rev ms)"

fun is_pending_block :: "message_content \<Rightarrow> bool" where
  "is_pending_block (ToolRequest _) = True"
| "is_pending_block (ActionRequired _) = True"
| "is_pending_block _ = False"

definition ends_turn :: "message list \<Rightarrow> bool" where
  "ends_turn ms \<longleftrightarrow> is_some_and (last_opt ms) (\<lambda>l.
     msg_role l = Assistant \<and> error_kind l = None \<and> \<not> list_ex is_pending_block (msg_content l))"

subsection \<open>Results of a step\<close>

record 'e step_result =
  sr_effects :: "'e list"
  sr_applied_step :: "string option"
  sr_yield :: bool

datatype 'e operation_result = NotApplicable | Applied "'e step_result"

definition not_applicable :: "'e operation_result result" where
  "not_applicable = Inr NotApplicable"

definition applied :: "'e list \<Rightarrow> 'e operation_result result" where
  "applied effs = Inr (Applied \<lparr>sr_effects = effs, sr_applied_step = None, sr_yield = False\<rparr>)"

definition yielded :: "'e operation_result result" where
  "yielded = Inr (Applied \<lparr>sr_effects = [], sr_applied_step = None, sr_yield = True\<rparr>)"

definition yielded_with :: "'e list \<Rightarrow> 'e operation_result result" where
  "yielded_with effs = Inr (Applied \<lparr>sr_effects = effs, sr_applied_step = None, sr_yield = True\<rparr>)"

subsection \<open>Effects\<close>

datatype conversation_effect =
    AppendMessage message
  | ReplaceConversation conversation
  | PatchToolRequestMeta (ptm_id: string) (ptm_patch: json)
  | SetMessageVisibility (smv_id: string) (smv_user: bool) (smv_agent: bool)

fun ensure_ids :: "message list \<Rightarrow> (message list, 'x) act" where
  "ensure_ids [] w = ([], w)"
| "ensure_ids (m # ms) w =
     (let (m', w1) = (if msg_id m = None
                      then (let (u, w') = fresh_uuid w in (with_id (''msg_'' @ u) m, w'))
                      else (m, w));
          (ms', w2) = ensure_ids ms w1
      in (m' # ms', w2))"

fun ensure_message_ids :: "conversation_effect \<Rightarrow> (conversation_effect, 'x) act" where
  "ensure_message_ids (AppendMessage m) w =
     (let (ms, w1) = ensure_ids [m] w in (AppendMessage (hd ms), w1))"
| "ensure_message_ids (ReplaceConversation c) w =
     (let (ms, w1) = ensure_ids c w in (ReplaceConversation ms, w1))"
| "ensure_message_ids eff w = (eff, w)"

fun effect_messages :: "conversation_effect \<Rightarrow> message list" where
  "effect_messages (AppendMessage m) = [m]"
| "effect_messages (ReplaceConversation c) = c"
| "effect_messages _ = []"

subsection \<open>The operation interface\<close>

record tool =
  tl_name :: string
  tl_title :: "string option"
  tl_description :: "string option"
  tl_input_schema :: json_object
  tl_output_schema :: "json_object option"
  tl_annotations :: "json option"
  tl_icons :: "json list option"
  tl_meta :: "json_object option"

record inference_input =
  ii_tools :: "tool list"
  ii_prompt_parts :: "(string \<times> string) list"
  ii_moim_parts :: "string list"

definition inference_input_default :: inference_input where
  "inference_input_default = \<lparr>ii_tools = [], ii_prompt_parts = [], ii_moim_parts = []\<rparr>"

record slash_command =
  sc_command :: string
  sc_params_str :: string

text \<open>\<open>inference_tools\<close> is raced with the token by its caller, so it may be dropped (\<open>None\<close>).\<close>

record ('s, 'e, 'x) operation =
  op_name :: string
  op_run :: "'s \<Rightarrow> conversation \<Rightarrow> ('e operation_result result, 'x) act"
  op_cancel :: "'s \<Rightarrow> conversation \<Rightarrow> 'e operation_result \<Rightarrow> ('e operation_result result, 'x) act"
  op_command :: "slash_command \<Rightarrow> 's \<Rightarrow> conversation \<Rightarrow> ('e operation_result result, 'x) act"
  op_tools :: "'s \<Rightarrow> (tool list result option, 'x) act"
  op_prompt_parts :: "'s \<Rightarrow> conversation \<Rightarrow> ((string \<times> string) list result, 'x) act"
  op_moim_parts :: "'s \<Rightarrow> conversation \<Rightarrow> (string list result, 'x) act"

text \<open>The trait's default methods.\<close>

definition operation_default :: "string \<Rightarrow> ('s, 'e, 'x) operation" where
  "operation_default name =
     \<lparr>op_name = name, op_run = (\<lambda>s c w. (not_applicable, w)),
      op_cancel = (\<lambda>s c r w. (Inr r, w)),
      op_command = (\<lambda>cmd s c w. (not_applicable, w)), op_tools = (\<lambda>s w. (Some (Inr []), w)),
      op_prompt_parts = (\<lambda>s c w. (Inr [], w)), op_moim_parts = (\<lambda>s c w. (Inr [], w))\<rparr>"

definition set_message_meta :: "string \<Rightarrow> string \<Rightarrow> json \<Rightarrow> message \<Rightarrow> message" where
  "set_message_meta oper k v m = m\<lparr>msg_metadata := set_operation_note oper k v (msg_metadata m)\<rparr>"

definition message_meta :: "string \<Rightarrow> message \<Rightarrow> string \<Rightarrow> json option" where
  "message_meta oper m k = operation_note (msg_metadata m) oper k"

subsection \<open>Lemmas\<close>

lemma messages_since_kickoff_InrD:
  assumes "messages_since_kickoff c = Inr turn"
  obtains pre k rest where "c = pre @ turn" "turn = k # rest" "is_kickoff k"
    "\<forall>m \<in> set rest. \<not> is_kickoff m"
  using assms suffix_from_last_SomeD [of is_kickoff c turn]
  by (auto simp: messages_since_kickoff_def split: option.splits)

lemma messages_since_kickoff_app:
  assumes "messages_since_kickoff c = Inr turn" and "\<forall>m \<in> set ms. \<not> is_kickoff m"
  shows "messages_since_kickoff (c @ ms) = Inr (turn @ ms)"
proof -
  from assms(1) obtain pre k rest where c: "c = pre @ k # rest" and t: "turn = k # rest"
    and k: "is_kickoff k" and r: "\<forall>m \<in> set rest. \<not> is_kickoff m"
    by (blast elim: messages_since_kickoff_InrD)
  have "suffix_from_last is_kickoff (pre @ k # (rest @ ms)) = Some (k # (rest @ ms))"
    using k r assms(2) by (intro suffix_from_last_split) auto
  then show ?thesis by (simp add: messages_since_kickoff_def c t)
qed

lemma ensure_ids_ids: "\<forall>m \<in> set (fst (ensure_ids ms w)). msg_id m \<noteq> None"
  by (induction ms arbitrary: w)
    (auto simp: Let_def case_prod_beta with_id_def split: if_splits)

lemma ensure_ids_noop: "\<forall>m \<in> set ms. msg_id m \<noteq> None \<Longrightarrow> ensure_ids ms w = (ms, w)"
  by (induction ms arbitrary: w) auto

lemma advances_ensure_ids [simp]: "advances w (snd (ensure_ids ms w))"
proof (induction ms arbitrary: w)
  case Nil
  then show ?case by simp
next
  case (Cons m ms)
  then show ?case
    using advances_trans [OF advances_fresh_uuid Cons.IH] by (simp add: Let_def case_prod_beta)
qed

lemma length_ensure_ids [simp]: "length (fst (ensure_ids ms w)) = length ms"
  by (induction ms arbitrary: w) (simp_all add: Let_def case_prod_beta)

lemma ensure_message_ids_ids:
  "\<forall>m \<in> set (effect_messages (fst (ensure_message_ids eff w))). msg_id m \<noteq> None"
proof (cases eff)
  case (AppendMessage m)
  have "fst (ensure_ids [m] w) \<noteq> []" using length_ensure_ids [of "[m]" w] by (metis length_0_conv list.distinct(1))
  then have "hd (fst (ensure_ids [m] w)) \<in> set (fst (ensure_ids [m] w))" by simp
  with AppendMessage ensure_ids_ids [of "[m]" w] show ?thesis
    by (simp add: case_prod_beta Let_def del: ensure_ids.simps)
qed (auto simp: ensure_ids_ids case_prod_beta Let_def)

lemma advances_ensure_message_ids [simp]: "advances w (snd (ensure_message_ids eff w))"
  by (cases eff) (simp_all add: case_prod_beta Let_def del: ensure_ids.simps)

end
