(* ===== verification/Inference.thy ===== *)
theory Inference
  imports Operation
begin

text \<open>
  \<open>crates/aibuddy-agent/src/inference.rs\<close>: the operation that sends the conversation to the
  provider and folds the streamed chunks into messages.  The provider and the request
  preparer are parameters; the model configuration a provider is called with is bound in
  its \<open>pv_stream\<close>.  A stream is the list of items it will deliver: dropping the wait for the
  next item has no effect of its own, so the token is looked at before each item.
  Tracing spans are left out.
\<close>

subsection \<open>Parameters\<close>

record prepared_request =
  pq_system_prompt :: string
  pq_tools :: "tool list"
  pq_additional_messages :: "message list"

type_synonym stream_item = "provider_error + (message option \<times> provider_usage option)"

record 'x provider =
  pv_name :: string
  pv_stream :: "string \<Rightarrow> message list \<Rightarrow> tool list \<Rightarrow> (provider_error + stream_item list, 'x) act"
  pv_resume :: "string \<Rightarrow> (unit result, 'x) act"
  pv_resolved_model :: "string \<Rightarrow> (string option, 'x) act"
  pv_session_id :: "(string option, 'x) act"

record ('s, 'x) inference_runner =
  ir_provider :: "'x provider"
  ir_model_name :: string
  ir_prepare :: "'s \<Rightarrow> conversation \<Rightarrow> inference_input \<Rightarrow> (prepared_request result, 'x) act"

record 'e inference_effect =
  ie_message :: "message \<Rightarrow> 'e"
  ie_usage :: "provider_usage \<Rightarrow> 'e"

definition identity_prepare ::
  "'s \<Rightarrow> conversation \<Rightarrow> inference_input \<Rightarrow> (prepared_request result, 'x) act" where
  "identity_prepare s c input w =
     (Inr \<lparr>pq_system_prompt = join (newline @ newline) (map snd (ii_prompt_parts input)),
           pq_tools = ii_tools input, pq_additional_messages = []\<rparr>, w)"

definition EMPTY_RESPONSE_MESSAGE :: string where
  "EMPTY_RESPONSE_MESSAGE =
     ''The model returned an empty response. Please resend your message to continue.''"

definition CANCELLED_TOOL_RESPONSE :: string where
  "CANCELLED_TOOL_RESPONSE = ''Tool call was cancelled before execution''"

subsection \<open>Thinking blocks of a tool call\<close>

fun is_thinking :: "message_content \<Rightarrow> bool" where
  "is_thinking (Thinking _) = True"
| "is_thinking (RedactedThinking _) = True"
| "is_thinking _ = False"

definition gives_thinking :: "message \<Rightarrow> message \<Rightarrow> bool" where
  "gives_thinking chunk m \<longleftrightarrow> \<not> (msg_role m \<noteq> msg_role chunk \<or> is_tool_call m)"

definition strip_thinking :: "message \<Rightarrow> message \<Rightarrow> message" where
  "strip_thinking chunk m =
     (if gives_thinking chunk m
      then m\<lparr>msg_content := filter (\<lambda>c. \<not> is_thinking c) (msg_content m)\<rparr> else m)"

definition insert_before_first :: "('a \<Rightarrow> bool) \<Rightarrow> 'a list \<Rightarrow> 'a list \<Rightarrow> 'a list" where
  "insert_before_first p ys xs = takeWhile (\<lambda>x. \<not> p x) xs @ ys @ dropWhile (\<lambda>x. \<not> p x) xs"

definition normalize_tool_call_thinking :: "conversation \<Rightarrow> message \<Rightarrow> conversation \<times> message" where
  "normalize_tool_call_thinking acc chunk =
     (if \<not> is_tool_call chunk then (acc, chunk)
      else
        (let has_direct = list_ex is_thinking (msg_content chunk);
             prior = concat (map (\<lambda>m. filter is_thinking (msg_content m))
                       (filter (gives_thinking chunk) acc));
             acc' = filter (\<lambda>m. msg_content m \<noteq> []) (map (strip_thinking chunk) acc)
         in (acc',
             if \<not> has_direct \<and> prior \<noteq> []
             then chunk\<lparr>msg_content :=
                    insert_before_first is_tool_request_block prior (msg_content chunk)\<rparr>
             else chunk)))"

subsection \<open>The request\<close>

definition all_answered_ids :: "message list \<Rightarrow> string set" where
  "all_answered_ids ms = \<Union> (set (map get_tool_response_ids ms))"

definition retain_answered :: "string set \<Rightarrow> message \<Rightarrow> message" where
  "retain_answered answered m =
     m\<lparr>msg_content := filter (\<lambda>c. case c of ToolRequest r \<Rightarrow> tq_id r \<in> answered | _ \<Rightarrow> True)
                         (msg_content m)\<rparr>"

definition project_earlier :: "string set \<Rightarrow> nat \<Rightarrow> nat \<times> message \<Rightarrow> message" where
  "project_earlier answered start im =
     (let m = agent_visible_content (snd im)
      in if fst im < start then retain_answered answered m else m)"

definition messages_for_provider :: "conversation \<Rightarrow> message list \<Rightarrow> message list" where
  "messages_for_provider c turn =
     (let answered = all_answered_ids c; start = length c - length turn
      in filter (\<lambda>m. msg_content m \<noteq> [])
           (map (project_earlier answered start)
             (filter (\<lambda>im. is_agent_visible (snd im)) (List.enumerate 0 c))))"

definition latest_provider_session_id :: "conversation \<Rightarrow> string \<Rightarrow> string option" where
  "latest_provider_session_id c provider =
     (case find_map (\<lambda>m. inference (msg_metadata m)) (rev c) of
        None \<Rightarrow> None
      | Some i \<Rightarrow> if im_provider i = provider then im_provider_session_id i else None)"

definition ends_with_provider_turn :: "message list \<Rightarrow> bool" where
  "ends_with_provider_turn ms \<longleftrightarrow>
     is_some_and (last_opt ms) (\<lambda>m. effective_role m = ERUser \<or> effective_role m = ERTool)"

definition request_messages :: "ext_env \<Rightarrow> message list \<Rightarrow> message list" where
  "request_messages E ms =
     merge_consecutive_messages_for_request (fst (fix_conversation E (agent_visible_messages ms)))"

subsection \<open>Cancelled requests\<close>

fun cancel_requests ::
  "ext_env \<Rightarrow> string set \<Rightarrow> string set \<Rightarrow> tool_request list \<Rightarrow> message \<Rightarrow> message" where
  "cancel_requests E seen answered [] m = m"
| "cancel_requests E seen answered (r # rs) m =
     (if tq_id r \<in> seen then cancel_requests E seen answered rs m
      else if tq_id r \<in> answered
      then cancel_requests E (insert (tq_id r) seen) (answered - {tq_id r}) rs m
      else cancel_requests E (insert (tq_id r) seen) answered rs
             (add_tool_response_with_metadata E (tq_id r)
               (Inr (call_result_error [content_text CANCELLED_TOOL_RESPONSE])) (tq_metadata r) m))"

definition all_requests :: "message list \<Rightarrow> tool_request list" where
  "all_requests ms = filter_map as_tool_request (concat (map msg_content ms))"

definition cancellation_response :: "ext_env \<Rightarrow> message list \<Rightarrow> message list \<Rightarrow> message option" where
  "cancellation_response E persisted pending =
     (let response = cancel_requests E {} (all_answered_ids (persisted @ pending))
            (all_requests (persisted @ pending)) (message_user E)
      in if get_tool_response_ids response \<noteq> {} then Some response else None)"

subsection \<open>The operation\<close>

definition inference_applies :: "conversation \<Rightarrow> bool" where
  "inference_applies c \<longleftrightarrow>
     (case messages_since_kickoff c of
        Inl _ \<Rightarrow> False
      | Inr turn \<Rightarrow> trailing_error c = None
          \<and> ends_with_provider_turn (messages_for_provider c turn))"

definition inference_cancel ::
  "ext_env \<Rightarrow> 'e inference_effect \<Rightarrow> 's \<Rightarrow> conversation \<Rightarrow> 'e operation_result \<Rightarrow>
   ('e operation_result result, 'x) act" where
  "inference_cancel E F s c result w =
     (case result of
        Applied _ \<Rightarrow> (Inr result, w)
      | NotApplicable \<Rightarrow>
          (case messages_since_kickoff c of
             Inl e \<Rightarrow> (Inl e, w)
           | Inr turn \<Rightarrow>
               (case cancellation_response E turn [] of
                  None \<Rightarrow> (Inr NotApplicable, w)
                | Some response \<Rightarrow>
                    (let (response', w1) = emit_message response w
                     in (applied [ie_message F response'], w1)))))"

definition error_outcome ::
  "ext_env \<Rightarrow> 'e inference_effect \<Rightarrow> provider_error \<Rightarrow> ('e list, 'x) act" where
  "error_outcome E F err w =
     (let (m, w1) = emit_message (from_provider_error E err) w in ([ie_message F m], w1))"

subsection \<open>The stream\<close>

record stream_state =
  ss_accumulator :: conversation
  ss_request_ids :: "string set"
  ss_usage :: "provider_usage option"

fun retain_new_requests ::
  "string set \<Rightarrow> message_content list \<Rightarrow> message_content list \<times> string set" where
  "retain_new_requests ids [] = ([], ids)"
| "retain_new_requests ids (c # cs) =
     (case c of
        ToolRequest r \<Rightarrow>
          if tq_id r \<in> ids then retain_new_requests ids cs
          else (let (k, ids') = retain_new_requests (insert (tq_id r) ids) cs in (c # k, ids'))
      | _ \<Rightarrow> (let (k, ids') = retain_new_requests ids cs in (c # k, ids')))"

definition absorb_chunk ::
  "inference_metadata \<Rightarrow> stream_state \<Rightarrow> message \<Rightarrow> (stream_state, 'x) act" where
  "absorb_chunk inf_md st chunk0 w =
     (let chunk1 = with_inference_if_assistant inf_md chunk0;
          (kept, ids) = retain_new_requests (ss_request_ids st) (msg_content chunk1);
          (acc, chunk) = normalize_tool_call_thinking (ss_accumulator st)
                           (chunk1\<lparr>msg_content := kept\<rparr>);
          st' = st\<lparr>ss_request_ids := ids\<rparr>
      in if msg_content chunk = [] then
           (if output_token_limit_reached (msg_metadata chunk)
            then (let (chunk', w1) = emit_message chunk w
                  in (st'\<lparr>ss_accumulator := conv_push acc chunk'\<rparr>, w1))
            else (st'\<lparr>ss_accumulator := conv_push acc chunk\<rparr>, w))
         else
           (let (chunk', w1) = emit_message chunk w
            in (st'\<lparr>ss_accumulator := conv_push acc chunk'\<rparr>, w1)))"

datatype stream_end = StreamDone | StreamCancelled | StreamError provider_error

definition absorb_usage :: "provider_usage option \<Rightarrow> stream_state \<Rightarrow> stream_state" where
  "absorb_usage u st = (case u of Some v \<Rightarrow> st\<lparr>ss_usage := Some v\<rparr> | None \<Rightarrow> st)"

fun stream_loop ::
  "inference_metadata \<Rightarrow> stream_item list \<Rightarrow> stream_state \<Rightarrow> (stream_end \<times> stream_state, 'x) act"
where
  "stream_loop inf_md items st w =
     (let (fired, w1) = is_cancelled w in
      if fired then ((StreamCancelled, st), w1)
      else
        (case items of
           [] \<Rightarrow> ((StreamDone, st), w1)
         | Inl err # _ \<Rightarrow> ((StreamError err, st), w1)
         | Inr (msg, u) # rest \<Rightarrow>
             (let st1 = absorb_usage u st in
              case msg of
                None \<Rightarrow> stream_loop inf_md rest st1 w1
              | Some chunk \<Rightarrow>
                  (let (st2, w2) = absorb_chunk inf_md st1 chunk w1
                   in stream_loop inf_md rest st2 w2))))"

declare stream_loop.simps [simp del]

definition usage_effects :: "'e inference_effect \<Rightarrow> stream_state \<Rightarrow> 'e list" where
  "usage_effects F st = (case ss_usage st of Some u \<Rightarrow> [ie_usage F u] | None \<Rightarrow> [])"

fun is_blank_block :: "message_content \<Rightarrow> bool" where
  "is_blank_block (Text t) \<longleftrightarrow> trim (tc_text t) = []"
| "is_blank_block (Thinking t) \<longleftrightarrow> trim (thinking t) = []"
| "is_blank_block _ \<longleftrightarrow> False"

definition is_empty_response :: "conversation \<Rightarrow> bool" where
  "is_empty_response acc \<longleftrightarrow>
     \<not> list_ex (\<lambda>m. output_token_limit_reached (msg_metadata m)) acc \<and>
     list_all (\<lambda>m. list_all is_blank_block (msg_content m)) acc"

text \<open>What follows the loop: the usage, the cancelled requests, the empty response.\<close>

definition finish_stream ::
  "ext_env \<Rightarrow> 'e inference_effect \<Rightarrow> message list \<Rightarrow> 'e list \<Rightarrow> stream_end \<Rightarrow> stream_state \<Rightarrow>
   ('e operation_result result, 'x) act" where
  "finish_stream E F turn effs ended st w =
     (case ended of
        StreamError err \<Rightarrow>
          (let (errs, w1) = error_outcome E F err w
           in (applied (effs @ usage_effects F st @ map (ie_message F) (ss_accumulator st) @ errs), w1))
      | _ \<Rightarrow>
          (let cancelled = (ended = StreamCancelled);
               effs' = effs @ usage_effects F st;
               (fired, w1) = (if cancelled then (True, w) else is_cancelled w);
               (acc, w2) =
                 (case (if fired then cancellation_response E turn (ss_accumulator st) else None) of
                    None \<Rightarrow> (ss_accumulator st, w1)
                  | Some response \<Rightarrow>
                      (let (response', w') = emit_message response w1
                       in (conv_push (ss_accumulator st) response', w')))
           in if \<not> cancelled \<and> is_empty_response acc then
                (let (m, w3) = emit_message (with_text E EMPTY_RESPONSE_MESSAGE (message_assistant E)) w2
                 in (yielded_with (effs' @ [ie_message F m]), w3))
              else (applied (effs' @ map (ie_message F) acc), w2)))"

definition infer ::
  "ext_env \<Rightarrow> 'e inference_effect \<Rightarrow> ('s, 'x) inference_runner \<Rightarrow> 's \<Rightarrow> conversation \<Rightarrow>
   inference_input \<Rightarrow> ('e operation_result result, 'x) act" where
  "infer E F R s c input w =
     (case messages_since_kickoff c of
        Inl e \<Rightarrow> (Inl e, w)
      | Inr turn \<Rightarrow>
          if trailing_error c \<noteq> None then (not_applicable, w)
          else if \<not> ends_with_provider_turn (messages_for_provider c turn) then (not_applicable, w)
          else
            try_bind (ir_prepare R s c input) (\<lambda>q w1.
              let P = ir_provider R;
                  effs = map (ie_message F) (pq_additional_messages q);
                  w2 = (case latest_provider_session_id c (pv_name P) of
                          Some sid \<Rightarrow> snd (pv_resume P sid w1)
                        | None \<Rightarrow> w1);
                  sent = request_messages E
                           (messages_for_provider c turn @ pq_additional_messages q)
              in case pv_stream P (pq_system_prompt q) sent (pq_tools q) w2 of
                   (Inl err, w3) \<Rightarrow>
                     (let (errs, w4) = error_outcome E F err w3 in (applied (effs @ errs), w4))
                 | (Inr items, w3) \<Rightarrow>
                     (let (resolved, w4) = pv_resolved_model P (ir_model_name R) w3;
                          (sid, w5) = pv_session_id P w4;
                          inf_md = \<lparr>im_provider = pv_name P, im_requested_model = ir_model_name R,
                                    im_resolved_model = resolved, im_provider_session_id = sid\<rparr>;
                          ((ended, st), w6) = stream_loop inf_md items
                            \<lparr>ss_accumulator = [], ss_request_ids = {}, ss_usage = None\<rparr> w5
                      in finish_stream E F turn effs ended st w6)) w)"

definition inference_step ::
  "ext_env \<Rightarrow> 'e inference_effect \<Rightarrow> ('s, 'x) inference_runner \<Rightarrow> ('s, 'e, 'x) operation" where
  "inference_step E F R = (operation_default ''llm'')\<lparr>op_cancel := inference_cancel E F\<rparr>"

end
