(* ===== verification/Tool_Operation.thy ===== *)
theory Tool_Operation
  imports Operation
begin

text \<open>
  \<open>crates/aibuddy-agent/src/tool.rs\<close>: the operation that advertises tools and answers the
  assistant's tool requests, from tools registered with it and from providers.  What a
  provider lists and what a tool call returns are parameters; a call raced with the token
  returns \<open>None\<close> when it is dropped.
\<close>

subsection \<open>Providers and registered tools\<close>

record ('s, 'x) tool_provider =
  tp_tools :: "'s \<Rightarrow> (tool list result option, 'x) act"
  tp_call :: "'s \<Rightarrow> string \<Rightarrow> call_tool_params \<Rightarrow> ((error_data + call_tool_result) option, 'x) act"

record ('s, 'x) registered_tool =
  rt_definition :: tool
  rt_handler :: "'s \<Rightarrow> json_object option \<Rightarrow> ((error_data + call_tool_result) option, 'x) act"

record ('s, 'x) tool_operation =
  to_registered :: "('s, 'x) registered_tool list"
  to_providers :: "('s, 'x) tool_provider list"

text \<open>The JSON-RPC code of \<open>ErrorData::invalid_params\<close>.\<close>

definition invalid_params :: "string \<Rightarrow> error_data" where
  "invalid_params msg = \<lparr>ed_code = - 32602, ed_message = msg, ed_data = None\<rparr>"

definition registered_tools ::
  "('s, 'x) registered_tool list \<Rightarrow> 's \<Rightarrow> (tool list result option, 'x) act" where
  "registered_tools regs s w = (Some (Inr (map rt_definition regs)), w)"

definition registered_call ::
  "('s, 'x) registered_tool list \<Rightarrow> 's \<Rightarrow> string \<Rightarrow> call_tool_params \<Rightarrow>
   ((error_data + call_tool_result) option, 'x) act" where
  "registered_call regs s rid call w =
     (case find (\<lambda>t. tl_name (rt_definition t) = ct_name call) regs of
        None \<Rightarrow> (Some (Inl (invalid_params (''unknown tool '' @ ct_name call))), w)
      | Some t \<Rightarrow> rt_handler t s (ct_arguments call) w)"

definition registered_provider :: "('s, 'x) registered_tool list \<Rightarrow> ('s, 'x) tool_provider" where
  "registered_provider regs = \<lparr>tp_tools = registered_tools regs, tp_call = registered_call regs\<rparr>"

definition tool_operation_new :: "('s, 'x) tool_operation" where
  "tool_operation_new = \<lparr>to_registered = [], to_providers = []\<rparr>"

text \<open>Registering replaces the first tool of that name in place, or appends.\<close>

fun replace_first :: "('a \<Rightarrow> bool) \<Rightarrow> 'a \<Rightarrow> 'a list \<Rightarrow> 'a list option" where
  "replace_first p y [] = None"
| "replace_first p y (x # xs) =
     (if p x then Some (y # xs) else map_option ((#) x) (replace_first p y xs))"

definition register_tool ::
  "('s, 'x) registered_tool \<Rightarrow> ('s, 'x) tool_operation \<Rightarrow> ('s, 'x) tool_operation" where
  "register_tool t oper =
     oper\<lparr>to_registered :=
        (case replace_first (\<lambda>e. tl_name (rt_definition e) = tl_name (rt_definition t)) t
                (to_registered oper) of
           Some regs \<Rightarrow> regs
         | None \<Rightarrow> to_registered oper @ [t])\<rparr>"

definition with_provider ::
  "('s, 'x) tool_provider \<Rightarrow> ('s, 'x) tool_operation \<Rightarrow> ('s, 'x) tool_operation" where
  "with_provider p oper = oper\<lparr>to_providers := to_providers oper @ [p]\<rparr>"

subsection \<open>The available tools\<close>

fun add_available ::
  "('s, 'x) tool_provider \<Rightarrow> tool list \<Rightarrow> (tool \<times> ('s, 'x) tool_provider) list \<Rightarrow>
   (tool \<times> ('s, 'x) tool_provider) list result" where
  "add_available p [] avail = Inr avail"
| "add_available p (t # ts) avail =
     (if list_ex (\<lambda>(a, _). tl_name a = tl_name t) avail
      then Inl (''multiple tool providers registered '' @ quoted (tl_name t))
      else add_available p ts (avail @ [(t, p)]))"

fun collect_available ::
  "'s \<Rightarrow> ('s, 'x) tool_provider list \<Rightarrow> (tool \<times> ('s, 'x) tool_provider) list \<Rightarrow>
   ((tool \<times> ('s, 'x) tool_provider) list result option, 'x) act" where
  "collect_available s [] avail w = (Some (Inr avail), w)"
| "collect_available s (p # ps) avail w =
     (case tp_tools p s w of
        (None, w1) \<Rightarrow> (None, w1)
      | (Some (Inl e), w1) \<Rightarrow> (Some (Inl e), w1)
      | (Some (Inr ts), w1) \<Rightarrow>
          (case add_available p ts avail of
             Inl e \<Rightarrow> (Some (Inl e), w1)
           | Inr avail' \<Rightarrow> collect_available s ps avail' w1))"

definition available_tools ::
  "('s, 'x) tool_operation \<Rightarrow> 's \<Rightarrow>
   ((tool \<times> ('s, 'x) tool_provider) list result option, 'x) act" where
  "available_tools oper s w =
     (let reg = registered_provider (to_registered oper) in
      case tp_tools reg s w of
        (None, w1) \<Rightarrow> (None, w1)
      | (Some (Inl e), w1) \<Rightarrow> (Some (Inl e), w1)
      | (Some (Inr ts), w1) \<Rightarrow>
          collect_available s (to_providers oper) (map (\<lambda>t. (t, reg)) ts) w1)"

subsection \<open>Answering the requests\<close>

definition interrupted_result :: "error_data + call_tool_result" where
  "interrupted_result =
     Inr (call_result_error [content_text ''Tool call was interrupted before completing''])"

definition turn_answered_ids :: "message list \<Rightarrow> string set" where
  "turn_answered_ids turn = \<Union> (set (map get_tool_response_ids turn))"

definition turn_requests :: "message list \<Rightarrow> tool_request list" where
  "turn_requests turn = filter_map as_tool_request (concat (map msg_content turn))"

definition unanswered_requests :: "message list \<Rightarrow> tool_request list" where
  "unanswered_requests turn =
     filter (\<lambda>r. \<not> was_executed_externally r \<and> tq_id r \<notin> turn_answered_ids turn)
       (turn_requests turn)"

definition pending_requests :: "string set \<Rightarrow> tool_request list \<Rightarrow> tool_request list" where
  "pending_requests names reqs =
     filter (\<lambda>r. case tq_tool_call r of Inl _ \<Rightarrow> True | Inr call \<Rightarrow> ct_name call \<in> names) reqs"

definition interrupt_all :: "ext_env \<Rightarrow> tool_request list \<Rightarrow> message" where
  "interrupt_all E reqs =
     foldl (\<lambda>m r. add_tool_response_with_metadata E (tq_id r) interrupted_result (tq_metadata r) m)
       (message_user E) reqs"

text \<open>
  One answer: interrupted if the token has fired before or during the call, else the request's
  own error or what the tool's provider returns.  The flag says that a call was interrupted.
  The provider is found for every request that reaches the lookup (\<open>pending_request_found\<close>),
  as the \<open>expect\<close> of the code states.
\<close>

definition answer_request ::
  "'s \<Rightarrow> (tool \<times> ('s, 'x) tool_provider) list \<Rightarrow> bool \<Rightarrow> tool_request \<Rightarrow>
   (bool \<times> (error_data + call_tool_result), 'x) act" where
  "answer_request s avail cancelled r w =
     (let (fired, w1) = (if cancelled then (True, w) else is_cancelled w) in
      if fired then ((True, interrupted_result), w1)
      else
        (case tq_tool_call r of
           Inl e \<Rightarrow> ((cancelled, Inl e), w1)
         | Inr call \<Rightarrow>
             (let p = snd (the (find (\<lambda>(t, _). tl_name t = ct_name call) avail)) in
              case race (tp_call p s (tq_id r) call) w1 of
                (None, w2) \<Rightarrow> ((True, interrupted_result), w2)
              | (Some res, w2) \<Rightarrow> ((cancelled, res), w2))))"

fun answer_requests ::
  "ext_env \<Rightarrow> 's \<Rightarrow> (tool \<times> ('s, 'x) tool_provider) list \<Rightarrow> bool \<Rightarrow> tool_request list \<Rightarrow>
   message \<Rightarrow> (message, 'x) act" where
  "answer_requests E s avail cancelled [] m w = (m, w)"
| "answer_requests E s avail cancelled (r # rs) m w =
     (let ((cancelled', res), w1) = answer_request s avail cancelled r w
      in answer_requests E s avail cancelled' rs
           (add_tool_response_with_metadata E (tq_id r) res (tq_metadata r) m) w1)"

definition tool_operation_run ::
  "ext_env \<Rightarrow> ('s, 'x) tool_operation \<Rightarrow> 's \<Rightarrow> conversation \<Rightarrow>
   (conversation_effect operation_result result, 'x) act" where
  "tool_operation_run E oper s c w =
     (case messages_since_kickoff c of
        Inl e \<Rightarrow> (Inl e, w)
      | Inr turn \<Rightarrow>
          (let pending = unanswered_requests turn in
           if pending = [] then (not_applicable, w)
           else
             (case race (available_tools oper s) w of
                (None, w1) \<Rightarrow>
                  (let (m, w2) = emit_message (interrupt_all E pending) w1
                   in (applied [AppendMessage m], w2))
              | (Some (Inl e), w1) \<Rightarrow> (Inl e, w1)
              | (Some (Inr avail), w1) \<Rightarrow>
                  (let known = pending_requests (set (map (tl_name \<circ> fst) avail)) pending in
                   if known = [] then (not_applicable, w1)
                   else
                     (let (m, w2) = answer_requests E s avail False known (message_user E) w1;
                          (m', w3) = emit_message m w2
                      in (applied [AppendMessage m'], w3))))))"

definition tool_operation_tools ::
  "('s, 'x) tool_operation \<Rightarrow> 's \<Rightarrow> (tool list result option, 'x) act" where
  "tool_operation_tools oper s w =
     (let (r, w1) = available_tools oper s w in (map_option (map_sum id (map fst)) r, w1))"

definition as_operation ::
  "ext_env \<Rightarrow> ('s, 'x) tool_operation \<Rightarrow> ('s, conversation_effect, 'x) operation" where
  "as_operation E oper = (operation_default ''tools'')
     \<lparr>op_run := tool_operation_run E oper, op_tools := tool_operation_tools oper\<rparr>"

end
