(* ===== verification/Machine.thy ===== *)
theory Machine
  imports Operation
begin

text \<open>
  \<open>crates/aibuddy-agent/src/machine.rs\<close>: the state machine of the agent loop.  A step asks
  its operations in order until one applies; an inference step first collects the tools,
  prompt parts and context parts of all operations.  \<open>run\<close> loads the session, makes a step,
  applies its effects, and repeats until no operation applies or one yields to the client.
\<close>

subsection \<open>The machine\<close>

datatype ('s, 'e, 'x) machine_step =
    OpStep "('s, 'e, 'x) operation"
  | InferenceStep "('s, 'e, 'x) operation" "conversation \<Rightarrow> bool"
      "'s \<Rightarrow> conversation \<Rightarrow> inference_input \<Rightarrow> ('e operation_result result, 'x) act"

fun step_operation :: "('s, 'e, 'x) machine_step \<Rightarrow> ('s, 'e, 'x) operation" where
  "step_operation (OpStep oper) = oper"
| "step_operation (InferenceStep oper applies infer) = oper"

text \<open>The session's conversation, the effects' \<open>ensure_message_ids\<close>.\<close>

record ('s, 'e, 'x) machine =
  ma_steps :: "('s, 'e, 'x) machine_step list"
  ma_conversation :: "'s \<Rightarrow> conversation option"
  ma_ensure :: "'e \<Rightarrow> ('e, 'x) act"

record ('s, 'e, 'x) runtime =
  rt_load :: "string \<Rightarrow> ('s result, 'x) act"
  rt_apply :: "'s \<Rightarrow> 'e list \<Rightarrow> (unit result, 'x) act"

fun add_tools_to_inference_input ::
  "tool list \<Rightarrow> inference_input \<times> string set \<Rightarrow> (inference_input \<times> string set) result" where
  "add_tools_to_inference_input [] (input, names) = Inr (input, names)"
| "add_tools_to_inference_input (t # ts) (input, names) =
     (if tl_name t \<in> names
      then Inl (''multiple operations registered tool '' @ quoted (tl_name t))
      else add_tools_to_inference_input ts
             (input\<lparr>ii_tools := ii_tools input @ [t]\<rparr>, insert (tl_name t) names))"

text \<open>
  Collecting the input: \<open>Inr None\<close> when the token fired while the tools were asked for, in
  which case the whole step returns nothing.
\<close>

fun gather_input ::
  "'s \<Rightarrow> conversation \<Rightarrow> ('s, 'e, 'x) operation list \<Rightarrow> inference_input \<times> string set \<Rightarrow>
   (inference_input option result, 'x) act" where
  "gather_input s c [] acc w = (Inr (Some (fst acc)), w)"
| "gather_input s c (oper # opers) acc w =
     (case race (op_tools oper s) w of
        (None, w1) \<Rightarrow> (Inr None, w1)
      | (Some (Inl e), w1) \<Rightarrow> (Inl e, w1)
      | (Some (Inr tools), w1) \<Rightarrow>
          (case add_tools_to_inference_input tools acc of
             Inl e \<Rightarrow> (Inl e, w1)
           | Inr (input, names) \<Rightarrow>
               try_bind (op_prompt_parts oper s c) (\<lambda>parts.
                 try_bind (op_moim_parts oper s c) (\<lambda>moim.
                   gather_input s c opers
                     (input\<lparr>ii_prompt_parts := ii_prompt_parts input @ parts,
                            ii_moim_parts := ii_moim_parts input @ moim\<rparr>, names))) w1))"

datatype 'e step_outcome = StepSkipped | StepStopped | StepFailed string
  | StepRan "'e operation_result"

fun outcome_of :: "'e operation_result result \<Rightarrow> 'e step_outcome" where
  "outcome_of (Inl e) = StepFailed e"
| "outcome_of (Inr r) = StepRan r"

definition run_machine_step ::
  "('s, 'e, 'x) machine \<Rightarrow> 's \<Rightarrow> conversation \<Rightarrow> ('s, 'e, 'x) machine_step \<Rightarrow>
   ('e step_outcome, 'x) act" where
  "run_machine_step M s c st w =
     (case st of
        OpStep oper \<Rightarrow> (let (r, w1) = op_run oper s c w in (outcome_of r, w1))
      | InferenceStep oper applies infer \<Rightarrow>
          if \<not> applies c then (StepSkipped, w)
          else
            (case gather_input s c (map step_operation (ma_steps M))
                    (inference_input_default, {}) w of
               (Inl e, w1) \<Rightarrow> (StepFailed e, w1)
             | (Inr None, w1) \<Rightarrow> (StepStopped, w1)
             | (Inr (Some input), w1) \<Rightarrow>
                 (let (r, w2) = infer s c input w1 in (outcome_of r, w2))))"

fun ensure_effects :: "('e \<Rightarrow> ('e, 'x) act) \<Rightarrow> 'e list \<Rightarrow> ('e list, 'x) act" where
  "ensure_effects ens [] w = ([], w)"
| "ensure_effects ens (eff # effs) w =
     (let (eff', w1) = ens eff w; (effs', w2) = ensure_effects ens effs w1 in (eff' # effs', w2))"

text \<open>
  One round of the loop over the steps.  It declines (on to the next step), stops the
  machine without a result, fails, or takes the step.
\<close>

datatype 'e attempt = Declined | Halted | Failed string | Took "'e step_result"

definition attempt_step ::
  "('s, 'e, 'x) machine \<Rightarrow> 's \<Rightarrow> conversation \<Rightarrow> ('s, 'e, 'x) machine_step \<Rightarrow>
   ('e attempt, 'x) act" where
  "attempt_step M s c st w =
     (let (before, w1) = is_cancelled w;
          (outcome, w2) = (if before then (StepRan NotApplicable, w1)
                           else run_machine_step M s c st w1)
      in case outcome of
           StepSkipped \<Rightarrow> (Declined, w2)
         | StepStopped \<Rightarrow> (Halted, w2)
         | StepFailed e \<Rightarrow> (Failed e, w2)
         | StepRan r \<Rightarrow>
             (let (cancelled, w3) = is_cancelled w2;
                  (r', w4) = (if cancelled then op_cancel (step_operation st) s c r w3
                              else (Inr r, w3))
              in case r' of
                   Inl e \<Rightarrow> (Failed e, w4)
                 | Inr NotApplicable \<Rightarrow> (Declined, w4)
                 | Inr (Applied res) \<Rightarrow>
                     (let (effs, w5) = ensure_effects (ma_ensure M) (sr_effects res) w4
                      in (Took \<lparr>sr_effects = effs,
                                sr_applied_step = Some (op_name (step_operation st)),
                                sr_yield = (if cancelled then True else sr_yield res)\<rparr>, w5))))"

fun step_loop ::
  "('s, 'e, 'x) machine \<Rightarrow> 's \<Rightarrow> conversation \<Rightarrow> ('s, 'e, 'x) machine_step list \<Rightarrow>
   ('e step_result option result, 'x) act" where
  "step_loop M s c [] w = (Inr None, w)"
| "step_loop M s c (st # sts) w =
     (case attempt_step M s c st w of
        (Declined, w1) \<Rightarrow> step_loop M s c sts w1
      | (Halted, w1) \<Rightarrow> (Inr None, w1)
      | (Failed e, w1) \<Rightarrow> (Inl e, w1)
      | (Took res, w1) \<Rightarrow> (Inr (Some res), w1))"

definition machine_step_once ::
  "('s, 'e, 'x) machine \<Rightarrow> 's \<Rightarrow> ('e step_result option result, 'x) act" where
  "machine_step_once M s w =
     (case ma_conversation M s of
        None \<Rightarrow> (Inl ''state-machine session loaded without conversation'', w)
      | Some c \<Rightarrow> step_loop M s c (ma_steps M) w)"

definition machine_apply ::
  "('s, 'e, 'x) machine \<Rightarrow> ('s, 'e, 'x) runtime \<Rightarrow> 's \<Rightarrow> 'e step_result \<Rightarrow>
   (unit result, 'x) act" where
  "machine_apply M R s res w =
     (let (effs, w1) = ensure_effects (ma_ensure M) (sr_effects res) w in rt_apply R s effs w1)"

text \<open>The loop need not end: \<open>None\<close> stands for a run that goes on for ever.\<close>

partial_function (option) machine_loop ::
  "('s, 'e, 'x) machine \<Rightarrow> ('s, 'e, 'x) runtime \<Rightarrow> string \<Rightarrow> 'x world_scheme \<Rightarrow>
   (unit result \<times> 'x world_scheme) option" where
  "machine_loop M R sid w =
     (case rt_load R sid w of
        (Inl e, w1) \<Rightarrow> Some (Inl e, w1)
      | (Inr s, w1) \<Rightarrow>
          (case machine_step_once M s w1 of
             (Inl e, w2) \<Rightarrow> Some (Inl e, w2)
           | (Inr None, w2) \<Rightarrow> Some (Inr (), w2)
           | (Inr (Some res), w2) \<Rightarrow>
               (case machine_apply M R s res w2 of
                  (Inl e, w3) \<Rightarrow> Some (Inl e, w3)
                | (Inr _, w3) \<Rightarrow>
                    if sr_yield res then Some (Inr (), w3) else machine_loop M R sid w3)))"

definition machine_run ::
  "('s, 'e, 'x) machine \<Rightarrow> ('s, 'e, 'x) runtime \<Rightarrow> string \<Rightarrow> 'x world_scheme \<Rightarrow>
   ('s result \<times> 'x world_scheme) option" where
  "machine_run M R sid w =
     Option.bind (machine_loop M R sid w) (\<lambda>(r, w1).
       case r of Inl e \<Rightarrow> Some (Inl e, w1) | Inr _ \<Rightarrow> Some (rt_load R sid w1))"

end
