(* ===== verification/Machine_Props.thy ===== *)
theory Machine_Props
  imports Machine
begin

text \<open>
  Properties of the agent state machine: the contract of an operation as a locale, the
  machine's steps under that contract, which operation a step runs, the tools it offers to
  the provider, and that cancellation stops the loop.
\<close>

subsection \<open>The contract of an operation\<close>

locale operation_laws =
  fixes oper :: "('s, 'e, 'x) operation"
  assumes run_advances: "advances w (snd (op_run oper s c w))"
    and cancel_advances: "advances w (snd (op_cancel oper s c r w))"
    and command_advances: "advances w (snd (op_command oper cmd s c w))"
    and tools_advances: "advances w (snd (op_tools oper s w))"
    and parts_advances: "advances w (snd (op_prompt_parts oper s c w))"
    and moim_advances: "advances w (snd (op_moim_parts oper s c w))"
begin

lemma cancel_keeps_token: "token_fired w \<Longrightarrow> token_fired (snd (op_cancel oper s c r w))"
  by (rule advances_token [OF cancel_advances])

lemma race_tools_advances: "advances w (snd (race (op_tools oper s) w))"
  by (rule advances_race) (rule tools_advances)

end

definition lawful_step :: "('s, 'e, 'x) machine_step \<Rightarrow> bool" where
  "lawful_step st \<longleftrightarrow> operation_laws (step_operation st) \<and>
     (case st of OpStep _ \<Rightarrow> True
      | InferenceStep _ _ infer \<Rightarrow> (\<forall>s c input w. advances w (snd (infer s c input w))))"

definition lawful_machine :: "('s, 'e, 'x) machine \<Rightarrow> bool" where
  "lawful_machine M \<longleftrightarrow>
     list_all lawful_step (ma_steps M) \<and> (\<forall>eff w. advances w (snd (ma_ensure M eff w)))"

definition lawful_runtime :: "('s, 'e, 'x) runtime \<Rightarrow> bool" where
  "lawful_runtime R \<longleftrightarrow>
     (\<forall>sid w. advances w (snd (rt_load R sid w))) \<and>
     (\<forall>s effs w. advances w (snd (rt_apply R s effs w)))"

locale machine_laws =
  fixes M :: "('s, 'e, 'x) machine"
  assumes lawful: "lawful_machine M"
begin

lemma ensure_advances: "advances w (snd (ma_ensure M eff w))"
  using lawful by (simp add: lawful_machine_def)

lemma step_laws: "st \<in> set (ma_steps M) \<Longrightarrow> operation_laws (step_operation st)"
  using lawful by (simp add: lawful_machine_def lawful_step_def list_all_iff)

lemma infer_advances:
  "InferenceStep oper applies infer \<in> set (ma_steps M) \<Longrightarrow>
   advances w (snd (infer s c input w))"
  using lawful by (fastforce simp: lawful_machine_def lawful_step_def list_all_iff)

lemma ensure_effects_advances: "advances w (snd (ensure_effects (ma_ensure M) effs w))"
proof (induction effs arbitrary: w)
  case Nil
  then show ?case by simp
next
  case (Cons eff effs)
  then show ?case
    using advances_trans [OF ensure_advances Cons.IH] by (simp add: case_prod_beta Let_def)
qed

lemma gather_advances:
  "\<forall>oper \<in> set opers. operation_laws oper \<Longrightarrow> advances w (snd (gather_input s c opers acc w))"
proof (induction opers arbitrary: acc w)
  case Nil
  then show ?case by simp
next
  case (Cons oper opers)
  have laws: "operation_laws oper" using Cons.prems by simp
  have rest: "advances v (snd (gather_input s c opers acc' v))" for acc' v
    using Cons by simp
  have tools: "advances w (snd (race (op_tools oper s) w))"
    by (rule operation_laws.race_tools_advances [OF laws])
  have parts: "advances v (snd (try_bind (op_prompt_parts oper s c) (\<lambda>parts.
      try_bind (op_moim_parts oper s c) (\<lambda>moim. gather_input s c opers (k parts moim))) v))"
    for v k
    by (intro advances_try_bind operation_laws.parts_advances [OF laws]
        operation_laws.moim_advances [OF laws] rest)
  show ?case
    using tools advances_trans [OF tools parts]
    by (cases "race (op_tools oper s) w")
      (auto split: option.splits sum.splits)
qed

lemma run_machine_step_advances:
  assumes "st \<in> set (ma_steps M)"
  shows "advances w (snd (run_machine_step M s c st w))"
proof (cases st)
  case (OpStep oper)
  then show ?thesis
    using operation_laws.run_advances [OF step_laws [OF assms]]
    by (simp add: run_machine_step_def case_prod_beta)
next
  case (InferenceStep oper applies infer)
  have gather: "advances w (snd (gather_input s c (map step_operation (ma_steps M)) acc w))" for acc
    by (rule gather_advances) (auto intro: step_laws)
  have infer: "advances v (snd (infer s c input v))" for input v
    using assms unfolding InferenceStep by (rule infer_advances)
  have both: "advances w (snd (infer s c input
      (snd (gather_input s c (map step_operation (ma_steps M)) acc w))))" for input acc
    by (rule advances_trans [OF gather infer])
  show ?thesis
    using gather [of "(inference_input_default, {})"] both [of _ "(inference_input_default, {})"]
    by (cases "gather_input s c (map step_operation (ma_steps M)) (inference_input_default, {}) w")
      (simp add: run_machine_step_def InferenceStep case_prod_beta
        split: sum.splits option.splits)
qed

lemma attempt_step_advances:
  assumes "st \<in> set (ma_steps M)"
  shows "advances w (snd (attempt_step M s c st w))"
proof -
  have look: "advances v (snd (is_cancelled u))" if "advances v u" for v u :: "'x world_scheme"
    using that advances_is_cancelled by (rule advances_trans)
  have cancel: "advances v (snd (op_cancel (step_operation st) s c r u))" if "advances v u" for v u r
    using that operation_laws.cancel_advances [OF step_laws [OF assms]] by (rule advances_trans)
  have ens: "advances v (snd (ensure_effects (ma_ensure M) effs u))" if "advances v u" for v u effs
    using that ensure_effects_advances by (rule advances_trans)
  have run: "advances v (snd (run_machine_step M s c st u))" if "advances v u" for v u
    using that run_machine_step_advances [OF assms] by (rule advances_trans)
  show ?thesis
    by (simp add: attempt_step_def case_prod_beta Let_def look cancel ens run
        split: step_outcome.split sum.split operation_result.split)
qed

lemma step_loop_advances:
  "set sts \<subseteq> set (ma_steps M) \<Longrightarrow> advances w (snd (step_loop M s c sts w))"
proof (induction sts arbitrary: w)
  case Nil
  then show ?case by simp
next
  case (Cons st sts)
  then have st: "advances w (snd (attempt_step M s c st w))" by (simp add: attempt_step_advances)
  from Cons have rest: "advances v (snd (step_loop M s c sts v))" for v by simp
  show ?case
    using st advances_trans [OF st rest]
    by (cases "attempt_step M s c st w") (simp split: attempt.split)
qed

lemma machine_step_once_advances: "advances w (snd (machine_step_once M s w))"
  by (simp add: machine_step_once_def step_loop_advances split: option.split)

lemma machine_apply_advances:
  assumes "lawful_runtime R"
  shows "advances w (snd (machine_apply M R s res w))"
proof -
  have "advances v (snd (rt_apply R s effs v))" for effs v
    using assms by (simp add: lawful_runtime_def)
  from advances_trans [OF ensure_effects_advances this] show ?thesis
    by (simp add: machine_apply_def case_prod_beta)
qed

text \<open>A step that is taken while the token has fired yields to the client.\<close>

lemma attempt_step_fired:
  assumes "st \<in> set (ma_steps M)" "token_fired w" "attempt_step M s c st w = (Took res, w')"
  shows "sr_yield res"
proof -
  have "fst (is_cancelled (snd (is_cancelled w)))" using assms(2) by simp
  with assms(2,3) show ?thesis
    by (auto simp: attempt_step_def case_prod_beta Let_def
        split: sum.splits operation_result.splits)
qed

lemma step_loop_fired:
  "set sts \<subseteq> set (ma_steps M) \<Longrightarrow> token_fired w \<Longrightarrow>
   step_loop M s c sts w = (Inr (Some res), w') \<Longrightarrow> sr_yield res"
proof (induction sts arbitrary: w)
  case Nil
  then show ?case by simp
next
  case (Cons st sts)
  have "token_fired (snd (attempt_step M s c st w))"
    using Cons.prems by (intro advances_token [OF attempt_step_advances]) simp_all
  with Cons attempt_step_fired [of st w s c] show ?case
    by (cases "attempt_step M s c st w") (auto split: attempt.splits)
qed

lemma loop_ends_when_fired:
  assumes R: "lawful_runtime R" and w: "token_fired w"
  shows "\<exists>r w'. machine_loop M R sid w = Some (r, w') \<and> advances w w'"
proof -
  obtain ls w1 where load: "rt_load R sid w = (ls, w1)" by fastforce
  with R have w1: "advances w w1"
    by (metis lawful_runtime_def snd_conv)
  show ?thesis
  proof (cases ls)
    case (Inl e)
    with load w1 show ?thesis by (subst machine_loop.simps) simp
  next
    case (Inr s)
    obtain sr w2 where once: "machine_step_once M s w1 = (sr, w2)" by fastforce
    then have w2: "advances w w2"
      using advances_trans [OF w1 machine_step_once_advances] by (metis snd_conv)
    have yields: "sr = Inr (Some res) \<Longrightarrow> sr_yield res" for res
      using once step_loop_fired [OF _ advances_token [OF w1 w]]
      by (fastforce simp: machine_step_once_def split: option.splits)
    obtain ar w3 where app: "\<And>res. sr = Inr (Some res) \<Longrightarrow> machine_apply M R s res w2 = (ar, w3)"
      by (cases sr rule: sum.exhaust) (metis option.sel prod.exhaust sum.sel(2) sum.distinct(1))+
    then have w3: "sr = Inr (Some res) \<Longrightarrow> advances w w3" for res
      using advances_trans [OF w2 machine_apply_advances [OF R]] by (metis snd_conv)
    show ?thesis
      using load Inr once app yields w2 w3
      by (subst machine_loop.simps) (auto split: sum.splits option.splits)
  qed
qed

end

lemma operation_default_laws: "operation_laws (operation_default name)"
  by unfold_locales (simp_all add: operation_default_def)

subsection \<open>Cancellation\<close>

text \<open>
  Once the token has fired, \<open>run\<close> returns after at most one step, whatever the
  operations answer: a run of a machine whose operations and runtime only move the world
  forward does not go on for ever.
\<close>

lemma machine_run_cancelled_returns:
  assumes "lawful_machine M" "lawful_runtime R" "token_fired w"
  shows "\<exists>r w'. machine_run M R sid w = Some (r, w') \<and> advances w w'"
proof -
  obtain r w1 where loop: "machine_loop M R sid w = Some (r, w1)" "advances w w1"
    using machine_laws.loop_ends_when_fired [OF machine_laws.intro [OF assms(1)] assms(2,3)]
    by blast
  obtain r' w2 where load: "rt_load R sid w1 = (r', w2)" by fastforce
  with assms(2) have "advances w1 w2" by (metis lawful_runtime_def snd_conv)
  with loop load advances_trans [OF loop(2)] show ?thesis
    by (cases r) (auto simp: machine_run_def)
qed

text \<open>A machine whose only operation answers for ever, with a session that is the unit.\<close>

definition chatter :: "(unit, conversation_effect, 'x) operation" where
  "chatter = (operation_default ''chatter'')
     \<lparr>op_run := (\<lambda>s c w. (applied [AppendMessage (message_new Assistant 0 [])], w))\<rparr>"

definition chatter_machine :: "(unit, conversation_effect, 'x) machine" where
  "chatter_machine = \<lparr>ma_steps = [OpStep chatter], ma_conversation = (\<lambda>_. Some []),
     ma_ensure = ensure_message_ids\<rparr>"

definition idle_runtime :: "(unit, conversation_effect, 'x) runtime" where
  "idle_runtime = \<lparr>rt_load = (\<lambda>sid w. (Inr (), w)), rt_apply = (\<lambda>s effs w. (Inr (), w))\<rparr>"

definition fired_world :: world where
  "fired_world = \<lparr>w_events = [], w_uuids = show_nat, w_next_uuid = 0, w_tick = 0,
     w_cancel_at = Some 0\<rparr>"

lemma chatter_laws: "operation_laws chatter"
  by unfold_locales (simp_all add: chatter_def operation_default_def)

lemma chatter_machine_lawful: "lawful_machine chatter_machine"
  by (simp add: lawful_machine_def chatter_machine_def lawful_step_def chatter_laws)

lemma idle_runtime_lawful: "lawful_runtime idle_runtime"
  by (simp add: lawful_runtime_def idle_runtime_def)

lemma chatter_run_cancelled:
  "\<exists>r w'. machine_run chatter_machine idle_runtime ''s'' fired_world = Some (r, w') \<and>
     advances fired_world w'"
  by (rule machine_run_cancelled_returns [OF chatter_machine_lawful idle_runtime_lawful])
    (simp add: fired_world_def token_fired_def)

subsection \<open>The operation a step runs\<close>

text \<open>The steps of a list all decline, one after the other.\<close>

inductive all_decline ::
  "('s, 'e, 'x) machine \<Rightarrow> 's \<Rightarrow> conversation \<Rightarrow> ('s, 'e, 'x) machine_step list \<Rightarrow>
   'x world_scheme \<Rightarrow> 'x world_scheme \<Rightarrow> bool"
  for M :: "('s, 'e, 'x) machine" and s :: 's and c :: conversation
where
  decline_none: "all_decline M s c [] w w"
| decline_one: "attempt_step M s c st w = (Declined, w1) \<Longrightarrow> all_decline M s c sts w1 w2 \<Longrightarrow>
    all_decline M s c (st # sts) w w2"

inductive_cases all_decline_ConsE: "all_decline M s c (st # sts) w w2"
inductive_simps all_decline_Nil_iff [simp]: "all_decline M s c [] w w2"

lemma all_decline_skip:
  "all_decline M s c pre w w1 \<Longrightarrow> step_loop M s c (pre @ sts) w = step_loop M s c sts w1"
  by (induction rule: all_decline.induct) simp_all

lemma step_loop_Took:
  assumes "step_loop M s c sts w = (Inr (Some res), w')"
  shows "\<exists>pre st post w1. sts = pre @ st # post \<and> all_decline M s c pre w w1 \<and>
     attempt_step M s c st w1 = (Took res, w')"
  using assms
proof (induction sts arbitrary: w)
  case Nil
  then show ?case by simp
next
  case (Cons st sts)
  obtain a v where at: "attempt_step M s c st w = (a, v)" by fastforce
  show ?case
  proof (cases a)
    case Declined
    with at Cons.prems have "step_loop M s c sts v = (Inr (Some res), w')" by simp
    from Cons.IH [OF this] obtain pre st' post w1 where
      "sts = pre @ st' # post" "all_decline M s c pre v w1" "attempt_step M s c st' w1 = (Took res, w')"
      by blast
    then show ?thesis
      using at Declined by (intro exI [of _ "st # pre"]) (auto intro: decline_one)
  next
    case (Took res')
    with at Cons.prems show ?thesis by (intro exI [of _ "[]"]) auto
  qed (use at Cons.prems in simp_all)
qed

lemma step_loop_Took_iff:
  "step_loop M s c sts w = (Inr (Some res), w') \<longleftrightarrow>
     (\<exists>pre st post w1. sts = pre @ st # post \<and> all_decline M s c pre w w1 \<and>
        attempt_step M s c st w1 = (Took res, w'))"
  using step_loop_Took by (fastforce simp: all_decline_skip)

text \<open>
  A step returns a result exactly when some operation takes it after all the
  operations before it, asked in order, have declined; the later ones are not asked.
\<close>

theorem machine_step_once_first:
  "machine_step_once M s w = (Inr (Some res), w') \<longleftrightarrow>
     (\<exists>c pre st post w1. ma_conversation M s = Some c \<and> ma_steps M = pre @ st # post \<and>
        all_decline M s c pre w w1 \<and> attempt_step M s c st w1 = (Took res, w'))"
  by (simp add: machine_step_once_def step_loop_Took_iff split: option.splits)

subsection \<open>The result of a step\<close>

lemma ensure_effects_ids:
  "\<forall>eff \<in> set (fst (ensure_effects ensure_message_ids effs w)).
     \<forall>m \<in> set (effect_messages eff). msg_id m \<noteq> None"
proof (induction effs arbitrary: w)
  case Nil
  then show ?case by simp
next
  case (Cons eff effs)
  then show ?case
    using ensure_message_ids_ids [of eff w] by (simp add: case_prod_beta Let_def)
qed

lemma ensure_effects_idsD:
  "eff \<in> set (fst (ensure_effects ensure_message_ids effs w)) \<Longrightarrow>
   m \<in> set (effect_messages eff) \<Longrightarrow> \<exists>i. msg_id m = Some i"
  using ensure_effects_ids [of effs w] by blast

lemma attempt_step_Took:
  assumes "attempt_step M s c st w = (Took res, w')" and "ma_ensure M = ensure_message_ids"
  shows "sr_applied_step res = Some (op_name (step_operation st))"
    and "\<forall>eff \<in> set (sr_effects res). \<forall>m \<in> set (effect_messages eff). msg_id m \<noteq> None"
  using assms
  by (auto dest: ensure_effects_idsD simp: attempt_step_def case_prod_beta Let_def
      split: step_outcome.splits sum.splits operation_result.splits)

text \<open>
  The result of a step of the conversation machine names one of its operations, and all
  messages it appends or replaces the conversation with carry an id.
\<close>

theorem machine_step_result:
  assumes "ma_ensure M = ensure_message_ids" and "machine_step_once M s w = (Inr (Some res), w')"
  shows "sr_applied_step res \<in> (\<lambda>st. Some (op_name (step_operation st))) ` set (ma_steps M) \<and>
     (\<forall>eff \<in> set (sr_effects res). \<forall>m \<in> set (effect_messages eff). msg_id m \<noteq> None)"
proof -
  from assms(2) obtain c st w1 where st: "st \<in> set (ma_steps M)"
    and "attempt_step M s c st w1 = (Took res, w')"
    by (fastforce simp: machine_step_once_def step_loop_Took_iff split: option.splits)
  from attempt_step_Took [OF this(2) assms(1)] st show ?thesis by blast
qed

theorem machine_step_result_witness:
  "\<exists>res w'. machine_step_once chatter_machine () (fired_world\<lparr>w_cancel_at := None\<rparr>) = (Inr (Some res), w') \<and>
     sr_applied_step res = Some ''chatter'' \<and>
     (\<forall>eff \<in> set (sr_effects res). \<forall>m \<in> set (effect_messages eff). msg_id m \<noteq> None)"
proof -
  let ?w = "fired_world\<lparr>w_cancel_at := None\<rparr>"
  obtain res w' where once: "machine_step_once chatter_machine () ?w = (Inr (Some res), w')"
    by (simp add: machine_step_once_def chatter_machine_def attempt_step_def case_prod_beta
        is_cancelled_def token_fired_def fired_world_def run_machine_step_def chatter_def applied_def
        Let_def)
  from machine_step_result [OF _ once] once show ?thesis
    by (simp add: chatter_machine_def chatter_def operation_default_def)
qed

subsection \<open>The tools offered to the provider\<close>

definition registered :: "inference_input \<Rightarrow> string set \<Rightarrow> bool" where
  "registered input names \<longleftrightarrow>
     set (map tl_name (ii_tools input)) = names \<and> distinct (map tl_name (ii_tools input))"

lemma registered_parts [simp]:
  "registered (input\<lparr>ii_prompt_parts := ps, ii_moim_parts := ms\<rparr>) names = registered input names"
  by (simp add: registered_def)

lemma registered_add:
  "registered input names \<Longrightarrow> tl_name t \<notin> names \<Longrightarrow>
   registered (input\<lparr>ii_tools := ii_tools input @ [t]\<rparr>) (insert (tl_name t) names)"
  by (auto simp: registered_def)

lemma add_tools_Inr:
  assumes "add_tools_to_inference_input ts (input, names) = Inr (input', names')"
    and "registered input names"
  shows "input' = input\<lparr>ii_tools := ii_tools input @ ts\<rparr> \<and> registered input' names'"
  using assms
proof (induction ts arbitrary: input names)
  case Nil
  then show ?case by simp
next
  case (Cons t ts)
  then have "tl_name t \<notin> names" by (simp split: if_splits)
  with Cons.prems Cons.IH [OF _ registered_add, of input t names] show ?case by auto
qed

definition answered_with ::
  "'s \<Rightarrow> ('s, 'e, 'x) operation \<Rightarrow> tool list \<Rightarrow> bool" where
  "answered_with s oper ts \<longleftrightarrow> (\<exists>v v'. op_tools oper s v = (Some (Inr ts), v'))"

lemma gather_input_Some:
  assumes "gather_input s c opers (input, names) w = (Inr (Some input'), w')"
    and "registered input names"
  shows "distinct (map tl_name (ii_tools input')) \<and>
     (\<exists>tss. list_all2 (answered_with s) opers tss \<and>
        ii_tools input' = ii_tools input @ concat tss)"
  using assms
proof (induction opers arbitrary: input names w)
  case Nil
  then show ?case by (simp add: registered_def)
next
  case (Cons oper opers)
  obtain rt w1 where rt: "race (op_tools oper s) w = (rt, w1)" by fastforce
  with Cons.prems(1) obtain ts where ts: "rt = Some (Inr ts)"
    by (auto split: option.splits sum.splits)
  from rt ts have "answered_with s oper ts"
    by (auto simp: answered_with_def race_def case_prod_beta Let_def split: if_splits)
  moreover obtain input1 names1
    where add: "add_tools_to_inference_input ts (input, names) = Inr (input1, names1)"
    using Cons.prems(1) rt ts by (auto split: sum.splits)
  note added = add_tools_Inr [OF add Cons.prems(2)]
  obtain parts moim v where rest: "gather_input s c opers
      (input1\<lparr>ii_prompt_parts := ii_prompt_parts input1 @ parts,
              ii_moim_parts := ii_moim_parts input1 @ moim\<rparr>, names1) v = (Inr (Some input'), w')"
    using Cons.prems(1) rt ts add by (auto simp: try_bind_def split: prod.splits sum.splits)
  have "registered (input1\<lparr>ii_prompt_parts := ii_prompt_parts input1 @ parts,
      ii_moim_parts := ii_moim_parts input1 @ moim\<rparr>) names1"
    using added by auto
  from Cons.IH [OF rest this] obtain tss
    where "distinct (map tl_name (ii_tools input'))" "list_all2 (answered_with s) opers tss"
      "ii_tools input' = ii_tools input1 @ concat tss"
    by auto
  ultimately show ?case using added by (intro conjI exI [of _ "ts # tss"]) simp_all
qed

text \<open>
  The tools an inference is offered are those of all the operations, in the order of the
  steps and with distinct names; two operations registering one name fail the step.
\<close>

theorem gather_input_tools:
  assumes "gather_input s c opers (inference_input_default, {}) w = (Inr (Some input), w')"
  shows "distinct (map tl_name (ii_tools input)) \<and>
     (\<exists>tss. list_all2 (answered_with s) opers tss \<and> ii_tools input = concat tss)"
  using gather_input_Some [OF assms] by (simp add: inference_input_default_def registered_def)

definition plain_tool :: "string \<Rightarrow> tool" where
  "plain_tool name = \<lparr>tl_name = name, tl_title = None, tl_description = None,
     tl_input_schema = [], tl_output_schema = None, tl_annotations = None, tl_icons = None,
     tl_meta = None\<rparr>"

definition tool_owner :: "string \<Rightarrow> string list \<Rightarrow> (unit, conversation_effect, 'x) operation" where
  "tool_owner name tools = (operation_default name)
     \<lparr>op_tools := (\<lambda>s w. (Some (Inr (map plain_tool tools)), w))\<rparr>"

theorem gather_input_tools_witness:
  "\<exists>input w'. gather_input () [] [tool_owner ''x'' [''a'', ''b''], tool_owner ''y'' [''c'']]
       (inference_input_default, {}) (fired_world\<lparr>w_cancel_at := None\<rparr>) = (Inr (Some input), w') \<and>
     map tl_name (ii_tools input) = [''a'', ''b'', ''c''] \<and>
     distinct (map tl_name (ii_tools input))"
proof -
  let ?g = "gather_input () [] [tool_owner ''x'' [''a'', ''b''], tool_owner ''y'' [''c'']]
       (inference_input_default, {}) (fired_world\<lparr>w_cancel_at := None\<rparr>)"
  obtain input w' where g: "?g = (Inr (Some input), w')"
    and names: "map tl_name (ii_tools input) = [''a'', ''b'', ''c'']"
    by (simp add: race_def is_cancelled_def token_fired_def fired_world_def tool_owner_def
        operation_default_def plain_tool_def try_bind_def inference_input_default_def)
  from gather_input_tools [OF g] have "distinct (map tl_name (ii_tools input))" by blast
  with g names show ?thesis by (intro exI conjI)
qed

end
