(* ===== verification/Keyed_Store.thy ===== *)
theory Keyed_Store
  imports Prelude
begin

text \<open>
  The interface of a store of entries under keys, where storing an entry replaces the entry
  of the same key and leaves the others alone.  Several components keep such stores: the
  registered tools, the notes of an operation, the remembered permissions.
\<close>

locale keyed_store =
  fixes store :: "'v \<Rightarrow> 's \<Rightarrow> 's"
    and lookup :: "'s \<Rightarrow> 'k \<Rightarrow> 'v option"
    and key :: "'v \<Rightarrow> 'k"
  assumes lookup_store: "lookup (store v s) k = (if k = key v then Some v else lookup s k)"
begin

lemma lookup_same: "lookup (store v s) (key v) = Some v"
  by (simp add: lookup_store)

lemma lookup_other: "k \<noteq> key v \<Longrightarrow> lookup (store v s) k = lookup s k"
  by (simp add: lookup_store)

lemma store_overwrites: "key v = key v' \<Longrightarrow> lookup (store v' (store v s)) = lookup (store v' s)"
  by (rule ext) (simp add: lookup_store)

lemma store_commutes:
  "key v \<noteq> key v' \<Longrightarrow> lookup (store v' (store v s)) = lookup (store v (store v' s))"
  by (rule ext) (simp add: lookup_store)

text \<open>Storing a list of entries one after the other: the last of a key is found.\<close>

lemma lookup_store_all:
  "lookup (foldl (\<lambda>s v. store v s) s vs) k =
     (case find (\<lambda>v. key v = k) (rev vs) of Some v \<Rightarrow> Some v | None \<Rightarrow> lookup s k)"
proof (induction vs arbitrary: s)
  case Nil
  then show ?case by simp
next
  case (Cons v vs)
  have find_snoc: "find p (xs @ [v]) =
      (case find p xs of Some x \<Rightarrow> Some x | None \<Rightarrow> if p v then Some v else None)" for p xs
    by (induction xs) simp_all
  show ?case by (simp add: Cons find_snoc lookup_store split: option.split)
qed

lemma lookup_store_all_distinct:
  assumes "distinct (map key vs)" and "v \<in> set vs"
  shows "lookup (foldl (\<lambda>s v. store v s) s vs) (key v) = Some v"
proof -
  have "find (\<lambda>u. key u = key v) (rev vs) = Some v"
  proof (cases "find (\<lambda>u. key u = key v) (rev vs)")
    case None
    with assms(2) show ?thesis by (auto simp: find_None_iff)
  next
    case (Some u)
    then have "u \<in> set vs" "key u = key v" by (auto simp: find_Some_iff nth_mem rev_nth)
    with assms have "u = v" by (auto simp: distinct_map inj_on_def)
    with Some show ?thesis by simp
  qed
  then show ?thesis by (simp add: lookup_store_all)
qed

end

end
