(* ===== verification/Tool_Operation_Props.thy ===== *)
theory Tool_Operation_Props
  imports Tool_Operation Machine_Props Keyed_Store Message_Props
begin

text \<open>
  Properties of the tool operation: registering is a keyed store, every pending request of
  the turn is answered once and in order so that the next run finds less to do, and a fired
  token interrupts all of them without asking a provider.
\<close>

subsection \<open>Registered tools\<close>

definition find_tool ::
  "('s, 'x) tool_operation \<Rightarrow> string \<Rightarrow> ('s, 'x) registered_tool option" where
  "find_tool oper name = find (\<lambda>t. tl_name (rt_definition t) = name) (to_registered oper)"

definition tool_key :: "('s, 'x) registered_tool \<Rightarrow> string" where
  "tool_key t = tl_name (rt_definition t)"

lemma find_replace_first:
  "find (\<lambda>t. tool_key t = k)
     (case replace_first (\<lambda>e. tool_key e = tool_key t) t regs of Some r \<Rightarrow> r | None \<Rightarrow> regs @ [t]) =
   (if k = tool_key t then Some t else find (\<lambda>t. tool_key t = k) regs)"
proof (induction regs)
  case Nil
  then show ?case by auto
next
  case (Cons x regs)
  then show ?case
    by (cases "replace_first (\<lambda>e. tool_key e = tool_key t) t regs") (auto split: if_splits)
qed

lemma find_tool_register:
  "find_tool (register_tool t oper) k = (if k = tool_key t then Some t else find_tool oper k)"
  using find_replace_first [where k = k and t = t and regs = "to_registered oper"]
  by (simp add: find_tool_def register_tool_def tool_key_def)

interpretation tool_store: keyed_store register_tool find_tool tool_key
  by unfold_locales (rule find_tool_register)

lemma registered_call_find:
  "registered_call (to_registered oper) s rid call w =
     (case find_tool oper (ct_name call) of
        None \<Rightarrow> (Some (Inl (invalid_params (''unknown tool '' @ ct_name call))), w)
      | Some t \<Rightarrow> rt_handler t s (ct_arguments call) w)"
  by (simp add: registered_call_def find_tool_def)

text \<open>
  After tools of distinct names are registered one after the other, a call dispatches to
  the handler of the tool of its name among them, and a call of another name as before.
\<close>

theorem register_tools_dispatch:
  assumes "distinct (map tool_key ts)"
  shows "(\<forall>t \<in> set ts. ct_name call = tool_key t \<longrightarrow>
        registered_call (to_registered (foldl (\<lambda>oper t. register_tool t oper) oper ts)) s rid call w =
        rt_handler t s (ct_arguments call) w) \<and>
     (ct_name call \<notin> tool_key ` set ts \<longrightarrow>
        registered_call (to_registered (foldl (\<lambda>oper t. register_tool t oper) oper ts)) s rid call w =
        registered_call (to_registered oper) s rid call w)"
proof -
  have "find (\<lambda>t. tool_key t = ct_name call) (rev ts) = None" if "ct_name call \<notin> tool_key ` set ts"
    using that by (auto simp: find_None_iff image_iff)
  then show ?thesis
    using tool_store.lookup_store_all_distinct [OF assms, of _ oper]
    by (auto simp: registered_call_find tool_store.lookup_store_all)
qed

definition echo_tool :: "string \<Rightarrow> (unit, 'x) registered_tool" where
  "echo_tool name = \<lparr>rt_definition = plain_tool name,
     rt_handler = (\<lambda>s args w. (Some (Inr (call_result_success [content_text name])), w))\<rparr>"

theorem register_tools_dispatch_witness:
  "registered_call
     (to_registered (foldl (\<lambda>oper t. register_tool t oper) tool_operation_new
        [echo_tool ''a'', echo_tool ''b''])) () ''r'' \<lparr>ct_name = ''b'', ct_arguments = None\<rparr> fired_world =
   (Some (Inr (call_result_success [content_text ''b''])), fired_world)"
  using register_tools_dispatch [of "[echo_tool ''a'', echo_tool ''b'']"
      "\<lparr>ct_name = ''b'', ct_arguments = None\<rparr>" tool_operation_new "()" "''r''" fired_world]
  by (simp add: echo_tool_def tool_key_def plain_tool_def)

subsection \<open>Answers\<close>

lemmas response_defs =
  add_tool_response_with_metadata_def with_content_def mc_tool_response_with_metadata_def

definition response_ids :: "message \<Rightarrow> string list" where
  "response_ids m = filter_map response_id_of (msg_content m)"

lemma response_ids_add [simp]:
  "response_ids (add_tool_response_with_metadata E i res md m) = response_ids m @ [i]"
  by (simp add: response_ids_def response_defs)

lemma get_tool_response_ids_list: "get_tool_response_ids m = set (response_ids m)"
  by (simp add: get_tool_response_ids_def response_ids_def)

text \<open>A message under construction: the user's, with tool responses only.\<close>

definition response_message :: "message \<Rightarrow> bool" where
  "response_message m \<longleftrightarrow> msg_role m = User \<and> list_all is_tool_response_block (msg_content m)"

lemma response_message_add [simp]:
  "response_message (add_tool_response_with_metadata E i res md m) \<longleftrightarrow> response_message m"
  by (simp add: response_message_def response_defs)

lemma response_message_user [simp]: "response_message (message_user E)"
  by (simp add: response_message_def message_user_def message_new_def)

lemma response_ids_user [simp]: "response_ids (message_user E) = []"
  by (simp add: response_ids_def message_user_def message_new_def)

lemma response_message_emit [simp]:
  "response_message (fst (emit_message m w)) \<longleftrightarrow> response_message m"
  "response_ids (fst (emit_message m w)) = response_ids m"
  by (simp_all add: response_message_def response_ids_def)

lemma answer_requests_message:
  "response_ids (fst (answer_requests E s avail b rs m w)) = response_ids m @ map tq_id rs \<and>
   (response_message (fst (answer_requests E s avail b rs m w)) \<longleftrightarrow> response_message m)"
  by (induction rs arbitrary: b m w) (simp_all add: case_prod_beta Let_def)

lemma interrupt_fold:
  "response_ids (foldl (\<lambda>m r. add_tool_response_with_metadata E (tq_id r) res (tq_metadata r) m) m rs)
     = response_ids m @ map tq_id rs \<and>
   (response_message
      (foldl (\<lambda>m r. add_tool_response_with_metadata E (tq_id r) res (tq_metadata r) m) m rs)
     \<longleftrightarrow> response_message m)"
  by (induction rs arbitrary: m) simp_all

lemma response_message_not_kickoff:
  assumes "response_message m" "response_ids m \<noteq> []"
  shows "\<not> is_kickoff m"
proof -
  have "is_tool_response m"
  proof (cases "msg_content m")
    case Nil
    with assms(2) show ?thesis
      by (simp add: response_ids_def)
  next
    case (Cons c cs)
    with assms(1) show ?thesis by (simp add: response_message_def is_tool_response_def)
  qed
  then show ?thesis by (simp add: is_kickoff_def)
qed

lemma response_message_no_requests:
  "response_message m \<Longrightarrow> filter_map as_tool_request (msg_content m) = []"
proof -
  have "list_all is_tool_response_block cs \<Longrightarrow> filter_map as_tool_request cs = []" for cs
    by (induction cs) (auto elim!: is_tool_response_block.elims)
  then show "response_message m \<Longrightarrow> ?thesis" by (simp add: response_message_def)
qed

lemma unanswered_after_response:
  assumes "response_message m"
  shows "unanswered_requests (turn @ [m]) =
     filter (\<lambda>r. tq_id r \<notin> set (response_ids m)) (unanswered_requests turn)"
proof -
  have "turn_requests (turn @ [m]) = turn_requests turn"
    using response_message_no_requests [OF assms]
    by (simp add: turn_requests_def)
  moreover have "turn_answered_ids (turn @ [m]) = turn_answered_ids turn \<union> set (response_ids m)"
    by (auto simp: turn_answered_ids_def get_tool_response_ids_list)
  ultimately show ?thesis by (simp add: unanswered_requests_def conj_ac)
qed

lemma tool_operation_run_message:
  assumes "tool_operation_run E oper s c w = (applied [AppendMessage m], w')"
    and "messages_since_kickoff c = Inr turn"
  shows "\<exists>rs. subseq rs (unanswered_requests turn) \<and> rs \<noteq> [] \<and>
     response_ids m = map tq_id rs \<and> response_message m"
proof -
  obtain av w1 where race: "race (available_tools oper s) w = (av, w1)" by fastforce
  have pending: "unanswered_requests turn \<noteq> []"
    using assms by (auto simp: tool_operation_run_def not_applicable_def applied_def)
  show ?thesis
  proof (cases av)
    case None
    with race assms pending have "m = fst (emit_message (interrupt_all E (unanswered_requests turn)) w1)"
      by (auto simp: tool_operation_run_def applied_def case_prod_beta Let_def)
    with pending interrupt_fold [of E interrupted_result "message_user E" "unanswered_requests turn"]
    show ?thesis by (auto simp: interrupt_all_def)
  next
    case (Some r)
    with race assms pending obtain avail where r: "r = Inr avail"
      by (auto simp: tool_operation_run_def applied_def split: sum.splits)
    let ?known = "pending_requests (set (map (tl_name \<circ> fst) avail)) (unanswered_requests turn)"
    let ?m = "fst (answer_requests E s avail False ?known (message_user E) w1)"
    have known: "?known \<noteq> []"
      using race assms pending Some r
      by (auto simp: tool_operation_run_def applied_def not_applicable_def)
    have "m = fst (emit_message ?m
        (snd (answer_requests E s avail False ?known (message_user E) w1)))"
      using race assms pending Some r known
      by (auto simp: tool_operation_run_def applied_def case_prod_beta Let_def)
    then have "response_ids m = map tq_id ?known \<and> response_message m"
      using answer_requests_message [of E s avail False ?known "message_user E" w1] by auto
    with known show ?thesis by (auto simp: pending_requests_def intro!: exI [of _ ?known])
  qed
qed

text \<open>
  A run of the tool operation answers requests of the turn that had no answer, each once
  and in order, and after its message is appended exactly the other ones are unanswered: each
  run leaves strictly fewer requests to answer.
\<close>

theorem tool_operation_progress:
  assumes "tool_operation_run E oper s c w = (applied [AppendMessage m], w')"
    and "messages_since_kickoff c = Inr turn"
  shows "\<exists>rs. subseq rs (unanswered_requests turn) \<and> rs \<noteq> [] \<and> response_ids m = map tq_id rs \<and>
     messages_since_kickoff (c @ [m]) = Inr (turn @ [m]) \<and>
     unanswered_requests (turn @ [m]) =
       filter (\<lambda>r. tq_id r \<notin> tq_id ` set rs) (unanswered_requests turn) \<and>
     length (unanswered_requests (turn @ [m])) < length (unanswered_requests turn)"
proof -
  from tool_operation_run_message [OF assms] obtain rs
    where rs: "subseq rs (unanswered_requests turn)" "rs \<noteq> []"
      and m: "response_ids m = map tq_id rs" "response_message m"
    by blast
  have rest: "unanswered_requests (turn @ [m]) =
      filter (\<lambda>r. tq_id r \<notin> tq_id ` set rs) (unanswered_requests turn)"
    using unanswered_after_response [OF m(2), of turn] by (simp add: m(1))
  have kick: "messages_since_kickoff (c @ [m]) = Inr (turn @ [m])"
    using messages_since_kickoff_app [OF assms(2), of "[m]"]
      response_message_not_kickoff [OF m(2)] m(1) rs(2) by simp
  from rs obtain r where r: "r \<in> set rs" "r \<in> set (unanswered_requests turn)"
    by (metis last_in_set subseq_order.dual_order.refl list_emb_set set_mp subseq_conv_nths set_nths_subset)
  have "length (unanswered_requests (turn @ [m])) < length (unanswered_requests turn)"
    unfolding rest using r by (intro length_filter_less) auto
  with rs m rest kick show ?thesis by blast
qed

definition call_turn :: "message list" where
  "call_turn =
     [message_new User 0 [mc_text ''go''],
      message_new Assistant 0
        [mc_tool_request ''r1'' (Inr \<lparr>ct_name = ''a'', ct_arguments = None\<rparr>),
         mc_tool_request ''r2'' (Inr \<lparr>ct_name = ''other'', ct_arguments = None\<rparr>)]]"

definition echo_operation :: "(unit, 'x) tool_operation" where
  "echo_operation = \<lparr>to_registered = [echo_tool ''a''], to_providers = []\<rparr>"

definition quiet_world :: world where
  "quiet_world = \<lparr>w_events = [], w_uuids = show_nat, w_next_uuid = 0, w_tick = 0,
     w_cancel_at = None\<rparr>"

lemma call_turn_kickoff: "messages_since_kickoff call_turn = Inr call_turn"
  by (simp add: messages_since_kickoff_def call_turn_def is_kickoff_def message_new_def
      is_user_visible_def metadata_default_def is_tool_response_def mc_text_def)

lemma call_turn_unanswered:
  "map tq_id (unanswered_requests call_turn) = [''r1'', ''r2'']"
  by (simp add: unanswered_requests_def call_turn_def turn_requests_def message_new_def
      mc_text_def mc_tool_request_def was_executed_externally_def meta_get_def
      turn_answered_ids_def get_tool_response_ids_def)

lemma echo_run:
  "\<exists>m w'. tool_operation_run plain_env echo_operation () call_turn quiet_world =
     (applied [AppendMessage m], w')"
  by (simp add: tool_operation_run_def call_turn_kickoff)
    (simp add: call_turn_def unanswered_requests_def turn_requests_def message_new_def
      mc_text_def mc_tool_request_def was_executed_externally_def meta_get_def
      turn_answered_ids_def get_tool_response_ids_def race_def is_cancelled_def token_fired_def
      quiet_world_def available_tools_def registered_provider_def registered_tools_def
      echo_operation_def echo_tool_def plain_tool_def pending_requests_def case_prod_beta Let_def
      applied_def)

theorem tool_operation_progress_witness:
  "\<exists>m rs. rs \<noteq> [] \<and> response_ids m = map tq_id rs \<and>
     subseq rs (unanswered_requests call_turn) \<and>
     length (unanswered_requests (call_turn @ [m])) < 2"
proof -
  from echo_run obtain m w' where
    "tool_operation_run plain_env echo_operation () call_turn quiet_world =
       (applied [AppendMessage m], w')" by blast
  from tool_operation_progress [OF this call_turn_kickoff] call_turn_unanswered
  show ?thesis by (metis length_Cons length_map list.size(3) numeral_2_eq_2)
qed

subsection \<open>Cancellation\<close>

definition interrupted_response :: "ext_env \<Rightarrow> tool_request \<Rightarrow> message_content" where
  "interrupted_response E r =
     mc_tool_response_with_metadata E (tq_id r) interrupted_result (tq_metadata r)"

lemma interrupt_all_content:
  "msg_content (interrupt_all E rs) = map (interrupted_response E) rs"
proof -
  have "msg_content (foldl (\<lambda>m r. add_tool_response_with_metadata E (tq_id r) interrupted_result
      (tq_metadata r) m) m rs) = msg_content m @ map (interrupted_response E) rs" for m
    by (induction rs arbitrary: m)
      (simp_all add: add_tool_response_with_metadata_def with_content_def interrupted_response_def)
  then show ?thesis by (simp add: interrupt_all_def message_user_def message_new_def)
qed

lemma more_emit_message: "world.more (snd (emit_message m w)) = world.more w"
  by (simp add: emit_message_def fresh_uuid_def emit_def Let_def)

text \<open>
  When the token has fired, the tool operation asks no provider (their state, the world's
  extension, is unchanged) and answers every unanswered request of the turn, in order, as
  interrupted.
\<close>

theorem tool_operation_cancelled:
  assumes "token_fired w" and "messages_since_kickoff c = Inr turn"
    and "unanswered_requests turn \<noteq> []"
  shows "\<exists>m w'. tool_operation_run E oper s c w = (applied [AppendMessage m], w') \<and>
     msg_content m = map (interrupted_response E) (unanswered_requests turn) \<and>
     world.more w' = world.more w"
  using assms more_emit_message [of _ "snd (is_cancelled w)"]
  by (simp add: tool_operation_run_def race_fired case_prod_beta Let_def interrupt_all_content)
    (simp add: is_cancelled_def applied_def interrupt_all_content)

theorem tool_operation_cancelled_witness:
  "\<exists>m w'. tool_operation_run plain_env echo_operation () call_turn fired_world =
     (applied [AppendMessage m], w') \<and> response_ids m = [''r1'', ''r2'']"
proof -
  have "unanswered_requests call_turn \<noteq> []" using call_turn_unanswered by force
  from tool_operation_cancelled [OF _ call_turn_kickoff this, of fired_world]
  obtain m w' where run: "tool_operation_run plain_env echo_operation () call_turn fired_world =
      (applied [AppendMessage m], w')"
    and m: "msg_content m = map (interrupted_response plain_env) (unanswered_requests call_turn)"
    by (fastforce simp: fired_world_def token_fired_def)
  have "filter_map response_id_of (map (interrupted_response plain_env) rs) = map tq_id rs" for rs
    by (induction rs) (simp_all add: interrupted_response_def mc_tool_response_with_metadata_def)
  with m call_turn_unanswered have "response_ids m = [''r1'', ''r2'']"
    by (simp add: response_ids_def)
  with run show ?thesis by blast
qed

end
