(* ===== verification/Conversation_Leading.thy ===== *)
theory Conversation_Leading
  imports Conversation_Props
begin

text \<open>
  What stands before the first user text of a history: through the stages of the repair up to
  \<open>fix_lead_trail\<close>, a tool call of the leading assistant message keeps its place and its
  response, and assistant messages without a call are merged into one.  \<open>fix_lead_trail\<close> then
  orphans the response in the first case, and repairs the history in the second.
\<close>

subsection \<open>A leading call\<close>

definition leads_with_call :: "string \<Rightarrow> message list \<Rightarrow> bool" where
  "leads_with_call i ms \<longleftrightarrow>
     (\<exists>m rest. ms = m # rest \<and> msg_role m = Assistant \<and> Req i \<in> set (content_events (msg_content m)))"

definition answered_in :: "string \<Rightarrow> message list \<Rightarrow> bool" where
  "answered_in i ms \<longleftrightarrow>
     (\<exists>u \<in> set ms. msg_role u = User \<and> Resp i \<in> set (content_events (msg_content u)))"

definition same_events :: "(message \<Rightarrow> message) \<Rightarrow> bool" where
  "same_events f \<longleftrightarrow> (\<forall>m. msg_role (f m) = msg_role m \<and>
     content_events (msg_content (f m)) = content_events (msg_content m))"

lemma leads_map: "same_events f \<Longrightarrow> leads_with_call i ms \<Longrightarrow> leads_with_call i (map f ms)"
  by (auto simp: leads_with_call_def same_events_def)

lemma answered_map: "same_events f \<Longrightarrow> answered_in i ms \<Longrightarrow> answered_in i (map f ms)"
  by (auto simp: answered_in_def same_events_def)

lemma request_not_empty: "Req i \<in> set (content_events (msg_content m)) \<Longrightarrow> \<not> is_empty_message m"
  using empty_message_events [of m] by auto

lemma response_not_empty: "Resp i \<in> set (content_events (msg_content m)) \<Longrightarrow> \<not> is_empty_message m"
  using empty_message_events [of m] by auto

lemma leads_remove_empty: "leads_with_call i ms \<Longrightarrow> leads_with_call i (fst (remove_empty_messages ms))"
  by (auto simp: leads_with_call_def remove_empty_messages_def request_not_empty)

lemma answered_remove_empty: "answered_in i ms \<Longrightarrow> answered_in i (fst (remove_empty_messages ms))"
  by (auto simp: answered_in_def remove_empty_messages_def response_not_empty)

lemma same_events_stages:
  "same_events merge_text_content_in_message"
  "same_events (fst \<circ> trim_assistant_message)"
  "same_events (\<lambda>m. m\<lparr>msg_content := map (fst \<circ> fix_empty_result_block E) (msg_content m)\<rparr>)"
  by (simp_all add: same_events_def merge_text_content_in_message_def content_events_foldl_push_text_item
      trim_assistant_message_def content_events_map event_of_trim event_of_fix_empty)

lemma before_tool_calling_maps:
  "before_tool_calling E ms = map (\<lambda>m. m\<lparr>msg_content := map (fst \<circ> fix_empty_result_block E) (msg_content m)\<rparr>)
     (fst (remove_empty_messages (map (fst \<circ> trim_assistant_message) (map merge_text_content_in_message ms))))"
  by (simp add: before_tool_calling_def fix_empty_tool_results_def trim_assistant_text_whitespace_def
      merge_text_content_items_def)

lemma leads_before_tool_calling:
  "leads_with_call i ms \<Longrightarrow> leads_with_call i (before_tool_calling E ms)"
  unfolding before_tool_calling_maps by (intro leads_map leads_remove_empty same_events_stages)

lemma answered_before_tool_calling: "answered_in i ms \<Longrightarrow> answered_in i (before_tool_calling E ms)"
  unfolding before_tool_calling_maps by (intro answered_map answered_remove_empty same_events_stages)

lemma requests_before_tool_calling:
  "assistant_request_ids (before_tool_calling E ms) = assistant_request_ids ms"
  by (simp add: before_tool_calling_def assistant_request_ids_fix_empty
      assistant_request_ids_remove_empty assistant_request_ids_trim assistant_request_ids_merge_text)

subsection \<open>The scan answers it\<close>

lemma scan_user_pending:
  "scan_user_content P cs = (k, P', iss) \<Longrightarrow>
     P' \<subseteq> P \<and> (Resp i \<in> set (content_events cs) \<longrightarrow> i \<notin> P')"
  by (induction P cs arbitrary: k P' iss rule: scan_user_content.induct)
    (fastforce split: message_content.splits if_splits prod.splits)+

lemma scan_assistant_pending:
  "scan_assistant_content P cs = (k, P', iss) \<Longrightarrow> P' = P \<union> set (request_ids (content_events cs))"
  by (induction P cs arbitrary: k P' iss rule: scan_assistant_content.induct)
    (auto split: message_content.splits prod.splits)

lemma scan_message_pending:
  assumes "scan_message P m = (m', P', iss)"
  shows "P' \<subseteq> P \<union> set (assistant_request_ids [m])"
    and "msg_role m = User \<Longrightarrow> Resp i \<in> set (content_events (msg_content m)) \<Longrightarrow> i \<notin> P'"
proof -
  show "P' \<subseteq> P \<union> set (assistant_request_ids [m])"
    using assms scan_user_pending scan_assistant_pending
    by (cases "msg_role m") (fastforce simp: scan_message_def assistant_request_ids_def split: prod.splits)+
  show "i \<notin> P'" if "msg_role m = User" "Resp i \<in> set (content_events (msg_content m))"
    using assms that scan_user_pending [of P "msg_content m"]
    by (auto simp: scan_message_def split: prod.splits)
qed

lemma requests_Cons:
  "set (assistant_request_ids (m # ms)) = set (assistant_request_ids [m]) \<union> set (assistant_request_ids ms)"
  by (simp add: assistant_request_ids_def)

lemma scan_messages_pending:
  "scan_messages P ms = (ms', P', iss) \<Longrightarrow> i \<notin> set (assistant_request_ids ms) \<Longrightarrow>
     (i \<in> P' \<longrightarrow> i \<in> P) \<and> (answered_in i ms \<longrightarrow> i \<notin> P')"
proof (induction ms arbitrary: P ms' P' iss)
  case Nil
  then show ?case by (simp add: answered_in_def)
next
  case (Cons m ms)
  obtain m1 P1 is1 where m: "scan_message P m = (m1, P1, is1)" by (metis prod_cases3)
  obtain ms1 P2 is2 where ms: "scan_messages P1 ms = (ms1, P2, is2)" by (metis prod_cases3)
  from Cons.prems(1) m ms have P': "P' = P2" by auto
  from Cons.prems(2) requests_Cons [of m ms]
  have i: "i \<notin> set (assistant_request_ids [m])" "i \<notin> set (assistant_request_ids ms)" by auto
  note rest = Cons.IH [OF ms i(2)]
  from scan_message_pending(1) [OF m] i(1) have "i \<in> P1 \<longrightarrow> i \<in> P" by auto
  moreover have "msg_role m = User \<Longrightarrow> Resp i \<in> set (content_events (msg_content m)) \<Longrightarrow> i \<notin> P1"
    using scan_message_pending(2) [OF m] .
  ultimately show ?case using rest P' by (auto simp: answered_in_def)
qed

lemma scan_assistant_keeps_requests:
  "scan_message P m = (m', P', iss) \<Longrightarrow> msg_role m = Assistant \<Longrightarrow>
     request_ids (content_events (msg_content m')) = request_ids (content_events (msg_content m))"
  by (auto simp: scan_message_def split: prod.splits dest: scan_assistant_content_requests)

lemma leads_fix_tool_calling:
  assumes "leads_with_call i ms" and "answered_in i ms" and "distinct (assistant_request_ids ms)"
  shows "leads_with_call i (fst (fix_tool_calling ms))"
proof -
  from assms(1) obtain m rest where ms: "ms = m # rest" "msg_role m = Assistant"
    and req: "Req i \<in> set (content_events (msg_content m))"
    by (auto simp: leads_with_call_def)
  obtain m1 P1 is1 where m: "scan_message {} m = (m1, P1, is1)" by (metis prod_cases3)
  obtain r1 P2 is2 where r: "scan_messages P1 rest = (r1, P2, is2)" by (metis prod_cases3)
  have "i \<in> set (request_ids (content_events (msg_content m)))" using req by (simp add: set_request_ids)
  with assms(3) ms have "i \<notin> set (assistant_request_ids rest)"
    by (auto simp: assistant_request_ids_def)
  moreover have "answered_in i rest" using assms(2) ms by (auto simp: answered_in_def)
  ultimately have gone: "i \<notin> P2" using scan_messages_pending [OF r] by blast
  have "Req i \<in> set (content_events (msg_content m1))"
    using scan_assistant_keeps_requests [OF m ms(2)] req set_request_ids by (metis mem_Collect_eq)
  moreover have role: "msg_role m1 = Assistant" using scan_message_events [OF m] ms(2) by simp
  ultimately have "leads_with_call i (map (drop_orphan_requests P2) (m1 # r1))"
    using gone by (auto simp: leads_with_call_def drop_orphan_requests_def content_events_filter_orphans)
  then have "leads_with_call i (fst (remove_empty_messages (map (drop_orphan_requests P2) (m1 # r1))))"
    by (rule leads_remove_empty)
  then show ?thesis by (simp add: fix_tool_calling_def ms m r case_prod_beta Let_def)
qed

lemma leads_merge_step: "leads_with_call i (fst acc) \<Longrightarrow> leads_with_call i (fst (merge_step a acc m))"
proof (cases "fst acc" rule: rev_cases)
  case (snoc ns l)
  then show "leads_with_call i (fst acc) \<Longrightarrow> ?thesis"
    by (cases ns) (auto simp: merge_step_snoc leads_with_call_def content_events_def)
qed (simp add: leads_with_call_def)

lemma leads_merge: "leads_with_call i ms \<Longrightarrow> leads_with_call i (fst (merge_consecutive_messages ms))"
proof -
  assume lead: "leads_with_call i ms"
  have "leads_with_call i (fst acc) \<Longrightarrow> leads_with_call i (fst (foldl (merge_step False) acc ns))" for acc ns
    by (induction ns arbitrary: acc) (simp_all add: leads_merge_step)
  with lead show ?thesis
    by (cases ms) (simp_all add: merge_consecutive_messages_def merge_consecutive_def merge_step_def leads_with_call_def)
qed

lemma leads_dedupe: "leads_with_call i ms \<Longrightarrow> leads_with_call i (fst (dedupe_messages seen ms))"
  by (cases ms) (auto simp: case_prod_beta leads_with_call_def dedupe_content_events)

lemma leads_after_dedupe:
  assumes "leads_with_call i ms" and "answered_in i ms" and "distinct (assistant_request_ids ms)"
  shows "leads_with_call i (after_dedupe E ms)"
  unfolding after_dedupe_def dedupe_signed_thinking_def
  by (intro leads_dedupe leads_merge leads_fix_tool_calling leads_before_tool_calling
      answered_before_tool_calling assms) (simp add: requests_before_tool_calling assms)

subsection \<open>The leading message is dropped, its response is not\<close>

lemma legal_request_ids:
  "roles_legal ms \<Longrightarrow> assistant_request_ids ms = request_ids (tool_events ms)"
proof (induction ms)
  case (Cons m ms)
  have "request_ids (content_events cs) = []" if "\<forall>c \<in> set cs. block_legal User c" for cs
    using that
  proof (induction cs)
    case (Cons c cs)
    then show ?case by (cases c) auto
  qed simp
  with Cons show ?case
    by (cases "msg_role m") (auto simp: assistant_request_ids_def roles_legal_def request_ids_def)
qed (simp add: assistant_request_ids_def)

lemma after_dedupe_requests:
  "\<exists>P. request_ids (tool_events (after_dedupe E ms)) = filter (\<lambda>i. i \<notin> P) (assistant_request_ids ms)"
proof -
  let ?ms = "before_tool_calling E ms"
  obtain ms1 P is1 where scan: "scan_messages {} ?ms = (ms1, P, is1)" by (metis prod_cases3)
  have "tool_events (after_dedupe E ms) = filter (keep_event P) (tool_events ms1)"
    using scan_messages_events [OF scan]
    by (simp add: after_dedupe_def dedupe_signed_thinking_def dedupe_messages_events merge_events
        fix_tool_calling_def scan case_prod_beta Let_def tool_events_remove_empty tool_events_drop_orphans)
  moreover have "request_ids (filter (keep_event P) es) = filter (\<lambda>i. i \<notin> P) (request_ids es)" for es
    by (induction es) (auto simp: keep_event_def request_ids_def split: tool_event.splits)
  ultimately show ?thesis
    using scan_messages_requests [OF scan] by (auto simp: requests_before_tool_calling)
qed

lemma trailing_keeps_responses:
  assumes "roles_legal ms" and "Resp i \<in> set (tool_events ms)"
  shows "Resp i \<in> set (tool_events (fst (drop_trailing_assistant ms)))"
proof (cases ms rule: rev_cases)
  case (snoc ns l)
  have "msg_role l = Assistant \<Longrightarrow> Resp i \<notin> set (content_events (msg_content l))"
    using assms(1) snoc by (intro assistant_no_responses) (auto simp: roles_legal_def)
  with assms(2) snoc show ?thesis by (auto simp: drop_trailing_assistant_def)
qed (use assms(2) in simp)

lemma trailing_prefix: "\<exists>ns. ms = fst (drop_trailing_assistant ms) @ ns"
  by (cases ms rule: rev_cases) (simp_all add: drop_trailing_assistant_def)

lemma leading_call_orphaned:
  fixes E
  assumes "leads_with_call i ms" and "answered_in i ms" and "distinct (assistant_request_ids ms)"
  defines "fixed \<equiv> fst (fix_messages E ms)"
  shows "Resp i \<in> set (tool_events fixed)" and "Req i \<notin> set (tool_events fixed)"
    and "distinct (assistant_request_ids fixed)"
proof -
  note run = after_dedupe_run [OF assms(3), of E]
  from leads_after_dedupe [OF assms(1-3), of E] obtain m rest where
    ad: "after_dedupe E ms = m # rest" "msg_role m = Assistant" "Req i \<in> set (content_events (msg_content m))"
    by (auto simp: leads_with_call_def)
  have legal: "roles_legal rest" and head: "\<forall>c \<in> set (msg_content m). block_legal Assistant c"
    using run(2) ad by (auto simp: roles_legal_def)
  have "Resp i \<in> set (tool_events (after_dedupe E ms))"
    using paired_last_no_request [of "[]" "tool_events (after_dedupe E ms)" i] run(1) ad by simp
  with ad assistant_no_responses [OF head] have resp: "Resp i \<in> set (tool_events rest)" by simp
  have dist: "distinct (request_ids (content_events (msg_content m) @ tool_events rest))"
  proof -
    obtain P where "request_ids (tool_events (after_dedupe E ms)) = filter (\<lambda>i. i \<notin> P) (assistant_request_ids ms)"
      using after_dedupe_requests by blast
    then have "distinct (request_ids (tool_events (after_dedupe E ms)))" using assms(3) by simp
    with ad show ?thesis by simp
  qed
  have req: "Req i \<notin> set (tool_events rest)"
    using dist ad(3) set_request_ids [of "tool_events rest"] set_request_ids [of "content_events (msg_content m)"]
    by (auto simp: request_ids_def)
  let ?out = "fst (drop_trailing_assistant rest)"
  have kept: "Resp i \<in> set (tool_events ?out)" using trailing_keeps_responses [OF legal resp] .
  then have "?out \<noteq> []" by auto
  then have fixed: "fixed = ?out"
    by (simp add: fixed_def fix_messages_after_dedupe fix_lead_trail_def drop_leading_assistant_def ad
        case_prod_beta populate_if_empty_def)
  with kept show "Resp i \<in> set (tool_events fixed)" by simp
  obtain ns where ns: "rest = ?out @ ns" using trailing_prefix by blast
  then have "set (tool_events ?out) \<subseteq> set (tool_events rest)" by (metis set_append sup_ge1 tool_events_simps(3))
  with req fixed show "Req i \<notin> set (tool_events fixed)" by auto
  have "roles_legal ?out" using legal ns roles_legal_append by metis
  moreover have "distinct (request_ids (tool_events ?out))"
    using dist ns by (metis (no_types) distinct_append filter_map_simps(3) request_ids_def tool_events_simps(3))
  ultimately show "distinct (assistant_request_ids fixed)" by (simp add: fixed legal_request_ids)
qed

text \<open>A response without its request does not survive the repair.\<close>

lemma orphan_removed:
  assumes "distinct (assistant_request_ids ms)" and "i \<notin> set (assistant_request_ids ms)"
  shows "Resp i \<notin> set (tool_events (fst (fix_messages E ms)))"
proof -
  obtain P where P: "request_ids (tool_events (after_dedupe E ms)) = filter (\<lambda>i. i \<notin> P) (assistant_request_ids ms)"
    using after_dedupe_requests by blast
  have none: "Req i \<notin> set (tool_events (after_dedupe E ms))"
    using set_request_ids [of "tool_events (after_dedupe E ms)"] assms(2) unfolding P by auto
  have "Resp i \<notin> set (tool_events (after_dedupe E ms))"
  proof
    assume "Resp i \<in> set (tool_events (after_dedupe E ms))"
    then obtain pre post where "tool_events (after_dedupe E ms) = pre @ Resp i # post" by (meson split_list)
    with paired_if_run [OF after_dedupe_run(1) [OF assms(1), of E]]
    have "Req i \<in> set pre" unfolding paired_def by blast
    with \<open>_ = pre @ _\<close> none show False by simp
  qed
  moreover have "\<exists>us ns. after_dedupe E ms = us @ fst (fix_lead_trail (after_dedupe E ms)) @ ns"
  proof -
    have "\<exists>us. ns = us @ fst (drop_leading_assistant ns)" for ns
      by (cases ns) (auto simp: drop_leading_assistant_def intro: exI [of _ "[]"])
    then show ?thesis using trailing_prefix by (simp add: fix_lead_trail_def case_prod_beta) metis
  qed
  then have "set (tool_events (fst (fix_lead_trail (after_dedupe E ms)))) \<subseteq> set (tool_events (after_dedupe E ms))"
    by (metis (no_types, lifting) Un_iff set_append subsetI tool_events_simps(3))
  ultimately show ?thesis
    by (auto simp: fix_messages_after_dedupe populate_if_empty_def with_text_def with_content_def
        message_user_def message_new_def mc_text_def)
qed

subsection \<open>Leading remarks\<close>

text \<open>An assistant message that calls no tool.\<close>

definition remark :: "message \<Rightarrow> bool" where
  "remark m \<longleftrightarrow> msg_role m = Assistant \<and> (\<forall>i. Req i \<notin> set (content_events (msg_content m)))"

text \<open>Remarks, all with the same flags, and then a user message with text.\<close>

definition greeted :: "message list \<Rightarrow> bool" where
  "greeted ms \<longleftrightarrow> (\<exists>pre rest. ms = pre @ rest \<and> list_all remark pre \<and> uniform_flags pre \<and> opens_with_user rest)"

lemma uniform_subset: "uniform_flags ms \<Longrightarrow> metas ns \<subseteq> metas ms \<Longrightarrow> uniform_flags ns"
  unfolding uniform_flags_def by blast

lemma uniform_metas: "metas ms = metas ns \<Longrightarrow> uniform_flags ms = uniform_flags ns"
  by (simp only: uniform_flags_def)

lemma greetedI:
  "ms = pre @ rest \<Longrightarrow> list_all remark pre \<Longrightarrow> uniform_flags pre \<Longrightarrow> opens_with_user rest \<Longrightarrow> greeted ms"
  unfolding greeted_def by blast

lemma greeted_map:
  assumes "greeted ms" and "same_events f" and "\<And>m. msg_metadata (f m) = msg_metadata m"
    and "\<And>m. has_user_text m \<Longrightarrow> has_user_text (f m)"
  shows "greeted (map f ms)"
proof -
  from assms(1) obtain pre rest where ms: "ms = pre @ rest" "list_all remark pre" "uniform_flags pre"
    "opens_with_user rest" by (auto simp: greeted_def)
  have "list_all remark (map f pre)" using ms(2) assms(2) by (auto simp: list_all_iff remark_def same_events_def)
  moreover have "uniform_flags (map f pre)"
    using ms(3) uniform_metas [OF metas_map [of f pre, OF assms(3)]] by simp
  ultimately show ?thesis
    using ms(1) opens_with_user_map [OF ms(4) assms(4)] by (intro greetedI [of _ "map f pre" "map f rest"]) simp_all
qed

lemma greeted_remove_empty: "greeted ms \<Longrightarrow> greeted (fst (remove_empty_messages ms))"
proof -
  assume "greeted ms"
  then obtain pre rest where ms: "ms = pre @ rest" "list_all remark pre" "uniform_flags pre"
    "opens_with_user rest" by (auto simp: greeted_def)
  have "uniform_flags (filter (\<lambda>m. \<not> is_empty_message m) pre)"
    using ms(3) by (rule uniform_subset) (auto simp: metas_def)
  with ms opens_remove_empty [OF ms(4)] show ?thesis
    by (intro greetedI [of _ "filter (\<lambda>m. \<not> is_empty_message m) pre" "fst (remove_empty_messages rest)"])
      (auto simp: remove_empty_messages_def list_all_iff)
qed

lemma user_text_stages:
  "has_user_text m \<Longrightarrow> has_user_text (merge_text_content_in_message m)"
  "has_user_text m \<Longrightarrow> has_user_text ((fst \<circ> trim_assistant_message) m)"
  "has_user_text m \<Longrightarrow> has_user_text (m\<lparr>msg_content := map (fst \<circ> fix_empty_result_block E) (msg_content m)\<rparr>)"
proof -
  show "has_user_text m \<Longrightarrow> has_user_text (merge_text_content_in_message m)"
    by (simp add: merge_text_content_in_message_def has_user_text_def)
  show "has_user_text m \<Longrightarrow> has_user_text ((fst \<circ> trim_assistant_message) m)"
    by (simp add: trim_assistant_message_def has_user_text_def)
  show "has_user_text m \<Longrightarrow> has_user_text (m\<lparr>msg_content := map (fst \<circ> fix_empty_result_block E) (msg_content m)\<rparr>)"
    using opens_fix_empty [of "[m]" E] by (simp add: fix_empty_tool_results_def)
qed

lemma greeted_before_tool_calling: "greeted ms \<Longrightarrow> greeted (before_tool_calling E ms)"
  unfolding before_tool_calling_maps
  by (intro greeted_map greeted_remove_empty same_events_stages user_text_stages)
    (simp_all add: merge_text_content_in_message_def trim_assistant_message_def)

lemma scan_remarks:
  assumes "list_all remark pre"
  shows "scan_messages P (pre @ rest) = (ms', P', iss) \<Longrightarrow>
    \<exists>pre' iss'. scan_messages P rest = (drop (length pre) ms', P', iss') \<and> ms' = pre' @ drop (length pre) ms' \<and>
      list_all remark pre' \<and> map msg_metadata pre' = map msg_metadata pre"
  using assms
proof (induction pre arbitrary: P ms' P' iss)
  case (Cons m pre)
  obtain m1 P1 is1 where m: "scan_message P m = (m1, P1, is1)" by (metis prod_cases3)
  obtain ms1 P2 is2 where ms: "scan_messages P1 (pre @ rest) = (ms1, P2, is2)" by (metis prod_cases3)
  from Cons.prems have rem: "remark m" "list_all remark pre" by simp_all
  have none: "request_ids (content_events (msg_content m)) = []"
    using rem(1) set_request_ids [of "content_events (msg_content m)"] by (auto simp: remark_def)
  have "P1 = P"
    using m rem(1) none by (auto simp: scan_message_def remark_def split: prod.splits dest: scan_assistant_pending)
  moreover have "remark m1"
  proof -
    have "request_ids (content_events (msg_content m1)) = []"
      using scan_assistant_keeps_requests [OF m] rem(1) none by (simp add: remark_def)
    then show ?thesis
      using scan_message_events [OF m] rem(1) set_request_ids [of "content_events (msg_content m1)"]
      by (auto simp: remark_def)
  qed
  moreover obtain pre' iss' where "scan_messages P1 rest = (drop (length pre) ms1, P2, iss')"
    "ms1 = pre' @ drop (length pre) ms1" "list_all remark pre'" "map msg_metadata pre' = map msg_metadata pre"
    using Cons.IH [OF ms rem(2)] by blast
  moreover have "ms' = m1 # ms1" "P' = P2" using Cons.prems(1) m ms by auto
  ultimately show ?case
    using scan_message_events [OF m] by (intro exI [of _ "m1 # pre'"] exI [of _ iss']) simp
qed simp

lemma drop_orphans_remark: "remark m \<Longrightarrow> remark (drop_orphan_requests P m)"
  by (auto simp: remark_def drop_orphan_requests_def content_events_filter_orphans)

lemma greeted_fix_tool_calling: "greeted ms \<Longrightarrow> greeted (fst (fix_tool_calling ms))"
proof -
  assume "greeted ms"
  then obtain pre m rest where ms: "ms = pre @ m # rest" "list_all remark pre" "uniform_flags pre"
    "has_user_text m" by (auto simp: greeted_def) (metis list.exhaust opens_with_user_Cons opens_with_user_Nil)
  obtain ms1 P is1 where scan: "scan_messages {} ms = (ms1, P, is1)" by (metis prod_cases3)
  from scan_remarks [OF ms(2) scan [unfolded ms(1)]] obtain pre' rest' is2 where
    pre': "scan_messages {} (m # rest) = (rest', P, is2)" "ms1 = pre' @ rest'" "list_all remark pre'"
    "map msg_metadata pre' = map msg_metadata pre" by blast
  obtain m1 P1 is3 where m: "scan_message {} m = (m1, P1, is3)" by (metis prod_cases3)
  obtain r1 P2 is4 where r: "scan_messages P1 rest = (r1, P2, is4)" by (metis prod_cases3)
  have "rest' = m1 # r1" using pre'(1) m r by auto
  moreover have "has_user_text m1" using scan_message_keeps_user_text [OF m ms(4)] .
  ultimately have "opens_with_user (map (drop_orphan_requests P) rest')"
    by (simp add: drop_orphan_requests_def has_user_text_def)
  moreover have "list_all remark (map (drop_orphan_requests P) pre')"
    using pre'(3) drop_orphans_remark by (auto simp: list_all_iff)
  moreover have "uniform_flags (map (drop_orphan_requests P) pre')"
  proof -
    have "metas (map (drop_orphan_requests P) pre') = metas pre'"
      by (rule metas_map) (simp add: drop_orphan_requests_def)
    also have "\<dots> = metas pre" unfolding metas_def using pre'(4) by (metis list.set_map)
    finally show ?thesis using ms(3) uniform_metas by blast
  qed
  ultimately have "greeted (map (drop_orphan_requests P) ms1)"
    using pre'(2) by (intro greetedI [of _ "map (drop_orphan_requests P) pre'" "map (drop_orphan_requests P) rest'"]) simp_all
  then show ?thesis by (simp add: fix_tool_calling_def scan case_prod_beta Let_def greeted_remove_empty)
qed

text \<open>The remarks are merged into one.\<close>

lemma merge_remarks:
  assumes "list_all remark pre" and "uniform_flags pre"
  shows "\<exists>l. length l \<le> 1 \<and> list_all remark l \<and> fst (foldl (merge_step False) ([], []) pre) = l \<and> metas l \<subseteq> metas pre"
  using assms
proof (induction pre rule: rev_induct)
  case (snoc m pre)
  have "uniform_flags pre" using snoc.prems(2) by (rule uniform_subset) (auto simp: metas_def)
  with snoc obtain l where l: "length l \<le> 1" "list_all remark l" "fst (foldl (merge_step False) ([], []) pre) = l"
    "metas l \<subseteq> metas pre" by auto
  show ?case
  proof (cases l)
    case Nil
    then have "fst (merge_step False (foldl (merge_step False) ([], []) pre) m) = [m]"
      using l(3) by (simp add: merge_step_def)
    with snoc.prems show ?thesis by (simp add: metas_def)
  next
    case (Cons a as)
    with l(1) have a: "l = [a]" by simp
    with l have "remark a" "msg_metadata a \<in> metas pre" by (auto simp: metas_def)
    moreover have "remark m" using snoc.prems(1) by simp
    moreover have "msg_metadata a \<in> metas (pre @ [m])" "msg_metadata m \<in> metas (pre @ [m])"
      using \<open>msg_metadata a \<in> metas pre\<close> by (auto simp: metas_def)
    then have "user_visible (msg_metadata a) = user_visible (msg_metadata m)"
      "turn_context (msg_metadata a) = turn_context (msg_metadata m)"
      using snoc.prems(2) unfolding uniform_flags_def by blast+
    ultimately have "mergeable False a m" by (simp add: mergeable_def remark_def effective_role_def)
    with a l(3) \<open>remark a\<close> \<open>remark m\<close> \<open>msg_metadata a \<in> metas pre\<close> show ?thesis
      using merge_step_snoc [of "foldl (merge_step False) ([], []) pre" "[]" a False m]
      by (auto simp: remark_def metas_def content_events_def)
  qed
qed (simp add: metas_def)

definition led_by_remark :: "message list \<Rightarrow> bool" where
  "led_by_remark ms \<longleftrightarrow> opens_with_user ms \<or> (\<exists>a rest. ms = a # rest \<and> remark a \<and> opens_with_user rest)"

lemma led_merge_step: "led_by_remark (fst acc) \<Longrightarrow> led_by_remark (fst (merge_step False acc m))"
proof (cases "fst acc" rule: rev_cases)
  case Nil
  then show "led_by_remark (fst acc) \<Longrightarrow> ?thesis" by (simp add: led_by_remark_def)
next
  case (snoc ns l)
  assume led: "led_by_remark (fst acc)"
  show ?thesis
  proof (cases "opens_with_user (fst acc)")
    case True
    then show ?thesis using merge_step_opens by (simp add: led_by_remark_def)
  next
    case False
    with led snoc obtain a ns' where ns: "ns = a # ns'" "remark a" "opens_with_user (ns' @ [l])"
      by (cases ns) (auto simp: led_by_remark_def)
    have "opens_with_user (fst (merge_step False (ns' @ [l], snd acc) m))"
      using merge_step_opens [of "(ns' @ [l], snd acc)" False m] ns(3) by simp
    moreover have "fst (merge_step False acc m) = a # fst (merge_step False (ns' @ [l], snd acc) m)"
      using merge_step_snoc [OF snoc, of False m] merge_step_snoc [of "(ns' @ [l], snd acc)" ns' l False m] ns(1)
      by simp
    ultimately show ?thesis using ns(2) by (auto simp: led_by_remark_def)
  qed
qed

lemma led_merge: "greeted ms \<Longrightarrow> led_by_remark (fst (merge_consecutive_messages ms))"
proof -
  assume "greeted ms"
  then obtain pre m rest where ms: "ms = pre @ m # rest" "list_all remark pre" "uniform_flags pre"
    "has_user_text m" by (auto simp: greeted_def) (metis list.exhaust opens_with_user_Cons opens_with_user_Nil)
  let ?acc = "foldl (merge_step False) ([], []) pre"
  from merge_remarks [OF ms(2,3)] have l: "length (fst ?acc) \<le> 1" "list_all remark (fst ?acc)" by auto
  have "led_by_remark (fst (merge_step False ?acc m))"
  proof (cases "fst ?acc")
    case Nil
    then show ?thesis using ms(4) by (simp add: merge_step_def led_by_remark_def)
  next
    case (Cons a as)
    with l have a: "fst ?acc = [] @ [a]" "remark a" by auto
    then have "\<not> mergeable False a m"
      using ms(4) by (auto simp: mergeable_def remark_def has_user_text_def effective_role_def)
    with a show ?thesis
      using ms(4) merge_step_snoc [OF a(1), of False m] by (simp add: led_by_remark_def)
  qed
  moreover have "led_by_remark (fst acc) \<Longrightarrow> led_by_remark (fst (foldl (merge_step False) acc ns))" for acc ns
    by (induction ns arbitrary: acc) (simp_all add: led_merge_step)
  ultimately show ?thesis by (simp add: merge_consecutive_messages_def merge_consecutive_def ms(1))
qed

lemma led_dedupe: "led_by_remark ms \<Longrightarrow> led_by_remark (fst (dedupe_messages seen ms))"
proof -
  assume "led_by_remark ms"
  then consider "opens_with_user ms" | a rest where "ms = a # rest" "remark a" "opens_with_user rest"
    by (auto simp: led_by_remark_def)
  then show ?thesis
  proof cases
    case 1
    then show ?thesis using opens_dedupe by (simp add: led_by_remark_def)
  next
    case 2
    then show ?thesis using opens_dedupe [OF 2(3)]
      by (auto simp: led_by_remark_def case_prod_beta remark_def dedupe_content_events)
  qed
qed

lemma led_after_dedupe: "greeted ms \<Longrightarrow> led_by_remark (after_dedupe E ms)"
  unfolding after_dedupe_def dedupe_signed_thinking_def
  by (intro led_dedupe led_merge greeted_fix_tool_calling greeted_before_tool_calling)

text \<open>So the repaired list opens with the user and keeps every call with its response.\<close>

lemma greeted_repair:
  assumes "greeted ms" and "distinct (assistant_request_ids ms)"
  shows "opens_with_user (fst (fix_messages E ms))"
    and "run_events {} (tool_events (fst (fix_messages E ms))) = Some {}"
    and "roles_legal (fst (fix_messages E ms))"
proof -
  note run = after_dedupe_run [OF assms(2), of E]
  let ?ns = "fst (drop_leading_assistant (after_dedupe E ms))"
  have opens: "opens_with_user ?ns"
    using led_after_dedupe [OF assms(1), of E]
    by (auto simp: led_by_remark_def drop_leading_assistant_def remark_def has_user_text_def split: list.split)
  have events: "tool_events ?ns = tool_events (after_dedupe E ms) \<and> roles_legal ?ns"
  proof (cases "opens_with_user (after_dedupe E ms)")
    case True
    with run(2) show ?thesis
      by (cases "after_dedupe E ms") (auto simp: drop_leading_assistant_def has_user_text_def)
  next
    case False
    with led_after_dedupe [OF assms(1), of E] obtain a rest where
      ad: "after_dedupe E ms = a # rest" "remark a" by (auto simp: led_by_remark_def)
    have "\<forall>c \<in> set (msg_content a). block_legal Assistant c"
      using run(2) ad by (auto simp: roles_legal_def remark_def)
    then have "content_events (msg_content a) = []"
      using assistant_no_responses ad(2) by (metis list.set_intros(1) neq_Nil_conv remark_def tool_event.exhaust)
    with ad run(2) show ?thesis
      by (simp add: drop_leading_assistant_def remark_def roles_legal_Cons_iff)
  qed
  note out = opens_lead_trail [OF opens]
  have "fst (drop_leading_assistant ?ns) = ?ns"
    using opens by (cases ?ns) (auto simp: drop_leading_assistant_def has_user_text_def)
  moreover have "fst (drop_trailing_assistant ?ns) \<noteq> []" using out by (metis opens_with_user_Nil)
  ultimately have fixed: "fst (fix_messages E ms) = fst (drop_trailing_assistant ?ns)"
    by (simp add: fix_messages_after_dedupe fix_lead_trail_def case_prod_beta populate_if_empty_def)
  with out show "opens_with_user (fst (fix_messages E ms))" by simp
  show "run_events {} (tool_events (fst (fix_messages E ms))) = Some {}"
    using drop_trailing_events [of ?ns] events run(1) by (simp add: fixed)
  show "roles_legal (fst (fix_messages E ms))"
    using events trailing_prefix [of ?ns] roles_legal_append unfolding fixed by metis
qed

subsection \<open>The orphaned response\<close>

text \<open>
  C4: A history that begins with an assistant message calling a tool, which a later user message
  answers, is not repaired by \<open>fix_messages\<close> when the requests have distinct ids: the leading
  message is dropped and its response stays without a request, so the repaired list is not
  paired, repairing it again changes it once more and validation refuses it.
\<close>

theorem fix_messages_leading_call_orphan:
  assumes "msg_role a = Assistant" and "ToolRequest r \<in> set (msg_content a)"
    and "u \<in> set rest" and "msg_role u = User"
    and "ToolResponse p \<in> set (msg_content u)" and "tr_id p = tq_id r"
    and "distinct (assistant_request_ids (a # rest))"
  shows "Resp (tq_id r) \<in> set (tool_events (fst (fix_messages E (a # rest)))) \<and>
    Req (tq_id r) \<notin> set (tool_events (fst (fix_messages E (a # rest)))) \<and>
    \<not> paired (tool_events (fst (fix_messages E (a # rest)))) \<and>
    fst (fix_messages E (fst (fix_messages E (a # rest)))) \<noteq> fst (fix_messages E (a # rest)) \<and>
    isl (conversation_new E (fst (fix_messages E (a # rest))))"
proof -
  let ?fixed = "fst (fix_messages E (a # rest))" and ?i = "tq_id r"
  have "Req ?i \<in> set (content_events (msg_content a))"
    using assms(2) by (force simp: content_events_def set_filter_map)
  then have leads: "leads_with_call ?i (a # rest)" using assms(1) by (simp add: leads_with_call_def)
  have "Resp ?i \<in> set (content_events (msg_content u))"
    using assms(5,6) by (force simp: content_events_def set_filter_map)
  then have answered: "answered_in ?i (a # rest)" using assms(3,4) by (auto simp: answered_in_def)
  note orphan = leading_call_orphaned [OF leads answered assms(7), of E]
  have "?i \<notin> set (assistant_request_ids ?fixed)"
    using orphan(2) set_request_ids by (force simp: assistant_request_ids_def tool_events_def)
  from orphan_removed [OF orphan(3) this, of E] orphan(1)
  have again: "fst (fix_messages E ?fixed) \<noteq> ?fixed" by auto
  moreover have "isl (conversation_new E ?fixed)"
    using again fix_messages_quiet [of E ?fixed] by (auto simp: conversation_new_def conv_validate_def Let_def)
  moreover have "\<not> paired (tool_events ?fixed)"
    using orphan(1,2) unfolding paired_def by (metis split_list Un_iff set_append)
  ultimately show ?thesis using orphan(1,2) by blast
qed

lemma fix_messages_leading_call_orphan_witness:
  "\<not> paired (tool_events (fst (fix_messages plain_env
     [message_new Assistant 0 [example_call ''r1''], message_new User 0 [example_result ''r1'']])))"
  using fix_messages_leading_call_orphan [of "message_new Assistant 0 [example_call ''r1'']"
      "\<lparr>tq_id = ''r1'', tq_tool_call = Inr \<lparr>ct_name = ''shell'', ct_arguments = None\<rparr>,
        tq_metadata = None, tq_tool_meta = None\<rparr>"
      "message_new User 0 [example_result ''r1'']" "[message_new User 0 [example_result ''r1'']]"
      "\<lparr>tr_id = ''r1'', tr_tool_result = Inr (call_result_success [content_text ''ok'']), tr_metadata = None\<rparr>"
      plain_env]
  by (simp add: example_call_def example_result_def mc_tool_request_def message_new_def assistant_request_ids_def)

end
