(* ===== verification/Inference_Props.thy ===== *)
theory Inference_Props
  imports Inference Tool_Operation_Props Conversation_Leading
begin

text \<open>
  Properties of inference: what the provider is sent, when the operation applies, that each
  tool request of a stream is kept once, and that a cancelled inference leaves no tool
  request of the turn without a response.
\<close>

subsection \<open>Views of the tool blocks\<close>

text \<open>
  A view reads something off the tool blocks only.  Folding chunks and moving thinking blocks
  around changes neither the requests nor the responses nor their order.
\<close>

locale tool_view =
  fixes view :: "message_content \<Rightarrow> 'a option"
  assumes view_text: "view (Text t) = None"
    and view_thinking: "view (Thinking b) = None"
    and view_redacted: "view (RedactedThinking d) = None"
begin

definition views :: "message list \<Rightarrow> 'a list" where
  "views ms = concat (map (\<lambda>m. filter_map view (msg_content m)) ms)"

lemma views_simps [simp]:
  "views [] = []"
  "views (m # ms) = filter_map view (msg_content m) @ views ms"
  "views (ms @ ns) = views ms @ views ns"
  by (simp_all add: views_def)

lemma view_merge_content:
  "filter_map view (merge_chunk_content old new) = filter_map view old @ filter_map view new"
proof (cases old rule: rev_cases)
  case Nil
  then show ?thesis by (simp add: merge_chunk_content_def)
next
  case (snoc xs l)
  show ?thesis
  proof (cases new rule: rev_cases)
    case Nil
    with snoc show ?thesis by (cases l) (simp_all add: merge_chunk_content_def split: option.split)
  next
    case (snoc ys n)
    with \<open>old = xs @ [l]\<close> show ?thesis
      by (cases l; cases n) (simp_all add: merge_chunk_content_def view_text view_thinking split: option.split)
  qed
qed

lemma views_push: "views (conv_push c m) = views c @ filter_map view (msg_content m)"
proof (cases "msg_content m = [] \<and>
    (inference (msg_metadata m) \<noteq> None \<or> output_token_limit_reached (msg_metadata m))")
  case True
  have "views ys = views c" if "update_last p (absorb_flags m) c = Some ys" for p ys
    using update_last_SomeD [OF that] by auto
  with True show ?thesis
    by (auto simp: conv_push_def Let_def with_visibility_def split: option.splits)
next
  case False
  then show ?thesis
    by (cases c rule: rev_cases) (auto simp: conv_push_def merge_chunk_def view_merge_content)
qed

lemma view_thinking_None: "is_thinking c \<Longrightarrow> view c = None"
  by (cases c) (simp_all add: view_thinking view_redacted)

lemma view_filter_thinking: "filter_map view (filter is_thinking cs) = []"
  by (induction cs) (simp_all add: view_thinking_None)

lemma view_filter_not_thinking:
  "filter_map view (filter (\<lambda>c. \<not> is_thinking c) cs) = filter_map view cs"
  by (induction cs) (simp_all add: view_thinking_None split: option.split)

lemma views_strip:
  "views (filter (\<lambda>m. msg_content m \<noteq> []) (map (strip_thinking chunk) ms)) = views ms"
proof (induction ms)
  case Nil
  then show ?case by simp
next
  case (Cons m ms)
  have "filter_map view (msg_content (strip_thinking chunk m)) = filter_map view (msg_content m)"
    by (simp add: strip_thinking_def view_filter_not_thinking)
  with Cons show ?case by auto
qed

lemma view_insert_before:
  "filter_map view ys = [] \<Longrightarrow> filter_map view (insert_before_first p ys xs) = filter_map view xs"
  by (simp add: insert_before_first_def) (metis filter_map_simps(3) takeWhile_dropWhile_id)

lemma view_prior:
  "filter_map view (concat (map (\<lambda>m. filter is_thinking (msg_content m)) ms)) = []"
  by (induction ms) (simp_all add: view_filter_thinking)

lemma views_normalize:
  assumes "normalize_tool_call_thinking acc chunk = (acc', chunk')"
  shows "views acc' = views acc \<and> filter_map view (msg_content chunk') = filter_map view (msg_content chunk)"
proof -
  have "views acc' = views acc"
    using assms by (auto simp: normalize_tool_call_thinking_def Let_def views_strip split: if_splits)
  moreover have "filter_map view (msg_content chunk') = filter_map view (msg_content chunk)"
    using assms by (auto simp: normalize_tool_call_thinking_def Let_def view_insert_before view_prior
        split: if_splits)
  ultimately show ?thesis ..
qed

end

interpretation request_view: tool_view request_id_of
  by unfold_locales simp_all

interpretation response_view: tool_view response_id_of
  by unfold_locales simp_all

lemma request_ids_all: "map tq_id (all_requests ms) = request_view.views ms"
proof -
  have "map tq_id (filter_map as_tool_request cs) = filter_map request_id_of cs" for cs
    by (induction cs) (auto split: option.splits elim!: as_tool_request.elims request_id_of.elims)
  then show ?thesis by (induction ms) (simp_all add: all_requests_def)
qed

lemma answered_ids_all: "all_answered_ids ms = set (response_view.views ms)"
  by (induction ms) (auto simp: all_answered_ids_def get_tool_response_ids_def)

subsection \<open>Cancelled requests\<close>

lemma cancel_requests_ids:
  "\<exists>new. response_ids (cancel_requests E seen answered rs m) = response_ids m @ new \<and>
     distinct new \<and> set new = (tq_id ` set rs - seen) - answered \<and>
     response_message (cancel_requests E seen answered rs m) = response_message m"
proof (induction rs arbitrary: seen answered m)
  case Nil
  then show ?case by simp
next
  case (Cons r rs)
  consider (seen) "tq_id r \<in> seen" | (old) "tq_id r \<notin> seen" "tq_id r \<in> answered"
    | (new) "tq_id r \<notin> seen" "tq_id r \<notin> answered" by blast
  then show ?case
  proof cases
    case seen
    then have "tq_id ` set (r # rs) - seen = tq_id ` set rs - seen" by auto
    with seen Cons [of seen answered m] show ?thesis by simp
  next
    case old
    then have "(tq_id ` set rs - insert (tq_id r) seen) - (answered - {tq_id r}) =
        (tq_id ` set (r # rs) - seen) - answered" by auto
    with old Cons [of "insert (tq_id r) seen" "answered - {tq_id r}" m] show ?thesis by simp
  next
    case new
    let ?m = "add_tool_response_with_metadata E (tq_id r)
      (Inr (call_result_error [content_text CANCELLED_TOOL_RESPONSE])) (tq_metadata r) m"
    from Cons [of "insert (tq_id r) seen" answered ?m] obtain ids where
      ids: "response_ids (cancel_requests E (insert (tq_id r) seen) answered rs ?m) =
          response_ids ?m @ ids" "distinct ids"
        "set ids = (tq_id ` set rs - insert (tq_id r) seen) - answered"
        "response_message (cancel_requests E (insert (tq_id r) seen) answered rs ?m) = response_message ?m"
      by blast
    with new show ?thesis by (intro exI [of _ "tq_id r # ids"]) auto
  qed
qed

lemma cancellation_response_cases:
  obtains (answered) "cancellation_response E p q = None"
      "set (request_view.views (p @ q)) \<subseteq> set (response_view.views (p @ q))"
  | (cancelled) r where "cancellation_response E p q = Some r" "response_message r"
      "distinct (response_ids r)" "response_ids r \<noteq> []"
      "set (response_ids r) = set (request_view.views (p @ q)) - set (response_view.views (p @ q))"
proof -
  let ?r = "cancel_requests E {} (all_answered_ids (p @ q)) (all_requests (p @ q)) (message_user E)"
  have ids: "tq_id ` set (all_requests (p @ q)) = set (request_view.views (p @ q))"
    using request_ids_all [of "p @ q"] by (metis set_map)
  from cancel_requests_ids [of E "{}" "all_answered_ids (p @ q)" "all_requests (p @ q)" "message_user E"]
  have r: "distinct (response_ids ?r)" "response_message ?r"
    "set (response_ids ?r) = set (request_view.views (p @ q)) - set (response_view.views (p @ q))"
    by (auto simp: ids [simplified] answered_ids_all [simplified])
  show ?thesis
  proof (cases "response_ids ?r = []")
    case True
    then have "cancellation_response E p q = None"
      by (simp add: cancellation_response_def get_tool_response_ids_list)
    with True r(3) answered show ?thesis by auto
  next
    case False
    then have "cancellation_response E p q = Some ?r"
      by (simp add: cancellation_response_def get_tool_response_ids_list)
    with False r cancelled show ?thesis by blast
  qed
qed

text \<open>
  The cancellation response answers exactly the tool requests of the turn and of the
  stream that have no response, each once; there is none when all are answered.
\<close>

theorem cancellation_response_exact:
  "(case cancellation_response E p q of
      None \<Rightarrow> set (map tq_id (all_requests (p @ q))) - all_answered_ids (p @ q) = {}
    | Some r \<Rightarrow> distinct (response_ids r) \<and> response_ids r \<noteq> [] \<and>
        set (response_ids r) = set (map tq_id (all_requests (p @ q))) - all_answered_ids (p @ q))"
  unfolding request_ids_all answered_ids_all
  by (rule cancellation_response_cases [of E p q]) auto

definition answered_accumulator ::
  "ext_env \<Rightarrow> message list \<Rightarrow> stream_end \<Rightarrow> stream_state \<Rightarrow> 'x world_scheme \<Rightarrow> conversation" where
  "answered_accumulator E turn ended st w =
     (case cancellation_response E turn (ss_accumulator st) of
        None \<Rightarrow> ss_accumulator st
      | Some r \<Rightarrow> conv_push (ss_accumulator st)
          (fst (emit_message r (if ended = StreamCancelled then w else snd (is_cancelled w)))))"

lemma finish_stream_kept:
  assumes "ended = StreamCancelled \<or> ended = StreamDone \<and> token_fired w"
    and "\<not> (ended \<noteq> StreamCancelled \<and> is_empty_response (answered_accumulator E turn ended st w))"
  shows "fst (finish_stream E F turn effs ended st w) = applied (effs @ usage_effects F st @
     map (ie_message F) (answered_accumulator E turn ended st w))"
  using assms
  by (cases "cancellation_response E turn (ss_accumulator st)")
    (auto simp: finish_stream_def answered_accumulator_def case_prod_beta Let_def)

lemma finish_stream_blank:
  fixes w :: "'x world_scheme"
  assumes "ended = StreamDone" "token_fired w"
    and "is_empty_response (answered_accumulator E turn ended st w)"
  shows "\<exists>v :: 'x world_scheme. fst (finish_stream E F turn effs ended st w) = yielded_with (effs @
     usage_effects F st @ [ie_message F
       (fst (emit_message (with_text E EMPTY_RESPONSE_MESSAGE (message_assistant E)) v))])"
  using assms
  by (cases "cancellation_response E turn (ss_accumulator st)")
    (auto simp: finish_stream_def answered_accumulator_def case_prod_beta Let_def)

lemma finish_stream_acc:
  fixes w :: "'x world_scheme"
  assumes "ended = StreamCancelled \<or> ended = StreamDone \<and> token_fired w"
    and "finish_stream E F turn effs ended st w = (Inr (Applied res), w')"
  obtains (kept) acc where "sr_effects res = effs @ usage_effects F st @ map (ie_message F) acc"
      "set (request_view.views (turn @ acc)) \<subseteq> set (response_view.views (turn @ acc))"
  | (blank) m where "sr_effects res = effs @ usage_effects F st @ [ie_message F m]"
      "request_view.views [m] = []"
      "set (request_view.views turn) \<subseteq> set (response_view.views turn)"
proof -
  let ?acc0 = "ss_accumulator st"
  define acc where "acc = answered_accumulator E turn ended st w"
  have res: "fst (finish_stream E F turn effs ended st w) = Inr (Applied res)"
    using assms(2) by simp
  have all: "set (request_view.views (turn @ acc)) \<subseteq> set (response_view.views (turn @ acc))"
  proof (cases rule: cancellation_response_cases [of E turn ?acc0])
    case answered
    then show ?thesis by (simp add: acc_def answered_accumulator_def)
  next
    case (cancelled r)
    have "filter_map request_id_of (msg_content r) = []"
      using response_message_no_requests [OF cancelled(2)] request_ids_all [of "[r]"]
      by (simp add: all_requests_def)
    with cancelled show ?thesis
      by (auto simp: acc_def answered_accumulator_def request_view.views_push
          response_view.views_push response_ids_def)
  qed
  show ?thesis
  proof (cases "ended \<noteq> StreamCancelled \<and> is_empty_response acc")
    case True
    have blank: "filter_map request_id_of cs = [] \<and> filter_map response_id_of cs = []"
      if "list_all is_blank_block cs" for cs
      using that by (induction cs) (auto elim!: is_blank_block.elims)
    from True have "list_all (\<lambda>m. list_all is_blank_block (msg_content m)) acc"
      by (simp add: is_empty_response_def)
    then have "request_view.views acc = [] \<and> response_view.views acc = []"
      by (induction acc) (simp_all add: blank)
    moreover have "\<exists>v :: 'x world_scheme. sr_effects res = effs @ usage_effects F st @ [ie_message F
        (fst (emit_message (with_text E EMPTY_RESPONSE_MESSAGE (message_assistant E)) v))]"
      using assms(1) True finish_stream_blank [of ended w E turn st F effs] res
      by (auto simp: acc_def yielded_with_def)
    ultimately show ?thesis
      using all that(2) by (auto simp: with_text_def with_content_def
          message_assistant_def message_new_def)
  next
    case False
    then have "sr_effects res = effs @ usage_effects F st @ map (ie_message F) acc"
      using finish_stream_kept [OF assms(1), of E turn st F effs] res
      by (simp add: acc_def applied_def)
    with all show ?thesis by (intro that(1))
  qed
qed

text \<open>
  When a stream ends because the token fired, or the token has fired by its end, the
  messages the inference appends leave no tool request of the turn without a response.
\<close>

theorem cancelled_stream_answered:
  assumes "ended = StreamCancelled \<or> ended = StreamDone \<and> token_fired w"
    and "finish_stream E F turn effs ended st w = (Inr (Applied res), w')"
  shows "\<exists>acc. sr_effects res = effs @ usage_effects F st @ map (ie_message F) acc \<and>
     set (map tq_id (all_requests (turn @ acc))) \<subseteq> all_answered_ids (turn @ acc)"
  unfolding request_ids_all answered_ids_all
proof (rule finish_stream_acc [OF assms], goal_cases)
  case (1 acc)
  then show ?case by blast
next
  case (2 m)
  then show ?case by (intro exI [of _ "[m]"]) auto
qed

text \<open>Effects that only record the messages.\<close>

definition message_effect :: "message option inference_effect" where
  "message_effect = \<lparr>ie_message = Some, ie_usage = (\<lambda>u. None)\<rparr>"

theorem cancelled_stream_answered_witness:
  "\<exists>acc. set (map tq_id (all_requests (call_turn @ acc))) \<subseteq> all_answered_ids (call_turn @ acc)"
proof -
  let ?st = "\<lparr>ss_accumulator = [], ss_request_ids = {}, ss_usage = None\<rparr>"
  obtain res w' where "finish_stream plain_env message_effect call_turn [] StreamCancelled ?st fired_world =
      (Inr (Applied res), w')"
    by (simp add: finish_stream_def applied_def case_prod_beta Let_def)
  from cancelled_stream_answered [OF _ this] show ?thesis by blast
qed

subsection \<open>The stream\<close>

lemma retain_new_requests_ids:
  "distinct (filter_map request_id_of (fst (retain_new_requests ids cs))) \<and>
   set (filter_map request_id_of (fst (retain_new_requests ids cs))) =
     set (filter_map request_id_of cs) - ids \<and>
   snd (retain_new_requests ids cs) = ids \<union> set (filter_map request_id_of cs)"
proof (induction cs arbitrary: ids)
  case Nil
  then show ?case by simp
next
  case (Cons c cs)
  show ?case
  proof (cases c)
    case (ToolRequest r)
    with Cons [of "insert (tq_id r) ids"] Cons [of ids] show ?thesis
      by (auto simp: case_prod_beta Let_def insert_absorb)
  qed (use Cons [of ids] in \<open>simp_all add: case_prod_beta Let_def\<close>)
qed

definition once_only :: "stream_state \<Rightarrow> bool" where
  "once_only st \<longleftrightarrow> distinct (request_view.views (ss_accumulator st)) \<and>
     set (request_view.views (ss_accumulator st)) = ss_request_ids st"

lemma absorb_usage_fields [simp]:
  "ss_accumulator (absorb_usage u st) = ss_accumulator st"
  "ss_request_ids (absorb_usage u st) = ss_request_ids st"
  by (simp_all add: absorb_usage_def split: option.split)

lemma with_inference_content [simp]: "msg_content (with_inference_if_assistant i m) = msg_content m"
  by (simp add: with_inference_if_assistant_def with_inference_def)

lemma absorb_chunk_ids:
  "ss_request_ids (fst (absorb_chunk inf_md st chunk w)) =
     ss_request_ids st \<union> set (filter_map request_id_of (msg_content chunk))"
  "request_view.views (ss_accumulator (fst (absorb_chunk inf_md st chunk w))) =
     request_view.views (ss_accumulator st) @
     filter_map request_id_of (fst (retain_new_requests (ss_request_ids st) (msg_content chunk)))"
proof -
  let ?kept = "fst (retain_new_requests (ss_request_ids st) (msg_content chunk))"
  let ?chunk = "(with_inference_if_assistant inf_md chunk)\<lparr>msg_content := ?kept\<rparr>"
  obtain acc chunk' where norm:
    "normalize_tool_call_thinking (ss_accumulator st) ?chunk = (acc, chunk')" by fastforce
  note views = request_view.views_normalize [OF norm]
  show "ss_request_ids (fst (absorb_chunk inf_md st chunk w)) =
      ss_request_ids st \<union> set (filter_map request_id_of (msg_content chunk))"
    using norm retain_new_requests_ids [of "ss_request_ids st" "msg_content chunk"]
    by (simp add: absorb_chunk_def case_prod_beta Let_def)
  show "request_view.views (ss_accumulator (fst (absorb_chunk inf_md st chunk w))) =
      request_view.views (ss_accumulator st) @ filter_map request_id_of ?kept"
    using norm views
    by (auto simp: absorb_chunk_def case_prod_beta Let_def request_view.views_push)
qed

lemma absorb_chunk_once:
  "once_only st \<Longrightarrow> once_only (fst (absorb_chunk inf_md st chunk w))"
  using retain_new_requests_ids [of "ss_request_ids st" "msg_content chunk"]
  by (auto simp: once_only_def absorb_chunk_ids)

fun item_messages :: "stream_item \<Rightarrow> message list" where
  "item_messages (Inr (Some m, u)) = [m]"
| "item_messages _ = []"

lemma stream_loop_once:
  assumes "once_only st"
  shows "\<exists>n. once_only (snd (fst (stream_loop inf_md items st w))) \<and>
     ss_request_ids (snd (fst (stream_loop inf_md items st w))) =
       ss_request_ids st \<union> set (request_view.views (concat (map item_messages (take n items)))) \<and>
     (fst (fst (stream_loop inf_md items st w)) = StreamDone \<and> n = length items \<or>
      fst (fst (stream_loop inf_md items st w)) \<in> insert StreamCancelled (range StreamError))"
  using assms
proof (induction items arbitrary: st w)
  case Nil
  then show ?case
    by (subst (1 2 3 4) stream_loop.simps) (simp add: case_prod_beta Let_def)
next
  case (Cons item items)
  show ?case
  proof (cases "token_fired w")
    case True
    with Cons.prems show ?thesis
      by (subst (1 2 3 4) stream_loop.simps) (auto simp: case_prod_beta Let_def intro!: exI [of _ 0])
  next
    case False
    note step = False stream_loop.simps [of inf_md "item # items" st w]
    show ?thesis
    proof (cases item)
      case (Inl err)
      with step Cons.prems show ?thesis
        by (auto simp: case_prod_beta Let_def intro!: exI [of _ 0])
    next
      case (Inr mu)
      then obtain msg u where item: "item = Inr (msg, u)" by (cases mu) simp
      let ?st1 = "absorb_usage u st"
      have once1: "once_only ?st1" using Cons.prems by (simp add: once_only_def)
      show ?thesis
      proof (cases msg)
        case None
        obtain n where "once_only (snd (fst (stream_loop inf_md items ?st1 (snd (is_cancelled w))))) \<and>
            ss_request_ids (snd (fst (stream_loop inf_md items ?st1 (snd (is_cancelled w))))) =
              ss_request_ids ?st1 \<union> set (request_view.views (concat (map item_messages (take n items)))) \<and>
            (fst (fst (stream_loop inf_md items ?st1 (snd (is_cancelled w)))) = StreamDone \<and> n = length items \<or>
             fst (fst (stream_loop inf_md items ?st1 (snd (is_cancelled w)))) \<in> insert StreamCancelled (range StreamError))"
          using Cons.IH [OF once1, of "snd (is_cancelled w)"] by blast
        with step item None show ?thesis
          by (intro exI [of _ "Suc n"]) (simp add: case_prod_beta Let_def)
      next
        case (Some chunk)
        let ?ab = "absorb_chunk inf_md ?st1 chunk (snd (is_cancelled w))"
        let ?rest = "stream_loop inf_md items (fst ?ab) (snd ?ab)"
        obtain n where "once_only (snd (fst ?rest)) \<and>
            ss_request_ids (snd (fst ?rest)) = ss_request_ids (fst ?ab) \<union>
              set (request_view.views (concat (map item_messages (take n items)))) \<and>
            (fst (fst ?rest) = StreamDone \<and> n = length items \<or>
             fst (fst ?rest) \<in> insert StreamCancelled (range StreamError))"
          using Cons.IH [OF absorb_chunk_once [OF once1], of inf_md chunk "snd (is_cancelled w)" "snd ?ab"]
          by blast
        with step item Some show ?thesis
          by (intro exI [of _ "Suc n"])
            (simp add: case_prod_beta Let_def absorb_chunk_ids Un_assoc)
      qed
    qed
  qed
qed

text \<open>
  Each tool request id enters the accumulated messages once, however often the provider
  streams it, and none of the items that were read is lost: the ids are those of a prefix of
  the stream, of all of it when the stream was read to its end.
\<close>

theorem stream_requests_once:
  "(case stream_loop inf_md items \<lparr>ss_accumulator = [], ss_request_ids = {}, ss_usage = None\<rparr> w of
      ((ended, st), w') \<Rightarrow>
        distinct (map tq_id (all_requests (ss_accumulator st))) \<and>
        (\<exists>n. set (map tq_id (all_requests (ss_accumulator st))) =
               set (map tq_id (all_requests (concat (map item_messages (take n items))))) \<and>
             (ended = StreamDone \<and> n = length items \<or>
              ended \<in> insert StreamCancelled (range StreamError))))"
proof -
  let ?st = "\<lparr>ss_accumulator = [], ss_request_ids = {}, ss_usage = None\<rparr>"
  have "once_only ?st" by (simp add: once_only_def)
  from stream_loop_once [OF this, of inf_md items w] show ?thesis
    unfolding request_ids_all by (fastforce simp: once_only_def split: prod.split)
qed

subsection \<open>When the operation applies\<close>

lemma finish_stream_applied: "\<exists>res. fst (finish_stream E F turn effs ended st w) = Inr (Applied res)"
  by (cases ended) (simp_all add: finish_stream_def case_prod_beta Let_def applied_def yielded_with_def)

text \<open>
  When the request can be prepared, an inference produces a result exactly when
  \<open>applies\<close> says so, which the machine asks before it collects the input.
\<close>

theorem infer_applied_iff:
  assumes "\<And>v. \<exists>q v'. ir_prepare R s c input v = (Inr q, v')"
  shows "(\<exists>res w'. infer E F R s c input w = (Inr (Applied res), w')) \<longleftrightarrow> inference_applies c"
proof (cases "inference_applies c")
  case True
  then obtain turn where turn: "messages_since_kickoff c = Inr turn" "trailing_error c = None"
    "ends_with_provider_turn (messages_for_provider c turn)"
    by (auto simp: inference_applies_def split: sum.splits)
  obtain q v where prep: "ir_prepare R s c input w = (Inr q, v)" using assms by blast
  have "\<exists>res. fst (infer E F R s c input w) = Inr (Applied res)"
    using turn prep finish_stream_applied [of E F turn]
    by (auto simp: infer_def try_bind_def Let_def case_prod_beta applied_def
        split: prod.split sum.split)
  then show ?thesis using True by (metis prod.collapse)
next
  case False
  then have "\<And>res. fst (infer E F R s c input w) \<noteq> Inr (Applied res)"
    by (auto simp: infer_def inference_applies_def not_applicable_def split: sum.splits)
  then show ?thesis using False by (metis fst_conv)
qed

definition still_provider :: "'x provider" where
  "still_provider = \<lparr>pv_name = ''p'', pv_stream = (\<lambda>p ms ts w. (Inr [], w)),
     pv_resume = (\<lambda>sid w. (Inr (), w)), pv_resolved_model = (\<lambda>m w. (None, w)),
     pv_session_id = (\<lambda>w. (None, w))\<rparr>"

definition still_runner :: "(unit, 'x) inference_runner" where
  "still_runner = \<lparr>ir_provider = still_provider, ir_model_name = ''m'', ir_prepare = identity_prepare\<rparr>"

theorem infer_applied_iff_witness:
  "\<exists>res w'. infer plain_env message_effect still_runner () [message_new User 0 [mc_text ''go'']]
     inference_input_default quiet_world = (Inr (Applied res), w')"
  by (subst infer_applied_iff)
    (simp_all add: still_runner_def identity_prepare_def inference_applies_def
      messages_since_kickoff_def is_kickoff_def message_new_def is_user_visible_def
      metadata_default_def is_tool_response_def mc_text_def trailing_error_def error_kind_def
      messages_for_provider_def ends_with_provider_turn_def is_agent_visible_def
      enumerate_eq_zip project_earlier_def agent_visible_content_def audience_allows_def
      audience_of_def text_content_new_def last_opt_def effective_role_def has_tool_response_def)

subsection \<open>What the provider is sent\<close>

lemma request_messages_fixed:
  "agent_visible_messages ms \<noteq> [] \<Longrightarrow> request_messages E ms =
     merge_consecutive_messages_for_request (fst (fix_messages E (agent_visible_messages ms)))"
proof -
  assume some: "agent_visible_messages ms \<noteq> []"
  have visible: "\<forall>m \<in> set (agent_visible_messages ms). agent_visible (msg_metadata m)"
    by (auto simp: agent_visible_messages_def agent_visible_content_def)
  from fix_conversation_visible [OF this some] show ?thesis by (simp add: request_messages_def)
qed

text \<open>
  C13: What the provider is asked with alternates strictly in effective role.  If moreover the
  requests of the visible conversation have distinct ids and before its first user text there
  are at most assistant messages that call no tool and have the same flags, then such messages
  are dropped: the first message is the user's and has text, every tool response follows a
  request with its id, every request is followed by its response, and no block stands under the
  wrong role.
\<close>

theorem request_messages_wellformed:
  assumes "agent_visible_messages ms = greeting @ rest"
    and "list_all remark greeting" and "uniform_flags greeting" and "opens_with_user rest"
    and "distinct (assistant_request_ids (greeting @ rest))"
  shows "alternating (request_messages E ms) \<and> paired (tool_events (request_messages E ms)) \<and>
     roles_legal (request_messages E ms) \<and> opens_with_user (request_messages E ms)"
proof -
  let ?fixed = "fst (fix_messages E (agent_visible_messages ms))"
  have some: "agent_visible_messages ms \<noteq> []" using assms(1,4) by auto
  have "greeted (agent_visible_messages ms)" using assms(1-4) by (rule greetedI)
  note repair = greeted_repair [OF this assms(5) [folded assms(1)], of E]
  have sent: "request_messages E ms = fst (foldl (merge_step True) ([], []) ?fixed)"
    using request_messages_fixed [OF some]
    by (simp add: merge_consecutive_messages_for_request_def merge_consecutive_def)
  have "alternating (request_messages E ms)"
    unfolding sent by (rule foldl_merge_alternating) (simp_all add: alternating_def)
  moreover have "tool_events (request_messages E ms) = tool_events ?fixed"
    unfolding sent using foldl_merge_events [of True "([], [])" ?fixed] by simp
  moreover have "roles_legal (request_messages E ms)"
    unfolding sent using repair(3) foldl_merge_legal [of "([], [])" ?fixed True]
    by (simp add: roles_legal_def)
  moreover have "opens_with_user (request_messages E ms)"
    using opens_merge_consecutive [OF repair(1), of True] sent by (simp add: merge_consecutive_def)
  ultimately show ?thesis using paired_if_run [OF repair(2)] by simp
qed

definition greeted_chat :: "message list" where
  "greeted_chat = message_new Assistant 0 [mc_text ''What can I do for you?''] # example_chat"

theorem request_messages_wellformed_witness:
  "opens_with_user (request_messages plain_env greeted_chat) \<and>
   paired (tool_events (request_messages plain_env greeted_chat))"
proof -
  have "agent_visible_messages greeted_chat =
      [message_new Assistant 0 [mc_text ''What can I do for you?'']] @ example_chat"
    by (simp add: agent_visible_messages_def greeted_chat_def example_defs metadata_default_def
        agent_visible_content_def audience_allows_def audience_of_def)
  moreover have "list_all remark [message_new Assistant 0 [mc_text ''What can I do for you?'']]"
    by (simp add: remark_def example_defs)
  moreover have "uniform_flags [message_new Assistant 0 [mc_text ''What can I do for you?'']]"
    by (simp add: uniform_flags_def metas_def)
  moreover have "opens_with_user example_chat" by (simp add: example_defs has_user_text_def)
  moreover have "distinct (assistant_request_ids
      ([message_new Assistant 0 [mc_text ''What can I do for you?'']] @ example_chat))"
    by (simp add: example_defs assistant_request_ids_def)
  ultimately show ?thesis using request_messages_wellformed by blast
qed

end
