(* ===== verification/Permissions.thy ===== *)
theory Permissions
  imports Keyed_Store Operation
begin

text \<open>
  \<open>crates/aibuddy/src/config/permission.rs\<close>: the permission manager, a map from a category
  (the user's own decisions, the remembered smart approvals) to the lists of tools allowed,
  to be asked for, and denied.  Every change reads the file again under a lock, so a change
  made by another process is kept.  The file is its map: the YAML text and the lock are not
  modelled, a corrupted file (which panics) is excluded.
\<close>

subsection \<open>The manager\<close>

datatype permission_level = LevelAlwaysAllow | LevelAskBefore | LevelNeverAllow

record permission_config =
  always_allow :: "string list"
  ask_before :: "string list"
  never_allow :: "string list"

type_synonym permission_map = "string \<Rightarrow> permission_config option"

record permission_manager =
  pm_memory :: permission_map
  pm_file :: "permission_map option"

definition permission_config_default :: permission_config where
  "permission_config_default = \<lparr>always_allow = [], ask_before = [], never_allow = []\<rparr>"

definition USER_PERMISSION :: string where "USER_PERMISSION = ''user''"
definition SMART_APPROVE_PERMISSION :: string where
  "SMART_APPROVE_PERMISSION = ''smart_approve''"

definition permission_manager_new :: "permission_map option \<Rightarrow> permission_manager" where
  "permission_manager_new file = \<lparr>pm_memory = unwrap_or file (\<lambda>_. None), pm_file = file\<rparr>"

definition mutate_permission_map ::
  "(permission_map \<Rightarrow> permission_map) \<Rightarrow> permission_manager \<Rightarrow> permission_manager" where
  "mutate_permission_map f pm =
     (let latest = f (unwrap_or (pm_file pm) (\<lambda>_. None))
      in \<lparr>pm_memory = latest, pm_file = Some latest\<rparr>)"

definition level_in :: "permission_config \<Rightarrow> string \<Rightarrow> permission_level option" where
  "level_in c p =
     (if p \<in> set (never_allow c) then Some LevelNeverAllow
      else if p \<in> set (always_allow c) then Some LevelAlwaysAllow
      else if p \<in> set (ask_before c) then Some LevelAskBefore
      else None)"

definition map_permission :: "string \<Rightarrow> permission_map \<Rightarrow> string \<Rightarrow> permission_level option" where
  "map_permission cat m p = (case m cat of Some c \<Rightarrow> level_in c p | None \<Rightarrow> None)"

definition get_permission ::
  "string \<Rightarrow> permission_manager \<Rightarrow> string \<Rightarrow> permission_level option" where
  "get_permission cat pm p = map_permission cat (pm_memory pm) p"

definition get_user_permission :: "permission_manager \<Rightarrow> string \<Rightarrow> permission_level option" where
  "get_user_permission pm p = get_permission USER_PERMISSION pm p"

definition get_smart_approve_permission ::
  "permission_manager \<Rightarrow> string \<Rightarrow> permission_level option" where
  "get_smart_approve_permission pm p = get_permission SMART_APPROVE_PERMISSION pm p"

definition forget_principal :: "(string \<Rightarrow> bool) \<Rightarrow> permission_config \<Rightarrow> permission_config" where
  "forget_principal q c =
     \<lparr>always_allow = filter (\<lambda>p. \<not> q p) (always_allow c),
      ask_before = filter (\<lambda>p. \<not> q p) (ask_before c),
      never_allow = filter (\<lambda>p. \<not> q p) (never_allow c)\<rparr>"

fun add_principal :: "string \<Rightarrow> permission_level \<Rightarrow> permission_config \<Rightarrow> permission_config" where
  "add_principal p LevelAlwaysAllow c = c\<lparr>always_allow := always_allow c @ [p]\<rparr>"
| "add_principal p LevelAskBefore c = c\<lparr>ask_before := ask_before c @ [p]\<rparr>"
| "add_principal p LevelNeverAllow c = c\<lparr>never_allow := never_allow c @ [p]\<rparr>"

definition set_level :: "string \<Rightarrow> permission_level \<Rightarrow> permission_config \<Rightarrow> permission_config" where
  "set_level p l c = add_principal p l (forget_principal (\<lambda>q. q = p) c)"

definition set_map_level ::
  "string \<Rightarrow> string \<times> permission_level \<Rightarrow> permission_map \<Rightarrow> permission_map" where
  "set_map_level cat entry m =
     m(cat \<mapsto> set_level (fst entry) (snd entry) (unwrap_or (m cat) permission_config_default))"

definition update_permission ::
  "string \<Rightarrow> string \<Rightarrow> permission_level \<Rightarrow> permission_manager \<Rightarrow> permission_manager" where
  "update_permission cat p l pm = mutate_permission_map (set_map_level cat (p, l)) pm"

definition update_user_permission ::
  "string \<Rightarrow> permission_level \<Rightarrow> permission_manager \<Rightarrow> permission_manager" where
  "update_user_permission p l pm = update_permission USER_PERMISSION p l pm"

definition update_smart_approve_permission ::
  "string \<Rightarrow> permission_level \<Rightarrow> permission_manager \<Rightarrow> permission_manager" where
  "update_smart_approve_permission p l pm = update_permission SMART_APPROVE_PERMISSION p l pm"

definition bulk_update_smart_approve_permissions ::
  "string list \<Rightarrow> permission_level \<Rightarrow> permission_manager \<Rightarrow> permission_manager" where
  "bulk_update_smart_approve_permissions ps l pm =
     mutate_permission_map (\<lambda>m. m(SMART_APPROVE_PERMISSION \<mapsto>
       foldl (\<lambda>c p. set_level p l c)
         (unwrap_or (m SMART_APPROVE_PERMISSION) permission_config_default) ps)) pm"

text \<open>The \<open>read_only_hint\<close> of a tool's annotations.\<close>

definition read_only_hint :: "tool \<Rightarrow> bool option" where
  "read_only_hint t =
     Option.bind (tl_annotations t) (\<lambda>a. Option.bind (json_get a ''readOnlyHint'') json_as_bool)"

definition pm_apply_tool_annotations :: "tool list \<Rightarrow> permission_manager \<Rightarrow> permission_manager" where
  "pm_apply_tool_annotations tools pm =
     (let write_annotated = map tl_name (filter (\<lambda>t. read_only_hint t = Some False) tools) in
      if write_annotated \<noteq> []
      then bulk_update_smart_approve_permissions write_annotated LevelAskBefore pm
      else pm)"

definition belongs_to_extension :: "string \<Rightarrow> string \<Rightarrow> bool" where
  "belongs_to_extension p ext \<longleftrightarrow>
     ext \<noteq> [] \<and> is_some_and (strip_prefix ext p) (\<lambda>suffix. starts_with suffix ''__'')"

definition remove_extension :: "string \<Rightarrow> permission_manager \<Rightarrow> permission_manager" where
  "remove_extension ext pm =
     mutate_permission_map
       (\<lambda>m cat. map_option (forget_principal (\<lambda>p. belongs_to_extension p ext)) (m cat)) pm"

definition clear_permissions :: "permission_manager \<Rightarrow> permission_manager" where
  "clear_permissions pm = mutate_permission_map (\<lambda>m _. None) pm"

subsection \<open>Each category is a keyed store\<close>

lemma level_in_set_level: "level_in (set_level p l c) q = (if q = p then Some l else level_in c q)"
  by (cases l) (auto simp: level_in_def set_level_def forget_principal_def)

definition map_entry :: "string \<Rightarrow> permission_map \<Rightarrow> string \<Rightarrow> (string \<times> permission_level) option" where
  "map_entry cat m p = map_option (Pair p) (map_permission cat m p)"

lemma level_in_default [simp]: "level_in permission_config_default p = None"
  by (simp add: level_in_def permission_config_default_def)

lemma map_permission_set:
  "map_permission cat' (set_map_level cat (p, l) m) q =
     (if cat' = cat \<and> q = p then Some l else map_permission cat' m q)"
  by (cases "m cat") (auto simp: map_permission_def set_map_level_def level_in_set_level)

interpretation user_permissions: keyed_store
  "set_map_level USER_PERMISSION" "map_entry USER_PERMISSION" fst
  by unfold_locales (auto simp: map_entry_def map_permission_set split_paired_all)

interpretation smart_permissions: keyed_store
  "set_map_level SMART_APPROVE_PERMISSION" "map_entry SMART_APPROVE_PERMISSION" fst
  by unfold_locales (auto simp: map_entry_def map_permission_set split_paired_all)

definition file_map :: "permission_manager \<Rightarrow> permission_map" where
  "file_map pm = unwrap_or (pm_file pm) (\<lambda>_. None)"

lemma mutate_permission_map_maps [simp]:
  "pm_memory (mutate_permission_map f pm) = f (file_map pm)"
  "file_map (mutate_permission_map f pm) = f (file_map pm)"
  by (simp_all add: mutate_permission_map_def file_map_def Let_def)

lemma categories_differ [simp]:
  "USER_PERMISSION \<noteq> SMART_APPROVE_PERMISSION" "SMART_APPROVE_PERMISSION \<noteq> USER_PERMISSION"
  by (simp_all add: USER_PERMISSION_def SMART_APPROVE_PERMISSION_def)

lemma map_permission_bulk:
  "map_permission cat
     (m(SMART_APPROVE_PERMISSION \<mapsto> foldl (\<lambda>c p. set_level p l c)
        (unwrap_or (m SMART_APPROVE_PERMISSION) permission_config_default) ps)) q =
   (if cat = SMART_APPROVE_PERMISSION \<and> q \<in> set ps then Some l else map_permission cat m q)"
proof -
  have "level_in (foldl (\<lambda>c p. set_level p l c) c ps) q =
      (if q \<in> set ps then Some l else level_in c q)" for c
    by (induction ps arbitrary: c) (simp_all add: level_in_set_level)
  then show ?thesis by (cases "m SMART_APPROVE_PERMISSION") (auto simp: map_permission_def)
qed

text \<open>
  After the user's decision on a tool is stored, it is the one looked up; every other
  decision of both categories is the one the file held when the change was made, so changes
  that another process wrote to the file in between survive.
\<close>

theorem update_user_permission_lookup:
  "get_user_permission (update_user_permission p l pm) q =
     (if q = p then Some l else map_permission USER_PERMISSION (file_map pm) q) \<and>
   get_smart_approve_permission (update_user_permission p l pm) q =
     map_permission SMART_APPROVE_PERMISSION (file_map pm) q \<and>
   file_map (update_user_permission p l pm) = pm_memory (update_user_permission p l pm)"
  by (simp add: get_user_permission_def get_smart_approve_permission_def get_permission_def
      update_user_permission_def update_permission_def map_permission_set)

lemma level_in_forget:
  "level_in (forget_principal q c) p = (if q p then None else level_in c p)"
  by (simp add: level_in_def forget_principal_def)

lemma belongs_to_extension_iff: "belongs_to_extension p ext \<longleftrightarrow> ext \<noteq> [] \<and> prefix (ext @ ''__'') p"
  by (auto simp: belongs_to_extension_def is_some_and_iff strip_prefix_Some_iff starts_with_iff
      prefix_def)

text \<open>
  Removing an extension forgets, in both categories, the decisions on exactly the tools
  whose name is prefixed with the extension's name and the separator.
\<close>

theorem remove_extension_lookup:
  "get_permission cat (remove_extension ext pm) p =
     (if ext \<noteq> [] \<and> prefix (ext @ ''__'') p then None else map_permission cat (file_map pm) p)"
  by (auto simp: get_permission_def remove_extension_def map_permission_def level_in_forget
      belongs_to_extension_iff split: option.splits)

end
