(* ===== verification/Tool_Inspection.thy ===== *)
theory Tool_Inspection
  imports Permissions Message_Props
begin

text \<open>
  \<open>crates/aibuddy/src/tool_inspection.rs\<close>, \<open>permission/permission_inspector.rs\<close>,
  \<open>permission/permission_judge.rs\<close> and \<open>tool_monitor.rs\<close>: before tools run, every inspector
  looks at the pending requests; the permission inspector's verdicts are the baseline and
  the others can only tighten them.  The model that judges which requests only read is a
  parameter.  A confidence is an \<open>f32\<close> bit pattern.
\<close>

subsection \<open>Data\<close>

datatype aibuddy_mode = ModeAuto | ModeApprove | ModeSmartApprove | ModeChat

datatype inspection_action = Allow | Deny | RequireApproval "string option"

record inspection_result =
  ins_request_id :: string
  ins_action :: inspection_action
  ins_reason :: string
  ins_confidence :: "32 word"
  ins_inspector :: string
  ins_finding_id :: "string option"

record permission_check_result =
  pc_approved :: "tool_request list"
  pc_needs_approval :: "tool_request list"
  pc_denied :: "tool_request list"

definition full_confidence :: "32 word" where "full_confidence = 0x3F800000"

subsection \<open>Mixing the verdicts\<close>

definition requests_by_id :: "permission_check_result \<Rightarrow> string \<Rightarrow> tool_request option" where
  "requests_by_id p =
     map_of (rev (map (\<lambda>r. (tq_id r, r)) (pc_approved p @ pc_needs_approval p @ pc_denied p)))"

definition has_id :: "string \<Rightarrow> tool_request list \<Rightarrow> bool" where
  "has_id i rs \<longleftrightarrow> list_ex (\<lambda>r. tq_id r = i) rs"

definition without_id :: "string \<Rightarrow> tool_request list \<Rightarrow> tool_request list" where
  "without_id i rs = filter (\<lambda>r. tq_id r \<noteq> i) rs"

definition apply_inspection_result ::
  "(string \<Rightarrow> tool_request option) \<Rightarrow> permission_check_result \<Rightarrow> inspection_result \<Rightarrow>
   permission_check_result" where
  "apply_inspection_result all p res =
     (let i = ins_request_id res in
      case ins_action res of
        Deny \<Rightarrow>
          (let p1 = p\<lparr>pc_approved := without_id i (pc_approved p),
                     pc_needs_approval := without_id i (pc_needs_approval p)\<rparr>
           in case all i of
                Some r \<Rightarrow> if has_id i (pc_denied p1) then p1
                          else p1\<lparr>pc_denied := pc_denied p1 @ [r]\<rparr>
              | None \<Rightarrow> p1)
      | RequireApproval _ \<Rightarrow>
          (let p1 = p\<lparr>pc_approved := without_id i (pc_approved p)\<rparr>
           in case all i of
                Some r \<Rightarrow>
                  if \<not> has_id i (pc_denied p1) \<and> \<not> has_id i (pc_needs_approval p1)
                  then p1\<lparr>pc_needs_approval := pc_needs_approval p1 @ [r]\<rparr>
                  else p1
              | None \<Rightarrow> p1)
      | Allow \<Rightarrow> p)"

definition apply_inspection_results_to_permissions ::
  "permission_check_result \<Rightarrow> inspection_result list \<Rightarrow> permission_check_result" where
  "apply_inspection_results_to_permissions p results =
     (if results = [] then p else foldl (apply_inspection_result (requests_by_id p)) p results)"

definition get_security_finding_id_from_results ::
  "string \<Rightarrow> inspection_result list \<Rightarrow> string option" where
  "get_security_finding_id_from_results i results =
     Option.bind (find (\<lambda>r. ins_request_id r = i \<and> ins_inspector r = ''security'') results)
       ins_finding_id"

definition add_baseline ::
  "inspection_result list \<Rightarrow> permission_check_result \<Rightarrow> tool_request \<Rightarrow> permission_check_result" where
  "add_baseline permission_results p request =
     (case find (\<lambda>r. ins_request_id r = tq_id request) permission_results of
        Some res \<Rightarrow>
          (case ins_action res of
             Allow \<Rightarrow> p\<lparr>pc_approved := pc_approved p @ [request]\<rparr>
           | Deny \<Rightarrow> p\<lparr>pc_denied := pc_denied p @ [request]\<rparr>
           | RequireApproval _ \<Rightarrow> p\<lparr>pc_needs_approval := pc_needs_approval p @ [request]\<rparr>)
      | None \<Rightarrow> p\<lparr>pc_needs_approval := pc_needs_approval p @ [request]\<rparr>)"

definition permission_check_empty :: permission_check_result where
  "permission_check_empty = \<lparr>pc_approved = [], pc_needs_approval = [], pc_denied = []\<rparr>"

definition process_inspection_results ::
  "tool_request list \<Rightarrow> inspection_result list \<Rightarrow> permission_check_result" where
  "process_inspection_results requests results =
     (let base = foldl (add_baseline (filter (\<lambda>r. ins_inspector r = ''permission'') results))
                   permission_check_empty requests;
          others = filter (\<lambda>r. ins_inspector r \<noteq> ''permission'') results
      in if others \<noteq> [] then apply_inspection_results_to_permissions base others else base)"

subsection \<open>The permission inspector\<close>

text \<open>
  The shared state it works on is an extension of the world: the permission manager and the
  tools annotated as read-only for this agent.
\<close>

record permission_world = world +
  pw_permissions :: permission_manager
  pw_readonly_tools :: "string set"

definition MANAGE_EXTENSIONS_TOOL_NAME_COMPLETE :: string where
  "MANAGE_EXTENSIONS_TOOL_NAME_COMPLETE = ''extensionmanager__manage_extensions''"

definition apply_tool_annotations :: "tool list \<Rightarrow> 'y permission_world_scheme \<Rightarrow> 'y permission_world_scheme"
where
  "apply_tool_annotations tools w =
     w\<lparr>pw_readonly_tools := set (map tl_name (filter (\<lambda>t. read_only_hint t = Some True) tools)),
       pw_permissions := pm_apply_tool_annotations tools (pw_permissions w)\<rparr>"

definition is_readonly_annotated_tool :: "'y permission_world_scheme \<Rightarrow> string \<Rightarrow> bool" where
  "is_readonly_annotated_tool w name \<longleftrightarrow> name \<in> pw_readonly_tools w"

datatype verdict = Decided inspection_action | AskModel | NoVerdict

definition permission_verdict ::
  "aibuddy_mode \<Rightarrow> 'y permission_world_scheme \<Rightarrow> string \<Rightarrow> verdict" where
  "permission_verdict mode w name =
     (case mode of
        ModeChat \<Rightarrow> NoVerdict
      | ModeAuto \<Rightarrow> Decided Allow
      | _ \<Rightarrow>
          (case get_user_permission (pw_permissions w) name of
             Some LevelAlwaysAllow \<Rightarrow> Decided Allow
           | Some LevelNeverAllow \<Rightarrow> Decided Deny
           | Some LevelAskBefore \<Rightarrow> Decided (RequireApproval None)
           | None \<Rightarrow>
               if mode = ModeSmartApprove \<and> is_readonly_annotated_tool w name then Decided Allow
               else if name = MANAGE_EXTENSIONS_TOOL_NAME_COMPLETE then
                 Decided (RequireApproval (Some ''Extension management requires approval for security''))
               else if mode = ModeSmartApprove \<and>
                 (case get_smart_approve_permission (pw_permissions w) name of
                    None \<Rightarrow> True | Some LevelAlwaysAllow \<Rightarrow> True | _ \<Rightarrow> False)
               then AskModel
               else Decided (RequireApproval None)))"

definition permission_reason ::
  "aibuddy_mode \<Rightarrow> 'y permission_world_scheme \<Rightarrow> string \<Rightarrow> inspection_action \<Rightarrow> string" where
  "permission_reason mode w name action =
     (case action of
        Allow \<Rightarrow>
          if mode = ModeAuto then ''Auto mode - all tools approved''
          else if is_readonly_annotated_tool w name then ''Tool annotated as read-only''
          else ''User permission allows this tool''
      | Deny \<Rightarrow> ''User permission denies this tool''
      | RequireApproval _ \<Rightarrow>
          if name = MANAGE_EXTENSIONS_TOOL_NAME_COMPLETE
          then ''Extension management requires user approval''
          else ''Tool requires user approval'')"

definition permission_result :: "string \<Rightarrow> inspection_action \<Rightarrow> string \<Rightarrow> inspection_result" where
  "permission_result i action reason =
     \<lparr>ins_request_id = i, ins_action = action, ins_reason = reason,
      ins_confidence = full_confidence, ins_inspector = ''permission'', ins_finding_id = None\<rparr>"

fun decide_requests ::
  "aibuddy_mode \<Rightarrow> 'y permission_world_scheme \<Rightarrow> tool_request list \<Rightarrow>
   inspection_result list \<times> tool_request list" where
  "decide_requests mode w [] = ([], [])"
| "decide_requests mode w (r # rs) =
     (let (results, candidates) = decide_requests mode w rs in
      case tq_tool_call r of
        Inl _ \<Rightarrow> (results, candidates)
      | Inr call \<Rightarrow>
          (case permission_verdict mode w (ct_name call) of
             NoVerdict \<Rightarrow> (results, candidates)
           | AskModel \<Rightarrow> (results, r # candidates)
           | Decided action \<Rightarrow>
               (permission_result (tq_id r) action
                  (permission_reason mode w (ct_name call) action) # results, candidates)))"

definition cache_non_readonly_decision ::
  "tool_request \<Rightarrow> bool \<Rightarrow> permission_manager \<Rightarrow> permission_manager" where
  "cache_non_readonly_decision candidate is_readonly pm =
     (if is_readonly then pm
      else (case tq_tool_call candidate of
              Inr call \<Rightarrow> update_smart_approve_permission (ct_name call) LevelAskBefore pm
            | Inl _ \<Rightarrow> pm))"

fun judge_candidates ::
  "string set \<Rightarrow> tool_request list \<Rightarrow> permission_manager \<Rightarrow>
   inspection_result list \<times> permission_manager" where
  "judge_candidates detected [] pm = ([], pm)"
| "judge_candidates detected (r # rs) pm =
     (let is_readonly = tq_id r \<in> detected;
          (results, pm') = judge_candidates detected rs (cache_non_readonly_decision r is_readonly pm)
      in (permission_result (tq_id r) (if is_readonly then Allow else RequireApproval None)
            (if is_readonly then ''LLM detected as read-only'' else ''Tool requires user approval'')
          # results, pm'))"

text \<open>The judge: the ids the model's answer names, nothing when it does not answer.\<close>

definition judge_arguments :: "message_content \<Rightarrow> json_object option" where
  "judge_arguments c =
     (case c of
        ToolRequest r \<Rightarrow>
          (case tq_tool_call r of
             Inr call \<Rightarrow>
               if ct_name call = ''platform__tool_by_tool_permission'' then ct_arguments call else None
           | Inl _ \<Rightarrow> None)
      | _ \<Rightarrow> None)"

definition extract_read_only_request_ids :: "message \<Rightarrow> string list option" where
  "extract_read_only_request_ids response =
     find_map (\<lambda>c. Option.bind (judge_arguments c) (\<lambda>args.
       case map_of args ''read_only_request_ids'' of
         Some (JArr ids) \<Rightarrow> Some (filter_map json_as_str ids)
       | _ \<Rightarrow> None)) (msg_content response)"

definition detect_read_only_requests ::
  "(tool_request list \<Rightarrow> (message option, 'x) act) \<Rightarrow> tool_request list \<Rightarrow> (string list, 'x) act" where
  "detect_read_only_requests complete requests w =
     (if requests = [] then ([], w)
      else (case complete requests w of
              (Some response, w1) \<Rightarrow>
                (unwrap_or (extract_read_only_request_ids response) [], w1)
            | (None, w1) \<Rightarrow> ([], w1)))"

type_synonym 'y judge = "tool_request list \<Rightarrow> (message option, 'y permission_world_ext) act"

definition permission_inspect ::
  "'y judge option \<Rightarrow> tool_request list \<Rightarrow> aibuddy_mode \<Rightarrow>
   (inspection_result list result, 'y permission_world_ext) act" where
  "permission_inspect provider requests mode w =
     (let (results, candidates) = decide_requests mode w requests in
      if candidates = [] then (Inr results, w)
      else
        (let (detected, w1) =
               (case provider of
                  Some complete \<Rightarrow> detect_read_only_requests complete candidates w
                | None \<Rightarrow> ([], w));
             (judged, pm) = judge_candidates (set detected) candidates (pw_permissions w1)
         in (Inr (results @ judged), w1\<lparr>pw_permissions := pm\<rparr>)))"

subsection \<open>The manager of the inspectors\<close>

record 'y other_inspector =
  oi_name :: string
  oi_enabled :: bool
  oi_inspect :: "tool_request list \<Rightarrow> message list \<Rightarrow> aibuddy_mode \<Rightarrow>
    (inspection_result list result, 'y permission_world_ext) act"

datatype 'y inspector = PermissionInspector "'y judge option" | OtherInspector "'y other_inspector"

fun inspector_run ::
  "'y inspector \<Rightarrow> tool_request list \<Rightarrow> message list \<Rightarrow> aibuddy_mode \<Rightarrow>
   (inspection_result list result option, 'y permission_world_ext) act" where
  "inspector_run (PermissionInspector provider) rs ms mode w =
     apfst Some (permission_inspect provider rs mode w)"
| "inspector_run (OtherInspector oi) rs ms mode w =
     (if oi_enabled oi then apfst Some (oi_inspect oi rs ms mode w) else (None, w))"

fun inspect_tools ::
  "'y inspector list \<Rightarrow> tool_request list \<Rightarrow> message list \<Rightarrow> aibuddy_mode \<Rightarrow>
   (inspection_result list, 'y permission_world_ext) act" where
  "inspect_tools [] rs ms mode w = ([], w)"
| "inspect_tools (ins # inss) rs ms mode w =
     (let (r, w1) = inspector_run ins rs ms mode w;
          found = (case r of Some (Inr results) \<Rightarrow> results | _ \<Rightarrow> []);
          (rest, w2) = inspect_tools inss rs ms mode w1
      in (found @ rest, w2))"

text \<open>
  The inspector found under the name \<open>permission\<close> is the permission inspector only if it
  has that type (the downcast).
\<close>

fun inspector_name :: "'y inspector \<Rightarrow> string" where
  "inspector_name (PermissionInspector _) = ''permission''"
| "inspector_name (OtherInspector oi) = oi_name oi"

definition has_permission_inspector :: "'y inspector list \<Rightarrow> bool" where
  "has_permission_inspector inss \<longleftrightarrow>
     (case find (\<lambda>i. inspector_name i = ''permission'') inss of
        Some (PermissionInspector _) \<Rightarrow> True
      | _ \<Rightarrow> False)"

definition update_permission_manager ::
  "'y inspector list \<Rightarrow> string \<Rightarrow> permission_level \<Rightarrow> 'y permission_world_scheme \<Rightarrow>
   'y permission_world_scheme" where
  "update_permission_manager inss name level w =
     (if has_permission_inspector inss
      then w\<lparr>pw_permissions := update_user_permission name level (pw_permissions w)\<rparr> else w)"

definition process_with_permission_inspector ::
  "'y inspector list \<Rightarrow> tool_request list \<Rightarrow> inspection_result list \<Rightarrow>
   permission_check_result option" where
  "process_with_permission_inspector inss rs results =
     (if has_permission_inspector inss then Some (process_inspection_results rs results) else None)"

subsection \<open>The repetition inspector\<close>

record internal_tool_call =
  it_name :: string
  it_parameters :: json

definition internal_tool_call_of :: "call_tool_params \<Rightarrow> internal_tool_call" where
  "internal_tool_call_of call =
     \<lparr>it_name = ct_name call,
      it_parameters = (case ct_arguments call of Some m \<Rightarrow> JObj m | None \<Rightarrow> JNull)\<rparr>"

record repetition_inspector =
  rep_max :: "u32 option"
  rep_last_call :: "internal_tool_call option"
  rep_count :: u32
  rep_call_counts :: "string \<Rightarrow> u32 option"

definition repetition_new :: "u32 option \<Rightarrow> repetition_inspector" where
  "repetition_new m =
     \<lparr>rep_max = m, rep_last_call = None, rep_count = 0, rep_call_counts = (\<lambda>_. None)\<rparr>"

definition call_matches :: "internal_tool_call \<Rightarrow> internal_tool_call \<Rightarrow> bool" where
  "call_matches a b \<longleftrightarrow> it_name a = it_name b \<and> json_equal (it_parameters a) (it_parameters b)"

definition check_tool_call ::
  "call_tool_params \<Rightarrow> repetition_inspector \<Rightarrow> bool \<times> repetition_inspector" where
  "check_tool_call call ri0 =
     (let c = internal_tool_call_of call;
          ri = ri0\<lparr>rep_call_counts := (rep_call_counts ri0)
                 (it_name c \<mapsto> unwrap_or (rep_call_counts ri0 (it_name c)) 0 + 1)\<rparr>
      in case rep_max ri of
           None \<Rightarrow> (True, ri\<lparr>rep_last_call := Some c, rep_count := 1\<rparr>)
         | Some m \<Rightarrow>
             (let repeated = is_some_and (rep_last_call ri) (\<lambda>l. call_matches l c);
                  n = (if repeated then rep_count ri + 1 else 1)
              in if repeated \<and> m < n then (False, ri\<lparr>rep_count := n\<rparr>)
                 else (True, ri\<lparr>rep_count := n, rep_last_call := Some c\<rparr>)))"

definition repetition_reset :: "repetition_inspector \<Rightarrow> repetition_inspector" where
  "repetition_reset ri = ri\<lparr>rep_last_call := None, rep_count := 0, rep_call_counts := (\<lambda>_. None)\<rparr>"

definition repetition_denial :: "tool_request \<Rightarrow> call_tool_params \<Rightarrow> inspection_result" where
  "repetition_denial r call =
     \<lparr>ins_request_id = tq_id r, ins_action = Deny,
      ins_reason = ''Tool '' @ quoted (ct_name call) @ '' has exceeded maximum repetitions'',
      ins_confidence = full_confidence, ins_inspector = ''repetition'',
      ins_finding_id = Some ''REP-001''\<rparr>"

definition repetition_inspect :: "repetition_inspector \<Rightarrow> tool_request list \<Rightarrow> inspection_result list"
where
  "repetition_inspect ri requests =
     filter_map (\<lambda>r. case tq_tool_call r of
         Inl _ \<Rightarrow> None
       | Inr call \<Rightarrow>
           if fst (check_tool_call call ri) then None else Some (repetition_denial r call)) requests"

end
