(* ===== verification/Tool_Inspection_Props.thy ===== *)
theory Tool_Inspection_Props
  imports Tool_Inspection
begin

text \<open>
  Properties of tool inspection: how the verdicts of the inspectors combine, what the
  permission inspector may let through, and that the repetition inspector, asked through
  \<open>inspect\<close>, never counts.
\<close>

subsection \<open>The combined verdict\<close>

text \<open>
  The specification: the first verdict of the permission inspector on a request, approval
  needed when there is none; denied when it or any other inspector denies, else approval
  needed when it or any other asks for it, else approved.
\<close>

definition baseline :: "inspection_result list \<Rightarrow> string \<Rightarrow> inspection_action" where
  "baseline results i =
     (case find (\<lambda>r. ins_request_id r = i)
             (filter (\<lambda>r. ins_inspector r = ''permission'') results) of
        Some res \<Rightarrow> ins_action res
      | None \<Rightarrow> RequireApproval None)"

definition other_actions :: "inspection_result list \<Rightarrow> string \<Rightarrow> inspection_action set" where
  "other_actions results i =
     ins_action ` {r \<in> set results. ins_inspector r \<noteq> ''permission'' \<and> ins_request_id r = i}"

definition denied_by :: "inspection_result list \<Rightarrow> string \<Rightarrow> bool" where
  "denied_by results i \<longleftrightarrow> baseline results i = Deny \<or> Deny \<in> other_actions results i"

definition approved_by :: "inspection_result list \<Rightarrow> string \<Rightarrow> bool" where
  "approved_by results i \<longleftrightarrow> baseline results i = Allow \<and> other_actions results i \<subseteq> {Allow}"

abbreviation ids :: "tool_request list \<Rightarrow> string set" where
  "ids rs \<equiv> tq_id ` set rs"

lemma has_id_iff: "has_id i rs \<longleftrightarrow> i \<in> ids rs"
  by (auto simp: has_id_def list_ex_iff)

lemma ids_without: "ids (without_id i rs) = ids rs - {i}"
  by (auto simp: without_id_def)

definition base_result :: "tool_request list \<Rightarrow> inspection_result list \<Rightarrow> permission_check_result" where
  "base_result rs results =
     \<lparr>pc_approved = filter (\<lambda>r. baseline results (tq_id r) = Allow) rs,
      pc_needs_approval =
        filter (\<lambda>r. baseline results (tq_id r) \<noteq> Allow \<and> baseline results (tq_id r) \<noteq> Deny) rs,
      pc_denied = filter (\<lambda>r. baseline results (tq_id r) = Deny) rs\<rparr>"

lemma foldl_add_baseline:
  "foldl (add_baseline (filter (\<lambda>r. ins_inspector r = ''permission'') results))
     (base_result rs results) rs' = base_result (rs @ rs') results"
proof (induction rs' arbitrary: rs)
  case Nil
  then show ?case by simp
next
  case (Cons r rs')
  have "add_baseline (filter (\<lambda>r. ins_inspector r = ''permission'') results)
      (base_result rs results) r = base_result (rs @ [r]) results"
    by (simp add: add_baseline_def base_result_def baseline_def
        split: option.split inspection_action.split)
  with Cons [of "rs @ [r]"] show ?case by simp
qed

lemma baseline_folded:
  "foldl (add_baseline (filter (\<lambda>r. ins_inspector r = ''permission'') results))
     permission_check_empty rs = base_result rs results"
  using foldl_add_baseline [of results "[]" rs]
  by (simp add: base_result_def permission_check_empty_def)

text \<open>What the other verdicts have made of the baseline so far.\<close>

definition tightened ::
  "tool_request list \<Rightarrow> inspection_result list \<Rightarrow> inspection_result list \<Rightarrow>
   permission_check_result \<Rightarrow> bool" where
  "tightened rs results seen p \<longleftrightarrow>
     pc_approved p = filter (\<lambda>r. baseline results (tq_id r) = Allow \<and>
       (\<forall>d \<in> set seen. ins_request_id d = tq_id r \<longrightarrow> ins_action d = Allow)) rs \<and>
     ids (pc_denied p) = {i \<in> ids rs. baseline results i = Deny \<or>
       (\<exists>d \<in> set seen. ins_request_id d = i \<and> ins_action d = Deny)} \<and>
     ids (pc_needs_approval p) = {i \<in> ids rs. i \<notin> ids (pc_denied p) \<and>
       (baseline results i \<noteq> Allow \<or>
        (\<exists>d \<in> set seen. ins_request_id d = i \<and> ins_action d \<noteq> Allow))}"

lemma tightened_base: "tightened rs results [] (base_result rs results)"
  by (auto simp: tightened_def base_result_def)

definition names_requests :: "tool_request list \<Rightarrow> (string \<Rightarrow> tool_request option) \<Rightarrow> bool" where
  "names_requests rs all \<longleftrightarrow>
     (\<forall>i. all i = None \<longleftrightarrow> i \<notin> ids rs) \<and> (\<forall>i r. all i = Some r \<longrightarrow> tq_id r = i)"

lemma requests_by_id_base: "names_requests rs (requests_by_id (base_result rs results))"
proof -
  let ?all = "pc_approved (base_result rs results) @ pc_needs_approval (base_result rs results) @
    pc_denied (base_result rs results)"
  have ids: "ids ?all = ids rs" by (auto simp: base_result_def)
  have look: "map_of (map (\<lambda>r. (tq_id r, r)) xs) i = None \<longleftrightarrow> i \<notin> ids xs" for xs i
    by (induction xs) auto
  have found: "map_of (map (\<lambda>r. (tq_id r, r)) xs) i = Some r \<Longrightarrow> tq_id r = i" for xs i r
    by (induction xs) (auto split: if_splits)
  have r: "requests_by_id (base_result rs results) = map_of (map (\<lambda>r. (tq_id r, r)) (rev ?all))"
    by (simp only: requests_by_id_def rev_map)
  have i: "ids (rev ?all) = ids rs" using ids by (simp only: set_rev)
  show ?thesis
    unfolding names_requests_def r look i using found [of "rev ?all"] by blast
qed

lemma tightened_step:
  assumes t: "tightened rs results seen p" and all: "names_requests rs all"
  shows "tightened rs results (seen @ [d]) (apply_inspection_result all p d)"
proof -
  let ?i = "ins_request_id d"
  from t have approved: "pc_approved p = filter (\<lambda>r. baseline results (tq_id r) = Allow \<and>
        (\<forall>d \<in> set seen. ins_request_id d = tq_id r \<longrightarrow> ins_action d = Allow)) rs"
    and denied: "ids (pc_denied p) = {i \<in> ids rs. baseline results i = Deny \<or>
        (\<exists>d \<in> set seen. ins_request_id d = i \<and> ins_action d = Deny)}"
    and needs: "ids (pc_needs_approval p) = {i \<in> ids rs. i \<notin> ids (pc_denied p) \<and>
        (baseline results i \<noteq> Allow \<or> (\<exists>d \<in> set seen. ins_request_id d = i \<and> ins_action d \<noteq> Allow))}"
    by (auto simp: tightened_def)
  have none: "all i = None \<longleftrightarrow> i \<notin> ids rs" for i
    using all by (simp add: names_requests_def)
  have found: "all i = Some r \<Longrightarrow> tq_id r = i \<and> i \<in> ids rs" for i r
    using all none [of i] by (auto simp: names_requests_def)
  show ?thesis
  proof (cases "ins_action d")
    case Allow
    then show ?thesis using t by (auto simp: tightened_def apply_inspection_result_def)
  next
    case Deny
    have d: "ids (pc_denied (apply_inspection_result all p d)) =
        ids (pc_denied p) \<union> (if ?i \<in> ids rs then {?i} else {})"
      using found [of ?i] none [of ?i]
      by (auto simp: apply_inspection_result_def Deny Let_def has_id_iff split: option.splits)
    have n: "ids (pc_needs_approval (apply_inspection_result all p d)) =
        ids (pc_needs_approval p) - {?i}"
      by (simp add: apply_inspection_result_def Deny Let_def ids_without split: option.split)
    have a: "pc_approved (apply_inspection_result all p d) = without_id ?i (pc_approved p)"
      by (simp add: apply_inspection_result_def Deny Let_def split: option.split)
    show ?thesis
      unfolding tightened_def d n a
      unfolding approved denied needs
      by (intro conjI) (auto simp: without_id_def Deny intro!: filter_cong)
  next
    case (RequireApproval m)
    have d: "pc_denied (apply_inspection_result all p d) = pc_denied p"
      by (simp add: apply_inspection_result_def RequireApproval Let_def split: option.split)
    have n: "ids (pc_needs_approval (apply_inspection_result all p d)) =
        ids (pc_needs_approval p) \<union> (if ?i \<in> ids rs \<and> ?i \<notin> ids (pc_denied p) then {?i} else {})"
      using found [of ?i] none [of ?i]
      by (auto simp: apply_inspection_result_def RequireApproval Let_def has_id_iff
          split: option.splits)
    have a: "pc_approved (apply_inspection_result all p d) = without_id ?i (pc_approved p)"
      by (simp add: apply_inspection_result_def RequireApproval Let_def split: option.split)
    show ?thesis
      unfolding tightened_def n a d
      unfolding approved denied needs
      by (intro conjI) (auto simp: without_id_def RequireApproval intro!: filter_cong)
  qed
qed

lemma tightened_foldl:
  "tightened rs results seen p \<Longrightarrow> names_requests rs all \<Longrightarrow>
   tightened rs results (seen @ ds) (foldl (apply_inspection_result all) p ds)"
proof (induction ds arbitrary: seen p)
  case Nil
  then show ?case by simp
next
  case (Cons d ds)
  from Cons.IH [OF tightened_step [OF Cons.prems] Cons.prems(2)] show ?case by simp
qed

lemma process_tightened:
  "tightened rs results (filter (\<lambda>r. ins_inspector r \<noteq> ''permission'') results)
     (process_inspection_results rs results)"
  using tightened_foldl [OF tightened_base requests_by_id_base,
      of rs results "filter (\<lambda>r. ins_inspector r \<noteq> ''permission'') results"]
    tightened_base [of rs results]
  by (auto simp: process_inspection_results_def baseline_folded Let_def
      apply_inspection_results_to_permissions_def)

lemma process_decides:
  "pc_approved (process_inspection_results rs results) =
     filter (\<lambda>r. approved_by results (tq_id r)) rs \<and>
   ids (pc_denied (process_inspection_results rs results)) = {i \<in> ids rs. denied_by results i} \<and>
   ids (pc_needs_approval (process_inspection_results rs results)) =
     {i \<in> ids rs. \<not> denied_by results i \<and> \<not> approved_by results i}"
proof -
  let ?p = "process_inspection_results rs results"
  have "(\<forall>d \<in> set (filter (\<lambda>r. ins_inspector r \<noteq> ''permission'') results).
        ins_request_id d = i \<longrightarrow> ins_action d = Allow) \<longleftrightarrow> other_actions results i \<subseteq> {Allow}" for i
    by (auto simp: other_actions_def)
  moreover have "(\<exists>d \<in> set (filter (\<lambda>r. ins_inspector r \<noteq> ''permission'') results).
        ins_request_id d = i \<and> ins_action d = Deny) \<longleftrightarrow> Deny \<in> other_actions results i" for i
    by (force simp: other_actions_def)
  moreover have "(\<exists>d \<in> set (filter (\<lambda>r. ins_inspector r \<noteq> ''permission'') results).
        ins_request_id d = i \<and> ins_action d \<noteq> Allow) \<longleftrightarrow> \<not> other_actions results i \<subseteq> {Allow}" for i
    by (auto simp: other_actions_def)
  ultimately show ?thesis
    using process_tightened [of rs results]
    unfolding tightened_def approved_by_def denied_by_def by auto
qed

text \<open>
  C15: The decision on the requests: exactly those are approved that the permission inspector
  allows and no other inspector denies or wants approved; a denial by anyone denies; all
  others need approval, also those no permission verdict was given for.
\<close>

theorem process_inspection_results_spec:
  "pc_approved (process_inspection_results rs results) =
     filter (\<lambda>r. approved_by results (tq_id r)) rs \<and>
   ids (pc_denied (process_inspection_results rs results)) = {i \<in> ids rs. denied_by results i} \<and>
   ids (pc_needs_approval (process_inspection_results rs results)) =
     {i \<in> ids rs. \<not> denied_by results i \<and> \<not> approved_by results i}"
  by (rule process_decides)

subsection \<open>The permission inspector\<close>

lemma decide_requests_result:
  "res \<in> set (fst (decide_requests mode w rs)) \<Longrightarrow>
   \<exists>r \<in> set rs. \<exists>call. tq_tool_call r = Inr call \<and> ins_request_id res = tq_id r \<and>
     permission_verdict mode w (ct_name call) = Decided (ins_action res)"
  by (induction rs)
    (auto simp: case_prod_beta Let_def permission_result_def split: sum.splits verdict.splits)

lemma decide_requests_candidate:
  "r \<in> set (snd (decide_requests mode w rs)) \<Longrightarrow>
   r \<in> set rs \<and> (\<exists>call. tq_tool_call r = Inr call \<and>
     permission_verdict mode w (ct_name call) = AskModel)"
  by (induction rs) (auto simp: case_prod_beta Let_def split: sum.splits verdict.splits)

lemma judge_candidates_result:
  "res \<in> set (fst (judge_candidates detected rs pm)) \<Longrightarrow>
   \<exists>r \<in> set rs. ins_request_id res = tq_id r \<and>
     (ins_action res = Allow \<longleftrightarrow> tq_id r \<in> detected)"
proof (induction rs arbitrary: pm)
  case Nil
  then show ?case by simp
next
  case (Cons r rs)
  then show ?case by (fastforce simp: case_prod_beta Let_def permission_result_def)
qed

lemma verdict_allows:
  "permission_verdict mode w name = Decided Allow \<longleftrightarrow>
     mode = ModeAuto \<or>
     mode \<noteq> ModeChat \<and>
       (get_user_permission (pw_permissions w) name = Some LevelAlwaysAllow \<or>
        get_user_permission (pw_permissions w) name = None \<and> mode = ModeSmartApprove \<and>
        is_readonly_annotated_tool w name)"
  by (cases mode; cases "get_user_permission (pw_permissions w) name")
    (auto simp: permission_verdict_def split: permission_level.splits)

lemma verdict_asks:
  "permission_verdict mode w name = AskModel \<Longrightarrow>
     mode = ModeSmartApprove \<and> get_user_permission (pw_permissions w) name = None \<and>
     name \<noteq> MANAGE_EXTENSIONS_TOOL_NAME_COMPLETE"
  by (cases mode)
    (auto simp: permission_verdict_def split: option.splits permission_level.splits if_splits)

definition judged_read_only ::
  "'y judge option \<Rightarrow> tool_request list \<Rightarrow> aibuddy_mode \<Rightarrow> 'y permission_world_scheme \<Rightarrow> string set"
where
  "judged_read_only provider rs mode w =
     (case provider of
        Some complete \<Rightarrow>
          set (fst (detect_read_only_requests complete (snd (decide_requests mode w rs)) w))
      | None \<Rightarrow> {})"

text \<open>
  C14: Outside of auto mode the permission inspector allows a call only when the user always
  allows its tool, or, in smart mode and with no decision of the user on the tool, when the
  tool is annotated as read-only or the judging model named the request; the tool that
  manages extensions is never left to the model.
\<close>

theorem permission_inspect_allows:
  assumes "permission_inspect provider rs mode w = (Inr results, w')"
    and "res \<in> set results" and "ins_action res = Allow" and "mode \<noteq> ModeAuto"
  shows "\<exists>r \<in> set rs. \<exists>call. tq_tool_call r = Inr call \<and> ins_request_id res = tq_id r \<and>
    (get_user_permission (pw_permissions w) (ct_name call) = Some LevelAlwaysAllow \<or>
     mode = ModeSmartApprove \<and> get_user_permission (pw_permissions w) (ct_name call) = None \<and>
     (is_readonly_annotated_tool w (ct_name call) \<or>
      ct_name call \<noteq> MANAGE_EXTENSIONS_TOOL_NAME_COMPLETE \<and>
      tq_id r \<in> judged_read_only provider rs mode w))"
proof -
  let ?candidates = "snd (decide_requests mode w rs)"
  from assms(1) have results: "set results \<subseteq> set (fst (decide_requests mode w rs)) \<union>
      (\<Union>pm. set (fst (judge_candidates (judged_read_only provider rs mode w) ?candidates pm)))"
    by (auto simp: permission_inspect_def judged_read_only_def case_prod_beta Let_def
        split: if_splits option.splits)
  show ?thesis
  proof (cases "res \<in> set (fst (decide_requests mode w rs))")
    case True
    from decide_requests_result [OF this] assms(3,4) show ?thesis
      by (fastforce simp: verdict_allows)
  next
    case False
    with results assms(2) obtain pm where
      "res \<in> set (fst (judge_candidates (judged_read_only provider rs mode w) ?candidates pm))"
      by blast
    from judge_candidates_result [OF this] assms(3) obtain r where
      r: "r \<in> set ?candidates" "ins_request_id res = tq_id r"
        "tq_id r \<in> judged_read_only provider rs mode w"
      by blast
    from decide_requests_candidate [OF r(1)] r show ?thesis by (blast dest: verdict_asks)
  qed
qed

definition reading_world :: "unit permission_world_scheme" where
  "reading_world =
     \<lparr>w_events = [], w_uuids = (\<lambda>_. []), w_next_uuid = 0, w_tick = 0, w_cancel_at = None,
      pw_permissions = permission_manager_new None, pw_readonly_tools = {''fs__read''}, \<dots> = ()\<rparr>"

definition read_call :: call_tool_params where
  "read_call = \<lparr>ct_name = ''fs__read'', ct_arguments = None\<rparr>"

definition read_request :: tool_request where
  "read_request = \<lparr>tq_id = ''r1'', tq_tool_call = Inr read_call, tq_metadata = None,
     tq_tool_meta = None\<rparr>"

theorem permission_inspect_allows_witness:
  "\<exists>r \<in> set [read_request]. \<exists>call. tq_tool_call r = Inr call \<and> ''r1'' = tq_id r \<and>
    (get_user_permission (pw_permissions reading_world) (ct_name call) = Some LevelAlwaysAllow \<or>
     ModeSmartApprove = ModeSmartApprove \<and>
     get_user_permission (pw_permissions reading_world) (ct_name call) = None \<and>
     (is_readonly_annotated_tool reading_world (ct_name call) \<or>
      ct_name call \<noteq> MANAGE_EXTENSIONS_TOOL_NAME_COMPLETE \<and>
      tq_id r \<in> judged_read_only None [read_request] ModeSmartApprove reading_world))"
  using permission_inspect_allows [of None "[read_request]" ModeSmartApprove reading_world
      "[permission_result ''r1'' Allow ''Tool annotated as read-only'']" reading_world
      "permission_result ''r1'' Allow ''Tool annotated as read-only''"]
  by (simp add: permission_inspect_def permission_verdict_def permission_reason_def
      permission_result_def read_request_def read_call_def reading_world_def
      get_user_permission_def get_permission_def map_permission_def permission_manager_new_def
      is_readonly_annotated_tool_def)

subsection \<open>The repetition inspector\<close>

text \<open>
  C16: Whatever limit it was given and whatever is asked of it, the repetition inspector denies
  nothing: \<open>inspect\<close> counts on a copy of a state that nothing else advances.
\<close>

theorem repetition_inspect_never_denies: "repetition_inspect (repetition_new m) rs = []"
proof -
  have "fst (check_tool_call call (repetition_new m))" for call
    by (simp add: check_tool_call_def repetition_new_def Let_def split: option.split)
  then show ?thesis
    by (induction rs) (simp_all add: repetition_inspect_def split: sum.splits)
qed

fun check_tool_calls :: "call_tool_params list \<Rightarrow> repetition_inspector \<Rightarrow> bool list" where
  "check_tool_calls [] ri = []"
| "check_tool_calls (call # calls) ri =
     (let (ok, ri') = check_tool_call call ri in ok # check_tool_calls calls ri')"

fun json_distinct :: "json \<Rightarrow> bool" where
  "json_distinct (JArr vs) \<longleftrightarrow> list_all json_distinct vs"
| "json_distinct (JObj m) \<longleftrightarrow> distinct (map fst m) \<and> list_all (\<lambda>(k, v). json_distinct v) m"
| "json_distinct _ \<longleftrightarrow> True"

lemma zip_self: "zip xs xs = map (\<lambda>x. (x, x)) xs"
  by (induction xs) auto

lemma json_equal_refl: "json_distinct v \<Longrightarrow> json_equal v v"
proof (induction v)
  case (JArr vs)
  then show ?case by (auto simp: zip_self list_all_iff)
next
  case (JObj m)
  then show ?case by (fastforce simp: list_all_iff)
qed auto

definition call_wf :: "call_tool_params \<Rightarrow> bool" where
  "call_wf call \<longleftrightarrow> json_distinct (it_parameters (internal_tool_call_of call))"

lemma repeated_calls:
  assumes "call_wf call" and "rep_max ri = Some m" and "k + n < 2 ^ 32"
    and "rep_last_call ri = Some (internal_tool_call_of call)" and "rep_count ri = of_nat k"
  shows "check_tool_calls (replicate n call) ri = map (\<lambda>i. k + i < unat m) [0..<n]"
  using assms(2-)
proof (induction n arbitrary: ri k)
  case 0
  then show ?case by simp
next
  case (Suc n)
  let ?c = "internal_tool_call_of call"
  have same: "call_matches ?c ?c"
    using assms(1) by (simp add: call_matches_def call_wf_def json_equal_refl)
  have count: "rep_count ri + 1 = of_nat (Suc k)" using Suc.prems(4) by (simp add: add.commute)
  have limit: "m < of_nat (Suc k) \<longleftrightarrow> \<not> k < unat m"
    using Suc.prems(2)
    by (simp add: word_less_nat_alt unat_of_nat take_bit_nat_eq_self less_Suc_eq_le not_less
        del: of_nat_Suc)
  let ?ri' = "snd (check_tool_call call ri)"
  have step: "fst (check_tool_call call ri) = (k < unat m)"
      "rep_max ?ri' = Some m" "rep_last_call ?ri' = Some ?c" "rep_count ?ri' = of_nat (Suc k)"
    using Suc.prems same limit
    by (simp_all add: check_tool_call_def Let_def count add.commute)
  from Suc.IH [OF step(2) _ step(3,4)] Suc.prems(2)
  have "check_tool_calls (replicate n call) ?ri' = map (\<lambda>i. Suc k + i < unat m) [0..<n]" by simp
  also have "\<dots> = map (\<lambda>i. k + i < unat m) [1..<Suc n]"
    by (simp add: map_Suc_upt [symmetric] del: upt_Suc)
  finally show ?case by (subst replicate_Suc) (simp add: step(1) case_prod_beta upt_rec del: upt_Suc)
qed

text \<open>
  Used with its state kept, as its tests do, the check lets the same call pass exactly
  \<open>max 1 limit\<close> times in a row, for as many calls as its 32-bit counter can count.
\<close>

theorem check_tool_call_limit:
  assumes "call_wf call" and "n < 2 ^ 32"
  shows "check_tool_calls (replicate n call) (repetition_new (Some m)) =
    map (\<lambda>i. i < max 1 (unat m)) [0..<n]"
proof (cases n)
  case 0
  then show ?thesis by simp
next
  case (Suc k)
  let ?c = "internal_tool_call_of call"
  obtain ri where step: "check_tool_call call (repetition_new (Some m)) = (True, ri)"
      "rep_max ri = Some m" "rep_last_call ri = Some ?c" "rep_count ri = of_nat 1"
    by (auto simp: check_tool_call_def repetition_new_def Let_def)
  have "check_tool_calls (replicate k call) ri = map (\<lambda>i. 1 + i < unat m) [0..<k]"
    using repeated_calls [OF assms(1) step(2) _ step(3,4)] assms(2) Suc by simp
  also have "\<dots> = map (\<lambda>i. i < max 1 (unat m)) [1..<Suc k]"
    by (auto simp: map_Suc_upt [symmetric] max_def simp del: upt_Suc)
  finally show ?thesis by (simp add: Suc step(1) upt_rec del: upt_Suc)
qed

theorem check_tool_call_limit_witness:
  "check_tool_calls (replicate 3 read_call) (repetition_new (Some 2)) = [True, True, False]"
  using check_tool_call_limit [of read_call 3 2]
  by (simp add: call_wf_def internal_tool_call_of_def read_call_def upt_rec)

end
