(* ===== verification/Session_Effects.thy ===== *)
theory Session_Effects
  imports Machine Session_Store Tool_Inspection
begin

text \<open>
  \<open>agents/state_machine/effects.rs\<close>, \<open>usage.rs\<close> and \<open>session.rs\<close>: the effects the operations
  of the desktop agent ask for and what carrying them out does to the stored session, after
  the ids and costs are filled in: first everything is persisted in order, then the events
  are published.  The world grows the state the operations share: the session and its
  message table, the mode, the goals and the queue of steering messages.
  Prices, token counts and the usage ledger (SQL arithmetic) are parameters.
\<close>

subsection \<open>Sessions\<close>

datatype success_check = ShellCheck string

record retry_config =
  rc_max_retries :: u32
  rc_checks :: "success_check list"
  rc_on_failure :: "string option"
  rc_timeout_seconds :: "nat option"
  rc_on_failure_timeout_seconds :: "nat option"

text \<open>The fields of a recipe that are read; all the others are one value.\<close>

record recipe =
  rp_other_fields :: json
  rp_response :: "json option"
  rp_retry :: "retry_config option"

text \<open>The fields of a session that the operations read or write.\<close>

record session =
  se_id :: string
  se_working_dir :: string
  se_extension_data :: json
  se_usage :: usage
  se_schedule_id :: "string option"
  se_recipe :: "recipe option"
  se_conversation :: "conversation option"
  se_message_count :: nat
  se_provider_name :: "string option"
  se_mode :: aibuddy_mode

subsection \<open>Effects\<close>

datatype aibuddy_effect =
    ConversationEffect conversation_effect
  | ReplaceWithUsage conversation "provider_usage option"
  | SetRecipe "recipe option"
  | SetExtensionData json
  | RecordUsage provider_usage

definition append_effect :: "message \<Rightarrow> aibuddy_effect" where
  "append_effect m = ConversationEffect (AppendMessage m)"

definition replace_effect :: "conversation \<Rightarrow> aibuddy_effect" where
  "replace_effect c = ConversationEffect (ReplaceConversation c)"

fun ensure_aibuddy_ids :: "aibuddy_effect \<Rightarrow> (aibuddy_effect, 'x) act" where
  "ensure_aibuddy_ids (ConversationEffect eff) w = apfst ConversationEffect (ensure_message_ids eff w)"
| "ensure_aibuddy_ids (ReplaceWithUsage c u) w =
     apfst (\<lambda>c'. ReplaceWithUsage c' u) (ensure_ids c w)"
| "ensure_aibuddy_ids eff w = (eff, w)"

subsection \<open>Usage\<close>

fun takes_usage :: "aibuddy_effect \<Rightarrow> bool" where
  "takes_usage (ConversationEffect (AppendMessage m)) \<longleftrightarrow>
     msg_role m = Assistant \<and> error_kind m = None"
| "takes_usage _ \<longleftrightarrow> False"

fun attach_usage :: "provider_usage \<Rightarrow> aibuddy_effect \<Rightarrow> aibuddy_effect" where
  "attach_usage u (ConversationEffect (AppendMessage m)) =
     append_effect (m\<lparr>msg_metadata := (msg_metadata m)\<lparr>md_usage := Some (message_usage_from u False)\<rparr>\<rparr>)"
| "attach_usage u eff = eff"

definition attach_to_last_assistant ::
  "provider_usage \<Rightarrow> aibuddy_effect list \<Rightarrow> aibuddy_effect list" where
  "attach_to_last_assistant u effs =
     unwrap_or (update_last takes_usage (attach_usage u) effs) effs"

type_synonym cost_estimate = "string \<Rightarrow> string \<Rightarrow> usage \<Rightarrow> f64_bits option"

definition priced :: "cost_estimate \<Rightarrow> session \<Rightarrow> provider_usage \<Rightarrow> provider_usage" where
  "priced est s u =
     (let (cost, source) =
        (case pu_cost u of
           Some cost \<Rightarrow> (Some cost, Some ProviderReported)
         | None \<Rightarrow>
             (case Option.bind (se_provider_name s) (\<lambda>p. est p (pu_model u) (pu_usage u)) of
                Some cost \<Rightarrow> (Some cost, Some Estimated)
              | None \<Rightarrow> (None, None)))
      in u\<lparr>pu_cost := cost, pu_cost_source := source\<rparr>)"

definition enrich_at ::
  "cost_estimate \<Rightarrow> session \<Rightarrow> aibuddy_effect list \<Rightarrow> nat \<Rightarrow> aibuddy_effect list" where
  "enrich_at est s effs i =
     (case effs ! i of
        RecordUsage u \<Rightarrow>
          (attach_to_last_assistant (priced est s u) effs)[i := RecordUsage (priced est s u)]
      | ReplaceWithUsage c (Some u) \<Rightarrow> effs[i := ReplaceWithUsage c (Some (priced est s u))]
      | _ \<Rightarrow> effs)"

definition enrich :: "cost_estimate \<Rightarrow> session \<Rightarrow> aibuddy_effect list \<Rightarrow> aibuddy_effect list" where
  "enrich est s effs = foldl (enrich_at est s) effs [0..<length effs]"

subsection \<open>The agent's world\<close>

record agent_world = permission_world +
  aw_mode :: aibuddy_mode
  aw_goal :: "string option"
  aw_grind :: "string option"
  aw_queue :: "message list"
  aw_session :: session
  aw_table :: message_table

type_synonym ('a, 'y) agent_act = "'y agent_world_scheme \<Rightarrow> 'a \<times> 'y agent_world_scheme"

text \<open>What the session store takes from elsewhere.\<close>

record 'y session_env =
  sv_estimate_cost :: cost_estimate
  sv_count_tokens :: "conversation \<Rightarrow> i32 result"
  sv_record_usage ::
    "string \<Rightarrow> string option \<Rightarrow> usage \<Rightarrow> string \<Rightarrow> message_usage \<Rightarrow> (unit result, 'y) agent_act"

definition record_usage ::
  "'y session_env \<Rightarrow> session \<Rightarrow> provider_usage \<Rightarrow> bool \<Rightarrow> (unit result, 'y) agent_act" where
  "record_usage V s u replaces =
     sv_record_usage V (se_id s) (se_schedule_id s) (pu_usage u) (pu_model u)
       (message_usage_from u replaces)"

definition estimate_context :: "'y session_env \<Rightarrow> conversation \<Rightarrow> usage result" where
  "estimate_context V c =
     result_bind (sv_count_tokens V c) (\<lambda>n. Inr (usage_new (Some n) None (Some n)))"

subsection \<open>Carrying out effects\<close>

definition store_message :: "session \<Rightarrow> message \<Rightarrow> (unit result, 'y) agent_act" where
  "store_message s m w =
     (let (u, w1) = (if msg_id m = None then fresh_uuid w else ([], w))
      in (Inr (), w1\<lparr>aw_table := add_message (se_id s) u m (aw_table w1)\<rparr>))"

definition store_conversation ::
  "'y session_env \<Rightarrow> session \<Rightarrow> conversation \<Rightarrow> (unit result, 'y) agent_act" where
  "store_conversation V s c w =
     (let w1 = w\<lparr>aw_table := replace_conversation (se_id s)
                   (\<lambda>k. w_uuids w (w_next_uuid w + k)) c (aw_table w),
                 w_next_uuid := w_next_uuid w + length c\<rparr>
      in case estimate_context V c of
           Inl e \<Rightarrow> (Inl e, w1)
         | Inr u \<Rightarrow> (Inr (), w1\<lparr>aw_session := (aw_session w1)\<lparr>se_usage := u\<rparr>\<rparr>))"

fun persist_effect ::
  "'y session_env \<Rightarrow> session \<Rightarrow> aibuddy_effect \<Rightarrow> (unit result, 'y) agent_act" where
  "persist_effect V s (ConversationEffect (AppendMessage m)) w = store_message s m w"
| "persist_effect V s (ConversationEffect (ReplaceConversation c)) w = store_conversation V s c w"
| "persist_effect V s (ReplaceWithUsage c u) w =
     (case u of
        Some pu \<Rightarrow> try_bind (record_usage V s pu True) (\<lambda>_. store_conversation V s c) w
      | None \<Rightarrow> store_conversation V s c w)"
| "persist_effect V s (ConversationEffect (PatchToolRequestMeta i patch)) w =
     (Inr (), w\<lparr>aw_table := update_tool_request_meta i patch (aw_table w)\<rparr>)"
| "persist_effect V s (ConversationEffect (SetMessageVisibility i u a)) w =
     (case update_message_metadata i (\<lambda>md. md\<lparr>user_visible := u, agent_visible := a\<rparr>) (aw_table w) of
        Inl e \<Rightarrow> (Inl e, w)
      | Inr t \<Rightarrow> (Inr (), w\<lparr>aw_table := t\<rparr>))"
| "persist_effect V s (SetRecipe r) w =
     (Inr (), w\<lparr>aw_session := (aw_session w)\<lparr>se_recipe := r\<rparr>\<rparr>)"
| "persist_effect V s (SetExtensionData d) w =
     (Inr (), w\<lparr>aw_session := (aw_session w)\<lparr>se_extension_data := d\<rparr>\<rparr>)"
| "persist_effect V s (RecordUsage u) w = record_usage V s u False w"

fun persist_effects ::
  "'y session_env \<Rightarrow> session \<Rightarrow> aibuddy_effect list \<Rightarrow> (unit result, 'y) agent_act" where
  "persist_effects V s [] w = (Inr (), w)"
| "persist_effects V s (eff # effs) w =
     try_bind (persist_effect V s eff) (\<lambda>_. persist_effects V s effs) w"

fun is_confirmation_block :: "message_content \<Rightarrow> bool" where
  "is_confirmation_block (ActionRequired (ToolConfirmation _ _ _ _)) = True"
| "is_confirmation_block _ = False"

definition contains_tool_confirmation_request :: "message \<Rightarrow> bool" where
  "contains_tool_confirmation_request m \<longleftrightarrow> list_ex is_confirmation_block (msg_content m)"

definition message_events :: "message \<Rightarrow> agent_event list" where
  "message_events m =
     (if contains_tool_confirmation_request m then [EvMessage m] else []) @
     (case md_usage (msg_metadata m) of
        Some u \<Rightarrow>
          if msg_content (user_visible_content m) \<noteq> [] then [EvMessageUsage (msg_id m) u] else []
      | None \<Rightarrow> [])"

fun effect_events :: "aibuddy_effect \<Rightarrow> agent_event list" where
  "effect_events (ConversationEffect (AppendMessage m)) = message_events m"
| "effect_events (ConversationEffect (ReplaceConversation c)) = [EvHistoryReplaced c]"
| "effect_events (ReplaceWithUsage c _) = [EvHistoryReplaced c]"
| "effect_events (RecordUsage u) = [EvUsage u]"
| "effect_events _ = []"

definition publish :: "agent_event list \<Rightarrow> 'x world_scheme \<Rightarrow> 'x world_scheme" where
  "publish evs w = foldl (\<lambda>w ev. emit ev w) w evs"

definition apply_effects ::
  "'y session_env \<Rightarrow> session \<Rightarrow> aibuddy_effect list \<Rightarrow> (unit result, 'y) agent_act" where
  "apply_effects V s effs w =
     (let (named, w1) = ensure_effects ensure_aibuddy_ids effs w;
          ready = enrich (sv_estimate_cost V) s named
      in try_bind (persist_effects V s ready)
           (\<lambda>_ w2. (Inr (), publish (concat (map effect_events ready)) w2)) w1)"

subsection \<open>The runtime\<close>

definition load_session :: "string \<Rightarrow> (session result, 'y) agent_act" where
  "load_session sid w =
     (if se_id (aw_session w) \<noteq> sid then (Inl ''Session not found'', w)
      else (let c = get_conversation (aw_table w)
            in (Inr ((aw_session w)\<lparr>se_conversation := Some c,
                  se_message_count := length (filter is_user_visible c)\<rparr>), w)))"

definition session_runtime ::
  "'y session_env \<Rightarrow> (session, aibuddy_effect, ('y agent_world_ext) permission_world_ext) runtime"
where
  "session_runtime V = \<lparr>rt_load = load_session, rt_apply = apply_effects V\<rparr>"

definition session_machine ::
  "(session, aibuddy_effect, 'x) machine_step list \<Rightarrow> (session, aibuddy_effect, 'x) machine" where
  "session_machine steps =
     \<lparr>ma_steps = steps, ma_conversation = se_conversation, ma_ensure = ensure_aibuddy_ids\<rparr>"

text \<open>The loop of \<open>session::run\<close> is that of the machine; the spans it fills in are not modelled.\<close>

definition run_aibuddy ::
  "(session, aibuddy_effect, ('y agent_world_ext) permission_world_ext) machine_step list \<Rightarrow>
   'y session_env \<Rightarrow> string \<Rightarrow> 'y agent_world_scheme \<Rightarrow>
   (session result \<times> 'y agent_world_scheme) option" where
  "run_aibuddy steps V sid w = machine_run (session_machine steps) (session_runtime V) sid w"

end
