(* ===== verification/Tool_Approval.thy ===== *)
theory Tool_Approval
  imports Session_Effects
begin

text \<open>
  \<open>agents/state_machine/ops_tool_approval.rs\<close>, the classification of pending tool requests in
  \<open>ops_toolcalling.rs\<close>, and \<open>tool_confirmation.rs\<close>: which requests of a turn may run, which
  are declined, which wait for the user, and how the user's answers are stored and applied.
\<close>

subsection \<open>Pending requests\<close>

datatype tool_disposition = Execute | Decline | ParseFailed string

definition LLM_OPERATION_NAME :: string where "LLM_OPERATION_NAME = ''llm''"
definition ADVERTISED_TOOLS_NOTE :: string where "ADVERTISED_TOOLS_NOTE = ''advertised_tools''"
definition TOOL_EXECUTABLE_KEY :: string where "TOOL_EXECUTABLE_KEY = ''aibuddy.executable''"

definition request_executable :: "tool_request \<Rightarrow> bool option" where
  "request_executable r =
     Option.bind (Option.bind (tq_tool_meta r) (\<lambda>m. json_get m TOOL_EXECUTABLE_KEY)) json_as_bool"

definition request_was_advertised :: "message list \<Rightarrow> tool_request \<Rightarrow> bool" where
  "request_was_advertised ms r =
     (case tq_tool_call r of
        Inl _ \<Rightarrow> True
      | Inr call \<Rightarrow>
          (case find (\<lambda>m. msg_role m = Assistant \<and>
                  list_ex (\<lambda>c. is_some_and (as_tool_request c) (\<lambda>q. tq_id q = tq_id r))
                    (msg_content m)) ms of
             None \<Rightarrow> False
           | Some m \<Rightarrow>
               inference (msg_metadata m) = None \<or>
               is_some_and
                 (Option.bind (operation_note (msg_metadata m) LLM_OPERATION_NAME ADVERTISED_TOOLS_NOTE)
                   json_as_array)
                 (\<lambda>tools. list_ex (\<lambda>t. json_as_str t = Some (ct_name call)) tools)))"

definition blocks_of :: "message list \<Rightarrow> message_content list" where
  "blocks_of ms = concat (map msg_content ms)"

fun confirmation_request_id :: "message_content \<Rightarrow> string option" where
  "confirmation_request_id (ActionRequired (ToolConfirmation i _ _ _)) = Some i"
| "confirmation_request_id _ = None"

fun confirmation_answer :: "message_content \<Rightarrow> (string \<times> permission) option" where
  "confirmation_answer (ActionRequired (ToolConfirmationResponse i p)) = Some (i, p)"
| "confirmation_answer _ = None"

definition answered_ids :: "message list \<Rightarrow> string set" where
  "answered_ids ms = set (filter_map response_id_of (blocks_of ms))"

definition confirmation_ids :: "message list \<Rightarrow> string set" where
  "confirmation_ids ms = set (filter_map confirmation_request_id (blocks_of ms))"

text \<open>A later answer to the same request replaces an earlier one in the \<open>HashMap\<close>.\<close>

definition confirmation_answers :: "message list \<Rightarrow> string \<Rightarrow> permission option" where
  "confirmation_answers ms = map_of (rev (filter_map confirmation_answer (blocks_of ms)))"

definition approval_denied :: "permission option \<Rightarrow> bool" where
  "approval_denied p \<longleftrightarrow>
     (case p of Some DenyOnce \<Rightarrow> True | Some AlwaysDeny \<Rightarrow> True | Some Cancel \<Rightarrow> True | _ \<Rightarrow> False)"

text \<open>\<open>pe\<close> prints the error of a call that could not be parsed.\<close>

definition request_disposition ::
  "(error_data \<Rightarrow> string) \<Rightarrow> message list \<Rightarrow> tool_request \<Rightarrow> tool_disposition option" where
  "request_disposition pe ms r =
     (if was_executed_externally r \<or> tq_id r \<in> answered_ids ms then None
      else
        (case tq_tool_call r of
           Inl e \<Rightarrow> Some (ParseFailed (pe e))
         | Inr _ \<Rightarrow>
             if unwrap_or (request_executable r) True then Some Execute
             else if tq_id r \<in> confirmation_ids ms \<and>
                     \<not> approval_denied (confirmation_answers ms (tq_id r)) then None
             else Some Decline))"

definition assistant_requests :: "message list \<Rightarrow> tool_request list" where
  "assistant_requests ms =
     filter_map as_tool_request (blocks_of (filter (\<lambda>m. msg_role m = Assistant) ms))"

definition pending_tool_requests ::
  "(error_data \<Rightarrow> string) \<Rightarrow> message list \<Rightarrow> (tool_request \<times> tool_disposition) list" where
  "pending_tool_requests pe ms =
     filter_map (\<lambda>r. map_option (Pair r) (request_disposition pe ms r)) (assistant_requests ms)"

definition pending_advertised_tool_requests ::
  "(error_data \<Rightarrow> string) \<Rightarrow> message list \<Rightarrow> (tool_request \<times> tool_disposition) list" where
  "pending_advertised_tool_requests pe ms =
     filter (\<lambda>(r, d). request_was_advertised ms r) (pending_tool_requests pe ms)"

subsection \<open>The state of approvals\<close>

record approval_state =
  as_answered :: "string set"
  as_requests :: "string set"
  as_responses :: "string \<Rightarrow> permission option"
  as_tool_requests :: "tool_request list"

definition from_messages :: "message list \<Rightarrow> approval_state" where
  "from_messages ms =
     \<lparr>as_answered = answered_ids ms, as_requests = confirmation_ids ms,
      as_responses = confirmation_answers ms,
      as_tool_requests =
        filter (request_was_advertised ms) (filter_map as_tool_request (blocks_of ms))\<rparr>"

record pending_response =
  pr_tool_call_id :: string
  pr_tool_name :: "string option"
  pr_permission :: permission
  pr_executable :: "bool option"

definition approval_responses :: "approval_state \<Rightarrow> pending_response list" where
  "approval_responses st =
     filter_map (\<lambda>r.
       if tq_id r \<in> as_answered st then None
       else map_option (\<lambda>p. \<lparr>pr_tool_call_id = tq_id r,
              pr_tool_name = (case tq_tool_call r of Inr call \<Rightarrow> Some (ct_name call) | Inl _ \<Rightarrow> None),
              pr_permission = p, pr_executable = request_executable r\<rparr>)
            (as_responses st (tq_id r))) (as_tool_requests st)"

definition unjudged :: "approval_state \<Rightarrow> tool_request \<Rightarrow> bool" where
  "unjudged st r \<longleftrightarrow>
     \<not> (tq_id r \<in> as_answered st \<or> tq_id r \<in> as_requests st \<or> as_responses st (tq_id r) \<noteq> None \<or>
        was_executed_externally r \<or> request_executable r = Some False \<or> \<not> is_ok (tq_tool_call r))"

definition approval_pending :: "approval_state \<Rightarrow> tool_request list" where
  "approval_pending st = filter (unjudged st) (as_tool_requests st)"

definition has_confirmation_request :: "approval_state \<Rightarrow> string \<Rightarrow> bool" where
  "has_confirmation_request st i \<longleftrightarrow>
     i \<in> as_requests st \<and> list_ex (\<lambda>r. tq_id r = i) (as_tool_requests st)"

definition has_unapplied_confirmation_response :: "approval_state \<Rightarrow> bool" where
  "has_unapplied_confirmation_response st \<longleftrightarrow>
     list_ex (\<lambda>r. tq_id r \<notin> as_answered st \<and> tq_id r \<in> as_requests st \<and>
       as_responses st (tq_id r) \<noteq> None) (as_tool_requests st)"

definition permission_allows :: "permission \<Rightarrow> bool" where
  "permission_allows p \<longleftrightarrow> p = AllowOnce \<or> p = AlwaysAllow"

definition mark_executable :: "string \<Rightarrow> bool \<Rightarrow> aibuddy_effect" where
  "mark_executable i b =
     ConversationEffect (PatchToolRequestMeta i (JObj [(TOOL_EXECUTABLE_KEY, JBool b)]))"

subsection \<open>The approval operation\<close>

text \<open>An answer: the permission to remember, and the mark when the request lacks it.\<close>

definition remember_answer ::
  "('y agent_world_ext) inspector list \<Rightarrow> pending_response \<Rightarrow> 'y agent_world_scheme \<Rightarrow>
   'y agent_world_scheme" where
  "remember_answer inss p w =
     (case pr_tool_name p of
        None \<Rightarrow> w
      | Some name \<Rightarrow>
          if pr_permission p = AlwaysAllow \<and> pr_executable p \<noteq> Some True
          then update_permission_manager inss name LevelAlwaysAllow w
          else if pr_permission p = AlwaysDeny
          then update_permission_manager inss name LevelNeverAllow w
          else w)"

definition answer_effects :: "pending_response \<Rightarrow> aibuddy_effect list" where
  "answer_effects p =
     (if pr_executable p \<noteq> Some (permission_allows (pr_permission p))
      then [mark_executable (pr_tool_call_id p) (permission_allows (pr_permission p))] else [])"

fun apply_answers ::
  "('y agent_world_ext) inspector list \<Rightarrow> pending_response list \<Rightarrow>
   (aibuddy_effect list, 'y) agent_act" where
  "apply_answers inss [] w = ([], w)"
| "apply_answers inss (p # ps) w =
     (let (effs, w1) = apply_answers inss ps (remember_answer inss p w)
      in (answer_effects p @ effs, w1))"

definition security_message :: "inspection_result list \<Rightarrow> string \<Rightarrow> string option" where
  "security_message results i =
     (case find (\<lambda>r. ins_request_id r = i) results of
        Some res \<Rightarrow> (case ins_action res of RequireApproval (Some m) \<Rightarrow> Some m | _ \<Rightarrow> None)
      | None \<Rightarrow> None)"

definition confirmation_message ::
  "ext_env \<Rightarrow> inspection_result list \<Rightarrow> tool_request \<Rightarrow> call_tool_params \<Rightarrow> message" where
  "confirmation_message E results r call =
     user_only (with_action_required (tq_id r) (ct_name call) (unwrap_or (ct_arguments call) [])
       (security_message results (tq_id r)) (message_assistant E))"

fun ask_user ::
  "ext_env \<Rightarrow> (error_data \<Rightarrow> string) \<Rightarrow> inspection_result list \<Rightarrow> tool_request list \<Rightarrow>
   aibuddy_effect list result" where
  "ask_user E pe results [] = Inr []"
| "ask_user E pe results (r # rs) =
     (case tq_tool_call r of
        Inl e \<Rightarrow> Inl (pe e)
      | Inr call \<Rightarrow>
          result_bind (ask_user E pe results rs) (\<lambda>effs.
            Inr (mark_executable (tq_id r) False #
                 append_effect (confirmation_message E results r call) # effs)))"

definition judge_pending ::
  "ext_env \<Rightarrow> (error_data \<Rightarrow> string) \<Rightarrow> ('y agent_world_ext) inspector list \<Rightarrow> aibuddy_mode \<Rightarrow> conversation \<Rightarrow>
   tool_request list \<Rightarrow> (aibuddy_effect list result, 'y) agent_act" where
  "judge_pending E pe inss mode c pending w =
     (if pending = [] then (Inr [], w)
      else
        (let (results, w1) = inspect_tools inss pending c mode w;
             check = unwrap_or (process_with_permission_inspector inss pending results)
                       permission_check_empty
         in (result_bind (ask_user E pe results (pc_needs_approval check)) (\<lambda>effs.
               Inr (map (\<lambda>r. mark_executable (tq_id r) False) (pc_denied check) @ effs)), w1)))"

definition tool_approval_run ::
  "ext_env \<Rightarrow> (error_data \<Rightarrow> string) \<Rightarrow> ('y agent_world_ext) inspector list \<Rightarrow> session \<Rightarrow> conversation \<Rightarrow>
   (aibuddy_effect operation_result result, 'y) agent_act" where
  "tool_approval_run E pe inss s c w =
     (if aw_mode w = ModeChat then (not_applicable, w)
      else
        (case messages_since_kickoff c of
           Inl e \<Rightarrow> (Inl e, w)
         | Inr turn \<Rightarrow>
             (let st = from_messages turn;
                  (answers, w1) = apply_answers inss (approval_responses st) w
              in try_bind (judge_pending E pe inss (aw_mode w) c (approval_pending st))
                   (\<lambda>effs w2.
                     (if answers @ effs = [] then not_applicable else applied (answers @ effs), w2))
                   w1)))"

definition tool_approval_operation ::
  "ext_env \<Rightarrow> (error_data \<Rightarrow> string) \<Rightarrow> ('y agent_world_ext) inspector list \<Rightarrow>
   (session, aibuddy_effect, ('y agent_world_ext) permission_world_ext) operation" where
  "tool_approval_operation E pe inss =
     (operation_default ''tool_approval'')\<lparr>op_run := tool_approval_run E pe inss\<rparr>"

subsection \<open>Answers from the client\<close>

definition active_turn_messages :: "conversation \<Rightarrow> message list" where
  "active_turn_messages c = unwrap_or (suffix_from_last is_kickoff c) c"

fun as_confirmation :: "message_content \<Rightarrow> tool_confirmation_request option" where
  "as_confirmation (ActionRequired (ToolConfirmation i name args prompt)) =
     Some \<lparr>tcr_id = i, tcr_tool_name = name, tcr_arguments = args, tcr_prompt = prompt\<rparr>"
| "as_confirmation _ = None"

definition pending_tool_confirmations :: "conversation \<Rightarrow> tool_confirmation_request list" where
  "pending_tool_confirmations c =
     (let ms = active_turn_messages c in
      filter (\<lambda>q. tcr_id q \<notin> answered_ids ms \<and> confirmation_answers ms (tcr_id q) = None)
        (filter_map as_confirmation (blocks_of ms)))"

definition has_unapplied_tool_confirmation_response :: "conversation \<Rightarrow> bool" where
  "has_unapplied_tool_confirmation_response c =
     has_unapplied_confirmation_response (from_messages (active_turn_messages c))"

definition confirmation_response_message :: "ext_env \<Rightarrow> string \<Rightarrow> permission \<Rightarrow> message" where
  "confirmation_response_message E i p =
     with_content (mc_tool_confirmation_response i p)
       (with_visibility False False (message_user E))"

text \<open>What a decision does to the stored session: \<open>Inr None\<close> when it is already there.\<close>

definition confirmation_decision ::
  "ext_env \<Rightarrow> string \<Rightarrow> conversation \<Rightarrow> string \<Rightarrow> permission \<Rightarrow> message option result" where
  "confirmation_decision E sid c i p =
     result_bind (messages_since_kickoff c) (\<lambda>turn.
       let st = from_messages turn in
       if \<not> has_confirmation_request st i
       then Inl (''Tool request '' @ i @ '' is not awaiting confirmation in session '' @ sid)
       else
         (case as_responses st i of
            Some q \<Rightarrow>
              if q = p then Inr None
              else Inl (''Tool request '' @ i @ '' already has a different confirmation decision'')
          | None \<Rightarrow>
              if i \<in> as_answered st
              then Inl (''Tool request '' @ i @ '' already has a response'')
              else Inr (Some (confirmation_response_message E i p))))"

definition persist_tool_confirmation_decision ::
  "ext_env \<Rightarrow> string \<Rightarrow> string \<Rightarrow> permission \<Rightarrow> (unit result, 'y) agent_act" where
  "persist_tool_confirmation_decision E sid i p w =
     try_bind (load_session sid) (\<lambda>s w1.
       case se_conversation s of
         None \<Rightarrow> (Inl (''Session '' @ sid @ '' has no conversation''), w1)
       | Some c \<Rightarrow>
           (case confirmation_decision E sid c i p of
              Inl e \<Rightarrow> (Inl e, w1)
            | Inr None \<Rightarrow> (Inr (), w1)
            | Inr (Some m) \<Rightarrow> store_message s m w1)) w"

end
