(* ===== verification/Session_Effects_Props.thy ===== *)
theory Session_Effects_Props
  imports Session_Effects Session_Store_Props Machine_Props
begin

text \<open>
  What the effects do to the conversation, stated without the message table
  (\<open>effect_on\<close>), and that carrying them out on the table implements it; the session
  runtime only moves the world forward, as the machine's properties ask of a runtime.
\<close>

subsection \<open>Effects on the conversation\<close>

definition patch_all :: "string \<Rightarrow> json \<Rightarrow> conversation \<Rightarrow> conversation" where
  "patch_all i patch c =
     map (\<lambda>m. if list_ex (requests_tool i) (msg_content m) then patch_message i patch m else m) c"

definition dated_after :: "conversation \<Rightarrow> message \<Rightarrow> message" where
  "dated_after c m =
     m\<lparr>msg_created := (if c = [] then msg_created m
                       else max (msg_created m) (Max (set (map msg_created c))))\<rparr>"

fun effect_on :: "conversation \<Rightarrow> aibuddy_effect \<Rightarrow> conversation" where
  "effect_on c (ConversationEffect (AppendMessage m)) = c @ [dated_after c m]"
| "effect_on c (ConversationEffect (ReplaceConversation c')) = sort_key msg_created c'"
| "effect_on c (ConversationEffect (PatchToolRequestMeta i patch)) = patch_all i patch c"
| "effect_on c (ConversationEffect (SetMessageVisibility i u a)) =
     map (\<lambda>m. if msg_id m = Some i then with_visibility u a m else m) c"
| "effect_on c (ReplaceWithUsage c' _) = sort_key msg_created c'"
| "effect_on c _ = c"

subsection \<open>Patches keep the order\<close>

lemma get_conversation_map:
  assumes "\<forall>r. row_created (g r) = row_created r" and "\<forall>r \<in> set (mt_rows t). row_message (g r) = f (row_message r)"
  shows "get_conversation (t\<lparr>mt_rows := map g (mt_rows t)\<rparr>) = map f (get_conversation t)"
proof -
  have "sort_key row_created (map g (mt_rows t)) = map g (sort_key row_created (mt_rows t))"
    using assms(1) by (intro sort_key_map [symmetric]) simp
  then show ?thesis using assms(2) by (simp add: get_conversation_def)
qed

definition distinct_ids :: "message_table \<Rightarrow> bool" where
  "distinct_ids t \<longleftrightarrow> (\<forall>r \<in> set (mt_rows t). msg_id (row_message r) \<noteq> None) \<and>
     distinct (map (msg_id \<circ> row_message) (mt_rows t))"

text \<open>The request is in one message, and that is among the rows the patch looks at.\<close>

definition patchable :: "string \<Rightarrow> message_table \<Rightarrow> bool" where
  "patchable i t \<longleftrightarrow> length (filter (row_requests_tool i) (mt_rows t)) \<le> 1 \<and>
     (\<forall>r \<in> set (mt_rows t). row_requests_tool i r \<longrightarrow> r \<in> set (take RECENT_ROWS (rev (mt_rows t))))"

definition patch_row :: "string \<Rightarrow> json \<Rightarrow> message_row \<Rightarrow> message_row" where
  "patch_row i patch r =
     (if row_requests_tool i r then r\<lparr>row_message := patch_message i patch (row_message r)\<rparr> else r)"

lemma patch_row_simps [simp]:
  "row_created (patch_row i patch r) = row_created r"
  "row_message (patch_row i patch r) =
     (if list_ex (requests_tool i) (msg_content (row_message r))
      then patch_message i patch (row_message r) else row_message r)"
  by (simp_all add: patch_row_def row_created_def patch_message_def row_requests_tool_def)

lemma patch_row_none: "\<not> list_ex (row_requests_tool i) rs \<Longrightarrow> map (patch_row i patch) rs = rs"
  by (induction rs) (simp_all add: patch_row_def)

lemma patch_rows:
  assumes "length (filter (row_requests_tool i) rs) \<le> 1"
    and "\<forall>r \<in> set rs. row_requests_tool i r \<longrightarrow> row_has_message_id mid r"
  shows "update_tool_request_meta_by_message_id mid i patch rs = map (patch_row i patch) rs"
  using assms
proof (induction rs)
  case Nil
  then show ?case by simp
next
  case (Cons r rs)
  show ?case
  proof (cases "row_requests_tool i r")
    case True
    with Cons.prems(1) have "\<not> list_ex (row_requests_tool i) rs"
      by (auto simp: list_ex_iff filter_empty_conv)
    with True Cons.prems(2) show ?thesis by (simp add: patch_row_none) (simp add: patch_row_def)
  next
    case False
    with Cons show ?thesis by simp (simp add: patch_row_def)
  qed
qed

lemma patch_table:
  assumes "patchable i t" and "distinct_ids t"
  shows "update_tool_request_meta i patch t = t\<lparr>mt_rows := map (patch_row i patch) (mt_rows t)\<rparr>"
proof (cases "find (row_requests_tool i) (take RECENT_ROWS (rev (mt_rows t)))")
  case None
  with assms(1) have "\<not> list_ex (row_requests_tool i) (mt_rows t)"
    by (auto simp: patchable_def find_None_iff list_ex_iff)
  with None show ?thesis by (simp add: update_tool_request_meta_def patch_row_none)
next
  case (Some b)
  from find_split [OF Some] have "row_requests_tool i b" "b \<in> set (take RECENT_ROWS (rev (mt_rows t)))"
    by auto
  then have b: "row_requests_tool i b" "b \<in> set (mt_rows t)" by (auto dest: in_set_takeD)
  with assms(2) obtain mid where mid: "msg_id (row_message b) = Some mid"
    by (auto simp: distinct_ids_def)
  have "row_has_message_id mid r" if "r \<in> set (mt_rows t)" "row_requests_tool i r" for r
  proof -
    from assms(1) b that have "r = b"
      by (auto simp: patchable_def length_filter_conv_card in_set_conv_nth card_le_Suc0_iff_eq)
    with mid show ?thesis by (simp add: row_has_message_id_def)
  qed
  with assms(1) have "update_tool_request_meta_by_message_id mid i patch (mt_rows t) =
      map (patch_row i patch) (mt_rows t)"
    by (intro patch_rows) (auto simp: patchable_def)
  with Some mid show ?thesis by (simp add: update_tool_request_meta_def)
qed


subsection \<open>A patch reaches the newest request only\<close>

text \<open>
  The message a patch changes: the last one stored that asks for the call, if it is among the
  last hundred.
\<close>

definition newest_request :: "string \<Rightarrow> message_table \<Rightarrow> string option" where
  "newest_request i t =
     Option.bind (find (\<lambda>m. \<exists>r. ToolRequest r \<in> set (msg_content m) \<and> tq_id r = i)
        (take 100 (rev (map row_message (mt_rows t))))) msg_id"

definition patch_newest :: "string \<Rightarrow> json \<Rightarrow> message_table \<Rightarrow> conversation" where
  "patch_newest i patch t =
     (case newest_request i t of
        None \<Rightarrow> get_conversation t
      | Some mid \<Rightarrow> map (\<lambda>m. if msg_id m = Some mid then patch_message i patch m else m) (get_conversation t))"

lemma find_map: "find p (map f xs) = map_option f (find (\<lambda>x. p (f x)) xs)"
  by (induction xs) simp_all

lemma newest_request_row:
  "newest_request i t =
     Option.bind (find (row_requests_tool i) (take RECENT_ROWS (rev (mt_rows t)))) (\<lambda>r. msg_id (row_message r))"
proof -
  have "(\<exists>r. ToolRequest r \<in> set cs \<and> tq_id r = i) \<longleftrightarrow> list_ex (requests_tool i) cs" for cs
  proof -
    have "requests_tool i c \<longleftrightarrow> (\<exists>r. c = ToolRequest r \<and> tq_id r = i)" for c
      by (cases c) (auto simp: requests_tool_def)
    then show ?thesis by (auto simp: list_ex_iff)
  qed
  then show ?thesis
    by (simp add: newest_request_def take_map rev_map find_map row_requests_tool_def [abs_def]
        RECENT_ROWS_def bind_map_option comp_def)
qed

definition mark_row :: "string \<Rightarrow> string \<Rightarrow> json \<Rightarrow> message_row \<Rightarrow> message_row" where
  "mark_row mid i patch r =
     (if row_has_message_id mid r then r\<lparr>row_message := patch_message i patch (row_message r)\<rparr> else r)"

lemma mark_rows:
  assumes "distinct (map (msg_id \<circ> row_message) rs)" and "b \<in> set rs"
    and "msg_id (row_message b) = Some mid" and "row_requests_tool i b"
  shows "update_tool_request_meta_by_message_id mid i patch rs = map (mark_row mid i patch) rs"
  using assms
proof (induction rs)
  case (Cons r rs)
  have others: "map (mark_row mid i patch) ns = ns" if "\<forall>n \<in> set ns. \<not> row_has_message_id mid n" for ns
    using that by (induction ns) (simp_all add: mark_row_def)
  show ?case
  proof (cases "r = b")
    case True
    have "\<forall>n \<in> set rs. \<not> row_has_message_id mid n"
      using Cons.prems(1,3) True by (auto simp: row_has_message_id_def image_iff)
    with True Cons.prems(3,4) show ?thesis
      by (simp add: others) (simp add: mark_row_def row_has_message_id_def)
  next
    case False
    with Cons.prems have "b \<in> set rs" by simp
    moreover from this Cons.prems(1,3) have "\<not> row_has_message_id mid r"
      by (force simp: row_has_message_id_def)
    ultimately show ?thesis using Cons by simp (simp add: mark_row_def)
  qed
qed simp

lemma patch_newest_table:
  assumes "distinct_ids t"
  shows "get_conversation (update_tool_request_meta i patch t) = patch_newest i patch t"
proof (cases "find (row_requests_tool i) (take RECENT_ROWS (rev (mt_rows t)))")
  case None
  then show ?thesis by (simp add: update_tool_request_meta_def patch_newest_def newest_request_row)
next
  case (Some b)
  from find_split [OF Some] have "row_requests_tool i b" "b \<in> set (take RECENT_ROWS (rev (mt_rows t)))"
    by auto
  then have b: "row_requests_tool i b" "b \<in> set (mt_rows t)" by (auto dest: in_set_takeD)
  with assms obtain mid where mid: "msg_id (row_message b) = Some mid" by (auto simp: distinct_ids_def)
  have "update_tool_request_meta i patch t = t\<lparr>mt_rows := map (mark_row mid i patch) (mt_rows t)\<rparr>"
    using Some mid assms mark_rows [OF _ b(2) mid b(1)]
    by (simp add: update_tool_request_meta_def distinct_ids_def)
  moreover have "get_conversation (t\<lparr>mt_rows := map (mark_row mid i patch) (mt_rows t)\<rparr>) =
      map (\<lambda>m. if msg_id m = Some mid then patch_message i patch m else m) (get_conversation t)"
    by (rule get_conversation_map)
      (auto simp: mark_row_def row_created_def patch_message_def row_has_message_id_def)
  ultimately show ?thesis using Some mid by (simp add: patch_newest_def newest_request_row)
qed

subsection \<open>The table implements the effects\<close>

text \<open>
  What an effect relies on: the messages it stores have ids, which \<open>ensure_effects\<close> gives them,
  and where it addresses a stored message by its id, the stored ids are there and distinct.
\<close>

fun effect_fits :: "aibuddy_effect \<Rightarrow> message_table \<Rightarrow> bool" where
  "effect_fits (ConversationEffect (AppendMessage m)) t \<longleftrightarrow> msg_id m \<noteq> None"
| "effect_fits (ConversationEffect (ReplaceConversation c)) t \<longleftrightarrow> (\<forall>m \<in> set c. msg_id m \<noteq> None)"
| "effect_fits (ReplaceWithUsage c _) t \<longleftrightarrow> (\<forall>m \<in> set c. msg_id m \<noteq> None)"
| "effect_fits (ConversationEffect (PatchToolRequestMeta i _)) t \<longleftrightarrow> distinct_ids t"
| "effect_fits (ConversationEffect (SetMessageVisibility _ _ _)) t \<longleftrightarrow> distinct_ids t"
| "effect_fits _ t \<longleftrightarrow> True"

text \<open>What an effect makes of the conversation that a table holds.\<close>

fun table_effect :: "message_table \<Rightarrow> aibuddy_effect \<Rightarrow> conversation" where
  "table_effect t (ConversationEffect (PatchToolRequestMeta i patch)) = patch_newest i patch t"
| "table_effect t eff = effect_on (get_conversation t) eff"

text \<open>A request that is in one message, and in reach, is patched wherever it is asked for.\<close>

lemma patch_newest_patchable:
  assumes "patchable i t" and "distinct_ids t"
  shows "patch_newest i patch t = patch_all i patch (get_conversation t)"
  unfolding patch_newest_table [OF assms(2), symmetric] patch_table [OF assms] patch_all_def
  by (rule get_conversation_map) simp_all

definition lawful_env :: "'y session_env \<Rightarrow> bool" where
  "lawful_env V \<longleftrightarrow> (\<forall>sid sched u model ledger w.
     advances w (snd (sv_record_usage V sid sched u model ledger w)) \<and>
     aw_table (snd (sv_record_usage V sid sched u model ledger w)) = aw_table w)"

lemma record_usage_lawful:
  assumes "lawful_env V"
  shows "advances w (snd (record_usage V s u b w))"
    and "aw_table (snd (record_usage V s u b w)) = aw_table w"
  using assms by (simp_all add: lawful_env_def record_usage_def)

lemma get_conversation_Nil: "get_conversation t = [] \<longleftrightarrow> mt_rows t = []"
proof -
  have "set (get_conversation t) = {} \<longleftrightarrow> set (mt_rows t) = {}" by (simp add: get_conversation_def)
  then show ?thesis by simp
qed

lemma latest_created_conversation:
  "latest_created t =
     (if get_conversation t = [] then None else Some (Max (set (map msg_created (get_conversation t)))))"
  unfolding get_conversation_Nil latest_created_def
  by (simp add: get_conversation_def row_created_def image_image)

lemma stored_message_dated:
  "msg_id m \<noteq> None \<Longrightarrow> stored_message sid u t m = dated_after (get_conversation t) m"
  by (auto simp: stored_message_def dated_after_def stored_id_def latest_created_conversation)

lemma get_conversation_replace:
  assumes "\<forall>m \<in> set c. msg_id m \<noteq> None"
  shows "get_conversation (replace_conversation sid uuids c t) = sort_key msg_created c"
  by (simp add: get_conversation_sorted replaced_rows [OF assms])

lemma store_conversation_table:
  "aw_table (snd (store_conversation V s c w)) =
     replace_conversation (se_id s) (\<lambda>k. w_uuids w (w_next_uuid w + k)) c (aw_table w)"
  by (simp add: store_conversation_def Let_def split: sum.split)

lemma visibility_table:
  assumes "distinct_ids t"
    and "update_message_metadata i (\<lambda>md. md\<lparr>user_visible := u, agent_visible := a\<rparr>) t = Inr t'"
  shows "get_conversation t' =
    map (\<lambda>m. if msg_id m = Some i then with_visibility u a m else m) (get_conversation t)"
proof -
  from assms(2) obtain b where b: "find (row_has_message_id i) (mt_rows t) = Some b"
    and t': "t' = t\<lparr>mt_rows := map (set_row_metadata i
        ((msg_metadata (row_message b))\<lparr>user_visible := u, agent_visible := a\<rparr>)) (mt_rows t)\<rparr>"
    by (auto simp: update_message_metadata_def split: option.splits)
  have same: "r = b" if "r \<in> set (mt_rows t)" "msg_id (row_message r) = Some i" for r
  proof -
    from find_split [OF b] have "b \<in> set (mt_rows t)" "msg_id (row_message b) = Some i"
      by (auto simp: row_has_message_id_def)
    with that assms(1) show ?thesis by (auto simp: distinct_ids_def distinct_map inj_on_def)
  qed
  show ?thesis
    unfolding t' by (rule get_conversation_map)
      (auto simp: set_row_metadata_def row_created_def row_has_message_id_def with_visibility_def
        dest: same)
qed


definition stored_request :: "tool_request" where
  "stored_request = \<lparr>tq_id = ''r1'', tq_tool_call = Inr \<lparr>ct_name = ''t'', ct_arguments = None\<rparr>,
     tq_metadata = None, tq_tool_meta = None\<rparr>"

definition stored_row :: message_row where
  "stored_row = \<lparr>row_id = 0, row_message =
     (message_new Assistant 1 [ToolRequest stored_request])\<lparr>msg_id := Some ''m1''\<rparr>\<rparr>"

definition idle_session :: session where
  "idle_session = \<lparr>se_id = ''s'', se_working_dir = ''/'', se_extension_data = JNull,
     se_usage = usage_default, se_schedule_id = None, se_recipe = None, se_conversation = None,
     se_message_count = 0, se_provider_name = None, se_mode = ModeAuto\<rparr>"

definition store_world :: "unit agent_world_scheme" where
  "store_world =
     \<lparr>w_events = [], w_uuids = (\<lambda>_. []), w_next_uuid = 0, w_tick = 0, w_cancel_at = None,
      pw_permissions = permission_manager_new None, pw_readonly_tools = {}, aw_mode = ModeAuto,
      aw_goal = None, aw_grind = None, aw_queue = [], aw_session = idle_session,
      aw_table = \<lparr>mt_rows = [stored_row], mt_next = 1\<rparr>, \<dots> = ()\<rparr>"

definition free_env :: "unit session_env" where
  "free_env = \<lparr>sv_estimate_cost = (\<lambda>_ _ _. None), sv_count_tokens = (\<lambda>_. Inr 0),
     sv_record_usage = (\<lambda>_ _ _ _ _ w. (Inr (), w))\<rparr>"

lemma free_env_lawful: "lawful_env free_env"
  by (simp add: lawful_env_def free_env_def)

lemmas store_example = store_world_def stored_row_def stored_request_def message_new_def
  update_tool_request_meta_def row_requests_tool_def requests_tool_def RECENT_ROWS_def
  patch_message_def merge_tool_meta_def map_insert_def row_has_message_id_def


subsection \<open>The runtime is lawful\<close>

lemma advances_extension [simp]:
  "advances w (w'\<lparr>aw_table := t\<rparr>) \<longleftrightarrow> advances w w'"
  "advances w (w'\<lparr>aw_session := s\<rparr>) \<longleftrightarrow> advances w w'"
  "advances w (w'\<lparr>aw_goal := g\<rparr>) \<longleftrightarrow> advances w w'"
  "advances w (w'\<lparr>aw_grind := g\<rparr>) \<longleftrightarrow> advances w w'"
  "advances w (w'\<lparr>aw_queue := q\<rparr>) \<longleftrightarrow> advances w w'"
  "advances w (w'\<lparr>pw_permissions := p\<rparr>) \<longleftrightarrow> advances w w'"
  by (simp_all add: advances_def)

lemma advances_ensure_aibuddy [simp]: "advances w (snd (ensure_aibuddy_ids eff w))"
  by (cases eff) simp_all

interpretation bare_machine: machine_laws "session_machine []"
  by unfold_locales (simp add: lawful_machine_def session_machine_def)

lemma ensure_aibuddy_advances: "advances w (snd (ensure_effects ensure_aibuddy_ids effs w))"
  using bare_machine.ensure_effects_advances [of w effs] by (simp add: session_machine_def)

lemma advances_store_message: "advances w (snd (store_message s m w))"
  by (simp add: store_message_def Let_def case_prod_beta)

lemma advances_store_conversation: "advances w (snd (store_conversation V s c w))"
  by (simp add: store_conversation_def Let_def split: sum.split) (simp add: advances_def)

lemma advances_persist_effect:
  assumes "lawful_env V"
  shows "advances w (snd (persist_effect V s eff w))"
proof (cases "(V, s, eff, w)" rule: persist_effect.cases)
  case (3 V s c u w)
  then show ?thesis
    using assms by (auto intro!: advances_try_bind advances_store_conversation
        simp: record_usage_lawful split: option.split)
qed (use assms in \<open>auto simp: advances_store_message advances_store_conversation
      record_usage_lawful split: sum.split\<close>)

lemma advances_persist_effects:
  assumes "lawful_env V"
  shows "advances w (snd (persist_effects V s effs w))"
  by (induction effs arbitrary: w)
    (simp_all add: advances_try_bind advances_persist_effect [OF assms])

lemma advances_publish: "advances w (publish evs w)"
proof (induction evs arbitrary: w)
  case (Cons ev evs)
  have "advances w (emit ev w)" by simp
  also have "advances (emit ev w) (publish (ev # evs) w)"
    using Cons.IH [of "emit ev w"] by (simp add: publish_def)
  finally show ?case .
qed (simp add: publish_def)

lemma session_runtime_lawful:
  assumes "lawful_env V"
  shows "lawful_runtime (session_runtime V)"
proof -
  have "advances w (snd (apply_effects V s effs w))" for s effs w
  proof -
    have "advances w (snd (ensure_effects ensure_aibuddy_ids effs w))"
      by (rule ensure_aibuddy_advances)
    moreover have "advances v (snd (try_bind (persist_effects V s effs')
        (\<lambda>_ w2. (Inr (), publish evs w2)) v))" for v effs' evs
      by (rule advances_try_bind [OF advances_persist_effects [OF assms]]) (simp add: advances_publish)
    ultimately show ?thesis
      by (simp add: apply_effects_def Let_def case_prod_beta) (rule advances_trans)
  qed
  then show ?thesis
    by (simp add: lawful_runtime_def session_runtime_def load_session_def Let_def)
qed

end
