(* ===== verification/Tool_Approval_Props.thy ===== *)
theory Tool_Approval_Props
  imports Tool_Approval Tool_Inspection_Props Session_Effects_Props
begin

text \<open>
  Properties of tool approval: when the approval operation has nothing left to do, every
  request that may run was allowed by the user or by the inspection; the reachable
  conversations keep what this rests on; and a decision is stored once.
\<close>

subsection \<open>The gate\<close>

text \<open>
  A request the user was asked about and has not answered is marked as not executable.
\<close>

definition turn_requests_of :: "message list \<Rightarrow> tool_request list" where
  "turn_requests_of ms = filter_map as_tool_request (blocks_of ms)"

definition gated_turn :: "message list \<Rightarrow> bool" where
  "gated_turn ms \<longleftrightarrow>
     (\<forall>r \<in> set (turn_requests_of ms). tq_id r \<in> confirmation_ids ms \<longrightarrow>
        confirmation_answers ms (tq_id r) = None \<longrightarrow> request_executable r = Some False)"

definition gated :: "conversation \<Rightarrow> bool" where
  "gated c \<longleftrightarrow> gated_turn (active_turn_messages c)"

lemma active_turn: "messages_since_kickoff c = Inr turn \<Longrightarrow> active_turn_messages c = turn"
  by (auto simp: messages_since_kickoff_def active_turn_messages_def split: option.splits)

lemma assistant_requests_subset: "set (assistant_requests ms) \<subseteq> set (turn_requests_of ms)"
  by (auto simp: assistant_requests_def turn_requests_of_def blocks_of_def set_filter_map)

lemma pending_ExecuteD:
  assumes "(r, Execute) \<in> set (pending_advertised_tool_requests pe ms)"
  shows "r \<in> set (as_tool_requests (from_messages ms))" "r \<in> set (turn_requests_of ms)"
    "tq_id r \<notin> answered_ids ms" "\<not> was_executed_externally r" "is_ok (tq_tool_call r)"
    "request_executable r \<noteq> Some False"
proof -
  from assms have r: "r \<in> set (assistant_requests ms)" "request_was_advertised ms r"
    and d: "request_disposition pe ms r = Some Execute"
    by (auto simp: pending_advertised_tool_requests_def pending_tool_requests_def set_filter_map)
  from r assistant_requests_subset show "r \<in> set (turn_requests_of ms)" by blast
  with r show "r \<in> set (as_tool_requests (from_messages ms))"
    by (simp add: from_messages_def turn_requests_of_def)
  from d show "tq_id r \<notin> answered_ids ms" "\<not> was_executed_externally r" "is_ok (tq_tool_call r)"
    "request_executable r \<noteq> Some False"
    by (auto simp: request_disposition_def split: if_splits sum.splits)
qed

lemma apply_answers_effects:
  "fst (apply_answers inss ps w) = concat (map answer_effects ps)"
  by (induction ps arbitrary: w) (simp_all add: case_prod_beta Let_def)

lemma response_of_answer:
  assumes "r \<in> set (as_tool_requests st)" and "tq_id r \<notin> as_answered st"
    and "as_responses st (tq_id r) = Some p"
  shows "\<exists>q \<in> set (approval_responses st). pr_tool_call_id q = tq_id r \<and> pr_permission q = p \<and>
    pr_executable q = request_executable r"
  using assms by (force simp: approval_responses_def set_filter_map)

text \<open>What the operation left undone when it does not apply.\<close>

lemma not_applicable_approval:
  assumes "tool_approval_run E pe inss s c w = (Inr NotApplicable, w')" and "aw_mode w \<noteq> ModeChat"
    and "messages_since_kickoff c = Inr turn"
  defines "st \<equiv> from_messages turn"
  defines "w1 \<equiv> snd (apply_answers inss (approval_responses st) w)"
  shows "\<forall>p \<in> set (approval_responses st). answer_effects p = []"
    and "\<exists>w2. judge_pending E pe inss (aw_mode w) c (approval_pending st) w1 = (Inr [], w2)"
proof -
  obtain answers v where answers: "apply_answers inss (approval_responses st) w = (answers, v)"
    by fastforce
  obtain res w2 where judged: "judge_pending E pe inss (aw_mode w) c (approval_pending st) v = (res, w2)"
    by fastforce
  from assms answers judged have "\<exists>effs. res = Inr effs \<and> answers @ effs = []"
    by (cases res) (auto simp: tool_approval_run_def applied_def not_applicable_def split: if_splits)
  with answers judged show "\<forall>p \<in> set (approval_responses st). answer_effects p = []"
      "\<exists>w2. judge_pending E pe inss (aw_mode w) c (approval_pending st) w1 = (Inr [], w2)"
    using apply_answers_effects [of inss "approval_responses st" w] by (auto simp: w1_def)
qed

lemma ask_user_Nil: "ask_user E pe results rs = Inr [] \<longleftrightarrow> rs = []"
  by (cases rs) (auto simp: result_bind_def split: sum.splits)

lemma judge_pending_quiet:
  assumes "judge_pending E pe inss mode c pending w = (Inr [], w')" and "has_permission_inspector inss"
    and "r \<in> set pending"
  shows "approved_by (fst (inspect_tools inss pending c mode w)) (tq_id r)"
proof -
  let ?check = "process_inspection_results pending (fst (inspect_tools inss pending c mode w))"
  have "pending \<noteq> []" using assms(3) by auto
  with assms(1,2) have quiet: "pc_denied ?check = []" "pc_needs_approval ?check = []"
    by (auto simp: judge_pending_def case_prod_beta Let_def process_with_permission_inspector_def
        result_bind_Inr_iff ask_user_Nil)
  have "tq_id r \<in> ids pending" using assms(3) by simp
  then show ?thesis
    using process_decides [of pending "fst (inspect_tools inss pending c mode w)"] quiet by auto
qed

lemma gated_approval:
  assumes "tool_approval_run E pe inss s c w = (Inr NotApplicable, w')" and "aw_mode w \<noteq> ModeChat"
    and "messages_since_kickoff c = Inr turn" and "gated c" and "has_permission_inspector inss"
    and "(r, Execute) \<in> set (pending_advertised_tool_requests pe turn)"
  shows "(\<exists>p. confirmation_answers turn (tq_id r) = Some p \<and> permission_allows p \<and>
      request_executable r = Some True) \<or>
    approved_by (fst (inspect_tools inss (approval_pending (from_messages turn)) c (aw_mode w)
      (snd (apply_answers inss (approval_responses (from_messages turn)) w)))) (tq_id r)"
proof (cases "confirmation_answers turn (tq_id r)")
  case (Some p)
  note r = pending_ExecuteD [OF assms(6)]
  have "as_responses (from_messages turn) (tq_id r) = Some p" using Some by (simp add: from_messages_def)
  with response_of_answer [OF r(1)] r(3) obtain q where q: "q \<in> set (approval_responses (from_messages turn))"
      "pr_permission q = p" "pr_executable q = request_executable r"
    by (auto simp: from_messages_def)
  with not_applicable_approval(1) [OF assms(1-3)] have "request_executable r = Some (permission_allows p)"
    by (fastforce simp: answer_effects_def split: if_splits)
  with r(6) Some show ?thesis by auto
next
  case None
  note r = pending_ExecuteD [OF assms(6)]
  have "tq_id r \<notin> confirmation_ids turn"
    using assms(4) r(2,6) None active_turn [OF assms(3)] by (auto simp: gated_def gated_turn_def)
  with None r have "r \<in> set (approval_pending (from_messages turn))"
    by (simp add: approval_pending_def unjudged_def) (simp add: from_messages_def)
  moreover obtain w2 where "judge_pending E pe inss (aw_mode w) c (approval_pending (from_messages turn))
      (snd (apply_answers inss (approval_responses (from_messages turn)) w)) = (Inr [], w2)"
    using not_applicable_approval(2) [OF assms(1-3)] by blast
  ultimately show ?thesis using judge_pending_quiet [OF _ assms(5)] by blast
qed

subsection \<open>How effects change the requests of a conversation\<close>

definition patch_request :: "string \<Rightarrow> json \<Rightarrow> tool_request \<Rightarrow> tool_request" where
  "patch_request i patch r =
     (if tq_id r = i then r\<lparr>tq_tool_meta := Some (merge_tool_meta (tq_tool_meta r) patch)\<rparr> else r)"

abbreviation executable_mark :: "bool \<Rightarrow> json" where
  "executable_mark b \<equiv> JObj [(TOOL_EXECUTABLE_KEY, JBool b)]"

lemma patch_request_id [simp]: "tq_id (patch_request i patch r) = tq_id r"
  by (simp add: patch_request_def)

lemma request_executable_marked:
  "request_executable (patch_request i (executable_mark b) r) =
     (if tq_id r = i then Some b else request_executable r)"
  by (cases "tq_tool_meta r")
    (auto simp: patch_request_def request_executable_def merge_tool_meta_def split: json.split)

lemma patch_request_others:
  "\<forall>r \<in> set rs. tq_id r \<noteq> i \<Longrightarrow> map (patch_request i patch) rs = rs"
  by (induction rs) (simp_all add: patch_request_def)

lemma requests_tool_ex:
  "list_ex (requests_tool i) cs \<longleftrightarrow> i \<in> tq_id ` set (filter_map as_tool_request cs)"
  by (induction cs) (auto simp: requests_tool_def split: option.splits)

lemma patch_blocks_requests:
  "distinct (map tq_id (filter_map as_tool_request cs)) \<Longrightarrow>
   filter_map as_tool_request (patch_blocks i patch cs) =
     map (patch_request i patch) (filter_map as_tool_request cs)"
proof (induction cs)
  case (Cons c cs)
  show ?case
  proof (cases "as_tool_request c")
    case None
    then have "patch_blocks i patch (c # cs) = c # patch_blocks i patch cs" by (cases c) auto
    with Cons None show ?thesis by simp
  next
    case (Some r)
    then have c: "c = ToolRequest r" by (cases c) auto
    show ?thesis
    proof (cases "tq_id r = i")
      case True
      with Cons.prems c have "\<forall>q \<in> set (filter_map as_tool_request cs). tq_id q \<noteq> i"
        by (force simp: image_iff)
      moreover have "patch_request i patch r =
          r\<lparr>tq_tool_meta := Some (merge_tool_meta (tq_tool_meta r) patch)\<rparr>"
        by (simp add: patch_request_def True)
      ultimately show ?thesis using c True patch_request_others by simp
    next
      case False
      with Cons c show ?thesis by (simp add: patch_request_def)
    qed
  qed
qed simp

lemma patch_blocks_others:
  "(\<And>r. g (ToolRequest r) = None) \<Longrightarrow> filter_map g (patch_blocks i patch cs) = filter_map g cs"
  by (induction cs) (auto split: message_content.split option.split)

lemma blocks_of_simps [simp]:
  "blocks_of [] = []" "blocks_of (m # ms) = msg_content m @ blocks_of ms"
  "blocks_of (ms @ ns) = blocks_of ms @ blocks_of ns"
  by (simp_all add: blocks_of_def)

lemma patch_all_Cons:
  "patch_all i patch (m # ms) =
     (if list_ex (requests_tool i) (msg_content m) then patch_message i patch m else m) #
     patch_all i patch ms"
  by (simp add: patch_all_def)

lemma turn_requests_patched:
  "distinct (map tq_id (turn_requests_of ms)) \<Longrightarrow>
   turn_requests_of (patch_all i patch ms) = map (patch_request i patch) (turn_requests_of ms)"
proof (induction ms)
  case Nil
  then show ?case by (simp add: turn_requests_of_def patch_all_def)
next
  case (Cons m ms)
  have "filter_map as_tool_request (msg_content
        (if list_ex (requests_tool i) (msg_content m) then patch_message i patch m else m)) =
      map (patch_request i patch) (filter_map as_tool_request (msg_content m))"
  proof (cases "list_ex (requests_tool i) (msg_content m)")
    case True
    with Cons.prems show ?thesis
      by (simp add: patch_message_def patch_blocks_requests turn_requests_of_def)
  next
    case False
    then have "\<forall>r \<in> set (filter_map as_tool_request (msg_content m)). tq_id r \<noteq> i"
      by (auto simp: requests_tool_ex)
    from patch_request_others [OF this] False show ?thesis by simp
  qed
  with Cons show ?case by (simp add: patch_all_Cons turn_requests_of_def)
qed

lemma blocks_patched:
  assumes "\<And>r. g (ToolRequest r) = None"
  shows "filter_map g (blocks_of (patch_all i patch ms)) = filter_map g (blocks_of ms)"
  by (induction ms)
    (simp_all add: patch_all_Cons patch_message_def patch_blocks_others [of g, OF assms],
      simp add: patch_all_def)

lemma patched_ids [simp]:
  "confirmation_ids (patch_all i patch ms) = confirmation_ids ms"
  "confirmation_answers (patch_all i patch ms) = confirmation_answers ms"
  by (simp_all add: confirmation_ids_def confirmation_answers_def blocks_patched)

lemma patch_blocks_kind:
  "list_ex is_tool_response_block (patch_blocks i patch cs) = list_ex is_tool_response_block cs"
  by (induction cs) (auto split: message_content.split)

lemma is_kickoff_patched [simp]:
  "is_kickoff (patch_message i patch m) = is_kickoff m"
  by (simp add: is_kickoff_def patch_message_def is_user_visible_def is_tool_response_def
      patch_blocks_kind)

lemma active_turn_patched:
  "active_turn_messages (patch_all i patch c) = patch_all i patch (active_turn_messages c)"
proof -
  have "suffix_from_last is_kickoff (patch_all i patch c) =
      map_option (patch_all i patch) (suffix_from_last is_kickoff c)"
    unfolding patch_all_def by (rule suffix_from_last_map) simp
  then show ?thesis
    by (cases "suffix_from_last is_kickoff c") (simp_all add: active_turn_messages_def)
qed

lemma active_turn_append:
  "active_turn_messages (c @ [m]) = (if is_kickoff m then [m] else active_turn_messages c @ [m])"
proof (cases "suffix_from_last is_kickoff c")
  case None
  then have "suffix_from_last is_kickoff (c @ [m]) = (if is_kickoff m then Some [m] else None)"
    by (simp add: suffix_from_last_append)
  with None show ?thesis by (simp add: active_turn_messages_def)
next
  case (Some turn)
  then have "suffix_from_last is_kickoff (c @ [m]) =
      Some (if is_kickoff m then [m] else turn @ [m])"
    by (simp add: suffix_from_last_append)
  with Some show ?thesis by (simp add: active_turn_messages_def)
qed

lemma active_turn_suffix: "suffix (active_turn_messages c) c"
proof (cases "suffix_from_last is_kickoff c")
  case (Some ms)
  then show ?thesis
    using suffix_from_last_SomeD [OF Some] by (auto simp: active_turn_messages_def suffix_def)
qed (simp add: active_turn_messages_def)

definition unique_requests :: "conversation \<Rightarrow> bool" where
  "unique_requests c \<longleftrightarrow> distinct (map tq_id (turn_requests_of c))"

lemma unique_turn:
  assumes "unique_requests c"
  shows "distinct (map tq_id (turn_requests_of (active_turn_messages c)))"
proof -
  obtain pre where "c = pre @ active_turn_messages c"
    using active_turn_suffix by (auto simp: suffix_def)
  with assms have "distinct (map tq_id (turn_requests_of (pre @ active_turn_messages c)))"
    by (simp add: unique_requests_def)
  then show ?thesis by (simp add: turn_requests_of_def)
qed

lemma unique_patched:
  "unique_requests c \<Longrightarrow> unique_requests (patch_all i patch c)"
  by (simp add: unique_requests_def turn_requests_patched comp_def)

subsection \<open>The gate is kept\<close>

text \<open>
  \<open>kept c\<close>: request ids are not reused and what the user was asked about and has not
  answered is marked.  A mark may only allow what the user answered.
\<close>

definition kept :: "conversation \<Rightarrow> bool" where
  "kept c \<longleftrightarrow> unique_requests c \<and> gated c"

definition turn_answers :: "conversation \<Rightarrow> string \<Rightarrow> permission option" where
  "turn_answers c = confirmation_answers (active_turn_messages c)"

lemma turn_answers_patched [simp]: "turn_answers (patch_all i patch c) = turn_answers c"
  by (simp add: turn_answers_def active_turn_patched)

lemma mark_kept:
  assumes "kept c" and "b \<longrightarrow> turn_answers c i \<noteq> None"
  shows "kept (effect_on c (mark_executable i b))"
proof -
  let ?turn = "active_turn_messages c"
  from assms(1) have u: "distinct (map tq_id (turn_requests_of ?turn))"
    by (simp add: kept_def unique_turn)
  have "gated_turn (patch_all i (executable_mark b) ?turn)"
    using assms
    by (auto simp: gated_turn_def turn_requests_patched [OF u] request_executable_marked kept_def
        gated_def turn_answers_def)
  with assms(1) show ?thesis
    by (simp add: kept_def mark_executable_def unique_patched gated_def active_turn_patched)
qed

definition marks_of :: "(string \<times> bool) list \<Rightarrow> aibuddy_effect list" where
  "marks_of ms = map (\<lambda>(i, b). mark_executable i b) ms"

lemma marks_kept:
  "kept c \<Longrightarrow> \<forall>(i, b) \<in> set ms. b \<longrightarrow> turn_answers c i \<noteq> None \<Longrightarrow>
   kept (foldl effect_on c (marks_of ms)) \<and>
   turn_answers (foldl effect_on c (marks_of ms)) = turn_answers c"
proof (induction ms arbitrary: c)
  case Nil
  then show ?case by (simp add: marks_of_def)
next
  case (Cons ib ms)
  obtain i b where ib: "ib = (i, b)" by fastforce
  with Cons.prems have "kept (effect_on c (mark_executable i b))" by (intro mark_kept) auto
  moreover have "turn_answers (effect_on c (mark_executable i b)) = turn_answers c"
    by (simp add: mark_executable_def)
  ultimately show ?case using Cons.IH [of "effect_on c (mark_executable i b)"] Cons.prems(2)
    by (simp add: marks_of_def ib)
qed

lemma dated_after_fields [simp]:
  "msg_content (dated_after c m) = msg_content m" "msg_role (dated_after c m) = msg_role m"
  "msg_metadata (dated_after c m) = msg_metadata m" "is_kickoff (dated_after c m) = is_kickoff m"
  by (simp_all add: dated_after_def is_kickoff_def is_user_visible_def is_tool_response_def)

lemma turn_of_single:
  "turn_requests_of [m] = filter_map as_tool_request (msg_content m)"
  "turn_requests_of (ms @ [m]) = turn_requests_of ms @ filter_map as_tool_request (msg_content m)"
  "confirmation_ids (ms @ [m]) =
     confirmation_ids ms \<union> set (filter_map confirmation_request_id (msg_content m))"
  "confirmation_ids [m] = set (filter_map confirmation_request_id (msg_content m))"
  "confirmation_answers (ms @ [m]) =
     confirmation_answers ms ++ map_of (rev (filter_map confirmation_answer (msg_content m)))"
  by (auto simp: turn_requests_of_def confirmation_ids_def confirmation_answers_def)

text \<open>Asking about a request: the mark, then the message to the user.\<close>

lemma confirmation_message_blocks:
  "msg_content (confirmation_message E results r call) =
     [ActionRequired (ToolConfirmation (tq_id r) (ct_name call) (unwrap_or (ct_arguments call) [])
        (security_message results (tq_id r)))]"
  "\<not> is_kickoff (confirmation_message E results r call)"
  by (simp_all add: confirmation_message_def user_only_def with_visibility_def
      with_action_required_def with_content_def mc_action_required_def message_assistant_def
      message_new_def is_kickoff_def)

lemma asked_kept:
  assumes "kept c"
  shows "kept (foldl effect_on c
      [mark_executable (tq_id r) False, append_effect (confirmation_message E results r call)])"
proof -
  let ?c = "effect_on c (mark_executable (tq_id r) False)"
  let ?turn = "active_turn_messages ?c"
  have k: "kept ?c" using assms by (rule mark_kept) simp
  have u: "distinct (map tq_id (turn_requests_of (active_turn_messages c)))"
    using assms by (simp add: kept_def unique_turn)
  have marked: "request_executable q = Some False"
    if "q \<in> set (turn_requests_of ?turn)" "tq_id q = tq_id r" for q
    using that by (auto simp: mark_executable_def active_turn_patched turn_requests_patched [OF u]
        request_executable_marked)
  have "gated_turn (?turn @ [dated_after ?c (confirmation_message E results r call)])"
    using k marked
    by (auto simp: gated_turn_def turn_of_single confirmation_message_blocks kept_def gated_def)
  moreover have "unique_requests (?c @ [dated_after ?c (confirmation_message E results r call)])"
    using k by (simp add: unique_requests_def turn_of_single confirmation_message_blocks kept_def)
  ultimately show ?thesis
    by (simp add: append_effect_def kept_def gated_def active_turn_append
        confirmation_message_blocks)
qed

lemma ask_user_kept:
  "ask_user E pe results rs = Inr effs \<Longrightarrow> kept c \<Longrightarrow> kept (foldl effect_on c effs)"
proof (induction rs arbitrary: effs c)
  case Nil
  then show ?case by simp
next
  case (Cons r rs)
  then obtain call rest where "ask_user E pe results rs = Inr rest"
    and "effs = [mark_executable (tq_id r) False,
      append_effect (confirmation_message E results r call)] @ rest"
    by (auto simp: result_bind_Inr_iff split: sum.splits)
  with Cons.IH Cons.prems(2) show ?case
    by (simp only: foldl_append asked_kept)
qed

lemma answer_effects_marks:
  "concat (map answer_effects ps) =
     marks_of (map (\<lambda>p. (pr_tool_call_id p, permission_allows (pr_permission p)))
       (filter (\<lambda>p. answer_effects p \<noteq> []) ps))"
  by (induction ps) (auto simp: answer_effects_def marks_of_def)

lemma approval_responses_answered:
  "p \<in> set (approval_responses (from_messages ms)) \<Longrightarrow>
   confirmation_answers ms (pr_tool_call_id p) \<noteq> None"
  by (auto simp: approval_responses_def from_messages_def set_filter_map split: if_splits)

lemma judge_pending_kept:
  assumes "judge_pending E pe inss mode c0 pending w = (Inr effs, w')" and "kept c"
  shows "kept (foldl effect_on c effs)"
proof -
  let ?results = "fst (inspect_tools inss pending c0 mode w)"
  let ?check = "unwrap_or (process_with_permission_inspector inss pending ?results) permission_check_empty"
  have "effs = [] \<or> (\<exists>asked. ask_user E pe ?results (pc_needs_approval ?check) = Inr asked \<and>
      effs = marks_of (map (\<lambda>r. (tq_id r, False)) (pc_denied ?check)) @ asked)"
    using assms(1)
    by (auto simp: judge_pending_def case_prod_beta Let_def result_bind_Inr_iff marks_of_def comp_def
        split: if_splits)
  then show ?thesis
  proof
    assume "\<exists>asked. ask_user E pe ?results (pc_needs_approval ?check) = Inr asked \<and>
      effs = marks_of (map (\<lambda>r. (tq_id r, False)) (pc_denied ?check)) @ asked"
    then obtain asked where asked: "ask_user E pe ?results (pc_needs_approval ?check) = Inr asked"
      and effs: "effs = marks_of (map (\<lambda>r. (tq_id r, False)) (pc_denied ?check)) @ asked"
      by blast
    have "kept (foldl effect_on c (marks_of (map (\<lambda>r. (tq_id r, False)) (pc_denied ?check))))"
      using marks_kept [OF assms(2), of "map (\<lambda>r. (tq_id r, False)) (pc_denied ?check)"] by auto
    with ask_user_kept [OF asked] show ?thesis by (simp add: effs)
  qed (simp add: assms(2))
qed

lemma approval_kept:
  assumes "tool_approval_run E pe inss s c w = (Inr (Applied res), w')" and "kept c"
  shows "kept (foldl effect_on c (sr_effects res))"
proof -
  from assms(1) obtain turn where turn: "messages_since_kickoff c = Inr turn" and mode: "aw_mode w \<noteq> ModeChat"
    by (auto simp: tool_approval_run_def not_applicable_def split: if_splits sum.splits)
  let ?st = "from_messages turn"
  obtain answers v where answers: "apply_answers inss (approval_responses ?st) w = (answers, v)"
    by fastforce
  obtain r w2 where judged: "judge_pending E pe inss (aw_mode w) c (approval_pending ?st) v = (r, w2)"
    by fastforce
  from assms(1) turn mode answers judged obtain effs where r: "r = Inr effs"
    and res: "sr_effects res = answers @ effs"
    by (cases r) (auto simp: tool_approval_run_def applied_def not_applicable_def split: if_splits)
  have marks: "answers = marks_of (map (\<lambda>p. (pr_tool_call_id p, permission_allows (pr_permission p)))
      (filter (\<lambda>p. answer_effects p \<noteq> []) (approval_responses ?st)))"
    using apply_answers_effects [of inss "approval_responses ?st" w] answers
    by (simp add: answer_effects_marks)
  have "kept (foldl effect_on c answers)"
    unfolding marks using active_turn [OF turn] approval_responses_answered [of _ turn]
    by (intro marks_kept [OF assms(2), THEN conjunct1]) (auto simp: turn_answers_def)
  with judged r show ?thesis by (simp add: res judge_pending_kept)
qed

subsection \<open>Reachable conversations\<close>

text \<open>
  The other operations add messages that ask nothing, answer nothing and request tools only
  under new ids; a client adds decisions; the approval operation carries out its effects.
\<close>

definition plain_message :: "conversation \<Rightarrow> message \<Rightarrow> bool" where
  "plain_message c m \<longleftrightarrow>
     filter_map confirmation_request_id (msg_content m) = [] \<and>
     filter_map confirmation_answer (msg_content m) = [] \<and>
     distinct (map tq_id (filter_map as_tool_request (msg_content m))) \<and>
     (\<forall>i \<in> tq_id ` set (filter_map as_tool_request (msg_content m)).
        i \<notin> tq_id ` set (turn_requests_of c) \<and> i \<notin> confirmation_ids c)"

inductive approval_step ::
  "('y agent_world_ext) inspector list \<Rightarrow> conversation \<Rightarrow> conversation \<Rightarrow> bool"
  for inss :: "('y agent_world_ext) inspector list"
where
  judged: "tool_approval_run E pe inss s c w = (Inr (Applied res), w') \<Longrightarrow>
    approval_step inss c (foldl effect_on c (sr_effects res))"
| answered: "confirmation_decision E sid c i p = Inr (Some m) \<Longrightarrow>
    approval_step inss c (effect_on c (append_effect m))"
| continued: "plain_message c m \<Longrightarrow> approval_step inss c (effect_on c (append_effect m))"

inductive approval_reachable :: "('y agent_world_ext) inspector list \<Rightarrow> conversation \<Rightarrow> bool"
  for inss :: "('y agent_world_ext) inspector list"
where
  start: "approval_reachable inss []"
| step: "approval_reachable inss c \<Longrightarrow> approval_step inss c c' \<Longrightarrow> approval_reachable inss c'"

lemma answer_kept:
  assumes "confirmation_decision E sid c i p = Inr (Some m)" and "kept c"
  shows "kept (effect_on c (append_effect m))"
proof -
  from assms(1) have m: "m = confirmation_response_message E i p"
    by (auto simp: confirmation_decision_def result_bind_Inr_iff Let_def
        split: if_splits option.splits)
  then have "\<not> is_kickoff m" "msg_content m = [ActionRequired (ToolConfirmationResponse i p)]"
    by (simp_all add: confirmation_response_message_def with_content_def with_visibility_def
        mc_tool_confirmation_response_def message_user_def message_new_def is_kickoff_def
        is_user_visible_def)
  with assms(2) show ?thesis
    by (simp add: append_effect_def kept_def gated_def active_turn_append unique_requests_def
        turn_of_single) (auto simp: gated_turn_def turn_of_single map_add_def split: option.splits)
qed

lemma plain_kept:
  assumes "plain_message c m" and "kept c"
  shows "kept (effect_on c (append_effect m))"
proof -
  let ?turn = "active_turn_messages c"
  obtain pre where c: "c = pre @ ?turn" using active_turn_suffix by (auto simp: suffix_def)
  have "confirmation_ids ?turn \<subseteq> confirmation_ids c"
    by (subst (2) c) (auto simp: confirmation_ids_def)
  with assms have "gated_turn (?turn @ [dated_after c m])"
    by (auto simp: plain_message_def gated_turn_def turn_of_single kept_def gated_def)
  moreover have "gated_turn [dated_after c m]"
    using assms(1) by (simp add: plain_message_def gated_turn_def turn_of_single)
  moreover have "unique_requests (c @ [dated_after c m])"
    using assms
    by (auto simp: plain_message_def unique_requests_def turn_of_single kept_def) (metis imageI)
  ultimately show ?thesis
    by (simp add: append_effect_def kept_def gated_def active_turn_append)
qed

lemma approval_step_kept: "approval_step inss c c' \<Longrightarrow> kept c \<Longrightarrow> kept c'"
  by (induction rule: approval_step.induct) (simp_all add: approval_kept answer_kept plain_kept)

lemma approval_reachable_kept: "approval_reachable inss c \<Longrightarrow> kept c"
proof (induction rule: approval_reachable.induct)
  case start
  show ?case
    by (simp add: kept_def unique_requests_def gated_def gated_turn_def turn_requests_of_def
        active_turn_messages_def)
next
  case (step c c')
  then show ?case by (blast intro: approval_step_kept)
qed

text \<open>
  C17: The gate before tools run.  Outside of chat mode, when the approval operation does not
  apply to a reachable conversation, each advertised request that is left to execute was
  allowed by the user and marked so, or was inspected just now and approved by the permission
  inspector with no other inspector objecting.
\<close>

theorem approval_gate:
  assumes "approval_reachable inss c" and "has_permission_inspector inss"
    and "tool_approval_run E pe inss s c w = (Inr NotApplicable, w')" and "aw_mode w \<noteq> ModeChat"
    and "messages_since_kickoff c = Inr turn"
    and "(r, Execute) \<in> set (pending_advertised_tool_requests pe turn)"
  shows "(\<exists>p. confirmation_answers turn (tq_id r) = Some p \<and> permission_allows p \<and>
      request_executable r = Some True) \<or>
    approved_by (fst (inspect_tools inss (approval_pending (from_messages turn)) c (aw_mode w)
      (snd (apply_answers inss (approval_responses (from_messages turn)) w)))) (tq_id r)"
  using gated_approval [OF assms(3-5) _ assms(2,6)] approval_reachable_kept [OF assms(1)]
  by (simp add: kept_def)

definition kickoff_message :: message where
  "kickoff_message = message_new User 1 [Text (text_content_new ''go'')]"

definition calling_message :: message where
  "calling_message = message_new Assistant 2 [ToolRequest stored_request]"

definition auto_inspectors :: "(unit agent_world_ext) inspector list" where
  "auto_inspectors = [PermissionInspector None]"

definition called_conversation :: conversation where
  "called_conversation = [kickoff_message, calling_message]"

lemma called_reachable: "approval_reachable auto_inspectors called_conversation"
proof -
  have "approval_step auto_inspectors [] (effect_on [] (append_effect kickoff_message))"
    by (rule approval_step.continued)
      (simp add: plain_message_def kickoff_message_def message_new_def)
  moreover have "approval_step auto_inspectors [kickoff_message]
      (effect_on [kickoff_message] (append_effect calling_message))"
    by (rule approval_step.continued)
      (simp add: plain_message_def kickoff_message_def calling_message_def message_new_def
        turn_requests_of_def confirmation_ids_def)
  moreover have "effect_on [] (append_effect kickoff_message) = [kickoff_message]"
    "effect_on [kickoff_message] (append_effect calling_message) = called_conversation"
    by (simp_all add: append_effect_def dated_after_def kickoff_message_def calling_message_def
        message_new_def called_conversation_def)
  ultimately show ?thesis by (metis approval_reachable.intros)
qed

lemma called_turn: "messages_since_kickoff called_conversation = Inr called_conversation"
  by (simp add: messages_since_kickoff_def called_conversation_def kickoff_message_def
      calling_message_def message_new_def is_kickoff_def is_user_visible_def is_tool_response_def
      metadata_default_def)

lemmas called_defs = called_conversation_def kickoff_message_def calling_message_def message_new_def
  metadata_default_def stored_request_def from_messages_def answered_ids_def confirmation_ids_def
  confirmation_answers_def request_was_advertised_def approval_responses_def approval_pending_def
  unjudged_def was_executed_externally_def request_executable_def meta_get_def

lemma called_pending:
  "(stored_request, Execute) \<in> set (pending_advertised_tool_requests pe called_conversation)"
  by (simp add: pending_advertised_tool_requests_def pending_tool_requests_def
      assistant_requests_def request_disposition_def called_defs)

lemma called_state:
  "approval_responses (from_messages called_conversation) = []"
  "approval_pending (from_messages called_conversation) = [stored_request]"
  by (simp_all add: called_defs)

lemma auto_judgement:
  "judge_pending E pe auto_inspectors ModeAuto c [stored_request] w = (Inr [], w)"
  by (simp add: judge_pending_def auto_inspectors_def stored_request_def
      process_with_permission_inspector_def has_permission_inspector_def permission_inspect_def
      permission_verdict_def process_inspection_results_def permission_check_empty_def
      add_baseline_def permission_result_def)

lemma called_not_applicable:
  "tool_approval_run E pe auto_inspectors s called_conversation store_world =
     (not_applicable, store_world)"
  by (simp add: tool_approval_run_def called_turn called_state store_world_def auto_judgement)

theorem approval_gate_witness:
  "approved_by (fst (inspect_tools auto_inspectors
     (approval_pending (from_messages called_conversation)) called_conversation ModeAuto
     (snd (apply_answers auto_inspectors
        (approval_responses (from_messages called_conversation)) store_world)))) ''r1''"
  using approval_gate [OF called_reachable _ called_not_applicable [unfolded not_applicable_def] _
      called_turn called_pending]
  by (simp add: auto_inspectors_def has_permission_inspector_def store_world_def)
    (simp add: called_defs)

subsection \<open>A decision is stored once\<close>

lemma find_append_None: "\<not> p y \<Longrightarrow> find p (xs @ [y]) = find p xs"
  by (induction xs) simp_all

lemma advertised_append_user:
  "msg_role m = User \<Longrightarrow> request_was_advertised (ms @ [m]) = request_was_advertised ms"
  by (rule ext) (simp add: request_was_advertised_def find_append_None split: sum.split)

lemma response_message_fields:
  "msg_role (confirmation_response_message E i p) = User"
  "\<not> is_kickoff (confirmation_response_message E i p)"
  "msg_content (confirmation_response_message E i p) = [ActionRequired (ToolConfirmationResponse i p)]"
  by (simp_all add: confirmation_response_message_def with_content_def with_visibility_def
      mc_tool_confirmation_response_def message_user_def message_new_def is_kickoff_def
      is_user_visible_def)

text \<open>
  Once the client's decision on a request is stored, storing it again changes nothing,
  whatever the client repeats, and a different decision on the same request is refused.
\<close>

theorem decision_stored_once:
  assumes "confirmation_decision E sid c i p = Inr (Some m)"
  shows "confirmation_decision E sid' (c @ [dated_after c m]) i q =
    (if q = p then Inr None
     else Inl (''Tool request '' @ i @ '' already has a different confirmation decision''))"
proof -
  from assms obtain turn where turn: "messages_since_kickoff c = Inr turn"
    and asked: "has_confirmation_request (from_messages turn) i"
    and m: "m = confirmation_response_message E i p"
    by (auto simp: confirmation_decision_def result_bind_Inr_iff Let_def
        split: if_splits option.splits)
  let ?m = "dated_after c m"
  have turn': "messages_since_kickoff (c @ [?m]) = Inr (turn @ [?m])"
    by (rule messages_since_kickoff_app [OF turn]) (simp add: m response_message_fields)
  have "has_confirmation_request (from_messages (turn @ [?m])) i"
    using asked by (simp add: has_confirmation_request_def from_messages_def turn_of_single m
        response_message_fields advertised_append_user)
  moreover have "as_responses (from_messages (turn @ [?m])) i = Some p"
    by (simp add: from_messages_def turn_of_single m response_message_fields)
  ultimately show ?thesis by (simp add: confirmation_decision_def turn' Let_def)
qed

definition asking_message :: message where
  "asking_message = message_new Assistant 3 [ActionRequired (ToolConfirmation ''r1'' ''t'' [] None)]"

theorem decision_stored_once_witness:
  "confirmation_decision plain_env ''s''
     ((called_conversation @ [asking_message]) @ [dated_after (called_conversation @ [asking_message])
        (confirmation_response_message plain_env ''r1'' AllowOnce)]) ''r1'' AllowOnce = Inr None"
proof -
  have turn: "messages_since_kickoff (called_conversation @ [asking_message]) =
      Inr (called_conversation @ [asking_message])"
    by (rule messages_since_kickoff_app [OF called_turn])
      (simp add: asking_message_def message_new_def is_kickoff_def)
  have "confirmation_decision plain_env ''s'' (called_conversation @ [asking_message]) ''r1'' AllowOnce =
      Inr (Some (confirmation_response_message plain_env ''r1'' AllowOnce))"
    by (simp add: confirmation_decision_def turn has_confirmation_request_def)
      (simp add: called_defs asking_message_def)
  from decision_stored_once [OF this, of "''s''" AllowOnce] show ?thesis by simp
qed

end
