(* ===== verification/Hooks.thy ===== *)
theory Hooks
  imports Agent_World
begin

text \<open>
  \<open>crates/aibuddy/src/hooks/mod.rs\<close>: plugin hooks.  The rules of every enabled plugin are
  loaded from its \<open>hooks.json\<close>; an event runs the commands of the rules whose matcher
  accepts its context, in order, with the context as JSON on standard input.  A blocking
  event stops at the first command that denies it, or that fails while it is configured to
  block on failure.  Running a process, parsing JSON, the regular expressions and the
  decoding of bytes are parameters; logging is left out.
\<close>

subsection \<open>Events\<close>

datatype hook_event =
    PreToolUse
  | PreToolUseResult
  | PostToolUse
  | PostToolUseFailure
  | SessionStart
  | SessionEnd
  | UserPromptSubmit
  | BeforeReadFile
  | AfterFileEdit
  | BeforeShellExecution
  | AfterShellExecution
  | StopEvent

fun event_name :: "hook_event \<Rightarrow> string" where
  "event_name PreToolUse = ''PreToolUse''"
| "event_name PreToolUseResult = ''PreToolUseResult''"
| "event_name PostToolUse = ''PostToolUse''"
| "event_name PostToolUseFailure = ''PostToolUseFailure''"
| "event_name SessionStart = ''SessionStart''"
| "event_name SessionEnd = ''SessionEnd''"
| "event_name UserPromptSubmit = ''UserPromptSubmit''"
| "event_name BeforeReadFile = ''BeforeReadFile''"
| "event_name AfterFileEdit = ''AfterFileEdit''"
| "event_name BeforeShellExecution = ''BeforeShellExecution''"
| "event_name AfterShellExecution = ''AfterShellExecution''"
| "event_name StopEvent = ''Stop''"

definition event_from_name :: "string \<Rightarrow> hook_event option" where
  "event_from_name n =
     (if n = ''PreToolUse'' then Some PreToolUse
      else if n = ''PreToolUseResult'' then Some PreToolUseResult
      else if n = ''PostToolUse'' then Some PostToolUse
      else if n = ''PostToolUseFailure'' then Some PostToolUseFailure
      else if n = ''SessionStart'' then Some SessionStart
      else if n = ''SessionEnd'' then Some SessionEnd
      else if n = ''UserPromptSubmit'' then Some UserPromptSubmit
      else if n = ''BeforeReadFile'' then Some BeforeReadFile
      else if n = ''AfterFileEdit'' then Some AfterFileEdit
      else if n = ''BeforeShellExecution'' then Some BeforeShellExecution
      else if n = ''AfterShellExecution'' then Some AfterShellExecution
      else if n = ''Stop'' then Some StopEvent
      else None)"

subsection \<open>Rules\<close>

datatype on_failure = FailAllow | FailBlock

datatype loaded_action =
  HookCommand (la_command: string) (la_timeout: nat) (la_on_failure: on_failure)

text \<open>A compiled regular expression is the set of strings it matches.\<close>

record loaded_rule =
  lr_plugin_name :: string
  lr_plugin_root :: string
  lr_matcher :: "(string \<Rightarrow> bool) option"
  lr_actions :: "loaded_action list"

record hook_manager =
  hm_rules :: "hook_event \<Rightarrow> loaded_rule list option"
  hm_use_login_shell_path :: bool

text \<open>\<open>std::process::Output\<close>: no exit code for a process ended by a signal.\<close>

record process_output =
  po_code :: "int option"
  po_stdout :: string
  po_stderr :: string

definition output_success :: "process_output \<Rightarrow> bool" where
  "output_success out \<longleftrightarrow> po_code out = Some 0"

record hook_run =
  hr_output :: process_output
  hr_stdin_delivered :: bool

text \<open>
  What the hooks take from elsewhere: \<open>serde_json::to_string\<close>, the parser of a JSON text
  (\<open>None\<close> for a syntax error or a repeated member), \<open>String::from_utf8_lossy\<close> and
  \<open>str::from_utf8\<close>, \<open>Regex::new\<close>, the path of the login shell and of the process, and the
  execution of a command (command, plugin root, path, payload, timeout in seconds; \<open>None\<close>
  when it timed out).
\<close>

record 'x hook_env =
  he_to_string :: "json \<Rightarrow> string option"
  he_parse :: "string \<Rightarrow> json option"
  he_lossy :: "string \<Rightarrow> string"
  he_utf8 :: "string \<Rightarrow> bool"
  he_regex :: "string \<Rightarrow> (string \<Rightarrow> bool) option"
  he_login_path :: "string option"
  he_path_var :: string
  he_exec :: "string \<Rightarrow> string \<Rightarrow> string option \<Rightarrow> string \<Rightarrow> nat \<Rightarrow> (hook_run result option, 'x) act"

definition DEFAULT_HOOK_TIMEOUT_SECS :: nat where "DEFAULT_HOOK_TIMEOUT_SECS = 30"
definition COMMAND_FAILED_REASON :: string where
  "COMMAND_FAILED_REASON = ''the hook command failed to run''"
definition SERIALIZATION_FAILED_REASON :: string where
  "SERIALIZATION_FAILED_REASON = ''the hook payload could not be serialized''"
definition STDIN_DELIVERY_FAILED_REASON :: string where
  "STDIN_DELIVERY_FAILED_REASON = ''the hook did not receive the request payload''"

subsection \<open>The context of a hook\<close>

record hook_context =
  hc_event :: string
  hc_session_id :: string
  hc_matcher_context :: "string option"
  hc_tool_call_id :: "string option"
  hc_tool_name :: "string option"
  hc_tool_input :: "json option"
  hc_tool_output :: "json option"
  hc_message :: "string option"
  hc_last_assistant_message :: "string option"
  hc_working_dir :: "string option"
  hc_decision :: "string option"
  hc_policy_evaluated :: "bool option"
  hc_blocked_by :: "string option"
  hc_reason :: "string option"

definition hook_context_new :: "hook_event \<Rightarrow> string \<Rightarrow> hook_context" where
  "hook_context_new ev sid =
     \<lparr>hc_event = event_name ev, hc_session_id = sid, hc_matcher_context = None,
      hc_tool_call_id = None, hc_tool_name = None, hc_tool_input = None, hc_tool_output = None,
      hc_message = None, hc_last_assistant_message = None, hc_working_dir = None,
      hc_decision = None, hc_policy_evaluated = None, hc_blocked_by = None, hc_reason = None\<rparr>"

definition with_tool :: "string \<Rightarrow> json option \<Rightarrow> hook_context \<Rightarrow> hook_context" where
  "with_tool name inp ctx =
     ctx\<lparr>hc_matcher_context := Some name, hc_tool_name := Some name, hc_tool_input := inp\<rparr>"

definition with_tool_output :: "json \<Rightarrow> hook_context \<Rightarrow> hook_context" where
  "with_tool_output out ctx = ctx\<lparr>hc_tool_output := Some out\<rparr>"

definition with_message :: "string \<Rightarrow> hook_context \<Rightarrow> hook_context" where
  "with_message msg ctx =
     ctx\<lparr>hc_matcher_context := Some (unwrap_or (hc_matcher_context ctx) msg),
         hc_message := Some msg\<rparr>"

definition with_last_assistant_message :: "string \<Rightarrow> hook_context \<Rightarrow> hook_context" where
  "with_last_assistant_message msg ctx =
     (if msg \<noteq> [] then ctx\<lparr>hc_last_assistant_message := Some msg\<rparr> else ctx)"

definition with_working_dir :: "string \<Rightarrow> hook_context \<Rightarrow> hook_context" where
  "with_working_dir dir ctx = ctx\<lparr>hc_working_dir := Some dir\<rparr>"

definition with_tool_call_id :: "string \<Rightarrow> hook_context \<Rightarrow> hook_context" where
  "with_tool_call_id i ctx = ctx\<lparr>hc_tool_call_id := Some i\<rparr>"

text \<open>The \<open>Serialize\<close> derived for the context: absent fields are skipped, the matcher is not.\<close>

definition json_field :: "string \<Rightarrow> ('a \<Rightarrow> json) \<Rightarrow> 'a option \<Rightarrow> json_object" where
  "json_field k f v = (case v of None \<Rightarrow> [] | Some x \<Rightarrow> [(k, f x)])"

definition context_members :: "hook_context \<Rightarrow> json_object" where
  "context_members ctx =
     [(''event'', JStr (hc_event ctx)), (''session_id'', JStr (hc_session_id ctx)),
      (''matcher_context'', case hc_matcher_context ctx of None \<Rightarrow> JNull | Some s \<Rightarrow> JStr s)] @
     json_field ''tool_call_id'' JStr (hc_tool_call_id ctx) @
     json_field ''tool_name'' JStr (hc_tool_name ctx) @
     json_field ''tool_input'' (\<lambda>v. v) (hc_tool_input ctx) @
     json_field ''tool_output'' (\<lambda>v. v) (hc_tool_output ctx) @
     json_field ''message'' JStr (hc_message ctx) @
     json_field ''last_assistant_message'' JStr (hc_last_assistant_message ctx) @
     json_field ''working_dir'' JStr (hc_working_dir ctx) @
     json_field ''decision'' JStr (hc_decision ctx) @
     json_field ''policy_evaluated'' JBool (hc_policy_evaluated ctx) @
     json_field ''blocked_by'' JStr (hc_blocked_by ctx) @
     json_field ''reason'' JStr (hc_reason ctx)"

subsection \<open>Decisions\<close>

datatype hook_decision = HookAllow | HookDeny (hd_reason: string) (hd_plugin: string)

datatype hook_outcome_cause = PolicyDenial | HookFailureCause

fun cause_as_str :: "hook_outcome_cause \<Rightarrow> string" where
  "cause_as_str PolicyDenial = ''policy_denial''"
| "cause_as_str HookFailureCause = ''hook_failure''"

record hook_chain_outcome =
  co_decision :: hook_decision
  co_policy_evaluated :: bool
  co_cause :: "hook_outcome_cause option"

definition outcome_allow :: "bool \<Rightarrow> hook_chain_outcome" where
  "outcome_allow evaluated =
     \<lparr>co_decision = HookAllow, co_policy_evaluated = evaluated, co_cause = None\<rparr>"

record hook_denial =
  dn_message :: string
  dn_error_type :: string

text \<open>A name in backquotes, as the messages print it.\<close>

definition ticked :: "string \<Rightarrow> string" where
  "ticked s = ''`'' @ s @ ''`''"

definition outcome_denial :: "hook_chain_outcome \<Rightarrow> hook_denial option" where
  "outcome_denial out =
     (case co_decision out of
        HookAllow \<Rightarrow> None
      | HookDeny reason plugin \<Rightarrow>
          Some (if co_cause out = Some HookFailureCause
            then \<lparr>dn_message = ''Tool call blocked because policy hook '' @ ticked plugin @
                    '' could not complete: '' @ reason @
                    ''. That hook is configured to block on failure.'',
                  dn_error_type = ''hook_failed''\<rparr>
            else \<lparr>dn_message = ''Tool call denied by policy hook '' @ ticked plugin @ '': '' @ reason @
                    ''. Do not retry; this is a policy denial, not a transient failure.'',
                  dn_error_type = ''hook_denied''\<rparr>))"

text \<open>The payload of \<open>PreToolUseResult\<close>: the flattened context and the cause.\<close>

record result_payload =
  rp_context :: hook_context
  rp_cause :: "string option"

definition with_pre_tool_use_outcome :: "hook_chain_outcome \<Rightarrow> hook_context \<Rightarrow> result_payload" where
  "with_pre_tool_use_outcome out ctx =
     (let ctx' = ctx\<lparr>hc_policy_evaluated := Some (co_policy_evaluated out)\<rparr>
      in \<lparr>rp_context =
            (case co_decision out of
               HookAllow \<Rightarrow> ctx'\<lparr>hc_decision := Some ''allow''\<rparr>
             | HookDeny reason plugin \<Rightarrow>
                 ctx'\<lparr>hc_decision := Some ''deny'', hc_blocked_by := Some plugin,
                      hc_reason := Some reason\<rparr>),
          rp_cause = map_option cause_as_str (co_cause out)\<rparr>)"

definition payload_members :: "result_payload \<Rightarrow> json_object" where
  "payload_members p = context_members (rp_context p) @ json_field ''cause'' JStr (rp_cause p)"

subsection \<open>Running a command\<close>

text \<open>\<open>str::replace\<close> of a non-empty pattern: its occurrences from the left.\<close>

function str_replace :: "string \<Rightarrow> string \<Rightarrow> string \<Rightarrow> string" where
  "str_replace p q s =
     (if p = [] then s
      else (case split_once p s of None \<Rightarrow> s | Some (a, b) \<Rightarrow> a @ q @ str_replace p q b))"
  by pat_completeness auto
termination
  by (relation "measure (\<lambda>(p, q, s). length s)") (auto dest: split_once_SomeD)

declare str_replace.simps [simp del]

definition expand_plugin_root :: "string \<Rightarrow> string \<Rightarrow> string" where
  "expand_plugin_root command root = str_replace ''${PLUGIN_ROOT}'' root command"

text \<open>The loop over the entries, with the set of those already seen.\<close>

fun merge_entries :: "string set \<Rightarrow> string list \<Rightarrow> string list" where
  "merge_entries seen [] = []"
| "merge_entries seen (e # es) =
     (if e \<noteq> [] \<and> e \<notin> seen then e # merge_entries (insert e seen) es
      else merge_entries seen es)"

definition merge_paths :: "string \<Rightarrow> string \<Rightarrow> string" where
  "merge_paths p q = join '':'' (merge_entries {} (split_char CHR '':'' p @ split_char CHR '':'' q))"

definition hook_path :: "'x hook_env \<Rightarrow> string option" where
  "hook_path E = map_option (\<lambda>login. merge_paths login (he_path_var E)) (he_login_path E)"

definition run_command_hook ::
  "'x hook_env \<Rightarrow> bool \<Rightarrow> string \<Rightarrow> string \<Rightarrow> string \<Rightarrow> nat \<Rightarrow> (hook_run result, 'x) act" where
  "run_command_hook E login raw root payload timeout w =
     (case he_exec E (expand_plugin_root raw root) root (if login then hook_path E else None)
             payload timeout w of
        (None, w1) \<Rightarrow>
          (Inl (''hook '' @ ticked raw @ '' timed out after '' @ show_nat timeout @ ''s''), w1)
      | (Some r, w1) \<Rightarrow> (r, w1))"

definition run_action ::
  "'x hook_env \<Rightarrow> hook_manager \<Rightarrow> loaded_rule \<Rightarrow> loaded_action \<Rightarrow> string \<Rightarrow> (hook_run result, 'x) act"
where
  "run_action E M rule action payload =
     run_command_hook E (hm_use_login_shell_path M) (la_command action) (lr_plugin_root rule)
       payload (la_timeout action)"

subsection \<open>What a run says\<close>

datatype hook_verdict = VerdictAllow | PolicyDeny string | HookFailed string

text \<open>\<open>Option<String>\<close> in a derived \<open>Deserialize\<close>: absent and null are \<open>None\<close>.\<close>

definition optional_string :: "string \<Rightarrow> json_object \<Rightarrow> string option option" where
  "optional_string k m =
     (case map_of m k of
        None \<Rightarrow> Some None
      | Some JNull \<Rightarrow> Some None
      | Some (JStr s) \<Rightarrow> Some (Some s)
      | Some _ \<Rightarrow> None)"

definition parse_response :: "'x hook_env \<Rightarrow> string \<Rightarrow> string option \<times> string option" where
  "parse_response E trimmed =
     (if starts_with trimmed ''{'' then
        (case he_parse E trimmed of
           Some (JObj m) \<Rightarrow>
             (case (optional_string ''decision'' m, optional_string ''reason'' m) of
                (Some d, Some r) \<Rightarrow> (d, r)
              | _ \<Rightarrow> (None, None))
         | _ \<Rightarrow> (None, None))
      else (None, None))"

definition DEFAULT_DENY :: string where "DEFAULT_DENY = ''denied by plugin hook''"

definition non_empty :: "string \<Rightarrow> string" where
  "non_empty s = (if s = [] then DEFAULT_DENY else s)"

definition classify_output :: "'x hook_env \<Rightarrow> process_output \<Rightarrow> hook_verdict" where
  "classify_output E out =
     (if po_code out = Some 2 then PolicyDeny (non_empty (trim (he_lossy E (po_stderr out))))
      else if \<not> he_utf8 E (po_stdout out)
      then HookFailed ''the hook wrote invalid UTF-8 to stdout''
      else
        (let trimmed = trim (po_stdout out); (decision, reason) = parse_response E trimmed
         in if decision = Some ''block'' then PolicyDeny (non_empty (unwrap_or reason []))
            else if po_code out = Some 0 \<and> (trimmed = [] \<or> decision = Some ''allow'')
            then VerdictAllow
            else HookFailed
              (case po_code out of
                 Some code \<Rightarrow>
                   if code = 0
                   then ''the hook exited 0 without an allow or block decision on stdout''
                   else ''the hook exited with status '' @ show_int code @ '' and no usable decision''
               | None \<Rightarrow> ''the hook was terminated by a signal'')))"

fun is_policy_deny :: "hook_verdict \<Rightarrow> bool" where
  "is_policy_deny (PolicyDeny _) = True"
| "is_policy_deny _ = False"

definition classify_run :: "'x hook_env \<Rightarrow> hook_run \<Rightarrow> hook_verdict" where
  "classify_run E run =
     (let verdict = classify_output E (hr_output run)
      in if hr_stdin_delivered run \<or> is_policy_deny verdict then verdict
         else HookFailed STDIN_DELIVERY_FAILED_REASON)"

datatype chain_step = ChainAllowed | ChainDenied string hook_outcome_cause | FailedOpen string

fun apply_verdict :: "hook_verdict \<Rightarrow> on_failure \<Rightarrow> hook_event \<Rightarrow> chain_step" where
  "apply_verdict VerdictAllow f ev = ChainAllowed"
| "apply_verdict (PolicyDeny reason) f ev = ChainDenied reason PolicyDenial"
| "apply_verdict (HookFailed reason) f ev =
     (if f = FailBlock \<and> ev = PreToolUse then ChainDenied reason HookFailureCause
      else FailedOpen reason)"

definition extract_banner :: "'x hook_env \<Rightarrow> string \<Rightarrow> string option" where
  "extract_banner E out =
     (if \<not> starts_with out ''{'' then None
      else
        (case he_parse E out of
           Some (JObj m) \<Rightarrow>
             (case optional_string ''banner'' m of
                Some (Some b) \<Rightarrow> if b = [] then None else Some b
              | _ \<Rightarrow> None)
         | _ \<Rightarrow> None))"

subsection \<open>Emitting events\<close>

definition has_hooks :: "hook_manager \<Rightarrow> hook_event \<Rightarrow> bool" where
  "has_hooks M ev \<longleftrightarrow> is_some_and (hm_rules M ev) (\<lambda>rs. rs \<noteq> [])"

definition rule_matches :: "string \<Rightarrow> loaded_rule \<Rightarrow> bool" where
  "rule_matches target rule \<longleftrightarrow> (case lr_matcher rule of None \<Rightarrow> True | Some m \<Rightarrow> m target)"

definition matching_rules ::
  "hook_manager \<Rightarrow> hook_event \<Rightarrow> string option \<Rightarrow> (loaded_rule \<times> loaded_action) list" where
  "matching_rules M ev mc =
     (case hm_rules M ev of
        None \<Rightarrow> []
      | Some rules \<Rightarrow>
          concat (map (\<lambda>rule. map (Pair rule) (lr_actions rule))
            (filter (rule_matches (unwrap_or mc [])) rules)))"

definition matching_actions ::
  "hook_manager \<Rightarrow> hook_event \<Rightarrow> hook_context \<Rightarrow> (loaded_rule \<times> loaded_action) list" where
  "matching_actions M ev ctx = matching_rules M ev (hc_matcher_context ctx)"

fun run_all ::
  "'x hook_env \<Rightarrow> hook_manager \<Rightarrow> string \<Rightarrow> (loaded_rule \<times> loaded_action) list \<Rightarrow>
   'x world_scheme \<Rightarrow> 'x world_scheme" where
  "run_all E M payload [] w = w"
| "run_all E M payload ((rule, action) # rest) w =
     run_all E M payload rest (snd (run_action E M rule action payload w))"

definition emit_serialized ::
  "'x hook_env \<Rightarrow> hook_manager \<Rightarrow> hook_event \<Rightarrow> string option \<Rightarrow> string \<Rightarrow>
   'x world_scheme \<Rightarrow> 'x world_scheme" where
  "emit_serialized E M ev mc payload w = run_all E M payload (matching_rules M ev mc) w"

definition emit_hook ::
  "'x hook_env \<Rightarrow> hook_manager \<Rightarrow> hook_event \<Rightarrow> hook_context \<Rightarrow> 'x world_scheme \<Rightarrow> 'x world_scheme"
where
  "emit_hook E M ev ctx w =
     (if \<not> has_hooks M ev then w
      else (case he_to_string E (JObj (context_members ctx)) of
              None \<Rightarrow> w
            | Some payload \<Rightarrow> emit_serialized E M ev (hc_matcher_context ctx) payload w))"

definition emit_pre_tool_use_result ::
  "'x hook_env \<Rightarrow> hook_manager \<Rightarrow> result_payload \<Rightarrow> 'x world_scheme \<Rightarrow> 'x world_scheme" where
  "emit_pre_tool_use_result E M p w =
     (if \<not> has_hooks M PreToolUseResult then w
      else (case he_to_string E (JObj (payload_members p)) of
              None \<Rightarrow> w
            | Some payload \<Rightarrow>
                emit_serialized E M PreToolUseResult (hc_matcher_context (rp_context p)) payload w))"

fun collect_banners ::
  "'x hook_env \<Rightarrow> hook_manager \<Rightarrow> string \<Rightarrow> (loaded_rule \<times> loaded_action) list \<Rightarrow>
   (string list, 'x) act" where
  "collect_banners E M payload [] w = ([], w)"
| "collect_banners E M payload ((rule, action) # rest) w =
     (let (r, w1) = run_action E M rule action payload w;
          (bs, w2) = collect_banners E M payload rest w1
      in ((case r of
             Inl _ \<Rightarrow> bs
           | Inr run \<Rightarrow>
               if output_success (hr_output run)
               then (case extract_banner E (trim (he_lossy E (po_stdout (hr_output run)))) of
                       None \<Rightarrow> bs
                     | Some b \<Rightarrow> b # bs)
               else bs), w2))"

definition emit_collecting_banners ::
  "'x hook_env \<Rightarrow> hook_manager \<Rightarrow> hook_event \<Rightarrow> hook_context \<Rightarrow> (string list, 'x) act" where
  "emit_collecting_banners E M ev ctx w =
     (if \<not> has_hooks M ev then ([], w)
      else (case he_to_string E (JObj (context_members ctx)) of
              None \<Rightarrow> ([], w)
            | Some payload \<Rightarrow> collect_banners E M payload (matching_actions M ev ctx) w))"

definition serialization_failure_outcome ::
  "(loaded_rule \<times> loaded_action) list \<Rightarrow> hook_event \<Rightarrow> hook_chain_outcome" where
  "serialization_failure_outcome matched ev =
     \<lparr>co_decision =
        (case find (\<lambda>(rule, action). la_on_failure action = FailBlock) matched of
           Some (rule, action) \<Rightarrow>
             if ev = PreToolUse then HookDeny SERIALIZATION_FAILED_REASON (lr_plugin_name rule)
             else HookAllow
         | None \<Rightarrow> HookAllow),
      co_policy_evaluated = False, co_cause = Some HookFailureCause\<rparr>"

text \<open>The verdict of one run, and whether it counts as an evaluation of the policy.\<close>

fun judge_run :: "'x hook_env \<Rightarrow> hook_run result \<Rightarrow> hook_verdict \<times> bool" where
  "judge_run E (Inr run) =
     (let verdict = classify_run E run
      in (verdict, output_success (hr_output run) \<or> is_policy_deny verdict))"
| "judge_run E (Inl e) = (HookFailed COMMAND_FAILED_REASON, False)"

fun run_chain ::
  "'x hook_env \<Rightarrow> hook_manager \<Rightarrow> hook_event \<Rightarrow> string \<Rightarrow> (loaded_rule \<times> loaded_action) list \<Rightarrow>
   bool \<Rightarrow> bool \<Rightarrow> (hook_chain_outcome, 'x) act" where
  "run_chain E M ev payload [] evaluated failed w =
     (\<lparr>co_decision = HookAllow, co_policy_evaluated = evaluated,
       co_cause = (if failed then Some HookFailureCause else None)\<rparr>, w)"
| "run_chain E M ev payload ((rule, action) # rest) evaluated failed w =
     (let (r, w1) = run_action E M rule action payload w;
          (verdict, ran) = judge_run E r
      in case apply_verdict verdict (la_on_failure action) ev of
           ChainAllowed \<Rightarrow> run_chain E M ev payload rest (evaluated \<or> ran) failed w1
         | FailedOpen reason \<Rightarrow> run_chain E M ev payload rest (evaluated \<or> ran) True w1
         | ChainDenied reason cause \<Rightarrow>
             (\<lparr>co_decision = HookDeny reason (lr_plugin_name rule),
               co_policy_evaluated = evaluated \<or> ran, co_cause = Some cause\<rparr>, w1))"

definition emit_blocking_with_outcome ::
  "'x hook_env \<Rightarrow> hook_manager \<Rightarrow> hook_event \<Rightarrow> hook_context \<Rightarrow> (hook_chain_outcome, 'x) act" where
  "emit_blocking_with_outcome E M ev ctx w =
     (let matched = matching_actions M ev ctx
      in if matched = [] then (outcome_allow False, w)
         else (case he_to_string E (JObj (context_members ctx)) of
                 None \<Rightarrow> (serialization_failure_outcome matched ev, w)
               | Some payload \<Rightarrow> run_chain E M ev payload matched False False w))"

definition emit_blocking ::
  "'x hook_env \<Rightarrow> hook_manager \<Rightarrow> hook_event \<Rightarrow> hook_context \<Rightarrow> (hook_decision, 'x) act" where
  "emit_blocking E M ev ctx w = apfst co_decision (emit_blocking_with_outcome E M ev ctx w)"

subsection \<open>Loading\<close>

datatype action_selection = Selected | Ignored

definition select_action :: "json \<Rightarrow> string \<Rightarrow> action_selection result" where
  "select_action action path =
     (case json_as_object action of
        None \<Rightarrow> Inl (''hook action in '' @ path @ '' must be an object'')
      | Some obj \<Rightarrow>
          (let command =
             (case map_of obj ''command'' of
                None \<Rightarrow> Inr Ignored
              | Some JNull \<Rightarrow> Inr Ignored
              | Some (JStr _) \<Rightarrow> Inr Selected
              | Some _ \<Rightarrow> Inl (''hook action `command` in '' @ path @ '' must be a string''))
           in case map_of obj ''type'' of
                None \<Rightarrow> command
              | Some JNull \<Rightarrow> command
              | Some (JStr t) \<Rightarrow> if t = ''command'' then command else Inr Ignored
              | Some _ \<Rightarrow> Inl (''hook action `type` in '' @ path @ '' must be a string'')))"

text \<open>
  The derived \<open>Deserialize\<close>s (serde): a struct is read from an object, whose unknown members
  are ignored, or from an array of its fields.
\<close>

record raw_hook_rule =
  rr_matcher :: "string option"
  rr_hooks :: "json list"

definition read_rule_hooks :: "json option \<Rightarrow> json list option" where
  "read_rule_hooks v = (case v of None \<Rightarrow> Some [] | Some j \<Rightarrow> json_as_array j)"

definition read_rule_fields :: "json_object \<Rightarrow> raw_hook_rule option" where
  "read_rule_fields m =
     (case (optional_string ''matcher'' m, read_rule_hooks (map_of m ''hooks'')) of
        (Some s, Some hs) \<Rightarrow> Some \<lparr>rr_matcher = s, rr_hooks = hs\<rparr>
      | _ \<Rightarrow> None)"

fun read_hook_rule :: "json \<Rightarrow> raw_hook_rule option" where
  "read_hook_rule (JObj m) = read_rule_fields m"
| "read_hook_rule (JArr []) = read_rule_fields []"
| "read_hook_rule (JArr [s]) = read_rule_fields [(''matcher'', s)]"
| "read_hook_rule (JArr [s, hs]) = read_rule_fields [(''matcher'', s), (''hooks'', hs)]"
| "read_hook_rule _ = None"

fun collect_some :: "'a option list \<Rightarrow> 'a list option" where
  "collect_some [] = Some []"
| "collect_some (x # xs) =
     Option.bind x (\<lambda>a. map_option (Cons a) (collect_some xs))"

definition read_hook_rules :: "json \<Rightarrow> raw_hook_rule list option" where
  "read_hook_rules v = Option.bind (json_as_array v) (\<lambda>vs. collect_some (map read_hook_rule vs))"

record raw_command_action =
  rc_command :: string
  rc_timeout :: "nat option"
  rc_on_failure_value :: "json option"

definition read_command_action :: "json \<Rightarrow> raw_command_action option" where
  "read_command_action v =
     Option.bind (json_as_object v) (\<lambda>m.
       case (map_of m ''command'', map_of m ''timeout'') of
         (Some (JStr c), None) \<Rightarrow>
           Some \<lparr>rc_command = c, rc_timeout = None, rc_on_failure_value = map_of m ''on_failure''\<rparr>
       | (Some (JStr c), Some JNull) \<Rightarrow>
           Some \<lparr>rc_command = c, rc_timeout = None, rc_on_failure_value = map_of m ''on_failure''\<rparr>
       | (Some (JStr c), Some t) \<Rightarrow>
           map_option (\<lambda>n. \<lparr>rc_command = c, rc_timeout = Some n,
               rc_on_failure_value = map_of m ''on_failure''\<rparr>) (json_as_u64 t)
       | _ \<Rightarrow> None)"

definition on_failure_named :: "string \<Rightarrow> on_failure option" where
  "on_failure_named s =
     (if s = ''allow'' then Some FailAllow else if s = ''block'' then Some FailBlock else None)"

fun read_on_failure :: "json \<Rightarrow> on_failure option" where
  "read_on_failure (JStr s) = on_failure_named s"
| "read_on_failure (JObj [(s, JNull)]) = on_failure_named s"
| "read_on_failure _ = None"

fun read_hooks_file :: "json \<Rightarrow> json_object option" where
  "read_hooks_file (JObj m) =
     (case map_of m ''hooks'' of None \<Rightarrow> Some [] | Some v \<Rightarrow> json_as_object v)"
| "read_hooks_file (JArr []) = Some []"
| "read_hooks_file (JArr [v]) = json_as_object v"
| "read_hooks_file _ = None"

fun select_actions :: "string \<Rightarrow> json list \<Rightarrow> raw_command_action list result" where
  "select_actions path [] = Inr []"
| "select_actions path (v # vs) =
     result_bind (select_action v path) (\<lambda>sel.
       if sel = Ignored then select_actions path vs
       else
         (case read_command_action v of
            None \<Rightarrow> Inl (''reading hook action in '' @ path)
          | Some a \<Rightarrow> result_bind (select_actions path vs) (\<lambda>as. Inr (a # as))))"

definition action_on_failure ::
  "hook_event \<Rightarrow> string \<Rightarrow> raw_command_action \<Rightarrow> on_failure result" where
  "action_on_failure ev path a =
     (if ev = PreToolUse then
        (case rc_on_failure_value a of
           None \<Rightarrow> Inr FailAllow
         | Some v \<Rightarrow>
             (case read_on_failure v of
                None \<Rightarrow> Inl (''reading on_failure in '' @ path)
              | Some f \<Rightarrow> Inr f))
      else Inr FailAllow)"

fun load_actions ::
  "hook_event \<Rightarrow> string \<Rightarrow> raw_command_action list \<Rightarrow> loaded_action list result" where
  "load_actions ev path [] = Inr []"
| "load_actions ev path (a # as) =
     result_bind (action_on_failure ev path a) (\<lambda>f.
       result_bind (load_actions ev path as) (\<lambda>ls.
         Inr (HookCommand (rc_command a) (unwrap_or (rc_timeout a) DEFAULT_HOOK_TIMEOUT_SECS) f # ls)))"

text \<open>One rule: \<open>None\<close> when it is skipped (an invalid matcher, or no action left).\<close>

definition load_rule ::
  "'x hook_env \<Rightarrow> string \<Rightarrow> string \<Rightarrow> string \<Rightarrow> hook_event \<Rightarrow> raw_hook_rule \<Rightarrow>
   loaded_rule option result" where
  "load_rule E path plugin root ev raw =
     result_bind (select_actions path (rr_hooks raw)) (\<lambda>selected.
       let matcher =
         (case rr_matcher raw of
            None \<Rightarrow> Some None
          | Some pat \<Rightarrow> if pat = [] then Some None else map_option Some (he_regex E pat))
       in case matcher of
            None \<Rightarrow> Inr None
          | Some m \<Rightarrow>
              result_bind (load_actions ev path selected) (\<lambda>actions.
                Inr (if actions = [] then None
                     else Some \<lparr>lr_plugin_name = plugin, lr_plugin_root = root,
                                lr_matcher = m, lr_actions = actions\<rparr>)))"

fun load_rules ::
  "'x hook_env \<Rightarrow> string \<Rightarrow> string \<Rightarrow> string \<Rightarrow> hook_event \<Rightarrow> raw_hook_rule list \<Rightarrow>
   loaded_rule list result" where
  "load_rules E path plugin root ev [] = Inr []"
| "load_rules E path plugin root ev (raw # raws) =
     result_bind (load_rule E path plugin root ev raw) (\<lambda>r.
       result_bind (load_rules E path plugin root ev raws) (\<lambda>rs.
         Inr (case r of None \<Rightarrow> rs | Some rule \<Rightarrow> rule # rs)))"

text \<open>\<open>entry(event).or_default().extend(rules)\<close>, done when there is a rule to add.\<close>

definition extend_rules ::
  "hook_event \<Rightarrow> loaded_rule list \<Rightarrow> (hook_event \<Rightarrow> loaded_rule list option) \<Rightarrow>
   hook_event \<Rightarrow> loaded_rule list option" where
  "extend_rules ev rs m = (if rs = [] then m else m(ev \<mapsto> unwrap_or (m ev) [] @ rs))"

definition entry_rules ::
  "'x hook_env \<Rightarrow> string \<Rightarrow> string \<Rightarrow> string \<Rightarrow> hook_event \<Rightarrow> json \<Rightarrow> loaded_rule list result" where
  "entry_rules E path plugin root ev payload =
     (case read_hook_rules payload of
        None \<Rightarrow> Inl (''reading '' @ ticked (event_name ev) @ '' rules in '' @ path)
      | Some raws \<Rightarrow> load_rules E path plugin root ev raws)"

text \<open>The loop over the events of a file, in the order the \<open>HashMap\<close> yields them.\<close>

fun load_entries ::
  "'x hook_env \<Rightarrow> string \<Rightarrow> string \<Rightarrow> string \<Rightarrow> json_object \<Rightarrow>
   (hook_event \<Rightarrow> loaded_rule list option) \<Rightarrow> (hook_event \<Rightarrow> loaded_rule list option) result" where
  "load_entries E path plugin root [] m = Inr m"
| "load_entries E path plugin root ((name, payload) # entries) m =
     (case event_from_name name of
        None \<Rightarrow> load_entries E path plugin root entries m
      | Some ev \<Rightarrow>
          result_bind (entry_rules E path plugin root ev payload) (\<lambda>rs.
            load_entries E path plugin root entries (extend_rules ev rs m)))"

definition load_hooks_file ::
  "'x hook_env \<Rightarrow> (string \<Rightarrow> string option) \<Rightarrow> string \<Rightarrow> string \<Rightarrow> string \<Rightarrow>
   (hook_event \<Rightarrow> loaded_rule list option) result" where
  "load_hooks_file E read path plugin root =
     (case read path of
        None \<Rightarrow> Inl (''reading '' @ path)
      | Some text \<Rightarrow>
          (case Option.bind (he_parse E text) read_hooks_file of
             None \<Rightarrow> Inl (''parsing '' @ path)
           | Some entries \<Rightarrow> load_entries E path plugin root entries (\<lambda>_. None)))"

record discovered_plugin =
  dp_name :: string
  dp_root :: string

text \<open>\<open>read path\<close> is \<open>None\<close> for a file that is missing, which is passed over like one that fails.\<close>

definition add_plugin ::
  "'x hook_env \<Rightarrow> (string \<Rightarrow> string option) \<Rightarrow> (hook_event \<Rightarrow> loaded_rule list option) \<Rightarrow>
   discovered_plugin \<Rightarrow> hook_event \<Rightarrow> loaded_rule list option" where
  "add_plugin E read m p =
     (case load_hooks_file E read (dp_root p @ ''/hooks/hooks.json'') (dp_name p) (dp_root p) of
        Inl _ \<Rightarrow> m
      | Inr loaded \<Rightarrow> (\<lambda>ev. case loaded ev of None \<Rightarrow> m ev | Some rs \<Rightarrow> Some (unwrap_or (m ev) [] @ rs)))"

definition from_plugins ::
  "'x hook_env \<Rightarrow> (string \<Rightarrow> string option) \<Rightarrow> discovered_plugin list \<Rightarrow> bool \<Rightarrow> hook_manager" where
  "from_plugins E read plugins login =
     \<lparr>hm_rules = foldl (add_plugin E read) (\<lambda>_. None) plugins, hm_use_login_shell_path = login\<rparr>"

end
