(* ===== verification/Hooks_Props.thy ===== *)
theory Hooks_Props
  imports Hooks "HOL-Library.Multiset"
begin

text \<open>
  What the hook manager promises: a blocking event is decided by the first objection among
  the runs of the matching commands, a failing command objects only to a tool call and only
  when it is configured to, the loaded rules are well formed and do not depend on the order
  in which the events of a file are visited.
\<close>

subsection \<open>The chain of a blocking event\<close>

text \<open>All matching commands run in order, with what each of them returns.\<close>

fun chain_answers ::
  "'x hook_env \<Rightarrow> hook_manager \<Rightarrow> string \<Rightarrow> (loaded_rule \<times> loaded_action) list \<Rightarrow>
   'x world_scheme \<Rightarrow> (loaded_rule \<times> loaded_action \<times> hook_run result) list" where
  "chain_answers E M payload [] w = []"
| "chain_answers E M payload ((rule, action) # rest) w =
     (let (r, w1) = run_action E M rule action payload w
      in (rule, action, r) # chain_answers E M payload rest w1)"

fun chain_outcome ::
  "'x hook_env \<Rightarrow> hook_event \<Rightarrow> loaded_rule \<times> loaded_action \<times> hook_run result \<Rightarrow> chain_step" where
  "chain_outcome E ev (rule, action, r) =
     apply_verdict (fst (judge_run E r)) (la_on_failure action) ev"

fun objection ::
  "'x hook_env \<Rightarrow> hook_event \<Rightarrow> loaded_rule \<times> loaded_action \<times> hook_run result \<Rightarrow>
   (string \<times> string \<times> hook_outcome_cause) option" where
  "objection E ev (rule, action, r) =
     (case chain_outcome E ev (rule, action, r) of
        ChainDenied reason cause \<Rightarrow> Some (reason, lr_plugin_name rule, cause)
      | _ \<Rightarrow> None)"

definition evaluated_by ::
  "'x hook_env \<Rightarrow> loaded_rule \<times> loaded_action \<times> hook_run result \<Rightarrow> bool" where
  "evaluated_by E x = snd (judge_run E (snd (snd x)))"

definition failed_open ::
  "'x hook_env \<Rightarrow> hook_event \<Rightarrow> loaded_rule \<times> loaded_action \<times> hook_run result \<Rightarrow> bool" where
  "failed_open E ev x = (case chain_outcome E ev x of FailedOpen _ \<Rightarrow> True | _ \<Rightarrow> False)"

fun upto_first :: "('a \<Rightarrow> bool) \<Rightarrow> 'a list \<Rightarrow> 'a list" where
  "upto_first p [] = []"
| "upto_first p (x # xs) = (if p x then [x] else x # upto_first p xs)"

text \<open>The decision that the answers call for: that of the first objection.\<close>

definition decision_of ::
  "'x hook_env \<Rightarrow> hook_event \<Rightarrow> (loaded_rule \<times> loaded_action \<times> hook_run result) list \<Rightarrow>
   bool \<Rightarrow> bool \<Rightarrow> hook_chain_outcome" where
  "decision_of E ev answers evaluated failed =
     (let heard = upto_first (\<lambda>x. objection E ev x \<noteq> None) answers
      in \<lparr>co_decision =
            (case find_map (objection E ev) answers of
               None \<Rightarrow> HookAllow
             | Some (reason, plugin, cause) \<Rightarrow> HookDeny reason plugin),
          co_policy_evaluated = (evaluated \<or> list_ex (evaluated_by E) heard),
          co_cause =
            (case find_map (objection E ev) answers of
               None \<Rightarrow> if failed \<or> list_ex (failed_open E ev) answers then Some HookFailureCause
                       else None
             | Some (reason, plugin, cause) \<Rightarrow> Some cause)\<rparr>)"

lemma run_chain_decides:
  "fst (run_chain E M ev payload matched evaluated failed w) =
   decision_of E ev (chain_answers E M payload matched w) evaluated failed"
proof (induction matched arbitrary: evaluated failed w)
  case Nil
  then show ?case by (simp add: decision_of_def)
next
  case (Cons ra matched)
  obtain rule action where ra: "ra = (rule, action)" by (cases ra)
  obtain r w1 where run: "run_action E M rule action payload w = (r, w1)" by (cases "run_action E M rule action payload w")
  obtain verdict ran where judged: "judge_run E r = (verdict, ran)" by (cases "judge_run E r")
  show ?case
  proof (cases "apply_verdict verdict (la_on_failure action) ev")
    case ChainAllowed
    then show ?thesis
      by (simp add: ra run judged Cons.IH decision_of_def evaluated_by_def failed_open_def Let_def
          disj_assoc)
  next
    case (ChainDenied reason cause)
    then show ?thesis
      by (simp add: ra run judged decision_of_def evaluated_by_def Let_def)
  next
    case (FailedOpen reason)
    then show ?thesis
      by (simp add: ra run judged Cons.IH decision_of_def evaluated_by_def failed_open_def Let_def
          disj_assoc)
  qed
qed

text \<open>The commands that run are those heard.\<close>

lemma run_chain_world:
  "snd (run_chain E M ev payload matched evaluated failed w) =
   run_all E M payload
     (map (\<lambda>(rule, action, r). (rule, action))
       (upto_first (\<lambda>x. objection E ev x \<noteq> None) (chain_answers E M payload matched w))) w"
proof (induction matched arbitrary: evaluated failed w)
  case Nil
  then show ?case by simp
next
  case (Cons ra matched)
  obtain rule action where ra: "ra = (rule, action)" by (cases ra)
  obtain r w1 where run: "run_action E M rule action payload w = (r, w1)" by (cases "run_action E M rule action payload w")
  obtain verdict ran where judged: "judge_run E r = (verdict, ran)" by (cases "judge_run E r")
  show ?case
    by (cases "apply_verdict verdict (la_on_failure action) ev")
      (simp_all add: ra run judged Cons.IH)
qed

text \<open>
  C9: A blocking event whose context can be serialised is decided by the first objection of
  the matching commands in order: the plugin denied is that of the objecting rule, the
  reason and the cause are the objection's, commands after it are not run, and the policy
  counts as evaluated when a command heard ran to its end.  Without an objection the event
  is allowed, with a cause only when some command failed.
\<close>

theorem blocking_event_first_objection:
  assumes "he_to_string E (JObj (context_members ctx)) = Some payload"
  shows "emit_blocking_with_outcome E M ev ctx w =
    (let answers = chain_answers E M payload (matching_actions M ev ctx) w
     in (decision_of E ev answers False False,
         run_all E M payload
           (map (\<lambda>(rule, action, r). (rule, action))
             (upto_first (\<lambda>x. objection E ev x \<noteq> None) answers)) w))"
proof (cases "matching_actions M ev ctx = []")
  case True
  then show ?thesis
    by (simp add: emit_blocking_with_outcome_def outcome_allow_def decision_of_def Let_def)
next
  case False
  then show ?thesis
    using assms run_chain_decides [of E M ev payload "matching_actions M ev ctx" False False w]
      run_chain_world [of E M ev payload "matching_actions M ev ctx" False False w]
    by (simp add: emit_blocking_with_outcome_def Let_def prod_eq_iff)
qed

subsection \<open>A witness\<close>

text \<open>An environment whose commands answer with their own text as standard output.\<close>

definition echo_run :: "string \<Rightarrow> hook_run" where
  "echo_run s =
     \<lparr>hr_output = \<lparr>po_code = Some (if s = ''deny'' then 2 else if s = ''crash'' then 1 else 0),
        po_stdout = [], po_stderr = s\<rparr>,
      hr_stdin_delivered = True\<rparr>"

definition echo_env :: "'x hook_env" where
  "echo_env = \<lparr>he_to_string = (\<lambda>j. Some ''payload''), he_parse = (\<lambda>s. None), he_lossy = (\<lambda>s. s),
      he_utf8 = (\<lambda>s. True), he_regex = (\<lambda>p. Some (\<lambda>s. s = p)), he_login_path = None,
      he_path_var = [], he_exec = (\<lambda>c root path payload t w. (Some (Inr (echo_run c)), w))\<rparr>"

definition echo_manager :: hook_manager where
  "echo_manager = \<lparr>hm_rules = (\<lambda>ev. if ev = PreToolUse
       then Some [\<lparr>lr_plugin_name = ''lint'', lr_plugin_root = ''/p'', lr_matcher = None,
                   lr_actions = [HookCommand ''ok'' 30 FailAllow, HookCommand ''crash'' 30 FailAllow]\<rparr>,
                  \<lparr>lr_plugin_name = ''guard'', lr_plugin_root = ''/q'',
                   lr_matcher = Some (\<lambda>s. s = ''shell''),
                   lr_actions = [HookCommand ''deny'' 5 FailBlock]\<rparr>]
       else None), hm_use_login_shell_path = False\<rparr>"

definition shell_context :: hook_context where
  "shell_context = with_tool ''shell'' None (hook_context_new PreToolUse ''s'')"

lemma expand_plugin_root_plain [simp]:
  "split_once ''${PLUGIN_ROOT}'' s = None \<Longrightarrow> expand_plugin_root s root = s"
  by (simp add: expand_plugin_root_def str_replace.simps [of _ _ s])

lemma trim_plain:
  "trim ''deny'' = ''deny''" "trim [] = []"
  by (simp_all add: trim_visible visible_ascii_def)

lemma show_one: "show_int 1 = ''1''"
  by code_simp

lemma echo_env_simps [simp]:
  "he_to_string echo_env j = Some ''payload''" "he_lossy echo_env s = s" "he_utf8 echo_env s = True"
  "he_exec echo_env c root path payload t w = (Some (Inr (echo_run c)), w)"
  by (simp_all add: echo_env_def)

lemma run_action_echo [simp]:
  "split_once ''${PLUGIN_ROOT}'' c = None \<Longrightarrow>
   run_action echo_env M rule (HookCommand c t f) payload w = (Inr (echo_run c), w)"
  by (simp add: run_action_def run_command_hook_def)

lemma echo_verdicts [simp]:
  "judge_run echo_env (Inr (echo_run ''ok'')) = (VerdictAllow, True)"
  "fst (judge_run echo_env (Inr (echo_run ''crash''))) =
     HookFailed ''the hook exited with status 1 and no usable decision''"
  "judge_run echo_env (Inr (echo_run ''deny'')) = (PolicyDeny ''deny'', True)"
  by (simp_all add: classify_run_def classify_output_def echo_run_def output_success_def trim_plain
      parse_response_def starts_with_def non_empty_def show_one Let_def)

lemma echo_matching:
  "matching_actions echo_manager PreToolUse shell_context =
     [(\<lparr>lr_plugin_name = ''lint'', lr_plugin_root = ''/p'', lr_matcher = None,
        lr_actions = [HookCommand ''ok'' 30 FailAllow, HookCommand ''crash'' 30 FailAllow]\<rparr>,
       HookCommand ''ok'' 30 FailAllow),
      (\<lparr>lr_plugin_name = ''lint'', lr_plugin_root = ''/p'', lr_matcher = None,
        lr_actions = [HookCommand ''ok'' 30 FailAllow, HookCommand ''crash'' 30 FailAllow]\<rparr>,
       HookCommand ''crash'' 30 FailAllow),
      (\<lparr>lr_plugin_name = ''guard'', lr_plugin_root = ''/q'', lr_matcher = Some (\<lambda>s. s = ''shell''),
        lr_actions = [HookCommand ''deny'' 5 FailBlock]\<rparr>, HookCommand ''deny'' 5 FailBlock)]"
  by (simp add: matching_actions_def matching_rules_def echo_manager_def shell_context_def
      with_tool_def hook_context_new_def rule_matches_def)

lemma blocking_event_first_objection_witness:
  "fst (emit_blocking_with_outcome (echo_env :: unit hook_env) echo_manager PreToolUse shell_context
        \<lparr>w_events = [], w_uuids = (\<lambda>n. []), w_next_uuid = 0, w_tick = 0, w_cancel_at = None\<rparr>) =
   \<lparr>co_decision = HookDeny ''deny'' ''guard'', co_policy_evaluated = True,
     co_cause = Some PolicyDenial\<rparr>"
  by (subst blocking_event_first_objection [of _ _ "''payload''"])
    (simp_all add: echo_matching decision_of_def evaluated_by_def Let_def del: judge_run.simps)

subsection \<open>What lets an event through\<close>

text \<open>A run that says yes: it read the payload, ended well and said nothing or \<open>allow\<close>.\<close>

fun said_yes :: "'x hook_env \<Rightarrow> hook_run result \<Rightarrow> bool" where
  "said_yes E (Inl e) \<longleftrightarrow> False"
| "said_yes E (Inr run) \<longleftrightarrow>
     hr_stdin_delivered run \<and> po_code (hr_output run) = Some 0 \<and>
     he_utf8 E (po_stdout (hr_output run)) \<and>
     (trim (po_stdout (hr_output run)) = [] \<or>
      fst (parse_response E (trim (po_stdout (hr_output run)))) = Some ''allow'')"

lemma parse_response_Nil [simp]: "parse_response E [] = (None, None)"
  by (simp add: parse_response_def starts_with_def)

lemma classify_output_allow_iff:
  "classify_output E out = VerdictAllow \<longleftrightarrow>
     po_code out = Some 0 \<and> he_utf8 E (po_stdout out) \<and>
     (trim (po_stdout out) = [] \<or>
      fst (parse_response E (trim (po_stdout out))) = Some ''allow'')"
  by (cases "parse_response E (trim (po_stdout out))")
    (auto simp: classify_output_def Let_def split: option.splits)

lemma judge_run_allow_iff: "fst (judge_run E r) = VerdictAllow \<longleftrightarrow> said_yes E r"
proof (cases r)
  case (Inr run)
  then show ?thesis
    using classify_output_allow_iff [of E "hr_output run"]
    by (auto simp: classify_run_def Let_def)
qed simp

lemma apply_verdict_allowed_iff: "apply_verdict v f ev = ChainAllowed \<longleftrightarrow> v = VerdictAllow"
  by (cases v) auto

lemma decision_of_clean_iff:
  "co_decision (decision_of E ev answers evaluated False) = HookAllow \<and>
   co_cause (decision_of E ev answers evaluated False) = None \<longleftrightarrow>
   list_all (\<lambda>(rule, action, r). said_yes E r) answers"
proof (induction answers arbitrary: evaluated)
  case Nil
  then show ?case by (simp add: decision_of_def)
next
  case (Cons x answers)
  obtain rule action r where x: "x = (rule, action, r)" by (cases x)
  have yes: "chain_outcome E ev x = ChainAllowed \<longleftrightarrow> said_yes E r"
    by (simp add: x apply_verdict_allowed_iff judge_run_allow_iff)
  show ?case
  proof (cases "chain_outcome E ev x")
    case ChainAllowed
    with yes have "said_yes E r" by simp
    with ChainAllowed Cons.IH [of evaluated] show ?thesis
      by (auto simp: x decision_of_def Let_def failed_open_def split: option.splits)
  next
    case (ChainDenied reason cause)
    with yes show ?thesis by (auto simp: x decision_of_def Let_def)
  next
    case (FailedOpen reason)
    with yes show ?thesis
      by (auto simp: x decision_of_def Let_def failed_open_def split: option.splits)
  qed
qed

text \<open>
  An event passes a blocking chain without any cause recorded exactly when nothing is
  registered for it, or its context was serialised and every matching command read it, ended
  with status 0 and wrote nothing or the decision allow to standard output.  An outcome that
  records a cause is a denial or the trace of a failure.
\<close>

theorem blocking_event_clean_iff:
  "(let out = fst (emit_blocking_with_outcome E M ev ctx w)
    in co_decision out = HookAllow \<and> co_cause out = None) \<longleftrightarrow>
   matching_actions M ev ctx = [] \<or>
   (\<exists>payload. he_to_string E (JObj (context_members ctx)) = Some payload \<and>
      list_all (\<lambda>(rule, action, r). said_yes E r)
        (chain_answers E M payload (matching_actions M ev ctx) w))"
proof (cases "he_to_string E (JObj (context_members ctx))")
  case None
  then show ?thesis
    by (simp add: emit_blocking_with_outcome_def outcome_allow_def serialization_failure_outcome_def
        Let_def)
next
  case (Some payload)
  then show ?thesis
    using decision_of_clean_iff [of E ev "chain_answers E M payload (matching_actions M ev ctx) w" False]
      run_chain_decides [of E M ev payload "matching_actions M ev ctx" False False w]
    by (auto simp: emit_blocking_with_outcome_def outcome_allow_def Let_def)
qed

subsection \<open>Loaded rules\<close>

lemma event_from_name_iff: "event_from_name n = Some ev \<longleftrightarrow> n = event_name ev"
  by (cases ev) (auto simp: event_from_name_def split: if_splits)

text \<open>What one event of a file contributes.\<close>

definition good_rules :: "hook_event \<Rightarrow> loaded_rule list \<Rightarrow> bool" where
  "good_rules ev rules \<longleftrightarrow>
     rules \<noteq> [] \<and> list_all (\<lambda>rule. lr_actions rule \<noteq> []) rules \<and>
     \<not> (ev \<noteq> PreToolUse \<and>
        list_ex (\<lambda>rule. list_ex (\<lambda>a. la_on_failure a = FailBlock) (lr_actions rule)) rules)"

lemma load_actions_open:
  "load_actions ev path as = Inr ls \<Longrightarrow> ev \<noteq> PreToolUse \<Longrightarrow>
   list_all (\<lambda>a. la_on_failure a = FailAllow) ls"
  by (induction as arbitrary: ls)
    (auto simp: result_bind_Inr_iff action_on_failure_def)

lemma load_rule_good:
  "load_rule E path plugin root ev raw = Inr (Some rule) \<Longrightarrow> good_rules ev [rule]"
  using load_actions_open [of ev path]
  by (fastforce simp: load_rule_def result_bind_Inr_iff good_rules_def list_ex_iff list_all_iff Let_def
      split: option.splits if_splits)

lemma good_rules_append:
  "rs \<noteq> [] \<Longrightarrow> ss \<noteq> [] \<Longrightarrow> good_rules ev (rs @ ss) \<longleftrightarrow> good_rules ev rs \<and> good_rules ev ss"
  by (auto simp: good_rules_def)

lemma load_rules_good:
  "load_rules E path plugin root ev raws = Inr rs \<Longrightarrow> rs = [] \<or> good_rules ev rs"
proof (induction raws arbitrary: rs)
  case Nil
  then show ?case by simp
next
  case (Cons raw raws)
  then obtain r rs' where r: "load_rule E path plugin root ev raw = Inr r"
    and rs': "load_rules E path plugin root ev raws = Inr rs'"
    and rs: "rs = (case r of None \<Rightarrow> rs' | Some rule \<Rightarrow> rule # rs')"
    by (auto simp: result_bind_Inr_iff)
  from Cons.IH [OF rs'] load_rule_good [of E path plugin root ev raw] r rs show ?case
    by (cases r; cases rs') (auto simp: good_rules_def)
qed

definition good_table :: "(hook_event \<Rightarrow> loaded_rule list option) \<Rightarrow> bool" where
  "good_table m \<longleftrightarrow> (\<forall>ev rules. m ev = Some rules \<longrightarrow> good_rules ev rules)"

lemma good_table_extend:
  assumes "good_table m" and "rs = [] \<or> good_rules ev rs"
  shows "good_table (extend_rules ev rs m)"
  using assms good_rules_append [of _ rs ev]
  by (cases "m ev") (auto simp: good_table_def extend_rules_def good_rules_def)

lemma entry_rules_good:
  "entry_rules E path plugin root ev payload = Inr rs \<Longrightarrow> rs = [] \<or> good_rules ev rs"
  by (auto simp: entry_rules_def dest: load_rules_good split: option.splits)

lemma load_entries_good:
  "load_entries E path plugin root entries m = Inr m' \<Longrightarrow> good_table m \<Longrightarrow> good_table m'"
proof (induction entries arbitrary: m)
  case Nil
  then show ?case by simp
next
  case (Cons en entries)
  obtain name payload where en: "en = (name, payload)" by (cases en)
  show ?case
  proof (cases "event_from_name name")
    case None
    with Cons en show ?thesis by simp
  next
    case (Some ev)
    with Cons.prems(1) en obtain rs where rs: "entry_rules E path plugin root ev payload = Inr rs"
      and rest: "load_entries E path plugin root entries (extend_rules ev rs m) = Inr m'"
      by (auto simp: result_bind_Inr_iff)
    show ?thesis
      by (rule Cons.IH [OF rest good_table_extend [OF Cons.prems(2) entry_rules_good [OF rs]]])
  qed
qed

lemma good_table_merge:
  assumes "good_table m" and "good_table loaded"
  shows "good_table (\<lambda>ev. case loaded ev of None \<Rightarrow> m ev | Some rs \<Rightarrow> Some (unwrap_or (m ev) [] @ rs))"
proof (unfold good_table_def, intro allI impI)
  fix ev rules
  assume rules: "(case loaded ev of None \<Rightarrow> m ev | Some rs \<Rightarrow> Some (unwrap_or (m ev) [] @ rs)) = Some rules"
  show "good_rules ev rules"
  proof (cases "loaded ev")
    case None
    with rules assms(1) show ?thesis by (simp add: good_table_def)
  next
    case (Some rs)
    then have "good_rules ev rs" using assms(2) by (simp add: good_table_def)
    moreover have "old = [] \<or> good_rules ev old" if "old = unwrap_or (m ev) []" for old
      using assms(1) that by (cases "m ev") (auto simp: good_table_def)
    ultimately show ?thesis
      using rules Some by (cases "unwrap_or (m ev) [] = []") (auto simp: good_rules_def)
  qed
qed

lemma good_table_add_plugin: "good_table m \<Longrightarrow> good_table (add_plugin E read m p)"
  unfolding add_plugin_def load_hooks_file_def
  by (auto split: option.splits sum.splits intro!: good_table_merge dest: load_entries_good
      simp: good_table_def [of "\<lambda>_. None"])

lemma good_table_plugins: "good_table m \<Longrightarrow> good_table (foldl (add_plugin E read) m ps)"
  by (induction ps arbitrary: m) (simp_all add: good_table_add_plugin)

text \<open>
  Whatever the plugin files say, the rules of a manager built from plugins are well
  formed: an event is registered only with at least one rule, each rule has a command, and no
  rule outside \<open>PreToolUse\<close> can block on failure.
\<close>

theorem from_plugins_wellformed:
  "case hm_rules (from_plugins E read plugins login) ev of
     None \<Rightarrow> has_hooks (from_plugins E read plugins login) ev = False
   | Some rules \<Rightarrow> good_rules ev rules"
proof -
  have "good_table (hm_rules (from_plugins E read plugins login))"
    unfolding from_plugins_def by (simp add: good_table_plugins good_table_def [of "\<lambda>_. None"])
  then show ?thesis
    by (auto simp: good_table_def has_hooks_def split: option.splits)
qed

subsection \<open>The order of the events of a file\<close>

definition entry_ok ::
  "'x hook_env \<Rightarrow> string \<Rightarrow> string \<Rightarrow> string \<Rightarrow> string \<times> json \<Rightarrow> bool" where
  "entry_ok E path plugin root = (\<lambda>(name, payload).
     case event_from_name name of
       None \<Rightarrow> True
     | Some ev \<Rightarrow> is_ok (entry_rules E path plugin root ev payload))"

lemma load_entries_ok_iff:
  "is_ok (load_entries E path plugin root entries m) \<longleftrightarrow>
   list_all (entry_ok E path plugin root) entries"
proof (induction entries arbitrary: m)
  case Nil
  then show ?case by simp
next
  case (Cons en entries)
  obtain name payload where en: "en = (name, payload)" by (cases en)
  show ?case
    by (cases "event_from_name name";
        cases "entry_rules E path plugin root (the (event_from_name name)) payload")
      (simp_all add: en entry_ok_def Cons.IH)
qed

lemma load_entries_lookup:
  assumes "load_entries E path plugin root entries m = Inr m'" and "distinct (map fst entries)"
  shows "m' ev = (case map_of entries (event_name ev) of
      None \<Rightarrow> m ev
    | Some payload \<Rightarrow> extend_rules ev (projr (entry_rules E path plugin root ev payload)) m ev)"
  using assms
proof (induction entries arbitrary: m)
  case Nil
  then show ?case by simp
next
  case (Cons en entries)
  obtain name payload where en: "en = (name, payload)" by (cases en)
  show ?case
  proof (cases "event_from_name name")
    case None
    then have "event_name ev \<noteq> name" using event_from_name_iff [of name ev] by auto
    with Cons en None show ?thesis by simp
  next
    case (Some ev')
    then have name: "name = event_name ev'" by (simp add: event_from_name_iff)
    with Some Cons.prems(1) en obtain rs where rs: "entry_rules E path plugin root ev' payload = Inr rs"
      and rest: "load_entries E path plugin root entries (extend_rules ev' rs m) = Inr m'"
      by (auto simp: result_bind_Inr_iff)
    have IH: "m' ev = (case map_of entries (event_name ev) of
        None \<Rightarrow> extend_rules ev' rs m ev
      | Some payload \<Rightarrow> extend_rules ev (projr (entry_rules E path plugin root ev payload))
          (extend_rules ev' rs m) ev)"
      using Cons.IH [OF rest] Cons.prems(2) en by simp
    show ?thesis
    proof (cases "ev = ev'")
      case True
      have "map_of entries name = None"
        using Cons.prems(2) en by (simp add: map_of_eq_None_iff)
      with True IH rs name en show ?thesis by simp
    next
      case False
      then have "event_name ev \<noteq> name"
        using event_from_name_iff [of name ev] event_from_name_iff [of name ev'] name by auto
      with False IH en show ?thesis by (auto simp: extend_rules_def split: option.splits)
    qed
  qed
qed

text \<open>
  Loading a hooks file does not depend on the order in which the hash map of its events is
  visited: whatever the order, the file fails to load or the same rules are registered for
  every event, each event name standing for one event.
\<close>

theorem load_entries_order:
  assumes "distinct (map fst entries)" and "mset entries' = mset entries"
  shows "result_ok (load_entries E path plugin root entries' m) =
    result_ok (load_entries E path plugin root entries m)"
proof -
  have same: "set entries' = set entries" using assms(2) by (metis set_mset_mset)
  have "mset (map fst entries') = mset (map fst entries)" using assms(2) by simp
  then have dist: "distinct (map fst entries')" using assms(1) by (metis mset_eq_imp_distinct_iff)
  have lookup: "map_of entries' = map_of entries"
    using same assms(1) dist by (simp add: map_of_inject_set)
  have ok: "is_ok (load_entries E path plugin root entries' m) \<longleftrightarrow>
      is_ok (load_entries E path plugin root entries m)"
    by (simp add: load_entries_ok_iff list_all_iff same)
  show ?thesis
  proof (cases "load_entries E path plugin root entries m")
    case (Inl e)
    with ok show ?thesis by (cases "load_entries E path plugin root entries' m") auto
  next
    case (Inr a)
    with ok obtain b where b: "load_entries E path plugin root entries' m = Inr b"
      by (cases "load_entries E path plugin root entries' m") auto
    have "b = a"
      using load_entries_lookup [OF Inr assms(1)] load_entries_lookup [OF b dist] lookup by auto
    with Inr b show ?thesis by simp
  qed
qed

lemma load_entries_order_witness:
  "result_ok (load_entries (echo_env :: unit hook_env) ''f'' ''p'' ''r''
     [(''Stop'', JArr []), (''Unknown'', JNull)] (\<lambda>ev. None)) =
   result_ok (load_entries (echo_env :: unit hook_env) ''f'' ''p'' ''r''
     [(''Unknown'', JNull), (''Stop'', JArr [])] (\<lambda>ev. None))"
proof -
  have "distinct (map fst [(''Unknown'', JNull), (''Stop'', JArr [])])"
    and "mset [(''Stop'', JArr []), (''Unknown'', JNull)] = mset [(''Unknown'', JNull), (''Stop'', JArr [])]"
    by (simp_all add: add_mset_commute)
  then show ?thesis by (rule load_entries_order)
qed

end
