(* ===== verification/Tool_Hooks.thy ===== *)
theory Tool_Hooks
  imports Hooks Session_Effects
begin

text \<open>
  The hooks around a tool call, in \<open>agents/state_machine/ops_toolcalling.rs\<close>: the policy
  chain that may deny the call, the record of its decision, and the events before and after
  shell commands and file accesses.  Every operation that executes a call goes through them.
\<close>

type_synonym 'y agent_x = "('y agent_world_ext) permission_world_ext"

datatype tool_category = ShellTool | ReadTool | WriteTool | OtherTool

text \<open>\<open>rsplit("__").next()\<close>: what follows the last double underscore.\<close>

definition tool_base_name :: "string \<Rightarrow> string" where
  "tool_base_name name =
     (case split_once ''__'' (rev name) of None \<Rightarrow> name | Some (a, _) \<Rightarrow> rev a)"

definition categorize_tool :: "string \<Rightarrow> tool_category" where
  "categorize_tool name =
     (let base = tool_base_name name
      in if base \<in> {''shell'', ''bash'', ''exec'', ''run''} then ShellTool
         else if base \<in> {''read'', ''view'', ''cat'', ''read_file''} then ReadTool
         else if base \<in> {''write'', ''edit'', ''patch'', ''write_file'', ''edit_file''} then WriteTool
         else OtherTool)"

definition string_argument :: "json \<Rightarrow> string list \<Rightarrow> string option" where
  "string_argument input keys =
     Option.bind (json_as_object input) (\<lambda>args.
       find_map (\<lambda>k. case Option.bind (map_of args k) json_as_str of
           Some v \<Rightarrow> if v = [] then None else Some v
         | None \<Rightarrow> None) keys)"

definition PATH_KEYS :: "string list" where "PATH_KEYS = [''path'', ''file'', ''file_path'']"

definition INTERNAL_ERROR :: int where "INTERNAL_ERROR = - 32603"

definition internal_error :: "string \<Rightarrow> error_data" where
  "internal_error msg = \<lparr>ed_code = INTERNAL_ERROR, ed_message = msg, ed_data = None\<rparr>"

definition call_input :: "call_tool_params \<Rightarrow> json option" where
  "call_input call = map_option JObj (ct_arguments call)"

definition emit_policy_result ::
  "'x hook_env \<Rightarrow> hook_manager \<Rightarrow> session \<Rightarrow> string \<Rightarrow> string \<Rightarrow> json option \<Rightarrow>
   hook_chain_outcome \<Rightarrow> 'x world_scheme \<Rightarrow> 'x world_scheme" where
  "emit_policy_result H M s i name inp out w =
     (if \<not> has_hooks M PreToolUseResult then w
      else emit_pre_tool_use_result H M
             (with_pre_tool_use_outcome out
               (with_working_dir (se_working_dir s)
                 (with_tool_call_id i
                   (with_tool name inp (hook_context_new PreToolUseResult (se_id s)))))) w)"

definition pre_tool_context ::
  "session \<Rightarrow> string \<Rightarrow> string \<Rightarrow> json option \<Rightarrow> hook_context" where
  "pre_tool_context s i name inp =
     with_working_dir (se_working_dir s)
       (with_tool_call_id i (with_tool name inp (hook_context_new PreToolUse (se_id s))))"

definition run_pre_tool_hooks ::
  "'x hook_env \<Rightarrow> hook_manager \<Rightarrow> session \<Rightarrow> string \<Rightarrow> string \<Rightarrow> json option \<Rightarrow>
   (error_data + unit, 'x) act" where
  "run_pre_tool_hooks H M s i name inp w =
     (let (out, w1) =
        (if has_hooks M PreToolUse
         then emit_blocking_with_outcome H M PreToolUse (pre_tool_context s i name inp) w
         else (outcome_allow False, w));
          w2 = emit_policy_result H M s i name inp out w1
      in case outcome_denial out of
           Some d \<Rightarrow> (Inl (internal_error (dn_message d)), w2)
         | None \<Rightarrow> (Inr (), w2))"

definition emit_with_matcher ::
  "'x hook_env \<Rightarrow> hook_manager \<Rightarrow> hook_event \<Rightarrow> session \<Rightarrow> string \<Rightarrow> string \<Rightarrow> json option \<Rightarrow>
   'x world_scheme \<Rightarrow> 'x world_scheme" where
  "emit_with_matcher H M ev s matcher name inp w =
     (if \<not> has_hooks M ev then w
      else emit_hook H M ev
             ((with_working_dir (se_working_dir s)
                 (with_tool name inp (hook_context_new ev (se_id s))))
                \<lparr>hc_matcher_context := Some matcher\<rparr>) w)"

definition emit_extended_pre_hooks ::
  "'x hook_env \<Rightarrow> hook_manager \<Rightarrow> string \<Rightarrow> json option \<Rightarrow> session \<Rightarrow>
   'x world_scheme \<Rightarrow> 'x world_scheme" where
  "emit_extended_pre_hooks H M name inp s w =
     (let extended =
        (case categorize_tool name of
           ShellTool \<Rightarrow>
             Some (BeforeShellExecution, Option.bind inp (\<lambda>j. string_argument j [''command'']))
         | ReadTool \<Rightarrow> Some (BeforeReadFile, Option.bind inp (\<lambda>j. string_argument j PATH_KEYS))
         | _ \<Rightarrow> None)
      in case extended of
           Some (ev, Some matcher) \<Rightarrow> emit_with_matcher H M ev s matcher name inp w
         | _ \<Rightarrow> w)"

definition post_event :: "error_data + call_tool_result \<Rightarrow> hook_event" where
  "post_event result =
     (case result of
        Inr r \<Rightarrow> if cr_is_error r \<noteq> Some True then PostToolUse else PostToolUseFailure
      | Inl _ \<Rightarrow> PostToolUseFailure)"

definition emit_post_tool_use ::
  "'x hook_env \<Rightarrow> hook_manager \<Rightarrow> string \<Rightarrow> string \<Rightarrow> string \<Rightarrow> string \<Rightarrow> json option \<Rightarrow>
   error_data + call_tool_result \<Rightarrow> (hook_event, 'x) act" where
  "emit_post_tool_use H M sid dir name i inp result w =
     (let ev = post_event result
      in (ev, if has_hooks M ev
              then emit_hook H M ev
                     (with_working_dir dir
                       (with_tool_call_id i (with_tool name inp (hook_context_new ev sid)))) w
              else w))"

text \<open>
  What \<open>with_post_tool_hooks\<close> does once the call has completed; the shortening of a large
  response is the parameter \<open>shorten\<close>.
\<close>

definition post_tool_hooks ::
  "'x hook_env \<Rightarrow> (error_data + call_tool_result \<Rightarrow> error_data + call_tool_result) \<Rightarrow> hook_manager \<Rightarrow>
   call_tool_params \<Rightarrow> session \<Rightarrow> string \<Rightarrow> error_data + call_tool_result \<Rightarrow>
   (error_data + call_tool_result, 'x) act" where
  "post_tool_hooks H shorten M call s i raw w =
     (let result = shorten raw;
          inp = call_input call;
          (ev, w1) = emit_post_tool_use H M (se_id s) (se_working_dir s) (ct_name call) i inp result w;
          extended =
            (if ev = PostToolUse then
               (case categorize_tool (ct_name call) of
                  ShellTool \<Rightarrow>
                    Some (AfterShellExecution, Option.bind inp (\<lambda>j. string_argument j [''command'']))
                | WriteTool \<Rightarrow> Some (AfterFileEdit, Option.bind inp (\<lambda>j. string_argument j PATH_KEYS))
                | _ \<Rightarrow> None)
             else None)
      in case extended of
           Some (ev', Some matcher) \<Rightarrow>
             (result, emit_with_matcher H M ev' s matcher (ct_name call) inp w1)
         | _ \<Rightarrow> (result, w1))"

end
