(* ===== verification/Turn_Operations.thy ===== *)
theory Turn_Operations
  imports Tool_Hooks
begin

text \<open>
  The operations of the desktop agent that begin, steer and end a turn
  (\<open>agents/state_machine/ops_entry_hook.rs\<close>, \<open>ops_slash_command.rs\<close>, \<open>ops_steer.rs\<close>,
  \<open>ops_maxturns.rs\<close>, \<open>ops_bang_shell.rs\<close>, \<open>ops_stop_hook.rs\<close>, \<open>ops_exit_on_error.rs\<close>),
  each a record of the trait's methods over the session, the effects and the agent's world.
\<close>

type_synonym 'x agent_operation = "(session, aibuddy_effect, 'x) operation"

subsection \<open>Exit on error\<close>

definition exit_on_error_run ::
  "session \<Rightarrow> conversation \<Rightarrow> (aibuddy_effect operation_result result, 'x) act" where
  "exit_on_error_run s c w =
     (if trailing_error c = None then (not_applicable, w) else (yielded, w))"

definition exit_on_error_operation :: "'x agent_operation" where
  "exit_on_error_operation = (operation_default ''exit_on_error'')\<lparr>op_run := exit_on_error_run\<rparr>"

subsection \<open>The turn budget\<close>

definition MAX_TURNS_MESSAGE :: string where
  "MAX_TURNS_MESSAGE = ''I'' @ [byte 39] @ ''ve reached the maximum number of actions I can do without user input. Would you like me to continue?''"

definition saturating_mul :: "u32 \<Rightarrow> u32 \<Rightarrow> u32" where
  "saturating_mul a b =
     (if unat a * unat b < 2 ^ 32 then a * b else word_of_nat (2 ^ 32 - 1))"

definition turn_budget_part :: "u32 \<Rightarrow> u32 \<Rightarrow> string option" where
  "turn_budget_part taken max_turns =
     (if max_turns = 0 \<or> saturating_mul taken 2 < max_turns then None
      else Some (''<turn-budget>'' @ show_nat (unat taken) @ ''/'' @ show_nat (unat max_turns) @
                 '' used</turn-budget>''))"

definition max_turns_moim ::
  "u32 \<Rightarrow> session \<Rightarrow> conversation \<Rightarrow> (string list result, 'x) act" where
  "max_turns_moim max_turns s c w =
     (result_bind (messages_since_kickoff c) (\<lambda>turn.
        Inr (case turn_budget_part (assistant_turn_count turn) max_turns of
               None \<Rightarrow> [] | Some p \<Rightarrow> [p])), w)"

definition max_turns_run ::
  "ext_env \<Rightarrow> u32 \<Rightarrow> session \<Rightarrow> conversation \<Rightarrow>
   (aibuddy_effect operation_result result, 'x) act" where
  "max_turns_run E max_turns s c w =
     (case messages_since_kickoff c of
        Inl e \<Rightarrow> (Inl e, w)
      | Inr turn \<Rightarrow>
          if assistant_turn_count turn < max_turns then (not_applicable, w)
          else
            (let (m, w1) = emit_message (with_text E MAX_TURNS_MESSAGE (message_assistant E)) w
             in (yielded_with [append_effect m], w1)))"

definition max_turns_operation :: "ext_env \<Rightarrow> u32 \<Rightarrow> 'x agent_operation" where
  "max_turns_operation E max_turns = (operation_default ''max_turns'')
     \<lparr>op_run := max_turns_run E max_turns, op_moim_parts := max_turns_moim max_turns\<rparr>"

subsection \<open>Steering\<close>

fun submit_steered ::
  "'x hook_env \<Rightarrow> hook_manager \<Rightarrow> session \<Rightarrow> message list \<Rightarrow> (aibuddy_effect list, 'x) act" where
  "submit_steered H M s [] w = ([], w)"
| "submit_steered H M s (m # ms) w =
     (let w1 = emit_hook H M UserPromptSubmit
                 (with_message (as_concat_text m) (hook_context_new UserPromptSubmit (se_id s))) w;
          (m', w2) = emit_message m w1;
          (effs, w3) = submit_steered H M s ms w2
      in (append_effect m' # effs, w3))"

definition between_turns :: "message list \<Rightarrow> bool result" where
  "between_turns turn =
     (if ends_turn turn then Inr True
      else result_bind (last_effective_role turn) (\<lambda>r. Inr (r = ERTool)))"

definition steer_run ::
  "('y agent_x) hook_env \<Rightarrow> hook_manager \<Rightarrow> session \<Rightarrow> conversation \<Rightarrow>
   (aibuddy_effect operation_result result, 'y) agent_act" where
  "steer_run H M s c w =
     (case result_bind (messages_since_kickoff c) between_turns of
        Inl e \<Rightarrow> (Inl e, w)
      | Inr False \<Rightarrow> (not_applicable, w)
      | Inr True \<Rightarrow>
          (let pending = map with_steer (aw_queue w);
               w1 = w\<lparr>aw_queue := []\<rparr>
           in if pending = [] then (not_applicable, w1)
              else (let (effs, w2) = submit_steered H M s pending w1 in (applied effs, w2))))"

definition steer_operation ::
  "('y agent_x) hook_env \<Rightarrow> hook_manager \<Rightarrow> ('y agent_x) agent_operation" where
  "steer_operation H M = (operation_default ''steer'')\<lparr>op_run := steer_run H M\<rparr>"

subsection \<open>The entry hook\<close>

definition entry_hook_run ::
  "'x hook_env \<Rightarrow> hook_manager \<Rightarrow> session \<Rightarrow> conversation \<Rightarrow>
   (aibuddy_effect operation_result result, 'x) act" where
  "entry_hook_run H M s c w =
     (case messages_since_kickoff c of
        Inl e \<Rightarrow> (Inl e, w)
      | Inr turn \<Rightarrow>
          if list_ex (\<lambda>m. msg_role m = Assistant \<and>
               (is_user_visible m \<and> is_agent_visible m \<or> error_kind m \<noteq> None)) turn
          then (not_applicable, w)
          else
            (let before = take (length c - length turn) c;
                 w1 = (if \<not> list_ex is_kickoff before
                       then emit_hook H M SessionStart
                              (with_working_dir (se_working_dir s)
                                (hook_context_new SessionStart (se_id s))) w
                       else w);
                 prompt = (case first_opt turn of None \<Rightarrow> [] | Some m \<Rightarrow> as_concat_text m);
                 w2 = (if prompt \<noteq> []
                       then emit_hook H M UserPromptSubmit
                              (with_working_dir (se_working_dir s)
                                (with_message prompt (hook_context_new UserPromptSubmit (se_id s)))) w1
                       else w1)
             in (not_applicable, w2)))"

definition entry_hook_operation :: "'x hook_env \<Rightarrow> hook_manager \<Rightarrow> 'x agent_operation" where
  "entry_hook_operation H M = (operation_default ''entry_hook'')\<lparr>op_run := entry_hook_run H M\<rparr>"

subsection \<open>The stop hook\<close>

definition DENIED :: string where "DENIED = ''denied''"
definition STOP_HOOK :: string where "STOP_HOOK = ''stop_hook''"

definition denial_context_message :: "ext_env \<Rightarrow> string \<Rightarrow> string \<Rightarrow> message" where
  "denial_context_message E plugin reason =
     with_visibility False True
       (with_text E (''Stop hook '' @ ticked plugin @ '' blocked ending this turn:'' @ newline @ newline @
          reason @ newline @ newline @
          ''Address this policy hook denial before trying to stop again.'') (message_user E))"

definition denial_notification :: "ext_env \<Rightarrow> string \<Rightarrow> message" where
  "denial_notification E plugin =
     with_system_notification InlineMessage
       (''Stop hook '' @ ticked plugin @ '' blocked ending this turn.'') (message_assistant E)"

definition block_cap_warning :: "ext_env \<Rightarrow> string \<Rightarrow> u32 \<Rightarrow> message" where
  "block_cap_warning E plugin cap =
     with_system_notification InlineMessage
       (''Stop hook '' @ ticked plugin @ '' blocked the turn from ending more than '' @
        show_nat (unat cap) @ '' consecutive times '' @ [byte 0xE2, byte 0x80, byte 0x94] @
        '' overriding and ending turn to avoid an infinite loop. Set AIBUDDY_STOP_HOOK_BLOCK_CAP to raise this limit.'')
       (message_assistant E)"

definition trailing_assistant_text :: "message list \<Rightarrow> string" where
  "trailing_assistant_text turn =
     concat (map (\<lambda>m. as_concat_text (user_visible_content m))
       (filter is_user_visible (rev (takeWhile (\<lambda>m. msg_role m = Assistant) (rev turn)))))"

text \<open>\<open>count() as u32 + 1\<close>: the count is cut to 32 bits and the sum wraps.\<close>

definition denial_count :: "message list \<Rightarrow> u32" where
  "denial_count turn =
     word_of_nat (length (filter (\<lambda>m. message_meta STOP_HOOK m DENIED \<noteq> None) turn)) + 1"

definition stop_context :: "session \<Rightarrow> message list \<Rightarrow> hook_context" where
  "stop_context s turn =
     with_working_dir (se_working_dir s)
       (with_last_assistant_message (trailing_assistant_text turn)
         (hook_context_new StopEvent (se_id s)))"

definition stop_hook_run ::
  "ext_env \<Rightarrow> 'x hook_env \<Rightarrow> hook_manager \<Rightarrow> u32 \<Rightarrow> session \<Rightarrow> conversation \<Rightarrow>
   (aibuddy_effect operation_result result, 'x) act" where
  "stop_hook_run E H M block_cap s c w =
     (case messages_since_kickoff c of
        Inl e \<Rightarrow> (Inl e, w)
      | Inr turn \<Rightarrow>
          if \<not> ends_turn turn then (not_applicable, w)
          else
            (case emit_blocking H M StopEvent (stop_context s turn) w of
               (HookAllow, w1) \<Rightarrow> (yielded, w1)
             | (HookDeny reason plugin, w1) \<Rightarrow>
                 if denial_count turn > block_cap then
                   (let (m, w2) = emit_message (block_cap_warning E plugin block_cap) w1
                    in (yielded_with [append_effect m], w2))
                 else
                   (let denial = set_message_meta STOP_HOOK DENIED (JBool True)
                                   (denial_context_message E plugin reason);
                        (n, w2) = emit_message (denial_notification E plugin) w1
                    in (applied [append_effect denial], w2))))"

definition stop_hook_operation ::
  "ext_env \<Rightarrow> 'x hook_env \<Rightarrow> hook_manager \<Rightarrow> u32 \<Rightarrow> 'x agent_operation" where
  "stop_hook_operation E H M block_cap =
     (operation_default STOP_HOOK)\<lparr>op_run := stop_hook_run E H M block_cap\<rparr>"

subsection \<open>Bang shell\<close>

definition SHELL_TOOL_NAME :: string where "SHELL_TOOL_NAME = ''shell''"

definition bang_shell_command :: "string \<Rightarrow> string option" where
  "bang_shell_command text =
     (case map_option trim_start (strip_prefix ''!'' (trim_start text)) of
        Some command \<Rightarrow> if command = [] then None else Some command
      | None \<Rightarrow> None)"

definition bang_shell_call :: "string \<Rightarrow> call_tool_params" where
  "bang_shell_call command =
     \<lparr>ct_name = SHELL_TOOL_NAME, ct_arguments = Some [(''command'', JStr command)]\<rparr>"

definition bang_shell_run ::
  "ext_env \<Rightarrow> session \<Rightarrow> conversation \<Rightarrow> (aibuddy_effect operation_result result, 'x) act" where
  "bang_shell_run E s c w =
     (case messages_since_kickoff c of
        Inl e \<Rightarrow> (Inl e, w)
      | Inr turn \<Rightarrow>
          (case first_opt turn of
             None \<Rightarrow> (not_applicable, w)
           | Some kickoff \<Rightarrow>
               (case bang_shell_command (as_concat_text (user_visible_content kickoff)) of
                  None \<Rightarrow> (not_applicable, w)
                | Some command \<Rightarrow>
                    if 1 < length turn then
                      (case last_effective_role turn of
                         Inl e \<Rightarrow> (Inl e, w)
                       | Inr r \<Rightarrow> if r = ERTool then (yielded, w) else (not_applicable, w))
                    else
                      (let (u, w1) = fresh_uuid w;
                           (m, w2) = emit_message
                             (with_content
                               (mc_tool_request (''bang_shell_'' @ u) (Inr (bang_shell_call command)))
                               (message_assistant E)) w1
                       in (applied [append_effect m], w2)))))"

definition bang_shell_operation :: "ext_env \<Rightarrow> 'x agent_operation" where
  "bang_shell_operation E = (operation_default ''bang_shell'')\<lparr>op_run := bang_shell_run E\<rparr>"

subsection \<open>Slash commands\<close>

definition parse_slash_command :: "string \<Rightarrow> slash_command option" where
  "parse_slash_command text =
     (let t = trim text;
          t' = (if t \<in> {''/compact'', ''Please compact this conversation'', ''/summarize''}
                then ''/compact'' else t)
      in map_option (\<lambda>command.
           case split_once '' '' command of
             Some (name, params) \<Rightarrow> \<lparr>sc_command = name, sc_params_str = trim params\<rparr>
           | None \<Rightarrow> \<lparr>sc_command = command, sc_params_str = []\<rparr>) (strip_prefix ''/'' t'))"

fun run_commands ::
  "slash_command \<Rightarrow> session \<Rightarrow> conversation \<Rightarrow> 'x agent_operation list \<Rightarrow>
   (aibuddy_effect operation_result result, 'x) act" where
  "run_commands cmd s c [] w = (not_applicable, w)"
| "run_commands cmd s c (oper # opers) w =
     (case op_command oper cmd s c w of
        (Inl e, w1) \<Rightarrow> (Inl e, w1)
      | (Inr NotApplicable, w1) \<Rightarrow> run_commands cmd s c opers w1
      | (Inr (Applied r), w1) \<Rightarrow> (Inr (Applied r), w1))"

definition slash_command_run ::
  "'x agent_operation list \<Rightarrow> session \<Rightarrow> conversation \<Rightarrow>
   (aibuddy_effect operation_result result, 'x) act" where
  "slash_command_run opers s c w =
     (case messages_since_kickoff c of
        Inl e \<Rightarrow> (Inl e, w)
      | Inr [m] \<Rightarrow>
          (case parse_slash_command (as_concat_text m) of
             None \<Rightarrow> (not_applicable, w)
           | Some cmd \<Rightarrow> run_commands cmd s c opers w)
      | Inr _ \<Rightarrow> (not_applicable, w))"

definition slash_command_operation :: "'x agent_operation list \<Rightarrow> 'x agent_operation" where
  "slash_command_operation opers =
     (operation_default ''slash_command'')\<lparr>op_run := slash_command_run opers\<rparr>"

end
