(* ===== verification/Retry.thy ===== *)
theory Retry
  imports Turn_Operations
begin

text \<open>
  \<open>agents/state_machine/ops_retry.rs\<close> and \<open>agents/retry.rs\<close>: what happens when the agent
  thinks it has finished.  A goal is checked once, a grind goal keeps the agent working, and a
  recipe's success checks decide whether the turn is started over.  Running a shell command
  is a parameter: its exit code and the chunks of its standard error, or \<open>None\<close> on a timeout.
\<close>

record 'x retry_env =
  rv_spawn :: "string \<Rightarrow> nat \<Rightarrow> ((int option \<times> string list) result option, 'x) act"
  rv_show_status :: "int option \<Rightarrow> string"
  rv_from_lossy :: "string \<Rightarrow> string"
  rv_retry_timeout_param :: "nat option"
  rv_on_failure_timeout_param :: "nat option"

definition MAX_COMMAND_STDERR_BYTES :: nat where "MAX_COMMAND_STDERR_BYTES = 8 * 1024"
definition DEFAULT_RETRY_TIMEOUT_SECONDS :: nat where "DEFAULT_RETRY_TIMEOUT_SECONDS = 300"
definition DEFAULT_ON_FAILURE_TIMEOUT_SECONDS :: nat where
  "DEFAULT_ON_FAILURE_TIMEOUT_SECONDS = 600"

subsection \<open>Shell commands\<close>

text \<open>The loop over the chunks read; an empty chunk is the end of the stream.\<close>

fun capture_tail :: "string list \<Rightarrow> string \<Rightarrow> string" where
  "capture_tail [] tail = tail"
| "capture_tail (chunk # chunks) tail =
     (if chunk = [] then tail
      else if MAX_COMMAND_STDERR_BYTES \<le> length chunk
      then capture_tail chunks (drop (length chunk - MAX_COMMAND_STDERR_BYTES) chunk)
      else capture_tail chunks
             (drop (length tail + length chunk - MAX_COMMAND_STDERR_BYTES) tail @ chunk))"

definition show_duration :: "nat \<Rightarrow> string" where
  "show_duration secs = show_nat secs @ ''s''"

definition execute_shell_command ::
  "'x retry_env \<Rightarrow> string \<Rightarrow> nat \<Rightarrow> (process_output result, 'x) act" where
  "execute_shell_command V command timeout w =
     (case rv_spawn V command timeout w of
        (None, w1) \<Rightarrow>
          (Inl (''Shell command timed out after '' @ show_duration timeout @ '': '' @ command), w1)
      | (Some (Inl e), w1) \<Rightarrow> (Inl e, w1)
      | (Some (Inr (code, chunks)), w1) \<Rightarrow>
          (Inr \<lparr>po_code = code, po_stdout = [], po_stderr = capture_tail chunks []\<rparr>, w1))"

fun execute_success_checks_with_timeout ::
  "'x retry_env \<Rightarrow> success_check list \<Rightarrow> nat \<Rightarrow> (bool result, 'x) act" where
  "execute_success_checks_with_timeout V [] timeout w = (Inr True, w)"
| "execute_success_checks_with_timeout V (ShellCheck command # checks) timeout w =
     try_bind (execute_shell_command V command timeout) (\<lambda>out.
       if \<not> output_success out then (\<lambda>w. (Inr False, w))
       else execute_success_checks_with_timeout V checks timeout) w"

definition execute_on_failure_command_with_timeout ::
  "'x retry_env \<Rightarrow> string \<Rightarrow> nat \<Rightarrow> (unit result, 'x) act" where
  "execute_on_failure_command_with_timeout V command timeout w =
     (case execute_shell_command V command timeout w of
        (Inl e, w1) \<Rightarrow>
          (Inl (if str_contains e ''timed out''
                then ''On_failure command timed out after '' @ show_duration timeout @ '': '' @ command
                else e), w1)
      | (Inr out, w1) \<Rightarrow>
          if \<not> output_success out
          then (Inl (''On_failure command failed: command '' @ quoted command @ '' exited with status '' @
                 rv_show_status V (po_code out) @ '', stderr: '' @ rv_from_lossy V (po_stderr out)), w1)
          else (Inr (), w1))"

subsection \<open>The retry operation\<close>

definition NUDGED :: string where "NUDGED = ''nudged''"
definition ATTEMPTS :: string where "ATTEMPTS = ''attempts''"
definition RETRY :: string where "RETRY = ''retry''"

definition retry_error :: "ext_env \<Rightarrow> string \<Rightarrow> message" where
  "retry_error E e =
     with_error KOther (''Retry logic encountered an error: '' @ e) (message_assistant E)"

definition retry_config_of :: "session \<Rightarrow> retry_config option" where
  "retry_config_of s = Option.bind (se_recipe s) rp_retry"

definition reset_conversation :: "conversation \<Rightarrow> conversation result" where
  "reset_conversation c =
     result_bind (messages_since_kickoff c) (\<lambda>turn. Inr (take (Suc (length c - length turn)) c))"

definition goal_was_nudged :: "message list \<Rightarrow> bool" where
  "goal_was_nudged turn \<longleftrightarrow> list_ex (\<lambda>m. message_meta RETRY m NUDGED \<noteq> None) turn"

definition attempts :: "message list \<Rightarrow> u32" where
  "attempts turn =
     word_of_nat (unwrap_or (Option.bind (Option.bind (first_opt turn)
       (\<lambda>m. message_meta RETRY m ATTEMPTS)) json_as_u64) 0)"

text \<open>The slash commands \<open>/goal\<close> and \<open>/grind\<close>; \<open>target\<close> is the goal they set.\<close>

definition goal_of :: "string \<Rightarrow> 'y agent_world_scheme \<Rightarrow> string option" where
  "goal_of name w = (if name = ''goal'' then aw_goal w else aw_grind w)"

definition set_goal :: "string \<Rightarrow> string option \<Rightarrow> 'y agent_world_scheme \<Rightarrow> 'y agent_world_scheme" where
  "set_goal name g w = (if name = ''goal'' then w\<lparr>aw_goal := g\<rparr> else w\<lparr>aw_grind := g\<rparr>)"

definition goal_command_text :: "string \<Rightarrow> string \<Rightarrow> 'y agent_world_scheme \<Rightarrow> string" where
  "goal_command_text name params w =
     (let label = (if name = ''goal'' then ''goal'' else ''grind goal'')
      in if params = [] then
           (case goal_of name w of
              Some v \<Rightarrow> ''Current '' @ label @ '': '' @ v
            | None \<Rightarrow> ''No '' @ label @ '' set. Use `/'' @ name @ '' <description>` to set one.'')
         else if params \<in> {''off'', ''clear'', ''none''} then
           (if name = ''goal'' then ''Goal cleared. The agent will finish normally.''
            else ''Grind cleared. The agent will finish normally.'')
         else if name = ''goal'' then
           ''Goal set. The agent will verify this goal is met before finishing:'' @ newline @ newline @
           ''> '' @ params
         else
           ''Grind goal set. The agent will keep working until max_turns is reached:'' @ newline @ newline @
           ''> '' @ params)"

definition starts_turn :: "string \<Rightarrow> bool" where
  "starts_turn params \<longleftrightarrow> params \<noteq> [] \<and> params \<notin> {''off'', ''clear'', ''none''}"

definition update_goal ::
  "string \<Rightarrow> string \<Rightarrow> 'y agent_world_scheme \<Rightarrow> 'y agent_world_scheme" where
  "update_goal name params w =
     (if params = [] then w
      else set_goal name (if starts_turn params then Some params else None) w)"

definition goal_kickoff :: "ext_env \<Rightarrow> string \<Rightarrow> message" where
  "goal_kickoff E params =
     with_visibility False True
       (with_text E (''Start working toward this goal now:'' @ newline @ newline @ ''**Goal:** '' @ params)
         (message_user E))"

definition retry_command ::
  "ext_env \<Rightarrow> slash_command \<Rightarrow> session \<Rightarrow> conversation \<Rightarrow>
   (aibuddy_effect operation_result result, 'y) agent_act" where
  "retry_command E cmd s c w =
     (let name = sc_command cmd; params = sc_params_str cmd in
      if name \<notin> {''goal'', ''grind''} then (not_applicable, w)
      else
        (let response = with_text E (goal_command_text name params w) (message_assistant E);
             w1 = update_goal name params w in
         case messages_since_kickoff c of
           Inl e \<Rightarrow> (Inl e, w1)
         | Inr turn \<Rightarrow>
             (case first_opt turn of
                None \<Rightarrow> (Inl ''slash command conversation has no kickoff message'', w1)
              | Some kickoff \<Rightarrow>
                  (case msg_id kickoff of
                     None \<Rightarrow> (Inl ''Persisted slash command message has no id'', w1)
                   | Some i \<Rightarrow>
                       (let (_, w2) = emit_message (with_visibility True False kickoff) w1;
                            (shown, w3) = emit_message (with_visibility True False response) w2;
                            effs = [ConversationEffect (SetMessageVisibility i True False),
                                    append_effect shown]
                        in if starts_turn params
                           then (applied (effs @ [append_effect (goal_kickoff E params)]), w3)
                           else (yielded_with effs, w3))))))"

definition goal_nudge :: "ext_env \<Rightarrow> string \<Rightarrow> message" where
  "goal_nudge E goal =
     set_message_meta RETRY NUDGED (JBool True)
       (with_visibility False True
         (with_text E (''Before finishing, check whether the following goal has been fully met:'' @
            newline @ newline @ ''**Goal:** '' @ goal @ newline @ newline @
            ''If not, continue working toward it.'') (message_user E)))"

definition grind_nudge :: "ext_env \<Rightarrow> string \<Rightarrow> message" where
  "grind_nudge E grind =
     with_visibility False True
       (with_text E (''Keep working. The grind goal is not yet complete:'' @ newline @ newline @
          ''**Goal:** '' @ grind @ newline @ newline @ ''Continue until it is fully done.'')
         (message_user E))"

definition inline_note :: "ext_env \<Rightarrow> string \<Rightarrow> message" where
  "inline_note E text = with_system_notification InlineMessage text (message_assistant E)"

definition max_attempts_text :: "u32 \<Rightarrow> string" where
  "max_attempts_text n =
     ''Maximum retry attempts ('' @ show_nat (unat n) @
     '') exceeded. Unable to complete the task successfully.''"

text \<open>The conversation a retry starts from: up to the kickoff, which counts the attempt.\<close>

definition retry_from :: "u32 \<Rightarrow> conversation \<Rightarrow> conversation result" where
  "retry_from n c =
     result_bind (reset_conversation c) (\<lambda>reset.
       Inr (case last_opt reset of
              None \<Rightarrow> reset
            | Some kickoff \<Rightarrow>
                butlast reset @ [set_message_meta RETRY ATTEMPTS (JInt (uint (n + 1))) kickoff]))"

definition start_over ::
  "ext_env \<Rightarrow> 'x retry_env \<Rightarrow> nat \<Rightarrow> retry_config \<Rightarrow> message list \<Rightarrow> conversation \<Rightarrow>
   (aibuddy_effect operation_result result, 'x) act" where
  "start_over E V on_failure_timeout cfg turn c w =
     (let n = attempts turn in
      if rc_max_retries cfg \<le> n then
        (let (m, w1) = emit_message
               (with_error KOther (max_attempts_text (rc_max_retries cfg)) (message_assistant E)) w
         in (applied [append_effect m], w1))
      else
        (let (failure, w1) =
           (case rc_on_failure cfg of
              None \<Rightarrow> (Inr (), w)
            | Some command \<Rightarrow> execute_on_failure_command_with_timeout V command
                (unwrap_or (rc_on_failure_timeout_seconds cfg) on_failure_timeout) w)
         in case failure of
              Inl e \<Rightarrow> (let (m, w2) = emit_message (retry_error E e) w1 in (applied [append_effect m], w2))
            | Inr _ \<Rightarrow> (result_bind (retry_from n c) (\<lambda>reset. applied [replace_effect reset]), w1)))"

definition check_success ::
  "ext_env \<Rightarrow> ('y agent_x) retry_env \<Rightarrow> nat \<Rightarrow> nat \<Rightarrow> session \<Rightarrow> message list \<Rightarrow> conversation \<Rightarrow>
   (aibuddy_effect operation_result result, 'y) agent_act" where
  "check_success E V retry_timeout on_failure_timeout s turn c w =
     (case retry_config_of s of
        None \<Rightarrow> (not_applicable, w)
      | Some cfg \<Rightarrow>
          (case execute_success_checks_with_timeout V (rc_checks cfg)
                  (unwrap_or (rc_timeout_seconds cfg) retry_timeout) w of
             (Inl e, w1) \<Rightarrow>
               (let (m, w2) = emit_message (retry_error E e) w1 in (applied [append_effect m], w2))
           | (Inr True, w1) \<Rightarrow> (not_applicable, w1)
           | (Inr False, w1) \<Rightarrow> start_over E V on_failure_timeout cfg turn c w1))"

definition retry_run ::
  "ext_env \<Rightarrow> ('y agent_x) retry_env \<Rightarrow> nat \<Rightarrow> nat \<Rightarrow> session \<Rightarrow> conversation \<Rightarrow>
   (aibuddy_effect operation_result result, 'y) agent_act" where
  "retry_run E V retry_timeout on_failure_timeout s c w =
     (case messages_since_kickoff c of
        Inl e \<Rightarrow> (Inl e, w)
      | Inr turn \<Rightarrow>
          if \<not> ends_turn turn then (not_applicable, w)
          else
            (case (if goal_was_nudged turn then None else aw_goal w) of
               Some goal \<Rightarrow>
                 (let (_, w1) = emit_message (inline_note E (''Goal: '' @ goal)) w
                  in (applied [append_effect (goal_nudge E goal)], w1))
             | None \<Rightarrow>
                 (case aw_grind w of
                    Some grind \<Rightarrow>
                      (let (_, w1) = emit_message (inline_note E (''Grind: '' @ grind)) w
                       in (applied [append_effect (grind_nudge E grind)], w1))
                  | None \<Rightarrow>
                      check_success E V retry_timeout on_failure_timeout s turn c
                        (w\<lparr>aw_goal := None, aw_grind := None\<rparr>))))"

definition retry_operation ::
  "ext_env \<Rightarrow> ('y agent_x) retry_env \<Rightarrow> nat \<Rightarrow> nat \<Rightarrow> ('y agent_x) agent_operation" where
  "retry_operation E V retry_timeout on_failure_timeout = (operation_default RETRY)
     \<lparr>op_run := retry_run E V retry_timeout on_failure_timeout, op_command := retry_command E\<rparr>"

subsection \<open>The retry manager\<close>

datatype retry_result = RetrySkipped | MaxAttemptsReached message | SuccessChecksPassed | Retried

record retry_manager =
  rm_attempts :: u32
  rm_repetition :: "repetition_inspector option"

definition reset_attempts :: "retry_manager \<Rightarrow> retry_manager" where
  "reset_attempts M = M\<lparr>rm_attempts := 0, rm_repetition := map_option repetition_reset (rm_repetition M)\<rparr>"

definition increment_attempts :: "retry_manager \<Rightarrow> u32 \<times> retry_manager" where
  "increment_attempts M = (rm_attempts M + 1, M\<lparr>rm_attempts := rm_attempts M + 1\<rparr>)"

definition get_retry_timeout :: "'x retry_env \<Rightarrow> retry_config \<Rightarrow> nat" where
  "get_retry_timeout V cfg =
     unwrap_or (option_or (rc_timeout_seconds cfg) (rv_retry_timeout_param V)) DEFAULT_RETRY_TIMEOUT_SECONDS"

definition get_on_failure_timeout :: "'x retry_env \<Rightarrow> retry_config \<Rightarrow> nat" where
  "get_on_failure_timeout V cfg =
     unwrap_or (option_or (rc_on_failure_timeout_seconds cfg) (rv_on_failure_timeout_param V))
       DEFAULT_ON_FAILURE_TIMEOUT_SECONDS"

definition handle_retry_logic ::
  "ext_env \<Rightarrow> 'x retry_env \<Rightarrow> retry_config option \<Rightarrow> message list \<Rightarrow> retry_manager \<Rightarrow> conversation \<Rightarrow>
   ((retry_result \<times> retry_manager \<times> conversation) result, 'x) act" where
  "handle_retry_logic E V config initial M c w =
     (case config of
        None \<Rightarrow> (Inr (RetrySkipped, M, c), w)
      | Some cfg \<Rightarrow>
          try_bind (execute_success_checks_with_timeout V (rc_checks cfg) (get_retry_timeout V cfg))
            (\<lambda>success.
               if success then (\<lambda>w. (Inr (SuccessChecksPassed, M, c), w))
               else if rc_max_retries cfg \<le> rm_attempts M
               then (\<lambda>w. (Inr (MaxAttemptsReached
                      (with_text E (max_attempts_text (rc_max_retries cfg)) (message_assistant E)), M, c), w))
               else try_bind
                      (case rc_on_failure cfg of
                         None \<Rightarrow> (\<lambda>w. (Inr (), w))
                       | Some command \<Rightarrow>
                           execute_on_failure_command_with_timeout V command (get_on_failure_timeout V cfg))
                      (\<lambda>_ w. (Inr (Retried, snd (increment_attempts M), initial), w))) w)"

end
