(* ===== verification/Turn_Props.thy ===== *)
theory Turn_Props
  imports Retry Message_Props Session_Effects_Props Hooks_Props
begin

text \<open>
  Properties of the operations that end or prolong a turn: a stop hook can block the end of a
  turn only as often as its cap, a recipe is retried only as often as its limit, and the
  contract of an operation holds for the operations that need no hook.
\<close>

subsection \<open>Notes on messages\<close>

lemma message_meta_set [simp]:
  "message_meta oper (set_message_meta oper k v m) k' =
     (if k' = k then Some v else message_meta oper m k')"
  by (simp add: message_meta_def set_message_meta_def operation_note_set)

lemma set_message_meta_fields [simp]:
  "msg_role (set_message_meta oper k v m) = msg_role m"
  "msg_content (set_message_meta oper k v m) = msg_content m"
  "msg_id (set_message_meta oper k v m) = msg_id m"
  "is_user_visible (set_message_meta oper k v m) = is_user_visible m"
  "is_agent_visible (set_message_meta oper k v m) = is_agent_visible m"
  by (simp_all add: set_message_meta_def set_operation_note_def is_user_visible_def
      is_agent_visible_def Let_def)

lemma hidden_not_kickoff: "\<not> is_user_visible m \<Longrightarrow> \<not> is_kickoff m"
  by (simp add: is_kickoff_def)

lemma with_visibility_user [simp]: "is_user_visible (with_visibility u a m) = u"
  by (simp add: is_user_visible_def with_visibility_def)

lemma is_kickoff_set_meta [simp]: "is_kickoff (set_message_meta oper k v m) = is_kickoff m"
  by (simp add: is_kickoff_def is_tool_response_def)

subsection \<open>The stop hook\<close>

definition denied_note :: "message \<Rightarrow> bool" where
  "denied_note m \<longleftrightarrow> message_meta STOP_HOOK m DENIED \<noteq> None"

definition denial_of :: "ext_env \<Rightarrow> string \<Rightarrow> string \<Rightarrow> message" where
  "denial_of E plugin reason =
     set_message_meta STOP_HOOK DENIED (JBool True) (denial_context_message E plugin reason)"

lemma denial_of_facts [simp]: "denied_note (denial_of E plugin reason)" "\<not> is_kickoff (denial_of E plugin reason)"
  by (simp_all add: denied_note_def denial_of_def denial_context_message_def hidden_not_kickoff)

lemma stop_hook_blocksD:
  assumes "stop_hook_run E H M cap s c w = (Inr (Applied r), w')" and "\<not> sr_yield r"
  obtains turn plugin reason where "messages_since_kickoff c = Inr turn" "ends_turn turn"
    "denial_count turn \<le> cap" "sr_effects r = [append_effect (denial_of E plugin reason)]"
  using assms
  by (fastforce simp: stop_hook_run_def applied_def yielded_def yielded_with_def not_applicable_def
      denial_of_def Let_def case_prod_beta split: sum.splits if_splits prod.splits hook_decision.splits)

text \<open>
  The blocks of one turn: the agent adds messages to the turn, none of them a new kickoff and
  none of them a denial, then wants to end it, and the stop hook blocks.
\<close>

inductive stop_blocked ::
  "ext_env \<Rightarrow> 'x hook_env \<Rightarrow> hook_manager \<Rightarrow> u32 \<Rightarrow> session \<Rightarrow> conversation \<Rightarrow> nat \<Rightarrow>
   conversation \<Rightarrow> bool"
  for E :: ext_env and H :: "'x hook_env" and M :: hook_manager and cap :: u32 and s :: session
    and c :: conversation where
  unblocked: "stop_blocked E H M cap s c 0 c"
| blocked: "stop_blocked E H M cap s c n c' \<Longrightarrow>
    list_all (\<lambda>m. \<not> is_kickoff m \<and> \<not> denied_note m) ms \<Longrightarrow>
    stop_hook_run E H M cap s (c' @ ms) w = (Inr (Applied r), w') \<Longrightarrow> \<not> sr_yield r \<Longrightarrow>
    sr_effects r = [append_effect m] \<Longrightarrow>
    stop_blocked E H M cap s c (Suc n) (c' @ ms @ [m])"

lemma denial_count_notes: "denial_count turn = word_of_nat (length (filter denied_note turn)) + 1"
  unfolding denial_count_def denied_note_def ..

lemma unat_all_ones: "unat (w :: u32) = 2 ^ 32 - 1 \<Longrightarrow> w = - 1"
proof -
  assume "unat w = 2 ^ 32 - 1"
  then have "word_of_nat (unat w) = (word_of_nat (2 ^ 32 - 1) :: u32)" by (rule arg_cong)
  then show "w = - 1" by simp
qed

lemma stop_blocked_count:
  assumes "stop_blocked E H M cap s c n c'" and "messages_since_kickoff c = Inr turn"
    and "filter denied_note turn = []" and "cap \<noteq> - 1"
  shows "\<exists>turn'. messages_since_kickoff c' = Inr turn' \<and> length (filter denied_note turn') = n \<and>
    n \<le> unat cap"
  using assms
proof (induction rule: stop_blocked.induct)
  case unblocked
  then show ?case by simp
next
  case (blocked n c' ms w r w' m)
  then obtain turn' where turn': "messages_since_kickoff c' = Inr turn'"
    and k: "length (filter denied_note turn') = n" and n: "n \<le> unat cap" by blast
  have kickless: "\<forall>m \<in> set ms. \<not> is_kickoff m" and denyless: "filter denied_note ms = []"
    using blocked.hyps(2) by (auto simp: list_all_iff filter_empty_conv)
  have turn: "messages_since_kickoff (c' @ ms) = Inr (turn' @ ms)"
    by (rule messages_since_kickoff_app [OF turn' kickless])
  from stop_hook_blocksD [OF blocked.hyps(3,4)] turn obtain plugin reason where
    le: "denial_count (turn' @ ms) \<le> cap"
    and effs: "sr_effects r = [append_effect (denial_of E plugin reason)]"
    by (metis sum.inject(2))
  have m: "m = denial_of E plugin reason" using effs blocked.hyps(5) by (simp add: append_effect_def)
  have lim: "unat cap < 2 ^ 32 - 1"
  proof -
    have "unat cap \<noteq> 2 ^ 32 - 1" using blocked.prems(3) by (metis unat_all_ones)
    moreover have "unat cap < 2 ^ 32" using unsigned_less [of cap] by simp
    ultimately show ?thesis by simp
  qed
  have "denial_count (turn' @ ms) = word_of_nat n + 1"
    using k denyless by (simp add: denial_count_notes)
  then have "unat (denial_count (turn' @ ms)) = Suc n"
    using n lim by (simp add: unat_word_ariths unat_of_nat)
  then have "Suc n \<le> unat cap" using le by (simp add: word_le_nat_alt)
  moreover have "messages_since_kickoff (c' @ ms @ [m]) = Inr ((turn' @ ms) @ [m])"
    using messages_since_kickoff_app [OF turn, of "[m]"] m by simp
  ultimately show ?case using k denyless m by auto
qed

text \<open>
  C10: Within one turn the stop hook can block the end of the turn at most \<open>block_cap\<close> times,
  whatever its commands answer and whatever the agent adds in between, as long as the cap is
  not the largest \<open>u32\<close> (for which the wrapping count never exceeds it).
\<close>

theorem stop_hook_blocks_bounded:
  assumes "stop_blocked E H M cap s c n c'" and "messages_since_kickoff c = Inr turn"
    and "filter denied_note turn = []" and "cap \<noteq> - 1"
  shows "n \<le> unat cap"
  using stop_blocked_count [OF assms] by blast

text \<open>A turn that a plugin keeps from ending once.\<close>

definition stop_manager :: hook_manager where
  "stop_manager = \<lparr>hm_rules = (\<lambda>ev. if ev = StopEvent
       then Some [\<lparr>lr_plugin_name = ''guard'', lr_plugin_root = ''/q'', lr_matcher = None,
                   lr_actions = [HookCommand ''deny'' 5 FailAllow]\<rparr>]
       else None), hm_use_login_shell_path = False\<rparr>"

definition asked :: message where
  "asked = (message_user plain_env)\<lparr>msg_content := [mc_text ''do it'']\<rparr>"

definition answered_turn :: message where
  "answered_turn = (message_assistant plain_env)\<lparr>msg_content := [mc_text ''done'']\<rparr>"

lemma asked_kickoff [simp]: "is_kickoff asked" "\<not> is_kickoff answered_turn"
  "denied_note asked = False" "denied_note answered_turn = False"
  by (simp_all add: is_kickoff_def asked_def answered_turn_def message_user_def message_assistant_def
      message_new_def is_user_visible_def is_tool_response_def mc_text_def metadata_default_def
      denied_note_def message_meta_def operation_note_def)

lemma asked_turn [simp]: "messages_since_kickoff [asked] = Inr [asked]"
  "messages_since_kickoff [asked, answered_turn] = Inr [asked, answered_turn]"
  by (simp_all add: messages_since_kickoff_def)

lemma answered_ends_turn [simp]: "ends_turn [asked, answered_turn]"
  by (simp add: ends_turn_def last_opt_def answered_turn_def message_assistant_def message_new_def
      mc_text_def error_kind_def)

lemma stop_deny:
  "fst (emit_blocking echo_env stop_manager StopEvent ctx w) = HookDeny ''deny'' ''guard''"
  by (simp add: emit_blocking_def emit_blocking_with_outcome_def matching_actions_def
      matching_rules_def stop_manager_def rule_matches_def Let_def del: judge_run.simps)

lemma stop_hook_blocks_once:
  "\<exists>r w'. stop_hook_run plain_env echo_env stop_manager 2 s [asked, answered_turn] w =
       (Inr (Applied r), w') \<and> \<not> sr_yield r \<and>
     sr_effects r = [append_effect (denial_of plain_env ''guard'' ''deny'')]"
proof -
  obtain w1 where e: "emit_blocking echo_env stop_manager StopEvent
      (stop_context s [asked, answered_turn]) w = (HookDeny ''deny'' ''guard'', w1)"
    using stop_deny by (metis prod.collapse)
  have count: "denial_count [asked, answered_turn] = 1"
    by (simp add: denial_count_notes)
  show ?thesis
    by (simp add: stop_hook_run_def e count applied_def denial_of_def Let_def case_prod_beta)
qed

lemma stop_blocked_example:
  "\<exists>c'. stop_blocked plain_env (echo_env :: 'x hook_env) stop_manager 2 s [asked] 1 c'"
proof -
  fix w :: "'x world_scheme"
  obtain r w' where run: "stop_hook_run plain_env (echo_env :: 'x hook_env) stop_manager 2 s
      ([asked] @ [answered_turn]) w = (Inr (Applied r), w')" and y: "\<not> sr_yield r"
    and eff: "sr_effects r = [append_effect (denial_of plain_env ''guard'' ''deny'')]"
    using stop_hook_blocks_once [of s w] by auto
  have "stop_blocked plain_env (echo_env :: 'x hook_env) stop_manager 2 s [asked] (Suc 0)
      ([asked] @ [answered_turn] @ [denial_of plain_env ''guard'' ''deny''])"
    by (rule blocked [OF unblocked _ run y eff]) simp
  then show ?thesis by auto
qed

lemma stop_hook_blocks_bounded_witness:
  "\<exists>c'. stop_blocked plain_env (echo_env :: unit hook_env) stop_manager 2 idle_session [asked] 1 c' \<and>
     1 \<le> unat (2 :: u32)"
proof -
  obtain c' where c': "stop_blocked plain_env (echo_env :: unit hook_env) stop_manager 2
      idle_session [asked] 1 c'"
    using stop_blocked_example by blast
  have "1 \<le> unat (2 :: u32)"
    by (rule stop_hook_blocks_bounded [OF c' asked_turn(1)]) simp_all
  with c' show ?thesis by blast
qed

subsection \<open>Retries\<close>

definition attempt_marked :: "u32 \<Rightarrow> message \<Rightarrow> message" where
  "attempt_marked n m = set_message_meta RETRY ATTEMPTS (JInt (uint n)) m"

lemma attempts_marked [simp]: "attempts [attempt_marked n m] = n"
proof -
  have "uint n < 2 ^ 64" using uint_lt2p [of n] by (simp add: less_trans)
  then show ?thesis by (simp add: attempts_def attempt_marked_def unat_eq_nat_uint [symmetric])
qed

lemma reset_at_kickoff:
  assumes "messages_since_kickoff c = Inr turn"
  obtains pre k where "reset_conversation c = Inr (pre @ [k])" "is_kickoff k" "first_opt turn = Some k"
    "prefix (pre @ [k]) c"
proof -
  obtain pre k rest where "c = pre @ turn" and t: "turn = k # rest" and k: "is_kickoff k"
    using assms by (rule messages_since_kickoff_InrD)
  then have "reset_conversation c = Inr (pre @ [k])" "prefix (pre @ [k]) c"
    using assms by (simp_all add: reset_conversation_def)
  with k t show thesis by (intro that) simp_all
qed

lemma kickoff_turn: "is_kickoff k \<Longrightarrow> messages_since_kickoff (pre @ [k]) = Inr [k]"
  using suffix_from_last_split [of is_kickoff k "[]" pre]
  by (simp add: messages_since_kickoff_def)

lemma replace_not_append [simp]: "append_effect m \<noteq> replace_effect c'"
  by (simp add: append_effect_def replace_effect_def)

lemma replace_effect_inject [simp]: "replace_effect a = replace_effect b \<longleftrightarrow> a = b"
  by (simp add: replace_effect_def)

text \<open>What a run that starts over leaves: the kickoff alone, with one attempt more.\<close>

lemma start_over_resetD:
  assumes "start_over E V t cfg turn c w = (Inr (Applied r), w')"
    and "messages_since_kickoff c = Inr turn" and "sr_effects r = [replace_effect c']"
  shows "attempts turn < rc_max_retries cfg"
    and "\<exists>k. messages_since_kickoff c' = Inr [k] \<and> attempts [k] = attempts turn + 1"
proof -
  obtain pre k where reset: "reset_conversation c = Inr (pre @ [k])" and k: "is_kickoff k"
    using assms(2) by (rule reset_at_kickoff)
  have retry: "retry_from n c = Inr (pre @ [attempt_marked (n + 1) k])" for n
    by (simp add: retry_from_def reset attempt_marked_def)
  show lt: "attempts turn < rc_max_retries cfg"
    using assms(1,3)
    by (auto simp: start_over_def applied_def Let_def case_prod_beta not_le split: if_splits)
  have "c' = pre @ [attempt_marked (attempts turn + 1) k]"
    using assms(1,3) lt
    by (auto simp: start_over_def applied_def Let_def case_prod_beta not_le [symmetric] retry
        split: sum.splits)
  moreover have "is_kickoff (attempt_marked (attempts turn + 1) k)"
    using k by (simp add: attempt_marked_def)
  ultimately show "\<exists>k. messages_since_kickoff c' = Inr [k] \<and> attempts [k] = attempts turn + 1"
    by (metis kickoff_turn attempts_marked)
qed

lemma retry_run_resetD:
  assumes "retry_run E V t t' s c w = (Inr (Applied r), w')" and "sr_effects r = [replace_effect c']"
  obtains turn cfg w1 where "messages_since_kickoff c = Inr turn" "retry_config_of s = Some cfg"
    "start_over E V t' cfg turn c w1 = (Inr (Applied r), w')"
proof -
  obtain turn where turn: "messages_since_kickoff c = Inr turn"
    using assms(1) by (cases "messages_since_kickoff c") (simp_all add: retry_run_def)
  have ends: "ends_turn turn"
    using assms(1) turn by (simp add: retry_run_def not_applicable_def split: if_splits)
  have "(if goal_was_nudged turn then None else aw_goal w) = None" and "aw_grind w = None"
    using assms turn ends
    by (auto simp: retry_run_def applied_def Let_def case_prod_beta split: option.splits if_splits)
  then have check: "check_success E V t t' s turn c (w\<lparr>aw_goal := None, aw_grind := None\<rparr>) =
      (Inr (Applied r), w')"
    using assms(1) turn ends by (simp add: retry_run_def split: option.splits)
  then obtain cfg where cfg: "retry_config_of s = Some cfg"
    by (cases "retry_config_of s") (simp_all add: check_success_def not_applicable_def)
  obtain ok w1 where checks: "execute_success_checks_with_timeout V (rc_checks cfg)
      (unwrap_or (rc_timeout_seconds cfg) t) (w\<lparr>aw_goal := None, aw_grind := None\<rparr>) = (ok, w1)"
    by (cases "execute_success_checks_with_timeout V (rc_checks cfg)
      (unwrap_or (rc_timeout_seconds cfg) t) (w\<lparr>aw_goal := None, aw_grind := None\<rparr>)")
  have "ok = Inr False"
    using check assms(2)
    by (auto simp: check_success_def cfg checks applied_def not_applicable_def Let_def case_prod_beta
        split: sum.splits bool.splits)
  then have "start_over E V t' cfg turn c w1 = (Inr (Applied r), w')"
    using check by (simp add: check_success_def cfg checks)
  with turn cfg show thesis by (rule that)
qed

text \<open>
  The retries of one recipe: the agent adds messages to the turn, the success checks fail, and
  the conversation starts over.  The session may change, but not its retry configuration.
\<close>

inductive retried ::
  "ext_env \<Rightarrow> ('y agent_x) retry_env \<Rightarrow> nat \<Rightarrow> nat \<Rightarrow> retry_config \<Rightarrow> conversation \<Rightarrow> nat \<Rightarrow>
   conversation \<Rightarrow> bool"
  for E :: ext_env and V :: "('y agent_x) retry_env" and t :: nat and t' :: nat
    and cfg :: retry_config and c :: conversation where
  untried: "retried E V t t' cfg c 0 c"
| again: "retried E V t t' cfg c n c' \<Longrightarrow> list_all (\<lambda>m. \<not> is_kickoff m) ms \<Longrightarrow>
    retry_config_of s = Some cfg \<Longrightarrow>
    retry_run E V t t' s (c' @ ms) w = (Inr (Applied r), w') \<Longrightarrow>
    sr_effects r = [replace_effect c''] \<Longrightarrow> retried E V t t' cfg c (Suc n) c''"

lemma retried_count:
  assumes "retried E V t t' cfg c n c'" and "messages_since_kickoff c = Inr turn"
  shows "\<exists>turn'. messages_since_kickoff c' = Inr turn' \<and>
    unat (attempts turn') = unat (attempts turn) + n \<and>
    (n = 0 \<or> unat (attempts turn) + n \<le> unat (rc_max_retries cfg))"
  using assms
proof (induction rule: retried.induct)
  case untried
  then show ?case by simp
next
  case (again n c' ms s w r w' c'')
  then obtain turn' where turn': "messages_since_kickoff c' = Inr turn'"
    and k: "unat (attempts turn') = unat (attempts turn) + n" by blast
  have whole: "messages_since_kickoff (c' @ ms) = Inr (turn' @ ms)"
    using again.hyps(2) by (intro messages_since_kickoff_app [OF turn']) (simp add: list_all_iff)
  obtain w1 where over: "start_over E V t' cfg (turn' @ ms) (c' @ ms) w1 = (Inr (Applied r), w')"
    using retry_run_resetD [OF again.hyps(4,5)] whole again.hyps(3) by (metis option.inject sum.inject(2))
  have "turn' \<noteq> []" using turn' by (auto elim: messages_since_kickoff_InrD)
  then have same: "attempts (turn' @ ms) = attempts turn'"
    by (cases turn') (simp_all add: attempts_def)
  have lt: "attempts turn' < rc_max_retries cfg"
    using start_over_resetD(1) [OF over whole again.hyps(5)] by (simp add: same)
  obtain k' where k': "messages_since_kickoff c'' = Inr [k']" and one: "attempts [k'] = attempts turn' + 1"
    using start_over_resetD(2) [OF over whole again.hyps(5)] same by auto
  have "unat (attempts turn' + 1) = Suc (unat (attempts turn'))"
  proof -
    have "unat (rc_max_retries cfg) < 2 ^ 32" using unsigned_less [of "rc_max_retries cfg"] by simp
    with lt show ?thesis by (simp add: word_less_nat_alt unat_word_ariths)
  qed
  with k' one k lt show ?case by (auto simp: word_less_nat_alt)
qed

text \<open>
  C11: However often the agent claims to be done, a recipe whose success checks fail is started
  over at most \<open>max_retries\<close> times: the attempts counted on the kickoff message survive each
  reset of the conversation.
\<close>

theorem retries_bounded:
  assumes "retried E V t t' cfg c n c'" and "messages_since_kickoff c = Inr turn"
  shows "n \<le> unat (rc_max_retries cfg)"
  using retried_count [OF assms] by auto

text \<open>A recipe whose check fails.\<close>

definition failing_env :: "'x retry_env" where
  "failing_env = \<lparr>rv_spawn = (\<lambda>c t w. (Some (Inr (Some 1, [])), w)), rv_show_status = (\<lambda>c. ''1''),
     rv_from_lossy = (\<lambda>s. s), rv_retry_timeout_param = None, rv_on_failure_timeout_param = None\<rparr>"

definition twice :: retry_config where
  "twice = \<lparr>rc_max_retries = 2, rc_checks = [ShellCheck ''make test''], rc_on_failure = None,
     rc_timeout_seconds = None, rc_on_failure_timeout_seconds = None\<rparr>"

definition recipe_session :: session where
  "recipe_session = idle_session\<lparr>se_recipe :=
     Some \<lparr>rp_other_fields = JNull, rp_response = None, rp_retry = Some twice\<rparr>\<rparr>"

lemma recipe_session_retry [simp]: "retry_config_of recipe_session = Some twice"
  by (simp add: retry_config_of_def recipe_session_def)

lemma failing_checks: "execute_success_checks_with_timeout failing_env (rc_checks twice) t w = (Inr False, w)"
  by (simp add: twice_def execute_shell_command_def failing_env_def try_bind_def output_success_def)

lemma fresh_attempts: "attempts [asked, answered_turn] = 0" "\<not> goal_was_nudged [asked, answered_turn]"
  by (simp_all add: attempts_def goal_was_nudged_def asked_def answered_turn_def message_user_def
      message_assistant_def message_new_def message_meta_def metadata_default_def operation_note_def)

lemma retry_once:
  "\<exists>r w'. retry_run plain_env failing_env 300 600 recipe_session ([asked] @ [answered_turn])
     store_world = (Inr (Applied r), w') \<and>
     sr_effects r = [replace_effect [attempt_marked 1 asked]]"
proof -
  have "aw_goal store_world = None" "aw_grind store_world = None"
    by (simp_all add: store_world_def)
  moreover have "retry_from 0 [asked, answered_turn] = Inr [attempt_marked 1 asked]"
    by (simp add: retry_from_def reset_conversation_def attempt_marked_def last_opt_def)
  ultimately show ?thesis
    by (simp add: retry_run_def check_success_def failing_checks start_over_def fresh_attempts
        Let_def) (simp add: twice_def applied_def)
qed

lemma retries_bounded_witness:
  "retried plain_env (failing_env :: (unit agent_x) retry_env) 300 600 twice [asked] 1 [attempt_marked 1 asked] \<and>
   1 \<le> unat (rc_max_retries twice)"
proof -
  obtain r w' where "retry_run plain_env failing_env 300 600 recipe_session ([asked] @ [answered_turn])
      store_world = (Inr (Applied r), w')" and "sr_effects r = [replace_effect [attempt_marked 1 asked]]"
    using retry_once by blast
  note run = this
  have one: "retried plain_env (failing_env :: (unit agent_x) retry_env) 300 600 twice [asked] (Suc 0) [attempt_marked 1 asked]"
    by (rule again [OF untried _ recipe_session_retry run]) simp
  have "Suc 0 \<le> unat (rc_max_retries twice)"
    by (rule retries_bounded [OF one asked_turn(1)])
  with one show ?thesis by simp
qed

subsection \<open>The tail of a command's error output\<close>

lemma last_bytes_append:
  "drop (length (drop (length xs - n) xs @ ys) - n) (drop (length xs - n) xs @ ys) =
   drop (length (xs @ ys) - n) (xs @ ys)"
proof -
  have "drop (length xs - n) xs @ ys = drop (length xs - n) (xs @ ys)" by simp
  then show ?thesis by (simp only: length_drop drop_drop) (rule arg_cong [where f = "\<lambda>k. drop k (xs @ ys)"], simp)
qed

lemma capture_tail_acc:
  "list_all (\<lambda>c. c \<noteq> []) chunks \<Longrightarrow> length tail \<le> MAX_COMMAND_STDERR_BYTES \<Longrightarrow>
   capture_tail chunks tail =
     drop (length (tail @ concat chunks) - MAX_COMMAND_STDERR_BYTES) (tail @ concat chunks)"
proof (induction chunks arbitrary: tail)
  case Nil
  then show ?case by simp
next
  case (Cons chunk chunks)
  let ?N = MAX_COMMAND_STDERR_BYTES
  let ?next = "if ?N \<le> length chunk then drop (length chunk - ?N) chunk
    else drop (length tail + length chunk - ?N) tail @ chunk"
  have short: "length ?next \<le> ?N" using Cons.prems(2) by auto
  have "?next = drop (length (tail @ chunk) - ?N) (tail @ chunk)"
    using Cons.prems(2) by auto
  moreover have "capture_tail (chunk # chunks) tail = capture_tail chunks ?next"
    using Cons.prems(1) by simp
  moreover have "capture_tail chunks ?next =
      drop (length (?next @ concat chunks) - ?N) (?next @ concat chunks)"
    using Cons.IH [OF _ short] Cons.prems(1) by simp
  ultimately show ?case
    using last_bytes_append [of "tail @ chunk" ?N "concat chunks"] by simp
qed

text \<open>
  What is kept of a command's standard error is its last 8192 bytes (all of it when it is
  shorter), however the stream was cut into chunks; an empty chunk ends the stream.
\<close>

theorem capture_tail_exact:
  assumes "list_all (\<lambda>c. c \<noteq> []) chunks"
  shows "capture_tail chunks [] =
    drop (length (concat chunks) - MAX_COMMAND_STDERR_BYTES) (concat chunks)"
  using capture_tail_acc [OF assms, of "[]"] by simp

lemma capture_tail_exact_witness:
  "capture_tail [''err'', ''or''] [] = ''error''"
  by (subst capture_tail_exact) (simp_all add: MAX_COMMAND_STDERR_BYTES_def)

end
