(* ===== verification/Tool_Execution.thy ===== *)
theory Tool_Execution
  imports Turn_Operations Tool_Approval Tool_Operation
begin

text \<open>
  \<open>ToolExecutionOperation\<close> (\<open>agents/state_machine/ops_toolcalling.rs\<close>) and
  \<open>UnknownToolOperation\<close> (\<open>ops_unknown_tool.rs\<close>): the calls a turn left pending are run
  through the hooks and the extensions, and each of them is answered, as a tool error when
  nobody can run it.  The extensions, and the order in which the streams of running calls
  deliver, are parameters.
\<close>

definition DECLINED_RESPONSE :: string where
  "DECLINED_RESPONSE = ''The user has declined to run this tool. DO NOT attempt to call this tool again. If there are no alternative methods to proceed, clearly explain the situation and STOP.''"

definition CHAT_MODE_TOOL_SKIPPED_RESPONSE :: string where
  "CHAT_MODE_TOOL_SKIPPED_RESPONSE =
     ''Let the user know the tool call was skipped in aibuddy chat mode. DO NOT apologize for skipping the tool call. DO NOT say sorry. Provide an explanation of what the tool call would do, structured as a plan for the user. Again, DO NOT apologize. **Example Plan:**'' @ newline @
     '' 1. **Identify Task Scope** - Determine the purpose and expected outcome.'' @ newline @
     '' 2. **Outline Steps** - Break down the steps.'' @ newline @
     '' If needed, adjust the explanation based on user preferences or questions.''"

definition FINAL_OUTPUT_TOOL_NAME :: string where
  "FINAL_OUTPUT_TOOL_NAME = ''recipe__final_output''"

definition UNCLAIMED_TOOL_ERROR :: string where
  "UNCLAIMED_TOOL_ERROR = ''aibuddy.unclaimed_tool''"

definition error_answer :: "string \<Rightarrow> error_data + call_tool_result" where
  "error_answer text = Inr (call_result_error [content_text text])"

definition success_answer :: "string \<Rightarrow> error_data + call_tool_result" where
  "success_answer text = Inr (call_result_success [content_text text])"

subsection \<open>Unknown tools\<close>

definition not_available_text :: "string \<Rightarrow> string" where
  "not_available_text name = ''Tool '' @ quoted name @ '' is not available.''"

text \<open>A call that passed the hooks but has no provider; then the post-tool event.\<close>

definition refuse_call ::
  "'x hook_env \<Rightarrow> hook_manager \<Rightarrow> bool \<Rightarrow> session \<Rightarrow> string \<Rightarrow> call_tool_params \<Rightarrow>
   ((error_data + call_tool_result) \<times> bool, 'x) act" where
  "refuse_call H M final_output s i call w =
     (let inp = call_input call in
      case run_pre_tool_hooks H M s i (ct_name call) inp w of
        (Inl denial, w1) \<Rightarrow> ((Inl denial, False), w1)
      | (Inr _, w1) \<Rightarrow>
          (let w2 = emit_extended_pre_hooks H M (ct_name call) inp s w1;
               (output, unclaimed) =
                 (if ct_name call = FINAL_OUTPUT_TOOL_NAME \<and> \<not> final_output
                  then (Inl (internal_error ''Final output tool not defined''), False)
                  else (error_answer (not_available_text (ct_name call)), True));
               (_, w3) = emit_post_tool_use H M (se_id s) (se_working_dir s) (ct_name call) i inp
                           output w2
           in ((output, unclaimed), w3)))"

definition answer_unknown ::
  "'x hook_env \<Rightarrow> hook_manager \<Rightarrow> (error_data \<Rightarrow> string) \<Rightarrow> bool \<Rightarrow> session \<Rightarrow> message list \<Rightarrow>
   tool_request \<times> tool_disposition \<Rightarrow> ((error_data + call_tool_result) \<times> bool, 'x) act" where
  "answer_unknown H M pe final_output s turn rd w =
     (let (r, d) = rd in
      case d of
        ParseFailed e \<Rightarrow>
          ((error_answer (''The tool call could not be parsed: '' @ e @
              ''. Correct the arguments and try again.''), False), w)
      | Decline \<Rightarrow> ((error_answer DECLINED_RESPONSE, False), w)
      | Execute \<Rightarrow>
          if \<not> request_was_advertised turn r
          then ((error_answer (not_available_text
                  (case tq_tool_call r of Inr call \<Rightarrow> ct_name call | Inl _ \<Rightarrow> ''unknown'')), True), w)
          else if se_mode s = ModeChat
          then ((success_answer CHAT_MODE_TOOL_SKIPPED_RESPONSE, False), w)
          else
            (case tq_tool_call r of
               Inr call \<Rightarrow> refuse_call H M final_output s (tq_id r) call w
             | Inl e \<Rightarrow>
                 ((error_answer (''The tool call could not be parsed: '' @ pe e @ ''.''), False), w)))"

definition answer_metadata :: "tool_request \<Rightarrow> bool \<Rightarrow> json_object option" where
  "answer_metadata r unclaimed =
     (if unclaimed
      then Some (map_insert UNCLAIMED_TOOL_ERROR (JBool True) (unwrap_or (tq_metadata r) []))
      else tq_metadata r)"

fun answer_all_unknown ::
  "ext_env \<Rightarrow> 'x hook_env \<Rightarrow> hook_manager \<Rightarrow> (error_data \<Rightarrow> string) \<Rightarrow> bool \<Rightarrow> session \<Rightarrow>
   message list \<Rightarrow> (tool_request \<times> tool_disposition) list \<Rightarrow> message \<Rightarrow> (message, 'x) act" where
  "answer_all_unknown E H M pe final_output s turn [] m w = (m, w)"
| "answer_all_unknown E H M pe final_output s turn (rd # rds) m w =
     (let ((result, unclaimed), w1) = answer_unknown H M pe final_output s turn rd w
      in answer_all_unknown E H M pe final_output s turn rds
           (add_tool_response_with_metadata E (tq_id (fst rd)) result
              (answer_metadata (fst rd) unclaimed) m) w1)"

definition has_final_output :: "session \<Rightarrow> bool" where
  "has_final_output s \<longleftrightarrow> is_some_and (se_recipe s) (\<lambda>r. rp_response r \<noteq> None)"

text \<open>The calls reserved for the recipe's final output.\<close>

definition reserved_for_recipe :: "bool \<Rightarrow> message list \<Rightarrow> tool_request \<times> tool_disposition \<Rightarrow> bool" where
  "reserved_for_recipe final_output turn = (\<lambda>(r, d).
     final_output \<and> d = Execute \<and> request_was_advertised turn r \<and>
     (case tq_tool_call r of Inr call \<Rightarrow> ct_name call = FINAL_OUTPUT_TOOL_NAME | Inl _ \<Rightarrow> False))"

definition unknown_pending ::
  "(error_data \<Rightarrow> string) \<Rightarrow> session \<Rightarrow> message list \<Rightarrow> (tool_request \<times> tool_disposition) list" where
  "unknown_pending pe s turn =
     filter (\<lambda>rd. \<not> reserved_for_recipe (has_final_output s) turn rd) (pending_tool_requests pe turn)"

definition unknown_tool_run ::
  "ext_env \<Rightarrow> 'x hook_env \<Rightarrow> hook_manager \<Rightarrow> (error_data \<Rightarrow> string) \<Rightarrow> session \<Rightarrow> conversation \<Rightarrow>
   (aibuddy_effect operation_result result, 'x) act" where
  "unknown_tool_run E H M pe s c w =
     (case messages_since_kickoff c of
        Inl e \<Rightarrow> (Inl e, w)
      | Inr turn \<Rightarrow>
          (let pending = unknown_pending pe s turn in
           if pending = [] then (not_applicable, w)
           else
             (let (m, w1) = answer_all_unknown E H M pe (has_final_output s) s turn pending
                              (message_user E) w;
                  (m', w2) = emit_message m w1
              in (applied [append_effect m'], w2))))"

definition unknown_tool_operation ::
  "ext_env \<Rightarrow> 'x hook_env \<Rightarrow> hook_manager \<Rightarrow> (error_data \<Rightarrow> string) \<Rightarrow> 'x agent_operation" where
  "unknown_tool_operation E H M pe =
     (operation_default ''unknown_tool'')\<lparr>op_run := unknown_tool_run E H M pe\<rparr>"

subsection \<open>Extensions\<close>

datatype tool_signal =
    SigActionRequired message
  | SigMessage json
  | SigResult "error_data + call_tool_result"

text \<open>
  What the operation takes from the extension manager: the prefixed tools, the context parts,
  the serialised configurations, and the start of a call, which may fail at once.
  \<open>ee_deliver\<close> is the delivery of the streams of the calls (request id, whether the call was
  started): which stream, by position, yields what, up to the end of all streams or to the
  cancellation that breaks the loop.  The stream of a call that did not start yields the
  error it was refused with, whatever result is delivered for it.
\<close>

record 'x exec_env =
  ee_tools :: "string \<Rightarrow> (tool list result, 'x) act"
  ee_moim :: "string \<Rightarrow> (string list, 'x) act"
  ee_configs :: "(json result, 'x) act"
  ee_start :: "session \<Rightarrow> string \<Rightarrow> call_tool_params \<Rightarrow> (error_data + unit, 'x) act"
  ee_deliver :: "(string \<times> bool) list \<Rightarrow> ((nat \<times> tool_signal) list, 'x) act"
  ee_shorten :: "error_data + call_tool_result \<Rightarrow> error_data + call_tool_result"

definition set_extension_state :: "string \<Rightarrow> string \<Rightarrow> json \<Rightarrow> json \<Rightarrow> json" where
  "set_extension_state name version state data =
     JObj (map_insert (name @ ''.'' @ version) state (unwrap_or (json_as_object data) []))"

definition get_extension_state :: "string \<Rightarrow> string \<Rightarrow> json \<Rightarrow> json option" where
  "get_extension_state name version data = json_get data (name @ ''.'' @ version)"

definition extension_state_effect ::
  "'x exec_env \<Rightarrow> session \<Rightarrow> (aibuddy_effect result, 'x) act" where
  "extension_state_effect X s w =
     try_bind (ee_configs X) (\<lambda>v w1.
       (Inr (SetExtensionData (set_extension_state ''enabled_extensions'' ''v0'' v
              (se_extension_data s))), w1)) w"

definition platform_notification :: "call_tool_result \<Rightarrow> json option" where
  "platform_notification r =
     Option.bind (Option.bind (cr_meta r) (\<lambda>m. map_of m ''platform_notification'')) (\<lambda>n.
       Option.bind (Option.bind (json_get n ''method'') json_as_str) (\<lambda>meth.
         Some (JObj ((''method'', JStr meth) #
           (case json_get n ''params'' of None \<Rightarrow> [] | Some p \<Rightarrow> [(''params'', p)])))))"

subsection \<open>Running the calls\<close>

text \<open>
  How a call was dispatched: refused by the hooks before it reached the extensions, refused
  by the extensions (its error still passes the post-tool hooks), or running.
\<close>

datatype dispatched = RefusedByHooks error_data | RefusedByExtension error_data | Running

definition dispatch_tool_call ::
  "'x exec_env \<Rightarrow> 'x hook_env \<Rightarrow> hook_manager \<Rightarrow> session \<Rightarrow> string \<Rightarrow> call_tool_params \<Rightarrow>
   (dispatched, 'x) act" where
  "dispatch_tool_call X H M s i call w =
     (let inp = call_input call in
      case run_pre_tool_hooks H M s i (ct_name call) inp w of
        (Inl denial, w1) \<Rightarrow> (RefusedByHooks denial, w1)
      | (Inr _, w1) \<Rightarrow>
          (case ee_start X s i call (emit_extended_pre_hooks H M (ct_name call) inp s w1) of
             (Inl e, w2) \<Rightarrow> (RefusedByExtension e, w2)
           | (Inr _, w2) \<Rightarrow> (Running, w2)))"

record running_call =
  ru_request :: tool_request
  ru_call :: call_tool_params
  ru_dispatched :: dispatched

fun dispatch_all ::
  "'x exec_env \<Rightarrow> 'x hook_env \<Rightarrow> hook_manager \<Rightarrow> (error_data \<Rightarrow> string) \<Rightarrow> session \<Rightarrow>
   (tool_request \<times> tool_disposition) list \<Rightarrow> (running_call list result, 'x) act" where
  "dispatch_all X H M pe s [] w = (Inr [], w)"
| "dispatch_all X H M pe s ((r, d) # rds) w =
     (if d \<noteq> Execute then dispatch_all X H M pe s rds w
      else
        (case tq_tool_call r of
           Inl e \<Rightarrow> (Inl (''tool call could not be parsed: '' @ pe e), w)
         | Inr call \<Rightarrow>
             (let (st, w1) = dispatch_tool_call X H M s (tq_id r) call w
              in try_bind (dispatch_all X H M pe s rds)
                   (\<lambda>rs w2. (Inr (\<lparr>ru_request = r, ru_call = call, ru_dispatched = st\<rparr> # rs), w2)) w1)))"

definition call_output ::
  "'x exec_env \<Rightarrow> 'x hook_env \<Rightarrow> hook_manager \<Rightarrow> session \<Rightarrow> running_call \<Rightarrow>
   error_data + call_tool_result \<Rightarrow> (error_data + call_tool_result, 'x) act" where
  "call_output X H M s ru raw w =
     (case ru_dispatched ru of
        RefusedByHooks e \<Rightarrow> (Inl e, w)
      | RefusedByExtension e \<Rightarrow>
          post_tool_hooks H (ee_shorten X) M (ru_call ru) s (tq_id (ru_request ru)) (Inl e) w
      | Running \<Rightarrow>
          post_tool_hooks H (ee_shorten X) M (ru_call ru) s (tq_id (ru_request ru)) raw w)"

definition note_platform ::
  "string \<Rightarrow> error_data + call_tool_result \<Rightarrow> 'x world_scheme \<Rightarrow> 'x world_scheme" where
  "note_platform i output w =
     (case output of
        Inr res \<Rightarrow> (case platform_notification res of
            Some n \<Rightarrow> emit (EvNotification i n) w | None \<Rightarrow> w)
      | Inl _ \<Rightarrow> w)"

record delivery =
  dl_response :: message
  dl_effects :: "aibuddy_effect list"
  dl_change_failed :: bool

fun deliver_loop ::
  "ext_env \<Rightarrow> 'x exec_env \<Rightarrow> 'x hook_env \<Rightarrow> hook_manager \<Rightarrow> session \<Rightarrow> tool_request list \<Rightarrow>
   string set \<Rightarrow> running_call list \<Rightarrow> (nat \<times> tool_signal) list \<Rightarrow> delivery \<Rightarrow>
   (delivery, 'x) act" where
  "deliver_loop E X H M s requests manage running [] dl w = (dl, w)"
| "deliver_loop E X H M s requests manage running ((k, sig) # items) dl w =
     (if length running \<le> k then deliver_loop E X H M s requests manage running items dl w
      else
        (let ru = running ! k; i = tq_id (ru_request ru) in
         case sig of
           SigResult raw \<Rightarrow>
             (let (output, w1) = call_output X H M s ru raw w;
                  md = Option.bind (find (\<lambda>r. tq_id r = i) requests) tq_metadata;
                  dl' = dl\<lparr>dl_change_failed :=
                             (dl_change_failed dl \<or> i \<in> manage \<and> \<not> is_ok output),
                           dl_response := add_tool_response_with_metadata E i output md (dl_response dl)\<rparr>
              in deliver_loop E X H M s requests manage running items dl' (note_platform i output w1))
         | SigMessage n \<Rightarrow>
             deliver_loop E X H M s requests manage running items dl (emit (EvNotification i n) w)
         | SigActionRequired m \<Rightarrow>
             (let (m', w1) = emit_message m w
              in deliver_loop E X H M s requests manage running items
                   (dl\<lparr>dl_effects := dl_effects dl @ [append_effect m']\<rparr>) w1)))"

text \<open>The answers that need no call: declined requests and calls that did not parse.\<close>

definition static_answer :: "tool_disposition \<Rightarrow> (error_data + call_tool_result) option" where
  "static_answer d =
     (case d of
        Execute \<Rightarrow> None
      | Decline \<Rightarrow> Some (error_answer DECLINED_RESPONSE)
      | ParseFailed e \<Rightarrow>
          Some (error_answer (''The tool call could not be parsed: '' @ e @
                  ''. Correct the arguments and try again.'')))"

definition answer_static :: "ext_env \<Rightarrow> message \<Rightarrow> tool_request \<times> tool_disposition \<Rightarrow> message" where
  "answer_static E m rd =
     (case static_answer (snd rd) of
        None \<Rightarrow> m
      | Some res \<Rightarrow>
          add_tool_response_with_metadata E (tq_id (fst rd)) res (tq_metadata (fst rd)) m)"

definition answer_interrupted :: "ext_env \<Rightarrow> string set \<Rightarrow> message \<Rightarrow> tool_request \<Rightarrow> message" where
  "answer_interrupted E answered m r =
     (if tq_id r \<in> answered then m
      else add_tool_response_with_metadata E (tq_id r) interrupted_result (tq_metadata r) m)"

definition chat_answer :: "ext_env \<Rightarrow> message \<Rightarrow> tool_request \<times> tool_disposition \<Rightarrow> message" where
  "chat_answer E m rd =
     add_tool_response_with_metadata E (tq_id (fst rd))
       (case snd rd of
          ParseFailed e \<Rightarrow> error_answer (''The tool call could not be parsed: '' @ e @ ''.'')
        | _ \<Rightarrow> success_answer CHAT_MODE_TOOL_SKIPPED_RESPONSE) (tq_metadata (fst rd)) m"

definition call_named :: "string \<Rightarrow> tool_request \<Rightarrow> bool" where
  "call_named name r \<longleftrightarrow> (case tq_tool_call r of Inr call \<Rightarrow> ct_name call = name | Inl _ \<Rightarrow> False)"

definition known_call :: "string set \<Rightarrow> tool_request \<Rightarrow> bool" where
  "known_call names r \<longleftrightarrow>
     (case tq_tool_call r of Inr call \<Rightarrow> ct_name call \<in> names | Inl _ \<Rightarrow> False)"

text \<open>The loop over the streams of the running calls, from the answers that need none.\<close>

definition collect_deliveries ::
  "ext_env \<Rightarrow> 'x exec_env \<Rightarrow> 'x hook_env \<Rightarrow> hook_manager \<Rightarrow> session \<Rightarrow>
   (tool_request \<times> tool_disposition) list \<Rightarrow> string set \<Rightarrow> running_call list \<Rightarrow> (delivery, 'x) act"
where
  "collect_deliveries E X H M s pending manage running w =
     (let (items, w1) = ee_deliver X
            (map (\<lambda>ru. (tq_id (ru_request ru), ru_dispatched ru = Running)) running) w
      in deliver_loop E X H M s (map fst pending) manage running items
           \<lparr>dl_response = foldl (answer_static E) (message_user E) pending, dl_effects = [],
            dl_change_failed = False\<rparr> w1)"

definition answer_rest :: "ext_env \<Rightarrow> tool_request list \<Rightarrow> message \<Rightarrow> message" where
  "answer_rest E requests m = foldl (answer_interrupted E (get_tool_response_ids m)) m requests"

text \<open>The extension state to store, when the extensions were managed without a failure.\<close>

definition extension_changes ::
  "'x exec_env \<Rightarrow> session \<Rightarrow> bool \<Rightarrow> (aibuddy_effect list result, 'x) act" where
  "extension_changes X s changed w =
     (if changed then try_bind (extension_state_effect X s) (\<lambda>eff w. (Inr [eff], w)) w
      else (Inr [], w))"

definition finish_calls ::
  "ext_env \<Rightarrow> 'x exec_env \<Rightarrow> session \<Rightarrow> tool_request list \<Rightarrow> string set \<Rightarrow> delivery \<Rightarrow>
   (aibuddy_effect operation_result result, 'x) act" where
  "finish_calls E X s requests manage dl w =
     (let response = answer_rest E requests (dl_response dl) in
      try_bind (extension_changes X s (manage \<noteq> {} \<and> \<not> dl_change_failed dl))
        (\<lambda>state w1.
           let (u, w2) = (if msg_id response = None then fresh_uuid w1 else ([], w1));
               response' = with_generated_id_if_missing u response
           in (applied (dl_effects dl @ state @ [append_effect response']),
               emit (EvMessage (user_visible_content response')) w2)) w)"

definition execute_calls ::
  "ext_env \<Rightarrow> 'x exec_env \<Rightarrow> 'x hook_env \<Rightarrow> hook_manager \<Rightarrow> (error_data \<Rightarrow> string) \<Rightarrow> session \<Rightarrow>
   (tool_request \<times> tool_disposition) list \<Rightarrow> (aibuddy_effect operation_result result, 'x) act"
where
  "execute_calls E X H M pe s pending w =
     (let requests = map fst pending;
          manage = tq_id ` set (filter (call_named MANAGE_EXTENSIONS_TOOL_NAME_COMPLETE) requests) in
      try_bind (dispatch_all X H M pe s pending) (\<lambda>running w1.
        let (dl, w2) = collect_deliveries E X H M s pending manage running w1
        in finish_calls E X s requests manage dl w2) w)"

definition tool_execution_run ::
  "ext_env \<Rightarrow> ('y agent_x) exec_env \<Rightarrow> ('y agent_x) hook_env \<Rightarrow> hook_manager \<Rightarrow>
   (error_data \<Rightarrow> string) \<Rightarrow> session \<Rightarrow> conversation \<Rightarrow>
   (aibuddy_effect operation_result result, 'y) agent_act" where
  "tool_execution_run E X H M pe s c w =
     (case messages_since_kickoff c of
        Inl e \<Rightarrow> (Inl e, w)
      | Inr turn \<Rightarrow>
          (let pending = pending_advertised_tool_requests pe turn in
           if pending = [] then (not_applicable, w)
           else
             (let (tools, w1) = ee_tools X (se_id s) w;
                  names = set (map tl_name (unwrap_or (result_ok tools) []));
                  mine = filter (known_call names \<circ> fst) pending
              in if mine = [] then (not_applicable, w1)
                 else if aw_mode w1 = ModeChat then
                   (let (m, w2) = emit_message (foldl (chat_answer E) (message_user E) mine) w1
                    in (applied [append_effect m], w2))
                 else execute_calls E X H M pe s mine w1)))"

definition tool_execution_tools ::
  "'x exec_env \<Rightarrow> session \<Rightarrow> (tool list result option, 'x) act" where
  "tool_execution_tools X s w =
     (let (tools, w1) = ee_tools X (se_id s) w in (Some (Inr (unwrap_or (result_ok tools) [])), w1))"

definition tool_execution_moim ::
  "'x exec_env \<Rightarrow> session \<Rightarrow> conversation \<Rightarrow> (string list result, 'x) act" where
  "tool_execution_moim X s c w = (let (parts, w1) = ee_moim X (se_id s) w in (Inr parts, w1))"

definition tool_execution_operation ::
  "ext_env \<Rightarrow> ('y agent_x) exec_env \<Rightarrow> ('y agent_x) hook_env \<Rightarrow> hook_manager \<Rightarrow>
   (error_data \<Rightarrow> string) \<Rightarrow> ('y agent_x) agent_operation" where
  "tool_execution_operation E X H M pe = (operation_default ''tool_execution'')
     \<lparr>op_run := tool_execution_run E X H M pe, op_tools := tool_execution_tools X,
      op_moim_parts := tool_execution_moim X\<rparr>"

end
