(* ===== verification/Tool_Execution_Props.thy ===== *)
theory Tool_Execution_Props
  imports Tool_Execution Turn_Props Tool_Approval_Props
begin

text \<open>
  Properties of the operations that answer tool requests: a call the policy hooks deny never
  reaches the extensions, the unknown-tool operation leaves no request without an answer
  except those reserved for the recipe, and the execution of calls answers each of them once
  whatever the order in which their streams deliver and wherever cancellation cuts it.
\<close>

subsection \<open>Messages made of answers\<close>

definition only_responses :: "message \<Rightarrow> bool" where
  "only_responses m \<longleftrightarrow> msg_role m = User \<and> list_all is_tool_response_block (msg_content m)"

definition response_ids :: "message \<Rightarrow> string list" where
  "response_ids m = filter_map response_id_of (msg_content m)"

lemma only_responses_user [simp]: "only_responses (message_user E)" "response_ids (message_user E) = []"
  by (simp_all add: only_responses_def response_ids_def message_user_def message_new_def)

lemma add_response_facts [simp]:
  "only_responses (add_tool_response_with_metadata E i res md m) = only_responses m"
  "response_ids (add_tool_response_with_metadata E i res md m) = response_ids m @ [i]"
  by (auto simp: only_responses_def response_ids_def add_tool_response_with_metadata_def
      with_content_def mc_tool_response_with_metadata_def)

lemma emit_message_responses [simp]:
  "only_responses (fst (emit_message m w)) = only_responses m"
  "response_ids (fst (emit_message m w)) = response_ids m"
  by (simp_all add: only_responses_def response_ids_def)

lemma get_response_ids: "get_tool_response_ids m = set (response_ids m)"
  by (simp add: get_tool_response_ids_def response_ids_def)

lemma only_responses_not_kickoff:
  "only_responses m \<Longrightarrow> response_ids m \<noteq> [] \<Longrightarrow> \<not> is_kickoff m"
  by (cases "msg_content m")
    (auto simp: only_responses_def response_ids_def is_kickoff_def is_tool_response_def filter_map_def)

text \<open>What such a message does to the requests that are pending.\<close>

lemma responses_views:
  assumes "list_all is_tool_response_block cs"
  shows "filter_map confirmation_request_id cs = []" "filter_map confirmation_answer cs = []"
    "filter_map as_tool_request cs = []"
proof -
  have "confirmation_request_id b = None \<and> confirmation_answer b = None \<and> as_tool_request b = None"
    if "is_tool_response_block b" for b
    using that by (cases b) simp_all
  with assms show "filter_map confirmation_request_id cs = []" "filter_map confirmation_answer cs = []"
    "filter_map as_tool_request cs = []"
    by (induction cs) (simp_all add: filter_map_def)
qed

lemma blocks_of_append [simp]: "blocks_of (ms @ [m]) = blocks_of ms @ msg_content m"
  by (simp add: blocks_of_def)

lemma find_snoc: "\<not> p m \<Longrightarrow> find p (ms @ [m]) = find p ms"
  by (induction ms) simp_all

lemma advertised_after_answer:
  "only_responses m \<Longrightarrow> request_was_advertised (ms @ [m]) r = request_was_advertised ms r"
  by (cases "tq_tool_call r") (simp_all add: request_was_advertised_def only_responses_def find_snoc)

lemma disposition_after_answer:
  assumes "only_responses m"
  shows "request_disposition pe (ms @ [m]) r =
    (if tq_id r \<in> set (response_ids m) then None else request_disposition pe ms r)"
proof -
  have views: "filter_map confirmation_request_id (msg_content m) = []"
    "filter_map confirmation_answer (msg_content m) = []"
    using assms responses_views by (auto simp: only_responses_def)
  then show ?thesis
    by (auto simp: request_disposition_def answered_ids_def confirmation_ids_def
        confirmation_answers_def response_ids_def split: sum.split)
qed

lemma pending_after_answer:
  assumes "only_responses m"
  shows "pending_tool_requests pe (ms @ [m]) =
    filter (\<lambda>rd. tq_id (fst rd) \<notin> set (response_ids m)) (pending_tool_requests pe ms)"
proof -
  have same: "assistant_requests (ms @ [m]) = assistant_requests ms"
    using assms by (simp add: assistant_requests_def only_responses_def)
  have "filter_map (\<lambda>r. map_option (Pair r) (request_disposition pe (ms @ [m]) r)) rs =
      filter (\<lambda>rd. tq_id (fst rd) \<notin> set (response_ids m))
        (filter_map (\<lambda>r. map_option (Pair r) (request_disposition pe ms r)) rs)" for rs
    by (induction rs) (auto simp: disposition_after_answer [OF assms] split: option.splits)
  then show ?thesis by (simp add: pending_tool_requests_def same)
qed

subsection \<open>The unknown-tool operation\<close>

lemma answer_all_unknown_responses:
  "only_responses (fst (answer_all_unknown E H M pe fo s turn rds m w)) = only_responses m"
  "response_ids (fst (answer_all_unknown E H M pe fo s turn rds m w)) =
     response_ids m @ map (tq_id \<circ> fst) rds"
  by (induction rds arbitrary: m w) (simp_all add: case_prod_beta Let_def)

text \<open>
  Whatever the hooks say, the unknown-tool operation answers, in order and each once, every
  pending request of the turn that is not reserved for the recipe's final output, in one user
  message that stays in the turn; afterwards nothing is left for it.
\<close>

theorem unknown_tool_answers:
  assumes "messages_since_kickoff c = Inr turn" and "unknown_pending pe s turn \<noteq> []"
  shows "\<exists>m. fst (unknown_tool_run E H M pe s c w) = applied [append_effect m] \<and>
    response_ids m = map (tq_id \<circ> fst) (unknown_pending pe s turn) \<and>
    messages_since_kickoff (c @ [m]) = Inr (turn @ [m]) \<and>
    unknown_pending pe s (turn @ [m]) = []"
proof -
  define m where "m = fst (emit_message
     (fst (answer_all_unknown E H M pe (has_final_output s) s turn (unknown_pending pe s turn) (message_user E) w))
     (snd (answer_all_unknown E H M pe (has_final_output s) s turn (unknown_pending pe s turn) (message_user E) w)))"
  have run: "fst (unknown_tool_run E H M pe s c w) = applied [append_effect m]"
    using assms by (simp add: unknown_tool_run_def m_def Let_def case_prod_beta)
  have resp: "only_responses m" and ids: "response_ids m = map (tq_id \<circ> fst) (unknown_pending pe s turn)"
    by (simp_all add: m_def answer_all_unknown_responses)
  have kick: "messages_since_kickoff (c @ [m]) = Inr (turn @ [m])"
    using assms only_responses_not_kickoff [OF resp] ids
    by (intro messages_since_kickoff_app) simp_all
  have "reserved_for_recipe (has_final_output s) (turn @ [m]) = reserved_for_recipe (has_final_output s) turn"
    by (intro ext) (simp add: reserved_for_recipe_def advertised_after_answer [OF resp] split_beta)
  then have "unknown_pending pe s (turn @ [m]) = []"
    using ids by (auto simp: unknown_pending_def pending_after_answer [OF resp] filter_empty_conv)
  with run ids kick show ?thesis by blast
qed

subsection \<open>The policy gate\<close>

text \<open>
  C8: When the policy hooks deny a tool call, the call is answered with an internal error that
  names the hook and gives its reason, and says whether the hook denied the call or could not
  complete; nothing but the hooks and the report of their decision happens, whatever the
  extensions would have done.  The same holds for a call to an unknown tool, and the answer is
  kept as it is, past the hooks that follow a call that ran.
\<close>

theorem policy_denial_stops_call:
  assumes "has_hooks M PreToolUse"
    and "emit_blocking_with_outcome H M PreToolUse
           (pre_tool_context s i (ct_name call) (call_input call)) w = (out, v)"
    and "co_decision out = HookDeny reason plugin"
    and "e = \<lparr>ed_code = INTERNAL_ERROR,
           ed_message =
             (if co_cause out = Some HookFailureCause
              then ''Tool call blocked because policy hook `'' @ plugin @
                ''` could not complete: '' @ reason @ ''. That hook is configured to block on failure.''
              else ''Tool call denied by policy hook `'' @ plugin @ ''`: '' @ reason @
                ''. Do not retry; this is a policy denial, not a transient failure.''),
           ed_data = None\<rparr>"
    and "w' = emit_policy_result H M s i (ct_name call) (call_input call) out v"
  shows "dispatch_tool_call X H M s i call w = (RefusedByHooks e, w') \<and>
    refuse_call H M fo s i call w = ((Inl e, False), w') \<and>
    call_output X H M s (ru\<lparr>ru_dispatched := RefusedByHooks e\<rparr>) raw u = (Inl e, u)"
proof -
  have "run_pre_tool_hooks H M s i (ct_name call) (call_input call) w = (Inl e, w')"
    unfolding assms(4,5) using assms(1-3)
    by (simp add: run_pre_tool_hooks_def outcome_denial_def internal_error_def ticked_def)
  then show ?thesis by (simp add: dispatch_tool_call_def refuse_call_def call_output_def)
qed

lemma policy_denial_stops_call_witness:
  "\<forall>X. \<exists>w'. dispatch_tool_call X (echo_env :: (unit agent_x) hook_env) echo_manager idle_session ''c1''
      \<lparr>ct_name = ''shell'', ct_arguments = None\<rparr> store_world =
    (RefusedByHooks \<lparr>ed_code = INTERNAL_ERROR,
       ed_message = ''Tool call denied by policy hook `guard`: deny'' @
         ''. Do not retry; this is a policy denial, not a transient failure.'',
       ed_data = None\<rparr>, w')"
proof -
  let ?call = "\<lparr>ct_name = ''shell'', ct_arguments = None\<rparr>"
  have hooks: "has_hooks echo_manager PreToolUse" by (simp add: has_hooks_def echo_manager_def)
  have "matching_actions echo_manager PreToolUse (pre_tool_context idle_session ''c1'' ''shell'' None) =
      matching_actions echo_manager PreToolUse shell_context"
    by (simp add: matching_actions_def pre_tool_context_def shell_context_def with_tool_def
        with_working_dir_def with_tool_call_id_def hook_context_new_def)
  then have decided: "co_decision (fst (emit_blocking_with_outcome (echo_env :: (unit agent_x) hook_env)
      echo_manager PreToolUse (pre_tool_context idle_session ''c1'' (ct_name ?call) (call_input ?call))
      store_world)) = HookDeny ''deny'' ''guard''"
    "co_cause (fst (emit_blocking_with_outcome (echo_env :: (unit agent_x) hook_env)
      echo_manager PreToolUse (pre_tool_context idle_session ''c1'' (ct_name ?call) (call_input ?call))
      store_world)) \<noteq> Some HookFailureCause"
    by (simp_all add: emit_blocking_with_outcome_def call_input_def echo_matching run_chain_decides
        decision_of_def Let_def del: judge_run.simps run_chain.simps)
  show ?thesis
    using policy_denial_stops_call [OF hooks surjective_pairing decided(1) refl refl] decided(2)
    by simp
qed

subsection \<open>The execution of calls\<close>

fun is_result :: "tool_signal \<Rightarrow> bool" where
  "is_result (SigResult _) = True"
| "is_result _ = False"

text \<open>The contract of the delivery: a stream holds one result, which ends it.\<close>

definition delivery_once :: "'x exec_env \<Rightarrow> bool" where
  "delivery_once X \<longleftrightarrow>
     (\<forall>rs w. distinct (map fst (filter (is_result \<circ> snd) (fst (ee_deliver X rs w)))))"

definition delivered :: "running_call list \<Rightarrow> (nat \<times> tool_signal) list \<Rightarrow> string list" where
  "delivered running items =
     map (\<lambda>(k, sig). tq_id (ru_request (running ! k)))
       (filter (\<lambda>(k, sig). is_result sig \<and> k < length running) items)"

lemma deliver_loop_responses:
  "only_responses (dl_response dl) \<Longrightarrow>
   only_responses (dl_response (fst (deliver_loop E X H M s reqs manage running items dl w))) \<and>
   response_ids (dl_response (fst (deliver_loop E X H M s reqs manage running items dl w))) =
     response_ids (dl_response dl) @ delivered running items"
proof (induction items arbitrary: dl w)
  case Nil
  then show ?case by (simp add: delivered_def)
next
  case (Cons item items)
  obtain k sig where item: "item = (k, sig)" by (cases item)
  show ?case
    using Cons by (cases sig) (auto simp: item delivered_def Let_def case_prod_beta)
qed

lemma delivered_positions:
  "delivered running items =
     map (\<lambda>k. map (tq_id \<circ> ru_request) running ! k)
       (filter (\<lambda>k. k < length running) (map fst (filter (is_result \<circ> snd) items)))"
  by (induction items) (auto simp: delivered_def)

lemma delivered_distinct:
  assumes "distinct (map fst (filter (is_result \<circ> snd) items))"
    and "distinct (map (tq_id \<circ> ru_request) running)"
  shows "distinct (delivered running items)"
  unfolding delivered_positions distinct_map
  using assms by (auto simp: distinct_map intro!: inj_on_nth)

lemma delivered_set: "set (delivered running items) \<subseteq> set (map (tq_id \<circ> ru_request) running)"
  by (auto simp: delivered_def)

lemma answer_static_responses:
  "only_responses (foldl (answer_static E) m rds) = only_responses m"
  "response_ids (foldl (answer_static E) m rds) =
     response_ids m @ map (tq_id \<circ> fst) (filter (\<lambda>rd. snd rd \<noteq> Execute) rds)"
  by (induction rds arbitrary: m)
    (auto simp: answer_static_def static_answer_def split: tool_disposition.split)

lemma answer_interrupted_responses:
  "only_responses (foldl (answer_interrupted E done_ids) m rs) = only_responses m"
  "response_ids (foldl (answer_interrupted E done_ids) m rs) =
     response_ids m @ map tq_id (filter (\<lambda>r. tq_id r \<notin> done_ids) rs)"
  by (induction rs arbitrary: m) (auto simp: answer_interrupted_def)

lemma chat_answer_responses:
  "only_responses (foldl (chat_answer E) m rds) = only_responses m"
  "response_ids (foldl (chat_answer E) m rds) = response_ids m @ map (tq_id \<circ> fst) rds"
  by (induction rds arbitrary: m) (auto simp: chat_answer_def)

lemma dispatch_all_requests:
  "dispatch_all X H M pe s rds w = (Inr running, w') \<Longrightarrow>
   map ru_request running = map fst (filter (\<lambda>rd. snd rd = Execute) rds)"
proof (induction rds arbitrary: running w w')
  case Nil
  then show ?case by simp
next
  case (Cons rd rds)
  obtain r d where rd: "rd = (r, d)" by (cases rd)
  show ?case
  proof (cases "d = Execute")
    case False
    then show ?thesis using Cons by (simp add: rd)
  next
    case True
    then obtain call where call: "tq_tool_call r = Inr call"
      using Cons.prems by (cases "tq_tool_call r") (simp_all add: rd)
    obtain st w1 where st: "dispatch_tool_call X H M s (tq_id r) call w = (st, w1)"
      by (cases "dispatch_tool_call X H M s (tq_id r) call w")
    from Cons.prems True call st obtain rest w2 where
      "dispatch_all X H M pe s rds w1 = (Inr rest, w2)"
      and "running = \<lparr>ru_request = r, ru_call = call, ru_dispatched = st\<rparr> # rest"
      by (auto simp: rd try_bind_def split: prod.splits sum.splits)
    with Cons.IH True show ?thesis by (simp add: rd)
  qed
qed

lemma finish_calls_effects:
  assumes "finish_calls E X s requests manage dl w = (Inr (Applied r), w')"
  obtains effs u where "sr_effects r =
    effs @ [append_effect (with_generated_id_if_missing u (answer_rest E requests (dl_response dl)))]"
proof -
  obtain state w1 where "extension_changes X s (manage \<noteq> {} \<and> \<not> dl_change_failed dl) w = (Inr state, w1)"
    using assms by (cases "extension_changes X s (manage \<noteq> {} \<and> \<not> dl_change_failed dl) w")
      (auto simp: finish_calls_def Let_def try_bind_def split: sum.splits)
  then have "sr_effects r = (dl_effects dl @ state) @ [append_effect (with_generated_id_if_missing
      (fst (if msg_id (answer_rest E requests (dl_response dl)) = None then fresh_uuid w1 else ([], w1)))
      (answer_rest E requests (dl_response dl)))]"
    using assms by (auto simp: finish_calls_def Let_def case_prod_beta applied_def)
  then show thesis by (rule that)
qed

lemma collect_deliveries_responses:
  fixes X :: "'x exec_env"
  assumes "delivery_once X"
  obtains items where "distinct (map fst (filter (is_result \<circ> snd) items))"
    "only_responses (dl_response (fst (collect_deliveries E X H M s pending manage running w)))"
    "response_ids (dl_response (fst (collect_deliveries E X H M s pending manage running w))) =
       map (tq_id \<circ> fst) (filter (\<lambda>rd. snd rd \<noteq> Execute) pending) @ delivered running items"
proof
  let ?items = "fst (ee_deliver X
    (map (\<lambda>ru. (tq_id (ru_request ru), ru_dispatched ru = Running)) running) w)"
  let ?start = "\<lparr>dl_response = foldl (answer_static E) (message_user E) pending, dl_effects = [],
    dl_change_failed = False\<rparr>"
  show "distinct (map fst (filter (is_result \<circ> snd) ?items))"
    using assms by (simp add: delivery_once_def)
  show "only_responses (dl_response (fst (collect_deliveries E X H M s pending manage running w)))"
    and "response_ids (dl_response (fst (collect_deliveries E X H M s pending manage running w))) =
       map (tq_id \<circ> fst) (filter (\<lambda>rd. snd rd \<noteq> Execute) pending) @ delivered running ?items"
    using deliver_loop_responses [of ?start E X H M s]
    by (simp_all add: collect_deliveries_def case_prod_beta answer_static_responses)
qed

lemma answer_rest_responses:
  "only_responses (answer_rest E requests m) = only_responses m"
  "response_ids (answer_rest E requests m) =
     response_ids m @ map tq_id (filter (\<lambda>q. tq_id q \<notin> set (response_ids m)) requests)"
  by (simp_all add: answer_rest_def answer_interrupted_responses get_response_ids)

lemma generated_id_responses [simp]:
  "only_responses (with_generated_id_if_missing u m) = only_responses m"
  "response_ids (with_generated_id_if_missing u m) = response_ids m"
  by (simp_all add: only_responses_def response_ids_def with_generated_id_if_missing_def
      with_generated_id_def with_id_def)

text \<open>Answers that are a part of the requests, completed by the rest.\<close>

lemma complete_answers:
  assumes "distinct given" and "set given \<subseteq> set (map tq_id requests)" and "distinct (map tq_id requests)"
  shows "distinct (given @ map tq_id (filter (\<lambda>q. tq_id q \<notin> set given) requests))"
    and "set (given @ map tq_id (filter (\<lambda>q. tq_id q \<notin> set given) requests)) = set (map tq_id requests)"
  using assms by (auto simp: distinct_map inj_on_def)

lemma execute_calls_answer:
  assumes "execute_calls E X H M pe s mine w = (Inr (Applied r), w')" and "delivery_once X"
    and "distinct (map (tq_id \<circ> fst) mine)"
  obtains m effs where "sr_effects r = effs @ [append_effect m]" "only_responses m"
    "distinct (response_ids m)" "set (response_ids m) = set (map (tq_id \<circ> fst) mine)"
proof -
  let ?manage = "tq_id ` set (filter (call_named MANAGE_EXTENSIONS_TOOL_NAME_COMPLETE) (map fst mine))"
  obtain running w1 where running: "dispatch_all X H M pe s mine w = (Inr running, w1)"
    using assms(1) by (cases "dispatch_all X H M pe s mine w")
      (auto simp: execute_calls_def Let_def try_bind_def split: sum.splits)
  define dl where "dl = fst (collect_deliveries E X H M s mine ?manage running w1)"
  have "finish_calls E X s (map fst mine) ?manage dl
      (snd (collect_deliveries E X H M s mine ?manage running w1)) = (Inr (Applied r), w')"
    using assms(1) by (simp add: execute_calls_def running Let_def case_prod_beta dl_def)
  then obtain effs u where effs: "sr_effects r =
      effs @ [append_effect (with_generated_id_if_missing u (answer_rest E (map fst mine) (dl_response dl)))]"
    by (rule finish_calls_effects)
  obtain items where items: "distinct (map fst (filter (is_result \<circ> snd) items))"
    and resp: "only_responses (dl_response dl)"
    and ids: "response_ids (dl_response dl) =
      map (tq_id \<circ> fst) (filter (\<lambda>rd. snd rd \<noteq> Execute) mine) @ delivered running items"
    using collect_deliveries_responses [OF assms(2)] unfolding dl_def by blast
  let ?exec = "filter (\<lambda>rd. snd rd = Execute) mine"
  have run_ids: "map (tq_id \<circ> ru_request) running = map (tq_id \<circ> fst) ?exec"
    using dispatch_all_requests [OF running] by (metis map_map)
  have "distinct (map (tq_id \<circ> ru_request) running)"
    unfolding run_ids using assms(3) by (simp add: distinct_map inj_on_def)
  then have del: "distinct (delivered running items)" by (rule delivered_distinct [OF items])
  have in_exec: "set (delivered running items) \<subseteq> (tq_id \<circ> fst) ` set ?exec"
    using delivered_set [of running items] unfolding run_ids by simp
  have inj: "inj_on (tq_id \<circ> fst) (set mine)" and dist: "distinct (map tq_id (map fst mine))"
    using assms(3) by (simp_all add: distinct_map)
  have "distinct (response_ids (dl_response dl))"
    unfolding ids distinct_append
  proof (intro conjI del)
    show "distinct (map (tq_id \<circ> fst) (filter (\<lambda>rd. snd rd \<noteq> Execute) mine))"
      using assms(3) by (simp add: distinct_map inj_on_def)
    show "set (map (tq_id \<circ> fst) (filter (\<lambda>rd. snd rd \<noteq> Execute) mine)) \<inter>
        set (delivered running items) = {}"
    proof (rule ccontr)
      assume "\<not> ?thesis"
      then obtain i where "i \<in> set (map (tq_id \<circ> fst) (filter (\<lambda>rd. snd rd \<noteq> Execute) mine))"
        and "i \<in> (tq_id \<circ> fst) ` set ?exec"
        using in_exec by blast
      then obtain x y where "x \<in> set mine" "snd x \<noteq> Execute" "y \<in> set mine" "snd y = Execute"
        and same: "(tq_id \<circ> fst) x = (tq_id \<circ> fst) y"
        by auto
      then show False using inj_onD [OF inj same] by blast
    qed
  qed
  moreover have "set (response_ids (dl_response dl)) \<subseteq> set (map tq_id (map fst mine))"
    unfolding ids using in_exec by auto
  ultimately have "distinct (response_ids (answer_rest E (map fst mine) (dl_response dl)))"
    and "set (response_ids (answer_rest E (map fst mine) (dl_response dl))) = set (map tq_id (map fst mine))"
    unfolding answer_rest_responses using complete_answers [OF _ _ dist] by blast+
  with resp show thesis by (intro that [OF effs]) (simp_all add: answer_rest_responses(1))
qed

definition known_names :: "'x exec_env \<Rightarrow> session \<Rightarrow> 'x world_scheme \<Rightarrow> string set" where
  "known_names X s w = set (map tl_name (unwrap_or (result_ok (fst (ee_tools X (se_id s) w))) []))"

definition known_pending ::
  "string set \<Rightarrow> (error_data \<Rightarrow> string) \<Rightarrow> message list \<Rightarrow> (tool_request \<times> tool_disposition) list" where
  "known_pending names pe turn =
     filter (known_call names \<circ> fst) (pending_advertised_tool_requests pe turn)"

lemma known_pending_after_answer:
  assumes "only_responses m"
  shows "known_pending names pe (turn @ [m]) =
    filter (\<lambda>rd. tq_id (fst rd) \<notin> set (response_ids m)) (known_pending names pe turn)"
proof -
  have adv: "request_was_advertised (turn @ [m]) = request_was_advertised turn"
    by (rule ext) (rule advertised_after_answer [OF assms])
  have "filter q (filter p (filter r xs)) = filter r (filter q (filter p xs))" for p q r and xs :: "'a list"
    by (induction xs) auto
  then show ?thesis
    by (simp only: known_pending_def pending_advertised_tool_requests_def adv
        pending_after_answer [OF assms])
qed

lemma tool_execution_appliedD:
  assumes "messages_since_kickoff c = Inr turn"
    and "tool_execution_run E X H M pe s c w = (Inr (Applied r), w')" and "delivery_once X"
    and "distinct (map (tq_id \<circ> fst) (known_pending (known_names X s w) pe turn))"
  obtains m effs where "sr_effects r = effs @ [append_effect m]" "only_responses m"
    "distinct (response_ids m)"
    "set (response_ids m) = set (map (tq_id \<circ> fst) (known_pending (known_names X s w) pe turn))"
    "known_pending (known_names X s w) pe turn \<noteq> []"
proof -
  let ?mine = "known_pending (known_names X s w) pe turn"
  let ?w1 = "snd (ee_tools X (se_id s) w)"
  have some: "?mine \<noteq> []"
    using assms(1,2)
    by (auto simp: tool_execution_run_def known_pending_def known_names_def not_applicable_def Let_def
        case_prod_beta split: if_splits)
  then have pend: "pending_advertised_tool_requests pe turn \<noteq> []"
    by (auto simp: known_pending_def)
  show thesis
  proof (cases "aw_mode ?w1 = ModeChat")
    case True
    then have "Inr (Applied r) = applied [append_effect
        (fst (emit_message (foldl (chat_answer E) (message_user E) ?mine) ?w1))]"
      using assms(1,2) some pend
      by (auto simp: tool_execution_run_def known_pending_def known_names_def Let_def case_prod_beta)
    then have "sr_effects r = [] @ [append_effect
        (fst (emit_message (foldl (chat_answer E) (message_user E) ?mine) ?w1))]"
      by (simp add: applied_def)
    then show thesis
      by (rule that) (use assms(4) some in \<open>simp_all add: chat_answer_responses\<close>)
  next
    case False
    then have "execute_calls E X H M pe s ?mine ?w1 = (Inr (Applied r), w')"
      using assms(1,2) some pend
      by (simp add: tool_execution_run_def known_pending_def known_names_def Let_def case_prod_beta)
    from execute_calls_answer [OF this assms(3,4)] that some show thesis by metis
  qed
qed

text \<open>
  C7: When the tool execution applies, its last effect appends one user message that answers
  each pending, advertised request for a known tool exactly once, whatever the order in which
  the running calls deliver, whichever of them the cancellation cut off, and whatever the
  hooks and the extensions refused; afterwards no such request is pending.
\<close>

theorem tool_execution_answers_each_once:
  assumes "messages_since_kickoff c = Inr turn"
    and "tool_execution_run E X H M pe s c w = (Inr (Applied r), w')" and "delivery_once X"
    and "distinct (map (tq_id \<circ> fst) (known_pending (known_names X s w) pe turn))"
  shows "\<exists>m effs. sr_effects r = effs @ [append_effect m] \<and> distinct (response_ids m) \<and>
    set (response_ids m) = set (map (tq_id \<circ> fst) (known_pending (known_names X s w) pe turn)) \<and>
    \<not> is_kickoff m \<and> known_pending (known_names X s w) pe (turn @ [m]) = []"
proof -
  obtain m effs where eff: "sr_effects r = effs @ [append_effect m]" and resp: "only_responses m"
    and dist: "distinct (response_ids m)"
    and ids: "set (response_ids m) = set (map (tq_id \<circ> fst) (known_pending (known_names X s w) pe turn))"
    and some: "known_pending (known_names X s w) pe turn \<noteq> []"
    using tool_execution_appliedD [OF assms] .
  have "response_ids m \<noteq> []" using ids some by auto
  then have "\<not> is_kickoff m" by (rule only_responses_not_kickoff [OF resp])
  moreover have "known_pending (known_names X s w) pe (turn @ [m]) = []"
    using ids by (auto simp: known_pending_after_answer [OF resp] filter_empty_conv)
  ultimately show ?thesis using eff dist ids by blast
qed

subsection \<open>Witnesses\<close>

definition silent_manager :: hook_manager where
  "silent_manager = \<lparr>hm_rules = (\<lambda>ev. None), hm_use_login_shell_path = False\<rparr>"

definition tool_t :: tool where
  "tool_t = \<lparr>tl_name = ''t'', tl_title = None, tl_description = None, tl_input_schema = [],
     tl_output_schema = None, tl_annotations = None, tl_icons = None, tl_meta = None\<rparr>"

text \<open>An extension with one tool, whose call is cut off by the cancellation.\<close>

definition slow_extension :: "'x exec_env" where
  "slow_extension = \<lparr>ee_tools = (\<lambda>sid w. (Inr [tool_t], w)), ee_moim = (\<lambda>sid w. ([], w)),
     ee_configs = (\<lambda>w. (Inr JNull, w)), ee_start = (\<lambda>s i call w. (Inr (), w)),
     ee_deliver = (\<lambda>rs w. ([], w)), ee_shorten = (\<lambda>r. r)\<rparr>"

lemma slow_extension_once: "delivery_once slow_extension"
  by (simp add: delivery_once_def slow_extension_def)

lemma called_pending_list:
  "pending_tool_requests pe called_conversation = [(stored_request, Execute)]"
  "pending_advertised_tool_requests pe called_conversation = [(stored_request, Execute)]"
  by (simp_all add: pending_advertised_tool_requests_def pending_tool_requests_def
      assistant_requests_def request_disposition_def called_defs)

lemma silent_hooks [simp]: "has_hooks silent_manager ev = False"
  by (simp add: has_hooks_def silent_manager_def)

lemma silent_pre_tool_hooks: "run_pre_tool_hooks H silent_manager s i name inp w = (Inr (), w)"
  by (simp add: run_pre_tool_hooks_def emit_policy_result_def outcome_denial_def outcome_allow_def)

lemma silent_extended_pre_hooks: "emit_extended_pre_hooks H silent_manager name inp s w = w"
  by (auto simp: emit_extended_pre_hooks_def emit_with_matcher_def Let_def
      split: tool_category.split option.split)

lemma slow_dispatch: "dispatch_all slow_extension H silent_manager pe s [(stored_request, Execute)] w =
    (Inr [\<lparr>ru_request = stored_request, ru_call = \<lparr>ct_name = ''t'', ct_arguments = None\<rparr>,
           ru_dispatched = Running\<rparr>], w)"
  by (simp add: dispatch_tool_call_def silent_pre_tool_hooks silent_extended_pre_hooks
      slow_extension_def stored_request_def try_bind_def)

lemma slow_execution:
  "\<exists>r w'. execute_calls E slow_extension H silent_manager pe s [(stored_request, Execute)] w =
     (Inr (Applied r), w')"
proof -
  have configs: "extension_state_effect slow_extension s v = (Inr (SetExtensionData
      (set_extension_state ''enabled_extensions'' ''v0'' JNull (se_extension_data s))), v)" for v
    by (simp add: extension_state_effect_def slow_extension_def try_bind_def)
  have "\<exists>r w'. finish_calls E slow_extension s requests manage dl v = (Inr (Applied r), w')"
    for requests manage dl v
    by (simp add: finish_calls_def extension_changes_def try_bind_def configs applied_def Let_def
        case_prod_beta)
  then show ?thesis
    by (simp add: execute_calls_def try_bind_simps(2) [OF slow_dispatch] Let_def case_prod_beta)
qed

lemma slow_known: "known_names slow_extension s w = {''t''}"
  "known_pending {''t''} pe called_conversation = [(stored_request, Execute)]"
  by (simp_all add: known_names_def slow_extension_def tool_t_def known_pending_def
      called_pending_list known_call_def stored_request_def)

lemma slow_run:
  "\<exists>r w'. tool_execution_run plain_env (slow_extension :: (unit agent_x) exec_env) echo_env
     silent_manager pe idle_session called_conversation store_world = (Inr (Applied r), w')"
proof -
  have tools: "ee_tools slow_extension sid w = (Inr [tool_t], w)" for sid and w :: "unit agent_world_scheme"
    by (simp add: slow_extension_def)
  have mine: "known_call {''t''} stored_request"
    by (simp add: known_call_def stored_request_def)
  have mode: "aw_mode store_world \<noteq> ModeChat" by (simp add: store_world_def)
  show ?thesis
    using slow_execution [of plain_env "echo_env :: (unit agent_x) hook_env" pe idle_session store_world]
    by (simp add: tool_execution_run_def called_turn called_pending_list tools mine mode tool_t_def)
qed

lemma tool_execution_answers_each_once_witness:
  "\<exists>r m effs. (\<exists>w'. tool_execution_run plain_env (slow_extension :: (unit agent_x) exec_env) echo_env
       silent_manager ed_message idle_session called_conversation store_world = (Inr (Applied r), w')) \<and>
     sr_effects r = effs @ [append_effect m] \<and> set (response_ids m) = {''r1''} \<and>
     known_pending {''t''} ed_message (called_conversation @ [m]) = []"
proof -
  obtain r w' where run: "tool_execution_run plain_env (slow_extension :: (unit agent_x) exec_env) echo_env
      silent_manager ed_message idle_session called_conversation store_world = (Inr (Applied r), w')"
    using slow_run by blast
  have "distinct (map (tq_id \<circ> fst) (known_pending (known_names slow_extension idle_session store_world)
      ed_message called_conversation))"
    by (simp add: slow_known)
  from tool_execution_answers_each_once [OF called_turn run slow_extension_once this] show ?thesis
    using run by (auto simp: slow_known stored_request_def)
qed

lemma unknown_tool_answers_witness:
  "\<exists>m. fst (unknown_tool_run plain_env (echo_env :: (unit agent_x) hook_env) silent_manager ed_message
       idle_session called_conversation store_world) = applied [append_effect m] \<and>
     response_ids m = [''r1''] \<and>
     unknown_pending ed_message idle_session (called_conversation @ [m]) = []"
proof -
  have "unknown_pending ed_message idle_session called_conversation = [(stored_request, Execute)]"
    by (simp add: unknown_pending_def called_pending_list reserved_for_recipe_def has_final_output_def
        idle_session_def)
  with unknown_tool_answers [OF called_turn, where E = plain_env and M = silent_manager
      and H = "echo_env :: (unit agent_x) hook_env" and pe = ed_message and s = idle_session
      and w = store_world]
  show ?thesis by (auto simp: stored_request_def)
qed

end
