(* ===== verification/Provider_Adapter.thy ===== *)
theory Provider_Adapter
  imports Tool_Execution Inference "HOL-Library.List_Lexorder" "HOL-Library.Char_ord"
begin

text \<open>
  \<open>agents/state_machine/ops_llm.rs\<close>: the provider the agent's inference talks to.  It tells the
  model which tools exist where an unknown tool was called, recovers tool names the model has
  mangled (\<open>recover_mangled_tool_name\<close> in \<open>agents/extension_manager.rs\<close>), and notes on every
  assistant message which tools were advertised when it was generated.  The provider inside,
  with the tool shim, is a parameter.
\<close>

definition TOOL_EXTENSION_META_KEY :: string where
  "TOOL_EXTENSION_META_KEY = ''aibuddy_extension''"

definition get_tool_owner :: "tool \<Rightarrow> string option" where
  "get_tool_owner t =
     Option.bind (Option.bind (tl_meta t) (\<lambda>m. map_of m TOOL_EXTENSION_META_KEY)) json_as_str"

subsection \<open>Mangled names\<close>

definition strip_functions :: "string \<Rightarrow> string" where
  "strip_functions s =
     unwrap_or (option_or (strip_prefix ''functions.'' s) (strip_prefix ''functions:'' s)) s"

text \<open>Whether an advertised tool, with its owner, is what the model may have meant.\<close>

definition name_matches :: "string \<Rightarrow> string \<times> string option \<Rightarrow> bool" where
  "name_matches stripped tool =
     (let (name, owner) = tool in
      stripped = name \<or>
      (case split_once ''__'' name of
         Some (extension, t) \<Rightarrow> extension @ ''.'' @ t = stripped
       | None \<Rightarrow> False) \<or>
      (case owner of
         Some ow \<Rightarrow> ow @ ''.'' @ name = stripped \<or> ow @ ''__'' @ name = stripped
       | None \<Rightarrow> False))"

fun scan_matches ::
  "string \<Rightarrow> string \<Rightarrow> (string \<times> string option) list \<Rightarrow> string option \<Rightarrow> string option" where
  "scan_matches emitted stripped [] found = found"
| "scan_matches emitted stripped (t # ts) found =
     (if fst t = emitted \<or> \<not> name_matches stripped t then scan_matches emitted stripped ts found
      else
        (case found of
           None \<Rightarrow> scan_matches emitted stripped ts (Some (fst t))
         | Some prev \<Rightarrow>
             if prev = fst t then scan_matches emitted stripped ts found else None))"

definition recover_mangled_tool_name ::
  "string \<Rightarrow> (string \<times> string option) list \<Rightarrow> string option" where
  "recover_mangled_tool_name emitted tools =
     scan_matches emitted (strip_functions (trim emitted)) tools None"

definition canonicalize_block :: "(string \<times> string option) list \<Rightarrow> message_content \<Rightarrow> message_content" where
  "canonicalize_block tools b =
     (case b of
        ToolRequest r \<Rightarrow>
          (case tq_tool_call r of
             Inl _ \<Rightarrow> b
           | Inr call \<Rightarrow>
               (case recover_mangled_tool_name (ct_name call) tools of
                  None \<Rightarrow> b
                | Some name \<Rightarrow> ToolRequest (r\<lparr>tq_tool_call := Inr (call\<lparr>ct_name := name\<rparr>)\<rparr>)))
      | _ \<Rightarrow> b)"

definition canonicalize_tool_request_names ::
  "(string \<times> string option) list \<Rightarrow> message \<Rightarrow> message" where
  "canonicalize_tool_request_names tools m =
     m\<lparr>msg_content := map (canonicalize_block tools) (msg_content m)\<rparr>"

subsection \<open>Unclaimed errors\<close>

definition map_remove :: "'k \<Rightarrow> ('k \<times> 'v) list \<Rightarrow> ('k \<times> 'v) list" where
  "map_remove k m = filter (\<lambda>e. fst e \<noteq> k) m"

definition available_tools_text :: "tool list \<Rightarrow> string" where
  "available_tools_text tools = join '', '' (remdups_adj (sort (map tl_name tools)))"

definition enrich_block :: "string \<Rightarrow> message_content \<Rightarrow> message_content" where
  "enrich_block available b =
     (case b of
        ToolResponse r \<Rightarrow>
          (case tr_metadata r of
             None \<Rightarrow> b
           | Some md \<Rightarrow>
               if map_of md UNCLAIMED_TOOL_ERROR = None then b
               else
                 ToolResponse (r\<lparr>tr_metadata := Some (map_remove UNCLAIMED_TOOL_ERROR md),
                   tr_tool_result :=
                     (case tr_tool_result r of
                        Inl e \<Rightarrow> Inl e
                      | Inr res \<Rightarrow>
                          Inr (res\<lparr>cr_content := cr_content res @
                                [content_text (''Available tools: ['' @ available @ ''].'')]\<rparr>))\<rparr>))
      | _ \<Rightarrow> b)"

definition enrich_unclaimed_tool_errors :: "message list \<Rightarrow> tool list \<Rightarrow> message list" where
  "enrich_unclaimed_tool_errors ms tools =
     map (\<lambda>m. m\<lparr>msg_content := map (enrich_block (available_tools_text tools)) (msg_content m)\<rparr>) ms"

subsection \<open>The stream\<close>

definition advertised_descriptors :: "tool list \<Rightarrow> (string \<times> string option) list" where
  "advertised_descriptors tools = map (\<lambda>t. (tl_name t, get_tool_owner t)) tools"

definition advertised_tools_note :: "tool list \<Rightarrow> json" where
  "advertised_tools_note tools = JArr (map JStr (remdups_adj (sort (map tl_name tools))))"

definition annotate_chunk :: "tool list \<Rightarrow> message \<Rightarrow> message" where
  "annotate_chunk tools m =
     (let m' = canonicalize_tool_request_names (advertised_descriptors tools) m
      in if msg_role m' = Assistant
         then set_message_meta LLM_OPERATION_NAME ADVERTISED_TOOLS_NOTE (advertised_tools_note tools) m'
         else m')"

definition annotate_item :: "tool list \<Rightarrow> stream_item \<Rightarrow> stream_item" where
  "annotate_item tools item =
     map_sum (\<lambda>e. e) (\<lambda>(m, u). (map_option (annotate_chunk tools) m, u)) item"

text \<open>
  \<open>prepare_tools_for_provider\<close>: with the tool shim the tools go into the system prompt (the
  parameter \<open>shim_prompt\<close>) and are interpreted from the answer; in both cases the tools
  offered and shimmed are together those given.
\<close>

definition prepare_tools_for_provider ::
  "bool \<Rightarrow> (string \<Rightarrow> tool list \<Rightarrow> string) \<Rightarrow> tool list \<Rightarrow> string \<Rightarrow> tool list \<times> tool list \<times> string" where
  "prepare_tools_for_provider toolshim shim_prompt tools system =
     (if toolshim then ([], tools, shim_prompt system tools) else (tools, [], system))"

definition adapter_stream ::
  "bool \<Rightarrow> (string \<Rightarrow> tool list \<Rightarrow> string) \<Rightarrow>
   (string \<Rightarrow> message list \<Rightarrow> tool list \<Rightarrow> tool list \<Rightarrow> (provider_error + stream_item list, 'x) act) \<Rightarrow>
   string \<Rightarrow> message list \<Rightarrow> tool list \<Rightarrow> (provider_error + stream_item list, 'x) act" where
  "adapter_stream toolshim shim_prompt inner system ms tools w =
     (let (offered, shimmed, prompt) = prepare_tools_for_provider toolshim shim_prompt tools system;
          (r, w1) = inner prompt (enrich_unclaimed_tool_errors ms tools) offered shimmed w
      in (map_sum (\<lambda>e. e) (map (annotate_item (offered @ shimmed))) r, w1))"

definition inference_provider ::
  "bool \<Rightarrow> (string \<Rightarrow> tool list \<Rightarrow> string) \<Rightarrow>
   (string \<Rightarrow> message list \<Rightarrow> tool list \<Rightarrow> tool list \<Rightarrow> (provider_error + stream_item list, 'x) act) \<Rightarrow>
   'x provider \<Rightarrow> 'x provider" where
  "inference_provider toolshim shim_prompt inner P =
     P\<lparr>pv_stream := adapter_stream toolshim shim_prompt inner\<rparr>"

end
