(* ===== verification/Json_Repair.thy ===== *)
theory Json_Repair
  imports Messages
begin

text \<open>
  \<open>crates/aibuddy-provider-types/src/json.rs\<close>: how the text of a tool call's arguments, or of a
  summary, is read although a model may have cut it off, wrapped it, encoded it twice or left
  control characters in it.  The parser of \<open>serde_json\<close> and the text of a value are parameters.
  The scanners look at single characters; since no byte of a longer character is one of the
  ASCII characters they look for, they are written over bytes.
\<close>

record json_env =
  je_parse :: "string \<Rightarrow> json option"
  je_text :: "json \<Rightarrow> string"
  je_pretty :: "json \<Rightarrow> string"

subsection \<open>Scanning\<close>

record json_scan =
  js_in_string :: bool
  js_escape :: bool
  js_closers :: string

definition scan_start :: json_scan where
  "scan_start = \<lparr>js_in_string = False, js_escape = False, js_closers = []\<rparr>"

definition BACKSLASH :: char where "BACKSLASH = byte 92"
definition QUOTE :: char where "QUOTE = byte 34"

text \<open>One character; the closers still expected, the innermost first.\<close>

definition scan_step :: "json_scan \<Rightarrow> char \<Rightarrow> json_scan" where
  "scan_step st c =
     (if js_in_string st then
        (if js_escape st then st\<lparr>js_escape := False\<rparr>
         else if c = BACKSLASH then st\<lparr>js_escape := True\<rparr>
         else if c = QUOTE then st\<lparr>js_in_string := False\<rparr>
         else st)
      else if c = QUOTE then st\<lparr>js_in_string := True\<rparr>
      else if c = CHR ''{'' then st\<lparr>js_closers := CHR ''}'' # js_closers st\<rparr>
      else if c = CHR ''['' then st\<lparr>js_closers := CHR '']'' # js_closers st\<rparr>
      else if c \<in> {CHR ''}'', CHR '']''} \<and> first_opt (js_closers st) = Some c
      then st\<lparr>js_closers := tl (js_closers st)\<rparr>
      else st)"

definition scan_text :: "string \<Rightarrow> json_scan" where
  "scan_text s = foldl scan_step scan_start s"

definition repair_truncated_json :: "string \<Rightarrow> string" where
  "repair_truncated_json s =
     (let st = scan_text s in
      s @ (if js_in_string st then (if js_escape st then [BACKSLASH] else []) @ [QUOTE] else []) @
      js_closers st)"

text \<open>A closer that does not match the innermost opener also counts as truncation.\<close>

definition mismatched :: "json_scan \<Rightarrow> char \<Rightarrow> bool" where
  "mismatched st c \<longleftrightarrow>
     \<not> js_in_string st \<and> c \<in> {CHR ''}'', CHR '']''} \<and> first_opt (js_closers st) \<noteq> Some c"

fun truncated_from :: "json_scan \<Rightarrow> string \<Rightarrow> bool" where
  "truncated_from st [] \<longleftrightarrow> js_in_string st \<or> js_escape st \<or> js_closers st \<noteq> []"
| "truncated_from st (c # s) \<longleftrightarrow> mismatched st c \<or> truncated_from (scan_step st c) s"

definition looks_truncated :: "string \<Rightarrow> bool" where
  "looks_truncated args \<longleftrightarrow>
     (let trimmed = trim_end args in trimmed \<noteq> [] \<and> truncated_from scan_start trimmed)"

subsection \<open>Control characters\<close>

definition hex_digit :: "nat \<Rightarrow> char" where
  "hex_digit n = (if n < 10 then char_of (48 + n) else char_of (87 + n))"

definition escape_control :: "char \<Rightarrow> string" where
  "escape_control c =
     (let n = (of_char c :: nat) in
      if n \<ge> 32 then [c]
      else if n = 8 then [BACKSLASH, CHR ''b'']
      else if n = 12 then [BACKSLASH, CHR ''f'']
      else if n = 10 then [BACKSLASH, CHR ''n'']
      else if n = 13 then [BACKSLASH, CHR ''r'']
      else if n = 9 then [BACKSLASH, CHR ''t'']
      else [BACKSLASH, CHR ''u'', CHR ''0'', CHR ''0'', hex_digit (n div 16), hex_digit (n mod 16)])"

definition json_escape_control_chars_in_string :: "string \<Rightarrow> string" where
  "json_escape_control_chars_in_string s = concat (map escape_control s)"

definition safely_parse_json :: "json_env \<Rightarrow> string \<Rightarrow> json option" where
  "safely_parse_json J s =
     (case je_parse J s of
        Some v \<Rightarrow> Some v
      | None \<Rightarrow>
          (case find_map (je_parse J)
                  [repair_truncated_json s, json_escape_control_chars_in_string s] of
             Some v \<Rightarrow> Some v
           | None \<Rightarrow>
               je_parse J (repair_truncated_json (json_escape_control_chars_in_string s))))"

subsection \<open>Errors\<close>

text \<open>\<open>str::chars\<close>: a leading byte with its continuation bytes.\<close>

function utf8_chars :: "string \<Rightarrow> string list" where
  "utf8_chars [] = []"
| "utf8_chars (c # s) = (c # takeWhile is_cont s) # utf8_chars (dropWhile is_cont s)"
  by pat_completeness auto
termination
  by (relation "measure length") (auto simp: le_imp_less_Suc length_dropWhile_le)

definition truncation_snippet :: "string \<Rightarrow> string" where
  "truncation_snippet trimmed =
     (let cs = utf8_chars trimmed in
      if 80 < length cs
      then [byte 0xE2, byte 0x80, byte 0xA6] @ concat (rev (take 80 (rev cs)))
      else trimmed)"

definition truncation_error_message :: "json_env \<Rightarrow> string \<Rightarrow> string option" where
  "truncation_error_message J args =
     (if args = [] then None
      else if je_parse J args \<noteq> None then None
      else
        (let trimmed = trim_end args;
             guidance =
               (if looks_truncated trimmed
                then ''The model's response was truncated '' @ [byte 0xE2, byte 0x80, byte 0x94] @
                     '' it hit the output token limit while generating this tool call. Try increasing max_tokens for this provider or breaking the task into smaller steps.''
                else ''The model produced malformed tool arguments. Try resending your message or breaking the task into smaller steps.'')
         in Some (guidance @ newline @ ''Received '' @ show_nat (length (utf8_chars trimmed)) @
              '' characters; cut off at: '' @ truncation_snippet trimmed)))"

subsection \<open>Wrappers\<close>

definition strip_suffix :: "string \<Rightarrow> string \<Rightarrow> string option" where
  "strip_suffix p s = map_option rev (strip_prefix (rev p) (rev s))"

definition is_ascii_alphanumeric :: "char \<Rightarrow> bool" where
  "is_ascii_alphanumeric c \<longleftrightarrow>
     (let n = (of_char c :: nat) in 48 \<le> n \<and> n \<le> 57 \<or> 65 \<le> n \<and> n \<le> 90 \<or> 97 \<le> n \<and> n \<le> 122)"

text \<open>\<open>split_whitespace().next()\<close>: the first word, if there is one.\<close>

function word_before :: "string \<Rightarrow> string" where
  "word_before s =
     (if s = [] \<or> strip_any whitespace s \<noteq> None then [] else hd s # word_before (tl s))"
  by pat_completeness auto
termination
  by (relation "measure length") auto

declare word_before.simps [simp del]

lemma word_before_code [code]:
  "word_before [] = []"
  "word_before (c # s) = (if strip_any whitespace (c # s) \<noteq> None then [] else c # word_before s)"
  by (simp_all add: word_before.simps [of "[]"] word_before.simps [of "c # s"])

definition first_word :: "string \<Rightarrow> string option" where
  "first_word s = (let t = trim_start s in if t = [] then None else Some (word_before t))"

definition strip_fence :: "string \<Rightarrow> string option" where
  "strip_fence rest =
     map_option (\<lambda>inner.
       let body = trim_start inner in
       trim (unwrap_or (option_or (strip_prefix ''json'' body) (strip_prefix ''JSON'' body)) body))
       (strip_suffix ''```'' rest)"

definition strip_tag :: "string \<Rightarrow> string option" where
  "strip_tag trimmed =
     Option.bind (split_once ''>'' (tl trimmed)) (\<lambda>(opening, rest).
       Option.bind (first_word opening) (\<lambda>tag.
         if tag = [] \<or> \<not> list_all (\<lambda>c. is_ascii_alphanumeric c \<or> c = CHR ''_'' \<or> c = CHR ''-'') tag
         then None
         else map_option trim (strip_suffix (''</'' @ tag @ ''>'') (trim_end rest))))"

definition strip_json_wrapper :: "string \<Rightarrow> string option" where
  "strip_json_wrapper args =
     (let trimmed = trim args in
      case strip_prefix ''```'' trimmed of
        Some rest \<Rightarrow> strip_fence rest
      | None \<Rightarrow>
          if starts_with trimmed ''<'' \<and> \<not> starts_with trimmed ''</'' then strip_tag trimmed
          else None)"

subsection \<open>Arguments\<close>

fun unwrap_encoded :: "json_env \<Rightarrow> nat \<Rightarrow> string \<Rightarrow> json option" where
  "unwrap_encoded J 0 current = None"
| "unwrap_encoded J (Suc n) current =
     (case je_parse J current of
        Some (JObj m) \<Rightarrow> Some (JObj m)
      | Some (JStr inner) \<Rightarrow> unwrap_encoded J n (trim inner)
      | _ \<Rightarrow> None)"

definition unwrap_double_encoded_object :: "json_env \<Rightarrow> json \<Rightarrow> json" where
  "unwrap_double_encoded_object J v =
     (case json_as_str v of
        None \<Rightarrow> v
      | Some s \<Rightarrow> unwrap_or (unwrap_encoded J 3 (trim s)) v)"

definition parse_complete :: "json_env \<Rightarrow> string \<Rightarrow> json option" where
  "parse_complete J s = (if looks_truncated s then None else safely_parse_json J s)"

definition parse_tool_arguments :: "json_env \<Rightarrow> string \<Rightarrow> json option" where
  "parse_tool_arguments J args =
     (if args = [] then Some (JObj [])
      else map_option (unwrap_double_encoded_object J)
        (case je_parse J args of
           Some v \<Rightarrow> Some v
         | None \<Rightarrow>
             option_or
               (Option.bind (strip_json_wrapper args)
                 (\<lambda>inner. option_or (je_parse J inner) (parse_complete J inner)))
               (parse_complete J args)))"

subsection \<open>Truncation\<close>

lemma special_chars [simp]:
  "BACKSLASH \<noteq> QUOTE" "BACKSLASH \<noteq> CHR ''{''" "BACKSLASH \<noteq> CHR ''[''" "BACKSLASH \<noteq> CHR ''}''"
  "BACKSLASH \<noteq> CHR '']''" "QUOTE \<noteq> BACKSLASH" "QUOTE \<noteq> CHR ''}''" "QUOTE \<noteq> CHR '']''"
  "CHR ''}'' \<noteq> QUOTE" "CHR '']'' \<noteq> QUOTE"
  by (simp_all add: BACKSLASH_def QUOTE_def byte_def char_of_def)

lemma visible_special:
  "visible_ascii QUOTE" "visible_ascii BACKSLASH" "visible_ascii CHR ''{''"
  "visible_ascii CHR ''['' " "visible_ascii CHR ''}''" "visible_ascii CHR '']''"
  by (simp_all add: visible_ascii_def QUOTE_def BACKSLASH_def byte_def)

text \<open>A character that is not visible ASCII means nothing outside a string.\<close>

lemma scan_step_invisible:
  "\<not> visible_ascii c \<Longrightarrow> \<not> js_in_string st \<Longrightarrow> scan_step st c = st"
  using visible_special by (auto simp: scan_step_def)

lemma scan_invisible:
  "list_all (\<lambda>c. \<not> visible_ascii c) w \<Longrightarrow> \<not> js_in_string st \<Longrightarrow> foldl scan_step st w = st"
  by (induction w) (auto simp: scan_step_invisible)

lemma truncated_from_final:
  "\<not> truncated_from st s \<Longrightarrow>
   \<not> js_in_string (foldl scan_step st s) \<and> js_closers (foldl scan_step st s) = []"
  by (induction st s rule: truncated_from.induct) auto

lemma scan_complete:
  assumes "\<not> looks_truncated s"
  shows "\<not> js_in_string (scan_text s) \<and> js_closers (scan_text s) = []"
proof -
  obtain w where w: "s = trim_end s @ w" "list_all (\<lambda>c. \<not> visible_ascii c) w"
    using trim_end_split by blast
  have fin: "\<not> js_in_string (scan_text (trim_end s)) \<and> js_closers (scan_text (trim_end s)) = []"
  proof (cases "trim_end s = []")
    case True
    then show ?thesis by (simp add: scan_text_def scan_start_def)
  next
    case False
    with assms have "\<not> truncated_from scan_start (trim_end s)"
      by (simp add: looks_truncated_def Let_def)
    from truncated_from_final [OF this] show ?thesis by (simp add: scan_text_def)
  qed
  have "scan_text s = foldl scan_step (scan_text (trim_end s)) w"
    by (subst w(1)) (simp add: scan_text_def)
  also have "\<dots> = scan_text (trim_end s)" using fin w(2) by (simp add: scan_invisible)
  finally show ?thesis using fin by simp
qed

lemma repair_complete: "\<not> looks_truncated s \<Longrightarrow> repair_truncated_json s = s"
  using scan_complete by (simp add: repair_truncated_json_def Let_def)

text \<open>The escapes of control characters leave the scanner where it was.\<close>

definition plain_char :: "char \<Rightarrow> bool" where
  "plain_char c \<longleftrightarrow>
     c \<notin> {QUOTE, BACKSLASH, CHR ''{'', CHR ''['', CHR ''}'', CHR '']''}"

definition control :: "char \<Rightarrow> bool" where
  "control c \<longleftrightarrow> (of_char c :: nat) < 32"

lemma hex_digits: "list_all (\<lambda>n. plain_char (hex_digit n) \<and> \<not> control (hex_digit n)) [0..<16]"
  by code_simp

lemma hex_digit_plain: "n < 16 \<Longrightarrow> plain_char (hex_digit n) \<and> \<not> control (hex_digit n)"
  using hex_digits by (simp add: list_all_iff)

lemma control_plain: "control c \<Longrightarrow> plain_char c"
  by (auto simp: control_def plain_char_def QUOTE_def BACKSLASH_def byte_def)

lemma scan_step_plain: "plain_char c \<Longrightarrow> scan_step st c = st\<lparr>js_escape := js_escape st \<and> \<not> js_in_string st\<rparr>"
  by (auto simp: scan_step_def plain_char_def)

lemma scan_plain:
  "list_all plain_char s \<Longrightarrow> \<not> js_escape st \<Longrightarrow> foldl scan_step st s = st"
proof (induction s)
  case (Cons c s)
  then have "scan_step st c = st" by (cases st) (simp add: scan_step_plain)
  with Cons show ?case by simp
qed simp

lemma escape_letters: "list_all (\<lambda>c. plain_char c \<and> \<not> control c) ''bfnrtu0''"
  by code_simp

lemma escape_control_shape:
  assumes "control c"
  obtains x s where "escape_control c = BACKSLASH # x # s" "list_all plain_char (x # s)"
    "list_all (\<lambda>c. \<not> control c) (escape_control c)"
proof -
  have n: "(of_char c :: nat) < 32" using assms by (simp add: control_def)
  have "\<not> control BACKSLASH" by (simp add: control_def BACKSLASH_def byte_def)
  note letters = escape_letters [simplified] this
  have hex: "plain_char (hex_digit (of_char c div 16))" "plain_char (hex_digit (of_char c mod 16))"
    "\<not> control (hex_digit (of_char c div 16))" "\<not> control (hex_digit (of_char c mod 16))"
    using n by (simp_all add: hex_digit_plain)
  show thesis
    by (rule that [of "hd (tl (escape_control c))" "tl (tl (escape_control c))"])
      (use n letters hex in \<open>simp_all add: escape_control_def Let_def\<close>)
qed

lemma scan_escape_control:
  assumes "js_escape st \<longrightarrow> js_in_string st"
  shows "foldl scan_step st (escape_control c) = scan_step st c"
proof (cases "control c")
  case False
  then show ?thesis by (simp add: escape_control_def control_def)
next
  case True
  obtain x s where e: "escape_control c = BACKSLASH # x # s" "list_all plain_char (x # s)"
    using escape_control_shape [OF True] by metis
  have c: "scan_step st c = st\<lparr>js_escape := False\<rparr>"
    using scan_step_plain [OF control_plain [OF True]] assms by auto
  have "scan_step (scan_step st BACKSLASH) x = st\<lparr>js_escape := False\<rparr>"
    using e(2) assms by (cases "js_in_string st"; cases "js_escape st")
      (auto simp: scan_step_plain, auto simp: scan_step_def)
  then show ?thesis using e scan_plain [of s "st\<lparr>js_escape := False\<rparr>"] c by simp
qed

lemma scan_step_escape:
  "js_escape st \<longrightarrow> js_in_string st \<Longrightarrow> js_escape (scan_step st c) \<longrightarrow> js_in_string (scan_step st c)"
  by (auto simp: scan_step_def)

lemma scan_escaped:
  "js_escape st \<longrightarrow> js_in_string st \<Longrightarrow>
   foldl scan_step st (json_escape_control_chars_in_string s) = foldl scan_step st s"
proof (induction s arbitrary: st)
  case (Cons c s)
  from Cons.IH [OF scan_step_escape [OF Cons.prems]] scan_escape_control [OF Cons.prems]
  show ?case by (simp add: json_escape_control_chars_in_string_def)
qed (simp add: json_escape_control_chars_in_string_def)

lemma scan_text_escaped: "scan_text (json_escape_control_chars_in_string s) = scan_text s"
  by (simp add: scan_text_def scan_escaped scan_start_def)

lemma escaped_no_control: "list_all (\<lambda>c. \<not> control c) (json_escape_control_chars_in_string s)"
proof (induction s)
  case (Cons c s)
  have "list_all (\<lambda>c. \<not> control c) (escape_control c)"
    by (cases "control c") (blast elim: escape_control_shape, simp add: escape_control_def control_def)
  with Cons show ?case by (simp add: json_escape_control_chars_in_string_def)
qed (simp add: json_escape_control_chars_in_string_def)

lemma safely_parse_complete:
  assumes "\<not> looks_truncated s"
  shows "safely_parse_json J s =
    option_or (je_parse J s) (je_parse J (json_escape_control_chars_in_string s))"
proof -
  have "repair_truncated_json s = s" by (rule repair_complete [OF assms])
  moreover have "repair_truncated_json (json_escape_control_chars_in_string s) =
      json_escape_control_chars_in_string s"
    using scan_complete [OF assms] by (simp add: repair_truncated_json_def scan_text_escaped Let_def)
  ultimately show ?thesis
    by (cases "je_parse J s") (auto simp: safely_parse_json_def split: option.split)
qed

text \<open>
  C19: The arguments of a tool call are never completed: what is returned was parsed from the
  text of the call or from inside its wrapper, either as it stands, or, where that text is not
  cut off, with nothing changed but its control characters escaped.
\<close>

theorem parse_tool_arguments_uncompleted:
  assumes "parse_tool_arguments J args = Some v" and "args \<noteq> []"
  shows "\<exists>t \<in> insert args (set_option (strip_json_wrapper args)). \<exists>j.
    v = unwrap_double_encoded_object J j \<and>
    (je_parse J t = Some j \<or>
     \<not> looks_truncated t \<and> je_parse J (json_escape_control_chars_in_string t) = Some j)"
proof -
  have complete: "je_parse J t = Some j \<or>
      \<not> looks_truncated t \<and> je_parse J (json_escape_control_chars_in_string t) = Some j"
    if "parse_complete J t = Some j" for t j
    using that safely_parse_complete [of t J]
    by (cases "je_parse J t") (auto simp: parse_complete_def split: if_splits)
  have here: "\<exists>t \<in> insert args (set_option (strip_json_wrapper args)). \<exists>j.
      v = unwrap_double_encoded_object J j \<and>
      (je_parse J t = Some j \<or>
       \<not> looks_truncated t \<and> je_parse J (json_escape_control_chars_in_string t) = Some j)"
    if "t \<in> insert args (set_option (strip_json_wrapper args))"
      and "je_parse J t = Some j \<or> parse_complete J t = Some j"
      and "v = unwrap_double_encoded_object J j" for t j
    using that complete by blast
  show ?thesis
  proof (cases "je_parse J args")
    case (Some j)
    then show ?thesis using assms here [of args j] by (simp add: parse_tool_arguments_def)
  next
    case None
    show ?thesis
    proof (cases "Option.bind (strip_json_wrapper args)
        (\<lambda>inner. option_or (je_parse J inner) (parse_complete J inner))")
      case None
      with \<open>je_parse J args = None\<close> assms obtain j
        where "parse_complete J args = Some j" "v = unwrap_double_encoded_object J j"
        by (auto simp: parse_tool_arguments_def)
      with here [of args j] show ?thesis by blast
    next
      case (Some j)
      then obtain inner where inner: "strip_json_wrapper args = Some inner"
        and j: "option_or (je_parse J inner) (parse_complete J inner) = Some j"
        by (auto simp: bind_eq_Some_conv)
      have v: "v = unwrap_double_encoded_object J j"
        using \<open>je_parse J args = None\<close> assms Some by (simp add: parse_tool_arguments_def)
      have "je_parse J inner = Some j \<or> parse_complete J inner = Some j"
        using j by (cases "je_parse J inner") auto
      then show ?thesis using here [of inner j] inner v by simp
    qed
  qed
qed

text \<open>
  A parser of two texts: an empty object, and a string that holds its text once more, inside a
  fence.
\<close>

definition tiny_json :: json_env where
  "tiny_json = \<lparr>je_parse = (\<lambda>s. if s = ''{}'' then Some (JObj [])
       else if s = ''```'' then Some (JStr ''{}'') else None),
     je_text = (\<lambda>v. []), je_pretty = (\<lambda>v. [])\<rparr>"

lemma trim_end_visible: "s = [] \<or> visible_ascii (last s) \<Longrightarrow> trim_end s = s"
  using whitespace_not_visible unfolding trim_end_def
  by (subst trim_with_visible) (auto simp: list_all_iff hd_rev)

lemma first_word_plain: "first_word ''x'' = Some ''x''" by code_simp

lemma tagged_json_stripped: "strip_json_wrapper ''<x>{}</x>'' = Some ''{}''"
proof -
  have "trim ''<x>{}</x>'' = ''<x>{}</x>''" "trim ''{}'' = ''{}''"
    by (simp_all add: trim_visible visible_ascii_def)
  moreover have "trim_end ''{}</x>'' = ''{}</x>''" by (simp add: trim_end_visible visible_ascii_def)
  moreover note first_word_plain
  moreover have "split_once ''>'' ''x>{}</x>'' = Some (''x'', ''{}</x>'')" by code_simp
  moreover have "strip_suffix ''</x>'' ''{}</x>'' = Some ''{}''" by code_simp
  moreover have "is_ascii_alphanumeric CHR ''x''" by code_simp
  moreover have "strip_prefix ''```'' ''<x>{}</x>'' = None" by simp
  moreover have "starts_with ''<x>{}</x>'' ''<''" "\<not> starts_with ''<x>{}</x>'' ''</''"
    by (simp_all add: starts_with_def)
  ultimately show ?thesis by (simp add: strip_json_wrapper_def strip_tag_def Let_def)
qed

theorem parse_tool_arguments_uncompleted_witness:
  "\<exists>t \<in> insert ''<x>{}</x>'' (set_option (strip_json_wrapper ''<x>{}</x>'')). \<exists>j.
    JObj [] = unwrap_double_encoded_object tiny_json j \<and>
    (je_parse tiny_json t = Some j \<or>
     \<not> looks_truncated t \<and> je_parse tiny_json (json_escape_control_chars_in_string t) = Some j)"
  by (rule parse_tool_arguments_uncompleted)
    (simp_all add: parse_tool_arguments_def tagged_json_stripped tiny_json_def
      unwrap_double_encoded_object_def)

subsection \<open>Repair\<close>

fun mismatch_free :: "json_scan \<Rightarrow> string \<Rightarrow> bool" where
  "mismatch_free st [] \<longleftrightarrow> True"
| "mismatch_free st (c # s) \<longleftrightarrow> \<not> mismatched st c \<and> mismatch_free (scan_step st c) s"

lemma mismatch_free_append:
  "mismatch_free st (s @ t) \<longleftrightarrow> mismatch_free st s \<and> mismatch_free (foldl scan_step st s) t"
  by (induction s arbitrary: st) auto

lemma truncated_from_iff:
  "js_escape st \<longrightarrow> js_in_string st \<Longrightarrow>
   truncated_from st s \<longleftrightarrow> \<not> mismatch_free st s \<or> js_in_string (foldl scan_step st s) \<or>
     js_closers (foldl scan_step st s) \<noteq> []"
  by (induction st s rule: truncated_from.induct) (auto simp: scan_step_escape)

lemma scan_invisible_string:
  "list_all (\<lambda>c. \<not> visible_ascii c) w \<Longrightarrow>
   js_in_string (foldl scan_step st w) = js_in_string st \<and>
   js_closers (foldl scan_step st w) = js_closers st"
proof (induction w arbitrary: st)
  case (Cons c w)
  have "js_in_string (scan_step st c) = js_in_string st \<and> js_closers (scan_step st c) = js_closers st"
    using Cons.prems visible_special by (auto simp: scan_step_def)
  with Cons show ?case by simp
qed simp

lemma mismatch_free_invisible: "list_all (\<lambda>c. \<not> visible_ascii c) w \<Longrightarrow> mismatch_free st w"
  using visible_special by (induction w arbitrary: st) (auto simp: mismatched_def)

lemma looks_truncated_iff:
  "looks_truncated s \<longleftrightarrow>
   \<not> mismatch_free scan_start s \<or> js_in_string (scan_text s) \<or> js_closers (scan_text s) \<noteq> []"
proof -
  obtain w where w: "s = trim_end s @ w" "list_all (\<lambda>c. \<not> visible_ascii c) w"
    using trim_end_split by blast
  have "scan_text s = foldl scan_step (scan_text (trim_end s)) w"
    by (subst w(1)) (simp add: scan_text_def)
  then have same: "js_in_string (scan_text s) = js_in_string (scan_text (trim_end s))"
    "js_closers (scan_text s) = js_closers (scan_text (trim_end s))"
    using w(2) by (simp_all add: scan_invisible_string)
  have "mismatch_free scan_start s = mismatch_free scan_start (trim_end s)"
    by (subst w(1)) (simp add: mismatch_free_append mismatch_free_invisible [OF w(2)])
  with same show ?thesis
    by (cases "trim_end s = []")
      (simp_all add: looks_truncated_def truncated_from_iff scan_start_def scan_text_def Let_def)
qed

lemma close_all:
  "\<not> js_in_string st \<Longrightarrow> set (js_closers st) \<subseteq> {CHR ''}'', CHR '']''} \<Longrightarrow>
   mismatch_free st (js_closers st) \<and> \<not> js_in_string (foldl scan_step st (js_closers st)) \<and>
   js_closers (foldl scan_step st (js_closers st)) = []"
proof (induction "js_closers st" arbitrary: st)
  case (Cons c cs)
  have "c \<in> set (js_closers st)" using Cons.hyps(2) by (metis list.set_intros(1))
  then have c: "c \<in> {CHR ''}'', CHR '']''}" using Cons.prems(2) by blast
  have step: "scan_step st c = st\<lparr>js_closers := cs\<rparr>"
    using c Cons.prems(1) by (auto simp: scan_step_def simp flip: Cons.hyps(2))
  have "\<not> mismatched st c" by (simp add: mismatched_def flip: Cons.hyps(2))
  with Cons.hyps(1) [of "st\<lparr>js_closers := cs\<rparr>"] Cons.prems Cons.hyps(2) [symmetric] step
  show ?case by simp
qed simp

lemma scan_closers:
  "set (js_closers st) \<subseteq> {CHR ''}'', CHR '']''} \<Longrightarrow>
   set (js_closers (foldl scan_step st s)) \<subseteq> {CHR ''}'', CHR '']''}"
proof (induction s arbitrary: st)
  case (Cons c s)
  have "set (js_closers (scan_step st c)) \<subseteq> {CHR ''}'', CHR '']''}"
    using Cons.prems by (auto simp: scan_step_def dest: list.set_sel(2) [rotated])
  from Cons.IH [OF this] show ?case by simp
qed simp

text \<open>
  Repair only appends, leaves a text that is already complete alone, and the repaired text
  is complete exactly when no closer of the text is out of place.
\<close>

theorem repair_truncated_json_completes:
  "prefix s (repair_truncated_json s) \<and>
   (looks_truncated s \<or> repair_truncated_json s = s) \<and>
   (looks_truncated (repair_truncated_json s) \<longleftrightarrow> \<not> mismatch_free scan_start s)"
proof (intro conjI)
  show "prefix s (repair_truncated_json s)" by (simp add: repair_truncated_json_def Let_def)
  show "looks_truncated s \<or> repair_truncated_json s = s" using repair_complete by blast
  let ?st = "scan_text s"
  define quote where "quote = (if js_in_string ?st then (if js_escape ?st then [BACKSLASH] else []) @ [QUOTE] else [])"
  let ?st' = "foldl scan_step ?st quote"
  have st': "\<not> js_in_string ?st'" "js_closers ?st' = js_closers ?st" "mismatch_free ?st quote"
    by (auto simp: quote_def scan_step_def mismatched_def)
  have r: "repair_truncated_json s = s @ quote @ js_closers ?st"
    by (simp add: repair_truncated_json_def quote_def Let_def)
  have "set (js_closers ?st) \<subseteq> {CHR ''}'', CHR '']''}"
    using scan_closers [of scan_start s] by (simp add: scan_text_def scan_start_def)
  with close_all [of ?st'] st' have fin: "mismatch_free ?st' (js_closers ?st)"
    "\<not> js_in_string (scan_text (s @ quote @ js_closers ?st))"
    "js_closers (scan_text (s @ quote @ js_closers ?st)) = []"
    by (simp_all add: scan_text_def)
  have "mismatch_free scan_start (s @ quote @ js_closers ?st) = mismatch_free scan_start s"
    using st' fin by (simp add: mismatch_free_append scan_text_def)
  with fin show "looks_truncated (repair_truncated_json s) \<longleftrightarrow> \<not> mismatch_free scan_start s"
    by (simp add: r looks_truncated_iff)
qed

end
