(* ===== verification/Summary.thy ===== *)
theory Summary
  imports Json_Repair Message_Ops
begin

text \<open>
  \<open>crates/aibuddy-context-management/src/structured.rs\<close>, \<open>format.rs\<close> and the fence of
  \<open>templates.rs\<close>: the structured summary a model is asked for, how its JSON is found in the
  answer and read leniently, how a message is written into the request for a summary.
\<close>

subsection \<open>The structured summary\<close>

record file_activity =
  fa_path :: string
  fa_summary :: string
  fa_key_code :: "string option"

record structured_summary =
  ss_user_intent :: "string list"
  ss_technical_concepts :: "string list"
  ss_files :: "file_activity list"
  ss_errors_and_fixes :: "string list"
  ss_problem_solving :: "string list"
  ss_user_messages :: "string list"
  ss_pending_tasks :: "string list"
  ss_current_work :: "string option"
  ss_next_step :: "string option"
  ss_extra :: json_object

function stringify_lenient :: "json_env \<Rightarrow> json \<Rightarrow> string" where
  "stringify_lenient J (JStr s) = s"
| "stringify_lenient J JNull = []"
| "stringify_lenient J (JObj m) =
     join ''; '' (map (\<lambda>(k, v). k @ '': '' @ stringify_lenient J v) m)"
| "stringify_lenient J (JArr vs) = join ''; '' (map (stringify_lenient J) vs)"
| "stringify_lenient J (JBool b) = je_text J (JBool b)"
| "stringify_lenient J (JInt i) = je_text J (JInt i)"
| "stringify_lenient J (JFloat x) = je_text J (JFloat x)"
  by pat_completeness auto
termination
  by (relation "measure (\<lambda>(J, v). size v)")
    (auto simp: less_Suc_eq_le size_list_estimation')

definition lenient_string_list :: "json_env \<Rightarrow> json \<Rightarrow> string list" where
  "lenient_string_list J v =
     (case v of
        JArr items \<Rightarrow> map (stringify_lenient J) items
      | JNull \<Rightarrow> []
      | other \<Rightarrow> [stringify_lenient J other])"

definition lenient_string_opt :: "json_env \<Rightarrow> json \<Rightarrow> string option" where
  "lenient_string_opt J v = (case v of JNull \<Rightarrow> None | other \<Rightarrow> Some (stringify_lenient J other))"

text \<open>A field of an object: \<open>#[serde(default, deserialize_with = ..)]\<close>.\<close>

definition field_or :: "json_object \<Rightarrow> string \<Rightarrow> 'a \<Rightarrow> (json \<Rightarrow> 'a) \<Rightarrow> 'a" where
  "field_or m k d f = (case map_of m k of None \<Rightarrow> d | Some v \<Rightarrow> f v)"

definition file_from_object :: "json_env \<Rightarrow> json_object \<Rightarrow> file_activity" where
  "file_from_object J m =
     \<lparr>fa_path = field_or m ''path'' [] (stringify_lenient J),
      fa_summary = field_or m ''summary'' [] (stringify_lenient J),
      fa_key_code = field_or m ''key_code'' None (lenient_string_opt J)\<rparr>"

definition blank :: "string \<Rightarrow> bool" where
  "blank s \<longleftrightarrow> trim s = []"

definition file_item :: "json_env \<Rightarrow> json \<Rightarrow> file_activity option" where
  "file_item J item =
     (case item of
        JObj m \<Rightarrow> Some (file_from_object J m)
      | other \<Rightarrow>
          (let path = stringify_lenient J other
           in if blank path then None
              else Some \<lparr>fa_path = path, fa_summary = [], fa_key_code = None\<rparr>))"

definition lenient_file_list :: "json_env \<Rightarrow> json \<Rightarrow> file_activity list" where
  "lenient_file_list J v =
     (case v of
        JArr items \<Rightarrow> filter_map (file_item J) items
      | JNull \<Rightarrow> []
      | other \<Rightarrow> filter_map (file_item J) [other])"

definition summary_fields :: "string list" where
  "summary_fields = [''user_intent'', ''technical_concepts'', ''files'', ''errors_and_fixes'',
     ''problem_solving'', ''user_messages'', ''pending_tasks'', ''current_work'', ''next_step'']"

definition summary_from_json :: "json_env \<Rightarrow> json \<Rightarrow> structured_summary option" where
  "summary_from_json J v =
     (case v of
        JObj m \<Rightarrow> Some
          \<lparr>ss_user_intent = field_or m ''user_intent'' [] (lenient_string_list J),
           ss_technical_concepts = field_or m ''technical_concepts'' [] (lenient_string_list J),
           ss_files = field_or m ''files'' [] (lenient_file_list J),
           ss_errors_and_fixes = field_or m ''errors_and_fixes'' [] (lenient_string_list J),
           ss_problem_solving = field_or m ''problem_solving'' [] (lenient_string_list J),
           ss_user_messages = field_or m ''user_messages'' [] (lenient_string_list J),
           ss_pending_tasks = field_or m ''pending_tasks'' [] (lenient_string_list J),
           ss_current_work = field_or m ''current_work'' None (lenient_string_opt J),
           ss_next_step = field_or m ''next_step'' None (lenient_string_opt J),
           ss_extra = filter (\<lambda>(k, v). k \<notin> set summary_fields) m\<rparr>
      | _ \<Rightarrow> None)"

text \<open>\<open>Serialize\<close>, for the template: the fields in order, then the unknown ones.\<close>

definition opt_json :: "string option \<Rightarrow> json" where
  "opt_json s = (case s of None \<Rightarrow> JNull | Some t \<Rightarrow> JStr t)"

definition file_to_json :: "file_activity \<Rightarrow> json" where
  "file_to_json f = JObj [(''path'', JStr (fa_path f)), (''summary'', JStr (fa_summary f)),
     (''key_code'', opt_json (fa_key_code f))]"

definition strs_json :: "string list \<Rightarrow> json" where
  "strs_json ss = JArr (map JStr ss)"

definition summary_to_json :: "structured_summary \<Rightarrow> json" where
  "summary_to_json s = JObj ([(''user_intent'', strs_json (ss_user_intent s)),
     (''technical_concepts'', strs_json (ss_technical_concepts s)),
     (''files'', JArr (map file_to_json (ss_files s))),
     (''errors_and_fixes'', strs_json (ss_errors_and_fixes s)),
     (''problem_solving'', strs_json (ss_problem_solving s)),
     (''user_messages'', strs_json (ss_user_messages s)),
     (''pending_tasks'', strs_json (ss_pending_tasks s)),
     (''current_work'', opt_json (ss_current_work s)),
     (''next_step'', opt_json (ss_next_step s))] @ ss_extra s)"

definition nonblank :: "string option \<Rightarrow> string option" where
  "nonblank s = (if is_some_and s blank then None else s)"

definition normalize_file :: "file_activity \<Rightarrow> file_activity" where
  "normalize_file f = f\<lparr>fa_key_code := nonblank (fa_key_code f)\<rparr>"

definition file_has_content :: "file_activity \<Rightarrow> bool" where
  "file_has_content f \<longleftrightarrow> \<not> blank (fa_path f) \<or> \<not> blank (fa_summary f) \<or> fa_key_code f \<noteq> None"

definition summary_normalize :: "structured_summary \<Rightarrow> structured_summary" where
  "summary_normalize s =
     (let keep = filter (\<lambda>t. \<not> blank t) in
      s\<lparr>ss_user_intent := keep (ss_user_intent s),
        ss_technical_concepts := keep (ss_technical_concepts s),
        ss_files := filter file_has_content (map normalize_file (ss_files s)),
        ss_errors_and_fixes := keep (ss_errors_and_fixes s),
        ss_problem_solving := keep (ss_problem_solving s),
        ss_user_messages := keep (ss_user_messages s),
        ss_pending_tasks := keep (ss_pending_tasks s),
        ss_current_work := nonblank (ss_current_work s),
        ss_next_step := nonblank (ss_next_step s)\<rparr>)"

definition summary_is_empty :: "structured_summary \<Rightarrow> bool" where
  "summary_is_empty s \<longleftrightarrow>
     ss_user_intent s = [] \<and> ss_technical_concepts s = [] \<and> ss_files s = [] \<and>
     ss_errors_and_fixes s = [] \<and> ss_problem_solving s = [] \<and> ss_user_messages s = [] \<and>
     ss_pending_tasks s = [] \<and> ss_current_work s = None \<and> ss_next_step s = None"

subsection \<open>Candidates\<close>

text \<open>\<open>match_indices\<close>: the text after each match, the first match first.\<close>

function tails_after :: "string \<Rightarrow> string \<Rightarrow> string list" where
  "tails_after p s =
     (if p = [] then []
      else case strip_prefix p s of
             Some r \<Rightarrow> r # tails_after p r
           | None \<Rightarrow> (case s of [] \<Rightarrow> [] | _ # t \<Rightarrow> tails_after p t))"
  by pat_completeness auto
termination
  by (relation "measure (\<lambda>(p, s). length s)") (auto dest: strip_prefix_length)

declare tails_after.simps [simp del]

text \<open>The object a text begins with, cut at the brace that closes it.\<close>

fun object_end :: "nat \<Rightarrow> bool \<Rightarrow> bool \<Rightarrow> string \<Rightarrow> string option" where
  "object_end depth in_string escaped [] = None"
| "object_end depth in_string escaped (c # s) =
     (if in_string then
        map_option (Cons c)
          (if escaped then object_end depth True False s
           else if c = BACKSLASH then object_end depth True True s
           else object_end depth (c \<noteq> QUOTE) False s)
      else if c = QUOTE then map_option (Cons c) (object_end depth True escaped s)
      else if c = CHR ''{'' then map_option (Cons c) (object_end (depth + 1) False escaped s)
      else if c = CHR ''}'' then
        (if depth - 1 = 0 then Some [c]
         else map_option (Cons c) (object_end (depth - 1) False escaped s))
      else map_option (Cons c) (object_end depth False escaped s))"

definition leading_object :: "string \<Rightarrow> string option" where
  "leading_object text =
     (let t = trim_start text
      in if starts_with t ''{'' then object_end 0 False False t else None)"

definition fenced_json_blocks :: "string \<Rightarrow> string list" where
  "fenced_json_blocks text = filter_map leading_object (rev (tails_after ''```json'' text))"

definition TERMINATOR :: string where "TERMINATOR = ''</analysis>''"

definition tail_candidates :: "string \<Rightarrow> string list" where
  "tail_candidates tail =
     filter (\<lambda>c. length (tails_after TERMINATOR c) = length (tails_after TERMINATOR tail))
       (fenced_json_blocks tail @ (case leading_object tail of None \<Rightarrow> [] | Some c \<Rightarrow> [c]))"

definition json_candidates :: "string \<Rightarrow> string list" where
  "json_candidates text =
     (let tails = tails_after TERMINATOR text;
          tails' = (if tails = [] then [text] else tails)
      in remdups_adj (concat (map tail_candidates (rev tails')) @
           (case leading_object text of None \<Rightarrow> [] | Some c \<Rightarrow> [c])))"

definition parse_candidate :: "json_env \<Rightarrow> string \<Rightarrow> structured_summary option" where
  "parse_candidate J c =
     Option.bind (safely_parse_json J c) (\<lambda>v.
       Option.bind (summary_from_json J v) (\<lambda>s.
         let s' = summary_normalize s in if summary_is_empty s' then None else Some s'))"

definition summary_parse :: "json_env \<Rightarrow> string \<Rightarrow> structured_summary option" where
  "summary_parse J response = find_map (parse_candidate J) (json_candidates response)"

subsection \<open>Templates\<close>

fun backtick_run :: "nat \<Rightarrow> nat \<Rightarrow> string \<Rightarrow> nat" where
  "backtick_run longest run [] = longest"
| "backtick_run longest run (c # s) =
     (if c = CHR ''`'' then backtick_run (max longest (run + 1)) (run + 1) s
      else backtick_run longest 0 s)"

definition fence_for :: "string \<Rightarrow> string" where
  "fence_for code = replicate (max (backtick_run 0 0 code + 1) 3) CHR ''`''"

definition code_fence :: "string \<Rightarrow> string" where
  "code_fence code =
     fence_for code @ newline @ rev (dropWhile (\<lambda>c. c = byte 10) (rev code)) @ newline @ fence_for code"

text \<open>
  \<open>render\<close>: the template engine, given the filter, is a parameter (\<open>minijinja\<close>).
\<close>

type_synonym template_engine = "(string \<Rightarrow> string) \<Rightarrow> string \<Rightarrow> json \<Rightarrow> string result"

record templates =
  tp_compaction :: string
  tp_summary :: string

definition render :: "template_engine \<Rightarrow> string \<Rightarrow> json \<Rightarrow> string result" where
  "render minijinja template context = map_sum id trim (minijinja code_fence template context)"

definition render_with :: "template_engine \<Rightarrow> structured_summary \<Rightarrow> string \<Rightarrow> string result" where
  "render_with minijinja s template = render minijinja template (summary_to_json s)"

subsection \<open>Messages in the request for a summary\<close>

definition format_tool_request :: "json_env \<Rightarrow> tool_request \<Rightarrow> string" where
  "format_tool_request J r =
     (case tq_tool_call r of
        Inr call \<Rightarrow> ''tool_request('' @ ct_name call @ ''): '' @
          je_text J (case ct_arguments call of None \<Rightarrow> JNull | Some m \<Rightarrow> JObj m)
      | Inl _ \<Rightarrow> ''tool_request: [error]'')"

definition format_tool_response :: "tool_response \<Rightarrow> string" where
  "format_tool_response r =
     (case tr_tool_result r of
        Inr result \<Rightarrow>
          (let items = filter_map block_as_text (cr_content result) in
           if items \<noteq> [] then ''tool_response: '' @ join newline items
           else ''tool_response: [non-text content]'')
      | Inl _ \<Rightarrow> ''tool_response: [error]'')"

fun format_action :: "action_required_data \<Rightarrow> string" where
  "format_action (ToolConfirmation _ name _ _) = ''action_required(tool_confirmation): '' @ name"
| "format_action (Elicitation _ m _) = ''action_required(elicitation): '' @ m"
| "format_action (ElicitationResponse i _ _) = ''action_required(elicitation_response): '' @ i"
| "format_action (ToolConfirmationResponse i _) =
     ''action_required(tool_confirmation_response): '' @ i"

fun format_block :: "json_env \<Rightarrow> message_content \<Rightarrow> string option" where
  "format_block J (Text t) = Some (tc_text t)"
| "format_block J (Image i) = Some (''[image: '' @ img_mime_type i @ '']'')"
| "format_block J (Document d) =
     Some (case doc_name d of
             Some name \<Rightarrow> ''[document: '' @ name @ '' ('' @ doc_mime_type d @ '')]''
           | None \<Rightarrow> ''[document: '' @ doc_mime_type d @ '']'')"
| "format_block J (ToolRequest r) = Some (format_tool_request J r)"
| "format_block J (ToolResponse r) = Some (format_tool_response r)"
| "format_block J (ToolConfirmationRequest r) =
     Some (''tool_confirmation_request: '' @ tcr_tool_name r)"
| "format_block J (ActionRequired a) = Some (format_action a)"
| "format_block J (Thinking _) = None"
| "format_block J (RedactedThinking _) = None"
| "format_block J (SystemNotification n) = Some (''system_notification: '' @ sn_msg n)"
| "format_block J (Error e) = Some (''error: '' @ ec_message e)"

definition format_message_for_compacting :: "json_env \<Rightarrow> message \<Rightarrow> string" where
  "format_message_for_compacting J m =
     (let parts = filter_map (format_block J) (msg_content m);
          r = (case msg_role m of User \<Rightarrow> ''user'' | Assistant \<Rightarrow> ''assistant'')
      in if parts = [] then ''['' @ r @ '']: <empty message>''
         else ''['' @ r @ '']: '' @ join newline parts)"

text \<open>\<open>Display\<close> of a content block (\<open>conversation/message.rs\<close>), for the usage estimate.\<close>

definition to_readable_string :: "(error_data \<Rightarrow> string) \<Rightarrow> json_env \<Rightarrow> tool_request \<Rightarrow> string" where
  "to_readable_string print_error J r =
     (case tq_tool_call r of
        Inr call \<Rightarrow> ''Tool: '' @ ct_name call @ '', Args: '' @
          je_pretty J (case ct_arguments call of None \<Rightarrow> JNull | Some m \<Rightarrow> JObj m)
      | Inl e \<Rightarrow> ''Invalid tool call: '' @ print_error e)"

fun display_action :: "action_required_data \<Rightarrow> string" where
  "display_action (ToolConfirmation _ name _ _) =
     ''[ActionRequired: ToolConfirmation for '' @ name @ '']''"
| "display_action (Elicitation _ m _) = ''[ActionRequired: Elicitation - '' @ m @ '']''"
| "display_action (ElicitationResponse i _ _) =
     ''[ActionRequired: ElicitationResponse for '' @ i @ '']''"
| "display_action (ToolConfirmationResponse i _) =
     ''[ActionRequired: ToolConfirmationResponse for '' @ i @ '']''"

fun display_block :: "(error_data \<Rightarrow> string) \<Rightarrow> json_env \<Rightarrow> message_content \<Rightarrow> string" where
  "display_block print_error J (Text t) = tc_text t"
| "display_block print_error J (Image i) = ''[Image: '' @ img_mime_type i @ '']''"
| "display_block print_error J (Document d) =
     (case doc_name d of
        Some name \<Rightarrow> ''[Document: '' @ name @ '' ('' @ doc_mime_type d @ '')]''
      | None \<Rightarrow> ''[Document: '' @ doc_mime_type d @ '']'')"
| "display_block print_error J (ToolRequest r) =
     ''[ToolRequest: '' @ to_readable_string print_error J r @ '']''"
| "display_block print_error J (ToolResponse r) =
     ''[ToolResponse: '' @
     (case tr_tool_result r of
        Inr result \<Rightarrow> show_nat (length (cr_content result)) @ '' content item(s)''
      | Inl e \<Rightarrow> ''Error: '' @ print_error e) @ '']''"
| "display_block print_error J (ToolConfirmationRequest r) =
     ''[ToolConfirmationRequest: '' @ tcr_tool_name r @ '']''"
| "display_block print_error J (ActionRequired a) = display_action a"
| "display_block print_error J (Thinking t) = ''[Thinking: '' @ thinking t @ '']''"
| "display_block print_error J (RedactedThinking _) = ''[RedactedThinking]''"
| "display_block print_error J (SystemNotification n) = ''[SystemNotification: '' @ sn_msg n @ '']''"
| "display_block print_error J (Error e) = ''[Error: '' @ ec_message e @ '']''"

subsection \<open>The fence\<close>

lemma backtick_run_ge: "longest \<le> backtick_run longest run s"
  by (induction longest run s rule: backtick_run.induct) auto

lemma backtick_run_prefix:
  "prefix (replicate n CHR ''`'') s \<Longrightarrow> 0 < n \<Longrightarrow> run + n \<le> backtick_run longest run s"
proof (induction n arbitrary: longest run s)
  case (Suc n)
  then obtain t where s: "s = CHR ''`'' # t" "prefix (replicate n CHR ''`'') t"
    by (auto simp: prefix_def)
  show ?case
  proof (cases "n = 0")
    case True
    then show ?thesis using s backtick_run_ge [of "max longest (run + 1)" "run + 1" t] by simp
  next
    case False
    with Suc.IH [OF s(2), of "run + 1" "max longest (run + 1)"] s show ?thesis by simp
  qed
qed simp

lemma backtick_run_sublist:
  "sublist (replicate n CHR ''`'') s \<Longrightarrow> n \<le> backtick_run longest run s"
proof (induction s arbitrary: longest run)
  case (Cons c s)
  show ?case
  proof (cases "prefix (replicate n CHR ''`'') (c # s)")
    case True
    then show ?thesis
      using backtick_run_prefix [OF True, of run longest] by (cases "n = 0") auto
  next
    case False
    with Cons.prems have "sublist (replicate n CHR ''`'') s" by (simp add: sublist_Cons_right)
    from Cons.IH [OF this] show ?thesis by simp
  qed
qed simp

text \<open>
  A piece of code cannot break out of its fence: the fence is at least three backticks and
  longer than every run of backticks in the code, so the text between the two fences never
  contains it.
\<close>

theorem code_fence_unbreakable:
  "\<exists>body. code_fence code = fence_for code @ newline @ body @ newline @ fence_for code \<and>
     prefix body code \<and> 3 \<le> length (fence_for code) \<and> \<not> sublist (fence_for code) body"
proof (intro exI conjI)
  let ?body = "rev (dropWhile (\<lambda>c. c = byte 10) (rev code))"
  show "code_fence code = fence_for code @ newline @ ?body @ newline @ fence_for code"
    by (simp add: code_fence_def)
  show pre: "prefix ?body code"
    using suffix_dropWhile [of "\<lambda>c. c = byte 10" "rev code"] by (simp add: suffix_to_prefix)
  show "3 \<le> length (fence_for code)" by (simp add: fence_for_def)
  show "\<not> sublist (fence_for code) ?body"
  proof
    assume "sublist (fence_for code) ?body"
    then have "sublist (fence_for code) code"
      using pre prefix_imp_sublist sublist_order.order_trans by blast
    from backtick_run_sublist [OF this [unfolded fence_for_def], of 0 0] show False by simp
  qed
qed

end
