(* ===== verification/Summarize.thy ===== *)
theory Summarize
  imports Summary Agent_World
begin

text \<open>
  \<open>crates/aibuddy-context-management/src/summarize.rs\<close>, \<open>lib.rs\<close> and \<open>provider.rs\<close>: summarizing
  a history, with more and more tool responses left out while the request does not fit, and the
  provider that compacts a history which overflowed and asks once more.  The model, the token
  estimator and the template engine are parameters.
\<close>

subsection \<open>The environment\<close>

text \<open>\<open>CompactionModel::complete\<close> and \<open>TokenEstimator\<close>.\<close>

type_synonym 'x compaction_model =
  "string \<Rightarrow> message list \<Rightarrow> (provider_error + message \<times> provider_usage, 'x) act"

record token_estimator =
  te_chat :: "string \<Rightarrow> message list \<Rightarrow> nat"
  te_text :: "string \<Rightarrow> nat"

record summary_env =
  su_ext :: ext_env
  su_json :: json_env
  su_engine :: template_engine
  su_print_error :: "error_data \<Rightarrow> string"

definition REMOVAL_PERCENTAGES :: "nat list" where
  "REMOVAL_PERCENTAGES = [0, 10, 20, 50, 100]"

definition SUMMARIZE_REQUEST_TEXT :: string where
  "SUMMARIZE_REQUEST_TEXT =
     ''Please summarize the conversation history provided in the system prompt.''"

subsection \<open>Leaving tool responses out\<close>

definition tool_indices :: "message list \<Rightarrow> nat list" where
  "tool_indices ms = filter (\<lambda>i. has_tool_response (ms ! i)) [0..<length ms]"

text \<open>What the i-th round of the loop pushes.\<close>

definition removal_at :: "nat list \<Rightarrow> nat \<Rightarrow> nat list" where
  "removal_at indices i =
     (let middle = length indices div 2; offset = i div 2 in
      if i mod 2 = 0 then
        (if middle > offset then [indices ! (middle - offset - 1)] else [])
      else if middle + offset < length indices then [indices ! (middle + offset)] else [])"

definition indices_to_remove :: "nat list \<Rightarrow> nat \<Rightarrow> nat list" where
  "indices_to_remove indices num = concat (map (removal_at indices) [0..<num])"

definition num_to_remove :: "nat list \<Rightarrow> nat \<Rightarrow> nat" where
  "num_to_remove indices percent = max (length indices * percent div 100) 1"

definition filter_tool_responses :: "message list \<Rightarrow> nat \<Rightarrow> message list" where
  "filter_tool_responses ms percent =
     (if percent = 0 \<or> tool_indices ms = [] then ms
      else
        (let indices = tool_indices ms;
             gone = indices_to_remove indices (num_to_remove indices percent)
         in map snd (filter (\<lambda>(i, m). i \<notin> set gone) (enumerate 0 ms))))"

subsection \<open>The answer\<close>

definition apply_structured_summary :: "summary_env \<Rightarrow> message \<Rightarrow> string \<Rightarrow> message" where
  "apply_structured_summary S response template =
     (case summary_parse (su_json S) (as_concat_text response) of
        None \<Rightarrow> response
      | Some summary \<Rightarrow>
          (case render_with (su_engine S) summary template of
             Inr rendered \<Rightarrow>
               if trim rendered \<noteq> [] then response\<lparr>msg_content := [mc_text rendered]\<rparr> else response
           | Inl _ \<Rightarrow> response))"

text \<open>\<open>count as i32\<close> cuts to 32 bits; the sum of the two wraps.\<close>

definition ensure_usage_tokens ::
  "summary_env \<Rightarrow> token_estimator \<Rightarrow> string \<Rightarrow> message list \<Rightarrow> message \<Rightarrow> provider_usage \<Rightarrow>
   provider_usage" where
  "ensure_usage_tokens S T system request response pu =
     (let u = pu_usage pu;
          u1 = (if input_tokens u = None
                then u\<lparr>input_tokens := Some (word_of_nat (te_chat T system request))\<rparr> else u);
          text = join '' '' (map (display_block (su_print_error S) (su_json S)) (msg_content response));
          u2 = (if output_tokens u1 = None
                then u1\<lparr>output_tokens := Some (word_of_nat (te_text T text))\<rparr> else u1);
          u3 = (case (input_tokens u2, output_tokens u2) of
                  (Some a, Some b) \<Rightarrow> u2\<lparr>total_tokens := Some (a + b)\<rparr>
                | _ \<Rightarrow> u2)
      in pu\<lparr>pu_usage := u3\<rparr>)"

subsection \<open>Summarize\<close>

definition NO_TOOL_RESPONSES_ERROR :: string where
  "NO_TOOL_RESPONSES_ERROR = ''Failed to compact: the base prompt (system prompt, tool schemas, and conversation) exceeds the model'' @ [byte 39] @ ''s effective context window, and there are no tool responses to remove. Use a model or configuration with a larger usable context, disable some extensions to reduce the tool-schema payload, or start a new session.''"

definition EXHAUSTED_ERROR :: string where
  "EXHAUSTED_ERROR =
     ''Failed to compact: context limit exceeded even after removing all tool responses''"

definition UNEXPECTED_ERROR :: string where
  "UNEXPECTED_ERROR = ''Unexpected: exhausted all attempts without returning''"

definition summary_prompt :: "summary_env \<Rightarrow> templates \<Rightarrow> message list \<Rightarrow> nat \<Rightarrow> string result" where
  "summary_prompt S tp ms percent =
     render (su_engine S) (tp_compaction tp)
       (JObj [(''messages'', JStr (join newline
          (map (format_message_for_compacting (su_json S)) (filter_tool_responses ms percent))))])"

definition summary_request :: "summary_env \<Rightarrow> message list" where
  "summary_request S = [with_text (su_ext S) SUMMARIZE_REQUEST_TEXT (message_user (su_ext S))]"

definition accept_summary ::
  "summary_env \<Rightarrow> token_estimator option \<Rightarrow> templates \<Rightarrow> string \<Rightarrow> message \<Rightarrow> provider_usage \<Rightarrow>
   message \<times> provider_usage" where
  "accept_summary S T tp system response pu =
     (let response' = response\<lparr>msg_role := User\<rparr>;
          pu' = (case T of None \<Rightarrow> pu
                 | Some est \<Rightarrow> ensure_usage_tokens S est system (summary_request S) response' pu)
      in (apply_structured_summary S response' (tp_summary tp), pu'))"

text \<open>The attempts that are left, each with the percentage it removes.\<close>

fun summarize_attempts ::
  "summary_env \<Rightarrow> 'x compaction_model \<Rightarrow> token_estimator option \<Rightarrow> templates \<Rightarrow> message list \<Rightarrow>
   nat list \<Rightarrow> ((message \<times> provider_usage) result, 'x) act" where
  "summarize_attempts S complete T tp ms [] w = (Inl UNEXPECTED_ERROR, w)"
| "summarize_attempts S complete T tp ms (percent # later) w =
     (case summary_prompt S tp ms percent of
        Inl e \<Rightarrow> (Inl e, w)
      | Inr system \<Rightarrow>
          (case complete system (summary_request S) w of
             (Inr (response, pu), w1) \<Rightarrow> (Inr (accept_summary S T tp system response pu), w1)
           | (Inl (ContextLengthExceeded e), w1) \<Rightarrow>
               if \<not> list_ex has_tool_response ms then (Inl NO_TOOL_RESPONSES_ERROR, w1)
               else if later \<noteq> [] then summarize_attempts S complete T tp ms later w1
               else (Inl EXHAUSTED_ERROR, w1)
           | (Inl e, w1) \<Rightarrow> (Inl (error_display e), w1)))"

definition summarize ::
  "summary_env \<Rightarrow> 'x compaction_model \<Rightarrow> token_estimator option \<Rightarrow> templates \<Rightarrow> message list \<Rightarrow>
   ((message \<times> provider_usage) result, 'x) act" where
  "summarize S complete T tp ms w = summarize_attempts S complete T tp ms REMOVAL_PERCENTAGES w"

text \<open>\<open>compact\<close>: the summary and its usage are handed to the caller's conversation.\<close>

definition compact ::
  "summary_env \<Rightarrow> 'x compaction_model \<Rightarrow> token_estimator option \<Rightarrow> templates \<Rightarrow> message list \<Rightarrow>
   (message \<Rightarrow> 'o \<Rightarrow> 'o) \<Rightarrow> (provider_usage \<Rightarrow> 'o \<Rightarrow> 'o) \<Rightarrow> 'o \<Rightarrow> (('o) result, 'x) act" where
  "compact S complete T tp ms set_summary set_usage out w =
     (case summarize S complete T tp ms w of
        (Inl e, w1) \<Rightarrow> (Inl e, w1)
      | (Inr (m, pu), w1) \<Rightarrow> (Inr (set_usage pu (set_summary m out)), w1))"

subsection \<open>The compacting provider\<close>

text \<open>A provider, over its model configurations, tools and streams.\<close>

record ('c, 't, 's, 'x) provider =
  pr_name :: string
  pr_stream :: "'c \<Rightarrow> string \<Rightarrow> message list \<Rightarrow> 't list \<Rightarrow> (provider_error + 's, 'x) act"
  pr_complete :: "'c \<Rightarrow> string \<Rightarrow> message list \<Rightarrow> 't list \<Rightarrow>
    (provider_error + message \<times> provider_usage, 'x) act"
  pr_context_limit :: "string \<Rightarrow> nat option \<Rightarrow> nat"
  pr_manages_own_context :: bool
  pr_supports_builtin_tools :: bool

definition provider_model :: "('c, 't, 's, 'x) provider \<Rightarrow> 'c \<Rightarrow> 'x compaction_model" where
  "provider_model P config system ms = pr_complete P config system ms []"

definition compacted_messages ::
  "summary_env \<Rightarrow> ('c, 't, 's, 'x) provider \<Rightarrow> templates \<Rightarrow> 'c \<Rightarrow> message list \<Rightarrow>
   (provider_error + message list, 'x) act" where
  "compacted_messages S P tp config ms w =
     (case summarize S (provider_model P config) None tp ms w of
        (Inl e, w1) \<Rightarrow> (Inl (ExecutionError e), w1)
      | (Inr (m, pu), w1) \<Rightarrow> (Inr [m], w1))"

definition retry_compacted ::
  "summary_env \<Rightarrow> ('c, 't, 's, 'x) provider \<Rightarrow> templates \<Rightarrow> 'c \<Rightarrow> message list \<Rightarrow>
   (message list \<Rightarrow> (provider_error + 'r, 'x) act) \<Rightarrow> (provider_error + 'r, 'x) act" where
  "retry_compacted S P tp config ms call w =
     (case call ms w of
        (Inl (ContextLengthExceeded e), w1) \<Rightarrow>
          (case compacted_messages S P tp config ms w1 of
             (Inl e', w2) \<Rightarrow> (Inl e', w2)
           | (Inr compacted, w2) \<Rightarrow> call compacted w2)
      | other \<Rightarrow> other)"

definition compacting_provider ::
  "summary_env \<Rightarrow> templates \<Rightarrow> ('c, 't, 's, 'x) provider \<Rightarrow> ('c, 't, 's, 'x) provider" where
  "compacting_provider S tp P =
     \<lparr>pr_name = pr_name P,
      pr_stream = (\<lambda>config system ms tools.
        retry_compacted S P tp config ms (\<lambda>ms'. pr_stream P config system ms' tools)),
      pr_complete = (\<lambda>config system ms tools.
        retry_compacted S P tp config ms (\<lambda>ms'. pr_complete P config system ms' tools)),
      pr_context_limit = pr_context_limit P,
      pr_manages_own_context = True,
      pr_supports_builtin_tools = pr_supports_builtin_tools P\<rparr>"

end
