(* ===== verification/Token_Counter.thy ===== *)
theory Token_Counter
  imports Message_Ops Operation
begin

text \<open>
  \<open>crates/aibuddy/src/token_counter.rs\<close>: the estimate of the tokens of a request, with a cache
  of the counts of texts.  The tokenizer, the hash, the cache of the \<open>lru\<close> crate and the debug
  text of arguments are parameters; the cache is state that every count passes on.
\<close>

type_synonym 'h cache_key = "nat \<times> 'h"

record ('h, 'c) counter_env =
  tk_encode :: "string \<Rightarrow> nat"
  tk_hash :: "string \<Rightarrow> 'h"
  tk_get :: "'h cache_key \<Rightarrow> 'c \<Rightarrow> nat option \<times> 'c"
  tk_put :: "'h cache_key \<Rightarrow> nat \<Rightarrow> 'c \<Rightarrow> 'c"
  tk_fresh :: 'c
  tk_debug :: "json_object option \<Rightarrow> string"

definition FUNC_INIT :: nat where "FUNC_INIT = 7"
definition PROP_INIT :: nat where "PROP_INIT = 3"
definition PROP_KEY :: nat where "PROP_KEY = 3"
definition ENUM_INIT :: int where "ENUM_INIT = - 3"
definition ENUM_ITEM :: nat where "ENUM_ITEM = 3"
definition FUNC_END :: nat where "FUNC_END = 12"

definition key_from_text :: "('h, 'c) counter_env \<Rightarrow> string \<Rightarrow> 'h cache_key" where
  "key_from_text K s = (length s, tk_hash K s)"

definition count_tokens :: "('h, 'c) counter_env \<Rightarrow> string \<Rightarrow> 'c \<Rightarrow> nat \<times> 'c" where
  "count_tokens K s c =
     (case tk_get K (key_from_text K s) c of
        (Some n, c1) \<Rightarrow> (n, c1)
      | (None, c1) \<Rightarrow> (let n = tk_encode K s in (n, tk_put K (key_from_text K s) n c1)))"

text \<open>A loop that adds to a count.\<close>

fun accumulate :: "('a \<Rightarrow> nat \<Rightarrow> 'c \<Rightarrow> nat \<times> 'c) \<Rightarrow> 'a list \<Rightarrow> nat \<Rightarrow> 'c \<Rightarrow> nat \<times> 'c" where
  "accumulate f [] n c = (n, c)"
| "accumulate f (x # xs) n c = (let (n1, c1) = f x n c in accumulate f xs n1 c1)"

definition add_tokens ::
  "('h, 'c) counter_env \<Rightarrow> nat \<Rightarrow> string \<Rightarrow> nat \<Rightarrow> 'c \<Rightarrow> nat \<times> 'c" where
  "add_tokens K extra s n c = (let (k, c1) = count_tokens K s c in (n + extra + k, c1))"

definition trim_dots :: "string \<Rightarrow> string" where
  "trim_dots s = rev (dropWhile (\<lambda>c. c = CHR ''.'') (rev s))"

definition saturating_add_signed :: "nat \<Rightarrow> int \<Rightarrow> nat" where
  "saturating_add_signed n i = nat (min (2 ^ 64 - 1) (max 0 (int n + i)))"

definition str_field :: "json \<Rightarrow> string \<Rightarrow> string" where
  "str_field v k = unwrap_or (Option.bind (json_get v k) json_as_str) []"

definition count_enum_item ::
  "('h, 'c) counter_env \<Rightarrow> json \<Rightarrow> nat \<Rightarrow> 'c \<Rightarrow> nat \<times> 'c" where
  "count_enum_item K item n c =
     (case json_as_str item of None \<Rightarrow> (n, c) | Some s \<Rightarrow> add_tokens K ENUM_ITEM s n c)"

definition count_property ::
  "('h, 'c) counter_env \<Rightarrow> string \<times> json \<Rightarrow> nat \<Rightarrow> 'c \<Rightarrow> nat \<times> 'c" where
  "count_property K kv n c =
     (let (key, v) = kv;
          line = key @ '':'' @ str_field v ''type'' @ '':'' @ trim_dots (str_field v ''description'');
          (n1, c1) = add_tokens K PROP_KEY line n c
      in case Option.bind (json_get v ''enum'') json_as_array of
           None \<Rightarrow> (n1, c1)
         | Some items \<Rightarrow>
             accumulate (count_enum_item K) items (saturating_add_signed n1 ENUM_INIT) c1)"

definition count_tool :: "('h, 'c) counter_env \<Rightarrow> tool \<Rightarrow> nat \<Rightarrow> 'c \<Rightarrow> nat \<times> 'c" where
  "count_tool K t n c =
     (let line = tl_name t @ '':'' @ trim_dots (unwrap_or (tl_description t) []);
          (n1, c1) = add_tokens K FUNC_INIT line n c
      in case Option.bind (map_of (tl_input_schema t) ''properties'') json_as_object of
           None \<Rightarrow> (n1, c1)
         | Some properties \<Rightarrow>
             if properties = [] then (n1, c1)
             else accumulate (count_property K) properties (n1 + PROP_INIT) c1)"

definition count_tokens_for_tools ::
  "('h, 'c) counter_env \<Rightarrow> tool list \<Rightarrow> 'c \<Rightarrow> nat \<times> 'c" where
  "count_tokens_for_tools K tools c =
     (if tools = [] then (0, c)
      else (let (n, c1) = accumulate (count_tool K) tools 0 c in (n + FUNC_END, c1)))"

definition count_content ::
  "('h, 'c) counter_env \<Rightarrow> message_content \<Rightarrow> nat \<Rightarrow> 'c \<Rightarrow> nat \<times> 'c" where
  "count_content K b n c =
     (case as_text b of
        Some text \<Rightarrow> add_tokens K 0 text n c
      | None \<Rightarrow>
          (case as_tool_request b of
             Some r \<Rightarrow>
               (case tq_tool_call r of
                  Inl _ \<Rightarrow> (n, c)
                | Inr call \<Rightarrow>
                    add_tokens K 0
                      (tq_id r @ '':'' @ ct_name call @ '':'' @ tk_debug K (ct_arguments call)) n c)
           | None \<Rightarrow>
               (case as_tool_response_text b of
                  Some text \<Rightarrow> add_tokens K 0 text n c
                | None \<Rightarrow> (n, c))))"

definition count_message :: "('h, 'c) counter_env \<Rightarrow> message \<Rightarrow> nat \<Rightarrow> 'c \<Rightarrow> nat \<times> 'c" where
  "count_message K m n c =
     (if \<not> is_agent_visible m then (n, c)
      else accumulate (count_content K) (msg_content m) (n + 4) c)"

definition count_chat_tokens ::
  "('h, 'c) counter_env \<Rightarrow> string \<Rightarrow> message list \<Rightarrow> tool list \<Rightarrow> 'c \<Rightarrow> nat \<times> 'c" where
  "count_chat_tokens K system ms tools c =
     (let (n1, c1) = (if system = [] then (0, c) else add_tokens K 4 system 0 c);
          (n2, c2) = accumulate (count_message K) ms n1 c1;
          (n3, c3) = (if tools = [] then (n2, c2)
                      else (let (k, c3) = count_tokens_for_tools K tools c2 in (n2 + k, c3)))
      in (n3 + 3, c3))"

definition count_everything ::
  "('h, 'c) counter_env \<Rightarrow> string \<Rightarrow> message list \<Rightarrow> tool list \<Rightarrow> string list \<Rightarrow> 'c \<Rightarrow> nat \<times> 'c" where
  "count_everything K system ms tools resources c =
     (let (n, c1) = count_chat_tokens K system ms tools c
      in accumulate (add_tokens K 0) resources n c1)"

subsection \<open>The cache does not change a count\<close>

text \<open>
  What is relied on: the cache holds at most what was put into it, under the key it was put
  under (\<open>contents\<close>), and two texts with one key have as many tokens.
\<close>

definition lawful_cache ::
  "('h, 'c) counter_env \<Rightarrow> ('c \<Rightarrow> 'h cache_key \<Rightarrow> nat option) \<Rightarrow> bool" where
  "lawful_cache K contents \<longleftrightarrow>
     (\<forall>k c. fst (tk_get K k c) = contents c k \<and> contents (snd (tk_get K k c)) \<subseteq>\<^sub>m contents c) \<and>
     (\<forall>k n c. contents (tk_put K k n c) \<subseteq>\<^sub>m (contents c)(k \<mapsto> n)) \<and>
     contents (tk_fresh K) = Map.empty"

definition collision_free :: "('h, 'c) counter_env \<Rightarrow> bool" where
  "collision_free K \<longleftrightarrow>
     (\<forall>s t. key_from_text K s = key_from_text K t \<longrightarrow> tk_encode K s = tk_encode K t)"

definition cache_sound ::
  "('h, 'c) counter_env \<Rightarrow> ('c \<Rightarrow> 'h cache_key \<Rightarrow> nat option) \<Rightarrow> 'c \<Rightarrow> bool" where
  "cache_sound K contents c \<longleftrightarrow>
     (\<forall>s n. contents c (key_from_text K s) = Some n \<longrightarrow> n = tk_encode K s)"

text \<open>The same counter with a cache that forgets.\<close>

definition uncached :: "('h, 'c) counter_env \<Rightarrow> ('h, 'c) counter_env" where
  "uncached K = K\<lparr>tk_get := (\<lambda>k c. (None, c)), tk_put := (\<lambda>k n c. c)\<rparr>"

text \<open>A counting step agrees with its uncached version.\<close>

definition agrees ::
  "('h, 'c) counter_env \<Rightarrow> ('c \<Rightarrow> 'h cache_key \<Rightarrow> nat option) \<Rightarrow>
   ('c \<Rightarrow> nat \<times> 'c) \<Rightarrow> ('c \<Rightarrow> nat \<times> 'c) \<Rightarrow> bool" where
  "agrees K contents f g \<longleftrightarrow>
     (\<forall>c d. cache_sound K contents c \<longrightarrow>
        fst (f c) = fst (g d) \<and> cache_sound K contents (snd (f c)))"

lemma agreesI:
  "(\<And>c d. cache_sound K contents c \<Longrightarrow> fst (f c) = fst (g d) \<and> cache_sound K contents (snd (f c))) \<Longrightarrow>
   agrees K contents f g"
  by (simp add: agrees_def)

lemma agrees_return [simp]: "agrees K contents (\<lambda>c. (n, c)) (\<lambda>c. (n, c))"
  by (simp add: agrees_def)

lemma agrees_bind:
  assumes "agrees K contents f g" and "\<And>n. agrees K contents (\<lambda>c. h n c) (\<lambda>c. h' n c)"
  shows "agrees K contents (\<lambda>c. let (n, c1) = f c in h n c1) (\<lambda>c. let (n, c1) = g c in h' n c1)"
proof (rule agreesI)
  fix c d
  assume "cache_sound K contents c"
  with assms(1) have "fst (f c) = fst (g d)" "cache_sound K contents (snd (f c))"
    by (simp_all add: agrees_def)
  moreover from this assms(2) [of "fst (f c)"]
  have "fst (h (fst (f c)) (snd (f c))) = fst (h' (fst (f c)) (snd (g d)))"
    "cache_sound K contents (snd (h (fst (f c)) (snd (f c))))"
    unfolding agrees_def by blast+
  ultimately show "fst (let (n, c1) = f c in h n c1) = fst (let (n, c1) = g d in h' n c1) \<and>
      cache_sound K contents (snd (let (n, c1) = f c in h n c1))"
    by (simp add: case_prod_beta Let_def)
qed

lemma agrees_accumulate:
  "(\<And>x n. agrees K contents (\<lambda>c. f x n c) (\<lambda>c. g x n c)) \<Longrightarrow>
   agrees K contents (\<lambda>c. accumulate f xs n c) (\<lambda>c. accumulate g xs n c)"
proof (induction xs arbitrary: n)
  case (Cons x xs)
  from agrees_bind [OF Cons.prems Cons.IH [OF Cons.prems]] show ?case by simp
next
  case Nil
  show ?case unfolding accumulate.simps by (rule agrees_return)
qed

lemma cache_sound_sub: "cache_sound K contents c \<Longrightarrow> contents c' \<subseteq>\<^sub>m contents c \<Longrightarrow> cache_sound K contents c'"
  unfolding cache_sound_def map_le_def by (metis domI)

lemma agrees_count_tokens:
  assumes "lawful_cache K contents" and "collision_free K"
  shows "agrees K contents (\<lambda>c. count_tokens K s c) (\<lambda>c. count_tokens (uncached K) s c)"
proof (rule agreesI)
  fix c d
  assume sound: "cache_sound K contents c"
  obtain r c1 where get: "tk_get K (key_from_text K s) c = (r, c1)" by fastforce
  have r: "r = contents c (key_from_text K s)" and sub: "contents c1 \<subseteq>\<^sub>m contents c"
    using assms(1) get unfolding lawful_cache_def by (metis fst_conv, metis snd_conv)
  have sound1: "cache_sound K contents c1" by (rule cache_sound_sub [OF sound sub])
  have plain: "fst (count_tokens (uncached K) s d) = tk_encode K s"
    by (simp add: count_tokens_def uncached_def)
  show "fst (count_tokens K s c) = fst (count_tokens (uncached K) s d) \<and>
    cache_sound K contents (snd (count_tokens K s c))"
  proof (cases r)
    case (Some n)
    with r sound have "n = tk_encode K s" by (simp add: cache_sound_def)
    with Some get plain sound1 show ?thesis by (simp add: count_tokens_def)
  next
    case None
    let ?k = "key_from_text K s" and ?n = "tk_encode K s"
    have put: "contents (tk_put K ?k ?n c1) \<subseteq>\<^sub>m (contents c1)(?k \<mapsto> ?n)"
      by (rule assms(1) [unfolded lawful_cache_def, THEN conjunct2, THEN conjunct1, rule_format])
    have "cache_sound K contents (tk_put K ?k ?n c1)"
      unfolding cache_sound_def
    proof (intro allI impI)
      fix t m
      assume "contents (tk_put K ?k ?n c1) (key_from_text K t) = Some m"
      with put have "((contents c1)(?k \<mapsto> ?n)) (key_from_text K t) = Some m"
        by (metis domI map_le_def)
      then show "m = tk_encode K t"
      proof (cases "key_from_text K t = ?k")
        case True
        with \<open>((contents c1)(?k \<mapsto> ?n)) (key_from_text K t) = Some m\<close> have "m = ?n" by simp
        also have "?n = tk_encode K t" using assms(2) True unfolding collision_free_def by metis
        finally show ?thesis .
      next
        case False
        with \<open>((contents c1)(?k \<mapsto> ?n)) (key_from_text K t) = Some m\<close>
        have "contents c1 (key_from_text K t) = Some m" by simp
        with sound1 show ?thesis unfolding cache_sound_def by blast
      qed
    qed
    with None get plain show ?thesis by (simp add: count_tokens_def Let_def)
  qed
qed

lemma agrees_option:
  "(\<And>x. agrees K contents (f x) (g x)) \<Longrightarrow>
   agrees K contents (\<lambda>c. case r of None \<Rightarrow> (n, c) | Some x \<Rightarrow> f x c)
     (\<lambda>c. case r of None \<Rightarrow> (n, c) | Some x \<Rightarrow> g x c)"
  by (cases r) simp_all

lemma agrees_if:
  "agrees K contents f g \<Longrightarrow>
   agrees K contents (\<lambda>c. if b then (n, c) else f c) (\<lambda>c. if b then (n, c) else g c)"
  by (cases b) simp_all

lemmas agrees_intros = agrees_return agrees_bind agrees_option agrees_if agrees_accumulate

lemma uncached_same [simp]: "tk_debug (uncached K) = tk_debug K"
  by (simp add: uncached_def)

lemma agrees_add_tokens:
  assumes "lawful_cache K contents" and "collision_free K"
  shows "agrees K contents (\<lambda>c. add_tokens K x s n c) (\<lambda>c. add_tokens (uncached K) x s n c)"
  unfolding add_tokens_def
  by (intro agrees_intros agrees_count_tokens [OF assms])

lemma agrees_count_enum_item:
  assumes "lawful_cache K contents" and "collision_free K"
  shows "agrees K contents (\<lambda>c. count_enum_item K v n c) (\<lambda>c. count_enum_item (uncached K) v n c)"
  unfolding count_enum_item_def by (intro agrees_intros agrees_add_tokens [OF assms])

lemma agrees_count_property:
  assumes "lawful_cache K contents" and "collision_free K"
  shows "agrees K contents (\<lambda>c. count_property K kv n c) (\<lambda>c. count_property (uncached K) kv n c)"
proof -
  obtain key v where kv: "kv = (key, v)" by (cases kv)
  show ?thesis
    unfolding count_property_def kv Let_def prod.case
    by (intro agrees_intros [unfolded Let_def] agrees_add_tokens [OF assms] agrees_count_enum_item [OF assms])
qed

lemma agrees_count_tool:
  assumes "lawful_cache K contents" and "collision_free K"
  shows "agrees K contents (\<lambda>c. count_tool K t n c) (\<lambda>c. count_tool (uncached K) t n c)"
  unfolding count_tool_def Let_def
  by (intro agrees_intros [unfolded Let_def] agrees_add_tokens [OF assms] agrees_count_property [OF assms])

lemma agrees_count_tokens_for_tools:
  assumes "lawful_cache K contents" and "collision_free K"
  shows "agrees K contents (\<lambda>c. count_tokens_for_tools K ts c) (\<lambda>c. count_tokens_for_tools (uncached K) ts c)"
  unfolding count_tokens_for_tools_def by (intro agrees_intros agrees_count_tool [OF assms])

lemma agrees_count_content:
  assumes "lawful_cache K contents" and "collision_free K"
  shows "agrees K contents (\<lambda>c. count_content K b n c) (\<lambda>c. count_content (uncached K) b n c)"
proof -
  note add = agrees_add_tokens [OF assms]
  consider (words) t where "as_text b = Some t"
    | (request) r where "as_text b = None" "as_tool_request b = Some r"
    | (other) "as_text b = None" "as_tool_request b = None"
    by (cases "as_text b"; cases "as_tool_request b") auto
  then show ?thesis
  proof cases
    case (words t)
    then show ?thesis by (simp add: count_content_def add)
  next
    case (request r)
    then show ?thesis by (cases "tq_tool_call r") (simp_all add: count_content_def add)
  next
    case other
    then show ?thesis
      by (cases "as_tool_response_text b") (simp_all add: count_content_def add)
  qed
qed

lemma agrees_count_message:
  assumes "lawful_cache K contents" and "collision_free K"
  shows "agrees K contents (\<lambda>c. count_message K m n c) (\<lambda>c. count_message (uncached K) m n c)"
  unfolding count_message_def by (intro agrees_intros agrees_count_content [OF assms])

lemma agrees_count_chat_tokens:
  assumes "lawful_cache K contents" and "collision_free K"
  shows "agrees K contents (\<lambda>c. count_chat_tokens K system ms ts c)
    (\<lambda>c. count_chat_tokens (uncached K) system ms ts c)"
  unfolding count_chat_tokens_def
  by (intro agrees_intros agrees_add_tokens [OF assms] agrees_count_message [OF assms]
      agrees_count_tokens_for_tools [OF assms])

text \<open>
  Whatever the cache has kept or forgotten, a count is the count without a cache: the tokens
  of a request do not depend on what was counted before.
\<close>

theorem count_chat_tokens_cached:
  assumes "lawful_cache K contents" and "collision_free K" and "cache_sound K contents c"
  shows "fst (count_chat_tokens K system ms ts c) =
      fst (count_chat_tokens (uncached K) system ms ts d) \<and>
    cache_sound K contents (snd (count_chat_tokens K system ms ts c))"
  using agrees_count_chat_tokens [OF assms(1,2)] assms(3) unfolding agrees_def by blast

text \<open>A cache that keeps one entry, and texts that count as many tokens as bytes.\<close>

definition one_entry_counter :: "(string, (string cache_key \<times> nat) option) counter_env" where
  "one_entry_counter = \<lparr>tk_encode = length, tk_hash = (\<lambda>s. s),
     tk_get = (\<lambda>k c. (case c of Some (k', n) \<Rightarrow> if k' = k then Some n else None | None \<Rightarrow> None, c)),
     tk_put = (\<lambda>k n c. Some (k, n)), tk_fresh = None, tk_debug = (\<lambda>m. [])\<rparr>"

definition one_entry :: "(string cache_key \<times> nat) option \<Rightarrow> string cache_key \<Rightarrow> nat option" where
  "one_entry c k = (case c of Some (k', n) \<Rightarrow> if k' = k then Some n else None | None \<Rightarrow> None)"

lemma one_entry_lawful: "lawful_cache one_entry_counter one_entry" "collision_free one_entry_counter"
  by (auto simp: lawful_cache_def collision_free_def one_entry_counter_def one_entry_def
      key_from_text_def map_le_def fun_eq_iff split: option.split if_splits)

lemma count_chat_tokens_cached_witness:
  "fst (count_chat_tokens one_entry_counter ''ab'' [message_new User 0 [mc_text ''ab'']] []
      (Some ((2, ''ab''), 2))) =
    fst (count_chat_tokens (uncached one_entry_counter) ''ab'' [message_new User 0 [mc_text ''ab'']] [] None)"
proof -
  have "cache_sound one_entry_counter one_entry (Some ((2, ''ab''), 2))"
    by (auto simp: cache_sound_def one_entry_def key_from_text_def one_entry_counter_def)
  from count_chat_tokens_cached [OF one_entry_lawful this] show ?thesis by blast
qed

end
