(* ===== verification/Float64.thy ===== *)
theory Float64
  imports Prelude "HOL-Library.Log_Nat"
begin

text \<open>
  Values of \<open>f64\<close>, for the thresholds of compaction: IEEE 754 binary64 with rounding to the
  nearest, ties to even.  A finite value is a rational number; the sign of a zero is not kept,
  since the code divides only by converted integers.  Literals are rounded like every result.
\<close>

datatype f64 = Finite rat | PosInf | NegInf | NaN

text \<open>The binary exponent of a positive number: \<open>2 ^ e \<le> a < 2 ^ (e + 1)\<close>.\<close>

definition binary_exponent :: "rat \<Rightarrow> int" where
  "binary_exponent a =
     (let (n, d) = quotient_of a;
          e = int (floorlog 2 (nat n)) - int (floorlog 2 (nat d))
      in if power_int 2 e \<le> a then e else e - 1)"

definition round_half_even :: "rat \<Rightarrow> int" where
  "round_half_even a =
     (let f = floor a; r = a - of_int f in
      if r < 1 / 2 then f else if 1 / 2 < r then f + 1
      else if even f then f else f + 1)"

definition unit_in_last_place :: "rat \<Rightarrow> rat" where
  "unit_in_last_place a = power_int 2 (max (binary_exponent a) (- 1022) - 52)"

definition f64_round :: "rat \<Rightarrow> f64" where
  "f64_round q =
     (if q = 0 then Finite 0
      else
        (let u = unit_in_last_place \<bar>q\<bar>; v = of_int (round_half_even (\<bar>q\<bar> / u)) * u
         in if 2 ^ 1024 \<le> v then (if 0 < q then PosInf else NegInf)
            else Finite (if 0 < q then v else - v)))"

definition f64_of_int :: "int \<Rightarrow> f64" where
  "f64_of_int i = f64_round (of_int i)"

text \<open>Multiplication and division; a zero divisor is a positive zero.\<close>

fun f64_mul :: "f64 \<Rightarrow> f64 \<Rightarrow> f64" where
  "f64_mul (Finite a) (Finite b) = f64_round (a * b)"
| "f64_mul NaN y = NaN"
| "f64_mul x NaN = NaN"
| "f64_mul (Finite a) y =
     (if a = 0 then NaN else if (0 < a) = (y = PosInf) then PosInf else NegInf)"
| "f64_mul x (Finite b) =
     (if b = 0 then NaN else if (0 < b) = (x = PosInf) then PosInf else NegInf)"
| "f64_mul x y = (if x = y then PosInf else NegInf)"

fun f64_div :: "f64 \<Rightarrow> f64 \<Rightarrow> f64" where
  "f64_div (Finite a) (Finite b) =
     (if b = 0 then (if a = 0 then NaN else if 0 < a then PosInf else NegInf)
      else f64_round (a / b))"
| "f64_div (Finite a) NaN = NaN"
| "f64_div (Finite a) y = Finite 0"
| "f64_div NaN y = NaN"
| "f64_div x (Finite b) = (if (0 \<le> b) = (x = PosInf) then PosInf else NegInf)"
| "f64_div x y = NaN"

text \<open>Comparisons: false as soon as one side is not a number.\<close>

fun f64_less :: "f64 \<Rightarrow> f64 \<Rightarrow> bool" where
  "f64_less NaN y = False"
| "f64_less x NaN = False"
| "f64_less (Finite a) (Finite b) = (a < b)"
| "f64_less x y = (x \<noteq> y \<and> (x = NegInf \<or> y = PosInf))"

fun f64_leq :: "f64 \<Rightarrow> f64 \<Rightarrow> bool" where
  "f64_leq NaN y = False"
| "f64_leq x NaN = False"
| "f64_leq (Finite a) (Finite b) = (a \<le> b)"
| "f64_leq x y = (x = y \<or> x = NegInf \<or> y = PosInf)"

text \<open>\<open>as\<close>: toward zero, saturating at the bounds of the integer type, zero for no number.\<close>

fun f64_as :: "int \<Rightarrow> int \<Rightarrow> f64 \<Rightarrow> int" where
  "f64_as lo hi (Finite a) = max lo (min hi (if 0 \<le> a then floor a else ceiling a))"
| "f64_as lo hi PosInf = hi"
| "f64_as lo hi NegInf = lo"
| "f64_as lo hi NaN = 0"

definition f64_as_usize :: "f64 \<Rightarrow> nat" where
  "f64_as_usize x = nat (f64_as 0 (2 ^ 64 - 1) x)"

definition f64_as_i32 :: "f64 \<Rightarrow> int" where
  "f64_as_i32 x = f64_as i32_min i32_max x"

definition f64_as_u32 :: "f64 \<Rightarrow> nat" where
  "f64_as_u32 x = nat (f64_as 0 (2 ^ 32 - 1) x)"

subsection \<open>Rounding\<close>

lemma f64_round_zero [simp]: "f64_round 0 = Finite 0"
  by (simp add: f64_round_def)

lemma round_half_even_int [simp]: "round_half_even (of_int i) = i"
  by (simp add: round_half_even_def)

lemma round_half_even_mono: "a \<le> b \<Longrightarrow> round_half_even a \<le> round_half_even b"
proof -
  assume ab: "a \<le> b"
  then have f: "floor a \<le> floor b" by (rule floor_mono)
  show ?thesis
  proof (cases "floor a = floor b")
    case True
    with ab show ?thesis by (auto simp: round_half_even_def Let_def)
  next
    case False
    with f have "floor a + 1 \<le> floor b" by simp
    then show ?thesis by (auto simp: round_half_even_def Let_def)
  qed
qed

lemma power_int_2_less: "power_int (2 :: rat) m < power_int 2 n \<longleftrightarrow> m < n"
proof
  assume l: "power_int (2 :: rat) m < power_int 2 n"
  show "m < n"
  proof (rule ccontr)
    assume "\<not> m < n"
    then have "power_int (2 :: rat) n \<le> power_int 2 m" by (intro power_int_increasing) simp_all
    with l show False by simp
  qed
qed (simp add: power_int_strict_increasing)

lemma power_int_pred: "0 < m \<Longrightarrow> power_int (2 :: rat) (int m - 1) = 2 ^ (m - 1)"
  by (cases m) simp_all

lemma binary_exponent_bounds:
  assumes "0 < a"
  shows "power_int 2 (binary_exponent a) \<le> a \<and> a < power_int 2 (binary_exponent a + 1)"
proof -
  obtain n d where q: "quotient_of a = (n, d)" by fastforce
  have d: "0 < d" using q by (rule quotient_of_denom_pos)
  have a: "a = of_int n / of_int d" using q by (rule quotient_of_div)
  have n: "0 < n" using assms a d by (simp add: zero_less_divide_iff)
  let ?ln = "floorlog 2 (nat n)" and ?ld = "floorlog 2 (nat d)"
  have bounds: "(2 :: rat) ^ (floorlog 2 (nat k) - 1) \<le> of_int k \<and> of_int k < (2 :: rat) ^ floorlog 2 (nat k)"
    if k: "0 < k" for k :: int
  proof -
    have "2 ^ (floorlog 2 (nat k) - 1) \<le> nat k \<and> nat k < 2 ^ floorlog 2 (nat k)"
      by (rule floorlog_bounds) (use k in simp_all)
    then have "of_nat (2 ^ (floorlog 2 (nat k) - 1)) \<le> (of_nat (nat k) :: rat) \<and>
        (of_nat (nat k) :: rat) < of_nat (2 ^ floorlog 2 (nat k))"
      by (simp only: of_nat_le_iff of_nat_less_iff)
    moreover have "(of_nat (nat k) :: rat) = of_int k" using k by simp
    ultimately show ?thesis by simp
  qed
  have pos: "0 < ?ln" "0 < ?ld" using n d by (simp_all add: floorlog_eq_zero_iff neq0_conv [symmetric])
  have ln: "power_int 2 (int ?ln - 1) \<le> (of_int n :: rat)" "(of_int n :: rat) < power_int 2 (int ?ln)"
    and ld: "power_int 2 (int ?ld - 1) \<le> (of_int d :: rat)" "(of_int d :: rat) < power_int 2 (int ?ld)"
    using bounds [OF n] bounds [OF d] pos by (simp_all add: power_int_pred)
  have dpos: "(0 :: rat) < of_int d" using d by simp
  let ?e = "int ?ln - int ?ld"
  have lower: "power_int 2 (?e - 1) \<le> a"
  proof -
    have "power_int 2 (?e - 1) * of_int d \<le> power_int 2 (?e - 1) * power_int (2 :: rat) (int ?ld)"
      using ld(2) by (intro mult_left_mono) simp_all
    also have "\<dots> = power_int 2 (int ?ln - 1)"
      by (subst power_int_add [symmetric]) (simp_all del: power_int_of_nat)
    also have "\<dots> \<le> of_int n" by (rule ln(1))
    finally show ?thesis using dpos by (simp add: a pos_le_divide_eq)
  qed
  have upper: "a < power_int 2 (?e + 1)"
  proof -
    have "of_int n < power_int (2 :: rat) (int ?ln)" by (rule ln(2))
    also have "\<dots> = power_int 2 (?e + 1) * power_int 2 (int ?ld - 1)"
      by (subst power_int_add [symmetric]) (simp_all del: power_int_of_nat)
    also have "\<dots> \<le> power_int 2 (?e + 1) * of_int d"
      using ld(1) by (intro mult_left_mono) simp_all
    finally show ?thesis using dpos by (simp add: a pos_divide_less_eq)
  qed
  show ?thesis
  proof (cases "power_int 2 ?e \<le> a")
    case True
    then show ?thesis using upper by (simp add: binary_exponent_def q)
  next
    case False
    then show ?thesis using lower by (simp add: binary_exponent_def q)
  qed
qed

text \<open>The rounding of a positive number, before overflow.\<close>

definition rounded :: "rat \<Rightarrow> rat" where
  "rounded a = of_int (round_half_even (a / unit_in_last_place a)) * unit_in_last_place a"

lemma unit_pos [simp]: "0 < unit_in_last_place a"
  by (simp add: unit_in_last_place_def)

lemma round_at_most:
  assumes "a \<le> of_int k * unit_in_last_place a"
  shows "rounded a \<le> of_int k * unit_in_last_place a"
proof -
  have "a / unit_in_last_place a \<le> of_int k" using assms by (simp add: pos_divide_le_eq)
  from round_half_even_mono [OF this] show ?thesis
    unfolding rounded_def by (simp del: of_int_le_iff add: mult_right_mono)
qed

lemma round_at_least:
  assumes "of_int k * unit_in_last_place a \<le> a"
  shows "of_int k * unit_in_last_place a \<le> rounded a"
proof -
  have "of_int k \<le> a / unit_in_last_place a" using assms by (simp add: pos_le_divide_eq)
  from round_half_even_mono [OF this] show ?thesis
    unfolding rounded_def by (simp del: of_int_le_iff add: mult_right_mono)
qed

lemma power_of_two_units:
  assumes "unit_in_last_place a = power_int 2 u" and "u \<le> e"
  shows "power_int (2 :: rat) e = of_int (2 ^ nat (e - u)) * unit_in_last_place a"
proof -
  have "of_int (2 ^ nat (e - u)) * power_int (2 :: rat) u = power_int 2 (e - u) * power_int 2 u"
    using assms(2) by (simp add: power_int_def)
  also have "\<dots> = power_int 2 e" by (simp add: power_int_add [symmetric])
  finally show ?thesis using assms(1) by simp
qed

lemma rounded_mono:
  assumes "0 < a" and "a \<le> b"
  shows "rounded a \<le> rounded b"
proof (cases "unit_in_last_place a = unit_in_last_place b")
  case True
  have "a / unit_in_last_place a \<le> b / unit_in_last_place b"
    unfolding True using assms(2) by (simp add: divide_right_mono less_imp_le)
  from round_half_even_mono [OF this] show ?thesis
    unfolding rounded_def True by (simp del: of_int_le_iff add: mult_right_mono)
next
  case False
  let ?ea = "binary_exponent a" and ?eb = "binary_exponent b"
  have eb: "power_int 2 ?eb \<le> b" "b < power_int 2 (?eb + 1)"
    and ea: "power_int 2 ?ea \<le> a" "a < power_int 2 (?ea + 1)"
    using binary_exponent_bounds assms by auto
  have "power_int (2 :: rat) ?ea < power_int 2 (?eb + 1)" using ea(1) assms(2) eb(2) by linarith
  then have "?ea \<le> ?eb" by (simp add: power_int_2_less)
  moreover have "max ?ea (- 1022) \<noteq> max ?eb (- 1022)"
    using False by (auto simp: unit_in_last_place_def)
  ultimately have lt: "?ea < ?eb" "- 1022 < ?eb" by auto
  have ub: "unit_in_last_place b = power_int 2 (?eb - 52)" "?eb - 52 \<le> ?eb"
    using lt by (simp_all add: unit_in_last_place_def)
  have ua: "unit_in_last_place a = power_int 2 (max ?ea (- 1022) - 52)" "max ?ea (- 1022) - 52 \<le> ?eb"
    using lt by (simp_all add: unit_in_last_place_def)
  have "power_int (2 :: rat) (?ea + 1) \<le> power_int 2 ?eb" using lt by (intro power_int_increasing) simp_all
  with ea(2) have "a \<le> power_int 2 ?eb" by linarith
  from round_at_most [OF this [unfolded power_of_two_units [OF ua]]]
  have "rounded a \<le> power_int 2 ?eb" by (simp only: power_of_two_units [OF ua])
  also have "\<dots> \<le> rounded b"
    using round_at_least [OF eb(1) [unfolded power_of_two_units [OF ub]]]
    by (simp only: power_of_two_units [OF ub])
  finally show ?thesis .
qed

lemma rounded_nonneg: "0 < a \<Longrightarrow> 0 \<le> rounded a"
  using round_at_least [of 0 a] by simp

lemma f64_round_pos:
  "0 < a \<Longrightarrow> f64_round a = (if 2 ^ 1024 \<le> rounded a then PosInf else Finite (rounded a))"
  by (simp add: f64_round_def rounded_def Let_def)

lemma f64_round_mono: "0 \<le> a \<Longrightarrow> a \<le> b \<Longrightarrow> f64_leq (f64_round a) (f64_round b)"
  using rounded_mono [of a b] rounded_nonneg [of b]
  by (cases "a = 0"; cases "b = 0") (auto simp: f64_round_pos)

lemma f64_round_nonneg: "0 \<le> a \<Longrightarrow> f64_leq (Finite 0) (f64_round a)"
  using f64_round_mono [of 0 a] by simp

lemma f64_less_leq_trans: "f64_less x y \<Longrightarrow> f64_leq y z \<Longrightarrow> f64_less x z"
  by (cases x; cases y; cases z) auto

lemma f64_less_Finite_0: "f64_leq x (Finite 0) \<Longrightarrow> \<not> f64_less (Finite 0) x"
  by (cases x) auto

lemma f64_div_mono:
  assumes "0 \<le> a" and "a \<le> b" and "0 \<le> c" and "f64_less z (f64_div (Finite a) (Finite c))"
  shows "f64_less z (f64_div (Finite b) (Finite c))"
proof (cases "c = 0")
  case True
  with assms show ?thesis by (cases z) (auto split: if_splits)
next
  case False
  then have "f64_leq (f64_round (a / c)) (f64_round (b / c))"
    using assms by (intro f64_round_mono) (simp_all add: divide_right_mono)
  with assms(4) False show ?thesis by (auto intro: f64_less_leq_trans)
qed

lemma rounded_below:
  assumes "1 \<le> a" and "a < power_int 2 k"
  shows "rounded a \<le> power_int 2 k"
proof -
  let ?e = "binary_exponent a"
  have e: "power_int 2 ?e \<le> a" "a < power_int 2 (?e + 1)"
    using binary_exponent_bounds assms(1) by auto
  have "power_int (2 :: rat) 0 < power_int 2 (?e + 1)" using e(2) assms(1) by simp
  then have e0: "0 \<le> ?e" by (simp only: power_int_2_less)
  have "power_int (2 :: rat) ?e < power_int 2 k" using e(1) assms(2) by linarith
  then have ek: "?e < k" by (simp only: power_int_2_less)
  have u: "unit_in_last_place a = power_int 2 (?e - 52)" "?e - 52 \<le> k"
    using e0 ek by (simp_all add: unit_in_last_place_def)
  have "a \<le> power_int 2 k" using assms(2) by simp
  from round_at_most [OF this [unfolded power_of_two_units [OF u]]]
  show ?thesis by (simp only: power_of_two_units [OF u])
qed

lemma f64_of_int_finite:
  assumes "0 \<le> i" and "i < 2 ^ 1023"
  obtains a where "f64_of_int i = Finite a" "0 \<le> a"
proof (cases "i = 0")
  case True
  then show ?thesis using that [of 0] by (simp add: f64_of_int_def)
next
  case False
  then have "(1 :: rat) \<le> of_int i" using assms(1) by simp
  moreover have "(of_int i :: rat) < of_int (2 ^ 1023)" using assms(2) by (simp only: of_int_less_iff)
  then have "(of_int i :: rat) < power_int 2 1023" by (simp add: power_int_def)
  ultimately have "rounded (of_int i) \<le> power_int 2 1023" by (rule rounded_below)
  also have "\<dots> < power_int (2 :: rat) 1024" by (intro power_int_strict_increasing) simp_all
  finally have "\<not> 2 ^ 1024 \<le> rounded (of_int i)" by (simp add: power_int_def)
  moreover have "(0 :: rat) < of_int i" using False assms(1) by simp
  ultimately show ?thesis
    using that [of "rounded (of_int i)"] rounded_nonneg [of "of_int i"]
    by (simp add: f64_of_int_def f64_round_pos)
qed

lemma f64_of_int_mono: "0 \<le> i \<Longrightarrow> i \<le> j \<Longrightarrow> f64_leq (f64_of_int i) (f64_of_int j)"
  by (simp add: f64_of_int_def f64_round_mono)

text \<open>Integers of up to 53 bits are represented exactly.\<close>

lemma f64_of_int_exact:
  assumes "0 \<le> i" and "i < 2 ^ 53"
  shows "f64_of_int i = Finite (of_int i)"
proof (cases "i = 0")
  case True
  then show ?thesis by (simp add: f64_of_int_def)
next
  case False
  let ?a = "of_int i :: rat" and ?e = "binary_exponent (of_int i)"
  have pos: "0 < ?a" using False assms(1) by simp
  have e: "power_int 2 ?e \<le> ?a" "?a < power_int 2 (?e + 1)"
    using binary_exponent_bounds [OF pos] by auto
  have "(1 :: rat) \<le> ?a" using False assms(1) by simp
  then have "power_int (2 :: rat) 0 < power_int 2 (?e + 1)" using e(2) by simp
  then have e0: "0 \<le> ?e" by (simp only: power_int_2_less)
  have "?a < of_int (2 ^ 53)" using assms(2) by (simp only: of_int_less_iff)
  then have "?a < power_int 2 53" by (simp add: power_int_def)
  then have "power_int (2 :: rat) ?e < power_int 2 53" using e(1) by linarith
  then have e52: "?e \<le> 52" by (simp only: power_int_2_less)
  have u: "unit_in_last_place ?a = power_int 2 (?e - 52)" using e0 by (simp add: unit_in_last_place_def)
  have one: "(1 :: rat) = of_int (2 ^ nat (52 - ?e)) * unit_in_last_place ?a"
    using power_of_two_units [OF u, of 0] e52 by simp
  have a: "?a = of_int (i * 2 ^ nat (52 - ?e)) * unit_in_last_place ?a"
  proof -
    have "?a = ?a * (of_int (2 ^ nat (52 - ?e)) * unit_in_last_place ?a)" by (simp only: one [symmetric] mult_1_right)
    then show ?thesis by (simp add: mult.assoc)
  qed
  have "rounded ?a \<le> ?a"
    by (rule order_trans [OF round_at_most [OF eq_refl [OF a]] eq_refl [OF a [symmetric]]])
  moreover have "?a \<le> rounded ?a"
    by (rule order_trans [OF eq_refl [OF a] round_at_least [OF eq_refl [OF a [symmetric]]]])
  ultimately have r: "rounded ?a = ?a" by simp
  have "of_int (2 ^ 53) \<le> (of_int (2 ^ 1024) :: rat)"
    by (simp only: of_int_le_iff) (rule power_increasing, simp_all)
  then have "\<not> 2 ^ 1024 \<le> ?a" using \<open>?a < of_int (2 ^ 53)\<close> by simp
  with r pos show ?thesis by (simp add: f64_of_int_def f64_round_pos)
qed

end
