(* ===== verification/Compaction.thy ===== *)
theory Compaction
  imports Summarize Token_Counter Float64
begin

text \<open>
  \<open>crates/aibuddy/src/context_mgmt/mod.rs\<close>: compacting a conversation to a summary, deciding
  when to, and summarizing single pairs of tool calls and results.  The provider's one-shot
  completion, the templates and the tokenizer are parameters.
\<close>

type_synonym token_counter = "(string, (string cache_key \<times> nat) list) counter_env"

record 'x compaction_env =
  ce_summary :: summary_env
  ce_complete :: "string \<Rightarrow> 'x compaction_model"
  ce_templates :: "templates result"
  ce_counter :: "token_counter result"

definition DEFAULT_COMPACTION_THRESHOLD :: f64 where
  "DEFAULT_COMPACTION_THRESHOLD = f64_round (8 / 10)"

definition TOOLCALL_SUMMARIZATION_BATCH_SIZE :: nat where
  "TOOLCALL_SUMMARIZATION_BATCH_SIZE = 10"

definition CONVERSATION_CONTINUATION_TEXT :: string where
  "CONVERSATION_CONTINUATION_TEXT = ''Your context was compacted. The previous message contains a summary of the conversation so far.'' @ newline @ ''Do not mention that you read a summary or that conversation summarization occurred.'' @ newline @ ''Just continue the conversation naturally based on the summarized context.''"

definition TOOL_LOOP_CONTINUATION_TEXT :: string where
  "TOOL_LOOP_CONTINUATION_TEXT = ''Your context was compacted. The previous message contains a summary of the conversation so far.'' @ newline @ ''Do not mention that you read a summary or that conversation summarization occurred.'' @ newline @ ''Continue calling tools as necessary to complete the task.''"

definition MANUAL_COMPACT_CONTINUATION_TEXT :: string where
  "MANUAL_COMPACT_CONTINUATION_TEXT = ''Your context was compacted at the user'' @ [byte 39] @ ''s request. The previous message contains a summary of the conversation so far.'' @ newline @ ''Do not mention that you read a summary or that conversation summarization occurred.'' @ newline @ ''Just continue the conversation naturally based on the summarized context.''"

subsection \<open>Counting tokens\<close>

text \<open>One counter for the whole conversation; \<open>try_into\<close> fails beyond 31 bits.\<close>

definition count_context_tokens :: "'x compaction_env \<Rightarrow> conversation \<Rightarrow> i32 result" where
  "count_context_tokens C c =
     (case ce_counter C of
        Inl e \<Rightarrow> Inl (''Failed to create token counter: '' @ e)
      | Inr K \<Rightarrow>
          (let total = fst (accumulate
                 (\<lambda>m n cache. let (k, cache1) = count_chat_tokens K [] [m] [] cache in (n + k, cache1))
                 (filter is_agent_visible c) 0 (tk_fresh K))
           in if int total \<le> i32_max then Inr (word_of_nat total)
              else Inl ''out of range integral type conversion attempted''))"

definition counter_estimator :: "'x compaction_env \<Rightarrow> token_estimator" where
  "counter_estimator C =
     \<lparr>te_chat = (\<lambda>system ms. case ce_counter C of
        Inl e \<Rightarrow> 0 | Inr K \<Rightarrow> fst (count_chat_tokens K system ms [] (tk_fresh K))),
      te_text = (\<lambda>text. case ce_counter C of
        Inl e \<Rightarrow> 0 | Inr K \<Rightarrow> fst (count_tokens K text (tk_fresh K)))\<rparr>"

subsection \<open>Compacting\<close>

record compaction_result =
  cp_conversation :: conversation
  cp_usage :: provider_usage
  cp_retained :: i32

definition has_text_only :: "message \<Rightarrow> bool" where
  "has_text_only m \<longleftrightarrow> list_ex is_text_block (msg_content m) \<and>
     \<not> list_ex (\<lambda>b. is_tool_request_block b \<or> is_tool_response_block b) (msg_content m)"

definition preserved_copy :: "ext_env \<Rightarrow> message \<Rightarrow> message option" where
  "preserved_copy E m =
     (if \<not> is_agent_visible m \<or> is_turn_context m \<or> msg_role m \<noteq> User then None
      else
        (let projected = agent_visible_content m in
         if \<not> has_text_only projected then None
         else Some (foldl (\<lambda>acc b. with_content b acc)
                (with_metadata metadata_agent_only (message_user E))
                (filter is_text_block (msg_content projected)))))"

text \<open>\<open>iter().enumerate().rev().find_map(..)\<close>.\<close>

definition find_preserved :: "ext_env \<Rightarrow> conversation \<Rightarrow> (nat \<times> message) option" where
  "find_preserved E c =
     find_map (\<lambda>(i, m). map_option (Pair i) (preserved_copy E m)) (rev (enumerate 0 c))"

definition do_compact ::
  "'x compaction_env \<Rightarrow> string \<Rightarrow> message list \<Rightarrow> ((message \<times> provider_usage) result, 'x) act" where
  "do_compact C sid ms w =
     (let visible = agent_visible_messages (filter (\<lambda>m. \<not> is_turn_context m) ms) in
      case ce_templates C of
        Inl e \<Rightarrow> (Inl e, w)
      | Inr tp \<Rightarrow>
          summarize (ce_summary C) (ce_complete C sid) (Some (counter_estimator C)) tp visible w)"

definition hide_from_agent :: "message \<Rightarrow> message" where
  "hide_from_agent m = with_metadata ((msg_metadata m)\<lparr>agent_visible := False\<rparr>) m"

definition continuation_text :: "bool \<Rightarrow> bool \<Rightarrow> string" where
  "continuation_text manual most_recent =
     (if manual then MANUAL_COMPACT_CONTINUATION_TEXT
      else if most_recent then CONVERSATION_CONTINUATION_TEXT
      else TOOL_LOOP_CONTINUATION_TEXT)"

text \<open>The turn's own context event, moved behind everything that was appended.\<close>

definition carried_context :: "message list \<Rightarrow> message list \<Rightarrow> message option" where
  "carried_context later final =
     map_option (\<lambda>m. m\<lparr>msg_id := None,
         msg_created := (if final = [] then msg_created m
                         else max (msg_created m) (Max (set (map msg_created final))))\<rparr>)
       (find_map (\<lambda>m. if is_turn_context m \<and> is_agent_visible m then Some m else None) (rev later))"

definition compacted_history ::
  "ext_env \<Rightarrow> bool \<Rightarrow> conversation \<Rightarrow> message \<Rightarrow> conversation" where
  "compacted_history E manual c summary =
     (let found = (if manual then None else find_preserved E c);
          most_recent = (case found of None \<Rightarrow> False
                         | Some (i, m) \<Rightarrow> list_all is_turn_context (drop (i + 1) c));
          continuation = with_metadata metadata_agent_only
            (with_text E (continuation_text manual most_recent) (message_assistant E));
          merged = fst (merge_consecutive_messages
            [with_metadata metadata_agent_only summary, continuation]);
          final = map hide_from_agent c @ merged
      in case found of
           None \<Rightarrow> final
         | Some (i, m) \<Rightarrow>
             (let final' = final @ [m\<lparr>msg_created := msg_created continuation\<rparr>]
              in final' @ (case carried_context (drop (i + 1) c) final' of None \<Rightarrow> [] | Some t \<Rightarrow> [t])))"

definition compact_messages ::
  "'x compaction_env \<Rightarrow> string \<Rightarrow> conversation \<Rightarrow> bool \<Rightarrow> (compaction_result result, 'x) act" where
  "compact_messages C sid c manual w =
     (case do_compact C sid c w of
        (Inl e, w1) \<Rightarrow> (Inl e, w1)
      | (Inr (summary, pu), w1) \<Rightarrow>
          (let conv = compacted_history (su_ext (ce_summary C)) manual c summary;
               retained = (case count_context_tokens C conv of
                             Inr n \<Rightarrow> n
                           | Inl e \<Rightarrow> unwrap_or (output_tokens (pu_usage pu)) 0)
           in (Inr \<lparr>cp_conversation = conv, cp_usage = pu, cp_retained = retained\<rparr>, w1)))"

subsection \<open>When to compact\<close>

text \<open>\<open>tokens as usize\<close> extends the sign to 64 bits.\<close>

definition i32_as_usize :: "i32 \<Rightarrow> nat" where
  "i32_as_usize n = nat (sint n mod 2 ^ 64)"

definition over_threshold :: "f64 \<Rightarrow> nat \<Rightarrow> nat \<Rightarrow> bool" where
  "over_threshold threshold context_limit tokens =
     (if f64_leq threshold (Finite 0) \<or> f64_leq (Finite 1) threshold then False
      else f64_less threshold (f64_div (f64_of_int (int tokens)) (f64_of_int (int context_limit))))"

text \<open>The configured threshold and the context limit, or the error of reading it, are parameters.\<close>

definition check_if_compaction_needed ::
  "'x compaction_env \<Rightarrow> bool \<Rightarrow> f64 option \<Rightarrow> f64 option \<Rightarrow> nat result \<Rightarrow> i32 option \<Rightarrow> conversation \<Rightarrow>
   bool result" where
  "check_if_compaction_needed C manages_own override configured limit session_tokens c =
     (if manages_own then Inr False
      else
        (let threshold = unwrap_or override (unwrap_or configured DEFAULT_COMPACTION_THRESHOLD) in
         case limit of
           Inl e \<Rightarrow> Inl e
         | Inr context_limit \<Rightarrow>
             (case session_tokens of
                Some n \<Rightarrow> Inr (over_threshold threshold context_limit (i32_as_usize n))
              | None \<Rightarrow>
                  (case ce_counter C of
                     Inl e \<Rightarrow> Inl (''Failed to create token counter: '' @ e)
                   | Inr K \<Rightarrow>
                       Inr (over_threshold threshold context_limit
                         (fst (accumulate
                           (\<lambda>m n cache. let (k, cache1) = count_chat_tokens K [] [m] [] cache
                              in (n + k, cache1))
                           (filter is_agent_visible c) 0 (tk_fresh K))))))))"

definition compute_tool_call_cutoff :: "nat \<Rightarrow> f64 \<Rightarrow> nat" where
  "compute_tool_call_cutoff context_limit compaction_threshold =
     (let threshold = (if f64_less (Finite 0) compaction_threshold \<and> f64_leq compaction_threshold (Finite 1)
                       then compaction_threshold else DEFAULT_COMPACTION_THRESHOLD);
          effective_limit = f64_as_usize (f64_mul (f64_of_int (int context_limit)) threshold)
      in min 500 (max 10 (3 * effective_limit div 20000)))"

subsection \<open>Pairs of tool calls and results\<close>

definition agent_visible_request_ids :: "conversation \<Rightarrow> string list" where
  "agent_visible_request_ids c =
     concat (map (\<lambda>m. filter_map request_id_of (msg_content m)) (filter is_agent_visible c))"

definition tool_ids_to_summarize :: "conversation \<Rightarrow> nat \<Rightarrow> nat \<Rightarrow> string list" where
  "tool_ids_to_summarize c cutoff protect_last_n =
     (let tool_call_ids = agent_visible_request_ids c in
      if length tool_call_ids - protect_last_n \<le> cutoff + TOOLCALL_SUMMARIZATION_BATCH_SIZE then []
      else take TOOLCALL_SUMMARIZATION_BATCH_SIZE tool_call_ids)"

definition mentions_tool :: "string \<Rightarrow> message \<Rightarrow> bool" where
  "mentions_tool i m \<longleftrightarrow> list_ex (\<lambda>b. tool_id_of b = Some i) (msg_content m)"

definition agent_visible_tool_pair :: "conversation \<Rightarrow> string \<Rightarrow> message list result" where
  "agent_visible_tool_pair c i =
     (let matching = agent_visible_messages (filter (mentions_tool i) c) in
      if list_ex (\<lambda>m. list_ex (\<lambda>b. request_id_of b = Some i) (msg_content m)) matching \<and>
         list_ex (\<lambda>m. list_ex (\<lambda>b. response_id_of b = Some i) (msg_content m)) matching
      then Inr matching
      else Inl (''No agent-visible tool pair found for tool id: '' @ i))"

definition TOOL_PAIR_PROMPT :: string where
  "TOOL_PAIR_PROMPT = ''Your task is to summarize a tool call & response pair to save tokens.'' @ newline @ newline @
     ''Reply with a single message that describes what happened. Typically a tool call'' @ newline @
     ''asks for something using a bunch of parameters and then the result is also some'' @ newline @
     ''structured output. So the tool might ask to look up something on github and the'' @ newline @
     ''reply might be a json document. So you could reply with something like:'' @ newline @ newline @
     [byte 34] @ ''A call to github was made to get the project status'' @ [byte 34] @ newline @ newline @
     ''if that is what it was.'' @ newline"

definition summarize_tool_call ::
  "'x compaction_env \<Rightarrow> string \<Rightarrow> conversation \<Rightarrow> string \<Rightarrow> (message result, 'x) act" where
  "summarize_tool_call C sid c i w =
     (case agent_visible_tool_pair c i of
        Inl e \<Rightarrow> (Inl e, w)
      | Inr matching \<Rightarrow>
          (let E = su_ext (ce_summary C);
               formatted = join newline (map (format_message_for_compacting (su_json (ce_summary C))) matching)
           in case ce_complete C sid TOOL_PAIR_PROMPT [with_text E formatted (message_user E)] w of
                (Inl e, w1) \<Rightarrow> (Inl (error_display e), w1)
              | (Inr (response, pu), w1) \<Rightarrow>
                  (let (u, w2) = fresh_uuid w1
                   in (Inr (with_generated_id u
                        (response\<lparr>msg_role := User, msg_created := msg_created (last matching),
                                  msg_metadata := metadata_agent_only\<rparr>)), w2))))"

text \<open>The groups of the background task: each pair of messages once, under its first id.\<close>

definition group_of :: "conversation \<Rightarrow> string \<Rightarrow> string set option" where
  "group_of c i =
     (case agent_visible_tool_pair c i of
        Inl e \<Rightarrow> None
      | Inr pair \<Rightarrow>
          if length pair \<noteq> 2 then None
          else if \<Union> (get_tool_request_ids ` set pair) \<noteq> \<Union> (get_tool_response_ids ` set pair) then None
          else (let message_ids = filter_map msg_id pair in
                if length message_ids \<noteq> 2 then None else Some (set message_ids)))"

fun group_tool_ids :: "conversation \<Rightarrow> string set set \<Rightarrow> string list \<Rightarrow> string list" where
  "group_tool_ids c seen [] = []"
| "group_tool_ids c seen (i # later) =
     (case group_of c i of
        None \<Rightarrow> group_tool_ids c seen later
      | Some g \<Rightarrow>
          if g \<in> seen then group_tool_ids c seen later
          else i # group_tool_ids c (insert g seen) later)"

fun summarize_groups ::
  "'x compaction_env \<Rightarrow> string \<Rightarrow> conversation \<Rightarrow> string list \<Rightarrow> ((message \<times> string) list, 'x) act" where
  "summarize_groups C sid c [] w = ([], w)"
| "summarize_groups C sid c (i # later) w =
     (let (r, w1) = summarize_tool_call C sid c i w;
          (rest, w2) = summarize_groups C sid c later w1
      in (case r of Inr summary \<Rightarrow> (summary, i) # rest | Inl e \<Rightarrow> rest, w2))"

definition maybe_summarize_tool_pairs ::
  "'x compaction_env \<Rightarrow> bool \<Rightarrow> bool \<Rightarrow> string \<Rightarrow> conversation \<Rightarrow> nat \<Rightarrow> nat \<Rightarrow>
   ((message \<times> string) list option, 'x) act" where
  "maybe_summarize_tool_pairs C enabled manages_own sid c cutoff protect_last_n w =
     (if \<not> enabled \<or> manages_own then (None, w)
      else
        (let grouped = group_tool_ids c {} (tool_ids_to_summarize c cutoff protect_last_n)
         in if grouped = [] then (None, w)
            else apfst Some (summarize_groups C sid c grouped w)))"

end
