(* ===== verification/Compaction_Operations.thy ===== *)
theory Compaction_Operations
  imports Compaction Turn_Operations "HOL-Library.Signed_Division"
begin

text \<open>
  \<open>agents/state_machine/ops_compaction.rs\<close> and \<open>ops_tool_pair_compaction.rs\<close>: the operation
  that compacts the conversation when it outgrows the context window or the model says it did,
  with its \<open>/compact\<close> and \<open>/clear\<close> commands, and the operation that replaces old pairs of tool
  calls and results by summaries.
\<close>

subsection \<open>Compaction\<close>

definition COMPACTION_THINKING_TEXT :: string where
  "COMPACTION_THINKING_TEXT = ''aibuddy is compacting the conversation...''"

definition MAX_CONTEXT_ERROR_COMPACTIONS :: nat where
  "MAX_CONTEXT_ERROR_COMPACTIONS = 2"

text \<open>\<open>saturating_sub\<close> of two positive numbers does not saturate; \<open>/\<close> rounds toward zero.\<close>

definition compaction_part :: "i32 option \<Rightarrow> nat \<Rightarrow> f64 \<Rightarrow> string option" where
  "compaction_part counted context_limit threshold =
     (case counted of
        None \<Rightarrow> None
      | Some used \<Rightarrow>
          if sint used \<le> 0 \<or> context_limit = 0 \<or> f64_leq threshold (Finite 0) \<or>
             f64_leq (Finite 1) threshold then None
          else
            (let compaction_at = f64_as_i32 (f64_mul (f64_of_int (int context_limit)) threshold) in
             if compaction_at \<le> 0 \<or>
                f64_less (f64_div (f64_of_int (sint used)) (f64_of_int compaction_at)) (f64_round (1 / 2))
             then None
             else Some (''<compaction>~'' @
                    show_int (clamp_i32 (compaction_at - sint used) sdiv 1000) @
                    ''k tokens remaining</compaction>'')))"

record compaction_config =
  co_context_limit :: nat
  co_threshold :: f64
  co_manages_own_context :: bool

definition context_tokens ::
  "'x compaction_env \<Rightarrow> session \<Rightarrow> conversation \<Rightarrow> i32 result" where
  "context_tokens C s c =
     (case total_tokens (se_usage s) of Some n \<Rightarrow> Inr n | None \<Rightarrow> count_context_tokens C c)"

text \<open>The first message of the turn, as the commands show it.\<close>

definition command_message :: "string \<Rightarrow> conversation \<Rightarrow> message result" where
  "command_message err c =
     result_bind (messages_since_kickoff c) (\<lambda>turn.
       case first_opt turn of Some m \<Rightarrow> Inr m | None \<Rightarrow> Inl err)"

definition command_error ::
  "ext_env \<Rightarrow> conversation \<Rightarrow> string \<Rightarrow> (aibuddy_effect operation_result result, 'x) act" where
  "command_error E c err w =
     (case command_message ''compact command conversation has no kickoff message'' c of
        Inl e \<Rightarrow> (Inl e, w)
      | Inr m \<Rightarrow>
          (case msg_id m of
             None \<Rightarrow> (Inl ''Persisted slash command message has no id'', w)
           | Some i \<Rightarrow>
               (let response = with_visibility True False (with_text E err (message_assistant E));
                    (m', w1) = emit_message (with_visibility True False m) w;
                    (response', w2) = emit_message response w1
                in (yielded_with [ConversationEffect (SetMessageVisibility i True False),
                      append_effect response'], w2))))"

definition clear_command ::
  "ext_env \<Rightarrow> conversation \<Rightarrow> (aibuddy_effect operation_result result, 'x) act" where
  "clear_command E c w =
     (case command_message ''clear command conversation has no kickoff message'' c of
        Inl e \<Rightarrow> (Inl e, w)
      | Inr m \<Rightarrow>
          (let response = with_visibility True False
                 (with_text E ''Conversation cleared'' (message_assistant E));
               (m', w1) = emit_message (with_visibility True False m) w;
               (response', w2) = emit_message response w1
           in (yielded_with [replace_effect [], append_effect m', append_effect response'], w2)))"

definition compaction_command ::
  "'x compaction_env \<Rightarrow> slash_command \<Rightarrow> session \<Rightarrow> conversation \<Rightarrow>
   (aibuddy_effect operation_result result, 'x) act" where
  "compaction_command C cmd s c w =
     (let E = su_ext (ce_summary C) in
      if sc_command cmd = ''clear'' then clear_command E c w
      else if sc_command cmd \<noteq> ''compact'' then (not_applicable, w)
      else
        (case compact_messages C (se_id s) c True w of
           (Inl e, w1) \<Rightarrow> command_error E c e w1
         | (Inr result, w1) \<Rightarrow>
             (case command_message ''compact command conversation has no kickoff message'' c of
                Inl e \<Rightarrow> (Inl e, w1)
              | Inr m \<Rightarrow>
                  (let response = with_visibility True False
                         (with_text E ''Compaction complete'' (message_assistant E));
                       (m', w2) = emit_message (with_visibility True False m) w1;
                       (response', w3) = emit_message response w2
                   in (yielded_with
                         [ReplaceWithUsage (cp_conversation result) (Some (cp_usage result)),
                          append_effect response'], w3)))))"

definition compaction_moim ::
  "'x compaction_env \<Rightarrow> compaction_config \<Rightarrow> session \<Rightarrow> conversation \<Rightarrow> (string list result, 'x) act" where
  "compaction_moim C F s c w =
     (if co_manages_own_context F then (Inr [], w)
      else (result_bind (context_tokens C s c) (\<lambda>n.
              Inr (case compaction_part (Some n) (co_context_limit F) (co_threshold F) of
                     None \<Rightarrow> [] | Some p \<Rightarrow> [p])), w))"

text \<open>Whether to compact: after a context error a few times a turn, else when over the threshold.\<close>

definition context_error_count :: "message list \<Rightarrow> nat" where
  "context_error_count turn =
     length (filter (\<lambda>m. error_kind m = Some KContextLengthExceeded \<and> \<not> is_agent_visible m) turn)"

definition reactive_context_error :: "conversation \<Rightarrow> bool" where
  "reactive_context_error c \<longleftrightarrow> trailing_error c = Some KContextLengthExceeded"

definition wants_compaction ::
  "'x compaction_env \<Rightarrow> compaction_config \<Rightarrow> session \<Rightarrow> conversation \<Rightarrow> message list \<Rightarrow> bool result" where
  "wants_compaction C F s c turn =
     (if reactive_context_error c
      then Inr (context_error_count turn \<le> MAX_CONTEXT_ERROR_COMPACTIONS)
      else
        result_bind (last_effective_role turn) (\<lambda>r.
          if r \<noteq> ERUser then Inr False
          else result_bind (context_tokens C s c) (\<lambda>n.
            Inr (0 < sint n \<and> over_threshold (co_threshold F) (co_context_limit F) (i32_as_usize n)))))"

definition hide_last :: "conversation \<Rightarrow> conversation" where
  "hide_last c = (if c = [] then [] else butlast c @ [hide_from_agent (last c)])"

definition inline_notice :: "ext_env \<Rightarrow> system_notification_type \<Rightarrow> string \<Rightarrow> message" where
  "inline_notice E ty text = with_system_notification ty text (message_assistant E)"

definition threshold_notice :: "ext_env \<Rightarrow> f64 \<Rightarrow> message" where
  "threshold_notice E threshold = inline_notice E InlineMessage
     (''Exceeded auto-compact threshold of '' @
      show_nat (f64_as_u32 (f64_mul threshold (f64_of_int 100))) @
      ''%. Performing auto-compaction...'')"

definition compaction_run ::
  "'x compaction_env \<Rightarrow> compaction_config \<Rightarrow> session \<Rightarrow> conversation \<Rightarrow>
   (aibuddy_effect operation_result result, 'x) act" where
  "compaction_run C F s c w =
     (let E = su_ext (ce_summary C) in
      if co_manages_own_context F then (not_applicable, w)
      else
        (case messages_since_kickoff c of
           Inl e \<Rightarrow> (Inl e, w)
         | Inr turn \<Rightarrow>
             (case wants_compaction C F s c turn of
                Inl e \<Rightarrow> (Inl e, w)
              | Inr False \<Rightarrow> (not_applicable, w)
              | Inr True \<Rightarrow>
                  (let c' = (if reactive_context_error c then hide_last c else c);
                       (n1, w1) = emit_message (threshold_notice E (co_threshold F)) w;
                       (n2, w2) = emit_message
                         (inline_notice E ThinkingMessage COMPACTION_THINKING_TEXT) w1
                   in case compact_messages C (se_id s) c' False w2 of
                        (Inr result, w3) \<Rightarrow>
                          (let (n3, w4) = emit_message
                                 (inline_notice E InlineMessage ''Compaction complete'') w3
                           in (applied [ReplaceWithUsage (cp_conversation result)
                                 (Some (cp_usage result))], w4))
                      | (Inl e, w3) \<Rightarrow>
                          (let (n3, w4) = emit_message
                                 (with_text E (''Ran into this error trying to compact: '' @ e @ ''.'' @
                                    newline @ newline @ ''Please try again or create a new session'')
                                    (message_assistant E)) w3
                           in (yielded, w4))))))"

definition compaction_operation ::
  "'x compaction_env \<Rightarrow> compaction_config \<Rightarrow> 'x agent_operation" where
  "compaction_operation C F = (operation_default ''compaction'')
     \<lparr>op_run := compaction_run C F, op_command := compaction_command C,
      op_moim_parts := compaction_moim C F\<rparr>"

subsection \<open>Tool pair compaction\<close>

definition message_pair :: "conversation \<Rightarrow> string \<Rightarrow> message list" where
  "message_pair c i = filter (\<lambda>m. msg_id m \<noteq> None \<and> mentions_tool i m) c"

definition answers_its_own_calls :: "message list \<Rightarrow> bool" where
  "answers_its_own_calls pair \<longleftrightarrow>
     \<Union> (get_tool_request_ids ` set pair) = \<Union> (get_tool_response_ids ` set pair)"

definition hide_effect :: "message \<Rightarrow> aibuddy_effect option" where
  "hide_effect m =
     map_option (\<lambda>i. ConversationEffect (SetMessageVisibility i (is_user_visible m) False)) (msg_id m)"

text \<open>One round of the loop: the effects so far and the messages that are already hidden.\<close>

fun summarize_pairs ::
  "'x compaction_env \<Rightarrow> string \<Rightarrow> conversation \<Rightarrow> string set \<Rightarrow> string list \<Rightarrow>
   (aibuddy_effect list, 'x) act" where
  "summarize_pairs C sid c hidden [] w = ([], w)"
| "summarize_pairs C sid c hidden (i # later) w =
     (let pair = message_pair c i in
      if length pair \<noteq> 2 \<or>
         list_ex (\<lambda>m. is_some_and (msg_id m) (\<lambda>j. j \<in> hidden)) pair \<or>
         \<not> answers_its_own_calls pair
      then summarize_pairs C sid c hidden later w
      else
        (case summarize_tool_call C sid c i w of
           (Inl e, w1) \<Rightarrow> summarize_pairs C sid c hidden later w1
         | (Inr summary, w1) \<Rightarrow>
             (let (effs, w2) = summarize_pairs C sid c (hidden \<union> set (filter_map msg_id pair)) later w1
              in (filter_map hide_effect pair @ append_effect summary # effs, w2))))"

definition protected_requests :: "message list \<Rightarrow> nat" where
  "protected_requests turn = length (filter is_tool_request_block (concat (map msg_content turn)))"

definition tool_pair_run ::
  "'x compaction_env \<Rightarrow> nat \<Rightarrow> bool \<Rightarrow> session \<Rightarrow> conversation \<Rightarrow>
   (aibuddy_effect operation_result result, 'x) act" where
  "tool_pair_run C cutoff enabled s c w =
     (if \<not> enabled then (not_applicable, w)
      else
        (case messages_since_kickoff c of
           Inl e \<Rightarrow> (Inl e, w)
         | Inr turn \<Rightarrow>
             (let ids' = tool_ids_to_summarize c cutoff (protected_requests turn) in
              if ids' = [] then (not_applicable, w)
              else
                (let (effs, w1) = summarize_pairs C (se_id s) c {} ids' w
                 in (if effs = [] then not_applicable else applied effs, w1)))))"

definition tool_pair_operation :: "'x compaction_env \<Rightarrow> nat \<Rightarrow> bool \<Rightarrow> 'x agent_operation" where
  "tool_pair_operation C cutoff enabled =
     (operation_default ''tool_pair_compaction'')\<lparr>op_run := tool_pair_run C cutoff enabled\<rparr>"

end
