(* ===== verification/Agent_Machine.thy ===== *)
theory Agent_Machine
  imports Tool_Execution Retry Inference Compaction_Operations
begin

text \<open>
  \<open>Agent::create_state_machine\<close> (\<open>agents/agent.rs\<close>): the operations of the desktop agent in
  the order in which a step asks them.  The entry hook and the slash commands come first, the
  inference last; the commands of all operations, and of the status operation, are offered to
  the slash-command operation.  The operations that are not modelled are parameters.
\<close>

record 'y agent_config =
  ag_hook_env :: "('y agent_x) hook_env"
  ag_hooks :: hook_manager
  ag_max_turns :: u32
  ag_stop_hook_block_cap :: u32
  ag_manages_own_context :: bool
  ag_retry_timeout :: nat
  ag_on_failure_timeout :: nat
  ag_retry_env :: "('y agent_x) retry_env"
  ag_exec_env :: "('y agent_x) exec_env"
  ag_inspectors :: "('y agent_world_ext) inspector list"
  ag_print_error :: "error_data \<Rightarrow> string"
  ag_compaction_env :: "('y agent_x) compaction_env"
  ag_context_limit :: nat
  ag_compaction_threshold :: "f64 option"
  ag_tool_call_cutoff :: "nat option"
  ag_tool_pair_summarization :: bool
  ag_doctor :: "('y agent_x) agent_operation"
  ag_project :: "('y agent_x) agent_operation"
  ag_skills :: "('y agent_x) agent_operation"
  ag_recipe :: "('y agent_x) agent_operation"
  ag_status :: "('y agent_x) agent_operation"

definition DEFAULT_MAX_TURNS :: u32 where "DEFAULT_MAX_TURNS = 1000"
definition DEFAULT_STOP_HOOK_BLOCK_CAP :: u32 where "DEFAULT_STOP_HOOK_BLOCK_CAP = 8"

text \<open>The configured values, or what \<open>create_state_machine\<close> takes instead.\<close>

definition agent_threshold :: "'y agent_config \<Rightarrow> f64" where
  "agent_threshold A = unwrap_or (ag_compaction_threshold A) DEFAULT_COMPACTION_THRESHOLD"

definition agent_cutoff :: "'y agent_config \<Rightarrow> nat" where
  "agent_cutoff A =
     (case ag_tool_call_cutoff A of
        Some n \<Rightarrow> n
      | None \<Rightarrow> compute_tool_call_cutoff (ag_context_limit A) (agent_threshold A))"

definition agent_compaction :: "'y agent_config \<Rightarrow> ('y agent_x) agent_operation" where
  "agent_compaction A =
     compaction_operation (ag_compaction_env A)
       \<lparr>co_context_limit = ag_context_limit A, co_threshold = agent_threshold A,
        co_manages_own_context = ag_manages_own_context A\<rparr>"

definition agent_pair_compaction :: "'y agent_config \<Rightarrow> ('y agent_x) agent_operation" where
  "agent_pair_compaction A =
     tool_pair_operation (ag_compaction_env A) (agent_cutoff A)
       (ag_tool_pair_summarization A \<and> \<not> ag_manages_own_context A)"

definition agent_operations ::
  "ext_env \<Rightarrow> 'y agent_config \<Rightarrow> ('y agent_x) agent_operation list" where
  "agent_operations E A =
     [steer_operation (ag_hook_env A) (ag_hooks A), max_turns_operation E (ag_max_turns A),
      bang_shell_operation E] @
     (if ag_manages_own_context A then [] else [agent_compaction A]) @
     [agent_pair_compaction A,
      tool_approval_operation E (ag_print_error A) (ag_inspectors A),
      ag_doctor A, ag_project A, ag_skills A, ag_recipe A,
      tool_execution_operation E (ag_exec_env A) (ag_hook_env A) (ag_hooks A) (ag_print_error A),
      unknown_tool_operation E (ag_hook_env A) (ag_hooks A) (ag_print_error A),
      retry_operation E (ag_retry_env A) (ag_retry_timeout A) (ag_on_failure_timeout A),
      stop_hook_operation E (ag_hook_env A) (ag_hooks A) (ag_stop_hook_block_cap A),
      exit_on_error_operation]"

definition agent_effects :: "aibuddy_effect inference_effect" where
  "agent_effects = \<lparr>ie_message = append_effect, ie_usage = RecordUsage\<rparr>"

definition agent_steps ::
  "ext_env \<Rightarrow> 'y agent_config \<Rightarrow> (session, 'y agent_x) inference_runner \<Rightarrow>
   (session, aibuddy_effect, 'y agent_x) machine_step list" where
  "agent_steps E A R =
     map OpStep ([entry_hook_operation (ag_hook_env A) (ag_hooks A),
                  slash_command_operation (agent_operations E A @ [ag_status A])] @
                 agent_operations E A) @
     [InferenceStep (inference_step E agent_effects R) inference_applies (infer E agent_effects R)]"

definition create_state_machine ::
  "ext_env \<Rightarrow> 'y agent_config \<Rightarrow> (session, 'y agent_x) inference_runner \<Rightarrow>
   (session, aibuddy_effect, 'y agent_x) machine" where
  "create_state_machine E A R = session_machine (agent_steps E A R)"

end
