(* ===== verification/Compaction_Laws.thy ===== *)
theory Compaction_Laws
  imports Compaction_Operations Machine_Props
begin

text \<open>
  The contract of an operation (locale \<open>operation_laws\<close>) for the two that compact: provided the
  completions they ask for only move the world forward, so do they.
\<close>

definition lawful_completion :: "'x compaction_env \<Rightarrow> bool" where
  "lawful_completion C \<longleftrightarrow> (\<forall>sid system ms w. advances w (snd (ce_complete C sid system ms w)))"

lemma advances_summarize_attempts:
  "(\<And>system ms w. advances w (snd (answer system ms w))) \<Longrightarrow>
   advances w (snd (summarize_attempts S answer T tp ms percents w))"
proof (induction percents arbitrary: w)
  case (Cons percent later)
  show ?case
  proof (cases "summary_prompt S tp ms percent")
    case (Inr system)
    obtain r w1 where r: "answer system (summary_request S) w = (r, w1)" by fastforce
    have step: "advances w w1" using Cons.prems [of w system "summary_request S"] r by simp
    have rest: "advances w (snd (summarize_attempts S answer T tp ms later w1))"
      by (rule advances_trans [OF step Cons.IH [OF Cons.prems]])
    show ?thesis
      by (cases r) (auto simp: Inr r step rest split: provider_error.split)
  qed simp
qed simp

lemma advances_compact_messages:
  assumes "lawful_completion C"
  shows "advances w (snd (compact_messages C sid c manual w))"
proof -
  have "advances w (snd (do_compact C sid c w))"
    using assms
    by (auto simp: do_compact_def summarize_def Let_def lawful_completion_def
        intro!: advances_summarize_attempts split: sum.split)
  then show ?thesis
    by (cases "do_compact C sid c w") (auto simp: compact_messages_def Let_def split: sum.split)
qed

lemma advances_summarize_tool_call:
  assumes "lawful_completion C"
  shows "advances w (snd (summarize_tool_call C sid c i w))"
proof -
  have ask: "advances w (snd (ce_complete C sid system ms w))" for system ms
    using assms by (simp add: lawful_completion_def)
  have named: "advances w (snd (fresh_uuid (snd (ce_complete C sid system ms w))))" for system ms
    by (rule advances_trans [OF ask advances_fresh_uuid])
  show ?thesis
    by (simp add: summarize_tool_call_def Let_def case_prod_beta ask named split: sum.split)
qed

lemma advances_summarize_pairs:
  "lawful_completion C \<Longrightarrow> advances w (snd (summarize_pairs C sid c hidden rs w))"
proof (induction rs arbitrary: hidden w)
  case (Cons i rs)
  obtain r w1 where r: "summarize_tool_call C sid c i w = (r, w1)" by fastforce
  have "advances w w1" using advances_summarize_tool_call [OF Cons.prems, of w sid c i] r by simp
  from advances_trans [OF this Cons.IH [OF Cons.prems]] Cons.IH [OF Cons.prems] show ?case
    by (auto simp: Let_def case_prod_beta r split: sum.split)
qed simp

lemma tool_pair_laws: "lawful_completion C \<Longrightarrow> operation_laws (tool_pair_operation C cutoff enabled)"
  by unfold_locales
    (simp_all add: tool_pair_operation_def operation_default_def tool_pair_run_def Let_def
      case_prod_beta advances_summarize_pairs split: sum.split)

lemma advances_two_messages: "advances w (snd (emit_message m' (snd (emit_message m w))))"
  by (rule advances_trans [OF advances_emit_message advances_emit_message])

lemma advances_compaction_command:
  assumes "lawful_completion C"
  shows "advances w (snd (compaction_command C cmd s c w))"
proof -
  obtain r w1 where r: "compact_messages C (se_id s) c True w = (r, w1)" by fastforce
  have step: "advances w w1" using advances_compact_messages [OF assms, of w "se_id s" c True] r by simp
  have more: "advances w (snd (emit_message m' (snd (emit_message m w1))))" for m m'
    by (rule advances_trans [OF step advances_two_messages])
  show ?thesis
    by (simp add: compaction_command_def clear_command_def command_error_def Let_def case_prod_beta
        r step more advances_two_messages split: sum.split option.split)
qed

lemma advances_compaction_run:
  assumes "lawful_completion C"
  shows "advances w (snd (compaction_run C F s c w))"
proof -
  have started: "advances w (snd (compact_messages C sid c' manual (snd (emit_message m' (snd (emit_message m w))))))"
    for sid c' manual m m'
    by (rule advances_trans [OF advances_two_messages advances_compact_messages [OF assms]])
  have told: "advances w (snd (emit_message m'' (snd (compact_messages C sid c' manual
      (snd (emit_message m' (snd (emit_message m w))))))))" for sid c' manual m m' m''
    by (rule advances_trans [OF started advances_emit_message])
  show ?thesis
    by (simp add: compaction_run_def Let_def case_prod_beta told split: sum.split bool.split)
qed

lemma compaction_laws: "lawful_completion C \<Longrightarrow> operation_laws (compaction_operation C F)"
  by unfold_locales
    (simp_all add: compaction_operation_def operation_default_def compaction_moim_def
      advances_compaction_command advances_compaction_run)

end
