(* ===== verification/Agent_Laws.thy ===== *)
theory Agent_Laws
  imports Agent_Machine Turn_Props Tool_Approval_Props Compaction_Laws
begin

text \<open>
  The contract of an operation (locale \<open>operation_laws\<close>) for the operations of the desktop
  agent: provided the processes, extensions and inspectors it calls only move the world
  forward, so does every operation, and so does the machine composed of them.
\<close>

subsection \<open>Hooks\<close>

definition lawful_hooks :: "'x hook_env \<Rightarrow> bool" where
  "lawful_hooks H \<longleftrightarrow> (\<forall>c root path payload t w. advances w (snd (he_exec H c root path payload t w)))"

lemma advances_run_action:
  "lawful_hooks H \<Longrightarrow> advances w (snd (run_action H M rule action payload w))"
  by (simp add: lawful_hooks_def run_action_def run_command_hook_def case_prod_beta
      split: option.split prod.split)

lemma advances_run_all: "lawful_hooks H \<Longrightarrow> advances w (run_all H M payload matched w)"
proof (induction matched arbitrary: w)
  case (Cons ra matched)
  obtain rule action where "ra = (rule, action)" by (cases ra)
  with advances_trans [OF advances_run_action [OF Cons.prems] Cons.IH [OF Cons.prems]]
  show ?case by simp
qed simp

lemma advances_emit_hook: "lawful_hooks H \<Longrightarrow> advances w (emit_hook H M ev ctx w)"
  by (simp add: emit_hook_def emit_serialized_def advances_run_all split: option.split)

lemma advances_run_chain:
  "lawful_hooks H \<Longrightarrow> advances w (snd (run_chain H M ev payload matched evaluated failed w))"
  by (simp add: run_chain_world advances_run_all)

lemma advances_emit_blocking_with_outcome:
  "lawful_hooks H \<Longrightarrow> advances w (snd (emit_blocking_with_outcome H M ev ctx w))"
  by (simp add: emit_blocking_with_outcome_def advances_run_chain Let_def split: option.split)

lemma advances_emit_blocking: "lawful_hooks H \<Longrightarrow> advances w (snd (emit_blocking H M ev ctx w))"
  by (simp add: emit_blocking_def advances_emit_blocking_with_outcome)

lemma advances_emit_policy_result:
  "lawful_hooks H \<Longrightarrow> advances w (emit_policy_result H M s i name inp out w)"
  by (simp add: emit_policy_result_def emit_pre_tool_use_result_def emit_serialized_def
      advances_run_all split: option.split)

lemma advances_run_pre_tool_hooks:
  assumes "lawful_hooks H"
  shows "advances w (snd (run_pre_tool_hooks H M s i name inp w))"
  using advances_trans [OF advances_emit_blocking_with_outcome [OF assms]
      advances_emit_policy_result [OF assms]] advances_emit_policy_result [OF assms]
  by (simp add: run_pre_tool_hooks_def Let_def case_prod_beta split: option.split)

lemma advances_emit_with_matcher:
  "lawful_hooks H \<Longrightarrow> advances w (emit_with_matcher H M ev s matcher name inp w)"
  by (simp add: emit_with_matcher_def advances_emit_hook)

lemma advances_emit_extended_pre_hooks:
  "lawful_hooks H \<Longrightarrow> advances w (emit_extended_pre_hooks H M name inp s w)"
  by (auto simp: emit_extended_pre_hooks_def advances_emit_with_matcher Let_def
      split: tool_category.split option.split)

lemma advances_emit_post_tool_use:
  "lawful_hooks H \<Longrightarrow> advances w (snd (emit_post_tool_use H M sid dir name i inp res w))"
  by (simp add: emit_post_tool_use_def advances_emit_hook Let_def)

lemma advances_post_tool_hooks:
  assumes "lawful_hooks H"
  shows "advances w (snd (post_tool_hooks H shorten M call s i raw w))"
  using advances_emit_post_tool_use [OF assms]
    advances_trans [OF advances_emit_post_tool_use [OF assms] advances_emit_with_matcher [OF assms]]
  by (auto simp: post_tool_hooks_def Let_def case_prod_beta
      split: tool_category.split option.split hook_event.split)

subsection \<open>Operations that begin and end a turn\<close>

interpretation exit_on_error: operation_laws exit_on_error_operation
  by unfold_locales (simp_all add: exit_on_error_operation_def operation_default_def exit_on_error_run_def)

interpretation max_turns: operation_laws "max_turns_operation E n" for E n
  by unfold_locales
    (simp_all add: max_turns_operation_def operation_default_def max_turns_run_def max_turns_moim_def
      Let_def case_prod_beta split: sum.split)

interpretation bang_shell: operation_laws "bang_shell_operation E" for E
proof unfold_locales
  fix s c and w :: "'a world_scheme"
  show "advances w (snd (op_run (bang_shell_operation E) s c w))"
    using advances_trans [OF advances_fresh_uuid [of w] advances_emit_message]
    by (simp add: bang_shell_operation_def bang_shell_run_def Let_def case_prod_beta
        split: sum.split option.split)
qed (simp_all add: bang_shell_operation_def operation_default_def)

text \<open>The rules for an operation that only replaces \<open>run\<close>.\<close>

lemma run_only_laws:
  assumes "\<And>s c w. advances w (snd (f s c w))"
  shows "operation_laws ((operation_default name)\<lparr>op_run := f\<rparr>)"
  by unfold_locales (simp_all add: operation_default_def assms)

lemma entry_hook_laws: "lawful_hooks H \<Longrightarrow> operation_laws (entry_hook_operation H M)"
  unfolding entry_hook_operation_def
  by (rule run_only_laws)
    (auto simp: entry_hook_run_def Let_def advances_emit_hook split: sum.split
      intro: advances_trans [OF advances_emit_hook advances_emit_hook])

lemma advances_submit_steered:
  assumes "lawful_hooks H"
  shows "advances w (snd (submit_steered H M s ms w))"
proof (induction ms arbitrary: w)
  case (Cons m ms)
  show ?case
    by (simp add: Let_def case_prod_beta)
      (rule advances_trans [OF advances_emit_hook [OF assms]
        advances_trans [OF advances_emit_message Cons.IH]])
qed simp

lemma steer_laws: "lawful_hooks H \<Longrightarrow> operation_laws (steer_operation H M)"
  unfolding steer_operation_def
proof (rule run_only_laws)
  fix s c and w :: "'a agent_world_scheme"
  assume H: "lawful_hooks H"
  have "advances w (w\<lparr>aw_queue := []\<rparr>)" by simp
  from advances_trans [OF this advances_submit_steered [OF H]]
  show "advances w (snd (steer_run H M s c w))"
    by (simp add: steer_run_def Let_def case_prod_beta split: sum.split bool.split)
qed

lemma stop_hook_laws: "lawful_hooks H \<Longrightarrow> operation_laws (stop_hook_operation E H M cap)"
  unfolding stop_hook_operation_def
proof (rule run_only_laws)
  fix s c and w :: "'a world_scheme"
  assume H: "lawful_hooks H"
  have block: "advances w (snd (emit_blocking H M ev ctx w))" for ev ctx
    by (rule advances_emit_blocking [OF H])
  from advances_trans [OF block advances_emit_message] block
  show "advances w (snd (stop_hook_run E H M cap s c w))"
    by (auto simp: stop_hook_run_def Let_def case_prod_beta split: sum.split hook_decision.split)
qed

lemma advances_run_commands:
  "\<forall>oper \<in> set opers. operation_laws oper \<Longrightarrow> advances w (snd (run_commands cmd s c opers w))"
proof (induction opers arbitrary: w)
  case (Cons oper opers)
  have "advances w (snd (op_command oper cmd s c w))"
    using Cons.prems by (simp add: operation_laws.command_advances)
  with advances_trans [OF this Cons.IH] Cons.prems show ?case
    by (cases "op_command oper cmd s c w") (auto split: sum.split operation_result.split)
qed simp

lemma slash_command_laws:
  "\<forall>oper \<in> set opers. operation_laws oper \<Longrightarrow> operation_laws (slash_command_operation opers)"
  unfolding slash_command_operation_def
  by (rule run_only_laws)
    (auto simp: slash_command_run_def advances_run_commands split: sum.split list.split option.split)

subsection \<open>Retries\<close>

definition lawful_retry :: "'x retry_env \<Rightarrow> bool" where
  "lawful_retry V \<longleftrightarrow> (\<forall>c t w. advances w (snd (rv_spawn V c t w)))"

lemma advances_execute_shell_command:
  assumes "lawful_retry V"
  shows "advances w (snd (execute_shell_command V c t w))"
proof -
  have "advances w (snd (rv_spawn V c t w))" using assms by (simp add: lawful_retry_def)
  then show ?thesis
    by (cases "rv_spawn V c t w")
      (auto simp: execute_shell_command_def split: option.split sum.split)
qed

lemma advances_success_checks:
  assumes "lawful_retry V"
  shows "advances w (snd (execute_success_checks_with_timeout V checks t w))"
proof (induction checks arbitrary: w)
  case (Cons check checks)
  obtain command where "check = ShellCheck command" by (cases check)
  then show ?case
    by (auto intro!: advances_try_bind advances_execute_shell_command [OF assms] Cons.IH)
qed simp

lemma advances_on_failure:
  assumes "lawful_retry V"
  shows "advances w (snd (execute_on_failure_command_with_timeout V c t w))"
  using advances_execute_shell_command [OF assms, of w c t]
  by (cases "execute_shell_command V c t w")
    (auto simp: execute_on_failure_command_with_timeout_def split: sum.split)

lemma advances_start_over:
  assumes "lawful_retry V"
  shows "advances w (snd (start_over E V t cfg turn c w))"
proof -
  let ?run = "case rc_on_failure cfg of None \<Rightarrow> (Inr (), w)
    | Some command \<Rightarrow> execute_on_failure_command_with_timeout V command
        (unwrap_or (rc_on_failure_timeout_seconds cfg) t) w"
  have run: "advances w (snd ?run)"
    by (simp add: advances_on_failure [OF assms] split: option.split)
  from run advances_trans [OF run advances_emit_message] show ?thesis
    by (simp add: start_over_def Let_def case_prod_beta split: sum.split)
qed

lemma advances_check_success:
  assumes "lawful_retry V"
  shows "advances w (snd (check_success E V t t' s turn c w))"
proof (cases "retry_config_of s")
  case None
  then show ?thesis by (simp add: check_success_def)
next
  case (Some cfg)
  obtain r w1 where checks: "execute_success_checks_with_timeout V (rc_checks cfg)
      (unwrap_or (rc_timeout_seconds cfg) t) w = (r, w1)" by fastforce
  have w1: "advances w w1" using advances_success_checks [OF assms] checks by (metis snd_conv)
  from advances_trans [OF w1 advances_emit_message] advances_trans [OF w1 advances_start_over [OF assms]] w1
  show ?thesis
    by (auto simp: check_success_def Some checks Let_def case_prod_beta split: sum.split bool.split)
qed

lemma advances_retry_run:
  assumes "lawful_retry V"
  shows "advances w (snd (retry_run E V t t' s c w))"
proof -
  have "advances w (w\<lparr>aw_goal := None, aw_grind := None\<rparr>)" by simp
  from advances_trans [OF this advances_check_success [OF assms]] show ?thesis
    by (auto simp: retry_run_def Let_def case_prod_beta split: sum.split option.split)
qed

lemma advances_update_goal: "advances w (update_goal name params w)"
  by (simp add: update_goal_def set_goal_def)

lemma advances_retry_command: "advances w (snd (retry_command E cmd s c w))"
proof -
  have w1: "advances w (update_goal name params w)" for name params
    by (rule advances_update_goal)
  have "advances w (snd (emit_message m' (snd (emit_message m (update_goal name params w)))))" for m m' name params
    by (rule advances_trans [OF advances_trans [OF w1 advances_emit_message] advances_emit_message])
  with w1 show ?thesis
    by (simp add: retry_command_def Let_def case_prod_beta split: sum.split option.split)
qed

lemma retry_laws: "lawful_retry V \<Longrightarrow> operation_laws (retry_operation E V t t')"
  by unfold_locales
    (simp_all add: retry_operation_def operation_default_def advances_retry_run advances_retry_command)

subsection \<open>Tool requests\<close>

lemma advances_refuse_call:
  assumes "lawful_hooks H"
  shows "advances w (snd (refuse_call H M fo s i call w))"
proof -
  obtain r w1 where pre: "run_pre_tool_hooks H M s i (ct_name call) (call_input call) w = (r, w1)"
    by fastforce
  have w1: "advances w w1" using advances_run_pre_tool_hooks [OF assms] pre by (metis snd_conv)
  obtain outp unclaimed where out:
    "(if ct_name call = FINAL_OUTPUT_TOOL_NAME \<and> \<not> fo
      then (Inl (internal_error ''Final output tool not defined''), False)
      else (error_answer (not_available_text (ct_name call)), True)) = (outp, unclaimed)"
    by fastforce
  from advances_trans [OF w1 advances_trans [OF advances_emit_extended_pre_hooks [OF assms]
        advances_emit_post_tool_use [OF assms]]] w1
  show ?thesis
    unfolding refuse_call_def Let_def pre out by (simp add: case_prod_beta split: sum.split)
qed

lemma advances_answer_unknown:
  "lawful_hooks H \<Longrightarrow> advances w (snd (answer_unknown H M pe fo s turn rd w))"
  by (simp add: answer_unknown_def advances_refuse_call case_prod_beta
      split: tool_disposition.split sum.split)

lemma advances_answer_all_unknown:
  assumes "lawful_hooks H"
  shows "advances w (snd (answer_all_unknown E H M pe fo s turn rds m w))"
proof (induction rds arbitrary: m w)
  case (Cons rd rds)
  show ?case
    by (simp add: Let_def case_prod_beta)
      (rule advances_trans [OF advances_answer_unknown [OF assms] Cons.IH])
qed simp

lemma unknown_tool_laws: "lawful_hooks H \<Longrightarrow> operation_laws (unknown_tool_operation E H M pe)"
  unfolding unknown_tool_operation_def
proof (rule run_only_laws)
  fix s c and w :: "'a world_scheme"
  assume H: "lawful_hooks H"
  from advances_trans [OF advances_answer_all_unknown [OF H] advances_emit_message]
  show "advances w (snd (unknown_tool_run E H M pe s c w))"
    by (simp add: unknown_tool_run_def Let_def case_prod_beta split: sum.split)
qed

definition lawful_exec :: "'x exec_env \<Rightarrow> bool" where
  "lawful_exec X \<longleftrightarrow>
     (\<forall>sid w. advances w (snd (ee_tools X sid w))) \<and> (\<forall>sid w. advances w (snd (ee_moim X sid w))) \<and>
     (\<forall>w. advances w (snd (ee_configs X w))) \<and> (\<forall>s i call w. advances w (snd (ee_start X s i call w))) \<and>
     (\<forall>rs w. advances w (snd (ee_deliver X rs w)))"

lemma lawful_execD:
  assumes "lawful_exec X"
  shows "advances w (snd (ee_tools X sid w))" "advances w (snd (ee_moim X sid w))"
    "advances w (snd (ee_configs X w))" "advances w (snd (ee_start X s i call w))"
    "advances w (snd (ee_deliver X rs w))"
  using assms by (simp_all add: lawful_exec_def)

lemma advances_dispatch_tool_call:
  assumes "lawful_hooks H" and "lawful_exec X"
  shows "advances w (snd (dispatch_tool_call X H M s i call w))"
proof -
  obtain r w1 where pre: "run_pre_tool_hooks H M s i (ct_name call) (call_input call) w = (r, w1)"
    by fastforce
  have w1: "advances w w1" using advances_run_pre_tool_hooks [OF assms(1)] pre by (metis snd_conv)
  obtain r' w2 where start: "ee_start X s i call
      (emit_extended_pre_hooks H M (ct_name call) (call_input call) s w1) = (r', w2)" by fastforce
  have "advances w w2"
    using advances_trans [OF w1 advances_trans [OF advances_emit_extended_pre_hooks [OF assms(1)]
        lawful_execD(4) [OF assms(2)]]] start by (metis snd_conv)
  with w1 show ?thesis
    by (simp add: dispatch_tool_call_def pre start split: sum.split)
qed

lemma advances_dispatch_all:
  assumes "lawful_hooks H" and "lawful_exec X"
  shows "advances w (snd (dispatch_all X H M pe s rds w))"
proof (induction rds arbitrary: w)
  case (Cons rd rds)
  obtain r d where rd: "rd = (r, d)" by (cases rd)
  have rest: "advances v (snd (try_bind (dispatch_all X H M pe s rds)
      (\<lambda>rs w2. (Inr (f rs), w2)) v))" for f :: "running_call list \<Rightarrow> running_call list" and v
    by (rule advances_try_bind) (simp_all add: Cons.IH)
  show ?case
    using advances_trans [OF advances_dispatch_tool_call [OF assms] rest]
    by (simp add: rd Cons.IH Let_def case_prod_beta split: sum.split)
qed simp

lemma advances_call_output:
  "lawful_hooks H \<Longrightarrow> advances w (snd (call_output X H M s ru raw w))"
  by (simp add: call_output_def advances_post_tool_hooks split: dispatched.split)

lemma advances_note_platform: "advances w (note_platform i output w)"
  by (simp add: note_platform_def split: sum.split option.split)

lemma advances_deliver_loop:
  assumes "lawful_hooks H"
  shows "advances w (snd (deliver_loop E X H M s requests manage running items dl w))"
proof (induction items arbitrary: dl w)
  case (Cons item items)
  obtain k sig where item: "item = (k, sig)" by (cases item)
  show ?case
  proof (cases sig)
    case (SigActionRequired m)
    show ?thesis
      by (simp add: item SigActionRequired Cons.IH Let_def case_prod_beta)
        (rule impI, rule advances_trans [OF advances_emit_message Cons.IH])
  next
    case (SigMessage n)
    show ?thesis
      by (simp add: item SigMessage Cons.IH Let_def)
        (rule impI, rule advances_trans [OF advances_emit Cons.IH])
  next
    case (SigResult raw)
    show ?thesis
      by (simp add: item SigResult Cons.IH Let_def case_prod_beta)
        (rule impI, rule advances_trans [OF advances_call_output [OF assms]
          advances_trans [OF advances_note_platform Cons.IH]])
  qed
qed simp

lemma advances_finish_calls:
  assumes "lawful_exec X"
  shows "advances w (snd (finish_calls E X s requests manage dl w))"
proof -
  have state: "advances v (snd (extension_changes X s changed v))" for changed and v
    by (auto simp: extension_changes_def extension_state_effect_def
        intro!: advances_try_bind lawful_execD(3) [OF assms])
  have last_event: "advances v (emit ev (snd (fresh_uuid v)))" for ev and v :: "'a world_scheme"
    by (rule advances_trans [OF advances_fresh_uuid advances_emit])
  show ?thesis
    unfolding finish_calls_def Let_def
    by (rule advances_try_bind [OF state]) (simp add: case_prod_beta last_event)
qed

lemma advances_execute_calls:
  assumes "lawful_hooks H" and "lawful_exec X"
  shows "advances w (snd (execute_calls E X H M pe s pending w))"
proof -
  have collect: "advances v (snd (collect_deliveries E X H M s pending manage running v))" for manage running v
    using advances_trans [OF lawful_execD(5) [OF assms(2)] advances_deliver_loop [OF assms(1)]]
    by (simp add: collect_deliveries_def Let_def case_prod_beta)
  show ?thesis
    unfolding execute_calls_def Let_def
    by (rule advances_try_bind [OF advances_dispatch_all [OF assms]])
      (simp add: case_prod_beta advances_trans [OF collect advances_finish_calls [OF assms(2)]])
qed

lemma tool_execution_laws:
  assumes "lawful_hooks H" and "lawful_exec X"
  shows "operation_laws (tool_execution_operation E X H M pe)"
proof unfold_locales
  fix s :: session and c and w :: "'a agent_world_scheme"
  have tools: "advances w (snd (ee_tools X (se_id s) w))" by (rule lawful_execD [OF assms(2)])
  from tools advances_trans [OF tools advances_emit_message]
    advances_trans [OF tools advances_execute_calls [OF assms]]
  show "advances w (snd (op_run (tool_execution_operation E X H M pe) s c w))"
    by (simp add: tool_execution_operation_def tool_execution_run_def Let_def case_prod_beta
        split: sum.split)
qed (simp_all add: tool_execution_operation_def operation_default_def tool_execution_tools_def
    tool_execution_moim_def Let_def case_prod_beta lawful_execD [OF assms(2)])

subsection \<open>Approvals\<close>

definition lawful_inspector :: "'y inspector \<Rightarrow> bool" where
  "lawful_inspector ins \<longleftrightarrow>
     (case ins of
        PermissionInspector None \<Rightarrow> True
      | PermissionInspector (Some judge) \<Rightarrow> (\<forall>rs w. advances w (snd (judge rs w)))
      | OtherInspector oi \<Rightarrow> (\<forall>rs ms mode w. advances w (snd (oi_inspect oi rs ms mode w))))"

lemma advances_permissions [simp]: "advances w (w'\<lparr>pw_permissions := p\<rparr>) \<longleftrightarrow> advances w w'"
  by (simp add: advances_def)

lemma advances_detect:
  assumes "\<And>rs w. advances w (snd (judge rs w))"
  shows "advances w (snd (detect_read_only_requests judge rs w))"
  using assms [of w rs] by (cases "judge rs w") (auto simp: detect_read_only_requests_def split: option.split)

lemma advances_permission_inspect:
  "lawful_inspector (PermissionInspector provider) \<Longrightarrow>
   advances w (snd (permission_inspect provider rs mode w))"
  by (simp add: permission_inspect_def lawful_inspector_def advances_detect Let_def case_prod_beta
      split: option.split option.splits)

lemma advances_inspect_tools:
  "list_all lawful_inspector inss \<Longrightarrow> advances w (snd (inspect_tools inss rs ms mode w))"
proof (induction inss arbitrary: w)
  case (Cons ins inss)
  have "advances w (snd (inspector_run ins rs ms mode w))"
    using Cons.prems advances_permission_inspect
    by (cases ins) (auto simp: lawful_inspector_def)
  from advances_trans [OF this Cons.IH] Cons.prems show ?case
    by (simp add: Let_def case_prod_beta)
qed simp

lemma advances_apply_answers: "advances w (snd (apply_answers inss ps w))"
proof (induction ps arbitrary: w)
  case (Cons p ps)
  have "advances w (remember_answer inss p w)"
    by (simp add: remember_answer_def update_permission_manager_def split: option.split)
  from advances_trans [OF this Cons.IH] show ?case by (simp add: Let_def case_prod_beta)
qed simp

lemma tool_approval_laws:
  "list_all lawful_inspector inss \<Longrightarrow> operation_laws (tool_approval_operation E pe inss)"
  unfolding tool_approval_operation_def
proof (rule run_only_laws)
  fix s c and w :: "'a agent_world_scheme"
  assume inss: "list_all lawful_inspector inss"
  have judge: "advances v (snd (judge_pending E pe inss mode c rs v))" for v :: "'a agent_world_scheme" and mode rs
    using advances_inspect_tools [OF inss] by (simp add: judge_pending_def Let_def case_prod_beta)
  have bind: "advances v (snd (try_bind (judge_pending E pe inss mode c rs) (\<lambda>effs w2. (f effs, w2)) v))"
    for mode rs v and f :: "aibuddy_effect list \<Rightarrow> aibuddy_effect operation_result result"
    by (rule advances_try_bind [OF judge]) simp
  have "advances w (snd (try_bind (judge_pending E pe inss mode c rs) (\<lambda>effs w2. (f effs, w2))
      (snd (apply_answers inss ps w))))" for mode rs ps and f :: "aibuddy_effect list \<Rightarrow> aibuddy_effect operation_result result"
    by (rule advances_trans [OF advances_apply_answers bind])
  then show "advances w (snd (tool_approval_run E pe inss s c w))"
    by (simp add: tool_approval_run_def Let_def case_prod_beta split: sum.split)
qed

subsection \<open>Inference\<close>

definition lawful_runner :: "('s, 'x) inference_runner \<Rightarrow> bool" where
  "lawful_runner R \<longleftrightarrow>
     (\<forall>s c input w. advances w (snd (ir_prepare R s c input w))) \<and>
     (\<forall>p ms ts w. advances w (snd (pv_stream (ir_provider R) p ms ts w))) \<and>
     (\<forall>sid w. advances w (snd (pv_resume (ir_provider R) sid w))) \<and>
     (\<forall>m w. advances w (snd (pv_resolved_model (ir_provider R) m w))) \<and>
     (\<forall>w. advances w (snd (pv_session_id (ir_provider R) w)))"

lemma lawful_runnerD:
  assumes "lawful_runner R"
  shows "advances w (snd (ir_prepare R s c input w))"
    "advances w (snd (pv_stream (ir_provider R) p ms ts w))"
    "advances w (snd (pv_resume (ir_provider R) sid w))"
    "advances w (snd (pv_resolved_model (ir_provider R) m w))"
    "advances w (snd (pv_session_id (ir_provider R) w))"
  using assms by (simp_all add: lawful_runner_def)

lemma advances_absorb_chunk: "advances w (snd (absorb_chunk im st chunk w))"
  by (simp add: absorb_chunk_def Let_def case_prod_beta)

lemma advances_stream_loop: "advances w (snd (stream_loop im items st w))"
proof (induction items arbitrary: st w)
  case Nil
  show ?case by (subst stream_loop.simps) (simp add: Let_def case_prod_beta)
next
  case (Cons item items)
  have look: "advances w (snd (stream_loop im items st' (snd (is_cancelled w))))" for st'
    by (rule advances_trans [OF advances_is_cancelled Cons.IH])
  have chunk: "advances w (snd (stream_loop im items st''
      (snd (absorb_chunk im st' m (snd (is_cancelled w))))))" for st' st'' m
    by (rule advances_trans [OF advances_trans [OF advances_is_cancelled advances_absorb_chunk] Cons.IH])
  show ?case
    by (subst stream_loop.simps)
      (simp add: Let_def case_prod_beta look chunk split: sum.split option.split)
qed

lemma advances_error_outcome: "advances w (snd (error_outcome E F err w))"
  by (simp add: error_outcome_def Let_def case_prod_beta)

lemma advances_finish_stream: "advances w (snd (finish_stream E F turn effs ended st w))"
proof -
  have two: "advances w (snd (emit_message m (snd (is_cancelled w))))" for m
    by (rule advances_trans [OF advances_is_cancelled advances_emit_message])
  have both: "advances w (snd (emit_message m' (snd (emit_message m w))))" for m m'
    by (rule advances_trans [OF advances_emit_message advances_emit_message])
  have three: "advances w (snd (emit_message m' (snd (emit_message m (snd (is_cancelled w))))))" for m m'
    by (rule advances_trans [OF two advances_emit_message])
  show ?thesis
    by (cases ended)
      (simp_all add: finish_stream_def Let_def case_prod_beta advances_error_outcome two both three
        split: option.split)
qed

lemma advances_infer:
  assumes "lawful_runner R"
  shows "advances w (snd (infer E F R s c input w))"
proof -
  note R = lawful_runnerD [OF assms]
  have resumed: "advances v (case i of Some sid \<Rightarrow> snd (pv_resume (ir_provider R) sid v) | None \<Rightarrow> v)"
    for i and v by (simp add: R split: option.split)
  have streamed: "advances v (snd (finish_stream E F turn effs ended st
      (snd (stream_loop im items st' (snd (pv_session_id (ir_provider R)
        (snd (pv_resolved_model (ir_provider R) m v))))))))" for turn effs ended st im items st' m and v
    by (rule advances_trans [OF advances_trans [OF advances_trans [OF R(4) R(5)] advances_stream_loop]
          advances_finish_stream])
  have sent: "advances v (snd (pv_stream (ir_provider R) p ms ts
      (case i of Some sid \<Rightarrow> snd (pv_resume (ir_provider R) sid v) | None \<Rightarrow> v)))" for p ms ts i and v
    by (rule advances_trans [OF resumed R(2)])
  show ?thesis
    by (auto simp: infer_def Let_def case_prod_beta split: sum.split
        intro!: advances_try_bind R(1) advances_trans [OF sent advances_error_outcome]
          advances_trans [OF sent streamed])
qed

lemma advances_inference_cancel: "advances w (snd (inference_cancel E F s c r w))"
  by (simp add: inference_cancel_def Let_def case_prod_beta
      split: operation_result.split sum.split option.split)

lemma inference_laws: "operation_laws (inference_step E F R)"
  by unfold_locales
    (simp_all add: inference_step_def operation_default_def advances_inference_cancel)

subsection \<open>The agent's machine\<close>

definition lawful_agent :: "'y agent_config \<Rightarrow> bool" where
  "lawful_agent A \<longleftrightarrow>
     lawful_hooks (ag_hook_env A) \<and> lawful_retry (ag_retry_env A) \<and> lawful_exec (ag_exec_env A) \<and>
     list_all lawful_inspector (ag_inspectors A) \<and>
     lawful_completion (ag_compaction_env A) \<and>
     list_all operation_laws [ag_doctor A, ag_project A, ag_skills A, ag_recipe A, ag_status A]"

lemma agent_operations_laws:
  "lawful_agent A \<Longrightarrow> list_all operation_laws (agent_operations E A)"
  by (simp add: agent_operations_def lawful_agent_def agent_compaction_def agent_pair_compaction_def
      compaction_laws tool_pair_laws steer_laws max_turns.operation_laws_axioms
      bang_shell.operation_laws_axioms tool_approval_laws tool_execution_laws unknown_tool_laws
      retry_laws stop_hook_laws exit_on_error.operation_laws_axioms)

lemma agent_machine_laws:
  assumes "lawful_agent A" and "lawful_runner R"
  shows "machine_laws (create_state_machine E A R)"
proof unfold_locales
  have ops: "list_all operation_laws (agent_operations E A)"
    by (rule agent_operations_laws [OF assms(1)])
  have "operation_laws (entry_hook_operation (ag_hook_env A) (ag_hooks A))"
    "operation_laws (ag_status A)"
    using assms(1) by (simp_all add: lawful_agent_def entry_hook_laws)
  moreover from this ops have "operation_laws (slash_command_operation (agent_operations E A @ [ag_status A]))"
    by (intro slash_command_laws) (auto simp: list_all_iff)
  ultimately have "list_all lawful_step (agent_steps E A R)"
    using ops by (auto simp: agent_steps_def lawful_step_def list_all_iff inference_laws
        advances_infer [OF assms(2)])
  then show "lawful_machine (create_state_machine E A R)"
    by (simp add: lawful_machine_def create_state_machine_def session_machine_def)
qed

end
