(* ===== verification/Summary_Props.thy ===== *)
theory Summary_Props
  imports Summary
begin

text \<open>
  What is shown of the structured summary: it survives being written out and read back,
  normalizing is idempotent, and the document it is read from is a whole object that sits right
  after a marker of the answer.
\<close>

subsection \<open>Round trip\<close>

lemma stringify_strs [simp]: "lenient_string_list J (strs_json ss) = ss"
  by (simp add: strs_json_def lenient_string_list_def comp_def)

lemma lenient_opt_json [simp]: "lenient_string_opt J (opt_json s) = s"
  by (cases s) (simp_all add: opt_json_def lenient_string_opt_def)

lemma file_item_to_json [simp]: "file_item J (file_to_json f) = Some f"
  by (simp add: file_item_def file_to_json_def file_from_object_def field_or_def)

lemma lenient_files_to_json [simp]: "lenient_file_list J (JArr (map file_to_json fs)) = fs"
  by (induction fs) (simp_all add: lenient_file_list_def)

text \<open>
  C20: A summary that is written out for the template and read back is the same summary, unknown
  fields included, provided these are none of the known ones.
\<close>

theorem summary_roundtrip:
  assumes "set (map fst (ss_extra s)) \<inter> set summary_fields = {}"
  shows "summary_from_json J (summary_to_json s) = Some s"
proof -
  have extra: "filter (\<lambda>(k, v). k \<notin> set summary_fields) (ss_extra s) = ss_extra s"
    using assms by (force simp: filter_id_conv)
  have "filter (\<lambda>(k, v). k \<notin> set summary_fields) (case summary_to_json s of JObj m \<Rightarrow> m) = ss_extra s"
    using extra by (simp add: summary_to_json_def summary_fields_def)
  then show ?thesis
    by (simp add: summary_from_json_def summary_to_json_def field_or_def)
qed

definition noted_summary :: structured_summary where
  "noted_summary = \<lparr>ss_user_intent = [''fix''], ss_technical_concepts = [],
     ss_files = [\<lparr>fa_path = ''a.rs'', fa_summary = ''read'', fa_key_code = None\<rparr>],
     ss_errors_and_fixes = [], ss_problem_solving = [], ss_user_messages = [],
     ss_pending_tasks = [], ss_current_work = Some ''tests'', ss_next_step = None,
     ss_extra = [(''mood'', JInt 3)]\<rparr>"

lemma summary_roundtrip_witness:
  "summary_from_json tiny_json (summary_to_json noted_summary) = Some noted_summary"
  by (rule summary_roundtrip) (simp add: noted_summary_def summary_fields_def)

subsection \<open>The leading object\<close>

text \<open>
  The scanner of \<open>leading_object\<close> as a state: the depth of braces, and whether it is inside a
  string and after a backslash there.
\<close>

type_synonym brace_state = "nat \<times> bool \<times> bool"

fun brace_step :: "brace_state \<Rightarrow> char \<Rightarrow> brace_state" where
  "brace_step (d, True, e) c =
     (if e then (d, True, False) else if c = BACKSLASH then (d, True, True) else (d, c \<noteq> QUOTE, False))"
| "brace_step (d, False, e) c =
     (if c = QUOTE then (d, True, e) else if c = CHR ''{'' then (d + 1, False, e)
      else if c = CHR ''}'' then (d - 1, False, e) else (d, False, e))"

definition braces :: "brace_state \<Rightarrow> string \<Rightarrow> nat" where
  "braces st s = fst (foldl brace_step st s)"

definition whole_object :: "brace_state \<Rightarrow> string \<Rightarrow> bool" where
  "whole_object st s \<longleftrightarrow> braces st s = 0 \<and> (\<forall>p. strict_prefix p s \<longrightarrow> p \<noteq> [] \<longrightarrow> braces st p \<noteq> 0)"

lemma braces_Cons [simp]: "braces st (c # s) = braces (brace_step st c) s"
  by (simp add: braces_def)

lemma braces_Nil [simp]: "braces st [] = fst st"
  by (simp add: braces_def)

lemma whole_object_Cons:
  assumes "fst (brace_step st c) \<noteq> 0"
  shows "whole_object st (c # s) \<longleftrightarrow> s \<noteq> [] \<and> whole_object (brace_step st c) s"
proof -
  have "(\<forall>p. strict_prefix p (c # s) \<longrightarrow> p \<noteq> [] \<longrightarrow> braces st p \<noteq> 0) \<longleftrightarrow>
      s = [] \<or> (\<forall>p. strict_prefix p s \<longrightarrow> p \<noteq> [] \<longrightarrow> braces (brace_step st c) p \<noteq> 0)"
  proof (intro iffI allI impI)
    assume h: "\<forall>p. strict_prefix p (c # s) \<longrightarrow> p \<noteq> [] \<longrightarrow> braces st p \<noteq> 0"
    show "s = [] \<or> (\<forall>p. strict_prefix p s \<longrightarrow> p \<noteq> [] \<longrightarrow> braces (brace_step st c) p \<noteq> 0)"
      using h [rule_format, of "c # p" for p] by auto
  next
    fix p
    assume h: "s = [] \<or> (\<forall>p. strict_prefix p s \<longrightarrow> p \<noteq> [] \<longrightarrow> braces (brace_step st c) p \<noteq> 0)"
      and p: "strict_prefix p (c # s)" "p \<noteq> []"
    then obtain q where q: "p = c # q" "strict_prefix q s"
      by (cases p) auto
    with h assms show "braces st p \<noteq> 0" by (cases "q = []") auto
  qed
  then show ?thesis by (cases s) (auto simp: whole_object_def assms)
qed

lemma object_end_step:
  assumes "0 < d"
  shows "object_end d i e (c # s) =
    (let (d', i', e') = brace_step (d, i, e) c
     in if d' = 0 then Some [c] else map_option (Cons c) (object_end d' i' e' s))"
proof (cases i)
  case True
  then show ?thesis using assms by simp
next
  case False
  then show ?thesis using assms by simp
qed

declare object_end.simps(2) [simp del] brace_step.simps [simp del]

lemma object_end_iff:
  "0 < d \<Longrightarrow> object_end d i e s = Some c \<longleftrightarrow> c \<noteq> [] \<and> prefix c s \<and> whole_object (d, i, e) c"
proof (induction s arbitrary: d i e c)
  case (Cons a s)
  obtain d' i' e' where st: "brace_step (d, i, e) a = (d', i', e')" by (cases "brace_step (d, i, e) a")
  show ?case
  proof (cases "d' = 0")
    case True
    have "whole_object (d, i, e) (a # c') \<longleftrightarrow> c' = []" for c'
    proof
      assume w: "whole_object (d, i, e) (a # c')"
      show "c' = []"
      proof (rule ccontr)
        assume "c' \<noteq> []"
        then have "strict_prefix [a] (a # c')" by (simp add: strict_prefix_def)
        with w have "braces (d, i, e) [a] \<noteq> 0" unfolding whole_object_def by blast
        with st True show False by simp
      qed
    next
      assume "c' = []"
      with st True show "whole_object (d, i, e) (a # c')"
        by (auto simp: whole_object_def prefix_Cons strict_prefix_def)
    qed
    then have whole: "whole_object (d, i, e) (a # c') \<longleftrightarrow> c' = []" for c' .
    have "object_end d i e (a # s) = Some [a]"
      using True st Cons.prems by (simp add: object_end_step)
    moreover have "c \<noteq> [] \<and> prefix c (a # s) \<and> whole_object (d, i, e) c \<longleftrightarrow> c = [a]"
    proof (cases c)
      case (Cons b c')
      with whole [of c'] show ?thesis by (cases "b = a") (simp_all, auto)
    qed simp
    ultimately show ?thesis by (simp only: option.inject) blast
  next
    case False
    then have "whole_object (d, i, e) (a # c') \<longleftrightarrow> c' \<noteq> [] \<and> whole_object (d', i', e') c'" for c'
      using st by (simp add: whole_object_Cons)
    then have whole: "whole_object (d, i, e) (a # c') \<longleftrightarrow> c' \<noteq> [] \<and> whole_object (d', i', e') c'" for c' .
    have "object_end d i e (a # s) = map_option (Cons a) (object_end d' i' e' s)"
      using False st Cons.prems by (simp add: object_end_step)
    moreover have "c \<noteq> [] \<and> prefix c (a # s) \<and> whole_object (d, i, e) c \<longleftrightarrow>
        (\<exists>c'. c = a # c' \<and> c' \<noteq> [] \<and> prefix c' s \<and> whole_object (d', i', e') c')"
    proof (cases c)
      case (Cons b c')
      with whole [of c'] show ?thesis by (cases "b = a") (simp_all, auto)
    qed simp
    moreover have "map_option (Cons a) r = Some c \<longleftrightarrow> (\<exists>c'. c = a # c' \<and> r = Some c')" for r
      by (cases r) auto
    ultimately show ?thesis using Cons.IH [of d' i' e'] False by (simp, blast)
  qed
qed simp

lemma open_brace: "CHR ''{'' \<noteq> QUOTE"
  by (simp add: QUOTE_def byte_def char_of_def)

lemma leading_object_Some:
  "leading_object text = Some c \<longleftrightarrow>
   prefix c (trim_start text) \<and> starts_with c ''{'' \<and> whole_object (0, False, False) c"
proof (cases "starts_with (trim_start text) ''{''")
  case False
  then show ?thesis by (auto simp: leading_object_def starts_with_iff Let_def intro: prefix_order.trans)
next
  case True
  then obtain t where t: "trim_start text = CHR ''{'' # t"
    by (auto simp: starts_with_iff prefix_def)
  have whole: "whole_object (0, False, False) (CHR ''{'' # c') \<longleftrightarrow> c' \<noteq> [] \<and> whole_object (1, False, False) c'" for c'
    using whole_object_Cons [of "(0, False, False)" "CHR ''{''"] by (simp add: open_brace brace_step.simps)
  have "leading_object text = map_option (Cons CHR ''{'') (object_end 1 False False t)"
    by (simp add: leading_object_def t starts_with_iff open_brace object_end.simps)
  then show ?thesis using whole object_end_iff [of 1 False False t]
    by (cases c) (auto simp: starts_with_iff t)
qed

subsection \<open>Where the summary comes from\<close>

lemma tails_after_iff: "p \<noteq> [] \<Longrightarrow> t \<in> set (tails_after p s) \<Longrightarrow> \<exists>pre. s = pre @ p @ t"
proof (induction p s rule: tails_after.induct)
  case (1 p s)
  show ?case
  proof (cases "strip_prefix p s")
    case (Some r)
    then have s: "s = p @ r" by (simp add: strip_prefix_Some_iff)
    with 1(4) Some \<open>p \<noteq> []\<close> have "t = r \<or> t \<in> set (tails_after p r)"
      by (subst (asm) tails_after.simps) simp
    then show ?thesis using 1(2) [OF \<open>p \<noteq> []\<close> Some] \<open>p \<noteq> []\<close> s by (metis append.left_neutral append_assoc)
  next
    case None
    with 1(4) \<open>p \<noteq> []\<close> obtain a u where s: "s = a # u" and t: "t \<in> set (tails_after p u)"
      by (subst (asm) tails_after.simps) (auto split: list.splits)
    from 1(1) [OF \<open>p \<noteq> []\<close> None s \<open>p \<noteq> []\<close> t] s show ?thesis by (metis append_Cons)
  qed
qed

text \<open>
  A document of the answer: at its start, after a terminator, or after a fence of the answer that
  follows the start or a terminator.
\<close>

definition document_at :: "string \<Rightarrow> string \<Rightarrow> bool" where
  "document_at t c \<longleftrightarrow> leading_object t = Some c \<or>
     (\<exists>pre u. t = pre @ ''```json'' @ u \<and> leading_object u = Some c)"

definition terminators :: "string \<Rightarrow> nat" where
  "terminators s = length (tails_after TERMINATOR s)"

lemma tail_candidates_document:
  assumes "c \<in> set (tail_candidates t)"
  shows "document_at t c \<and> terminators c = terminators t"
  using assms tails_after_iff [where p = "''```json''"]
  by (force simp: tail_candidates_def document_at_def fenced_json_blocks_def set_filter_map
      terminators_def split: option.splits)

lemma json_candidates_document:
  assumes "c \<in> set (json_candidates answer)"
  shows "leading_object answer = Some c \<or>
    (\<exists>t. (t = answer \<and> terminators answer = 0 \<or> (\<exists>pre. answer = pre @ TERMINATOR @ t)) \<and>
      document_at t c \<and> terminators c = terminators t)"
proof -
  define tails where "tails = (if tails_after TERMINATOR answer = [] then [answer] else tails_after TERMINATOR answer)"
  have tails: "t = answer \<and> terminators answer = 0 \<or> (\<exists>pre. answer = pre @ TERMINATOR @ t)" if "t \<in> set tails" for t
    using that tails_after_iff [of TERMINATOR t answer]
    by (auto simp: tails_def terminators_def TERMINATOR_def split: if_splits)
  from assms consider "leading_object answer = Some c"
    | t where "t \<in> set tails" "c \<in> set (tail_candidates t)"
    by (auto simp: json_candidates_def Let_def tails_def split: option.splits if_splits)
  then show ?thesis
    by cases (simp, use tails tail_candidates_document in blast)
qed

lemma nonblank_idem [simp]: "nonblank (nonblank s) = nonblank s"
  by (simp add: nonblank_def)

lemma summary_normalize_idem [simp]: "summary_normalize (summary_normalize s) = summary_normalize s"
proof -
  have "map normalize_file (filter file_has_content (map normalize_file fs)) =
      filter file_has_content (map normalize_file fs)" for fs
    by (induction fs) (auto simp: normalize_file_def)
  then show ?thesis by (simp add: summary_normalize_def Let_def)
qed

text \<open>
  C21: A structured summary always says something, and it was read from one document of the
  answer: a whole object, its closing brace the first that matches, which sits at the very
  start of the answer, or after a terminator or a fence that follows one; and a document after
  a terminator holds every later terminator inside itself, so that an example in the discarded
  analysis never becomes the summary.
\<close>

theorem summary_parse_anchored:
  assumes "summary_parse J answer = Some s"
  shows "\<not> summary_is_empty s \<and> summary_normalize s = s \<and>
    (\<exists>c. parse_candidate J c = Some s \<and> starts_with c ''{'' \<and> whole_object (0, False, False) c \<and>
      (leading_object answer = Some c \<or>
       (\<exists>t. (t = answer \<and> terminators answer = 0 \<or> (\<exists>pre. answer = pre @ TERMINATOR @ t)) \<and>
         document_at t c \<and> terminators c = terminators t)))"
proof -
  from assms obtain c where c: "c \<in> set (json_candidates answer)" "parse_candidate J c = Some s"
    unfolding summary_parse_def by (blast dest: find_map_SomeD)
  have "\<not> summary_is_empty s \<and> summary_normalize s = s"
    using c(2) by (auto simp: parse_candidate_def bind_eq_Some_conv Let_def split: if_splits)
  moreover have "starts_with c ''{'' \<and> whole_object (0, False, False) c"
    using json_candidates_document [OF c(1)] by (auto simp: document_at_def leading_object_Some)
  ultimately show ?thesis using c json_candidates_document [OF c(1)] by blast
qed

text \<open>A parser of one document, and an answer that holds it after its analysis.\<close>

definition one_doc_json :: json_env where
  "one_doc_json = tiny_json
     \<lparr>je_parse := (\<lambda>s. if s = ''{x}'' then Some (JObj [(''next_step'', JStr ''go'')]) else None)\<rparr>"

definition one_doc_summary :: structured_summary where
  "one_doc_summary = \<lparr>ss_user_intent = [], ss_technical_concepts = [], ss_files = [],
     ss_errors_and_fixes = [], ss_problem_solving = [], ss_user_messages = [],
     ss_pending_tasks = [], ss_current_work = None, ss_next_step = Some ''go'', ss_extra = []\<rparr>"

lemma one_doc_leading: "leading_object ''{x}'' = Some ''{x}''"
proof -
  have "trim_start ''{x}'' = ''{x}''"
    unfolding trim_start_def using whitespace_not_visible
    by (subst trim_with_visible) (auto simp: list_all_iff visible_ascii_def)
  moreover have "object_end 0 False False ''{x}'' = Some ''{x}''" by code_simp
  ultimately show ?thesis by (simp add: leading_object_def starts_with_iff)
qed

lemma one_doc_tails: "tails_after TERMINATOR ''{x}'' = []" "tails_after ''```json'' ''{x}'' = []"
  by code_simp+

lemma one_doc_parsed: "summary_parse one_doc_json ''{x}'' = Some one_doc_summary"
proof -
  have "json_candidates ''{x}'' = [''{x}'']"
    by (simp add: json_candidates_def one_doc_tails tail_candidates_def fenced_json_blocks_def
        one_doc_leading)
  moreover have "\<not> blank ''go''" by (simp add: blank_def trim_visible visible_ascii_def)
  ultimately show ?thesis
    by (simp add: summary_parse_def parse_candidate_def safely_parse_json_def one_doc_json_def
        summary_from_json_def field_or_def lenient_string_opt_def summary_normalize_def
        nonblank_def is_some_and_def summary_is_empty_def one_doc_summary_def summary_fields_def)
qed

lemma summary_parse_anchored_witness:
  "\<not> summary_is_empty one_doc_summary \<and> summary_normalize one_doc_summary = one_doc_summary \<and>
    (\<exists>c. parse_candidate one_doc_json c = Some one_doc_summary \<and> starts_with c ''{'' \<and>
      whole_object (0, False, False) c \<and>
      (leading_object ''{x}'' = Some c \<or>
       (\<exists>t. (t = ''{x}'' \<and> terminators ''{x}'' = 0 \<or> (\<exists>pre. ''{x}'' = pre @ TERMINATOR @ t)) \<and>
         document_at t c \<and> terminators c = terminators t)))"
  by (rule summary_parse_anchored [OF one_doc_parsed])

end
