(* ===== verification/Summarize_Props.thy ===== *)
theory Summarize_Props
  imports Summarize Summary_Props
begin

text \<open>
  Which tool responses a summary leaves out, how often the model is asked, and that the
  compacting provider asks at most twice.
\<close>

subsection \<open>Leaving tool responses out\<close>

text \<open>The positions that are left out form a window around the middle of the tool responses.\<close>

definition removal_window :: "nat \<Rightarrow> nat \<Rightarrow> nat set" where
  "removal_window n k = {n div 2 - (k + 1) div 2 ..< min n (n div 2 + k div 2)}"

definition removal_places :: "nat \<Rightarrow> nat \<Rightarrow> nat set" where
  "removal_places n i =
     (if even i then (if i div 2 < n div 2 then {n div 2 - i div 2 - 1} else {})
      else (if n div 2 + i div 2 < n then {n div 2 + i div 2} else {}))"

lemma set_removal_at: "set (removal_at ts i) = (!) ts ` removal_places (length ts) i"
proof -
  have "length ts div 2 + i div 2 < length ts" if "i div 2 < length ts div 2"
    using that by presburger
  then show ?thesis
    by (simp add: removal_at_def removal_places_def Let_def even_iff_mod_2_eq_zero)
qed

lemma removal_places_window: "(\<Union>i < k. removal_places n i) = removal_window n k"
proof (intro set_eqI iffI)
  fix j
  assume "j \<in> removal_window n k"
  then have j: "n div 2 - (k + 1) div 2 \<le> j" "j < n" "j < n div 2 + k div 2"
    by (auto simp: removal_window_def)
  show "j \<in> (\<Union>i < k. removal_places n i)"
  proof (cases "j < n div 2")
    case True
    moreover have "2 * ((k + 1) div 2) \<le> k + 1" by simp
    ultimately have "2 * (n div 2 - 1 - j) < k" using j by linarith
    moreover have "j \<in> removal_places n (2 * (n div 2 - 1 - j))"
      using True by (simp add: removal_places_def)
    ultimately show ?thesis by blast
  next
    case False
    moreover have "2 * (k div 2) \<le> k" by simp
    ultimately have "2 * (j - n div 2) + 1 < k" using j by linarith
    moreover have "j \<in> removal_places n (2 * (j - n div 2) + 1)"
      using False j by (simp add: removal_places_def)
    ultimately show ?thesis by blast
  qed
next
  fix j
  assume "j \<in> (\<Union>i < k. removal_places n i)"
  then obtain i where i: "i < k" "j \<in> removal_places n i" by blast
  have "n div 2 - (k + 1) div 2 \<le> j \<and> j < n \<and> j < n div 2 + k div 2"
  proof (cases "even i")
    case True
    with i have "i div 2 < n div 2" "j = n div 2 - i div 2 - 1"
      by (auto simp: removal_places_def split: if_splits)
    moreover have "2 * (i div 2) = i" "k < 2 * ((k + 1) div 2) + 1" using True by simp_all
    ultimately show ?thesis using i(1) by linarith
  next
    case False
    with i have "n div 2 + i div 2 < n" "j = n div 2 + i div 2"
      by (auto simp: removal_places_def split: if_splits)
    moreover have "i div 2 < k div 2" using False i(1) by (auto elim!: oddE)
    ultimately show ?thesis by linarith
  qed
  then show "j \<in> removal_window n k" by (auto simp: removal_window_def)
qed

lemma set_indices_to_remove:
  "set (indices_to_remove ts k) = (!) ts ` removal_window (length ts) k"
  by (simp add: indices_to_remove_def set_removal_at atLeast0LessThan removal_places_window
      image_UN [symmetric])

lemma kept_by_index:
  "map snd (filter (\<lambda>(i, m). P i) (enumerate 0 ms)) = map ((!) ms) (filter P [0..<length ms])"
proof -
  have "enumerate 0 ms = map (\<lambda>i. (i, ms ! i)) [0..<length ms]"
    by (rule nth_equalityI) (simp_all add: nth_enumerate_eq)
  then show ?thesis by (simp add: filter_map comp_def)
qed

lemma filter_by_index: "filter P ms = map ((!) ms) (filter (\<lambda>i. P (ms ! i)) [0..<length ms])"
proof -
  have "filter P ms = filter P (map ((!) ms) [0..<length ms])" by (simp add: map_nth)
  then show ?thesis by (simp add: filter_map comp_def)
qed

lemma tool_indices_length: "length (tool_indices ms) = length (filter has_tool_response ms)"
  by (simp add: tool_indices_def filter_by_index [of has_tool_response])

lemma set_tool_indices: "set (tool_indices ms) = {i. i < length ms \<and> has_tool_response (ms ! i)}"
  by (auto simp: tool_indices_def)

lemma tool_indices_sorted [simp]: "sorted (tool_indices ms)" "distinct (tool_indices ms)"
  by (simp_all add: tool_indices_def sorted_filter [of "\<lambda>i. i", simplified])

lemma filter_tool_responses_kept:
  assumes "percent \<noteq> 0" and "tool_indices ms \<noteq> []"
  shows "filter_tool_responses ms percent = map ((!) ms)
    (filter (\<lambda>i. i \<notin> (!) (tool_indices ms) `
        removal_window (length (tool_indices ms)) (num_to_remove (tool_indices ms) percent))
      [0..<length ms])"
  using assms by (simp add: filter_tool_responses_def Let_def kept_by_index set_indices_to_remove)

text \<open>
  At the last attempt, meant to remove all tool responses, exactly one survives when their
  number is odd, the last one; all other messages are kept, in order.
\<close>

theorem filter_tool_responses_all:
  "filter_tool_responses ms 100 =
     (case suffix_from_last has_tool_response ms of
        Some (m # post) \<Rightarrow>
          if odd (length (filter has_tool_response ms))
          then filter (\<lambda>m. \<not> has_tool_response m) (take (length ms - length (m # post)) ms) @ m # post
          else filter (\<lambda>m. \<not> has_tool_response m) ms
      | _ \<Rightarrow> ms)"
proof (cases "suffix_from_last has_tool_response ms")
  case None
  then have "\<forall>m \<in> set ms. \<not> has_tool_response m" by (simp add: suffix_from_last_None_iff)
  then have "tool_indices ms = []" by (simp add: tool_indices_def filter_empty_conv)
  with None show ?thesis by (simp add: filter_tool_responses_def)
next
  case (Some s)
  then obtain pre m post where ms: "ms = pre @ m # post" and s: "s = m # post"
    and m: "has_tool_response m" and post: "\<forall>x \<in> set post. \<not> has_tool_response x"
    using suffix_from_last_SomeD [OF Some] by blast
  define ts where "ts = tool_indices ms"
  define n where "n = length ts"
  let ?l = "length pre"
  have n: "n = length (filter has_tool_response ms)" by (simp add: n_def ts_def tool_indices_length)
  have len: "length ms = ?l + Suc (length post)" by (simp add: ms)
  have ts: "ts = tool_indices pre @ [?l]"
  proof -
    have "[0..<length ms] = [0..<?l] @ ?l # [Suc ?l..<length ms]"
      unfolding len using upt_add_eq_append [of 0 ?l "Suc (length post)"] upt_rec [of ?l "?l + Suc (length post)"]
      by simp
    moreover have "filter (\<lambda>i. has_tool_response (ms ! i)) [0..<?l] = tool_indices pre"
      unfolding tool_indices_def by (rule filter_cong) (simp_all add: ms nth_append)
    moreover have "filter (\<lambda>i. has_tool_response (ms ! i)) [Suc ?l..<length ms] = []"
      using post by (auto simp: filter_empty_conv ms nth_append nth_Cons split: nat.split)
    moreover have "has_tool_response (ms ! ?l)" using m by (simp add: ms)
    ultimately show ?thesis by (simp add: ts_def tool_indices_def)
  qed
  have "num_to_remove ts 100 = n" using ts by (simp add: num_to_remove_def n_def)
  moreover have "removal_window n n = {..< 2 * (n div 2)}"
    by (auto simp: removal_window_def)
  moreover have ne: "tool_indices ms \<noteq> []" using ts by (simp add: ts_def)
  ultimately have kept: "filter_tool_responses ms 100 = map ((!) ms)
      (filter (\<lambda>i. i \<notin> (!) ts ` {..< 2 * (n div 2)}) [0..<length ms])"
    using filter_tool_responses_kept [of 100 ms] by (simp add: ts_def n_def)
  have set_nth: "(!) xs ` {..< length xs} = set xs" for xs :: "nat list"
    by (auto simp: set_conv_nth)
  show ?thesis
  proof (cases "even n")
    case True
    then have "(!) ts ` {..< 2 * (n div 2)} = set ts" using set_nth [of ts] by (simp add: n_def)
    then have "filter_tool_responses ms 100 = filter (\<lambda>m. \<not> has_tool_response m) ms"
      unfolding kept filter_by_index [of "\<lambda>m. \<not> has_tool_response m"] ts_def set_tool_indices
      by (intro arg_cong [where f = "map ((!) ms)"] filter_cong) auto
    with True Some s n show ?thesis by simp
  next
    case False
    have "2 * (n div 2) = length (tool_indices pre)" using False ts by (simp add: n_def)
    then have "(!) ts ` {..< 2 * (n div 2)} = set (tool_indices pre)"
      using set_nth [of "tool_indices pre"]
        image_cong [of "{..< 2 * (n div 2)}" _ "(!) ts" "(!) (tool_indices pre)"]
      by (simp add: ts nth_append)
    then have "filter_tool_responses ms 100 = map ((!) ms)
        (filter (\<lambda>i. i \<notin> set (tool_indices pre)) [0..<length ms])"
      using kept by simp
    also have "\<dots> = map ((!) ms) (filter (\<lambda>i. \<not> has_tool_response (ms ! i)) [0..<?l]) @
        map ((!) ms) [?l..<length ms]"
    proof -
      have "[0..<length ms] = [0..<?l] @ [?l..<length ms]"
        unfolding len by (rule upt_add_eq_append) simp
      moreover have "filter (\<lambda>i. i \<notin> set (tool_indices pre)) [0..<?l] =
          filter (\<lambda>i. \<not> has_tool_response (ms ! i)) [0..<?l]"
        by (rule filter_cong) (simp_all add: set_tool_indices ms nth_append)
      moreover have "filter (\<lambda>i. i \<notin> set (tool_indices pre)) [?l..<length ms] = [?l..<length ms]"
        by (simp add: filter_id_conv set_tool_indices)
      ultimately show ?thesis by simp
    qed
    also have "map ((!) ms) (filter (\<lambda>i. \<not> has_tool_response (ms ! i)) [0..<?l]) =
        filter (\<lambda>m. \<not> has_tool_response m) pre"
      unfolding filter_by_index [of _ pre] by (rule map_cong [OF filter_cong]) (auto simp: ms nth_append)
    also have "map ((!) ms) [?l..<length ms] = drop ?l (map ((!) ms) [0..<length ms])"
      by (simp only: drop_map drop_upt add_0)
    also have "\<dots> = m # post" by (simp only: map_nth) (simp add: ms)
    finally show ?thesis using False Some s n by (simp add: ms)
  qed
qed

subsection \<open>How often the model is asked\<close>

text \<open>
  A count of questions: each call of the model adds at most one to it.
\<close>

definition counts_questions :: "('x world_scheme \<Rightarrow> nat) \<Rightarrow> 'x compaction_model \<Rightarrow> bool" where
  "counts_questions asked complete \<longleftrightarrow>
     (\<forall>system request w. asked (snd (complete system request w)) \<le> Suc (asked w))"

lemma summarize_attempts_asks:
  assumes "counts_questions asked complete"
  shows "asked (snd (summarize_attempts S complete T tp ms percents w)) \<le>
    asked w + (if list_ex has_tool_response ms then length percents else 1)"
proof (induction percents arbitrary: w)
  case (Cons percent later)
  show ?case
  proof (cases "summary_prompt S tp ms percent")
    case (Inr system)
    obtain r w1 where c: "complete system (summary_request S) w = (r, w1)" by fastforce
    with assms have w1: "asked w1 \<le> Suc (asked w)"
      unfolding counts_questions_def by (metis snd_conv)
    show ?thesis
    proof (cases "r = Inl (ContextLengthExceeded (case r of Inl (ContextLengthExceeded e) \<Rightarrow> e)) \<and>
        list_ex has_tool_response ms \<and> later \<noteq> []")
      case True
      then obtain e where "r = Inl (ContextLengthExceeded e)" by blast
      with True Inr c w1 Cons.IH [of w1] show ?thesis by simp
    next
      case False
      with Inr c w1 show ?thesis
        by (cases r) (auto split: provider_error.split)
    qed
  qed simp
qed simp

lemma summarize_attempts_role:
  "summarize_attempts S complete T tp ms percents w = (Inr (m, pu), w') \<Longrightarrow> msg_role m = User"
proof (induction percents arbitrary: w)
  case (Cons percent later)
  then obtain system where "summary_prompt S tp ms percent = Inr system"
    by (auto split: sum.splits)
  with Cons show ?case
    by (auto simp: accept_summary_def apply_structured_summary_def Let_def
        split: sum.splits prod.splits provider_error.splits if_splits option.splits)
qed simp

text \<open>
  A summary takes at most one question for each of the five percentages, and only one when
  there is no tool response to leave out; what it returns is a message of the user.
\<close>

theorem summarize_asks_bounded:
  assumes "counts_questions asked complete" and "summarize S complete T tp ms w = (r, w')"
  shows "asked w' \<le> asked w + (if list_ex has_tool_response ms then 5 else 1) \<and>
    (case r of Inr (m, pu) \<Rightarrow> msg_role m = User | Inl e \<Rightarrow> True)"
  using summarize_attempts_asks [OF assms(1), of S T tp ms REMOVAL_PERCENTAGES w] assms(2)
    summarize_attempts_role [of S complete T tp ms REMOVAL_PERCENTAGES w]
  by (auto simp: summarize_def REMOVAL_PERCENTAGES_def split: sum.split)

text \<open>A model whose window is always too small, and a template engine that prints nothing.\<close>

definition small_model :: "'x compaction_model" where
  "small_model system request w =
     (Inl (ContextLengthExceeded ''too long''), w\<lparr>w_tick := Suc (w_tick w)\<rparr>)"

definition blank_summary_env :: summary_env where
  "blank_summary_env = \<lparr>su_ext = plain_env, su_json = tiny_json,
     su_engine = (\<lambda>fence template context. Inr []), su_print_error = ed_message\<rparr>"

definition first_world :: world where
  "first_world = \<lparr>w_events = [], w_uuids = (\<lambda>n. ''u'' @ show_nat n), w_next_uuid = 0, w_tick = 0,
     w_cancel_at = None\<rparr>"

definition one_response :: "message list" where
  "one_response = [message_new User 0 [mc_tool_response plain_env ''1'' (Inr (call_result_success []))]]"

lemma summarize_asks_bounded_witness:
  "w_tick (snd (summarize blank_summary_env small_model None \<lparr>tp_compaction = [], tp_summary = []\<rparr>
      one_response first_world)) \<le> w_tick first_world + (if list_ex has_tool_response one_response then 5 else 1)"
  using summarize_asks_bounded [where asked = w_tick and complete = small_model and ms = one_response
      and w = first_world and S = blank_summary_env and T = None
      and tp = "\<lparr>tp_compaction = [], tp_summary = []\<rparr>",
      OF _ surjective_pairing [of "summarize blank_summary_env small_model None
        \<lparr>tp_compaction = [], tp_summary = []\<rparr> one_response first_world"]]
  by (simp add: counts_questions_def small_model_def)

subsection \<open>The compacting provider\<close>

text \<open>One question, the summary's, and one more.\<close>

lemma compacting_provider_asks:
  assumes "\<And>config system ms tools w.
      asked (snd (pr_complete P config system ms tools w)) \<le> Suc (asked w)"
  shows "asked (snd (pr_complete (compacting_provider S tp P) config system ms tools w)) \<le> asked w + 7"
proof -
  have complete: "counts_questions asked (provider_model P config)"
    using assms by (simp add: counts_questions_def provider_model_def)
  obtain r w1 where c: "pr_complete P config system ms tools w = (r, w1)" by fastforce
  obtain r2 w2 where s: "summarize S (provider_model P config) None tp ms w1 = (r2, w2)" by fastforce
  have w1: "asked w1 \<le> Suc (asked w)" using assms c by (metis snd_conv)
  have w2: "asked w2 \<le> asked w1 + 5" 
    using summarize_attempts_asks [OF complete, of S None tp ms REMOVAL_PERCENTAGES w1] s
    by (auto simp: summarize_def REMOVAL_PERCENTAGES_def split: if_splits)
  have w3: "asked (snd (pr_complete P config system ms' tools w2)) \<le> Suc (asked w2)" for ms'
    by (rule assms)
  show ?thesis
  proof (cases "\<exists>e. r = Inl (ContextLengthExceeded e)")
    case True
    then obtain e where "r = Inl (ContextLengthExceeded e)" by blast
    then have r: "r = Inl (ContextLengthExceeded e)" .
    show ?thesis
    proof (cases r2)
      case (Inl e')
      with r c s w1 w2 show ?thesis
        by (simp add: compacting_provider_def retry_compacted_def compacted_messages_def)
    next
      case (Inr mu)
      with r c s w1 w2 w3 [of "[fst mu]"] show ?thesis
        by (simp add: compacting_provider_def retry_compacted_def compacted_messages_def case_prod_beta)
    qed
  next
    case False
    then show ?thesis using c w1
      by (auto simp: compacting_provider_def retry_compacted_def split: sum.split provider_error.split)
  qed
qed

end
