(* ===== verification/Compaction_Props.thy ===== *)
theory Compaction_Props
  imports Compaction_Operations Summarize_Props Session_Effects_Props
begin

text \<open>
  What a compaction leaves of a conversation, how often a turn compacts after the model said the
  context was too long, that the threshold is a threshold, and which messages the tool pair
  operation hides.
\<close>

subsection \<open>The compacted conversation\<close>

lemma hide_from_agent_fields [simp]:
  "msg_id (hide_from_agent m) = msg_id m" "msg_role (hide_from_agent m) = msg_role m"
  "msg_content (hide_from_agent m) = msg_content m" "msg_created (hide_from_agent m) = msg_created m"
  "is_user_visible (hide_from_agent m) = is_user_visible m" "\<not> is_agent_visible (hide_from_agent m)"
  "is_turn_context (hide_from_agent m) = is_turn_context m"
  by (simp_all add: hide_from_agent_def with_metadata_def is_user_visible_def is_agent_visible_def
      is_turn_context_def)

lemma foldl_with_content:
  "foldl (\<lambda>acc b. with_content b acc) m bs = m\<lparr>msg_content := msg_content m @ bs\<rparr>"
  by (induction bs arbitrary: m) (simp_all add: with_content_def)

definition preserved_from :: "ext_env \<Rightarrow> message \<Rightarrow> message" where
  "preserved_from E m =
     (message_user E)\<lparr>msg_content := filter is_text_block (msg_content (agent_visible_content m)),
       msg_metadata := metadata_agent_only\<rparr>"

lemma preserved_copy_Some:
  "preserved_copy E m = Some p \<longleftrightarrow>
   is_agent_visible m \<and> \<not> is_turn_context m \<and> msg_role m = User \<and>
   has_text_only (agent_visible_content m) \<and> p = preserved_from E m"
  by (auto simp: preserved_copy_def Let_def foldl_with_content preserved_from_def with_metadata_def
      message_user_def message_new_def)

lemma find_map_rev_enumerate:
  "find_map (\<lambda>(i, m). map_option (Pair i) (f m)) (rev (enumerate k c)) = Some (i, p) \<Longrightarrow>
   \<exists>pre m post. c = pre @ m # post \<and> i = k + length pre \<and> f m = Some p \<and> (\<forall>x \<in> set post. f x = None)"
proof (induction c arbitrary: k rule: rev_induct)
  case (snoc x c)
  show ?case
  proof (cases "f x")
    case None
    with snoc.prems have "find_map (\<lambda>(i, m). map_option (Pair i) (f m)) (rev (enumerate k c)) = Some (i, p)"
      by (simp add: enumerate_append_eq)
    from snoc.IH [OF this] obtain pre m post where "c = pre @ m # post" "i = k + length pre" "f m = Some p"
      "\<forall>x \<in> set post. f x = None" by blast
    with None show ?thesis by (intro exI [of _ pre] exI [of _ m] exI [of _ "post @ [x]"]) auto
  next
    case (Some q)
    with snoc.prems have "i = k + length c" "q = p" by (simp_all add: enumerate_append_eq)
    with Some show ?thesis by (intro exI [of _ c] exI [of _ x] exI [of _ "[]"]) simp
  qed
qed simp

lemma find_preserved_SomeD:
  assumes "find_preserved E c = Some (i, p)"
  obtains pre m post where "c = pre @ m # post" "i = length pre" "preserved_copy E m = Some p"
    "\<forall>x \<in> set post. preserved_copy E x = None"
  using find_map_rev_enumerate [of "preserved_copy E" 0 c i p] assms
  unfolding find_preserved_def by auto

lemma merge_user_assistant:
  assumes "msg_role s = User" and "msg_role a = Assistant"
  shows "fst (merge_consecutive_messages [s, a]) = [s, a]"
  using assms by (simp add: merge_consecutive_messages_def merge_consecutive_def merge_step_def
      last_opt_def effective_role_def Let_def)

text \<open>What is added behind the hidden originals.\<close>

definition compaction_tail :: "ext_env \<Rightarrow> bool \<Rightarrow> conversation \<Rightarrow> message list \<Rightarrow> bool" where
  "compaction_tail E manual c tail \<longleftrightarrow>
     (case (if manual then None else find_preserved E c) of
        None \<Rightarrow> tail = []
      | Some (i, p) \<Rightarrow> \<exists>carried. tail = p\<lparr>msg_created := now E\<rparr> # carried \<and>
          (carried = [] \<or> (\<exists>t x. x \<in> set (drop (i + 1) c) \<and> is_turn_context x \<and> is_agent_visible x \<and>
             t = x\<lparr>msg_id := None, msg_created := msg_created t\<rparr> \<and> carried = [t])))"

lemma find_map_member: "find_map (\<lambda>m. if P m then Some m else None) ms = Some x \<Longrightarrow> x \<in> set ms \<and> P x"
  by (induction ms) (auto split: if_splits)

lemma carried_contextD:
  assumes "carried_context later final = Some t"
  shows "\<exists>x. x \<in> set later \<and> is_turn_context x \<and> is_agent_visible x \<and>
    t = x\<lparr>msg_id := None, msg_created := msg_created t\<rparr> \<and>
    (\<forall>m \<in> set final. msg_created m \<le> msg_created t)"
proof -
  from assms obtain x where x: "find_map (\<lambda>m. if is_turn_context m \<and> is_agent_visible m then Some m else None)
      (rev later) = Some x"
    and t: "t = x\<lparr>msg_id := None, msg_created := (if final = [] then msg_created x
                         else max (msg_created x) (Max (set (map msg_created final))))\<rparr>"
    unfolding carried_context_def by blast
  have "msg_created m \<le> msg_created t" if "m \<in> set final" for m
    using that by (cases "final = []") (auto simp: t le_max_iff_disj)
  moreover have "t = x\<lparr>msg_id := None, msg_created := msg_created t\<rparr>" by (simp add: t)
  ultimately show ?thesis using find_map_member [OF x] by auto
qed

lemma continuation_fields:
  "msg_role (with_metadata md (with_text E t (message_assistant E))) = Assistant"
  "msg_created (with_metadata md (with_text E t (message_assistant E))) = now E"
  by (simp_all add: with_metadata_def with_text_def with_content_def message_assistant_def message_new_def)

lemma compacted_history_shape:
  assumes "msg_role summary = User"
  shows "\<exists>cont tail. compacted_history E manual c summary =
      map hide_from_agent c @ with_metadata metadata_agent_only summary # cont # tail \<and>
    msg_role cont = Assistant \<and> is_agent_visible cont \<and> \<not> is_user_visible cont \<and>
    compaction_tail E manual c tail"
proof -
  define found where "found = (if manual then None else find_preserved E c)"
  define cont where "cont = with_metadata metadata_agent_only
    (with_text E (continuation_text manual (case found of None \<Rightarrow> False
       | Some (i, m) \<Rightarrow> list_all is_turn_context (drop (i + 1) c))) (message_assistant E))"
  have role: "msg_role cont = Assistant" "msg_created cont = now E"
    by (simp_all add: cont_def continuation_fields)
  have vis: "is_agent_visible cont" "\<not> is_user_visible cont"
    by (simp_all add: cont_def with_metadata_def is_agent_visible_def is_user_visible_def
        metadata_agent_only_def metadata_default_def)
  have merged: "fst (merge_consecutive_messages [with_metadata metadata_agent_only summary,
        with_metadata metadata_agent_only (with_text E t (message_assistant E))]) =
      [with_metadata metadata_agent_only summary,
        with_metadata metadata_agent_only (with_text E t (message_assistant E))]" for t
    using assms by (intro merge_user_assistant continuation_fields) (simp add: with_metadata_def)
  show ?thesis
  proof (cases found)
    case None
    then have "compacted_history E manual c summary =
        map hide_from_agent c @ with_metadata metadata_agent_only summary # cont # []"
      by (simp add: compacted_history_def Let_def found_def [symmetric] cont_def merged)
    moreover have "compaction_tail E manual c []"
      using None by (simp add: compaction_tail_def found_def)
    ultimately show ?thesis using role vis by blast
  next
    case (Some ip)
    obtain i p where ip: "ip = (i, p)" by (cases ip)
    let ?final = "map hide_from_agent c @ [with_metadata metadata_agent_only summary, cont] @ [p\<lparr>msg_created := now E\<rparr>]"
    let ?carried = "case carried_context (drop (i + 1) c) ?final of None \<Rightarrow> [] | Some t \<Rightarrow> [t]"
    have "compacted_history E manual c summary =
        map hide_from_agent c @ with_metadata metadata_agent_only summary # cont # p\<lparr>msg_created := now E\<rparr> # ?carried"
      using Some
      by (simp add: compacted_history_def Let_def found_def [symmetric] cont_def ip merged continuation_fields)
    moreover have "compaction_tail E manual c (p\<lparr>msg_created := now E\<rparr> # ?carried)"
    proof (cases "carried_context (drop (i + 1) c) ?final")
      case None
      then show ?thesis using Some by (simp add: compaction_tail_def found_def [symmetric] ip)
    next
      case (Some t)
      from carried_contextD [OF this] show ?thesis
        using Some \<open>found = Some ip\<close> by (auto simp: compaction_tail_def found_def [symmetric] ip)
    qed
    ultimately show ?thesis using role vis by blast
  qed
qed

lemma preserved_from_visible [simp]:
  "is_agent_visible (preserved_from E m)" "\<not> is_user_visible (preserved_from E m)"
  by (simp_all add: preserved_from_def is_agent_visible_def is_user_visible_def
      metadata_agent_only_def metadata_default_def)

lemma visible_created [simp]:
  "is_agent_visible (m\<lparr>msg_created := t\<rparr>) = is_agent_visible m"
  "is_user_visible (m\<lparr>msg_created := t\<rparr>) = is_user_visible m"
  "is_agent_visible (m\<lparr>msg_id := i\<rparr>) = is_agent_visible m"
  "is_user_visible (m\<lparr>msg_id := i\<rparr>) = is_user_visible m"
  "is_turn_context (m\<lparr>msg_created := t\<rparr>) = is_turn_context m"
  "is_turn_context (m\<lparr>msg_id := i\<rparr>) = is_turn_context m"
  by (simp_all add: is_agent_visible_def is_user_visible_def is_turn_context_def)

lemma compaction_tail_cases:
  assumes "compaction_tail E manual c tail"
  obtains "tail = []"
  | i m carried where "\<not> manual" "find_preserved E c = Some (i, preserved_from E m)" "m \<in> set c"
    "tail = (preserved_from E m)\<lparr>msg_created := now E\<rparr> # carried"
    "length carried \<le> 1"
    "\<forall>t \<in> set carried. is_agent_visible t \<and> is_turn_context t \<and>
       (\<exists>x \<in> set c. is_turn_context x \<and> t = x\<lparr>msg_id := None, msg_created := msg_created t\<rparr>)"
proof (cases "if manual then None else find_preserved E c")
  case None
  with assms that(1) show ?thesis by (simp add: compaction_tail_def)
next
  case (Some ip)
  obtain i p where ip: "ip = (i, p)" by (cases ip)
  have found: "find_preserved E c = Some (i, p)" and manual: "\<not> manual"
    using Some ip by (simp_all split: if_splits)
  obtain pre m post where c: "c = pre @ m # post" "i = length pre" and p: "preserved_copy E m = Some p"
    using find_preserved_SomeD [OF found] by metis
  have pm: "p = preserved_from E m" using p by (simp add: preserved_copy_Some)
  obtain carried where tail: "tail = p\<lparr>msg_created := now E\<rparr> # carried"
    and carried: "carried = [] \<or> (\<exists>t x. x \<in> set (drop (i + 1) c) \<and> is_turn_context x \<and> is_agent_visible x \<and>
       t = x\<lparr>msg_id := None, msg_created := msg_created t\<rparr> \<and> carried = [t])"
    using assms Some unfolding compaction_tail_def ip by auto
  have "\<forall>t \<in> set carried. is_agent_visible t \<and> is_turn_context t \<and>
       (\<exists>x \<in> set c. is_turn_context x \<and> t = x\<lparr>msg_id := None, msg_created := msg_created t\<rparr>)"
  proof
    fix t
    assume "t \<in> set carried"
    with carried obtain x where x: "x \<in> set (drop (i + 1) c)" "is_turn_context x" "is_agent_visible x"
      "t = x\<lparr>msg_id := None, msg_created := msg_created t\<rparr>" by auto
    have "is_agent_visible t" "is_turn_context t" using x by (metis visible_created)+
    moreover have "x \<in> set c" using x(1) by (rule in_set_dropD)
    ultimately show "is_agent_visible t \<and> is_turn_context t \<and>
       (\<exists>x \<in> set c. is_turn_context x \<and> t = x\<lparr>msg_id := None, msg_created := msg_created t\<rparr>)"
      using x by blast
  qed
  moreover have "length carried \<le> 1" using carried by auto
  moreover have "m \<in> set c" by (simp add: c)
  ultimately show ?thesis using that(2) manual found tail pm by blast
qed

lemma compact_messagesD:
  assumes "compact_messages C sid c manual w = (Inr r, w')"
  obtains summary where "msg_role summary = User"
    "cp_conversation r = compacted_history (su_ext (ce_summary C)) manual c summary"
proof -
  obtain q w1 where d: "do_compact C sid c w = (q, w1)" by fastforce
  with assms obtain summary pu where q: "q = Inr (summary, pu)"
    and conv: "cp_conversation r = compacted_history (su_ext (ce_summary C)) manual c summary"
    by (cases q) (auto simp: compact_messages_def Let_def)
  from d q obtain tp where "summarize (ce_summary C) (ce_complete C sid) (Some (counter_estimator C)) tp
      (agent_visible_messages (filter (\<lambda>m. \<not> is_turn_context m) c)) w = (Inr (summary, pu), w1)"
    by (auto simp: do_compact_def Let_def split: sum.splits)
  then have "msg_role summary = User"
    unfolding summarize_def by (rule summarize_attempts_role)
  then show ?thesis using that conv by blast
qed

lemma agent_only_visible [simp]:
  "is_agent_visible (with_metadata metadata_agent_only m)"
  "\<not> is_user_visible (with_metadata metadata_agent_only m)"
  "msg_role (with_metadata md m) = msg_role m"
  by (simp_all add: with_metadata_def is_agent_visible_def is_user_visible_def
      metadata_agent_only_def metadata_default_def)

lemma filter_user_visible_hidden:
  "filter is_user_visible (map hide_from_agent c) = map hide_from_agent (filter is_user_visible c)"
  by (simp add: filter_map comp_def)

lemma filter_agent_visible_hidden: "filter is_agent_visible (map hide_from_agent c) = []"
  by (simp add: filter_empty_conv)


subsection \<open>Compactions after a context error\<close>

lemma is_kickoff_hidden [simp]: "is_kickoff (hide_from_agent m) = is_kickoff m"
  by (simp add: is_kickoff_def is_tool_response_def)

lemma error_kind_hidden [simp]: "error_kind (hide_from_agent m) = error_kind m"
  by (simp add: error_kind_def)

lemma hide_from_agent_idem [simp]: "hide_from_agent (hide_from_agent m) = hide_from_agent m"
  by (simp add: hide_from_agent_def with_metadata_def)

lemma hide_last_hidden: "map hide_from_agent (hide_last c) = map hide_from_agent c"
  by (cases c rule: rev_cases) (simp_all add: hide_last_def)

lemma since_kickoff_hidden:
  "messages_since_kickoff (map hide_from_agent c) = map_sum id (map hide_from_agent) (messages_since_kickoff c)"
  by (simp add: messages_since_kickoff_def suffix_from_last_map split: option.split)

definition quiet_turn_context :: "conversation \<Rightarrow> bool" where
  "quiet_turn_context c \<longleftrightarrow> (\<forall>m \<in> set c. is_turn_context m \<longrightarrow> \<not> is_user_visible m)"

lemma quiet_hide_last: "quiet_turn_context c \<Longrightarrow> quiet_turn_context (hide_last c)"
  by (cases c rule: rev_cases) (auto simp: quiet_turn_context_def hide_last_def)

lemma compacted_additions:
  assumes "compact_messages C sid c manual w = (Inr r, w')" and "quiet_turn_context c"
  shows "\<exists>new. cp_conversation r = map hide_from_agent c @ new \<and>
    (\<forall>m \<in> set new. \<not> is_kickoff m \<and> \<not> is_user_visible m)"
proof -
  let ?E = "su_ext (ce_summary C)"
  obtain summary where summary: "msg_role summary = User"
    and conv: "cp_conversation r = compacted_history ?E manual c summary"
    using compact_messagesD [OF assms(1)] by blast
  from compacted_history_shape [OF summary, of ?E manual c] obtain cont tail
    where shape: "compacted_history ?E manual c summary =
      map hide_from_agent c @ with_metadata metadata_agent_only summary # cont # tail"
    and cont: "\<not> is_user_visible cont"
    and tail: "compaction_tail ?E manual c tail" by blast
  have "\<forall>m \<in> set tail. \<not> is_user_visible m"
    using tail
  proof (cases rule: compaction_tail_cases)
    case (2 i m carried)
    have "\<not> is_user_visible t" if "t \<in> set carried" for t
    proof -
      from 2(6) that obtain x where "x \<in> set c" "is_turn_context x"
        "t = x\<lparr>msg_id := None, msg_created := msg_created t\<rparr>" by blast
      with assms(2) show ?thesis unfolding quiet_turn_context_def by (metis visible_created(2,4))
    qed
    then show ?thesis by (simp add: 2(4))
  qed simp
  then show ?thesis
    using conv shape cont
    by (intro exI [of _ "with_metadata metadata_agent_only summary # cont # tail"])
      (auto simp: is_kickoff_def)
qed

text \<open>
  A turn in which the model says again and again that the context is too long: each time the
  operation applies the conversation becomes the compacted one, and the model adds one more
  error.
\<close>

inductive context_overflow ::
  "'x compaction_env \<Rightarrow> compaction_config \<Rightarrow> session \<Rightarrow> conversation \<Rightarrow> nat \<Rightarrow> bool"
  for C F s where
  start: "quiet_turn_context c \<Longrightarrow> trailing_error c = Some KContextLengthExceeded \<Longrightarrow>
    \<not> is_agent_visible (last c) \<Longrightarrow> context_overflow C F s c 0"
| again: "context_overflow C F s c n \<Longrightarrow>
    compaction_run C F s c w = (Inr (Applied r), w') \<Longrightarrow>
    sr_effects r = [ReplaceWithUsage conv pu] \<Longrightarrow>
    context_overflow C F s
      (conv @ [from_provider_error (su_ext (ce_summary C)) (ContextLengthExceeded e)]) (Suc n)"

lemma context_error_message:
  "error_kind (from_provider_error E (ContextLengthExceeded e)) = Some KContextLengthExceeded"
  "\<not> is_agent_visible (from_provider_error E (ContextLengthExceeded e))"
  "\<not> is_kickoff (from_provider_error E (ContextLengthExceeded e))"
  "\<not> is_turn_context (from_provider_error E (ContextLengthExceeded e))"
  by (simp_all add: from_provider_error_def with_error_def with_metadata_def with_content_def
      error_kind_def message_assistant_def message_new_def mc_error_def is_agent_visible_def
      metadata_user_only_def metadata_default_def is_kickoff_def is_turn_context_def)

lemma context_error_count_hidden:
  "context_error_count turn \<le> context_error_count (map hide_from_agent turn)"
proof -
  have "context_error_count (map hide_from_agent turn) =
      length (filter (\<lambda>m. error_kind m = Some KContextLengthExceeded) turn)"
    by (simp add: context_error_count_def filter_map comp_def)
  also have "\<dots> \<ge> length (filter (\<lambda>m. error_kind m = Some KContextLengthExceeded \<and> \<not> is_agent_visible m) turn)"
    by (induction turn) auto
  finally show ?thesis by (simp add: context_error_count_def)
qed

lemma context_error_count_append [simp]:
  "context_error_count (xs @ ys) = context_error_count xs + context_error_count ys"
  by (simp add: context_error_count_def)

lemma compaction_runD:
  assumes "compaction_run C F s c w = (Inr (Applied r), w')" and "reactive_context_error c"
    and "sr_effects r = [ReplaceWithUsage conv pu]"
  obtains turn result w2 w3 where "messages_since_kickoff c = Inr turn"
    "context_error_count turn \<le> MAX_CONTEXT_ERROR_COMPACTIONS"
    "compact_messages C (se_id s) (hide_last c) False w2 = (Inr result, w3)"
    "conv = cp_conversation result"
proof -
  from assms(1) obtain turn where turn: "messages_since_kickoff c = Inr turn"
    and count: "context_error_count turn \<le> MAX_CONTEXT_ERROR_COMPACTIONS"
    using assms(2)
    by (auto simp: compaction_run_def wants_compaction_def Let_def not_applicable_def
        split: if_splits sum.splits bool.splits)
  define w2 where "w2 = snd (emit_message (inline_notice (su_ext (ce_summary C)) ThinkingMessage COMPACTION_THINKING_TEXT)
    (snd (emit_message (threshold_notice (su_ext (ce_summary C)) (co_threshold F)) w)))"
  obtain q w3 where q: "compact_messages C (se_id s) (hide_last c) False w2 = (q, w3)" by fastforce
  show ?thesis
  proof (cases q)
    case (Inl e)
    with assms turn count q show ?thesis
      by (auto simp: compaction_run_def wants_compaction_def Let_def not_applicable_def case_prod_beta
          w2_def [symmetric] yielded_def split: if_splits)
  next
    case (Inr result)
    with assms turn count q have "conv = cp_conversation result"
      by (auto simp: compaction_run_def wants_compaction_def Let_def not_applicable_def case_prod_beta
          w2_def [symmetric] applied_def split: if_splits)
    with turn count q Inr that show ?thesis by blast
  qed
qed

lemma context_overflow_invariant:
  "context_overflow C F s c n \<Longrightarrow>
   quiet_turn_context c \<and> reactive_context_error c \<and> n \<le> MAX_CONTEXT_ERROR_COMPACTIONS \<and>
   (\<forall>turn. messages_since_kickoff c = Inr turn \<longrightarrow> Suc n \<le> context_error_count turn)"
proof (induction rule: context_overflow.induct)
  case (start c)
  have "Suc 0 \<le> context_error_count turn" if turn: "messages_since_kickoff c = Inr turn" for turn
  proof -
    obtain pre k rest where "c = pre @ turn" "turn = k # rest"
      using messages_since_kickoff_InrD [OF turn] by metis
    then have "last c \<in> set turn" "c \<noteq> []" by auto
    moreover have "error_kind (last c) = Some KContextLengthExceeded"
      using start(2) \<open>c \<noteq> []\<close> by (simp add: trailing_error_def last_opt_def)
    ultimately have "filter (\<lambda>m. error_kind m = Some KContextLengthExceeded \<and> \<not> is_agent_visible m) turn \<noteq> []"
      using start(3) by (auto simp: filter_empty_conv)
    then show ?thesis by (simp add: context_error_count_def Suc_le_eq)
  qed
  with start show ?case by (simp add: reactive_context_error_def)
next
  case (again c n w r w' conv pu e)
  let ?err = "from_provider_error (su_ext (ce_summary C)) (ContextLengthExceeded e)"
  from again.IH have quiet: "quiet_turn_context c" and re: "reactive_context_error c" by simp_all
  obtain turn result w2 w3 where turn: "messages_since_kickoff c = Inr turn"
    and count: "context_error_count turn \<le> MAX_CONTEXT_ERROR_COMPACTIONS"
    and comp: "compact_messages C (se_id s) (hide_last c) False w2 = (Inr result, w3)"
    and conv: "conv = cp_conversation result"
    by (rule compaction_runD [OF again.hyps(2) re again.hyps(3)]) (rule that)
  obtain new where new: "conv = map hide_from_agent c @ new"
    "\<forall>m \<in> set new. \<not> is_kickoff m \<and> \<not> is_user_visible m"
    using compacted_additions [OF comp quiet_hide_last [OF quiet]] conv hide_last_hidden by metis
  have since: "messages_since_kickoff (conv @ [?err]) = Inr (map hide_from_agent turn @ new @ [?err])"
    using messages_since_kickoff_app [of "map hide_from_agent c" "map hide_from_agent turn" "new @ [?err]"]
      since_kickoff_hidden [of c] turn new context_error_message(3) by simp
  have "Suc n \<le> context_error_count turn" using again.IH turn by blast
  moreover have "context_error_count turn \<le> context_error_count (map hide_from_agent turn)"
    by (rule context_error_count_hidden)
  moreover have "context_error_count [?err] = 1"
    using context_error_message by (simp add: context_error_count_def)
  ultimately have bound: "Suc (Suc n) \<le> context_error_count (map hide_from_agent turn @ new @ [?err])"
    and n: "Suc n \<le> MAX_CONTEXT_ERROR_COMPACTIONS" using count by simp_all
  have "quiet_turn_context (conv @ [?err])"
    using quiet new context_error_message(4) by (auto simp: quiet_turn_context_def)
  moreover have "reactive_context_error (conv @ [?err])"
    using context_error_message(1) by (simp add: reactive_context_error_def trailing_error_def last_opt_def)
  ultimately show ?case using since bound n by simp
qed

text \<open>
  C23: A turn in which the model keeps saying that the context is too long is compacted at most
  twice, however little a compaction helps: then the operation lets the error end the turn.
\<close>

theorem context_compactions_bounded:
  assumes "context_overflow C F s c n"
  shows "n \<le> 2 \<and> (n < 2 \<or> (\<forall>w r w' conv pu. compaction_run C F s c w \<noteq> (Inr (Applied r), w') \<or>
    sr_effects r \<noteq> [ReplaceWithUsage conv pu]))"
proof (intro conjI, goal_cases)
  case 1
  show ?case using context_overflow_invariant [OF assms] by (simp add: MAX_CONTEXT_ERROR_COMPACTIONS_def)
next
  case 2
  show ?case
  proof (rule disjCI)
    assume two: "\<not> (\<forall>w r w' conv pu. compaction_run C F s c w \<noteq> (Inr (Applied r), w') \<or>
      sr_effects r \<noteq> [ReplaceWithUsage conv pu])"
    from two obtain w r w' conv pu where "compaction_run C F s c w = (Inr (Applied r), w')"
      "sr_effects r = [ReplaceWithUsage conv pu]" by blast
    from context_overflow_invariant [OF again [OF assms this, of "[]"]] show "n < 2"
      by (simp add: MAX_CONTEXT_ERROR_COMPACTIONS_def)
  qed
qed

text \<open>A model that answers every request with a word, and templates that print nothing.\<close>

definition kind_env :: "'x compaction_env" where
  "kind_env = \<lparr>ce_summary = blank_summary_env,
     ce_complete = (\<lambda>sid system request w.
       (Inr (message_new Assistant 0 [mc_text ''so far''],
             provider_usage_new ''m'' usage_default), w)),
     ce_templates = Inr \<lparr>tp_compaction = [], tp_summary = []\<rparr>,
     ce_counter = Inl ''no tokenizer''\<rparr>"

abbreviation stub_env :: "unit compaction_env" where
  "stub_env \<equiv> kind_env"

definition kind_config :: compaction_config where
  "kind_config = \<lparr>co_context_limit = 1000, co_threshold = DEFAULT_COMPACTION_THRESHOLD,
     co_manages_own_context = False\<rparr>"

lemma kind_env_compacts:
  "\<exists>r. compact_messages kind_env sid c manual w = (Inr r, w)"
  by (simp add: compact_messages_def do_compact_def kind_env_def summarize_def REMOVAL_PERCENTAGES_def
      summary_prompt_def render_def blank_summary_env_def accept_summary_def Let_def case_prod_beta)

definition plea :: message where
  "plea = (message_new User 1 [mc_text ''go on''])\<lparr>msg_id := Some ''k''\<rparr>"


definition overflowed :: conversation where
  "overflowed = [plea, from_provider_error plain_env (ContextLengthExceeded ''too long'')]"

lemma overflowed_turn: "messages_since_kickoff overflowed = Inr overflowed"
  using context_error_message(3) [of plain_env "''too long''"]
  by (simp add: overflowed_def messages_since_kickoff_def plea_def is_kickoff_def
      message_new_def metadata_default_def is_user_visible_def is_tool_response_def mc_text_def)

lemma overflowed_reactive: "trailing_error overflowed = Some KContextLengthExceeded"
  by (simp add: overflowed_def trailing_error_def last_opt_def context_error_message)

lemma overflowed_count: "context_error_count overflowed = 1"
  using context_error_message [of plain_env "''too long''"]
  by (simp add: overflowed_def context_error_count_def plea_def message_new_def error_kind_def
      mc_text_def from_provider_error_def)

lemma context_compactions_bounded_witness:
  "\<exists>c. context_overflow stub_env kind_config idle_session c 1 \<and> (1::nat) \<le> 2 \<and>
    ((1::nat) < 2 \<or> (\<forall>(w::world) r w' conv pu.
      compaction_run stub_env kind_config idle_session c w \<noteq> (Inr (Applied r), w') \<or>
      sr_effects r \<noteq> [ReplaceWithUsage conv pu]))"
proof -
  have c0: "context_overflow stub_env kind_config idle_session overflowed 0"
  proof (rule context_overflow.start)
    show "quiet_turn_context overflowed"
      using context_error_message(4) [of plain_env "''too long''"]
      by (simp add: overflowed_def quiet_turn_context_def plea_def is_turn_context_def message_new_def
          metadata_default_def)
    show "\<not> is_agent_visible (last overflowed)" by (simp add: overflowed_def context_error_message)
  qed (rule overflowed_reactive)
  define notices where "notices = (\<lambda>w::world. snd (emit_message (inline_notice plain_env ThinkingMessage COMPACTION_THINKING_TEXT)
    (snd (emit_message (threshold_notice plain_env DEFAULT_COMPACTION_THRESHOLD) w))))"
  obtain result where "compact_messages stub_env (se_id idle_session) (hide_last overflowed) False
      (notices first_world) = (Inr result, notices first_world)"
    using kind_env_compacts by blast
  then have "\<exists>r w' conv pu. compaction_run stub_env kind_config idle_session overflowed first_world =
      (Inr (Applied r), w') \<and> sr_effects r = [ReplaceWithUsage conv pu]"
    using overflowed_turn overflowed_count overflowed_reactive
    by (simp add: compaction_run_def kind_config_def wants_compaction_def reactive_context_error_def
        MAX_CONTEXT_ERROR_COMPACTIONS_def Let_def case_prod_beta applied_def notices_def
        kind_env_def blank_summary_env_def)
  then obtain r w' conv pu where step: "compaction_run stub_env kind_config idle_session overflowed first_world =
      (Inr (Applied r), w')" "sr_effects r = [ReplaceWithUsage conv pu]" by blast
  from context_overflow.again [OF c0 step, of "[]"]
  have one: "context_overflow stub_env kind_config idle_session
      (conv @ [from_provider_error (su_ext (ce_summary stub_env)) (ContextLengthExceeded [])]) 1" by simp
  from context_compactions_bounded [OF one] one show ?thesis by blast
qed

subsection \<open>The threshold\<close>

text \<open>
  The threshold is one: once a number of tokens calls for a compaction so does every larger
  one, although the comparison is made with rounded quotients; nothing calls for one without
  tokens or with a threshold that is not strictly between nought and one.
\<close>

theorem over_threshold_monotone:
  assumes "over_threshold threshold context_limit n" and "n \<le> n'" and "n' < 2 ^ 64"
    and "context_limit < 2 ^ 64"
  shows "over_threshold threshold context_limit n' \<and> 0 < n \<and>
    f64_less (Finite 0) threshold \<and> f64_less threshold (Finite 1)"
proof -
  have small: "(2 :: int) ^ 64 \<le> 2 ^ 1023" by (rule power_increasing) simp_all
  have fin: "int m < 2 ^ 1023" if "m < 2 ^ 64" for m
  proof -
    have "int m < int (2 ^ 64)" using that by (simp only: of_nat_less_iff)
    also have "\<dots> = 2 ^ 64" by simp
    finally show ?thesis using small by linarith
  qed
  have l1: "int n < 2 ^ 1023" "int n' < 2 ^ 1023" "int context_limit < 2 ^ 1023"
    using fin assms(2,3,4) le_less_trans by blast+
  obtain a where a: "f64_of_int (int n) = Finite a" "0 \<le> a"
    using f64_of_int_finite [of "int n"] l1 by auto
  obtain b where b: "f64_of_int (int n') = Finite b" "0 \<le> b"
    using f64_of_int_finite [of "int n'"] l1 by auto
  obtain l where l: "f64_of_int (int context_limit) = Finite l" "0 \<le> l"
    using f64_of_int_finite [of "int context_limit"] l1 by auto
  have "a \<le> b" using f64_of_int_mono [of "int n" "int n'"] a b assms(2) by simp
  have range: "\<not> f64_leq threshold (Finite 0)" "\<not> f64_leq (Finite 1) threshold"
    and less: "f64_less threshold (f64_div (Finite a) (Finite l))"
    using assms(1) a l by (auto simp: over_threshold_def split: if_splits)
  have thr: "f64_less (Finite 0) threshold" "f64_less threshold (Finite 1)"
    using range less by (cases threshold; auto split: if_splits)+
  have "f64_less threshold (f64_div (Finite b) (Finite l))"
    using f64_div_mono [OF a(2) \<open>a \<le> b\<close> l(2) less] .
  moreover have "0 < n"
  proof (rule ccontr)
    assume "\<not> 0 < n"
    then have "a = 0" using a(1) by (simp add: f64_of_int_def)
    with less thr show False by (cases threshold) (auto split: if_splits)
  qed
  ultimately show ?thesis using range b l thr by (simp add: over_threshold_def)
qed

lemma over_threshold_monotone_witness:
  "over_threshold (Finite (1 / 2)) 1000 3000 \<and> (0::nat) < 2000 \<and> f64_less (Finite 0) (Finite (1 / 2)) \<and>
    f64_less (Finite (1 / 2)) (Finite 1)"
proof -
  have "f64_div (Finite 2000) (Finite 1000) = f64_of_int 2" by (simp add: f64_of_int_def)
  then have "over_threshold (Finite (1 / 2)) 1000 2000"
    by (simp add: over_threshold_def f64_of_int_exact)
  from over_threshold_monotone [OF this, of 3000] show ?thesis by simp
qed

subsection \<open>Pairs of tool calls and results\<close>

definition group_effects :: "message list \<times> message \<Rightarrow> aibuddy_effect list" where
  "group_effects g = filter_map hide_effect (fst g) @ [append_effect (snd g)]"

definition group_ids :: "message list \<times> message \<Rightarrow> string list" where
  "group_ids g = filter_map msg_id (fst g)"

text \<open>A pair of messages that is put away, and the summary in its place.\<close>

definition summarized_group :: "conversation \<Rightarrow> message list \<times> message \<Rightarrow> bool" where
  "summarized_group c g \<longleftrightarrow>
     (\<exists>i \<in> set (agent_visible_request_ids c). fst g = message_pair c i) \<and> length (fst g) = 2 \<and>
     answers_its_own_calls (fst g) \<and> msg_role (snd g) = User \<and>
     is_agent_visible (snd g) \<and> \<not> is_user_visible (snd g)"

lemma summarize_tool_call_summary:
  assumes "summarize_tool_call C sid c i w = (Inr s, w')"
  shows "msg_role s = User \<and> is_agent_visible s \<and> \<not> is_user_visible s"
  using assms
  by (auto simp: summarize_tool_call_def Let_def case_prod_beta with_generated_id_def with_id_def
      is_agent_visible_def is_user_visible_def metadata_agent_only_def metadata_default_def
      split: sum.splits prod.splits)

lemma summarize_pairs_skip:
  assumes "length (message_pair c i) \<noteq> 2 \<or>
      list_ex (\<lambda>m. is_some_and (msg_id m) (\<lambda>j. j \<in> hidden)) (message_pair c i) \<or>
      \<not> answers_its_own_calls (message_pair c i)"
  shows "summarize_pairs C sid c hidden (i # later) w = summarize_pairs C sid c hidden later w"
  using assms by (auto simp: Let_def)

lemma fresh_pair_ids:
  "\<not> list_ex (\<lambda>m. is_some_and (msg_id m) (\<lambda>j. j \<in> hidden)) pair \<Longrightarrow> set (filter_map msg_id pair) \<inter> hidden = {}"
  by (auto simp: list_ex_iff set_filter_map is_some_and_def split: option.splits)

lemma distinct_filter_map_filter: "distinct (filter_map f xs) \<Longrightarrow> distinct (filter_map f (filter P xs))"
  by (induction xs) (auto simp: set_filter_map split: option.splits)

lemma summarize_pairs_groups:
  assumes "summarize_pairs C sid c hidden rs w = (effs, w')" and "distinct (filter_map msg_id c)"
    and "set rs \<subseteq> set (agent_visible_request_ids c)"
  shows "\<exists>gs. effs = concat (map group_effects gs) \<and> length gs \<le> length rs \<and>
    (\<forall>g \<in> set gs. summarized_group c g) \<and> distinct (concat (map group_ids gs)) \<and>
    (\<forall>g \<in> set gs. set (group_ids g) \<inter> hidden = {})"
  using assms(1,3)
proof (induction rs arbitrary: hidden w effs)
  case Nil
  then show ?case by (intro exI [of _ "[]"]) simp
next
  case (Cons i rs)
  let ?pair = "message_pair c i"
  show ?case
  proof (cases "length ?pair \<noteq> 2 \<or>
      list_ex (\<lambda>m. is_some_and (msg_id m) (\<lambda>j. j \<in> hidden)) ?pair \<or> \<not> answers_its_own_calls ?pair")
    case True
    then have "summarize_pairs C sid c hidden rs w = (effs, w')"
      using Cons.prems(1) by (simp only: summarize_pairs_skip)
    from Cons.IH [OF this] Cons.prems(2) show ?thesis using le_SucI by fastforce
  next
    case False
    then have fresh: "set (filter_map msg_id ?pair) \<inter> hidden = {}" using fresh_pair_ids by blast
    obtain q w1 where q: "summarize_tool_call C sid c i w = (q, w1)" by fastforce
    show ?thesis
    proof (cases q)
      case (Inl e)
      then have "summarize_pairs C sid c hidden rs w1 = (effs, w')"
        using Cons.prems(1) False q by (simp add: Let_def)
      from Cons.IH [OF this] Cons.prems(2) show ?thesis using le_SucI by fastforce
    next
      case (Inr s)
      obtain effs1 w2 where rest: "summarize_pairs C sid c (hidden \<union> set (filter_map msg_id ?pair)) rs w1 = (effs1, w2)"
        by fastforce
      have effs: "effs = group_effects (?pair, s) @ effs1" and w2: "w2 = w'"
        using Cons.prems(1) False q Inr rest by (simp_all add: Let_def group_effects_def)
      from Cons.IH [OF rest [unfolded w2]] Cons.prems(2) obtain gs where gs:
        "effs1 = concat (map group_effects gs)" "length gs \<le> length rs"
        "\<forall>g \<in> set gs. summarized_group c g" "distinct (concat (map group_ids gs))"
        "\<forall>g \<in> set gs. set (group_ids g) \<inter> (hidden \<union> set (filter_map msg_id ?pair)) = {}"
        by auto
      have group: "summarized_group c (?pair, s)"
        using False Cons.prems(2) summarize_tool_call_summary [OF q [unfolded Inr]]
        by (auto simp: summarized_group_def)
      have "distinct (filter_map msg_id ?pair)"
        using assms(2) unfolding message_pair_def by (rule distinct_filter_map_filter)
      then have "distinct (concat (map group_ids ((?pair, s) # gs)))"
        using gs(4,5) by (auto simp: group_ids_def)
      moreover have "effs = concat (map group_effects ((?pair, s) # gs))" using effs gs(1) by simp
      moreover have "\<forall>g \<in> set ((?pair, s) # gs). set (group_ids g) \<inter> hidden = {}"
        using fresh gs(5) by (auto simp: group_ids_def)
      ultimately show ?thesis using gs(2,3) group
        by (intro exI [of _ "(?pair, s) # gs"]) simp
    qed
  qed
qed

text \<open>
  Old tool calls are put away together with their results: the effects are those of at most
  ten groups, each the two messages around a call, whose calls are exactly those they answer,
  hidden from the agent and replaced by a summary that the user does not see; no message is
  hidden twice.
\<close>

theorem tool_pair_hides_groups:
  assumes "tool_pair_run C cutoff enabled s c w = (Inr (Applied r), w')"
    and "distinct (filter_map msg_id c)"
  shows "\<exists>gs. sr_effects r = concat (map group_effects gs) \<and> gs \<noteq> [] \<and> length gs \<le> 10 \<and>
    (\<forall>g \<in> set gs. summarized_group c g) \<and> distinct (concat (map group_ids gs))"
proof -
  let ?run = "\<lambda>turn. summarize_pairs C (se_id s) c {} (tool_ids_to_summarize c cutoff (protected_requests turn)) w"
  obtain turn where run: "fst (?run turn) \<noteq> []" "sr_effects r = fst (?run turn)"
    using assms(1)
    by (auto simp: tool_pair_run_def Let_def not_applicable_def applied_def case_prod_beta
        split: sum.splits if_splits)
  obtain effs w1 where effs: "?run turn = (effs, w1)" by fastforce
  have ids: "set (tool_ids_to_summarize c cutoff (protected_requests turn)) \<subseteq> set (agent_visible_request_ids c)"
    "length (tool_ids_to_summarize c cutoff (protected_requests turn)) \<le> 10"
    by (auto simp: tool_ids_to_summarize_def TOOLCALL_SUMMARIZATION_BATCH_SIZE_def Let_def dest: in_set_takeD)
  from summarize_pairs_groups [OF effs assms(2) ids(1)] obtain gs where
    gs: "effs = concat (map group_effects gs)"
      "length gs \<le> length (tool_ids_to_summarize c cutoff (protected_requests turn))"
      "\<forall>g \<in> set gs. summarized_group c g" "distinct (concat (map group_ids gs))" by blast
  moreover have "length gs \<le> 10" using gs(2) ids(2) by linarith
  moreover have "gs \<noteq> []" using run(1) effs gs(1) by auto
  ultimately show ?thesis using run(2) effs by auto
qed

text \<open>One message with eleven calls, one with their results, and a new question.\<close>

definition eleven :: "string list" where
  "eleven = [''a'', ''b'', ''c'', ''d'', ''e'', ''f'', ''g'', ''h'', ''i'', ''j'', ''k'']"

definition old_calls :: message where
  "old_calls = (message_new Assistant 2
     (map (\<lambda>i. mc_tool_request i (Inr \<lparr>ct_name = ''shell'', ct_arguments = None\<rparr>)) eleven))\<lparr>msg_id := Some ''q''\<rparr>"

definition old_results :: message where
  "old_results = (message_new User 3
     (map (\<lambda>i. mc_tool_response plain_env i (Inr (call_result_success []))) eleven))\<lparr>msg_id := Some ''r''\<rparr>"

definition busy_session :: conversation where
  "busy_session = [old_calls, old_results, plea]"

lemma busy_fields:
  "msg_id old_calls = Some ''q''" "msg_id old_results = Some ''r''" "msg_id plea = Some ''k''"
  "is_agent_visible old_calls" "is_agent_visible old_results"
  by (simp_all add: old_calls_def old_results_def plea_def message_new_def is_agent_visible_def
      metadata_default_def)

lemma busy_evaluated:
  "tool_ids_to_summarize busy_session 0 0 = [''a'', ''b'', ''c'', ''d'', ''e'', ''f'', ''g'', ''h'', ''i'', ''j'']"
  "message_pair busy_session ''a'' = [old_calls, old_results]"
  "get_tool_request_ids old_calls = set eleven" "get_tool_response_ids old_calls = {}"
  "get_tool_request_ids old_results = {}" "get_tool_response_ids old_results = set eleven"
  "\<not> isl (agent_visible_tool_pair busy_session ''a'')"
  "messages_since_kickoff busy_session = Inr [plea]"
  "protected_requests [plea] = 0"
  by code_simp+

lemma summarize_pairs_first:
  assumes "length (message_pair c i) = 2" "answers_its_own_calls (message_pair c i)"
    "summarize_tool_call C sid c i w = (Inr s, w1)"
  shows "fst (summarize_pairs C sid c {} (i # later) w) \<noteq> []"
  using assms by (auto simp: Let_def case_prod_beta list_ex_iff is_some_and_def split: option.split)

lemma tool_pair_hides_groups_witness:
  "\<exists>r w'. tool_pair_run stub_env 0 True idle_session busy_session first_world = (Inr (Applied r), w') \<and>
    (\<exists>gs. sr_effects r = concat (map group_effects gs) \<and> gs \<noteq> [] \<and> length gs \<le> 10 \<and>
      (\<forall>g \<in> set gs. summarized_group busy_session g) \<and> distinct (concat (map group_ids gs)))"
proof -
  obtain ms where "agent_visible_tool_pair busy_session ''a'' = Inr ms"
    using busy_evaluated(7) by (cases "agent_visible_tool_pair busy_session ''a''") auto
  then obtain s w1 where "summarize_tool_call stub_env (se_id idle_session) busy_session ''a'' first_world = (Inr s, w1)"
    by (fastforce simp: summarize_tool_call_def kind_env_def Let_def case_prod_beta)
  from summarize_pairs_first [OF _ _ this]
  have "fst (summarize_pairs stub_env (se_id idle_session) busy_session {}
      (tool_ids_to_summarize busy_session 0 0) first_world) \<noteq> []"
    by (simp only: busy_evaluated(1)) (simp add: busy_evaluated answers_its_own_calls_def del: summarize_pairs.simps)
  then obtain r w' where run: "tool_pair_run stub_env 0 True idle_session busy_session first_world = (Inr (Applied r), w')"
    by (simp add: tool_pair_run_def busy_evaluated Let_def case_prod_beta applied_def del: summarize_pairs.simps)
  have "distinct (filter_map msg_id busy_session)" by (simp add: busy_session_def busy_fields)
  from tool_pair_hides_groups [OF run this] run show ?thesis by blast
qed

end
