(* ===== verification/Agent_Machine_Props.thy ===== *)
theory Agent_Machine_Props
  imports Agent_Laws Tool_Execution_Props Inference_Props Compaction_Props
begin

text \<open>
  Properties of the desktop agent's machine as a whole: the turn budget keeps a step away from
  the model, and a cancelled run of the agent returns.
\<close>

subsection \<open>Steps that do not reach the inference\<close>

lemma attempt_op_same:
  assumes "ma_ensure M = ma_ensure M'"
  shows "attempt_step M s c (OpStep oper) w = attempt_step M' s c (OpStep oper) w"
proof -
  have "run_machine_step M s c (OpStep oper) v = run_machine_step M' s c (OpStep oper) v" for v
    by (simp add: run_machine_step_def)
  then show ?thesis by (simp only: attempt_step_def assms)
qed

lemma attempt_inference_fired:
  assumes "ma_ensure M = ma_ensure M'" and "token_fired w"
  shows "attempt_step M s c (InferenceStep oper applies f) w =
    attempt_step M' s c (InferenceStep oper applies f') w"
proof -
  obtain w1 where "is_cancelled w = (True, w1)" using assms(2) by (simp add: is_cancelled_def)
  then show ?thesis
    by (simp only: attempt_step_def prod.case Let_def if_True step_outcome.case step_operation.simps assms(1))
qed

lemma attempt_op_advances:
  assumes "operation_laws oper" and "\<And>eff w. advances w (snd (ma_ensure M eff w))"
  shows "advances w (snd (attempt_step M s c (OpStep oper) w))"
proof -
  have "machine_laws (M\<lparr>ma_steps := [OpStep oper]\<rparr>)"
    using assms by unfold_locales (simp add: lawful_machine_def lawful_step_def)
  from machine_laws.attempt_step_advances [OF this, of "OpStep oper" w s c]
    attempt_op_same [of M "M\<lparr>ma_steps := [OpStep oper]\<rparr>" s c oper w]
  show ?thesis by simp
qed

lemma step_loop_fired_same:
  assumes "ma_ensure M = ma_ensure M'" and "\<And>eff w. advances w (snd (ma_ensure M eff w))"
  shows "list_all operation_laws opers \<Longrightarrow> token_fired w \<Longrightarrow>
    step_loop M s c (map OpStep opers @ [InferenceStep oper applies f]) w =
    step_loop M' s c (map OpStep opers @ [InferenceStep oper applies f']) w"
proof (induction opers arbitrary: w)
  case Nil
  then show ?case using attempt_inference_fired [OF assms(1) Nil.prems(2), of s c oper applies f f']
    by (cases "attempt_step M' s c (InferenceStep oper applies f') w") (auto split: attempt.split)
next
  case (Cons oper opers)
  obtain r w1 where att: "attempt_step M s c (OpStep oper) w = (r, w1)" by fastforce
  then have att': "attempt_step M' s c (OpStep oper) w = (r, w1)"
    by (simp add: attempt_op_same [OF assms(1)])
  have laws: "operation_laws oper" using Cons.prems by simp
  have "advances w w1"
    using attempt_op_advances [OF laws, of M w s c] assms(2) by (simp add: att)
  then have "token_fired w1" using Cons.prems by (simp add: advances_token)
  then show ?case
    using Cons.IH Cons.prems by (cases r) (simp_all add: att att')
qed

lemma step_loop_prefix_same:
  assumes "ma_ensure M = ma_ensure M'"
    and "\<And>w. step_loop M s c rest w = step_loop M' s c rest' w"
  shows "step_loop M s c (map OpStep opers @ rest) w = step_loop M' s c (map OpStep opers @ rest') w"
  using assms attempt_op_same [OF assms(1)]
  by (induction opers arbitrary: w) (auto split: prod.split attempt.split)

lemma max_turns_attempt:
  assumes "messages_since_kickoff c = Inr turn" and "n \<le> assistant_turn_count turn"
    and "attempt_step M s c (OpStep (max_turns_operation E n)) w = (Declined, w')"
  shows "token_fired w"
proof (rule ccontr)
  assume "\<not> token_fired w"
  then have "\<exists>effs v. run_machine_step M s c (OpStep (max_turns_operation E n)) (snd (is_cancelled w)) =
      (StepRan (Applied \<lparr>sr_effects = effs, sr_applied_step = None, sr_yield = True\<rparr>), v)"
    using assms(1,2) by (simp add: run_machine_step_def max_turns_operation_def max_turns_run_def
        yielded_with_def Let_def case_prod_beta not_less [symmetric])
  with assms(3) \<open>\<not> token_fired w\<close> show False
    by (auto simp: attempt_step_def max_turns_operation_def operation_default_def Let_def case_prod_beta
        split: if_splits)
qed

text \<open>
  C5: Once the assistant has answered as often in the turn as the budget allows, a step of the
  agent never asks the model: with any two inference runners, and so whatever the provider
  would do, the step has the same result and leaves the same world.
\<close>

theorem turn_budget_enforced:
  assumes "lawful_agent A" and "se_conversation s = Some c" and "messages_since_kickoff c = Inr turn"
    and "ag_max_turns A \<le> assistant_turn_count turn"
  shows "machine_step_once (create_state_machine E A R) s w =
    machine_step_once (create_state_machine E A R') s w"
proof -
  let ?M = "create_state_machine E A R" and ?M' = "create_state_machine E A R'"
  let ?max = "max_turns_operation E (ag_max_turns A)"
  let ?pre = "[entry_hook_operation (ag_hook_env A) (ag_hooks A),
    slash_command_operation (agent_operations E A @ [ag_status A]),
    steer_operation (ag_hook_env A) (ag_hooks A)]"
  obtain post where ops: "agent_operations E A =
      steer_operation (ag_hook_env A) (ag_hooks A) # ?max # post"
    by (simp add: agent_operations_def)
  have post: "list_all operation_laws post"
    using agent_operations_laws [OF assms(1), of E] by (simp add: ops)
  have ens: "ma_ensure ?M = ma_ensure ?M'"
    "advances w (snd (ma_ensure ?M eff w))" for eff and w :: "'a agent_world_scheme"
    by (simp_all add: create_state_machine_def session_machine_def)
  have steps: "ma_steps (create_state_machine E A Q) = map OpStep ?pre @ (OpStep ?max # map OpStep post @
      [InferenceStep (inference_step E agent_effects Q) inference_applies (infer E agent_effects Q)])" for Q
    by (simp add: create_state_machine_def session_machine_def agent_steps_def ops [symmetric])
      (simp add: ops)
  have "step_loop ?M s c (OpStep ?max # map OpStep post @
      [InferenceStep (inference_step E agent_effects R) inference_applies (infer E agent_effects R)]) v =
    step_loop ?M' s c (OpStep ?max # map OpStep post @
      [InferenceStep (inference_step E agent_effects R') inference_applies (infer E agent_effects R')]) v" for v
  proof -
    obtain r w1 where att: "attempt_step ?M s c (OpStep ?max) v = (r, w1)" by fastforce
    then have att': "attempt_step ?M' s c (OpStep ?max) v = (r, w1)"
      by (simp add: attempt_op_same [OF ens(1)])
    have "token_fired w1" if "r = Declined"
      using max_turns_attempt [OF assms(3,4)] att that attempt_op_advances [OF max_turns.operation_laws_axioms ens(2)]
      by (metis advances_token snd_conv)
    moreover have "inference_step E agent_effects R = inference_step E agent_effects R'"
      by (simp add: inference_step_def)
    ultimately show ?thesis
      using step_loop_fired_same [OF ens post] by (simp add: att att' split: attempt.split)
  qed
  note same = step_loop_prefix_same [OF ens(1) this, of ?pre w]
  have conv: "ma_conversation (create_state_machine E A Q) s = Some c" for Q
    using assms(2) by (simp add: create_state_machine_def session_machine_def)
  show ?thesis by (simp only: machine_step_once_def steps conv option.case same)
qed

text \<open>An agent whose budget is one answer, and whose other operations never apply.\<close>

definition quiet_agent :: "unit agent_config" where
  "quiet_agent = \<lparr>ag_hook_env = echo_env, ag_hooks = silent_manager, ag_max_turns = 1,
     ag_stop_hook_block_cap = DEFAULT_STOP_HOOK_BLOCK_CAP, ag_manages_own_context = False,
     ag_retry_timeout = 300, ag_on_failure_timeout = 600, ag_retry_env = failing_env,
     ag_exec_env = slow_extension, ag_inspectors = [PermissionInspector None],
     ag_print_error = ed_message, ag_compaction_env = kind_env, ag_context_limit = 1000,
     ag_compaction_threshold = None, ag_tool_call_cutoff = None, ag_tool_pair_summarization = True,
     ag_doctor = operation_default ''doctor'', ag_project = operation_default ''project'',
     ag_skills = operation_default ''skills'', ag_recipe = operation_default ''recipe'',
     ag_status = operation_default ''status''\<rparr>"

lemma quiet_agent_lawful: "lawful_agent quiet_agent"
  by (simp add: lawful_agent_def quiet_agent_def lawful_hooks_def echo_env_def lawful_retry_def
      failing_env_def lawful_exec_def slow_extension_def lawful_inspector_def operation_default_laws
      lawful_completion_def kind_env_def)

lemma turn_budget_enforced_witness:
  "\<forall>R R'. machine_step_once (create_state_machine plain_env quiet_agent R)
       (idle_session\<lparr>se_conversation := Some [asked, answered_turn]\<rparr>) store_world =
     machine_step_once (create_state_machine plain_env quiet_agent R')
       (idle_session\<lparr>se_conversation := Some [asked, answered_turn]\<rparr>) store_world"
proof (intro allI)
  fix R R' :: "(session, unit agent_x) inference_runner"
  have "ag_max_turns quiet_agent \<le> assistant_turn_count [asked, answered_turn]"
    by (simp add: quiet_agent_def assistant_turn_count_def asked_def answered_turn_def
        message_user_def message_assistant_def message_new_def metadata_default_def is_user_visible_def)
  with quiet_agent_lawful show "machine_step_once (create_state_machine plain_env quiet_agent R)
       (idle_session\<lparr>se_conversation := Some [asked, answered_turn]\<rparr>) store_world =
     machine_step_once (create_state_machine plain_env quiet_agent R')
       (idle_session\<lparr>se_conversation := Some [asked, answered_turn]\<rparr>) store_world"
    by (intro turn_budget_enforced [OF _ _ asked_turn(2)]) simp_all
qed

subsection \<open>A cancelled run\<close>

text \<open>
  C6: Once the token has fired, \<open>run\<close> of the agent's machine returns after at most one step and
  only moves the world forward, whatever the model, the extensions, the hooks and the commands
  answer.
\<close>

theorem agent_run_cancelled:
  assumes "lawful_agent A" and "lawful_runner R" and "lawful_env V" and "token_fired w"
  shows "\<exists>r w'. run_aibuddy (agent_steps E A R) V sid w = Some (r, w') \<and> advances w w'"
proof -
  have "lawful_machine (create_state_machine E A R)"
    using agent_machine_laws [OF assms(1,2)] by (simp add: machine_laws_def)
  from machine_run_cancelled_returns [OF this session_runtime_lawful [OF assms(3)] assms(4)]
  show ?thesis by (simp add: run_aibuddy_def create_state_machine_def)
qed

definition quiet_runner :: "(session, 'x) inference_runner" where
  "quiet_runner = \<lparr>ir_provider = still_provider, ir_model_name = ''m'', ir_prepare = identity_prepare\<rparr>"

lemma agent_run_cancelled_witness:
  "\<exists>r w'. run_aibuddy (agent_steps plain_env quiet_agent quiet_runner) free_env ''s''
       (store_world\<lparr>w_cancel_at := Some 0\<rparr>) = Some (r, w') \<and>
     advances (store_world\<lparr>w_cancel_at := Some 0\<rparr>) w'"
proof (rule agent_run_cancelled [OF quiet_agent_lawful _ free_env_lawful])
  show "lawful_runner quiet_runner"
    by (simp add: lawful_runner_def quiet_runner_def still_provider_def identity_prepare_def)
qed (simp add: token_fired_def)

end
