(* ===== verification/Think_Filter.thy ===== *)
theory Think_Filter
  imports Prelude
begin

text \<open>
  \<open>crates/aibuddy-provider-types/src/thinking.rs\<close>: separating the reasoning a model writes
  between think tags from its answer, chunk by chunk as the stream delivers it, and the
  thinking effort.  Strings are UTF-8 bytes; the capacity of the buffer, which only concerns
  memory, is not modelled.
\<close>

subsection \<open>Bytes\<close>

definition ascii_alphabetic :: "char \<Rightarrow> bool" where
  "ascii_alphabetic c \<longleftrightarrow>
     (let n = (of_char c :: nat) in 65 \<le> n \<and> n \<le> 90 \<or> 97 \<le> n \<and> n \<le> 122)"

definition ascii_lower :: "char \<Rightarrow> char" where
  "ascii_lower c = (let n = (of_char c :: nat) in if 65 \<le> n \<and> n \<le> 90 then byte (n + 32) else c)"

text \<open>\<open>u8::is_ascii_whitespace\<close>, without the vertical tab.\<close>

definition ascii_space :: "char \<Rightarrow> bool" where
  "ascii_space c \<longleftrightarrow> (of_char c :: nat) \<in> {9, 10, 12, 13, 32}"

definition quote_byte :: "char \<Rightarrow> bool" where
  "quote_byte c \<longleftrightarrow> c = byte 34 \<or> c = byte 39"

abbreviation LT :: char where "LT \<equiv> CHR ''<''"
abbreviation GT :: char where "GT \<equiv> CHR ''>''"
abbreviation SLASH :: char where "SLASH \<equiv> CHR ''/''"

subsection \<open>Tags\<close>

definition MAX_BUFFERED_THINK_TAG_BYTES :: nat where
  "MAX_BUFFERED_THINK_TAG_BYTES = 8192"

datatype think_tag = TagOpen | TagClose | TagSelfClosing

text \<open>An event in the buffer, with the positions the code gives it.\<close>

datatype buffer_event =
    TagEvent (te_pos: nat) (te_end: nat) (te_kind: think_tag)
  | OversizedTag (ot_end: nat)
  | PartialTag (pt_pos: nat)

definition think_name :: "string \<Rightarrow> bool" where
  "think_name s \<longleftrightarrow> map ascii_lower s \<in> {''think'', ''thinking''}"

definition open_boundary :: "char \<Rightarrow> bool" where
  "open_boundary b \<longleftrightarrow> b = GT \<or> b = SLASH \<or> ascii_space b"

text \<open>The end of an opening tag: the first \<open>>\<close> outside quotes.\<close>

fun tag_end :: "char option \<Rightarrow> char option \<Rightarrow> string \<Rightarrow> nat \<Rightarrow> (think_tag \<times> nat) option" where
  "tag_end q prev [] n = None"
| "tag_end (Some q) prev (b # bs) n = tag_end (if b = q then None else Some q) prev bs (Suc n)"
| "tag_end None prev (b # bs) n =
     (if quote_byte b then tag_end (Some b) (Some b) bs (Suc n)
      else if b = GT then Some (if prev = Some SLASH then TagSelfClosing else TagOpen, Suc n)
      else if ascii_space b then tag_end None prev bs (Suc n)
      else tag_end None (Some b) bs (Suc n))"

text \<open>\<open>parse_think_tag\<close> on what follows \<open>start\<close>, with the number of bytes of the tag.\<close>

definition close_tag :: "string \<Rightarrow> nat \<Rightarrow> (think_tag \<times> nat) option" where
  "close_tag rest n =
     (case dropWhile ascii_space rest of
        [] \<Rightarrow> None
      | b # bs \<Rightarrow>
          if b = GT then Some (TagClose, n + length (takeWhile ascii_space rest) + 1) else None)"

definition open_tag :: "string \<Rightarrow> nat \<Rightarrow> (think_tag \<times> nat) option" where
  "open_tag rest n =
     (case rest of
        [] \<Rightarrow> None
      | b # bs \<Rightarrow> if open_boundary b then tag_end None None rest n else None)"

fun tag_slash :: "string \<Rightarrow> bool \<times> string" where
  "tag_slash [] = (False, [])"
| "tag_slash (b # bs) = (if b = SLASH then (True, bs) else (False, b # bs))"

definition parse_think_tag :: "string \<Rightarrow> (think_tag \<times> nat) option" where
  "parse_think_tag s =
     (case s of
        [] \<Rightarrow> None
      | c # cs \<Rightarrow>
          if c \<noteq> LT then None
          else
            (let (is_close, body) = tag_slash cs;
                 name = takeWhile ascii_alphabetic body;
                 rest = dropWhile ascii_alphabetic body;
                 n = (if is_close then 2 else 1) + length name
             in if \<not> think_name name then None
                else if is_close then close_tag rest n else open_tag rest n))"

fun unquoted_gt :: "char option \<Rightarrow> string \<Rightarrow> bool" where
  "unquoted_gt q [] = False"
| "unquoted_gt (Some q) (b # bs) = unquoted_gt (if b = q then None else Some q) bs"
| "unquoted_gt None (b # bs) =
     (if quote_byte b then unquoted_gt (Some b) bs else b = GT \<or> unquoted_gt None bs)"

definition contains_unquoted_gt :: "string \<Rightarrow> bool" where
  "contains_unquoted_gt s = unquoted_gt None s"

text \<open>
  The two patterns of \<open>is_possible_partial_think_tag\<close>.  A letter of the name matches in either
  case, and \<open>k\<close> also matches the Kelvin sign, as the \<open>regex\<close> crate folds case.  The first
  letter is not optional.
\<close>

definition THINKING_LETTERS :: "string list list" where
  "THINKING_LETTERS =
     [[''t'', ''T''], [''h'', ''H''], [''i'', ''I''], [''n'', ''N''],
      [''k'', ''K'', [byte 0xE2, byte 0x84, byte 0xAA]],
      [''i'', ''I''], [''n'', ''N''], [''g'', ''G'']]"

text \<open>What is left after each number of letters that matches.\<close>

fun name_rests :: "string list list \<Rightarrow> string \<Rightarrow> string list" where
  "name_rests [] s = []"
| "name_rests (L # Ls) s =
     (case strip_any L s of None \<Rightarrow> [] | Some r \<Rightarrow> r # name_rests Ls r)"

definition open_pattern_tail :: "string \<Rightarrow> bool" where
  "open_pattern_tail t \<longleftrightarrow> t = [] \<or> t = [SLASH] \<or> strip_any whitespace t \<noteq> None"

definition close_pattern_tail :: "string \<Rightarrow> bool" where
  "close_pattern_tail t \<longleftrightarrow> trim_start t = []"

definition partial_open :: "string \<Rightarrow> bool" where
  "partial_open s \<longleftrightarrow>
     (case strip_prefix [LT] s of
        None \<Rightarrow> False
      | Some r \<Rightarrow> list_ex open_pattern_tail (name_rests THINKING_LETTERS r))"

definition partial_close :: "string \<Rightarrow> bool" where
  "partial_close s \<longleftrightarrow>
     (case strip_prefix [LT, SLASH] s of
        None \<Rightarrow> False
      | Some r \<Rightarrow> list_ex close_pattern_tail (name_rests THINKING_LETTERS r))"

definition is_possible_partial_think_tag :: "string \<Rightarrow> bool" where
  "is_possible_partial_think_tag s \<longleftrightarrow>
     \<not> contains_unquoted_gt s \<and> (partial_open s \<or> partial_close s)"

text \<open>The search for the next event, at position \<open>pos\<close> and with what follows it.\<close>

fun event_from :: "bool \<Rightarrow> nat \<Rightarrow> string \<Rightarrow> buffer_event option" where
  "event_from inside pos [] = None"
| "event_from inside pos (c # cs) =
     (if c \<noteq> LT then event_from inside (Suc pos) cs
      else
        (case parse_think_tag (c # cs) of
           Some (kind, n) \<Rightarrow>
             if MAX_BUFFERED_THINK_TAG_BYTES < n then Some (OversizedTag (pos + n))
             else if inside \<or> kind = TagOpen \<or> kind = TagSelfClosing
             then Some (TagEvent pos (pos + n) kind)
             else event_from inside (Suc pos) cs
         | None \<Rightarrow>
             if \<not> contains_unquoted_gt (c # cs) \<and> is_possible_partial_think_tag (c # cs)
             then Some (PartialTag pos)
             else event_from inside (Suc pos) cs))"

definition next_buffer_event :: "string \<Rightarrow> bool \<Rightarrow> buffer_event option" where
  "next_buffer_event buffer inside = event_from inside 0 buffer"

subsection \<open>The filter\<close>

record filter_out =
  fo_content :: string
  fo_thinking :: string

definition filter_out_default :: filter_out where
  "filter_out_default = \<lparr>fo_content = [], fo_thinking = []\<rparr>"

record think_filter =
  tf_buffer :: string
  tf_inside :: bool
  tf_depth :: nat

definition think_filter_new :: think_filter where
  "think_filter_new = \<lparr>tf_buffer = [], tf_inside = False, tf_depth = 0\<rparr>"

definition push_out :: "bool \<Rightarrow> string \<Rightarrow> filter_out \<Rightarrow> filter_out" where
  "push_out inside s out =
     (if inside then out\<lparr>fo_thinking := fo_thinking out @ s\<rparr>
      else out\<lparr>fo_content := fo_content out @ s\<rparr>)"

definition apply_tag :: "think_tag \<Rightarrow> think_filter \<Rightarrow> think_filter" where
  "apply_tag kind F =
     (case kind of
        TagOpen \<Rightarrow> F\<lparr>tf_depth := tf_depth F + 1, tf_inside := True\<rparr>
      | TagClose \<Rightarrow> F\<lparr>tf_depth := tf_depth F - 1, tf_inside := 0 < tf_depth F - 1\<rparr>
      | TagSelfClosing \<Rightarrow> F)"

lemma apply_tag_buffer [simp]: "tf_buffer (apply_tag kind F) = tf_buffer F"
  by (simp add: apply_tag_def split: think_tag.split)

lemma tag_end_bound: "tag_end q prev s n = Some (kind, m) \<Longrightarrow> n < m \<and> m \<le> n + length s"
  by (induction q prev s n rule: tag_end.induct) (auto split: if_splits)

lemma parse_think_tag_bound:
  assumes "parse_think_tag s = Some (kind, n)"
  shows "0 < n \<and> n \<le> length s"
proof -
  from assms obtain cs where s: "s = LT # cs"
    by (auto simp: parse_think_tag_def split: list.splits if_splits)
  obtain is_close body where body: "tag_slash cs = (is_close, body)" by fastforce
  have len: "length cs = (if is_close then 1 else 0) + length body"
    using body by (cases cs) (auto split: if_splits)
  let ?name = "takeWhile ascii_alphabetic body" and ?rest = "dropWhile ascii_alphabetic body"
  have split: "length ?name + length ?rest = length body"
    by (metis length_append takeWhile_dropWhile_id)
  have space: "length (takeWhile ascii_space r) + length (dropWhile ascii_space r) = length r" for r
    by (metis length_append takeWhile_dropWhile_id)
  show ?thesis
  proof (cases is_close)
    case True
    with assms s body have "close_tag ?rest (2 + length ?name) = Some (kind, n)"
      by (auto simp: parse_think_tag_def Let_def split: if_splits)
    then show ?thesis using True len split space [of ?rest] s
      by (auto simp: close_tag_def split: list.splits if_splits)
  next
    case False
    with assms s body have "tag_end None None ?rest (1 + length ?name) = Some (kind, n)"
      by (auto simp: parse_think_tag_def Let_def open_tag_def split: if_splits list.splits)
    from tag_end_bound [OF this] show ?thesis using False len split s by simp
  qed
qed

definition event_end :: "buffer_event \<Rightarrow> nat" where
  "event_end ev = (case ev of TagEvent p e k \<Rightarrow> e | OversizedTag e \<Rightarrow> e | PartialTag p \<Rightarrow> Suc p)"

lemma event_from_end: "event_from inside pos s = Some ev \<Longrightarrow> 0 < event_end ev \<and> event_end ev \<le> pos + length s"
proof (induction inside pos s rule: event_from.induct)
  case (2 inside pos c cs)
  then show ?case
    using parse_think_tag_bound [of "c # cs"]
    by (fastforce simp: event_end_def split: if_splits option.splits prod.splits)
qed simp

text \<open>The loop of \<open>process_buffer\<close>, with what it has written so far.\<close>

function process_events :: "filter_out \<Rightarrow> think_filter \<Rightarrow> filter_out \<times> think_filter" where
  "process_events out F =
     (let buffer = tf_buffer F; inside = tf_inside F in
      case next_buffer_event buffer inside of
        Some (TagEvent pos stop kind) \<Rightarrow>
          process_events (if 0 < pos then push_out inside (take pos buffer) out else out)
            (apply_tag kind (F\<lparr>tf_buffer := drop stop buffer\<rparr>))
      | Some (OversizedTag stop) \<Rightarrow>
          process_events (push_out inside (take stop buffer) out) (F\<lparr>tf_buffer := drop stop buffer\<rparr>)
      | Some (PartialTag pos) \<Rightarrow>
          (let out1 = (if 0 < pos then push_out inside (take pos buffer) out else out);
               kept = drop pos buffer
           in if MAX_BUFFERED_THINK_TAG_BYTES < length kept
              then (push_out inside kept out1, F\<lparr>tf_buffer := []\<rparr>)
              else (out1, F\<lparr>tf_buffer := kept\<rparr>))
      | None \<Rightarrow>
          (if buffer \<noteq> [] then (push_out inside buffer out, F\<lparr>tf_buffer := []\<rparr>) else (out, F)))"
  by pat_completeness auto

termination
proof (relation "measure (\<lambda>(out, F). length (tf_buffer F))", goal_cases)
  case (2 out F x xa x2 pos stop kind)
  with event_from_end [of "tf_inside F" 0 "tf_buffer F" "TagEvent pos stop kind"]
  show ?case by (auto simp: next_buffer_event_def event_end_def)
next
  case (3 out F x xa x2 stop)
  with event_from_end [of "tf_inside F" 0 "tf_buffer F" "OversizedTag stop"]
  show ?case by (auto simp: next_buffer_event_def event_end_def)
qed simp

declare process_events.simps [simp del]

definition process_buffer :: "think_filter \<Rightarrow> filter_out \<times> think_filter" where
  "process_buffer F = process_events filter_out_default F"

definition think_push :: "string \<Rightarrow> think_filter \<Rightarrow> filter_out \<times> think_filter" where
  "think_push chunk F = process_buffer (F\<lparr>tf_buffer := tf_buffer F @ chunk\<rparr>)"

definition think_finish :: "think_filter \<Rightarrow> filter_out" where
  "think_finish F =
     (let (out, F1) = process_buffer F
      in if tf_buffer F1 \<noteq> [] then push_out (tf_inside F1) (tf_buffer F1) out else out)"

definition split_think_blocks :: "string \<Rightarrow> string \<times> string" where
  "split_think_blocks s =
     (let (out, F) = think_push s think_filter_new;
          final = think_finish F
      in (fo_content out @ fo_content final, fo_thinking out @ fo_thinking final))"

subsection \<open>Thinking effort\<close>

datatype thinking_effort = EffortOff | EffortLow | EffortMedium | EffortHigh | EffortMax

text \<open>\<open>lower\<close> is \<open>str::to_lowercase\<close>.\<close>

definition effort_from_str :: "(string \<Rightarrow> string) \<Rightarrow> string \<Rightarrow> thinking_effort result" where
  "effort_from_str lower s =
     (let t = lower s in
      if t \<in> {''off'', ''disabled'', ''none''} then Inr EffortOff
      else if t = ''low'' then Inr EffortLow
      else if t \<in> {''medium'', ''med''} then Inr EffortMedium
      else if t = ''high'' then Inr EffortHigh
      else if t \<in> {''max'', ''xhigh''} then Inr EffortMax
      else Inl (''unknown thinking effort: '' @ quoted t))"

fun effort_display :: "thinking_effort \<Rightarrow> string" where
  "effort_display EffortOff = ''off''"
| "effort_display EffortLow = ''low''"
| "effort_display EffortMedium = ''medium''"
| "effort_display EffortHigh = ''high''"
| "effort_display EffortMax = ''max''"

record thinking_effort_option =
  teo_value :: string
  teo_label :: string

record thinking_effort_capability =
  tec_option_id :: string
  tec_values :: "thinking_effort_option list"
  tec_current :: "string option"

datatype thinking_effort_support =
    EffortUnspecified
  | EffortUnsupported
  | EffortOptions thinking_effort_capability

end
