(* ===== verification/Think_Filter_Props.thy ===== *)
theory Think_Filter_Props
  imports Think_Filter
begin

text \<open>
  What the think filter does with a stream: the steps of its loop by the parts of the buffer, and
  that it does not matter how a text is cut into chunks, except at the places where an unfinished
  tag is not recognised.
\<close>

subsection \<open>A tag is found in its own text\<close>

lemma push_out_Nil [simp]: "push_out inside [] out = out"
  by (simp add: push_out_def)

lemma push_out_take [simp]:
  "(if 0 < pos then push_out inside (take pos s) out else out) = push_out inside (take pos s) out"
  by simp

lemma push_out_append: "push_out inside t (push_out inside s out) = push_out inside (s @ t) out"
  by (simp add: push_out_def)

lemma tag_end_prefix:
  "tag_end q prev s n = Some (kind, m) \<Longrightarrow>
   \<exists>u v. s = u @ v \<and> m = n + length u \<and> (\<forall>x. tag_end q prev (u @ x) n = Some (kind, m)) \<and>
     (\<forall>u' w. u = u' @ w \<longrightarrow> w \<noteq> [] \<longrightarrow> \<not> unquoted_gt q u')"
proof (induction q prev s n rule: tag_end.induct)
  case (2 q prev b bs n)
  then obtain u v where uv: "bs = u @ v" "m = Suc n + length u"
    "\<forall>x. tag_end (if b = q then None else Some q) prev (u @ x) (Suc n) = Some (kind, m)"
    "\<forall>u' w. u = u' @ w \<longrightarrow> w \<noteq> [] \<longrightarrow> \<not> unquoted_gt (if b = q then None else Some q) u'"
    by (auto split del: if_split)
  show ?case
  proof (intro exI conjI)
    show "b # bs = (b # u) @ v" using uv by simp
    show "\<forall>u' w. b # u = u' @ w \<longrightarrow> w \<noteq> [] \<longrightarrow> \<not> unquoted_gt (Some q) u'"
      using uv(4) by (auto simp: Cons_eq_append_conv split del: if_split)
  qed (use uv in auto)
next
  case (3 prev b bs n)
  show ?case
  proof (cases "quote_byte b \<or> b \<noteq> GT")
    case False
    with 3 show ?thesis
      by (intro exI [of _ "[b]"] exI [of _ bs]) (auto simp: Cons_eq_append_conv)
  next
    case True
    define q' where "q' = (if quote_byte b then Some b else None)"
    define prev' where "prev' = (if quote_byte b \<or> \<not> ascii_space b then Some b else prev)"
    have step: "tag_end None prev (b # r) k = tag_end q' prev' r (Suc k)"
      "unquoted_gt None (b # r) = unquoted_gt q' r" for r k
      using True by (auto simp: q'_def prev'_def)
    have "\<exists>u v. bs = u @ v \<and> m = Suc n + length u \<and>
        (\<forall>x. tag_end q' prev' (u @ x) (Suc n) = Some (kind, m)) \<and>
        (\<forall>u' w. u = u' @ w \<longrightarrow> w \<noteq> [] \<longrightarrow> \<not> unquoted_gt q' u')"
      using True 3 by (cases "quote_byte b"; cases "ascii_space b") (auto simp: q'_def prev'_def)
    then obtain u v where uv: "bs = u @ v" "m = Suc n + length u"
      "\<forall>x. tag_end q' prev' (u @ x) (Suc n) = Some (kind, m)"
      "\<forall>u' w. u = u' @ w \<longrightarrow> w \<noteq> [] \<longrightarrow> \<not> unquoted_gt q' u'" by blast
    show ?thesis
    proof (intro exI conjI)
      show "b # bs = (b # u) @ v" using uv by simp
      show "\<forall>u' w. b # u = u' @ w \<longrightarrow> w \<noteq> [] \<longrightarrow> \<not> unquoted_gt None u'"
        using uv(4) step(2) by (auto simp: Cons_eq_append_conv)
    qed (use uv step in auto)
  qed
qed simp

lemma alphabetic_plain: "ascii_alphabetic b \<Longrightarrow> \<not> quote_byte b \<and> b \<noteq> GT \<and> b \<noteq> SLASH \<and> \<not> ascii_space b"
  by (auto simp: ascii_alphabetic_def quote_byte_def byte_def ascii_space_def)

lemma space_plain: "ascii_space b \<Longrightarrow> \<not> quote_byte b \<and> b \<noteq> GT"
  by (auto simp: ascii_space_def quote_byte_def byte_def)

lemma unquoted_gt_plain:
  "list_all (\<lambda>b. \<not> quote_byte b \<and> b \<noteq> GT) p \<Longrightarrow> unquoted_gt None (p @ r) = unquoted_gt None r"
  by (induction p) auto

text \<open>The parts of a tag: its name, and what ends it.\<close>

definition tag_head :: "bool \<Rightarrow> string \<Rightarrow> string" where
  "tag_head is_close name = LT # (if is_close then [SLASH] else []) @ name"

definition tag_body :: "bool \<Rightarrow> string \<Rightarrow> nat \<Rightarrow> (think_tag \<times> nat) option" where
  "tag_body is_close rest n = (if is_close then close_tag rest n else open_tag rest n)"

lemma tag_body_Nil [simp]: "tag_body is_close [] n = None"
  by (simp add: tag_body_def close_tag_def open_tag_def)

lemma think_name_nonempty: "think_name name \<Longrightarrow> name \<noteq> []"
  by (auto simp: think_name_def)

lemma parse_head:
  assumes "list_all ascii_alphabetic name" and "rest = [] \<or> \<not> ascii_alphabetic (hd rest)"
    and "name \<noteq> []"
  shows "parse_think_tag (tag_head is_close name @ rest) =
    (if think_name name then tag_body is_close rest (length (tag_head is_close name)) else None)"
proof -
  have take: "takeWhile ascii_alphabetic (name @ rest) = name"
    "dropWhile ascii_alphabetic (name @ rest) = rest"
    using assms(1,2) by (cases rest; simp add: list_all_iff takeWhile_append2 dropWhile_append2)+
  obtain b bs where "name = b # bs" using assms(3) by (cases name) auto
  then have "b \<noteq> SLASH" using assms(1) alphabetic_plain [of b] by auto
  then have "tag_slash (name @ rest) = (False, name @ rest)" using \<open>name = b # bs\<close> by simp
  then show ?thesis
    by (auto simp: parse_think_tag_def tag_head_def tag_body_def take Let_def)
qed

lemma parse_cases:
  assumes "parse_think_tag s = Some (kind, n)"
  obtains is_close name rest where "s = tag_head is_close name @ rest" "list_all ascii_alphabetic name"
    "rest \<noteq> []" "\<not> ascii_alphabetic (hd rest)" "think_name name"
    "tag_body is_close rest (length (tag_head is_close name)) = Some (kind, n)"
proof -
  from assms obtain cs where s: "s = LT # cs"
    by (auto simp: parse_think_tag_def split: list.splits if_splits)
  obtain is_close body where body: "tag_slash cs = (is_close, body)" by fastforce
  have cs: "cs = (if is_close then [SLASH] else []) @ body"
    using body by (cases cs) (auto split: if_splits)
  let ?name = "takeWhile ascii_alphabetic body" and ?rest = "dropWhile ascii_alphabetic body"
  have head: "s = tag_head is_close ?name @ ?rest" by (simp add: s cs tag_head_def)
  have name: "think_name ?name" and
    body': "tag_body is_close ?rest (length (tag_head is_close ?name)) = Some (kind, n)"
    using assms body by (auto simp: parse_think_tag_def s Let_def tag_body_def tag_head_def split: if_splits)
  have rest: "?rest \<noteq> []"
    using body' tag_body_Nil by (metis option.distinct(1))
  have "\<not> ascii_alphabetic (hd ?rest)" using rest by (rule hd_dropWhile)
  moreover have "list_all ascii_alphabetic ?name" by (auto simp: list_all_iff dest: set_takeWhileD)
  ultimately show ?thesis using that [OF head _ rest _ name body'] by blast
qed

lemma tag_body_prefix:
  assumes "tag_body is_close rest n = Some (kind, m)"
  shows "\<exists>u v. rest = u @ v \<and> u \<noteq> [] \<and> m = n + length u \<and>
    (\<forall>x. tag_body is_close (u @ x) n = Some (kind, m)) \<and>
    (\<forall>u' w. u = u' @ w \<longrightarrow> w \<noteq> [] \<longrightarrow> \<not> unquoted_gt None u')"
proof (cases is_close)
  case True
  let ?ws = "takeWhile ascii_space rest"
  from assms True obtain bs where rest: "dropWhile ascii_space rest = GT # bs"
    and m: "m = n + length ?ws + 1" and k: "kind = TagClose"
    by (auto simp: tag_body_def close_tag_def split: list.splits if_splits)
  have all: "list_all ascii_space ?ws" by (auto simp: list_all_iff dest: set_takeWhileD)
  have split: "rest = (?ws @ [GT]) @ bs" using rest by (metis append_Cons append_Nil append_assoc takeWhile_dropWhile_id)
  have GT: "\<not> ascii_space GT" by (simp add: ascii_space_def)
  have ws: "takeWhile ascii_space ((?ws @ [GT]) @ x) = ?ws" "dropWhile ascii_space ((?ws @ [GT]) @ x) = GT # x" for x
    using all GT by (simp_all add: takeWhile_append2 dropWhile_append2 list_all_iff)
  have "tag_body is_close ((?ws @ [GT]) @ x) n = Some (kind, m)" for x
    by (simp only: tag_body_def True close_tag_def ws list.case if_True simp_thms m k)
  moreover have "\<not> unquoted_gt None u'" if "?ws @ [GT] = u' @ w" "w \<noteq> []" for u' w
  proof -
    have "prefix u' ?ws" using that by (metis append_butlast_last_id butlast_append butlast_snoc prefixI)
    then obtain z where "?ws = u' @ z" by (auto elim: prefixE)
    then have "list_all ascii_space u'" using all by (metis list_all_append)
    then have "list_all (\<lambda>b. \<not> quote_byte b \<and> b \<noteq> GT) u'" using space_plain by (auto simp: list_all_iff)
    from unquoted_gt_plain [OF this, of "[]"] show ?thesis by simp
  qed
  ultimately show ?thesis using split m
    by (intro exI [of _ "?ws @ [GT]"] exI [of _ bs]) auto
next
  case False
  with assms obtain b bs where rest: "rest = b # bs" and b: "open_boundary b"
    and te: "tag_end None None rest n = Some (kind, m)"
    by (auto simp: tag_body_def open_tag_def split: list.splits if_splits)
  from tag_end_prefix [OF te] obtain u v where uv: "rest = u @ v" "m = n + length u"
    "\<forall>x. tag_end None None (u @ x) n = Some (kind, m)"
    "\<forall>u' w. u = u' @ w \<longrightarrow> w \<noteq> [] \<longrightarrow> \<not> unquoted_gt None u'" by blast
  have "u \<noteq> []" using tag_end_bound [OF te] uv(2) by auto
  with uv(1) rest obtain u1 where "u = b # u1" by (cases u) auto
  then have "tag_body is_close (u @ x) n = Some (kind, m)" for x
    using uv(3) b False by (simp add: tag_body_def open_tag_def)
  with uv \<open>u \<noteq> []\<close> show ?thesis by blast
qed

lemma parse_prefix:
  assumes "parse_think_tag s = Some (kind, n)"
  obtains u v where "s = u @ v" "length u = n" "\<And>x. parse_think_tag (u @ x) = Some (kind, n)"
    "\<And>u' w. u = u' @ w \<Longrightarrow> w \<noteq> [] \<Longrightarrow> \<not> contains_unquoted_gt u'"
proof -
  from assms obtain is_close name rest where s: "s = tag_head is_close name @ rest"
    and name: "list_all ascii_alphabetic name" "think_name name"
    and rest: "rest \<noteq> []" "\<not> ascii_alphabetic (hd rest)"
    and body: "tag_body is_close rest (length (tag_head is_close name)) = Some (kind, n)"
    by (rule parse_cases)
  from tag_body_prefix [OF body] obtain u v where uv: "rest = u @ v" "u \<noteq> []"
    "n = length (tag_head is_close name) + length u"
    "\<forall>x. tag_body is_close (u @ x) (length (tag_head is_close name)) = Some (kind, n)"
    "\<forall>u' w. u = u' @ w \<longrightarrow> w \<noteq> [] \<longrightarrow> \<not> unquoted_gt None u'" by blast
  have hd: "hd (u @ x) = hd rest" for x using uv(1,2) by simp
  have found: "parse_think_tag ((tag_head is_close name @ u) @ x) = Some (kind, n)" for x
    using parse_head [OF name(1), of "u @ x" is_close] uv(2,4) name(2) rest(2) hd
    by (simp add: think_name_nonempty)
  have earlier: "\<not> contains_unquoted_gt u'" if "tag_head is_close name @ u = u' @ w" "w \<noteq> []" for u' w
  proof -
    have plain: "list_all (\<lambda>b. \<not> quote_byte b \<and> b \<noteq> GT) (tag_head is_close name)"
    proof -
      have "\<not> quote_byte LT" "\<not> quote_byte SLASH" by code_simp+
      moreover have "list_all (\<lambda>b. \<not> quote_byte b \<and> b \<noteq> GT) name"
        using name(1) by (rule list.pred_mono_strong) (simp add: alphabetic_plain)
      ultimately show ?thesis by (simp add: tag_head_def)
    qed
    from that(1) obtain z where "tag_head is_close name = u' @ z \<or> u' = tag_head is_close name @ z \<and> u = z @ w"
      by (auto simp: append_eq_append_conv2)
    then show ?thesis
    proof
      assume "tag_head is_close name = u' @ z"
      with plain have "list_all (\<lambda>b. \<not> quote_byte b \<and> b \<noteq> GT) u'" by simp
      from unquoted_gt_plain [OF this, of "[]"] show ?thesis by (simp add: contains_unquoted_gt_def)
    next
      assume "u' = tag_head is_close name @ z \<and> u = z @ w"
      then show ?thesis using uv(5) that(2) unquoted_gt_plain [OF plain]
        by (simp add: contains_unquoted_gt_def)
    qed
  qed
  show ?thesis
  proof (rule that)
    show "s = (tag_head is_close name @ u) @ v" using s uv(1) by simp
    show "length (tag_head is_close name @ u) = n" using uv(3) by simp
  qed (rule found, rule earlier)
qed

subsection \<open>One step of the search\<close>

text \<open>A position the search passes over.\<close>

definition skipped :: "bool \<Rightarrow> string \<Rightarrow> bool" where
  "skipped inside s \<longleftrightarrow>
     (case s of [] \<Rightarrow> True | c # cs \<Rightarrow> c \<noteq> LT \<or>
       (case parse_think_tag s of
          Some (kind, n) \<Rightarrow> n \<le> MAX_BUFFERED_THINK_TAG_BYTES \<and> \<not> inside \<and> kind = TagClose
        | None \<Rightarrow> \<not> is_possible_partial_think_tag s))"

definition quiet_before :: "bool \<Rightarrow> string \<Rightarrow> string \<Rightarrow> bool" where
  "quiet_before inside p q \<longleftrightarrow> (\<forall>u v. p = u @ v \<longrightarrow> v \<noteq> [] \<longrightarrow> skipped inside (v @ q))"

lemma quiet_before_Nil [simp]: "quiet_before inside [] q"
  by (simp add: quiet_before_def)

lemma quiet_before_Cons [simp]:
  "quiet_before inside (c # p) q \<longleftrightarrow> skipped inside (c # p @ q) \<and> quiet_before inside p q"
proof -
  have "skipped inside ((c # p) @ q)" if "quiet_before inside (c # p) q"
    using that unfolding quiet_before_def by blast
  then show ?thesis by (auto simp: quiet_before_def Cons_eq_append_conv)
qed

lemma partial_no_gt: "is_possible_partial_think_tag s \<Longrightarrow> \<not> contains_unquoted_gt s"
  by (simp add: is_possible_partial_think_tag_def)

lemma event_from_skip:
  "skipped inside (c # cs) \<Longrightarrow> event_from inside pos (c # cs) = event_from inside (Suc pos) cs"
  by (auto simp: skipped_def split: option.splits)

lemma event_from_hit:
  assumes "\<not> skipped inside s"
  shows "event_from inside pos s =
    (case parse_think_tag s of
       Some (kind, n) \<Rightarrow> Some (if MAX_BUFFERED_THINK_TAG_BYTES < n then OversizedTag (pos + n)
                            else TagEvent pos (pos + n) kind)
     | None \<Rightarrow> Some (PartialTag pos))"
proof -
  from assms obtain cs where s: "s = LT # cs" by (cases s) (auto simp: skipped_def)
  show ?thesis
  proof (cases "parse_think_tag s")
    case None
    with assms s have "is_possible_partial_think_tag s" by (simp add: skipped_def)
    with None s partial_no_gt show ?thesis by auto
  next
    case (Some r)
    obtain kind n where "r = (kind, n)" by (cases r)
    with Some assms s show ?thesis by (cases kind) (auto simp: skipped_def)
  qed
qed

lemma event_from_quiet:
  "quiet_before inside p q \<Longrightarrow> event_from inside pos (p @ q) = event_from inside (pos + length p) q"
  by (induction p arbitrary: pos) (auto simp del: event_from.simps simp: event_from_skip)

lemma first_hit:
  obtains p q where "s = p @ q" "quiet_before inside p q" "q = [] \<or> \<not> skipped inside q"
proof -
  have "\<exists>p q. s = p @ q \<and> quiet_before inside p q \<and> (q = [] \<or> \<not> skipped inside q)"
  proof (induction s)
    case (Cons c s)
    show ?case
    proof (cases "skipped inside (c # s)")
      case True
      from Cons.IH obtain p q where "s = p @ q" "quiet_before inside p q" "q = [] \<or> \<not> skipped inside q"
        by blast
      with True show ?thesis by (intro exI [of _ "c # p"] exI [of _ q]) simp
    next
      case False
      then show ?thesis by (intro exI [of _ "[]"] exI [of _ "c # s"]) simp
    qed
  qed simp
  with that show ?thesis by blast
qed

definition at_buffer :: "think_filter \<Rightarrow> string \<Rightarrow> think_filter" where
  "at_buffer F s = F\<lparr>tf_buffer := s\<rparr>"

lemma at_buffer_simps [simp]:
  "tf_buffer (at_buffer F s) = s" "tf_inside (at_buffer F s) = tf_inside F"
  "tf_depth (at_buffer F s) = tf_depth F" "at_buffer (at_buffer F s) t = at_buffer F t"
  "F\<lparr>tf_buffer := s\<rparr> = at_buffer F s" "at_buffer F (tf_buffer F) = F"
  by (simp_all add: at_buffer_def)

text \<open>What the loop does, from the parts of the buffer.\<close>

lemma process_nothing:
  assumes "quiet_before (tf_inside F) p []"
  shows "process_events out (at_buffer F p) = (push_out (tf_inside F) p out, at_buffer F [])"
proof -
  have "next_buffer_event p (tf_inside F) = None"
    using event_from_quiet [OF assms, of 0] by (simp add: next_buffer_event_def)
  then show ?thesis by (subst process_events.simps) (simp add: Let_def)
qed

lemma process_partial:
  assumes "quiet_before (tf_inside F) p q" and "\<not> skipped (tf_inside F) q" and "parse_think_tag q = None"
  shows "process_events out (at_buffer F (p @ q)) =
    (if MAX_BUFFERED_THINK_TAG_BYTES < length q
     then (push_out (tf_inside F) (p @ q) out, at_buffer F [])
     else (push_out (tf_inside F) p out, at_buffer F q))"
proof -
  have "next_buffer_event (p @ q) (tf_inside F) = Some (PartialTag (length p))"
    using event_from_quiet [OF assms(1), of 0] event_from_hit [OF assms(2), of "length p"] assms(3)
    by (simp add: next_buffer_event_def)
  then show ?thesis
    by (subst process_events.simps) (auto simp: Let_def push_out_append)
qed

lemma process_tag:
  assumes "quiet_before (tf_inside F) p q" and "\<not> skipped (tf_inside F) q"
    and "parse_think_tag q = Some (kind, n)"
  shows "process_events out (at_buffer F (p @ q)) =
    (if MAX_BUFFERED_THINK_TAG_BYTES < n
     then process_events (push_out (tf_inside F) (p @ take n q) out) (at_buffer F (drop n q))
     else process_events (push_out (tf_inside F) p out) (apply_tag kind (at_buffer F (drop n q))))"
proof -
  have "next_buffer_event (p @ q) (tf_inside F) =
      Some (if MAX_BUFFERED_THINK_TAG_BYTES < n then OversizedTag (length p + n)
            else TagEvent (length p) (length p + n) kind)"
    using event_from_quiet [OF assms(1), of 0] event_from_hit [OF assms(2), of "length p"] assms(3)
    by (simp add: next_buffer_event_def)
  then show ?thesis
    by (subst process_events.simps) (auto simp: Let_def)
qed

text \<open>The search can be resumed behind what it passed over.\<close>

lemma process_quiet:
  assumes "quiet_before (tf_inside F) p q"
  shows "process_events out (at_buffer F (p @ q)) =
    process_events (push_out (tf_inside F) p out) (at_buffer F q)"
proof -
  let ?i = "tf_inside F"
  obtain p' q' where q: "q = p' @ q'" "quiet_before ?i p' q'" and hit: "q' = [] \<or> \<not> skipped ?i q'"
    by (rule first_hit)
  have all: "quiet_before ?i (p @ p') q'"
    using assms q by (induction p) auto
  show ?thesis
  proof (cases "q' = []")
    case True
    then show ?thesis
      using process_nothing [of F "p @ p'" out] process_nothing [of F p' "push_out ?i p out"] all q
      by (simp add: push_out_append)
  next
    case False
    with hit have hit: "\<not> skipped ?i q'" by simp
    show ?thesis
    proof (cases "parse_think_tag q'")
      case None
      then show ?thesis
        using process_partial [OF all hit, of out] process_partial [OF q(2) hit, of "push_out ?i p out"] q(1)
        by (simp add: push_out_append)
    next
      case (Some r)
      obtain kind n where "r = (kind, n)" by (cases r)
      with Some show ?thesis
        using process_tag [OF all hit, of kind n out] process_tag [OF q(2) hit, of kind n "push_out ?i p out"] q(1)
        by (simp add: push_out_append)
    qed
  qed
qed

subsection \<open>Streams\<close>

text \<open>A stream: its chunks are pushed one after the other, then the filter is finished.\<close>

definition push_onto :: "filter_out \<times> think_filter \<Rightarrow> string \<Rightarrow> filter_out \<times> think_filter" where
  "push_onto st chunk = (let (out, F) = st; (more, F1) = think_push chunk F
     in (\<lparr>fo_content = fo_content out @ fo_content more, fo_thinking = fo_thinking out @ fo_thinking more\<rparr>, F1))"

definition think_stream :: "string list \<Rightarrow> string \<times> string" where
  "think_stream chunks =
     (let (out, F) = foldl push_onto (filter_out_default, think_filter_new) chunks;
          final = think_finish F
      in (fo_content out @ fo_content final, fo_thinking out @ fo_thinking final))"

lemma split_think_blocks_stream: "split_think_blocks s = think_stream [s]"
  by (simp add: split_think_blocks_def think_stream_def push_onto_def filter_out_default_def
      case_prod_beta Let_def)

definition out_append :: "filter_out \<Rightarrow> filter_out \<Rightarrow> filter_out" where
  "out_append o1 o2 = \<lparr>fo_content = fo_content o1 @ fo_content o2, fo_thinking = fo_thinking o1 @ fo_thinking o2\<rparr>"

lemma out_append_push: "out_append o1 (push_out i s o2) = push_out i s (out_append o1 o2)"
  by (simp add: out_append_def push_out_def)

lemma out_append_default [simp]: "out_append out filter_out_default = out" "out_append filter_out_default out = out"
  by (simp_all add: out_append_def filter_out_default_def)

lemma process_events_append:
  "process_events (out_append o1 out) F = (out_append o1 (fst (process_events out F)), snd (process_events out F))"
proof (induction out F rule: process_events.induct)
  case (1 out F)
  show ?case
  proof (cases "next_buffer_event (tf_buffer F) (tf_inside F)")
    case None
    then show ?thesis
      by (subst (1 2 3) process_events.simps) (simp add: Let_def out_append_push)
  next
    case (Some ev)
    show ?thesis
    proof (cases ev)
      case (TagEvent pos stop kind)
      with Some 1(1) show ?thesis
        by (subst (1 2 3) process_events.simps) (simp add: Let_def out_append_push)
    next
      case (OversizedTag stop)
      with Some 1(2) show ?thesis
        by (subst (1 2 3) process_events.simps) (simp add: Let_def out_append_push)
    next
      case (PartialTag pos)
      with Some show ?thesis
        by (subst (1 2 3) process_events.simps) (simp add: Let_def out_append_push)
    qed
  qed
qed

lemma push_onto_process: "push_onto (out, F) chunk = process_events out (at_buffer F (tf_buffer F @ chunk))"
  using process_events_append [of out filter_out_default "at_buffer F (tf_buffer F @ chunk)"]
  by (simp add: push_onto_def think_push_def process_buffer_def case_prod_beta Let_def out_append_def [symmetric])

definition finish_onto :: "filter_out \<times> think_filter \<Rightarrow> filter_out" where
  "finish_onto st = (let (out, F) = process_events (fst st) (snd st)
     in push_out (tf_inside F) (tf_buffer F) out)"

lemma think_stream_finish:
  "think_stream chunks =
    (let out = finish_onto (foldl push_onto (filter_out_default, think_filter_new) chunks)
     in (fo_content out, fo_thinking out))"
proof -
  obtain out F where st: "foldl push_onto (filter_out_default, think_filter_new) chunks = (out, F)" by fastforce
  have "out_append out (think_finish F) = finish_onto (out, F)"
    using process_events_append [of out filter_out_default F]
    by (auto simp: think_finish_def finish_onto_def process_buffer_def case_prod_beta Let_def out_append_push)
  from this [symmetric] show ?thesis
    by (simp add: think_stream_def st Let_def out_append_def)
qed

subsection \<open>Unfinished tags\<close>

text \<open>A chunk is whole characters, so it does not begin within one.\<close>

definition continuation_byte :: "char \<Rightarrow> bool" where
  "continuation_byte c \<longleftrightarrow> (let n = (of_char c :: nat) in 128 \<le> n \<and> n < 192)"

definition whole_characters :: "string \<Rightarrow> bool" where
  "whole_characters x \<longleftrightarrow> x = [] \<or> \<not> continuation_byte (hd x)"

definition encoding :: "string \<Rightarrow> bool" where
  "encoding e \<longleftrightarrow> e \<noteq> [] \<and> list_all continuation_byte (tl e)"

lemma encodings: "list_all encoding whitespace" "list_all (list_all encoding) THINKING_LETTERS"
  by code_simp+

lemma strip_prefix_aligned:
  assumes "strip_prefix e (r @ x) = Some w" and "r \<noteq> []" and "whole_characters x" and "encoding e"
  shows "\<exists>w'. w = w' @ x \<and> strip_prefix e r = Some w'"
proof -
  from assms(1) have eq: "r @ x = e @ w" by (simp add: strip_prefix_Some_iff)
  then obtain u where "r = e @ u \<and> u @ x = w \<or> r @ u = e \<and> x = u @ w"
    by (auto simp: append_eq_append_conv2)
  then show ?thesis
  proof
    assume "r @ u = e \<and> x = u @ w"
    moreover have "u = []"
    proof (rule ccontr)
      assume "u \<noteq> []"
      with calculation assms(2,4) have "continuation_byte (hd u)"
        by (cases r) (auto simp: encoding_def list_all_iff)
      with assms(3) calculation \<open>u \<noteq> []\<close> show False by (auto simp: whole_characters_def)
    qed
    ultimately show ?thesis by (simp add: strip_prefix_Some_iff)
  qed (auto simp: strip_prefix_Some_iff)
qed

lemma strip_any_Cons:
  "strip_any (p # ps) s = (if p \<noteq> [] \<and> strip_prefix p s \<noteq> None then strip_prefix p s else strip_any ps s)"
  by (auto simp: strip_any_def split: option.split)

lemma strip_any_Nil [simp]: "strip_any ps [] = None"
  using strip_any_length [of ps "[]"] by (cases "strip_any ps []") auto

lemma strip_prefix_extend: "strip_prefix p s = Some r \<Longrightarrow> strip_prefix p (s @ x) = Some (r @ x)"
  by (simp add: strip_prefix_Some_iff)

lemma strip_any_aligned:
  "strip_any ps (r @ x) = Some w \<Longrightarrow> r \<noteq> [] \<Longrightarrow> whole_characters x \<Longrightarrow> list_all encoding ps \<Longrightarrow>
   \<exists>w'. w = w' @ x \<and> strip_any ps r = Some w'"
proof (induction ps)
  case (Cons p ps)
  show ?case
  proof (cases "strip_prefix p (r @ x)")
    case None
    then have "strip_prefix p r = None" using strip_prefix_extend [of p r _ x] by fastforce
    with None Cons show ?thesis by (simp add: strip_any_Cons)
  next
    case (Some w0)
    have "p \<noteq> []" using Cons.prems(4) by (simp add: encoding_def)
    with Some Cons.prems(1) have "w0 = w" by (simp add: strip_any_Cons)
    with strip_prefix_aligned [OF Some Cons.prems(2,3)] Cons.prems(4) \<open>p \<noteq> []\<close> show ?thesis
      by (auto simp: strip_any_Cons)
  qed
qed (simp add: strip_any_def)

lemma trim_with_aligned:
  "trim_with ps (r @ x) = [] \<Longrightarrow> whole_characters x \<Longrightarrow> list_all encoding ps \<Longrightarrow> trim_with ps r = []"
proof (induction ps r rule: trim_with.induct)
  case (1 ps r)
  show ?case
  proof (cases "r = []")
    case True
    then show ?thesis by (subst trim_with.simps) simp
  next
    case False
    with 1(2) obtain w where w: "strip_any ps (r @ x) = Some w" "trim_with ps w = []"
      by (subst (asm) trim_with.simps) (auto split: option.splits)
    from strip_any_aligned [OF w(1) False 1(3,4)] obtain w' where "w = w' @ x" "strip_any ps r = Some w'"
      by blast
    with 1(1) [OF this(2)] w(2) 1(3,4) show ?thesis by (subst trim_with.simps) simp
  qed
qed

text \<open>What is left of a cut text after the letters that match.\<close>

lemma name_rests_aligned:
  "t \<in> set (name_rests Ls (r @ x)) \<Longrightarrow> r \<noteq> [] \<Longrightarrow> whole_characters x \<Longrightarrow> list_all (list_all encoding) Ls \<Longrightarrow>
   [] \<in> set (name_rests Ls r) \<or> (\<exists>t'. t = t' @ x \<and> t' \<noteq> [] \<and> t' \<in> set (name_rests Ls r))"
proof (induction Ls arbitrary: r)
  case (Cons L Ls)
  obtain w where w: "strip_any L (r @ x) = Some w" "t = w \<or> t \<in> set (name_rests Ls w)"
    using Cons.prems(1) by (cases "strip_any L (r @ x)") auto
  from strip_any_aligned [OF w(1) Cons.prems(2,3)] Cons.prems(4) obtain w' where
    w': "w = w' @ x" "strip_any L r = Some w'" by auto
  show ?case
  proof (cases "w' = []")
    case True
    with w' show ?thesis by simp
  next
    case False
    with w w' Cons.IH [of w'] Cons.prems(3,4) show ?thesis by auto
  qed
qed simp

definition slash_unfinished :: "string \<Rightarrow> bool" where
  "slash_unfinished s \<longleftrightarrow>
     (case s of
        [] \<Rightarrow> False
      | c # cs \<Rightarrow> c = LT \<and> think_name (takeWhile ascii_alphabetic cs) \<and>
          (case dropWhile ascii_alphabetic cs of [] \<Rightarrow> False | b # bs \<Rightarrow> b = SLASH \<and> bs \<noteq> []) \<and>
          \<not> contains_unquoted_gt s)"

text \<open>The beginnings of a tag that the patterns do not know.\<close>

definition unrecognised :: "string \<Rightarrow> bool" where
  "unrecognised s \<longleftrightarrow> s = [LT] \<or> s = [LT, SLASH] \<or> slash_unfinished s"

lemma partial_aligned:
  assumes "is_possible_partial_think_tag (s @ x)" and "s \<noteq> []" and "whole_characters x"
  shows "is_possible_partial_think_tag s \<or> s = [LT] \<or> s = [LT, SLASH]"
proof -
  have gt: "\<not> contains_unquoted_gt (s @ x) \<Longrightarrow> \<not> contains_unquoted_gt s"
  proof -
    have "unquoted_gt q s \<Longrightarrow> unquoted_gt q (s @ x)" for q
      by (induction q s rule: unquoted_gt.induct) (auto split: if_splits)
    then show "\<not> contains_unquoted_gt (s @ x) \<Longrightarrow> \<not> contains_unquoted_gt s"
      by (auto simp: contains_unquoted_gt_def)
  qed
  from assms(1) consider "partial_open (s @ x)" | "partial_close (s @ x)"
    by (auto simp: is_possible_partial_think_tag_def)
  then show ?thesis
  proof cases
    case 1
    then obtain r0 where r0: "s @ x = LT # r0" and "list_ex open_pattern_tail (name_rests THINKING_LETTERS r0)"
      by (auto simp: partial_open_def strip_prefix_Some_iff split: option.splits)
    then obtain t where t: "t \<in> set (name_rests THINKING_LETTERS r0)" "open_pattern_tail t"
      by (auto simp: list_ex_iff)
    from r0 assms(2) obtain r where s: "s = LT # r" "r0 = r @ x" by (cases s) auto
    show ?thesis
    proof (cases "r = []")
      case False
      have "list_ex open_pattern_tail (name_rests THINKING_LETTERS r)"
        using name_rests_aligned [OF t(1) [unfolded s(2)] False assms(3) encodings(2)]
      proof
        assume "[] \<in> set (name_rests THINKING_LETTERS r)"
        then show ?thesis by (auto simp: list_ex_iff open_pattern_tail_def)
      next
        assume "\<exists>t'. t = t' @ x \<and> t' \<noteq> [] \<and> t' \<in> set (name_rests THINKING_LETTERS r)"
        then obtain t' where t': "t = t' @ x" "t' \<noteq> []" "t' \<in> set (name_rests THINKING_LETTERS r)" by blast
        have "open_pattern_tail t'"
          using t(2) t'(1,2) strip_any_aligned [of whitespace t' x, OF _ t'(2) assms(3) encodings(1)]
          by (auto simp: open_pattern_tail_def append_eq_Cons_conv)
        with t'(3) show ?thesis by (auto simp: list_ex_iff)
      qed
      then show ?thesis using s gt assms(1)
        by (simp add: is_possible_partial_think_tag_def partial_open_def)
    qed (use s in simp)
  next
    case 2
    then obtain r0 where r0: "s @ x = LT # SLASH # r0" and "list_ex close_pattern_tail (name_rests THINKING_LETTERS r0)"
      by (auto simp: partial_close_def strip_prefix_Some_iff split: option.splits)
    then obtain t where t: "t \<in> set (name_rests THINKING_LETTERS r0)" "close_pattern_tail t"
      by (auto simp: list_ex_iff)
    from r0 assms(2) consider "s = [LT]" | r where "s = LT # SLASH # r" "r0 = r @ x"
      by (cases s; cases "tl s") auto
    then show ?thesis
    proof cases
      case (2 r)
      show ?thesis
      proof (cases "r = []")
        case False
        have "list_ex close_pattern_tail (name_rests THINKING_LETTERS r)"
          using name_rests_aligned [OF t(1) [unfolded 2(2)] False assms(3) encodings(2)]
        proof
          assume "[] \<in> set (name_rests THINKING_LETTERS r)"
          moreover have "close_pattern_tail []" by (simp add: close_pattern_tail_def trim_start_def) code_simp
          ultimately show ?thesis by (auto simp: list_ex_iff)
        next
          assume "\<exists>t'. t = t' @ x \<and> t' \<noteq> [] \<and> t' \<in> set (name_rests THINKING_LETTERS r)"
          then obtain t' where t': "t = t' @ x" "t' \<in> set (name_rests THINKING_LETTERS r)" by blast
          have "close_pattern_tail t'"
            using t(2) trim_with_aligned [OF _ assms(3) encodings(1), of t']
            by (simp add: close_pattern_tail_def trim_start_def t'(1))
          with t'(2) show ?thesis by (auto simp: list_ex_iff)
        qed
        then show ?thesis using 2 gt assms(1)
          by (simp add: is_possible_partial_think_tag_def partial_close_def)
      qed (use 2 in simp)
    qed simp
  qed
qed

lemma ascii_lower_cases:
  assumes "ascii_lower c = d"
  shows "c = d \<or> c = char_of (of_char d - 32 :: nat)"
proof (cases "65 \<le> (of_char c :: nat) \<and> (of_char c :: nat) \<le> 90")
  case True
  then have "(of_char d :: nat) = of_char c + 32"
    using assms by (auto simp: ascii_lower_def byte_def Let_def)
  then have "of_char d - 32 = (of_char c :: nat)" by simp
  then show ?thesis by simp
next
  case False
  with assms show ?thesis by (auto simp: ascii_lower_def Let_def)
qed

text \<open>A set of encodings of one letter, in either case.\<close>

definition letter :: "string list \<Rightarrow> char \<Rightarrow> bool" where
  "letter L d \<longleftrightarrow> list_all (\<lambda>c. list_ex (\<lambda>e. e = [c]) L \<and>
     list_all (\<lambda>e. e \<noteq> [] \<and> (hd e = c \<longrightarrow> e = [c])) L) [d, char_of (of_char d - 32 :: nat)]"

lemma thinking_letters: "list_all2 letter THINKING_LETTERS ''thinking''"
  by code_simp

lemma strip_any_letter:
  assumes "letter L d" and "ascii_lower c = d"
  shows "strip_any L (c # r) = Some r"
proof -
  have "list_ex (\<lambda>e. e = [c]) L" "list_all (\<lambda>e. e \<noteq> [] \<and> (hd e = c \<longrightarrow> e = [c])) L"
    using assms ascii_lower_cases [OF assms(2)] by (auto simp: letter_def)
  then show ?thesis
  proof (induction L)
    case (Cons e L)
    show ?case
    proof (cases "e = [c]")
      case True
      then show ?thesis by (simp add: strip_any_Cons)
    next
      case False
      with Cons.prems have "e \<noteq> []" "hd e \<noteq> c" by auto
      then have "strip_prefix e (c # r) = None" by (cases e) auto
      with Cons False show ?thesis by (simp add: strip_any_Cons)
    qed
  qed simp
qed

lemma name_rests_letters:
  "list_all2 letter Ls ds \<Longrightarrow> map ascii_lower p = take (length p) ds \<Longrightarrow> p \<noteq> [] \<Longrightarrow>
   t \<in> set (name_rests Ls (p @ t))"
proof (induction Ls ds arbitrary: p rule: list_all2_induct)
  case (Cons L Ls d ds)
  then obtain c p' where p: "p = c # p'" "ascii_lower c = d" "map ascii_lower p' = take (length p') ds"
    by (cases p) auto
  have "strip_any L (p @ t) = Some (p' @ t)" using strip_any_letter [OF Cons.hyps(1) p(2)] p(1) by simp
  with Cons.IH [OF p(3)] show ?case by (cases "p' = []") auto
qed simp

lemma name_rests_name:
  assumes "think_name (p @ p')" and "p \<noteq> []"
  shows "t \<in> set (name_rests THINKING_LETTERS (p @ t))"
proof (rule name_rests_letters [OF thinking_letters _ assms(2)])
  obtain w where "map ascii_lower (p @ p') @ w = ''thinking''"
    using assms(1) by (auto simp: think_name_def simp del: map_append)
  then have "map ascii_lower p @ (map ascii_lower p' @ w) = ''thinking''" by simp
  then show "map ascii_lower p = take (length p) ''thinking''" by (metis append_eq_conv_conj length_map)
qed

lemma ascii_space_whitespace:
  assumes "ascii_space c"
  shows "strip_any whitespace (c # r) = Some r"
proof -
  have "c \<in> {byte 9, byte 10, byte 12, byte 13, byte 32}"
    using assms by (auto simp: ascii_space_def byte_def) (metis char_of_char)+
  then show ?thesis
    by (auto simp: strip_any_def whitespace_def ascii_whitespace_def byte_def)
qed

lemma trim_start_spaces: "list_all ascii_space s \<Longrightarrow> trim_start s = []"
  unfolding trim_start_def
proof (induction s)
  case Nil
  show ?case by (subst trim_with.simps) simp
next
  case (Cons c s)
  then show ?case by (subst trim_with.simps) (simp add: ascii_space_whitespace)
qed

lemma unfinished_tag:
  assumes "parse_think_tag (s @ x) = Some (kind, n)" and "length s < n" and "s \<noteq> []"
  shows "is_possible_partial_think_tag s \<or> unrecognised s"
proof -
  have gt: "\<not> contains_unquoted_gt s"
  proof -
    from parse_prefix [OF assms(1)] obtain u v where u: "s @ x = u @ v" "length u = n"
      "\<And>u' w. u = u' @ w \<Longrightarrow> w \<noteq> [] \<Longrightarrow> \<not> contains_unquoted_gt u'" by metis
    then obtain w where "u = s @ w" "w \<noteq> []" using assms(2) by (auto simp: append_eq_append_conv2)
    with u(3) show ?thesis by blast
  qed
  from assms(1) obtain is_close name rest where sx: "s @ x = tag_head is_close name @ rest"
    and name: "list_all ascii_alphabetic name" "think_name name"
    and rest: "rest \<noteq> []" "\<not> ascii_alphabetic (hd rest)"
    and body: "tag_body is_close rest (length (tag_head is_close name)) = Some (kind, n)"
    by (rule parse_cases)
  from sx consider (head) z where "tag_head is_close name = s @ z"
    | (body) r z where "s = tag_head is_close name @ r" "rest = r @ z" "r \<noteq> []"
  proof -
    from sx obtain us where "s = tag_head is_close name @ us \<and> us @ x = rest \<or>
        s @ us = tag_head is_close name \<and> x = us @ rest"
      by (auto simp: append_eq_append_conv2)
    then show thesis using that(1) [of us] that(1) [of "[]"] that(2) [of us x] by (cases "us = []") auto
  qed
  then show ?thesis
  proof cases
    case head
    show ?thesis
    proof (cases is_close)
      case True
      with head assms(3) consider "s = [LT]" | p where "s = LT # SLASH # p" "name = p @ z"
        by (cases s; cases "tl s") (auto simp: tag_head_def)
      then show ?thesis
      proof cases
        case (2 p)
        show ?thesis
        proof (cases "p = []")
          case False
          have "[] \<in> set (name_rests THINKING_LETTERS p)"
            using name_rests_name [of p z "[]"] name(2) 2(2) False by simp
          moreover have "close_pattern_tail []" by (simp add: close_pattern_tail_def trim_start_spaces)
          ultimately have "partial_close s" using 2(1) by (auto simp: partial_close_def list_ex_iff)
          with gt show ?thesis by (simp add: is_possible_partial_think_tag_def)
        qed (use 2 in \<open>simp add: unrecognised_def\<close>)
      qed (simp add: unrecognised_def)
    next
      case False
      with head assms(3) obtain p where p: "s = LT # p" "name = p @ z"
        by (cases s) (auto simp: tag_head_def)
      show ?thesis
      proof (cases "p = []")
        case False
        have "[] \<in> set (name_rests THINKING_LETTERS p)"
          using name_rests_name [of p z "[]"] name(2) p(2) False by simp
        then have "partial_open s" using p(1) by (auto simp: partial_open_def list_ex_iff open_pattern_tail_def)
        with gt show ?thesis by (simp add: is_possible_partial_think_tag_def)
      qed (use p in \<open>simp add: unrecognised_def\<close>)
    qed
  next
    case (body r z)
    have tail: "r \<in> set (name_rests THINKING_LETTERS (name @ r))"
      using name_rests_name [of name "[]" r] name(2) think_name_nonempty by simp
    show ?thesis
    proof (cases is_close)
      case True
      have "list_all ascii_space r"
      proof -
        from \<open>tag_body _ _ _ = _\<close> True have "n = length (tag_head is_close name) + length (takeWhile ascii_space rest) + 1"
          by (auto simp: tag_body_def close_tag_def split: list.splits if_splits)
        with assms(2) body have "length r \<le> length (takeWhile ascii_space (r @ z))" by simp
        moreover have "prefix (takeWhile ascii_space (r @ z)) (r @ z)"
          by (metis prefixI takeWhile_dropWhile_id)
        ultimately have "prefix r (takeWhile ascii_space (r @ z))"
          by (meson prefixI prefix_length_prefix)
        then show ?thesis by (auto simp: list_all_iff dest!: set_mono_prefix dest: set_takeWhileD)
      qed
      then have "close_pattern_tail r" by (simp add: close_pattern_tail_def trim_start_spaces)
      with tail have "partial_close s"
        using body(1) True by (auto simp: partial_close_def tag_head_def list_ex_iff)
      with gt show ?thesis by (simp add: is_possible_partial_think_tag_def)
    next
      case False
      obtain b r' where r: "r = b # r'" using body(3) by (cases r) auto
      have b: "open_boundary b" and te: "tag_end None None rest (length (tag_head is_close name)) = Some (kind, n)"
        using \<open>tag_body _ _ _ = _\<close> False r body(2)
        by (auto simp: tag_body_def open_tag_def split: if_splits)
      have "b \<noteq> GT"
      proof
        assume "b = GT"
        moreover have "\<not> quote_byte GT" by code_simp
        ultimately have "n = Suc (length (tag_head is_close name))" using te r body(2) by simp
        with assms(2) body(1) r show False by simp
      qed
      with b consider "b = SLASH" "r' = []" | "b = SLASH" "r' \<noteq> []" | "ascii_space b"
        by (auto simp: open_boundary_def)
      then show ?thesis
      proof cases
        case 2
        have "takeWhile ascii_alphabetic (name @ r) = name" "dropWhile ascii_alphabetic (name @ r) = r"
          using name(1) rest(2) body(2) r
          by (simp_all add: list_all_iff takeWhile_append2 dropWhile_append2)
        then have "slash_unfinished s"
          using body(1) False gt 2 r name(2) by (simp add: slash_unfinished_def tag_head_def)
        then show ?thesis by (simp add: unrecognised_def)
      next
        case 1
        then have "open_pattern_tail r" using r by (simp add: open_pattern_tail_def)
        with tail have "partial_open s"
          using body(1) False by (auto simp: partial_open_def tag_head_def list_ex_iff)
        with gt show ?thesis by (simp add: is_possible_partial_think_tag_def)
      next
        case 3
        then have "open_pattern_tail r" using r by (simp add: open_pattern_tail_def ascii_space_whitespace)
        with tail have "partial_open s"
          using body(1) False by (auto simp: partial_open_def tag_head_def list_ex_iff)
        with gt show ?thesis by (simp add: is_possible_partial_think_tag_def)
      qed
    qed
  qed
qed

subsection \<open>Chunks\<close>

text \<open>A cut behind which an unfinished tag is taken for text.\<close>

definition awkward_cut :: "string \<Rightarrow> bool" where
  "awkward_cut s \<longleftrightarrow> list_ex unrecognised (suffixes s)"

lemma awkward_cut_suffix: "\<not> awkward_cut (p @ s) \<Longrightarrow> \<not> awkward_cut s \<and> \<not> unrecognised s"
  by (auto simp: awkward_cut_def list_ex_iff in_set_suffixes suffix_def)

lemma skipped_stable:
  assumes "skipped inside s" and "s \<noteq> []" and "whole_characters x" and "\<not> unrecognised s"
  shows "skipped inside (s @ x)"
proof (cases "hd s = LT")
  case False
  with assms(2) show ?thesis by (cases s) (auto simp: skipped_def)
next
  case True
  with assms(2) obtain cs where s: "s = LT # cs" by (cases s) auto
  show ?thesis
  proof (cases "parse_think_tag s")
    case (Some r)
    obtain kind n where r: "parse_think_tag s = Some (kind, n)" using Some by (cases r) auto
    from parse_prefix [OF r] obtain u v where "s = u @ v" "parse_think_tag (u @ v @ x) = Some (kind, n)" by metis
    then have "parse_think_tag (s @ x) = Some (kind, n)" by simp
    with assms(1) r s show ?thesis by (auto simp: skipped_def)
  next
    case None
    with assms(1) s have partial: "\<not> is_possible_partial_think_tag s" by (simp add: skipped_def)
    have "parse_think_tag (s @ x) = None"
    proof (rule ccontr)
      assume "parse_think_tag (s @ x) \<noteq> None"
      then obtain kind n where r: "parse_think_tag (s @ x) = Some (kind, n)" by auto
      show False
      proof (cases "length s < n")
        case True
        from unfinished_tag [OF r True assms(2)] partial assms(4) show False by blast
      next
        case False
        from parse_prefix [OF r] obtain u v where u: "s @ x = u @ v" "length u = n"
          "\<And>y. parse_think_tag (u @ y) = Some (kind, n)" by metis
        with False have "s = u @ drop n s" by (metis append_eq_append_conv_if append_take_drop_id not_less)
        with u(3) None show False by (metis option.distinct(1))
      qed
    qed
    moreover have "\<not> is_possible_partial_think_tag (s @ x)"
      using partial_aligned [OF _ assms(2,3)] partial assms(4) by (auto simp: unrecognised_def)
    ultimately show ?thesis using s by (simp add: skipped_def)
  qed
qed

lemma quiet_before_stable:
  assumes "quiet_before inside p q" and "whole_characters x" and "\<not> awkward_cut (p @ q)"
  shows "quiet_before inside p (q @ x)"
  using assms
proof (induction p)
  case (Cons c p)
  have "\<not> awkward_cut (p @ q)" "\<not> unrecognised (c # p @ q)"
    using Cons.prems(3) awkward_cut_suffix [of "[c]" "p @ q"] awkward_cut_suffix [of "[]" "c # p @ q"] by simp_all
  with Cons skipped_stable [of inside "c # p @ q" x] show ?case by simp
qed simp

lemma hit_stable:
  assumes "parse_think_tag q = Some (kind, n)" and "\<not> skipped inside q"
  shows "parse_think_tag (q @ x) = Some (kind, n) \<and> \<not> skipped inside (q @ x)"
proof -
  from parse_prefix [OF assms(1)] obtain u v where "q = u @ v" "parse_think_tag (u @ v @ x) = Some (kind, n)" by metis
  then have "parse_think_tag (q @ x) = Some (kind, n)" by simp
  with assms show ?thesis by (cases q) (auto simp: skipped_def)
qed

lemma process_resume:
  assumes "length (tf_buffer F @ x) \<le> MAX_BUFFERED_THINK_TAG_BYTES" and "whole_characters x"
    and "\<not> awkward_cut (tf_buffer F)" and "process_events out F = (out', F')"
  shows "process_events out (at_buffer F (tf_buffer F @ x)) = process_events out' (at_buffer F' (tf_buffer F' @ x))"
  using assms(1,3,4)
proof (induction "length (tf_buffer F)" arbitrary: F out rule: less_induct)
  case less
  let ?i = "tf_inside F"
  obtain p q where b: "tf_buffer F = p @ q" "quiet_before ?i p q" and hit: "q = [] \<or> \<not> skipped ?i q"
    by (rule first_hit)
  have run: "process_events out (at_buffer F (p @ q)) = (out', F')"
    using less.prems(3) b(1) by (metis at_buffer_simps(6))
  have quiet: "quiet_before ?i p (q @ x)"
    using quiet_before_stable [OF b(2) assms(2)] less.prems(2) b(1) by simp
  note jump = process_quiet [OF quiet, of out]
  show ?case
  proof (cases "q = []")
    case True
    with process_nothing [of F p out] b run have "out' = push_out ?i p out" "F' = at_buffer F []" by auto
    with jump b True show ?thesis by simp
  next
    case False
    with hit have hit: "\<not> skipped ?i q" by simp
    show ?thesis
    proof (cases "parse_think_tag q")
      case None
      have "\<not> MAX_BUFFERED_THINK_TAG_BYTES < length q" using less.prems(1) b(1) by simp
      with process_partial [OF b(2) hit None, of out] run
      have "out' = push_out ?i p out" "F' = at_buffer F q" by auto
      with jump b show ?thesis by simp
    next
      case (Some r)
      obtain kind n where r: "parse_think_tag q = Some (kind, n)" using Some by (cases r) auto
      have n: "0 < n" "n \<le> length q" using parse_think_tag_bound [OF r] by simp_all
      have small: "\<not> MAX_BUFFERED_THINK_TAG_BYTES < n" using n less.prems(1) b(1) by simp
      let ?F = "apply_tag kind (at_buffer F (drop n q))"
      have moved: "apply_tag kind (at_buffer F (s @ x)) = at_buffer (apply_tag kind (at_buffer F s)) (s @ x)" for s
        by (cases kind) (simp_all add: apply_tag_def at_buffer_def del: at_buffer_simps(5))
      have run1: "process_events (push_out ?i p out) ?F = (out', F')"
        using process_tag [OF b(2) hit r, of out] small run by simp
      have shorter: "length (tf_buffer ?F) < length (tf_buffer F)" using n b(1) by simp
      have cut: "\<not> awkward_cut (tf_buffer ?F)"
      proof -
        have "tf_buffer F = (p @ take n q) @ drop n q" using b(1) by simp
        with less.prems(2) show ?thesis using awkward_cut_suffix by (metis apply_tag_buffer at_buffer_simps(1))
      qed
      have "length (tf_buffer ?F @ x) \<le> MAX_BUFFERED_THINK_TAG_BYTES" using less.prems(1) b(1) by simp
      from less.hyps [OF shorter this cut run1]
      have "process_events (push_out ?i p out) (at_buffer ?F (drop n q @ x)) =
          process_events out' (at_buffer F' (tf_buffer F' @ x))" by simp
      moreover have "process_events (push_out ?i p out) (at_buffer F (q @ x)) =
          process_events (push_out ?i p out) (at_buffer ?F (drop n q @ x))"
        using process_tag [of F "[]" "q @ x" kind n "push_out ?i p out"] hit_stable [OF r hit, of x] small n
        by (simp add: moved)
      ultimately show ?thesis using jump b by simp
    qed
  qed
qed

lemma new_buffer: "tf_buffer think_filter_new = []"
  by (simp add: think_filter_new_def)

lemma think_stream_whole:
  assumes "length (concat chunks) \<le> MAX_BUFFERED_THINK_TAG_BYTES"
    and "\<forall>chunk \<in> set chunks. whole_characters chunk"
    and "\<forall>i < length chunks. \<not> awkward_cut (concat (take i chunks))"
  shows "think_stream chunks = split_think_blocks (concat chunks)"
proof -
  have "foldl push_onto (filter_out_default, think_filter_new) chunks =
      process_events filter_out_default (at_buffer think_filter_new (concat chunks))"
    using assms
  proof (induction chunks rule: rev_induct)
    case Nil
    have "at_buffer think_filter_new [] = think_filter_new"
      using at_buffer_simps(6) [of think_filter_new] by (simp only: new_buffer)
    then show ?case
      using process_nothing [of think_filter_new "[]" filter_out_default] by simp
  next
    case (snoc c chunks)
    obtain out F where st: "process_events filter_out_default (at_buffer think_filter_new (concat chunks)) = (out, F)"
      by fastforce
    have "\<not> awkward_cut (concat chunks)" using snoc.prems(3) by (auto dest: spec [of _ "length chunks"])
    moreover have "\<forall>i < length chunks. \<not> awkward_cut (concat (take i chunks))"
      using snoc.prems(3) by (simp add: less_Suc_eq)
    ultimately show ?case
      using snoc process_resume [of "at_buffer think_filter_new (concat chunks)" c filter_out_default out F] st
      by (simp add: push_onto_process)
  qed
  moreover have "foldl push_onto (filter_out_default, think_filter_new) [concat chunks] =
      process_events filter_out_default (at_buffer think_filter_new (concat chunks))"
    by (simp add: push_onto_process new_buffer)
  ultimately show ?thesis by (simp only: split_think_blocks_stream think_stream_finish)
qed

end
