(* ===== verification/Think_Reading.thy ===== *)
theory Think_Reading
  imports Think_Filter_Props
begin

text \<open>
  What a think tag is and how a text with think tags reads, as a grammar and a relation that do
  not mention the filter, and that the filter gives exactly the answer and the thoughts of that
  reading.
\<close>

subsection \<open>The grammar of tags\<close>

text \<open>Text in which every quote is closed and no \<open>>\<close> stands outside quotes.\<close>

inductive outside_quotes :: "string \<Rightarrow> bool" where
  oq_nil: "outside_quotes []"
| oq_plain: "b \<noteq> CHR 34 \<Longrightarrow> b \<noteq> CHR 39 \<Longrightarrow> b \<noteq> CHR ''>'' \<Longrightarrow> outside_quotes s \<Longrightarrow>
    outside_quotes (b # s)"
| oq_quoted: "q = CHR 34 \<or> q = CHR 39 \<Longrightarrow> q \<notin> set t \<Longrightarrow> outside_quotes s \<Longrightarrow>
    outside_quotes (q # t @ q # s)"

text \<open>
  A tag: \<open></think   >\<close>, or \<open><think ...>\<close> with attributes after a blank or a slash, which is self
  closing when a slash is the last thing before the \<open>>\<close>; the name is \<open>think\<close> or \<open>thinking\<close> in
  either case.
\<close>

definition ends_with_slash :: "string \<Rightarrow> bool" where
  "ends_with_slash attrs \<longleftrightarrow> (\<exists>a s. attrs = a @ ''/'' @ s \<and> list_all ascii_space s)"

inductive think_markup :: "think_tag \<Rightarrow> string \<Rightarrow> bool" where
  tm_close: "map ascii_lower name \<in> {''think'', ''thinking''} \<Longrightarrow> list_all ascii_space s \<Longrightarrow>
    think_markup TagClose (''</'' @ name @ s @ ''>'')"
| tm_open: "map ascii_lower name \<in> {''think'', ''thinking''} \<Longrightarrow> outside_quotes attrs \<Longrightarrow>
    attrs = [] \<or> hd attrs = CHR ''/'' \<or> ascii_space (hd attrs) \<Longrightarrow>
    think_markup (if ends_with_slash attrs then TagSelfClosing else TagOpen) (''<'' @ name @ attrs @ ''>'')"

subsection \<open>The parser follows the grammar\<close>

lemma quote_byte_iff: "quote_byte b \<longleftrightarrow> b = CHR 34 \<or> b = CHR 39"
proof -
  have "byte 34 = CHR 34" "byte 39 = CHR 39" by code_simp+
  then show ?thesis by (simp add: quote_byte_def)
qed

lemma quotes_not_space: "quote_byte q \<Longrightarrow> \<not> ascii_space q \<and> q \<noteq> GT \<and> q \<noteq> SLASH"
  by (auto simp: quote_byte_iff ascii_space_def)

text \<open>The last byte that is no blank.\<close>

definition last_mark :: "char option \<Rightarrow> string \<Rightarrow> char option" where
  "last_mark prev s = (case dropWhile ascii_space (rev s) of [] \<Rightarrow> prev | b # _ \<Rightarrow> Some b)"

lemma last_mark_simps [simp]:
  "last_mark prev [] = prev"
  "last_mark prev (b # s) = last_mark (if ascii_space b then prev else Some b) s"
proof -
  show "last_mark prev [] = prev" by (simp add: last_mark_def)
  show "last_mark prev (b # s) = last_mark (if ascii_space b then prev else Some b) s"
  proof (cases "\<forall>x \<in> set s. ascii_space x")
    case True
    then have "dropWhile ascii_space (rev s @ t) = dropWhile ascii_space t" for t
      by (intro dropWhile_append2) simp
    note drop = this
    have "dropWhile ascii_space (rev s) = []" using True by (simp add: dropWhile_eq_Nil_conv)
    note nil = this
    show ?thesis by (simp add: last_mark_def nil drop)
  next
    case False
    then obtain x where "x \<in> set (rev s)" "\<not> ascii_space x" by auto
    then have "dropWhile ascii_space (rev s @ [b]) = dropWhile ascii_space (rev s) @ [b]"
      "dropWhile ascii_space (rev s) \<noteq> []"
      by (auto simp: dropWhile_append1 dropWhile_eq_Nil_conv)
    then obtain a as where "dropWhile ascii_space (rev s) = a # as" "dropWhile ascii_space (rev s @ [b]) = a # as @ [b]"
      by (cases "dropWhile ascii_space (rev s)") auto
    then show ?thesis by (simp only: last_mark_def rev.simps list.case)
  qed
qed

lemma last_mark_append: "last_mark prev (s @ t) = last_mark (last_mark prev s) t"
  by (induction s arbitrary: prev) simp_all

lemma slash_not_space: "\<not> ascii_space SLASH"
  by (simp add: ascii_space_def)

lemma ends_with_slash_mark: "ends_with_slash s \<longleftrightarrow> last_mark None s = Some SLASH"
proof
  assume "ends_with_slash s"
  then obtain a t where s: "s = a @ SLASH # t" "list_all ascii_space t" by (auto simp: ends_with_slash_def)
  have "last_mark prev t = prev" for prev using s(2) by (induction t) simp_all
  then show "last_mark None s = Some SLASH" using s(1) slash_not_space by (simp add: last_mark_append)
next
  assume mark: "last_mark None s = Some SLASH"
  have "last_mark prev s = Some SLASH \<Longrightarrow> prev = Some SLASH \<and> list_all ascii_space s \<or> ends_with_slash s" for prev
  proof (induction s arbitrary: prev)
    case (Cons b s)
    show ?case
    proof (cases "ascii_space b")
      case True
      with Cons consider "prev = Some SLASH" "list_all ascii_space s" | "ends_with_slash s" by auto
      then show ?thesis
      proof cases
        case 1
        with True show ?thesis by simp
      next
        case 2
        then show ?thesis unfolding ends_with_slash_def by (metis append_Cons)
      qed
    next
      case False
      with Cons consider "b = SLASH" "list_all ascii_space s" | "ends_with_slash s" by auto
      then show ?thesis
      proof cases
        case 1
        then show ?thesis unfolding ends_with_slash_def by (metis append_Cons append_Nil)
      next
        case 2
        then show ?thesis unfolding ends_with_slash_def by (metis append_Cons)
      qed
    qed
  qed simp
  from this [OF mark] show "ends_with_slash s" by simp
qed

definition tag_kind :: "char option \<Rightarrow> think_tag" where
  "tag_kind mark = (if mark = Some SLASH then TagSelfClosing else TagOpen)"

lemma tag_end_quote:
  "q \<notin> set t \<Longrightarrow> tag_end (Some q) prev (t @ q # s) n = tag_end None prev s (n + length t + 1)"
  by (induction t arbitrary: n) auto

lemma tag_end_attrs:
  "outside_quotes attrs \<Longrightarrow>
     tag_end None prev (attrs @ GT # v) n = Some (tag_kind (last_mark prev attrs), n + length attrs + 1)"
proof (induction arbitrary: prev n rule: outside_quotes.induct)
  case oq_nil
  have "\<not> quote_byte GT" by (simp add: quote_byte_iff)
  then show ?case by (simp add: tag_kind_def)
next
  case (oq_plain b s)
  then have "\<not> quote_byte b" by (simp add: quote_byte_iff)
  with oq_plain show ?case by simp
next
  case (oq_quoted q t s)
  then have q: "quote_byte q" by (simp add: quote_byte_iff)
  have "last_mark (Some q) (t @ q # s) = last_mark (Some q) s"
    using quotes_not_space [OF q] by (simp add: last_mark_append)
  with q quotes_not_space [OF q] oq_quoted tag_end_quote [OF oq_quoted.hyps(2), of "Some q" "s @ GT # v" "Suc n"]
  show ?case by simp
qed

lemma tag_end_reads:
  "tag_end q prev s n = Some (kind, m) \<Longrightarrow>
    (case q of
       None \<Rightarrow> \<exists>attrs v. s = attrs @ GT # v \<and> outside_quotes attrs
     | Some c \<Rightarrow> quote_byte c \<longrightarrow> (\<exists>t attrs v. s = t @ c # attrs @ GT # v \<and> c \<notin> set t \<and> outside_quotes attrs))"
proof (induction q prev s n rule: tag_end.induct)
  case (2 q prev b bs n)
  show ?case
  proof (cases "b = q")
    case True
    with 2 obtain attrs v where "bs = attrs @ GT # v" "outside_quotes attrs" by auto
    then have "b # bs = [] @ q # attrs @ GT # v" "q \<notin> set []" "outside_quotes attrs" using True by simp_all
    then have "\<exists>t attrs v. b # bs = t @ q # attrs @ GT # v \<and> q \<notin> set t \<and> outside_quotes attrs" by blast
    then show ?thesis by simp
  next
    case False
    with 2 have "quote_byte q \<longrightarrow> (\<exists>t attrs v. bs = t @ q # attrs @ GT # v \<and> q \<notin> set t \<and> outside_quotes attrs)" by simp
    then have "quote_byte q \<longrightarrow> (\<exists>t attrs v. b # bs = t @ q # attrs @ GT # v \<and> q \<notin> set t \<and> outside_quotes attrs)"
      using False by (metis append_Cons set_ConsD)
    then show ?thesis by simp
  qed
next
  case (3 prev b bs n)
  show ?case
  proof (cases "quote_byte b")
    case True
    with 3 obtain t attrs v where "bs = t @ b # attrs @ GT # v" "b \<notin> set t" "outside_quotes attrs" by auto
    then have "b # bs = (b # t @ b # attrs) @ GT # v" "outside_quotes (b # t @ b # attrs)"
      using True oq_quoted [of b t attrs] by (simp_all add: quote_byte_iff)
    then have "\<exists>attrs v. b # bs = attrs @ GT # v \<and> outside_quotes attrs" by blast
    then show ?thesis by simp
  next
    case False
    note b = this
    show ?thesis
    proof (cases "b = GT")
      case True
      then have "b # bs = [] @ GT # bs \<and> outside_quotes []" by (simp add: oq_nil)
      then have "\<exists>attrs v. b # bs = attrs @ GT # v \<and> outside_quotes attrs" by blast
      then show ?thesis by simp
    next
      case GT: False
      with 3 b have "\<exists>attrs v. bs = attrs @ GT # v \<and> outside_quotes attrs" by (simp split: if_splits)
      then obtain attrs v where "bs = attrs @ GT # v" "outside_quotes attrs" by blast
      with b GT oq_plain [of b attrs] have "b # bs = (b # attrs) @ GT # v \<and> outside_quotes (b # attrs)"
        by (simp add: quote_byte_iff)
      then have "\<exists>attrs v. b # bs = attrs @ GT # v \<and> outside_quotes attrs" by blast
      then show ?thesis by simp
    qed
  qed
qed simp

lemma name_alphabetic:
  assumes "think_name name"
  shows "list_all ascii_alphabetic name" "name \<noteq> []"
proof -
  have "ascii_alphabetic c" if "ascii_alphabetic (ascii_lower c)" for c
  proof (cases "(65::nat) \<le> of_char c \<and> (of_char c::nat) \<le> 90")
    case True
    then show ?thesis by (simp add: ascii_alphabetic_def)
  next
    case False
    then have "ascii_lower c = c" by (auto simp: ascii_lower_def Let_def)
    with that show ?thesis by simp
  qed
  moreover have "list_all ascii_alphabetic (map ascii_lower name)"
    using assms by (auto simp: think_name_def ascii_alphabetic_def)
  ultimately show "list_all ascii_alphabetic name" by (auto simp: list_all_iff)
  show "name \<noteq> []" using assms by (rule think_name_nonempty)
qed

lemma markup_parsed: "think_markup kind u \<Longrightarrow> parse_think_tag (u @ v) = Some (kind, length u)"
proof (induction rule: think_markup.induct)
  case (tm_close name s)
  then have name: "think_name name" by (simp add: think_name_def)
  have GT: "\<not> ascii_space GT" "\<not> ascii_alphabetic GT" by (simp_all add: ascii_space_def ascii_alphabetic_def)
  have "rest = [] \<or> \<not> ascii_alphabetic (hd rest)" if "rest = s @ GT # v" for rest
    using that tm_close(2) GT(2) alphabetic_plain by (cases s) auto
  moreover have "close_tag (s @ GT # v) n = Some (TagClose, n + length s + 1)" for n
    using tm_close(2) GT(1) by (simp add: close_tag_def takeWhile_append2 dropWhile_append2 list_all_iff)
  ultimately show ?case
    using parse_head [OF name_alphabetic(1) [OF name] _ name_alphabetic(2) [OF name], of "s @ GT # v" True] name
    by (simp add: tag_head_def tag_body_def)
next
  case (tm_open name attrs)
  then have name: "think_name name" by (simp add: think_name_def)
  obtain b r where rest: "attrs @ GT # v = b # r" by (cases attrs) auto
  have b: "open_boundary b" using tm_open(3) rest by (cases attrs) (auto simp: open_boundary_def)
  have "\<not> ascii_alphabetic b" using b alphabetic_plain [of b] by (auto simp: open_boundary_def)
  then have "rest = [] \<or> \<not> ascii_alphabetic (hd rest)" if "rest = attrs @ GT # v" for rest using that rest by simp
  moreover have "open_tag (attrs @ GT # v) n = Some (tag_kind (last_mark None attrs), n + length attrs + 1)" for n
    using tag_end_attrs [OF tm_open(2), of None v n] b rest by (simp add: open_tag_def)
  ultimately show ?case
    using parse_head [OF name_alphabetic(1) [OF name] _ name_alphabetic(2) [OF name], of "attrs @ GT # v" False] name
    by (simp add: tag_head_def tag_body_def ends_with_slash_mark tag_kind_def)
qed

lemma parsed_markup:
  assumes "parse_think_tag s = Some (kind, n)"
  obtains u v where "s = u @ v" "length u = n" "think_markup kind u"
proof -
  from assms obtain is_close name rest where s: "s = tag_head is_close name @ rest" and name: "think_name name"
    and body: "tag_body is_close rest (length (tag_head is_close name)) = Some (kind, n)"
    and rest: "rest \<noteq> []"
    by (rule parse_cases)
  have "\<exists>k u v. s = u @ v \<and> think_markup k u"
  proof (cases is_close)
    case True
    with body obtain bs where "dropWhile ascii_space rest = GT # bs"
      by (auto simp: tag_body_def close_tag_def split: list.splits if_splits)
    then have "rest = takeWhile ascii_space rest @ GT # bs" by (metis takeWhile_dropWhile_id)
    moreover have "list_all ascii_space (takeWhile ascii_space rest)" by (auto simp: list_all_iff dest: set_takeWhileD)
    ultimately show ?thesis
      using s True tm_close [of name "takeWhile ascii_space rest"] name
      by (intro exI [of _ TagClose] exI [of _ "''</'' @ name @ takeWhile ascii_space rest @ ''>''"] exI [of _ bs])
        (simp add: tag_head_def think_name_def)
  next
    case False
    with body obtain b bs where b: "rest = b # bs" "open_boundary b"
      and te: "tag_end None None rest (length (tag_head is_close name)) = Some (kind, n)"
      by (auto simp: tag_body_def open_tag_def split: list.splits if_splits)
    from tag_end_reads [OF te] obtain attrs v where attrs: "rest = attrs @ GT # v" "outside_quotes attrs" by auto
    have "attrs = [] \<or> hd attrs = CHR ''/'' \<or> ascii_space (hd attrs)"
      using b attrs by (cases attrs) (auto simp: open_boundary_def elim: outside_quotes.cases)
    then show ?thesis
      using s False tm_open [of name attrs] name attrs
      by (intro exI [of _ "if ends_with_slash attrs then TagSelfClosing else TagOpen"]
          exI [of _ "''<'' @ name @ attrs @ ''>''"] exI [of _ v])
        (simp add: tag_head_def think_name_def)
  qed
  then obtain k u v where "s = u @ v" "think_markup k u" by blast
  with markup_parsed [of k u v] assms that show ?thesis by auto
qed

lemma parse_iff:
  "parse_think_tag s = Some (kind, n) \<longleftrightarrow> (\<exists>u v. s = u @ v \<and> length u = n \<and> think_markup kind u)"
  using parsed_markup markup_parsed by metis

subsection \<open>What the beginning of a tag looks like\<close>

text \<open>A letter in either case; \<open>k\<close> is also spelled as the Kelvin sign.\<close>

definition spellings :: "char \<Rightarrow> string list" where
  "spellings c = [c] # [char_of (of_char c - 32 :: nat)] #
     (if c = CHR ''k'' then [[byte 0xE2, byte 0x84, byte 0xAA]] else [])"

text \<open>The first letters of \<open>thinking\<close>, at least one.\<close>

definition begins_name :: "string \<Rightarrow> bool" where
  "begins_name u \<longleftrightarrow> (\<exists>es. es \<noteq> [] \<and> u = concat es \<and>
     list_all2 (\<lambda>e c. e \<in> set (spellings c)) es (take (length es) ''thinking''))"

text \<open>
  A text that may yet become a tag: there is no \<open>>\<close> in it outside quotes, and it begins like an
  opening tag, whose name may be followed by a slash or by a blank and anything, or like a closing
  one, whose name may be followed by blanks.
\<close>

definition unfinished :: "string \<Rightarrow> bool" where
  "unfinished s \<longleftrightarrow> (\<nexists>u v. s = u @ ''>'' @ v \<and> outside_quotes u) \<and>
     (\<exists>u v. begins_name u \<and>
       (s = ''<'' @ u @ v \<and> (v = [] \<or> v = ''/'' \<or> strip_any whitespace v \<noteq> None) \<or>
        s = ''</'' @ u @ v \<and> trim_start v = []))"

lemma spelled_thinking: "THINKING_LETTERS = map spellings ''thinking''"
  by code_simp

text \<open>Spellings of one letter are told apart by how they begin.\<close>

definition told_apart :: "string list \<Rightarrow> bool" where
  "told_apart L \<longleftrightarrow> list_all (\<lambda>a. a \<noteq> [] \<and> list_all (\<lambda>b. strip_prefix a b = None \<or> a = b) L) L"

lemma thinking_told_apart: "list_all told_apart THINKING_LETTERS"
  by code_simp

lemma told_apart_heads:
  assumes "told_apart L" "a \<in> set L" "e \<in> set L" "a @ r = e @ t"
  shows "a = e"
proof -
  have "prefix a e \<or> prefix e a" using assms(4) by (metis prefixI prefix_same_cases)
  then have "strip_prefix a e \<noteq> None \<or> strip_prefix e a \<noteq> None"
    by (auto simp: prefix_def strip_prefix_Some_iff)
  moreover have "strip_prefix a e = None \<or> a = e" "strip_prefix e a = None \<or> e = a"
    using assms(1-3) by (simp_all add: told_apart_def list_all_iff)
  ultimately show ?thesis by auto
qed

lemma strip_any_spelled:
  assumes "told_apart L"
  shows "strip_any L s = Some r \<longleftrightarrow> (\<exists>e \<in> set L. s = e @ r)"
proof
  assume "strip_any L s = Some r"
  then show "\<exists>e \<in> set L. s = e @ r"
    by (auto simp: strip_any_def strip_prefix_Some_iff dest!: find_map_SomeD split: if_splits)
next
  assume "\<exists>e \<in> set L. s = e @ r"
  then obtain e where e: "e \<in> set L" "s = e @ r" by blast
  have "e \<noteq> []" using assms e(1) by (auto simp: told_apart_def list_all_iff)
  have "strip_any M s = Some r" if "set M \<subseteq> set L" "e \<in> set M" for M
    using that
  proof (induction M)
    case (Cons a M)
    show ?case
    proof (cases "a = e")
      case True
      then show ?thesis using e(2) \<open>e \<noteq> []\<close> by (simp add: strip_any_Cons strip_prefix_Some_iff)
    next
      case False
      have "strip_prefix a s = None"
      proof (rule ccontr)
        assume "strip_prefix a s \<noteq> None"
        then obtain t where "s = a @ t" by (auto simp: strip_prefix_Some_iff)
        with told_apart_heads [OF assms _ e(1), of a t r] Cons.prems(1) e(2) False show False by simp
      qed
      with Cons False show ?thesis by (simp add: strip_any_Cons)
    qed
  qed simp
  with e(1) show "strip_any L s = Some r" by blast
qed

lemma name_rests_iff:
  assumes "list_all told_apart Ls"
  shows "t \<in> set (name_rests Ls s) \<longleftrightarrow>
    (\<exists>es. es \<noteq> [] \<and> s = concat es @ t \<and> list_all2 (\<lambda>e L. e \<in> set L) es (take (length es) Ls))"
  using assms
proof (induction Ls arbitrary: s)
  case Nil
  then show ?case by (auto simp: list_all2_Nil2)
next
  case (Cons L Ls)
  then have L: "told_apart L" and IH: "\<And>s. t \<in> set (name_rests Ls s) \<longleftrightarrow>
    (\<exists>es. es \<noteq> [] \<and> s = concat es @ t \<and> list_all2 (\<lambda>e L. e \<in> set L) es (take (length es) Ls))" by simp_all
  have "t \<in> set (name_rests (L # Ls) s) \<longleftrightarrow> (\<exists>e \<in> set L. \<exists>r. s = e @ r \<and> (t = r \<or> t \<in> set (name_rests Ls r)))"
    using strip_any_spelled [OF L, of s] by (cases "strip_any L s") (auto, metis+)
  also have "\<dots> \<longleftrightarrow> (\<exists>es. es \<noteq> [] \<and> s = concat es @ t \<and>
      list_all2 (\<lambda>e L. e \<in> set L) es (take (length es) (L # Ls)))" (is "?l \<longleftrightarrow> ?r")
  proof
    assume ?l
    then obtain e r where e: "e \<in> set L" "s = e @ r" "t = r \<or> t \<in> set (name_rests Ls r)" by blast
    then consider "t = r" | es where "es \<noteq> []" "r = concat es @ t" "list_all2 (\<lambda>e L. e \<in> set L) es (take (length es) Ls)"
      using IH by blast
    then show ?r
    proof cases
      case 1
      with e show ?r by (intro exI [of _ "[e]"]) simp
    next
      case 2
      with e show ?r by (intro exI [of _ "e # es"]) simp
    qed
  next
    assume ?r
    then obtain es where es: "es \<noteq> []" "s = concat es @ t" "list_all2 (\<lambda>e L. e \<in> set L) es (take (length es) (L # Ls))"
      by blast
    then obtain e es' where e: "es = e # es'" by (cases es) auto
    with es have "e \<in> set L" "s = e @ concat es' @ t" "list_all2 (\<lambda>e L. e \<in> set L) es' (take (length es') Ls)" by auto
    moreover have "t = concat es' @ t \<or> t \<in> set (name_rests Ls (concat es' @ t))"
    proof (cases "es' = []")
      case False
      with calculation(3) IH show ?thesis by blast
    qed simp
    ultimately show ?l by blast
  qed
  finally show ?case .
qed

lemma through_concat:
  "(\<exists>es. P es \<and> s = concat es @ t \<and> Q es) \<longleftrightarrow> (\<exists>u. (\<exists>es. P es \<and> u = concat es \<and> Q es) \<and> s = u @ t)"
  by auto

lemma names_begun: "t \<in> set (name_rests THINKING_LETTERS s) \<longleftrightarrow> (\<exists>u. begins_name u \<and> s = u @ t)"
  unfolding name_rests_iff [OF thinking_told_apart] begins_name_def
  unfolding spelled_thinking take_map list_all2_map2 by (rule through_concat)

lemma unquoted_tag_end: "unquoted_gt q s \<longleftrightarrow> tag_end q prev s n \<noteq> None"
  by (induction q prev s n rule: tag_end.induct) auto

lemma unquoted_iff: "contains_unquoted_gt s \<longleftrightarrow> (\<exists>u v. s = u @ ''>'' @ v \<and> outside_quotes u)"
proof
  assume "contains_unquoted_gt s"
  then obtain r where "tag_end None None s 0 = Some r"
    using unquoted_tag_end [of None s None 0] by (auto simp: contains_unquoted_gt_def)
  then show "\<exists>u v. s = u @ ''>'' @ v \<and> outside_quotes u"
    using tag_end_reads [of None None s 0 "fst r" "snd r"] by auto
next
  assume "\<exists>u v. s = u @ ''>'' @ v \<and> outside_quotes u"
  then obtain u v where "s = u @ GT # v" "outside_quotes u" by auto
  then show "contains_unquoted_gt s"
    using tag_end_attrs [of u None v 0] unquoted_tag_end [of None s None 0] by (auto simp: contains_unquoted_gt_def)
qed

lemma unfinished_iff: "unfinished s \<longleftrightarrow> is_possible_partial_think_tag s"
proof -
  have "partial_open s \<longleftrightarrow> (\<exists>u v. begins_name u \<and> s = ''<'' @ u @ v \<and> (v = [] \<or> v = ''/'' \<or> strip_any whitespace v \<noteq> None))"
    by (cases "strip_prefix [LT] s")
      (auto simp: partial_open_def strip_prefix_Some_iff list_ex_iff names_begun open_pattern_tail_def, force+)
  moreover have "partial_close s \<longleftrightarrow> (\<exists>u v. begins_name u \<and> s = ''</'' @ u @ v \<and> trim_start v = [])"
    by (cases "strip_prefix [LT, SLASH] s")
      (auto simp: partial_close_def strip_prefix_Some_iff list_ex_iff names_begun close_pattern_tail_def, force+)
  ultimately show ?thesis
    unfolding unfinished_def is_possible_partial_think_tag_def unquoted_iff by blast
qed

subsection \<open>How a text reads\<close>

definition begins_with_tag :: "string \<Rightarrow> bool" where
  "begins_with_tag s \<longleftrightarrow> (\<exists>kind u v. s = u @ v \<and> think_markup kind u)"

text \<open>
  \<open>reads d s answer thoughts\<close>: behind \<open>d\<close> open tags, the text \<open>s\<close> is this answer and these
  thoughts.  From the left: a tag is left out and changes the depth, but a closing tag without an
  open one is text, and so is a tag of more than 8192 bytes as a whole; what may yet become a
  tag is text to its end; any other character is text.  Text is an answer at depth 0 and a
  thought elsewhere.
\<close>

inductive reads :: "nat \<Rightarrow> string \<Rightarrow> string \<Rightarrow> string \<Rightarrow> bool" where
  r_end: "reads d [] [] []"
| r_tag: "think_markup kind u \<Longrightarrow> length u \<le> 8192 \<Longrightarrow> kind \<noteq> TagClose \<or> 0 < d \<Longrightarrow>
    reads (case kind of TagOpen \<Rightarrow> d + 1 | TagClose \<Rightarrow> d - 1 | TagSelfClosing \<Rightarrow> d) v answer thoughts \<Longrightarrow>
    reads d (u @ v) answer thoughts"
| r_long: "think_markup kind u \<Longrightarrow> 8192 < length u \<Longrightarrow> reads d v answer thoughts \<Longrightarrow>
    reads d (u @ v) (if d = 0 then u @ answer else answer) (if d = 0 then thoughts else u @ thoughts)"
| r_stray: "think_markup TagClose (c # u) \<Longrightarrow> length (c # u) \<le> 8192 \<Longrightarrow> reads 0 (u @ v) answer thoughts \<Longrightarrow>
    reads 0 (c # u @ v) (c # answer) thoughts"
| r_held: "\<not> begins_with_tag s \<Longrightarrow> unfinished s \<Longrightarrow>
    reads d s (if d = 0 then s else []) (if d = 0 then [] else s)"
| r_text: "\<not> begins_with_tag (c # s) \<Longrightarrow> \<not> unfinished (c # s) \<Longrightarrow> reads d s answer thoughts \<Longrightarrow>
    reads d (c # s) (if d = 0 then c # answer else answer) (if d = 0 then thoughts else c # thoughts)"

lemma no_tag_iff: "\<not> begins_with_tag s \<longleftrightarrow> parse_think_tag s = None"
  using parse_iff [of s] unfolding begins_with_tag_def by (metis not_None_eq surj_pair)

text \<open>A filter behind \<open>d\<close> open tags, and what it gives out in the end.\<close>

definition behind :: "nat \<Rightarrow> string \<Rightarrow> think_filter" where
  "behind d s = \<lparr>tf_buffer = s, tf_inside = (0 < d), tf_depth = d\<rparr>"

definition given :: "nat \<Rightarrow> string \<Rightarrow> filter_out \<Rightarrow> filter_out" where
  "given d s out = finish_onto (process_events out (behind d s))"

definition plus :: "filter_out \<Rightarrow> string \<Rightarrow> string \<Rightarrow> filter_out" where
  "plus out answer thoughts = \<lparr>fo_content = fo_content out @ answer, fo_thinking = fo_thinking out @ thoughts\<rparr>"

lemma behind_simps [simp]:
  "tf_buffer (behind d s) = s" "tf_inside (behind d s) = (0 < d)" "tf_depth (behind d s) = d"
  "at_buffer (behind d s) t = behind d t"
  by (simp_all add: behind_def at_buffer_def del: at_buffer_simps(5))

lemma apply_tag_behind:
  "apply_tag kind (behind d s) = behind (case kind of TagOpen \<Rightarrow> d + 1 | TagClose \<Rightarrow> d - 1 | TagSelfClosing \<Rightarrow> d) s"
  by (cases kind) (simp_all add: apply_tag_def behind_def del: at_buffer_simps(5))

lemma plus_push:
  fixes d :: nat
  shows "plus (push_out (0 < d) s out) answer thoughts =
  plus out (if d = 0 then s @ answer else answer) (if d = 0 then thoughts else s @ thoughts)"
  by (simp add: plus_def push_out_def)

lemma push_plus:
  fixes d :: nat
  shows "push_out (0 < d) s out = plus out (if d = 0 then s else []) (if d = 0 then [] else s)"
  by (simp add: plus_def push_out_def)

lemma given_text:
  assumes "skipped (0 < d) (c # s)"
  shows "given d (c # s) out = given d s (push_out (0 < d) [c] out)"
  using process_quiet [of "behind d (c # s)" "[c]" s out] assms by (simp add: given_def)

lemma given_tag:
  assumes "\<not> skipped (0 < d) (u @ v)" and "parse_think_tag (u @ v) = Some (kind, length u)"
  shows "given d (u @ v) out =
    (if 8192 < length u then given d v (push_out (0 < d) u out)
     else given (case kind of TagOpen \<Rightarrow> d + 1 | TagClose \<Rightarrow> d - 1 | TagSelfClosing \<Rightarrow> d) v out)"
  using process_tag [of "behind d (u @ v)" "[]" "u @ v" kind "length u" out] assms
  by (simp add: given_def apply_tag_behind MAX_BUFFERED_THINK_TAG_BYTES_def)

lemma finish_done: "finish_onto (out, behind d []) = out"
  using process_nothing [of "behind d []" "[]" out] by (simp add: finish_onto_def)

lemma given_end: "given d [] out = out"
  using process_nothing [of "behind d []" "[]"] by (simp add: given_def finish_onto_def)

lemma given_held:
  assumes "\<not> skipped (0 < d) s" and "parse_think_tag s = None"
  shows "given d s out = push_out (0 < d) s out"
proof -
  have held: "process_events o1 (behind d s) =
      (if 8192 < length s then (push_out (0 < d) s o1, behind d []) else (o1, behind d s))" for o1
    using process_partial [of "behind d s" "[]" s o1] assms by (simp add: MAX_BUFFERED_THINK_TAG_BYTES_def)
  show ?thesis
  proof (cases "8192 < length s")
    case True
    then have "given d s out = finish_onto (push_out (0 < d) s out, behind d [])"
      by (simp only: given_def held if_True)
    then show ?thesis by (simp only: finish_done)
  next
    case False
    with held show ?thesis by (simp add: given_def finish_onto_def)
  qed
qed

lemma tag_not_skipped:
  "parse_think_tag s = Some (kind, n) \<Longrightarrow>
     skipped inside s \<longleftrightarrow> n \<le> 8192 \<and> \<not> inside \<and> kind = TagClose"
  by (cases s) (auto simp: skipped_def parse_think_tag_def MAX_BUFFERED_THINK_TAG_BYTES_def split: if_splits)

lemma no_tag_skipped:
  assumes "parse_think_tag s = None"
  shows "skipped inside s \<longleftrightarrow> \<not> is_possible_partial_think_tag s"
proof (cases s)
  case Nil
  then show ?thesis by (simp add: skipped_def is_possible_partial_think_tag_def partial_open_def partial_close_def)
next
  case (Cons c cs)
  have "c \<noteq> LT \<Longrightarrow> \<not> is_possible_partial_think_tag (c # cs)"
    by (simp add: is_possible_partial_think_tag_def partial_open_def partial_close_def)
  with Cons assms show ?thesis by (auto simp: skipped_def)
qed

text \<open>The filter gives out what the text reads.\<close>

lemma reads_given: "reads d s answer thoughts \<Longrightarrow> given d s out = plus out answer thoughts"
proof (induction arbitrary: out rule: reads.induct)
  case (r_end d)
  show ?case by (simp add: given_end plus_def)
next
  case (r_tag kind u d v answer thoughts)
  note parse = markup_parsed [OF r_tag.hyps(1), of v]
  have "\<not> skipped (0 < d) (u @ v)" using tag_not_skipped [OF parse] r_tag.hyps(3) by auto
  from given_tag [OF this parse] r_tag.hyps(2) r_tag.IH show ?case by simp
next
  case (r_long kind u d v answer thoughts)
  note parse = markup_parsed [OF r_long.hyps(1), of v]
  have "\<not> skipped (0 < d) (u @ v)" using tag_not_skipped [OF parse] r_long.hyps(2) by auto
  from given_tag [OF this parse] r_long.hyps(2) r_long.IH show ?case by (simp add: plus_push)
next
  case (r_stray c u v answer thoughts)
  note parse = markup_parsed [OF r_stray.hyps(1), of v]
  have "skipped (0 < (0::nat)) (c # u @ v)" using tag_not_skipped [OF parse] r_stray.hyps(2) by simp
  from given_text [OF this] r_stray.IH plus_push [of 0] show ?case by simp
next
  case (r_held s d)
  then have "parse_think_tag s = None" "\<not> skipped (0 < d) s"
    using no_tag_iff no_tag_skipped unfinished_iff by blast+
  from given_held [OF this(2,1)] show ?case by (simp only: push_plus)
next
  case (r_text c s d answer thoughts)
  then have "skipped (0 < d) (c # s)" using no_tag_iff no_tag_skipped unfinished_iff by blast
  from given_text [OF this] r_text.IH plus_push [of d "[c]"] show ?case by simp
qed

text \<open>Every text reads in some way.\<close>

lemma reads_total: "\<exists>answer thoughts. reads d s answer thoughts"
proof (induction "length s" arbitrary: d s rule: less_induct)
  case less
  show ?case
  proof (cases s)
    case Nil
    then show ?thesis using r_end by blast
  next
    case (Cons c s')
    show ?thesis
    proof (cases "begins_with_tag s")
      case True
      then obtain kind u v where u: "s = u @ v" "think_markup kind u" by (auto simp: begins_with_tag_def)
      then have "u \<noteq> []" by (auto elim: think_markup.cases)
      then have IH: "\<exists>answer thoughts. reads d' v answer thoughts" for d' using less u(1) by simp
      consider (long) "8192 < length u" | (tag) "length u \<le> 8192" "kind \<noteq> TagClose \<or> 0 < d"
        | (stray) "length u \<le> 8192" "kind = TagClose" "d = 0" by linarith
      then show ?thesis
      proof cases
        case long
        with IH [of d] u r_long show ?thesis by blast
      next
        case tag
        with IH u r_tag show ?thesis by metis
      next
        case stray
        obtain b u' where b: "u = b # u'" using \<open>u \<noteq> []\<close> by (cases u) auto
        then obtain answer thoughts where "reads 0 (u' @ v) answer thoughts" using less u(1) by fastforce
        with r_stray [of b u' v] stray u b show ?thesis by auto
      qed
    next
      case False
      show ?thesis
      proof (cases "unfinished s")
        case True
        with False r_held show ?thesis by blast
      next
        case False
        obtain answer thoughts where "reads d s' answer thoughts" using less Cons by fastforce
        with r_text [of c s' d] Cons \<open>\<not> begins_with_tag s\<close> False show ?thesis by blast
      qed
    qed
  qed
qed

lemma split_given: "split_think_blocks s = (fo_content (given 0 s filter_out_default), fo_thinking (given 0 s filter_out_default))"
proof -
  have "at_buffer think_filter_new s = behind 0 s"
    by (simp add: think_filter_new_def at_buffer_def behind_def del: at_buffer_simps(5))
  then have "foldl push_onto (filter_out_default, think_filter_new) [s] = process_events filter_out_default (behind 0 s)"
    by (simp add: push_onto_process new_buffer)
  then show ?thesis by (simp only: split_think_blocks_stream think_stream_finish given_def Let_def)
qed

lemma split_reads: "split_think_blocks s = (answer, thoughts) \<longleftrightarrow> reads 0 s answer thoughts"
proof -
  have read: "split_think_blocks s = (a, t)" if "reads 0 s a t" for a t
    using reads_given [OF that, of filter_out_default]
    by (simp add: split_given plus_def filter_out_default_def)
  show ?thesis using read reads_total [of 0 s] by (metis Pair_inject)
qed

text \<open>
  C27: What the filter shows as the answer and what as thoughts is exactly how the text reads by
  the grammar of the tags: a whole text whatever it is, and a text that is streamed as long as it
  has at most 8192 bytes, every piece is whole characters, and no piece ends behind \<open><\<close>, \<open></\<close> or a
  tag whose name a slash and more follow.
\<close>

theorem think_text_read:
  assumes "length chunks = 1 \<or>
    length (concat chunks) \<le> 8192 \<and> (\<forall>chunk \<in> set chunks. whole_characters chunk) \<and>
    (\<forall>i < length chunks. \<not> awkward_cut (concat (take i chunks)))"
  shows "think_stream chunks = (answer, thoughts) \<longleftrightarrow> reads 0 (concat chunks) answer thoughts"
proof -
  have "think_stream chunks = split_think_blocks (concat chunks)"
  proof (cases "length chunks = 1")
    case True
    then obtain s where "chunks = [s]" by (auto simp: length_Suc_conv)
    then show ?thesis by (simp add: split_think_blocks_stream)
  next
    case False
    with assms show ?thesis
      by (intro think_stream_whole) (simp_all add: MAX_BUFFERED_THINK_TAG_BYTES_def)
  qed
  then show ?thesis by (simp add: split_reads)
qed

text \<open>A text whose thoughts are nested and hold what looks like a tag in quotes.\<close>

lemma think_text_read_witness:
  "reads 0 ''<think a='>'>x</THINK >y'' ''y'' ''x''"
proof -
  have "think_stream [''<think a='>'>x</THINK >y''] = (''y'', ''x'')" by code_simp
  then show ?thesis using think_text_read [of "[''<think a='>'>x</THINK >y'']" "''y''" "''x''"] by simp
qed

subsection \<open>A tag cut behind its bracket\<close>

lemma skipped_plain: "c \<noteq> LT \<Longrightarrow> skipped inside (c # s)"
  by (simp add: skipped_def)

lemma given_plain: "LT \<notin> set x \<Longrightarrow> given d (x @ s) out = given d s (push_out (0 < d) x out)"
proof (induction x arbitrary: out)
  case (Cons c x)
  then have "given d (c # x @ s) out = given d (x @ s) (push_out (0 < d) [c] out)"
    by (intro given_text skipped_plain) auto
  also have "\<dots> = given d s (push_out (0 < d) (c # x) out)"
    using Cons by (simp add: push_out_append)
  finally show ?case by simp
qed simp

lemma lone_bracket: "skipped inside [LT]"
proof -
  have "parse_think_tag [LT] = None" "\<not> is_possible_partial_think_tag [LT]"
    by code_simp+
  then show ?thesis by (simp add: skipped_def)
qed

lemma cut_bracket:
  assumes "LT \<notin> set a"
  shows "think_stream [a @ ''<'', b] = (a @ ''<'' @ fst (split_think_blocks b), snd (split_think_blocks b))"
proof -
  obtain answer thoughts where b: "reads 0 b answer thoughts" using reads_total by blast
  have new: "think_filter_new = behind 0 []" by (simp add: think_filter_new_def behind_def)
  have quiet: "quiet_before False (a @ ''<'') []"
    using assms lone_bracket by (induction a) (auto simp: skipped_plain)
  have "push_onto (filter_out_default, think_filter_new) (a @ ''<'') =
      (push_out False (a @ ''<'') filter_out_default, behind 0 [])"
    using process_nothing [of "behind 0 []" "a @ ''<''" filter_out_default] quiet
    by (simp add: push_onto_process new)
  then have "finish_onto (foldl push_onto (filter_out_default, think_filter_new) [a @ ''<'', b]) =
      given 0 b (push_out False (a @ ''<'') filter_out_default)"
    by (simp add: push_onto_process given_def)
  also have "\<dots> = plus (push_out False (a @ ''<'') filter_out_default) answer thoughts"
    using b by (rule reads_given)
  finally have "think_stream [a @ ''<'', b] = (a @ ''<'' @ answer, thoughts)"
    unfolding think_stream_finish by (simp add: plus_def push_out_def filter_out_default_def)
  moreover have "split_think_blocks b = (answer, thoughts)" using b by (simp add: split_reads)
  ultimately show ?thesis by simp
qed

lemma plain_text: "LT \<notin> set x \<Longrightarrow> given d x out = push_out (0 < d) x out"
  using given_plain [of x d "[]" out] by (simp add: given_end)

lemma name_short: "map ascii_lower name \<in> {''think'', ''thinking''} \<Longrightarrow> length name \<le> 8"
proof -
  assume "map ascii_lower name \<in> {''think'', ''thinking''}"
  then have "map ascii_lower name = ''think'' \<or> map ascii_lower name = ''thinking''" by simp
  then show ?thesis by (auto dest!: arg_cong [where f = length])
qed

lemma name_plain: "map ascii_lower name \<in> {''think'', ''thinking''} \<Longrightarrow> LT \<notin> set name"
  using name_alphabetic(1) [of name] by (auto simp: think_name_def list_all_iff ascii_alphabetic_def)

lemma plain_tags:
  assumes "map ascii_lower name \<in> {''think'', ''thinking''}"
  shows "parse_think_tag (''<'' @ name @ ''>'' @ v) = Some (TagOpen, Suc (Suc (length name)))"
    "parse_think_tag (''</'' @ name @ ''>'' @ v) = Some (TagClose, Suc (Suc (Suc (length name))))"
  using markup_parsed [OF tm_open [OF assms oq_nil], of v] markup_parsed [OF tm_close [OF assms, of "[]"], of v]
  by (simp_all add: ends_with_slash_def)

lemma given_open:
  assumes "map ascii_lower name \<in> {''think'', ''thinking''}"
  shows "given 0 (''<'' @ name @ ''>'' @ v) out = given 1 v out"
proof -
  have parse: "parse_think_tag ((''<'' @ name @ ''>'') @ v) = Some (TagOpen, length (''<'' @ name @ ''>''))"
    using plain_tags(1) [OF assms, of v] by simp
  have "\<not> skipped (0 < (0::nat)) ((''<'' @ name @ ''>'') @ v)"
    unfolding tag_not_skipped [OF parse] by simp
  from given_tag [OF this parse, of out] name_short [OF assms] show ?thesis by simp
qed

lemma given_close:
  assumes "map ascii_lower name \<in> {''think'', ''thinking''}"
  shows "given 1 (''</'' @ name @ ''>'' @ v) out = given 0 v out"
proof -
  have parse: "parse_think_tag ((''</'' @ name @ ''>'') @ v) = Some (TagClose, length (''</'' @ name @ ''>''))"
    using plain_tags(2) [OF assms, of v] by simp
  have "\<not> skipped (0 < (1::nat)) ((''</'' @ name @ ''>'') @ v)"
    unfolding tag_not_skipped [OF parse] by simp
  from given_tag [OF this parse, of out] name_short [OF assms] show ?thesis by simp
qed

lemma given_stray:
  assumes "map ascii_lower name \<in> {''think'', ''thinking''}" and "LT \<notin> set v"
  shows "given 0 (''</'' @ name @ ''>'' @ v) out = push_out False (''</'' @ name @ ''>'' @ v) out"
proof -
  have parse: "parse_think_tag (LT # ''/'' @ name @ ''>'' @ v) = Some (TagClose, Suc (Suc (Suc (length name))))"
    using plain_tags(2) [OF assms(1), of v] by simp
  have "skipped (0 < (0::nat)) (LT # ''/'' @ name @ ''>'' @ v)"
    unfolding tag_not_skipped [OF parse] using name_short [OF assms(1)] by simp
  from given_text [OF this, of out] plain_text [of "''/'' @ name @ ''>'' @ v" 0 "push_out False ''<'' out"]
    name_plain [OF assms(1)] assms(2)
  show ?thesis by (simp add: push_out_append)
qed

text \<open>
  C28: When a piece of a stream ends right behind the \<open><\<close> of an opening think tag, and no \<open><\<close> comes
  before it, the tag is not recognised: the bracket is answer text and the following piece is read
  as if it began there.  So the whole reasoning that the tag opens is shown in the answer, tags and
  all, whatever it says, although the same text in one piece is split into its thoughts and its
  answer.
\<close>

theorem think_tag_cut_leaks:
  assumes "CHR ''<'' \<notin> set a"
    and "map ascii_lower name \<in> {''think'', ''thinking''}" and "CHR ''<'' \<notin> set x"
    and "map ascii_lower name' \<in> {''think'', ''thinking''}" and "CHR ''<'' \<notin> set y"
  shows "think_stream [a @ ''<'', b] = (a @ ''<'' @ fst (split_think_blocks b), snd (split_think_blocks b)) \<and>
    think_stream [a @ ''<'', name @ ''>'' @ x @ ''</'' @ name' @ ''>'' @ y] =
      (a @ ''<'' @ name @ ''>'' @ x @ ''</'' @ name' @ ''>'' @ y, []) \<and>
    split_think_blocks (a @ ''<'' @ name @ ''>'' @ x @ ''</'' @ name' @ ''>'' @ y) = (a @ y, x)"
proof -
  let ?rest = "name @ ''>'' @ x @ ''</'' @ name' @ ''>'' @ y"
  have "given 0 ?rest out = push_out False ?rest out" for out
    using given_plain [of "name @ ''>'' @ x" 0 "''</'' @ name' @ ''>'' @ y" out] name_plain [OF assms(2)] assms(3)
      given_stray [OF assms(4,5), of "push_out False (name @ ''>'' @ x) out"]
    by (simp add: push_out_append)
  then have rest: "split_think_blocks ?rest = (?rest, [])"
    unfolding split_given by (simp add: push_out_def filter_out_default_def)
  have "given 0 (a @ ''<'' @ ?rest) out = push_out False y (push_out True x (push_out False a out))" for out
    using given_plain [OF assms(1), of 0 "''<'' @ ?rest" out]
      given_open [OF assms(2), of "x @ ''</'' @ name' @ ''>'' @ y" "push_out False a out"]
      given_plain [OF assms(3), of 1 "''</'' @ name' @ ''>'' @ y" "push_out False a out"]
      given_close [OF assms(4), of y "push_out True x (push_out False a out)"]
      plain_text [OF assms(5), of 0 "push_out True x (push_out False a out)"]
    by simp
  then have "split_think_blocks (a @ ''<'' @ ?rest) = (a @ y, x)"
    unfolding split_given by (simp add: push_out_def filter_out_default_def)
  with cut_bracket [OF assms(1)] rest show ?thesis by simp
qed

lemma think_tag_cut_leaks_witness:
  "think_stream [''so '' @ ''<'', ''Think'' @ ''>'' @ ''secret'' @ ''</'' @ ''think'' @ ''>'' @ ''answer''] =
     (''so '' @ ''<'' @ ''Think'' @ ''>'' @ ''secret'' @ ''</'' @ ''think'' @ ''>'' @ ''answer'', [])"
proof -
  have names: "map ascii_lower ''Think'' \<in> {''think'', ''thinking''}" "map ascii_lower ''think'' \<in> {''think'', ''thinking''}"
    by code_simp+
  have plain: "CHR ''<'' \<notin> set ''so ''" "CHR ''<'' \<notin> set ''secret''" "CHR ''<'' \<notin> set ''answer''" by simp_all
  show ?thesis
    by (rule conjunct1 [OF conjunct2 [OF think_tag_cut_leaks [OF plain(1) names(1) plain(2) names(2) plain(3)]]])
qed

end
