(* ===== verification/Openai_Chunk.thy ===== *)
theory Openai_Chunk
  imports Json_Repair Message_Ops
begin

text \<open>
  \<open>crates/aibuddy-provider-types/src/formats/openai.rs\<close>, the frames of a streamed answer: the
  structs a frame is read into, as the derived \<open>Deserialize\<close> reads them, frames without
  choices, errors in the stream, token counts.  The JSON engine with its error texts, the debug
  text of a line and the conversion of an integer to \<open>f64\<close> are parameters.
\<close>

record openai_env =
  oe_json :: json_env
  oe_ext :: ext_env
  oe_parse_error :: "string \<Rightarrow> string"
  oe_decode_error :: "json \<Rightarrow> string"
  oe_debug :: "string \<Rightarrow> string"
  oe_f64_of_int :: "int \<Rightarrow> f64_bits"

subsection \<open>Derived deserializers\<close>

text \<open>
  A struct is read from an object by its field names, or from an array by position; an array
  must hold every field without a \<open>default\<close> and no more than there are.
\<close>

definition struct_fields :: "(string \<times> bool) list \<Rightarrow> json \<Rightarrow> (json option) list option" where
  "struct_fields fs v =
     (case v of
        JObj m \<Rightarrow> Some (map (\<lambda>f. map_of m (fst f)) fs)
      | JArr vs \<Rightarrow>
          if length vs \<le> length fs \<and> list_all snd (drop (length vs) fs)
          then Some (map Some vs @ map (\<lambda>f. None) (drop (length vs) fs))
          else None
      | _ \<Rightarrow> None)"

definition de_string :: "json \<Rightarrow> string option" where
  "de_string v = json_as_str v"

text \<open>An \<open>Option\<close> field: absent and null are \<open>None\<close>; the outer option is failure.\<close>

definition de_option :: "(json \<Rightarrow> 'a option) \<Rightarrow> json option \<Rightarrow> 'a option option" where
  "de_option de f =
     (case f of None \<Rightarrow> Some None | Some JNull \<Rightarrow> Some None | Some v \<Rightarrow> map_option Some (de v))"

fun de_list :: "(json \<Rightarrow> 'a option) \<Rightarrow> json list \<Rightarrow> 'a list option" where
  "de_list de [] = Some []"
| "de_list de (v # vs) =
     Option.bind (de v) (\<lambda>x. map_option (Cons x) (de_list de vs))"

definition de_vec :: "(json \<Rightarrow> 'a option) \<Rightarrow> json \<Rightarrow> 'a list option" where
  "de_vec de v = Option.bind (json_as_array v) (de_list de)"

definition de_i32 :: "json \<Rightarrow> i32 option" where
  "de_i32 v = (case v of
     JInt i \<Rightarrow> if i32_min \<le> i \<and> i \<le> i32_max then Some (word_of_int i) else None
   | _ \<Rightarrow> None)"

definition de_value :: "json \<Rightarrow> json option" where
  "de_value v = Some v"

subsection \<open>The structs\<close>

record tool_call_function =
  tf_name :: "string option"
  tf_arguments :: string

record delta_tool_call =
  dt_id :: "string option"
  dt_function :: tool_call_function
  dt_index :: "i32 option"
  dt_type :: "string option"
  dt_extra :: "json_object option"

record content_block_part =
  cbp_type :: string
  cbp_text :: "string option"
  cbp_thought_signature :: "string option"

datatype delta_content_block = DeltaString string | DeltaArray "content_block_part list"

record delta =
  de_content :: "delta_content_block option"
  de_role :: "string option"
  de_tool_calls :: "delta_tool_call list option"
  de_reasoning_details :: "json list option"
  de_reasoning :: "string option"
  de_reasoning_content :: "string option"

record streaming_choice =
  ch_delta :: delta
  ch_index :: "i32 option"
  ch_finish_reason :: "string option"

record streaming_chunk =
  sk_choices :: "streaming_choice list"
  sk_created :: "int option"
  sk_id :: "string option"
  sk_usage :: "json option"
  sk_model :: "string option"

definition delta_default :: delta where
  "delta_default = \<lparr>de_content = None, de_role = None, de_tool_calls = None,
     de_reasoning_details = None, de_reasoning = None, de_reasoning_content = None\<rparr>"

text \<open>\<open>deserialize_null_default_string\<close>, with the \<open>default\<close> of the field.\<close>

definition null_default_string :: "json option \<Rightarrow> string option" where
  "null_default_string f = map_option (\<lambda>s. unwrap_or s []) (de_option de_string f)"

definition de_function :: "json \<Rightarrow> tool_call_function option" where
  "de_function v =
     Option.bind (struct_fields [(''name'', False), (''arguments'', True)] v) (\<lambda>f.
       Option.bind (de_option de_string (f ! 0)) (\<lambda>name.
       Option.bind (null_default_string (f ! 1)) (\<lambda>args.
         Some \<lparr>tf_name = name, tf_arguments = args\<rparr>)))"

text \<open>A struct with a flattened field is read from an object only; the rest is \<open>extra\<close>.\<close>

definition de_tool_call :: "json \<Rightarrow> delta_tool_call option" where
  "de_tool_call v =
     Option.bind (json_as_object v) (\<lambda>m.
       Option.bind (de_option de_string (map_of m ''id'')) (\<lambda>i.
       Option.bind (Option.bind (map_of m ''function'') de_function) (\<lambda>function.
       Option.bind (de_option de_i32 (map_of m ''index'')) (\<lambda>index.
       Option.bind (de_option de_string (map_of m ''type'')) (\<lambda>ty.
         Some \<lparr>dt_id = i, dt_function = function, dt_index = index, dt_type = ty,
           dt_extra = Some (filter (\<lambda>kv. fst kv \<notin> {''id'', ''function'', ''index'', ''type''}) m)\<rparr>)))))"

definition de_part :: "json \<Rightarrow> content_block_part option" where
  "de_part v =
     Option.bind (struct_fields [(''type'', False), (''text'', True), (''thoughtSignature'', False)] v) (\<lambda>f.
       Option.bind (Option.bind (f ! 0) de_string) (\<lambda>ty.
       Option.bind (de_option de_string (f ! 1)) (\<lambda>t.
       Option.bind (de_option de_string (f ! 2)) (\<lambda>sig.
         Some \<lparr>cbp_type = ty, cbp_text = t, cbp_thought_signature = sig\<rparr>))))"

definition de_content_block :: "json \<Rightarrow> delta_content_block option" where
  "de_content_block v =
     (case de_string v of
        Some s \<Rightarrow> Some (DeltaString s)
      | None \<Rightarrow> map_option DeltaArray (de_vec de_part v))"

definition de_delta :: "json \<Rightarrow> delta option" where
  "de_delta v =
     Option.bind (struct_fields [(''content'', True), (''role'', False), (''tool_calls'', False),
         (''reasoning_details'', False), (''reasoning'', False), (''reasoning_content'', False)] v) (\<lambda>f.
       Option.bind (de_option de_content_block (f ! 0)) (\<lambda>content.
       Option.bind (de_option de_string (f ! 1)) (\<lambda>role.
       Option.bind (de_option (de_vec de_tool_call) (f ! 2)) (\<lambda>calls.
       Option.bind (de_option (de_vec de_value) (f ! 3)) (\<lambda>details.
       Option.bind (de_option de_string (f ! 4)) (\<lambda>reasoning.
       Option.bind (de_option de_string (f ! 5)) (\<lambda>reasoning_content.
         Some \<lparr>de_content = content, de_role = role, de_tool_calls = calls,
           de_reasoning_details = details, de_reasoning = reasoning,
           de_reasoning_content = reasoning_content\<rparr>)))))))"

text \<open>\<open>empty_finish_reason_as_none\<close>.\<close>

definition finish_reason_of :: "json option \<Rightarrow> string option option" where
  "finish_reason_of f =
     map_option (\<lambda>r. if r = Some [] then None else r) (de_option de_string f)"

definition de_choice :: "json \<Rightarrow> streaming_choice option" where
  "de_choice v =
     Option.bind (struct_fields [(''delta'', True), (''index'', False), (''finish_reason'', True)] v) (\<lambda>f.
       Option.bind (case f ! 0 of None \<Rightarrow> Some delta_default | Some d \<Rightarrow> de_delta d) (\<lambda>d.
       Option.bind (de_option de_i32 (f ! 1)) (\<lambda>index.
       Option.bind (finish_reason_of (f ! 2)) (\<lambda>reason.
         Some \<lparr>ch_delta = d, ch_index = index, ch_finish_reason = reason\<rparr>))))"

definition de_chunk :: "json \<Rightarrow> streaming_chunk option" where
  "de_chunk v =
     Option.bind (struct_fields [(''choices'', False), (''created'', False), (''id'', False),
         (''usage'', False), (''model'', False)] v) (\<lambda>f.
       Option.bind (Option.bind (f ! 0) (de_vec de_choice)) (\<lambda>choices.
       Option.bind (de_option json_as_i64 (f ! 1)) (\<lambda>created.
       Option.bind (de_option de_string (f ! 2)) (\<lambda>i.
       Option.bind (de_option de_value (f ! 3)) (\<lambda>u.
       Option.bind (de_option de_string (f ! 4)) (\<lambda>model.
         Some \<lparr>sk_choices = choices, sk_created = created, sk_id = i, sk_usage = u, sk_model = model\<rparr>))))))"

subsection \<open>Reading a delta\<close>

definition nonempty :: "string option \<Rightarrow> string option" where
  "nonempty s = (if s = Some [] then None else s)"

definition reasoning_text :: "delta \<Rightarrow> string option" where
  "reasoning_text d = option_or (nonempty (de_reasoning_content d)) (nonempty (de_reasoning d))"

definition extract_content_and_signature ::
  "delta_content_block option \<Rightarrow> string option \<times> string option" where
  "extract_content_and_signature c =
     (case c of
        None \<Rightarrow> (None, None)
      | Some (DeltaString s) \<Rightarrow> (Some s, None)
      | Some (DeltaArray parts) \<Rightarrow>
          (let text_parts = filter (\<lambda>p. cbp_type p = ''text'') parts;
               joined = concat (filter_map cbp_text text_parts)
           in (if joined = [] then None else Some joined, find_map cbp_thought_signature text_parts)))"

subsection \<open>Usage\<close>

definition i64_field :: "json \<Rightarrow> string \<Rightarrow> int option" where
  "i64_field v k = Option.bind (json_get v k) json_as_i64"

definition details_field :: "json \<Rightarrow> string \<Rightarrow> int option" where
  "details_field v k =
     Option.bind (Option.bind (json_get v ''prompt_tokens_details'') (\<lambda>d. json_get d k)) json_as_i64"

definition json_is_object :: "json \<Rightarrow> bool" where
  "json_is_object v \<longleftrightarrow> json_as_object v \<noteq> None"

definition get_usage :: "json \<Rightarrow> usage" where
  "get_usage v =
     (let u = (case json_get v ''usage'' of
                 Some nested \<Rightarrow> if json_is_object nested then nested else v | None \<Rightarrow> v);
          input = map_option word_of_int
            (option_or (i64_field u ''prompt_tokens'') (i64_field u ''prompt_eval_count''));
          out = map_option word_of_int
            (option_or (i64_field u ''completion_tokens'') (i64_field u ''eval_count''));
          cache_read = map_option word_of_int
            (option_or (i64_field u ''cache_read_input_tokens'') (details_field u ''cached_tokens''));
          cache_write = map_option word_of_int
            (option_or (i64_field u ''cache_creation_input_tokens'') (details_field u ''cache_write_tokens''));
          sum = (case (input, out) of (Some i, Some n) \<Rightarrow> Some (saturating_add i n) | _ \<Rightarrow> None);
          whole = option_or (map_option word_of_int (i64_field u ''total_tokens'')) sum
      in with_cache_tokens cache_read cache_write (usage_new input out whole))"

text \<open>A float by its bits: finite, and not negative unless it is the negative zero.\<close>

definition finite_nonnegative :: "f64_bits \<Rightarrow> bool" where
  "finite_nonnegative b \<longleftrightarrow>
     (let n = unat b in n div 2 ^ 52 mod 2 ^ 11 \<noteq> 2047 \<and> (n < 2 ^ 63 \<or> n = 2 ^ 63))"

definition json_as_f64 :: "openai_env \<Rightarrow> json \<Rightarrow> f64_bits option" where
  "json_as_f64 V v = (case v of JFloat b \<Rightarrow> Some b | JInt i \<Rightarrow> Some (oe_f64_of_int V i) | _ \<Rightarrow> None)"

definition get_cost :: "openai_env \<Rightarrow> json \<Rightarrow> f64_bits option" where
  "get_cost V v =
     (case Option.bind (json_get v ''cost'') (json_as_f64 V) of
        Some c \<Rightarrow> if finite_nonnegative c then Some c else None
      | None \<Rightarrow> None)"

definition extract_usage_with_output_tokens ::
  "openai_env \<Rightarrow> streaming_chunk \<Rightarrow> string option \<Rightarrow> provider_usage option" where
  "extract_usage_with_output_tokens V chunk fallback =
     (case (sk_usage chunk, option_or (sk_model chunk) fallback) of
        (Some u, Some model) \<Rightarrow>
          (let pu = provider_usage_new model (get_usage u);
               pu' = (case get_cost V u of Some c \<Rightarrow> pu_with_cost c ProviderReported pu | None \<Rightarrow> pu)
           in if output_tokens (pu_usage pu') \<noteq> None then Some pu' else None)
      | _ \<Rightarrow> None)"

subsection \<open>Frames\<close>

definition strip_data_prefix :: "string \<Rightarrow> string option" where
  "strip_data_prefix line =
     map_option trim (option_or (strip_prefix ''data: '' line) (strip_prefix ''data:'' line))"

definition MAX_STREAM_ERROR_LEN :: nat where "MAX_STREAM_ERROR_LEN = 500"

definition ELLIPSIS :: string where "ELLIPSIS = [byte 0xE2, byte 0x80, byte 0xA6]"

fun error_text_one :: "openai_env \<Rightarrow> json \<Rightarrow> string option" where
  "error_text_one V (JStr s) = Some s"
| "error_text_one V (JObj m) =
     option_or (Option.bind (option_or (map_of m ''msg'') (map_of m ''message'')) json_as_str)
       (Some (je_text (oe_json V) (JObj m)))"
| "error_text_one V JNull = None"
| "error_text_one V v = Some (je_text (oe_json V) v)"

definition stream_error_text :: "openai_env \<Rightarrow> json \<Rightarrow> string option" where
  "stream_error_text V v =
     (let raw = (case v of
                   JArr items \<Rightarrow>
                     (let parts = filter_map (error_text_one V) items
                      in if parts = [] then None else Some (join ''; '' parts))
                 | other \<Rightarrow> error_text_one V other)
      in case raw of
           None \<Rightarrow> None
         | Some s \<Rightarrow>
             if s = [] then None
             else if MAX_STREAM_ERROR_LEN < length (utf8_chars s)
             then Some (concat (take MAX_STREAM_ERROR_LEN (utf8_chars s)) @ ELLIPSIS)
             else Some s)"

text \<open>\<open>str::parse::<i64>\<close>: a sign and digits, within range.\<close>

definition is_digit :: "char \<Rightarrow> bool" where
  "is_digit c \<longleftrightarrow> (let n = (of_char c :: nat) in 48 \<le> n \<and> n \<le> 57)"

definition digits_value :: "string \<Rightarrow> int" where
  "digits_value s = foldl (\<lambda>acc c. acc * 10 + (int (of_char c) - 48)) 0 s"

definition parse_i64 :: "string \<Rightarrow> int option" where
  "parse_i64 s =
     (let (sign, ds) = (case s of
            [] \<Rightarrow> (1, [])
          | c # cs \<Rightarrow> if c = CHR ''-'' then (- 1, cs) else if c = CHR ''+'' then (1, cs) else (1, s));
          n = sign * digits_value ds
      in if ds = [] \<or> \<not> list_all is_digit ds then None
         else if - (2 ^ 63) \<le> n \<and> n < 2 ^ 63 then Some n else None)"

definition frame_status :: "json \<Rightarrow> int option" where
  "frame_status v =
     find_map (\<lambda>key. Option.bind (json_get v key) (\<lambda>raw.
       option_or (json_as_i64 raw) (Option.bind (json_as_str raw) parse_i64)))
       [''status'', ''statusCode'', ''code'']"

definition classify_choiceless_frame :: "openai_env \<Rightarrow> json \<Rightarrow> provider_error option" where
  "classify_choiceless_frame V v =
     (let status = frame_status v;
          has_error_signal =
            is_some_and status (\<lambda>s. 400 \<le> s) \<or>
            Option.bind (json_get v ''type'') json_as_str = Some ''error'' \<or>
            is_some_and (json_get v ''detail'') (\<lambda>d. d \<noteq> JNull)
      in if \<not> has_error_signal then None
         else
           (let from_field = (\<lambda>k. Option.bind (json_get v k) (stream_error_text V));
                fallback = (case status of
                   Some s \<Rightarrow> ''Gateway returned status '' @ show_int s @ '' mid-stream''
                 | None \<Rightarrow> ''Unknown server error'')
            in Some (ServerError (unwrap_or
                 (option_or (from_field ''message'') (option_or (from_field ''detail'') (from_field ''error'')))
                 fallback))))"

definition stream_decode_error :: "string \<Rightarrow> provider_error" where
  "stream_decode_error e = NetworkError (''Stream decode error: '' @ e)"

definition chunk_decode_error :: "openai_env \<Rightarrow> string \<Rightarrow> string \<Rightarrow> provider_error" where
  "chunk_decode_error V e line =
     stream_decode_error (''Failed to parse streaming chunk: '' @ e @ '': '' @ oe_debug V line)"

definition server_message :: "json \<Rightarrow> string" where
  "server_message v = unwrap_or (Option.bind (json_get v ''message'') json_as_str) ''Unknown server error''"

definition parse_streaming_chunk :: "openai_env \<Rightarrow> string \<Rightarrow> provider_error + streaming_chunk option" where
  "parse_streaming_chunk V line =
     (case je_parse (oe_json V) line of
        None \<Rightarrow> Inl (chunk_decode_error V (oe_parse_error V line) line)
      | Some v \<Rightarrow>
          (case json_get v ''error'' of
             Some e \<Rightarrow> Inl (ServerError (server_message e))
           | None \<Rightarrow>
               if Option.bind (json_get v ''object'') json_as_str = Some ''error''
               then Inl (ServerError (server_message v))
               else if is_some_and (json_as_object v) (\<lambda>m. map_of m ''choices'' = None)
               then (case classify_choiceless_frame V v of Some e \<Rightarrow> Inl e | None \<Rightarrow> Inr None)
               else (case de_chunk v of
                       Some chunk \<Rightarrow> Inr (Some chunk)
                     | None \<Rightarrow> Inl (chunk_decode_error V (oe_decode_error V v) line))))"

subsection \<open>Errors of tool calls\<close>

definition INVALID_PARAMS :: int where "INVALID_PARAMS = - 32602"
definition INVALID_REQUEST :: int where "INVALID_REQUEST = - 32600"

fun describe_json_value :: "json \<Rightarrow> string" where
  "describe_json_value (JArr _) = ''an array''"
| "describe_json_value (JStr _) = ''a string''"
| "describe_json_value (JInt _) = ''a number''"
| "describe_json_value (JFloat _) = ''a number''"
| "describe_json_value (JBool _) = ''a boolean''"
| "describe_json_value JNull = ''null''"
| "describe_json_value (JObj _) = ''an object''"

definition error_data_new :: "int \<Rightarrow> string \<Rightarrow> error_data" where
  "error_data_new code msg = \<lparr>ed_code = code, ed_message = msg, ed_data = None\<rparr>"

definition output_token_limit_tool_error :: "string \<Rightarrow> string \<Rightarrow> error_data" where
  "output_token_limit_tool_error name i = error_data_new INVALID_PARAMS
     (''Tool arguments for '' @ name @ '' (id '' @ i @ '') were truncated because the model reached its output token limit'')"

definition not_an_object_error :: "string \<Rightarrow> string \<Rightarrow> json \<Rightarrow> string \<Rightarrow> error_data" where
  "not_an_object_error name i v args = error_data_new INVALID_PARAMS
     (''Tool arguments for '' @ name @ '' (id '' @ i @ '') must be a JSON object, got '' @
      describe_json_value v @ ''. Raw arguments: '' @ quoted args)"

definition uninterpreted_error :: "openai_env \<Rightarrow> string \<Rightarrow> string \<Rightarrow> error_data" where
  "uninterpreted_error V i args = error_data_new INVALID_PARAMS
     (unwrap_or (truncation_error_message (oe_json V) args)
        (''Could not interpret tool use parameters for id '' @ i))"

text \<open>What the arguments of a call give: a call, or the error to answer it with.\<close>

definition call_of_arguments ::
  "openai_env \<Rightarrow> string \<Rightarrow> string \<Rightarrow> string \<Rightarrow> error_data + call_tool_params" where
  "call_of_arguments V i name args =
     (case parse_tool_arguments (oe_json V) args of
        Some (JObj m) \<Rightarrow> Inr \<lparr>ct_name = name, ct_arguments = Some m\<rparr>
      | Some v \<Rightarrow> Inl (not_an_object_error name i v args)
      | None \<Rightarrow> Inl (uninterpreted_error V i args))"

end
