(* ===== verification/Openai_Stream.thy ===== *)
theory Openai_Stream
  imports Openai_Chunk Think_Filter
begin

text \<open>
  \<open>crates/aibuddy-provider-types/src/formats/openai.rs\<close>, \<open>response_to_streaming_message\<close>: the
  lines of a streamed answer become messages.  The stream is the list of lines it will deliver,
  each of them possibly a failure; what is yielded is a list that ends with the error, if any.
\<close>

type_synonym stream_line = "string + string"

text \<open>A failure of the transport, or of the provider as a frame reports it.\<close>

datatype stream_failure = LineFailure string | ProviderFailure provider_error

type_synonym stream_yield = "stream_failure + (message option \<times> provider_usage option)"

record tool_call_acc =
  ta_id :: string
  ta_name :: string
  ta_arguments :: string
  ta_extra :: "json_object option"

type_synonym tool_call_data = "(i32 \<times> tool_call_acc) list"

record openai_stream =
  os_reasoning_details :: "json list"
  os_reasoning :: string
  os_filter :: think_filter
  os_structured :: bool
  os_yielded_reasoning :: nat
  os_signature :: "string option"
  os_pending_inline :: string
  os_model :: "string option"
  os_response_id :: "string option"
  os_finish_reason :: "string option"
  os_limit_reached :: bool
  os_limit_emitted :: bool
  os_usage_emitted :: bool

definition openai_stream_start :: openai_stream where
  "openai_stream_start = \<lparr>os_reasoning_details = [], os_reasoning = [], os_filter = think_filter_new,
     os_structured = False, os_yielded_reasoning = 0, os_signature = None, os_pending_inline = [],
     os_model = None, os_response_id = None, os_finish_reason = None, os_limit_reached = False,
     os_limit_emitted = False, os_usage_emitted = False\<rparr>"

definition GEMINI_THOUGHT_SIGNATURE_KEY :: string where
  "GEMINI_THOUGHT_SIGNATURE_KEY = ''thoughtSignature''"

subsection \<open>What both loops do with a chunk\<close>

definition note_ids :: "streaming_chunk \<Rightarrow> openai_stream \<Rightarrow> openai_stream" where
  "note_ids chunk st = st\<lparr>os_model := option_or (sk_model chunk) (os_model st),
     os_response_id := option_or (sk_id chunk) (os_response_id st)\<rparr>"

definition note_reasoning :: "delta \<Rightarrow> openai_stream \<Rightarrow> openai_stream" where
  "note_reasoning d st =
     (let st1 = (case de_reasoning_details d of None \<Rightarrow> st
                 | Some details \<Rightarrow> st\<lparr>os_reasoning_details := os_reasoning_details st @ details\<rparr>)
      in case reasoning_text d of
           None \<Rightarrow> st1
         | Some rc \<Rightarrow>
             (let st2 = st1\<lparr>os_reasoning := os_reasoning st1 @ rc\<rparr>
              in if rc = [] then st2 else st2\<lparr>os_structured := True, os_pending_inline := []\<rparr>))"

definition chunk_finish :: "streaming_chunk \<Rightarrow> string option" where
  "chunk_finish chunk = Option.bind (first_opt (sk_choices chunk)) ch_finish_reason"

definition note_finish :: "streaming_chunk \<Rightarrow> openai_stream \<Rightarrow> openai_stream" where
  "note_finish chunk st = st\<lparr>os_finish_reason := option_or (chunk_finish chunk) (os_finish_reason st)\<rparr>"

definition stamped_usage ::
  "openai_env \<Rightarrow> streaming_chunk \<Rightarrow> openai_stream \<Rightarrow> provider_usage option" where
  "stamped_usage V chunk st =
     map_option (\<lambda>u.
       let u1 = (case os_finish_reason st of Some r \<Rightarrow> u\<lparr>pu_finish_reasons := Some [r]\<rparr> | None \<Rightarrow> u)
       in case os_response_id st of Some i \<Rightarrow> u1\<lparr>pu_response_id := Some i\<rparr> | None \<Rightarrow> u1)
       (extract_usage_with_output_tokens V chunk (os_model st))"

definition assistant_message :: "openai_env \<Rightarrow> message_content list \<Rightarrow> string option \<Rightarrow> message" where
  "assistant_message V contents i =
     (let m = message_new Assistant (now (oe_ext V)) contents
      in case i of Some s \<Rightarrow> with_id s m | None \<Rightarrow> m)"

definition text_blocks :: "string \<Rightarrow> message_content list" where
  "text_blocks s = (if s = [] then [] else [mc_text s])"

definition thinking_blocks :: "string \<Rightarrow> message_content list" where
  "thinking_blocks s = (if s = [] then [] else [mc_thinking s []])"

subsection \<open>Tool calls in pieces\<close>

definition first_tool_calls :: "delta_tool_call list \<Rightarrow> tool_call_data" where
  "first_tool_calls calls =
     foldl (\<lambda>data (position, c).
       case (dt_id c, tf_name (dt_function c)) of
         (Some i, Some name) \<Rightarrow>
           map_insert (unwrap_or (dt_index c) (word_of_nat position))
             \<lparr>ta_id = i, ta_name = name, ta_arguments = tf_arguments (dt_function c), ta_extra = dt_extra c\<rparr>
             data
       | _ \<Rightarrow> data) [] (List.enumerate 0 calls)"

text \<open>\<open>entry(key).or_insert(value)\<close> for each entry.\<close>

definition or_insert :: "json_object \<Rightarrow> string \<times> json \<Rightarrow> json_object" where
  "or_insert m kv = (if map_of m (fst kv) = None then m @ [kv] else m)"

definition merge_extra :: "json_object option \<Rightarrow> json_object option \<Rightarrow> json_object option" where
  "merge_extra stored new_extra =
     (case (stored, new_extra) of
        (None, _) \<Rightarrow> new_extra
      | (Some m, None) \<Rightarrow> Some m
      | (Some m, Some m') \<Rightarrow> Some (foldl or_insert m m'))"

definition extend_call :: "delta_tool_call \<Rightarrow> tool_call_acc \<Rightarrow> tool_call_acc" where
  "extend_call c acc =
     acc\<lparr>ta_name := (case tf_name (dt_function c) of
                       Some name \<Rightarrow> if name \<noteq> [] then name else ta_name acc | None \<Rightarrow> ta_name acc),
         ta_arguments := ta_arguments acc @ tf_arguments (dt_function c),
         ta_extra := merge_extra (ta_extra acc) (dt_extra c)\<rparr>"

definition merge_tool_call :: "tool_call_data \<Rightarrow> delta_tool_call \<Rightarrow> tool_call_data" where
  "merge_tool_call data c =
     (case dt_index c of
        None \<Rightarrow> data
      | Some index \<Rightarrow>
          (case map_of data index of
             Some acc \<Rightarrow> map_insert index (extend_call c acc) data
           | None \<Rightarrow>
               (case (dt_id c, tf_name (dt_function c)) of
                  (Some i, Some name) \<Rightarrow>
                    map_insert index \<lparr>ta_id = i, ta_name = name,
                      ta_arguments = tf_arguments (dt_function c), ta_extra = dt_extra c\<rparr> data
                | _ \<Rightarrow> data)))"

text \<open>What one line does to a tool call that is being accumulated.\<close>

datatype tool_step =
    ToolGoesOn openai_stream tool_call_data "provider_usage option"
  | ToolDone openai_stream tool_call_data "provider_usage option"
  | ToolBreak openai_stream
  | ToolFailed stream_failure

definition tool_chunk ::
  "openai_env \<Rightarrow> streaming_chunk \<Rightarrow> openai_stream \<Rightarrow> tool_call_data \<Rightarrow> provider_usage option \<Rightarrow> tool_step" where
  "tool_chunk V chunk st data usage =
     (let st1 = note_finish chunk (note_ids chunk st);
          usage1 = option_or (stamped_usage V chunk st1) usage
      in case sk_choices chunk of
           [] \<Rightarrow> ToolDone st1 data usage1
         | choice # _ \<Rightarrow>
             (let st2 = note_reasoning (ch_delta choice)
                    (st1\<lparr>os_limit_reached := os_limit_reached st1 \<or>
                           ch_finish_reason choice = Some ''length''\<rparr>);
                  data1 = foldl merge_tool_call data (unwrap_or (de_tool_calls (ch_delta choice)) [])
              in if ch_finish_reason choice \<noteq> None then ToolDone st2 data1 usage1
                 else ToolGoesOn st2 data1 usage1))"

definition tool_line ::
  "openai_env \<Rightarrow> string \<Rightarrow> openai_stream \<Rightarrow> tool_call_data \<Rightarrow> provider_usage option \<Rightarrow> tool_step" where
  "tool_line V response st data usage =
     (case strip_data_prefix response of
        None \<Rightarrow> ToolGoesOn st data usage
      | Some line \<Rightarrow>
          if line = ''[DONE]'' then ToolBreak st
          else
            (case parse_streaming_chunk V line of
               Inl e \<Rightarrow> ToolFailed (ProviderFailure e)
             | Inr None \<Rightarrow> ToolGoesOn st data usage
             | Inr (Some chunk) \<Rightarrow> tool_chunk V chunk st data usage))"

text \<open>The inner loop: either it ends with the calls and what is left of the stream, or the
  whole stream ends.\<close>

datatype tool_outcome =
    ToolsComplete openai_stream tool_call_data "provider_usage option" "stream_line list"
  | StreamDone openai_stream
  | StreamFailed stream_failure

fun tool_loop ::
  "openai_env \<Rightarrow> stream_line list \<Rightarrow> openai_stream \<Rightarrow> tool_call_data \<Rightarrow> provider_usage option \<Rightarrow>
   tool_outcome" where
  "tool_loop V [] st data usage = ToolsComplete st data usage []"
| "tool_loop V (Inl e # rest) st data usage = StreamFailed (LineFailure e)"
| "tool_loop V (Inr response # rest) st data usage =
     (case tool_line V response st data usage of
        ToolGoesOn st1 data1 usage1 \<Rightarrow> tool_loop V rest st1 data1 usage1
      | ToolDone st1 data1 usage1 \<Rightarrow> ToolsComplete st1 data1 usage1 rest
      | ToolBreak st1 \<Rightarrow> StreamDone st1
      | ToolFailed e \<Rightarrow> StreamFailed e)"

lemma tool_loop_shorter: "tool_loop V items st data usage = ToolsComplete st1 data1 usage1 rest \<Longrightarrow>
    length rest \<le> length items"
  by (induction V items st data usage rule: tool_loop.induct)
    (auto split: tool_step.splits)

definition tool_metadata :: "string option \<Rightarrow> json_object option \<Rightarrow> json_object option" where
  "tool_metadata sig extra =
     (case sig of
        Some s \<Rightarrow> Some (map_insert GEMINI_THOUGHT_SIGNATURE_KEY (JStr s) (unwrap_or extra []))
      | None \<Rightarrow> if extra = Some [] then None else extra)"

definition tool_call_of :: "openai_env \<Rightarrow> bool \<Rightarrow> tool_call_acc \<Rightarrow> error_data + call_tool_params" where
  "tool_call_of V limit acc =
     (if limit then Inl (output_token_limit_tool_error (ta_name acc) (ta_id acc))
      else if ta_arguments acc = [] then Inr \<lparr>ct_name = ta_name acc, ct_arguments = Some []\<rparr>
      else call_of_arguments V (ta_id acc) (ta_name acc) (ta_arguments acc))"

definition tool_request_content ::
  "openai_env \<Rightarrow> openai_stream \<Rightarrow> i32 \<times> tool_call_acc \<Rightarrow> message_content" where
  "tool_request_content V st ia =
     mc_tool_request_with_provider_index (ta_id (snd ia)) (tool_call_of V (os_limit_reached st) (snd ia))
       (tool_metadata (os_signature st) (ta_extra (snd ia))) (fst ia)"

definition sorted_calls :: "tool_call_data \<Rightarrow> tool_call_data" where
  "sorted_calls data = sort_key (\<lambda>ia. sint (fst ia)) data"

text \<open>Text held back by the think filter, and inline thoughts, before the calls.\<close>

definition flush_before_calls ::
  "openai_env \<Rightarrow> string option \<Rightarrow> openai_stream \<Rightarrow> stream_yield list \<times> openai_stream" where
  "flush_before_calls V i st =
     (let (filtered, F) = think_push [] (os_filter st);
          flush = (if os_structured st then [] else os_pending_inline st @ fo_thinking filtered);
          contents = text_blocks (fo_content filtered) @ thinking_blocks flush
      in (if contents = [] then [] else [Inr (Some (assistant_message V contents i), None)],
          st\<lparr>os_filter := F, os_pending_inline := []\<rparr>))"

definition emit_calls ::
  "openai_env \<Rightarrow> string option \<Rightarrow> openai_stream \<Rightarrow> tool_call_data \<Rightarrow> provider_usage option \<Rightarrow>
   stream_yield list \<times> openai_stream" where
  "emit_calls V i st data usage =
     (let (before, st1) = flush_before_calls V i st;
          unyielded = (if os_yielded_reasoning st1 < length (os_reasoning st1)
                       then drop (os_yielded_reasoning st1) (os_reasoning st1) else []);
          m = assistant_message V
                (thinking_blocks unyielded @ map (tool_request_content V st1) (sorted_calls data)) i;
          m' = m\<lparr>msg_metadata := (msg_metadata m)\<lparr>output_token_limit_reached := os_limit_reached st1\<rparr>\<rparr>
      in (before @ [Inr (Some m', usage)],
          st1\<lparr>os_reasoning := [], os_yielded_reasoning := 0,
              os_limit_emitted := os_limit_emitted st1 \<or> os_limit_reached st1,
              os_usage_emitted := os_usage_emitted st1 \<or> usage \<noteq> None\<rparr>))"

subsection \<open>Text and reasoning\<close>

definition reasoning_part :: "delta \<Rightarrow> openai_stream \<Rightarrow> message_content list \<times> openai_stream" where
  "reasoning_part d st =
     (case reasoning_text d of
        Some r \<Rightarrow> ([mc_thinking r (unwrap_or (os_signature st) [])],
                  st\<lparr>os_yielded_reasoning := length (os_reasoning st)\<rparr>)
      | None \<Rightarrow> ([], st))"

definition text_part :: "delta \<Rightarrow> openai_stream \<Rightarrow> message_content list \<times> openai_stream" where
  "text_part d st =
     (let (t, sig) = extract_content_and_signature (de_content d);
          st1 = st\<lparr>os_signature := option_or sig (os_signature st)\<rparr>
      in case t of
           None \<Rightarrow> ([], st1)
         | Some s \<Rightarrow>
             (let (filtered, F) = think_push s (os_filter st1)
              in (text_blocks (fo_content filtered),
                  st1\<lparr>os_filter := F,
                      os_pending_inline := (if \<not> os_structured st1 then os_pending_inline st1 @ fo_thinking filtered
                                            else os_pending_inline st1)\<rparr>)))"

definition emit_usage :: "provider_usage option \<Rightarrow> openai_stream \<Rightarrow> stream_yield list \<times> openai_stream" where
  "emit_usage usage st =
     (if usage \<noteq> None then ([Inr (None, usage)], st\<lparr>os_usage_emitted := True\<rparr>) else ([], st))"

definition text_chunk ::
  "openai_env \<Rightarrow> streaming_choice \<Rightarrow> string option \<Rightarrow> provider_usage option \<Rightarrow> openai_stream \<Rightarrow>
   stream_yield list \<times> openai_stream" where
  "text_chunk V choice i usage st =
     (let (reasoning, st1) = reasoning_part (ch_delta choice) st;
          (shown, st2) = text_part (ch_delta choice) st1;
          contents = reasoning @ shown
      in if contents \<noteq> [] then
           (let final_usage = (if ch_finish_reason choice \<noteq> None then usage else None)
            in ([Inr (Some (assistant_message V contents i), final_usage)],
                st2\<lparr>os_usage_emitted := os_usage_emitted st2 \<or> final_usage \<noteq> None\<rparr>))
         else emit_usage usage st2)"

subsection \<open>The end of the stream\<close>

definition output_token_limit_marker :: "openai_env \<Rightarrow> string option \<Rightarrow> message" where
  "output_token_limit_marker V i =
     (let m = (case i of Some s \<Rightarrow> with_id s (message_assistant (oe_ext V)) | None \<Rightarrow> message_assistant (oe_ext V))
      in m\<lparr>msg_metadata := (msg_metadata m)\<lparr>output_token_limit_reached := True\<rparr>\<rparr>)"

definition trailing_text :: "openai_env \<Rightarrow> openai_stream \<Rightarrow> stream_yield list \<times> openai_stream" where
  "trailing_text V st =
     (let filtered = think_finish (os_filter st);
          trailing = (if os_structured st then [] else os_pending_inline st @ fo_thinking filtered);
          contents = text_blocks (fo_content filtered) @ thinking_blocks trailing;
          first_limit = os_limit_reached st \<and> \<not> os_limit_emitted st;
          m = assistant_message V contents (os_response_id st)
      in if contents = [] then ([], st\<lparr>os_pending_inline := []\<rparr>)
         else ([Inr (Some (m\<lparr>msg_metadata := (msg_metadata m)\<lparr>output_token_limit_reached := first_limit\<rparr>\<rparr>), None)],
               st\<lparr>os_pending_inline := [], os_limit_emitted := os_limit_emitted st \<or> first_limit\<rparr>))"

definition closing_marker :: "openai_env \<Rightarrow> openai_stream \<Rightarrow> stream_yield list" where
  "closing_marker V st =
     (if os_limit_reached st \<and> \<not> os_limit_emitted st
      then [Inr (Some (output_token_limit_marker V (os_response_id st)), None)] else [])"

definition closing_usage :: "openai_stream \<Rightarrow> stream_yield list" where
  "closing_usage st =
     (if \<not> os_usage_emitted st \<and> (os_response_id st \<noteq> None \<or> os_finish_reason st \<noteq> None)
      then [Inr (None, Some ((provider_usage_new (unwrap_or (os_model st) ''unknown'') usage_default)
             \<lparr>pu_response_id := os_response_id st,
              pu_finish_reasons := map_option (\<lambda>r. [r]) (os_finish_reason st)\<rparr>))] else [])"

definition finish_openai_stream :: "openai_env \<Rightarrow> openai_stream \<Rightarrow> stream_yield list" where
  "finish_openai_stream V st =
     (let (ys, st1) = trailing_text V st in ys @ closing_marker V st1 @ closing_usage st1)"

subsection \<open>The loop\<close>

datatype stream_event =
    SkipLine
  | EndOfStream
  | BadLine stream_failure
  | ChunkLine streaming_chunk

definition read_line :: "openai_env \<Rightarrow> string \<Rightarrow> stream_event" where
  "read_line V response =
     (case strip_data_prefix response of
        None \<Rightarrow> SkipLine
      | Some line \<Rightarrow>
          if line = ''[DONE]'' then EndOfStream
          else if line = [] then SkipLine
          else
            (case parse_streaming_chunk V line of
               Inl e \<Rightarrow> BadLine (ProviderFailure e)
             | Inr None \<Rightarrow> SkipLine
             | Inr (Some chunk) \<Rightarrow> ChunkLine chunk))"

text \<open>What every chunk does to the state, whatever it carries.\<close>

definition absorb_openai_chunk :: "streaming_chunk \<Rightarrow> openai_stream \<Rightarrow> openai_stream" where
  "absorb_openai_chunk chunk st =
     (let st1 = note_ids chunk st;
          st2 = (case sk_choices chunk of [] \<Rightarrow> st1 | choice # _ \<Rightarrow> note_reasoning (ch_delta choice) st1);
          st3 = note_finish chunk st2
      in st3\<lparr>os_limit_reached := os_limit_reached st3 \<or> os_finish_reason st3 = Some ''length''\<rparr>)"

definition chunk_tool_calls :: "streaming_chunk \<Rightarrow> delta_tool_call list" where
  "chunk_tool_calls chunk =
     (case sk_choices chunk of [] \<Rightarrow> [] | choice # _ \<Rightarrow> unwrap_or (de_tool_calls (ch_delta choice)) [])"

definition is_complete :: "streaming_chunk \<Rightarrow> bool" where
  "is_complete chunk \<longleftrightarrow> chunk_finish chunk \<in> {Some ''tool_calls'', Some ''length''}"

definition plain_chunk ::
  "openai_env \<Rightarrow> streaming_chunk \<Rightarrow> openai_stream \<Rightarrow> stream_yield list \<times> openai_stream" where
  "plain_chunk V chunk st =
     (let usage = stamped_usage V chunk st in
      case sk_choices chunk of
        [] \<Rightarrow> ([Inr (None, usage)], st\<lparr>os_usage_emitted := os_usage_emitted st \<or> usage \<noteq> None\<rparr>)
      | choice # _ \<Rightarrow>
          if de_content (ch_delta choice) \<noteq> None \<or> reasoning_text (ch_delta choice) \<noteq> None
          then text_chunk V choice (sk_id chunk) usage st
          else emit_usage usage st)"

function openai_loop :: "openai_env \<Rightarrow> stream_line list \<Rightarrow> openai_stream \<Rightarrow> stream_yield list" where
  "openai_loop V [] st = finish_openai_stream V st"
| "openai_loop V (Inl e # rest) st = [Inl (LineFailure e)]"
| "openai_loop V (Inr response # rest) st =
     (case read_line V response of
        SkipLine \<Rightarrow> openai_loop V rest st
      | EndOfStream \<Rightarrow> finish_openai_stream V st
      | BadLine e \<Rightarrow> [Inl e]
      | ChunkLine chunk \<Rightarrow>
          (let st1 = absorb_openai_chunk chunk st in
           if chunk_tool_calls chunk = [] then
             (let (ys, st2) = plain_chunk V chunk st1 in ys @ openai_loop V rest st2)
           else
             (let usage = stamped_usage V chunk st1;
                  data = first_tool_calls (chunk_tool_calls chunk)
              in case (if is_complete chunk then ToolsComplete st1 data usage rest
                       else tool_loop V rest st1 data usage) of
                   StreamFailed e \<Rightarrow> [Inl e]
                 | StreamDone st2 \<Rightarrow> finish_openai_stream V st2
                 | ToolsComplete st2 data2 usage2 rest2 \<Rightarrow>
                     (let (ys, st3) = emit_calls V (sk_id chunk) st2 data2 usage2
                      in ys @ openai_loop V rest2 st3))))"
  by pat_completeness auto
termination
  by (relation "measure (\<lambda>(V, items, st). length items)")
    (auto split: if_splits dest: tool_loop_shorter simp: less_Suc_eq_le)

definition response_to_streaming_message :: "openai_env \<Rightarrow> stream_line list \<Rightarrow> stream_yield list" where
  "response_to_streaming_message V items = openai_loop V items openai_stream_start"

end
