(* ===== verification/Openai_Response.thy ===== *)
theory Openai_Response
  imports Openai_Stream
begin

text \<open>
  \<open>crates/aibuddy-provider-types/src/formats/openai.rs\<close>, an answer that is not streamed:
  \<open>response_to_message\<close> and \<open>record_response_metadata\<close>.
\<close>

text \<open>\<open>value["key"]\<close>: null where there is nothing.\<close>

definition json_at :: "json \<Rightarrow> string \<Rightarrow> json" where
  "json_at v k = unwrap_or (json_get v k) JNull"

definition str_or_empty :: "json \<Rightarrow> string" where
  "str_or_empty v = unwrap_or (json_as_str v) []"

text \<open>The first entry of \<open>choices\<close>, as a JSON pointer finds it and as \<open>get(0)\<close> does.\<close>

definition pointer_first :: "json \<Rightarrow> json option" where
  "pointer_first v =
     (case v of JArr vs \<Rightarrow> first_opt vs | JObj m \<Rightarrow> map_of m ''0'' | _ \<Rightarrow> None)"

definition get_first :: "json \<Rightarrow> json option" where
  "get_first v = Option.bind (json_as_array v) first_opt"

definition response_limit :: "json \<Rightarrow> bool" where
  "response_limit response \<longleftrightarrow>
     Option.bind (Option.bind (Option.bind (json_get response ''choices'') pointer_first)
       (\<lambda>choice. json_get choice ''finish_reason'')) json_as_str = Some ''length''"

definition response_original :: "json \<Rightarrow> string + json" where
  "response_original response =
     (case Option.bind (Option.bind (json_get response ''choices'') get_first) (\<lambda>c. json_get c ''message'') of
        Some original \<Rightarrow> Inr original
      | None \<Rightarrow>
          (case json_get response ''error'' of
             Some e \<Rightarrow> Inl (''API error: '' @
               unwrap_or (Option.bind (json_get e ''message'') json_as_str) ''Unknown error'')
           | None \<Rightarrow> Inl ''No message in API response. This may indicate a quota limit or other restriction.''))"

definition structured_thinking :: "json \<Rightarrow> message_content list" where
  "structured_thinking original =
     (case option_or (json_get original ''reasoning_content'') (json_get original ''reasoning'') of
        Some (JStr s) \<Rightarrow> thinking_blocks s | _ \<Rightarrow> [])"

definition response_text :: "json \<Rightarrow> message_content list" where
  "response_text original =
     (case json_get original ''content'' of
        Some (JStr s) \<Rightarrow>
          (let (cleaned, inline) = split_think_blocks s
           in (if structured_thinking original = [] then thinking_blocks inline else []) @ text_blocks cleaned)
      | _ \<Rightarrow> [])"

definition empty_name_error :: error_data where
  "empty_name_error = error_data_new INVALID_REQUEST
     ''The provided function name was empty; a tool call must name a tool''"

definition call_metadata :: "json \<Rightarrow> json_object option" where
  "call_metadata call =
     (case json_as_object call of
        None \<Rightarrow> None
      | Some m \<Rightarrow>
          (let rest = filter (\<lambda>kv. fst kv \<notin> {''id'', ''function'', ''type'', ''index''}) m
           in if rest = [] then None else Some rest))"

definition response_call :: "openai_env \<Rightarrow> bool \<Rightarrow> json \<Rightarrow> message_content" where
  "response_call V limit call =
     (let i = str_or_empty (json_at call ''id'');
          function = json_at call ''function'';
          name = str_or_empty (json_at function ''name'');
          raw = str_or_empty (json_at function ''arguments'');
          args = (if raw = [] then ''{}'' else raw)
      in mc_tool_request_with_metadata i
           (if limit then Inl (output_token_limit_tool_error name i)
            else if name = [] then Inl empty_name_error
            else call_of_arguments V i name args)
           (call_metadata call))"

definition response_calls :: "openai_env \<Rightarrow> bool \<Rightarrow> json \<Rightarrow> message_content list" where
  "response_calls V limit original =
     map (response_call V limit)
       (unwrap_or (Option.bind (json_get original ''tool_calls'') json_as_array) [])"

definition response_to_message :: "openai_env \<Rightarrow> json \<Rightarrow> string + message" where
  "response_to_message V response =
     (let limit = response_limit response in
      result_bind (response_original response) (\<lambda>original.
        let m = message_new Assistant (now (oe_ext V))
              (structured_thinking original @ response_text original @ response_calls V limit original)
        in Inr (m\<lparr>msg_metadata := (msg_metadata m)\<lparr>output_token_limit_reached := limit\<rparr>\<rparr>)))"

definition record_response_metadata :: "json \<Rightarrow> provider_usage \<Rightarrow> provider_usage" where
  "record_response_metadata response u =
     (let u1 = u\<lparr>pu_response_id := Option.bind (json_get response ''id'') json_as_str\<rparr>;
          choices = unwrap_or (Option.bind (json_get response ''choices'') json_as_array) [];
          reasons = filter_map (\<lambda>choice. Option.bind (json_get choice ''finish_reason'') json_as_str) choices
      in if reasons = [] then u1 else u1\<lparr>pu_finish_reasons := Some reasons\<rparr>)"

end
