(* ===== verification/Openai_Stream_Props.thy ===== *)
theory Openai_Stream_Props
  imports Openai_Stream Think_Filter_Props
begin

text \<open>
  What a streamed answer becomes: its text is what the think filter leaves of the texts of the
  frames, its reasoning is given once, the pieces of a tool call are put together by their
  index, and a call that the output limit cut off is never run.
\<close>

subsection \<open>Frames and yields\<close>

text \<open>The chunks of a stream, up to \<open>[DONE]\<close>.\<close>

fun frames :: "openai_env \<Rightarrow> stream_line list \<Rightarrow> streaming_chunk list" where
  "frames V [] = []"
| "frames V (Inl e # rest) = []"
| "frames V (Inr response # rest) =
     (case read_line V response of
        SkipLine \<Rightarrow> frames V rest
      | EndOfStream \<Rightarrow> []
      | BadLine e \<Rightarrow> []
      | ChunkLine chunk \<Rightarrow> chunk # frames V rest)"

definition frame_delta :: "streaming_chunk \<Rightarrow> delta" where
  "frame_delta chunk = (case sk_choices chunk of [] \<Rightarrow> delta_default | choice # _ \<Rightarrow> ch_delta choice)"

definition frame_text :: "streaming_chunk \<Rightarrow> string option" where
  "frame_text chunk = fst (extract_content_and_signature (de_content (frame_delta chunk)))"

definition frame_reasoning :: "streaming_chunk \<Rightarrow> string option" where
  "frame_reasoning chunk = reasoning_text (frame_delta chunk)"

definition failed :: "stream_yield list \<Rightarrow> bool" where
  "failed ys \<longleftrightarrow> list_ex isl ys"

definition yielded_messages :: "stream_yield list \<Rightarrow> message list" where
  "yielded_messages ys = filter_map (\<lambda>y. case y of Inl e \<Rightarrow> None | Inr (m, u) \<Rightarrow> m) ys"

definition shown_text :: "stream_yield list \<Rightarrow> string" where
  "shown_text ys = concat (map (\<lambda>m. concat (filter_map as_text (msg_content m))) (yielded_messages ys))"

definition shown_thinking :: "stream_yield list \<Rightarrow> string" where
  "shown_thinking ys =
     concat (map (\<lambda>m. concat (map thinking (filter_map as_thinking (msg_content m)))) (yielded_messages ys))"

lemma yields_simps [simp]:
  "failed [] = False" "failed (ys @ zs) \<longleftrightarrow> failed ys \<or> failed zs"
  "failed (Inr p # ys) = failed ys" "failed (Inl e # ys) = True"
  "yielded_messages [] = []" "yielded_messages (ys @ zs) = yielded_messages ys @ yielded_messages zs"
  "yielded_messages (Inr (Some m, u) # ys) = m # yielded_messages ys"
  "yielded_messages (Inr (None, u) # ys) = yielded_messages ys"
  "yielded_messages (Inl e # ys) = yielded_messages ys"
  by (simp_all add: failed_def yielded_messages_def)

lemma shown_simps [simp]:
  "shown_text [] = []" "shown_text (ys @ zs) = shown_text ys @ shown_text zs"
  "shown_text (Inr (Some m, u) # ys) = concat (filter_map as_text (msg_content m)) @ shown_text ys"
  "shown_text (Inr (None, u) # ys) = shown_text ys"
  "shown_thinking [] = []" "shown_thinking (ys @ zs) = shown_thinking ys @ shown_thinking zs"
  "shown_thinking (Inr (Some m, u) # ys) =
     concat (map thinking (filter_map as_thinking (msg_content m))) @ shown_thinking ys"
  "shown_thinking (Inr (None, u) # ys) = shown_thinking ys"
  by (simp_all add: shown_text_def shown_thinking_def)

lemma blocks_shown [simp]:
  "concat (filter_map as_text (text_blocks s)) = s" "filter_map as_text (thinking_blocks s) = []"
  "concat (map thinking (filter_map as_thinking (thinking_blocks s))) = s"
  "filter_map as_thinking (text_blocks s) = []"
  by (simp_all add: text_blocks_def thinking_blocks_def mc_text_def mc_thinking_def text_content_new_def)

lemma blocks_empty [simp]: "text_blocks s = [] \<longleftrightarrow> s = []" "thinking_blocks s = [] \<longleftrightarrow> s = []"
  by (simp_all add: text_blocks_def thinking_blocks_def)

lemma assistant_message_fields [simp]:
  "msg_content (assistant_message V cs i) = cs"
  "output_token_limit_reached (msg_metadata (assistant_message V cs i)) = False"
  by (simp_all add: assistant_message_def message_new_def with_id_def metadata_default_def Let_def
      split: option.split)

subsection \<open>Text and reasoning\<close>

lemma note_reasoning_fields [simp]:
  "os_filter (note_reasoning d st) = os_filter st" "os_signature (note_reasoning d st) = os_signature st"
  "os_usage_emitted (note_reasoning d st) = os_usage_emitted st"
  "os_limit_reached (note_reasoning d st) = os_limit_reached st"
  "os_limit_emitted (note_reasoning d st) = os_limit_emitted st"
  "os_finish_reason (note_reasoning d st) = os_finish_reason st"
  by (simp_all add: note_reasoning_def Let_def split: option.split)

lemma reasoning_text_nonempty: "reasoning_text d = Some r \<Longrightarrow> r \<noteq> []"
  by (auto simp: reasoning_text_def nonempty_def option_or_def split: if_splits option.splits)

lemma note_reasoning_inline [simp]:
  "os_structured (note_reasoning d st) \<longleftrightarrow> os_structured st \<or> reasoning_text d \<noteq> None"
  "os_pending_inline (note_reasoning d st) = (if reasoning_text d \<noteq> None then [] else os_pending_inline st)"
  using reasoning_text_nonempty
  by (auto simp: note_reasoning_def Let_def split: option.split)

lemma note_fields [simp]:
  "os_filter (note_ids chunk st) = os_filter st" "os_filter (note_finish chunk st) = os_filter st"
  "os_structured (note_ids chunk st) = os_structured st" "os_structured (note_finish chunk st) = os_structured st"
  "os_pending_inline (note_ids chunk st) = os_pending_inline st"
  "os_pending_inline (note_finish chunk st) = os_pending_inline st"
  "os_limit_reached (note_ids chunk st) = os_limit_reached st"
  "os_limit_reached (note_finish chunk st) = os_limit_reached st"
  "os_limit_emitted (note_ids chunk st) = os_limit_emitted st"
  "os_limit_emitted (note_finish chunk st) = os_limit_emitted st"
  "os_finish_reason (note_ids chunk st) = os_finish_reason st"
  "os_finish_reason (note_finish chunk st) = option_or (chunk_finish chunk) (os_finish_reason st)"
  by (simp_all add: note_ids_def note_finish_def)

lemma frame_reasoning_empty: "sk_choices chunk = [] \<Longrightarrow> frame_reasoning chunk = None \<and> frame_text chunk = None"
  by (simp add: frame_reasoning_def frame_text_def frame_delta_def delta_default_def reasoning_text_def
      nonempty_def option_or_def extract_content_and_signature_def)

lemma absorb_openai_fields [simp]:
  "os_filter (absorb_openai_chunk chunk st) = os_filter st"
  "os_structured (absorb_openai_chunk chunk st) \<longleftrightarrow> os_structured st \<or> frame_reasoning chunk \<noteq> None"
  "os_pending_inline (absorb_openai_chunk chunk st) =
     (if frame_reasoning chunk \<noteq> None then [] else os_pending_inline st)"
  "os_limit_emitted (absorb_openai_chunk chunk st) = os_limit_emitted st"
  using frame_reasoning_empty
  by (auto simp: absorb_openai_chunk_def Let_def frame_reasoning_def frame_delta_def split: list.split)

text \<open>The filter over the texts that are left, from a state.\<close>

definition filtered_from :: "think_filter \<Rightarrow> string list \<Rightarrow> filter_out" where
  "filtered_from F texts =
     (let (out, F1) = foldl push_onto (filter_out_default, F) texts
      in out_append out (think_finish F1))"

lemma push_onto_append:
  "push_onto (out_append o1 out, F) s = (out_append o1 (fst (push_onto (out, F) s)), snd (push_onto (out, F) s))"
  by (simp add: push_onto_process process_events_append)

lemma pushes_append:
  "foldl push_onto (out_append o1 out, F) texts =
    (out_append o1 (fst (foldl push_onto (out, F) texts)), snd (foldl push_onto (out, F) texts))"
proof (induction texts arbitrary: out F)
  case (Cons s texts)
  obtain out1 F1 where p: "push_onto (out, F) s = (out1, F1)" by fastforce
  show ?case
    using Cons.IH [of out1 F1] by (simp add: push_onto_append p)
qed simp

lemma out_append_assoc: "out_append (out_append a b) c = out_append a (out_append b c)"
  by (simp add: out_append_def)

lemma filtered_from_Cons:
  "filtered_from F (s # texts) =
    out_append (fst (think_push s F)) (filtered_from (snd (think_push s F)) texts)"
proof -
  obtain o1 F1 where p: "think_push s F = (o1, F1)" by fastforce
  then have "push_onto (filter_out_default, F) s = (out_append o1 filter_out_default, F1)"
    by (simp add: push_onto_def filter_out_default_def out_append_def)
  then show ?thesis
    using pushes_append [of o1 filter_out_default F1 texts]
    by (simp add: filtered_from_def p case_prod_beta Let_def out_append_assoc)
qed

lemma filtered_from_Nil: "filtered_from F [] = think_finish F"
  by (simp add: filtered_from_def)

lemma out_append_fields [simp]:
  "fo_content (out_append a b) = fo_content a @ fo_content b"
  "fo_thinking (out_append a b) = fo_thinking a @ fo_thinking b"
  by (simp_all add: out_append_def)

lemma closing_shown [simp]:
  "shown_text (closing_marker V st) = []" "shown_thinking (closing_marker V st) = []"
  "shown_text (closing_usage st) = []" "shown_thinking (closing_usage st) = []"
  "\<not> failed (closing_marker V st)" "\<not> failed (closing_usage st)"
  by (simp_all add: closing_marker_def closing_usage_def output_token_limit_marker_def
      message_assistant_def message_new_def with_id_def split: option.split)

lemma trailing_shown:
  assumes "trailing_text V st = (ys, st1)"
  shows "shown_text ys = fo_content (think_finish (os_filter st))"
    "shown_thinking ys =
      (if os_structured st then [] else os_pending_inline st @ fo_thinking (think_finish (os_filter st)))"
    "\<not> failed ys"
  using assms by (auto simp: trailing_text_def Let_def split: if_splits)

lemma finish_shown:
  "shown_text (finish_openai_stream V st) = fo_content (think_finish (os_filter st))"
  "shown_thinking (finish_openai_stream V st) =
    (if os_structured st then [] else os_pending_inline st @ fo_thinking (think_finish (os_filter st)))"
  "\<not> failed (finish_openai_stream V st)"
proof -
  obtain ys st1 where "trailing_text V st = (ys, st1)" by fastforce
  with trailing_shown [OF this] show
    "shown_text (finish_openai_stream V st) = fo_content (think_finish (os_filter st))"
    "shown_thinking (finish_openai_stream V st) =
      (if os_structured st then [] else os_pending_inline st @ fo_thinking (think_finish (os_filter st)))"
    "\<not> failed (finish_openai_stream V st)"
    by (simp_all add: finish_openai_stream_def)
qed

text \<open>One frame without tool calls.\<close>

lemma reasoning_part_shown:
  assumes "reasoning_part d st = (cs, st1)"
  shows "filter_map as_text cs = []" "concat (map thinking (filter_map as_thinking cs)) = unwrap_or (reasoning_text d) []"
    "os_filter st1 = os_filter st" "os_structured st1 = os_structured st"
    "os_pending_inline st1 = os_pending_inline st" "os_limit_emitted st1 = os_limit_emitted st"
    "os_limit_reached st1 = os_limit_reached st" "cs = [] \<longleftrightarrow> reasoning_text d = None"
  using assms by (auto simp: reasoning_part_def mc_thinking_def split: option.splits)

definition push_text :: "string option \<Rightarrow> think_filter \<Rightarrow> filter_out \<times> think_filter" where
  "push_text t F = (case t of None \<Rightarrow> (filter_out_default, F) | Some s \<Rightarrow> think_push s F)"

lemma text_part_shown:
  assumes "text_part d st = (cs, st1)"
    and "push_text (fst (extract_content_and_signature (de_content d))) (os_filter st) = (out, F)"
  shows "concat (filter_map as_text cs) = fo_content out" "filter_map as_thinking cs = []"
    "os_filter st1 = F" "os_structured st1 = os_structured st"
    "os_pending_inline st1 = (if os_structured st then os_pending_inline st
       else os_pending_inline st @ fo_thinking out)"
    "os_limit_emitted st1 = os_limit_emitted st" "os_limit_reached st1 = os_limit_reached st"
    "cs = [] \<Longrightarrow> fo_content out = []"
  using assms
  by (auto simp: text_part_def push_text_def Let_def case_prod_beta filter_out_default_def
      split: option.splits)

lemma emit_usage_shown:
  assumes "emit_usage usage st = (ys, st1)"
  shows "\<not> failed ys" "shown_text ys = []" "shown_thinking ys = []" "os_filter st1 = os_filter st"
    "os_structured st1 = os_structured st" "os_pending_inline st1 = os_pending_inline st"
    "os_limit_emitted st1 = os_limit_emitted st" "os_limit_reached st1 = os_limit_reached st"
    "yielded_messages ys = []"
  using assms by (auto simp: emit_usage_def split: if_splits)

lemma text_chunk_shown:
  assumes "text_chunk V choice i usage st = (ys, st2)"
    and "push_text (fst (extract_content_and_signature (de_content (ch_delta choice)))) (os_filter st) = (out, F)"
  shows "\<not> failed ys \<and> shown_text ys = fo_content out \<and>
    shown_thinking ys = unwrap_or (reasoning_text (ch_delta choice)) [] \<and> os_filter st2 = F \<and>
    os_structured st2 = os_structured st \<and>
    os_pending_inline st2 = (if os_structured st then os_pending_inline st
       else os_pending_inline st @ fo_thinking out) \<and>
    os_limit_emitted st2 = os_limit_emitted st \<and> os_limit_reached st2 = os_limit_reached st \<and>
    (\<forall>m \<in> set (yielded_messages ys). \<not> output_token_limit_reached (msg_metadata m))"
proof -
  obtain r st1 where r: "reasoning_part (ch_delta choice) st = (r, st1)" by fastforce
  obtain s st1' where s: "text_part (ch_delta choice) st1 = (s, st1')" by fastforce
  note R = reasoning_part_shown [OF r]
  have p: "push_text (fst (extract_content_and_signature (de_content (ch_delta choice)))) (os_filter st1) = (out, F)"
    using assms(2) R(3) by simp
  note T = text_part_shown [OF s p]
  show ?thesis
  proof (cases "r @ s = []")
    case True
    then have "emit_usage usage st1' = (ys, st2)" using assms(1) r s by (simp add: text_chunk_def)
    from emit_usage_shown [OF this] show ?thesis using R T True by (simp add: unwrap_or_def)
  next
    case False
    define fu where "fu = (if ch_finish_reason choice \<noteq> None then usage else None)"
    have "text_chunk V choice i usage st = ([Inr (Some (assistant_message V (r @ s) i), fu)],
        st1'\<lparr>os_usage_emitted := os_usage_emitted st1' \<or> fu \<noteq> None\<rparr>)"
      unfolding text_chunk_def r s prod.case Let_def fu_def if_P [OF False] ..
    then have y: "ys = [Inr (Some (assistant_message V (r @ s) i), fu)]"
      "st2 = st1'\<lparr>os_usage_emitted := os_usage_emitted st1' \<or> fu \<noteq> None\<rparr>"
      using assms(1) by simp_all
    have "filter_map as_text r = []" "concat (filter_map as_text s) = fo_content out" using R(1) T(1) .
    moreover have "filter_map as_thinking s = []"
      "concat (map thinking (filter_map as_thinking r)) = unwrap_or (reasoning_text (ch_delta choice)) []"
      using T(2) R(2) .
    ultimately show ?thesis unfolding y by (simp add: R(3-7) T(3-7))
  qed
qed

lemma plain_chunk_shown:
  assumes "plain_chunk V chunk st = (ys, st2)"
    and "push_text (frame_text chunk) (os_filter st) = (out, F)"
  shows "\<not> failed ys \<and> shown_text ys = fo_content out \<and>
    shown_thinking ys = unwrap_or (frame_reasoning chunk) [] \<and> os_filter st2 = F \<and>
    os_structured st2 = os_structured st \<and>
    os_pending_inline st2 = (if os_structured st then os_pending_inline st
       else os_pending_inline st @ fo_thinking out) \<and>
    os_limit_emitted st2 = os_limit_emitted st \<and> os_limit_reached st2 = os_limit_reached st \<and>
    (\<forall>m \<in> set (yielded_messages ys). \<not> output_token_limit_reached (msg_metadata m))"
proof (cases "sk_choices chunk")
  case Nil
  with assms frame_reasoning_empty [OF Nil] show ?thesis
    by (auto simp: plain_chunk_def Let_def push_text_def filter_out_default_def)
next
  case (Cons choice rest)
  have f: "frame_text chunk = fst (extract_content_and_signature (de_content (ch_delta choice)))"
    "frame_reasoning chunk = reasoning_text (ch_delta choice)"
    using Cons by (simp_all add: frame_text_def frame_reasoning_def frame_delta_def)
  show ?thesis
  proof (cases "de_content (ch_delta choice) \<noteq> None \<or> reasoning_text (ch_delta choice) \<noteq> None")
    case True
    with assms(1) Cons have "text_chunk V choice (sk_id chunk) (stamped_usage V chunk st) st = (ys, st2)"
      by (simp add: plain_chunk_def Let_def)
    from text_chunk_shown [OF this assms(2) [unfolded f(1)]] show ?thesis unfolding f .
  next
    case False
    with assms(1) Cons have "emit_usage (stamped_usage V chunk st) st = (ys, st2)"
      by (simp add: plain_chunk_def Let_def)
    from emit_usage_shown [OF this] False assms(2) f show ?thesis
      by (auto simp: push_text_def extract_content_and_signature_def filter_out_default_def)
  qed
qed

lemma push_frame_text:
  "filtered_from F (filter_map frame_text (chunk # chunks)) =
    (let (out, F1) = push_text (frame_text chunk) F
     in out_append out (filtered_from F1 (filter_map frame_text chunks)))"
  by (cases "frame_text chunk")
    (simp_all add: push_text_def filtered_from_Cons out_append_def filter_out_default_def case_prod_beta Let_def)

declare openai_loop.simps(3) [simp del]

lemma openai_loop_plain:
  assumes "read_line V response = ChunkLine chunk" "chunk_tool_calls chunk = []"
    and "plain_chunk V chunk (absorb_openai_chunk chunk st) = (ys, st2)"
  shows "openai_loop V (Inr response # rest) st = ys @ openai_loop V rest st2"
  using assms by (simp add: openai_loop.simps(3))

definition shows_frames :: "openai_env \<Rightarrow> stream_yield list \<Rightarrow> openai_stream \<Rightarrow> streaming_chunk list \<Rightarrow> bool" where
  "shows_frames V ys st chunks \<longleftrightarrow>
     shown_text ys = fo_content (filtered_from (os_filter st) (filter_map frame_text chunks)) \<and>
     shown_thinking ys = concat (filter_map frame_reasoning chunks) @
       (if os_structured st \<or> filter_map frame_reasoning chunks \<noteq> [] then []
        else os_pending_inline st @ fo_thinking (filtered_from (os_filter st) (filter_map frame_text chunks)))"

lemma finish_shows: "shows_frames V (finish_openai_stream V st) st []"
  by (simp add: shows_frames_def finish_shown filtered_from_Nil)

lemma plain_chunk_shows:
  assumes step: "plain_chunk V chunk (absorb_openai_chunk chunk st) = (ys, st2)"
    and rest: "shows_frames V zs st2 chunks"
  shows "shows_frames V (ys @ zs) st (chunk # chunks)"
proof -
  obtain out F where p: "push_text (frame_text chunk) (os_filter (absorb_openai_chunk chunk st)) = (out, F)"
    by fastforce
  note shown = plain_chunk_shown [OF step p]
  have fr: "filter_map frame_reasoning (chunk # chunks) =
      (case frame_reasoning chunk of None \<Rightarrow> [] | Some r \<Rightarrow> [r]) @ filter_map frame_reasoning chunks"
    by (simp split: option.split)
  have ft: "filtered_from (os_filter st) (filter_map frame_text (chunk # chunks)) =
      out_append out (filtered_from F (filter_map frame_text chunks))"
    using p by (simp only: push_frame_text absorb_openai_fields(1) prod.case Let_def)
  show ?thesis
    using shown rest unfolding shows_frames_def ft fr
    by (cases "frame_reasoning chunk") (auto simp: unwrap_or_def)
qed

lemma openai_loop_shows:
  "\<not> failed (openai_loop V items st) \<Longrightarrow> \<forall>chunk \<in> set (frames V items). chunk_tool_calls chunk = [] \<Longrightarrow>
   shows_frames V (openai_loop V items st) st (frames V items)"
proof (induction V items arbitrary: st rule: frames.induct)
  case (3 V response rest)
  show ?case
  proof (cases "read_line V response")
    case (ChunkLine chunk)
    obtain ys st2 where step: "plain_chunk V chunk (absorb_openai_chunk chunk st) = (ys, st2)" by fastforce
    have "chunk_tool_calls chunk = []" using 3 ChunkLine by simp
    from openai_loop_plain [OF ChunkLine this step] 3 ChunkLine plain_chunk_shows [OF step]
    show ?thesis by simp
  qed (use 3 in \<open>simp_all add: openai_loop.simps(3) finish_shows\<close>)
qed (simp_all add: finish_shows)

text \<open>
  C26: A streamed answer that does not fail and holds no tool calls is shown as what the think
  filter makes of the texts of its frames, in order, whatever the cuts between them; if any frame
  has structured reasoning, that reasoning is what is shown as thinking, once and in order, and
  thoughts inside the text are dropped; otherwise the thoughts of the text are the thinking.\<close>

theorem openai_stream_text:
  assumes "\<not> failed (response_to_streaming_message V items)"
    and "\<forall>chunk \<in> set (frames V items). chunk_tool_calls chunk = []"
  shows "shown_text (response_to_streaming_message V items) =
      fst (think_stream (filter_map frame_text (frames V items))) \<and>
    shown_thinking (response_to_streaming_message V items) =
      (if filter_map frame_reasoning (frames V items) \<noteq> []
       then concat (filter_map frame_reasoning (frames V items))
       else snd (think_stream (filter_map frame_text (frames V items))))"
proof -
  have "think_stream chunks = (fo_content (filtered_from think_filter_new chunks),
      fo_thinking (filtered_from think_filter_new chunks))" for chunks
    by (simp add: think_stream_def filtered_from_def case_prod_beta Let_def)
  with openai_loop_shows [of V items openai_stream_start] assms show ?thesis
    by (simp add: shows_frames_def response_to_streaming_message_def openai_stream_start_def)
qed

subsection \<open>The output limit\<close>

abbreviation cut_short :: "message \<Rightarrow> bool" where
  "cut_short m \<equiv> output_token_limit_reached (msg_metadata m)"

definition limit_frame :: "streaming_chunk \<Rightarrow> bool" where
  "limit_frame chunk \<longleftrightarrow> chunk_finish chunk = Some ''length''"

text \<open>The tool calls of a message that would run.\<close>

definition runnable_calls :: "message \<Rightarrow> string list" where
  "runnable_calls m =
     filter_map (\<lambda>c. case c of ToolRequest r \<Rightarrow> (case tq_tool_call r of Inl e \<Rightarrow> None | Inr p \<Rightarrow> Some (tq_id r)) | _ \<Rightarrow> None)
       (msg_content m)"

text \<open>The finish reason that is kept is \<open>length\<close> only when the limit was noted.\<close>

definition limit_noted :: "openai_stream \<Rightarrow> bool" where
  "limit_noted st \<longleftrightarrow> (os_finish_reason st = Some ''length'' \<longrightarrow> os_limit_reached st)"

lemma absorb_limit:
  "os_limit_reached (absorb_openai_chunk chunk st) \<longleftrightarrow>
     os_limit_reached st \<or> option_or (chunk_finish chunk) (os_finish_reason st) = Some ''length''"
  "os_finish_reason (absorb_openai_chunk chunk st) = option_or (chunk_finish chunk) (os_finish_reason st)"
  by (simp_all add: absorb_openai_chunk_def Let_def split: list.split)

lemma absorb_limit_noted:
  assumes "limit_noted st"
  shows "limit_noted (absorb_openai_chunk chunk st)"
    "os_limit_reached (absorb_openai_chunk chunk st) \<longleftrightarrow> os_limit_reached st \<or> limit_frame chunk"
  using assms by (auto simp: limit_noted_def absorb_limit limit_frame_def option_or_def split: option.splits)

text \<open>The inner loop reads a line as the outer one does, but for an empty one.\<close>

lemma tool_line_read:
  assumes "je_parse (oe_json V) [] = None"
  shows "tool_line V response st data usage =
     (case read_line V response of
        SkipLine \<Rightarrow> if strip_data_prefix response = Some []
          then ToolFailed (ProviderFailure (chunk_decode_error V (oe_parse_error V []) []))
          else ToolGoesOn st data usage
      | EndOfStream \<Rightarrow> ToolBreak st
      | BadLine e \<Rightarrow> ToolFailed e
      | ChunkLine chunk \<Rightarrow> tool_chunk V chunk st data usage)"
  using assms
  by (auto simp: tool_line_def read_line_def parse_streaming_chunk_def split: option.split sum.split)

lemma note_reasoning_limit: "os_finish_reason (note_reasoning d st) = os_finish_reason st"
  by simp

lemma tool_chunk_state:
  "case tool_chunk V chunk st data usage of
     ToolGoesOn st1 data1 usage1 \<Rightarrow> chunk_finish chunk = None \<and> sk_choices chunk \<noteq> [] \<and>
       os_limit_reached st1 = os_limit_reached st \<and> os_finish_reason st1 = os_finish_reason st \<and>
       os_limit_emitted st1 = os_limit_emitted st
   | ToolDone st1 data1 usage1 \<Rightarrow> (os_limit_reached st1 \<longleftrightarrow> os_limit_reached st \<or> limit_frame chunk) \<and>
       os_finish_reason st1 = option_or (chunk_finish chunk) (os_finish_reason st) \<and>
       os_limit_emitted st1 = os_limit_emitted st
   | _ \<Rightarrow> False"
  by (auto simp: tool_chunk_def Let_def limit_frame_def chunk_finish_def first_opt_def option_or_def
      split: list.split option.split)

text \<open>The frames that the inner loop takes.\<close>

lemma tool_loop_limit:
  assumes "je_parse (oe_json V) [] = None" "limit_noted st"
  shows "case tool_loop V items st data usage of
     ToolsComplete st1 data1 usage1 rest \<Rightarrow>
       (\<exists>taken. frames V items = taken @ frames V rest \<and>
         (os_limit_reached st1 \<longleftrightarrow> os_limit_reached st \<or> list_ex limit_frame taken)) \<and>
       limit_noted st1 \<and> os_limit_emitted st1 = os_limit_emitted st
   | StreamDone st1 \<Rightarrow> (os_limit_reached st1 \<longleftrightarrow> os_limit_reached st \<or> list_ex limit_frame (frames V items)) \<and>
       limit_noted st1 \<and> os_limit_emitted st1 = os_limit_emitted st
   | StreamFailed e \<Rightarrow> True"
  using assms
proof (induction V items st data usage rule: tool_loop.induct)
  case (3 V response rest st data usage)
  show ?case
  proof (cases "read_line V response")
    case SkipLine
    with 3 tool_line_read [OF 3(2), of response st data usage] show ?thesis
      by (cases "strip_data_prefix response = Some []") (simp_all split: tool_outcome.splits)
  next
    case EndOfStream
    with 3 tool_line_read [OF 3(2), of response st data usage] show ?thesis by simp
  next
    case (BadLine e)
    with 3 tool_line_read [OF 3(2), of response st data usage] show ?thesis by simp
  next
    case (ChunkLine chunk)
    have line: "tool_line V response st data usage = tool_chunk V chunk st data usage"
      using tool_line_read [OF 3(2), of response st data usage] ChunkLine by simp
    note state = tool_chunk_state [where V = V and chunk = chunk and st = st and data = data and usage = usage]
    show ?thesis
    proof (cases "tool_chunk V chunk st data usage")
      case (ToolGoesOn st1 data1 usage1)
      with state have st1: "limit_noted st1" "\<not> limit_frame chunk"
        "os_limit_reached st1 = os_limit_reached st" "os_limit_emitted st1 = os_limit_emitted st"
        using 3(3) by (simp_all add: limit_noted_def limit_frame_def)
      show ?thesis
        using 3(1) [OF _ 3(2) st1(1)] line ToolGoesOn ChunkLine st1
        by (auto split: tool_outcome.splits intro: exI [of _ "chunk # _"])
    next
      case (ToolDone st1 data1 usage1)
      with state 3(3) line ChunkLine show ?thesis
        by (auto simp: limit_noted_def limit_frame_def option_or_def split: option.splits
            intro!: exI [of _ "[chunk]"])
    qed (use state in simp_all)
  qed
qed simp_all

lemma plain_chunk_finish:
  "os_finish_reason (snd (plain_chunk V chunk st)) = os_finish_reason st"
  by (simp add: plain_chunk_def text_chunk_def emit_usage_def reasoning_part_def text_part_def Let_def
      case_prod_beta split: list.split option.split)

text \<open>What a list of yields says of the limit, from a state and the frames it came from.\<close>

definition marks_limit :: "stream_yield list \<Rightarrow> openai_stream \<Rightarrow> streaming_chunk list \<Rightarrow> bool" where
  "marks_limit ys st chunks \<longleftrightarrow>
     ((\<exists>m \<in> set (yielded_messages ys). cut_short m) \<longrightarrow> os_limit_reached st \<or> list_ex limit_frame chunks) \<and>
     (\<not> os_limit_emitted st \<and> (os_limit_reached st \<or> list_ex limit_frame chunks) \<longrightarrow>
       (\<exists>m \<in> set (yielded_messages ys). cut_short m)) \<and>
     (\<forall>m \<in> set (yielded_messages ys). cut_short m \<longrightarrow> runnable_calls m = [])"

lemma runnable_calls_blocks [simp]:
  "filter_map f (text_blocks s) = (if s = [] then [] else filter_map f [mc_text s])"
  "filter_map f (thinking_blocks s) = (if s = [] then [] else filter_map f [mc_thinking s []])"
  by (simp_all add: text_blocks_def thinking_blocks_def)

lemma trailing_text_limit:
  assumes "trailing_text V st = (ys, st1)"
  shows "\<not> failed ys" "os_limit_reached st1 = os_limit_reached st"
    "os_limit_emitted st1 \<longleftrightarrow> os_limit_emitted st \<or> (\<exists>m \<in> set (yielded_messages ys). cut_short m)"
    "(\<exists>m \<in> set (yielded_messages ys). cut_short m) \<longrightarrow> os_limit_reached st \<and> \<not> os_limit_emitted st"
    "m \<in> set (yielded_messages ys) \<Longrightarrow> runnable_calls m = []"
  using assms
  by (auto simp: trailing_text_def Let_def runnable_calls_def mc_text_def mc_thinking_def split: if_splits)

lemma marker_message:
  "cut_short (output_token_limit_marker V i)" "runnable_calls (output_token_limit_marker V i) = []"
  by (simp_all add: output_token_limit_marker_def runnable_calls_def message_assistant_def message_new_def with_id_def
      metadata_default_def split: option.split)

lemma closing_marker_messages:
  "yielded_messages (closing_marker V st) =
    (if os_limit_reached st \<and> \<not> os_limit_emitted st
     then [output_token_limit_marker V (os_response_id st)] else [])"
  "yielded_messages (closing_usage st) = []"
  by (simp_all add: closing_marker_def closing_usage_def)

lemma finish_marks: "marks_limit (finish_openai_stream V st) st []"
proof -
  obtain ys st1 where t: "trailing_text V st = (ys, st1)" by fastforce
  from trailing_text_limit [OF t] marker_message show ?thesis
    by (auto simp: marks_limit_def finish_openai_stream_def t closing_marker_messages)
qed

lemma flush_before_calls_fields:
  assumes "flush_before_calls V i st = (ys, st1)"
  shows "\<not> failed ys" "os_limit_reached st1 = os_limit_reached st" "os_finish_reason st1 = os_finish_reason st"
    "os_limit_emitted st1 = os_limit_emitted st" "\<forall>m \<in> set (yielded_messages ys). \<not> cut_short m"
  using assms by (auto simp: flush_before_calls_def Let_def case_prod_beta split: if_splits)

lemma tool_request_content_limit:
  "os_limit_reached st \<Longrightarrow>
   tool_request_content V st ia = ToolRequest \<lparr>tq_id = ta_id (snd ia),
     tq_tool_call = Inl (output_token_limit_tool_error (ta_name (snd ia)) (ta_id (snd ia))),
     tq_metadata = tool_metadata (os_signature st) (ta_extra (snd ia)),
     tq_tool_meta = Some (JObj [(META_PROVIDER_INDEX, JInt (sint (fst ia)))])\<rparr>"
  by (simp add: tool_request_content_def tool_call_of_def mc_tool_request_with_provider_index_def)

lemma limited_calls_do_not_run:
  "os_limit_reached st \<Longrightarrow>
   filter_map (\<lambda>c. case c of ToolRequest r \<Rightarrow> (case tq_tool_call r of Inl e \<Rightarrow> None | Inr p \<Rightarrow> Some (tq_id r)) | _ \<Rightarrow> None)
     (map (tool_request_content V st) calls) = []"
  by (induction calls) (simp_all add: tool_request_content_limit)

lemma emit_calls_limit:
  assumes "emit_calls V i st data usage = (ys, st1)"
  shows "\<not> failed ys" "os_limit_reached st1 = os_limit_reached st" "os_finish_reason st1 = os_finish_reason st"
    "os_limit_emitted st1 \<longleftrightarrow> os_limit_emitted st \<or> os_limit_reached st"
    "(\<exists>m \<in> set (yielded_messages ys). cut_short m) \<longleftrightarrow> os_limit_reached st"
    "m \<in> set (yielded_messages ys) \<Longrightarrow> cut_short m \<Longrightarrow> runnable_calls m = []"
proof -
  obtain before st' where f: "flush_before_calls V i st = (before, st')" by fastforce
  note F = flush_before_calls_fields [OF f]
  define shown where "shown = thinking_blocks (if os_yielded_reasoning st' < length (os_reasoning st')
      then drop (os_yielded_reasoning st') (os_reasoning st') else [])"
  define m' where "m' = (assistant_message V (shown @ map (tool_request_content V st') (sorted_calls data)) i)
      \<lparr>msg_metadata := (msg_metadata (assistant_message V (shown @ map (tool_request_content V st') (sorted_calls data)) i))
        \<lparr>output_token_limit_reached := os_limit_reached st'\<rparr>\<rparr>"
  have e: "ys = before @ [Inr (Some m', usage)]"
    "st1 = st'\<lparr>os_reasoning := [], os_yielded_reasoning := 0,
       os_limit_emitted := os_limit_emitted st' \<or> os_limit_reached st',
       os_usage_emitted := os_usage_emitted st' \<or> usage \<noteq> None\<rparr>"
    using assms by (simp_all add: emit_calls_def f Let_def m'_def shown_def)
  have cut: "cut_short m' \<longleftrightarrow> os_limit_reached st" using F by (simp add: m'_def)
  have calls: "os_limit_reached st \<Longrightarrow> runnable_calls m' = []"
    using F limited_calls_do_not_run [of st' V "sorted_calls data"]
    by (simp add: m'_def runnable_calls_def shown_def mc_thinking_def)
  show "\<not> failed ys" "os_limit_reached st1 = os_limit_reached st" "os_finish_reason st1 = os_finish_reason st"
    "os_limit_emitted st1 \<longleftrightarrow> os_limit_emitted st \<or> os_limit_reached st"
    "(\<exists>m \<in> set (yielded_messages ys). cut_short m) \<longleftrightarrow> os_limit_reached st"
    "m \<in> set (yielded_messages ys) \<Longrightarrow> cut_short m \<Longrightarrow> runnable_calls m = []"
    using F cut calls by (auto simp: e)
qed

lemma marks_limit_append:
  assumes "\<forall>m \<in> set (yielded_messages ys). \<not> cut_short m" "marks_limit zs st1 chunks"
    and "os_limit_reached st1 \<longleftrightarrow> os_limit_reached st \<or> list_ex limit_frame taken"
    and "os_limit_emitted st1 = os_limit_emitted st"
  shows "marks_limit (ys @ zs) st (taken @ chunks)"
  using assms by (auto simp: marks_limit_def)

lemma plain_chunk_marks:
  assumes step: "plain_chunk V chunk (absorb_openai_chunk chunk st) = (ys, st2)" and noted: "limit_noted st"
  shows "limit_noted st2" "marks_limit zs st2 chunks \<Longrightarrow> marks_limit (ys @ zs) st (chunk # chunks)"
proof -
  obtain out F where p: "push_text (frame_text chunk) (os_filter (absorb_openai_chunk chunk st)) = (out, F)"
    by fastforce
  note shown = plain_chunk_shown [OF step p]
  have f: "os_finish_reason st2 = os_finish_reason (absorb_openai_chunk chunk st)"
    using plain_chunk_finish [of V chunk "absorb_openai_chunk chunk st"] by (simp add: step)
  show "limit_noted st2"
    using absorb_limit_noted(1) [OF noted, of chunk] shown f by (simp add: limit_noted_def)
  show "marks_limit (ys @ zs) st (chunk # chunks)" if "marks_limit zs st2 chunks"
    using marks_limit_append [of ys zs st2 chunks st "[chunk]"] that shown absorb_limit_noted(2) [OF noted, of chunk]
    by simp
qed

lemma emit_calls_marks:
  assumes "emit_calls V i st2 data usage = (ys, st3)" "limit_noted st2"
    and "os_limit_reached st2 \<longleftrightarrow> os_limit_reached st \<or> list_ex limit_frame taken"
    and "os_limit_emitted st2 = os_limit_emitted st" 
  shows "limit_noted st3" "marks_limit zs st3 chunks \<Longrightarrow> marks_limit (ys @ zs) st (taken @ chunks)"
proof -
  note E = emit_calls_limit [OF assms(1)]
  show "limit_noted st3" using assms(2) E by (simp add: limit_noted_def)
  show "marks_limit (ys @ zs) st (taken @ chunks)" if "marks_limit zs st3 chunks"
  proof -
    let ?Z = "\<exists>m \<in> set (yielded_messages zs). cut_short m"
    have both: "(\<exists>m \<in> set (yielded_messages (ys @ zs)). cut_short m) \<longleftrightarrow> os_limit_reached st2 \<or> ?Z"
      using E(5) by auto
    have runs: "\<forall>m \<in> set (yielded_messages (ys @ zs)). cut_short m \<longrightarrow> runnable_calls m = []"
      using that E(6) by (auto simp: marks_limit_def)
    have "?Z \<longrightarrow> os_limit_reached st2 \<or> list_ex limit_frame chunks"
      "\<not> os_limit_emitted st \<and> \<not> os_limit_reached st2 \<and> list_ex limit_frame chunks \<longrightarrow> ?Z"
      using that E(2,4) assms(4) by (simp_all add: marks_limit_def)
    then show ?thesis
      using assms(3) runs unfolding marks_limit_def both by auto
  qed
qed

text \<open>The outer loop, by the length of what is left: the calls take lines of their own.\<close>

lemma openai_loop_calls:
  assumes "read_line V response = ChunkLine chunk" "chunk_tool_calls chunk \<noteq> []"
  shows "openai_loop V (Inr response # rest) st =
    (let st1 = absorb_openai_chunk chunk st; usage = stamped_usage V chunk st1;
         data = first_tool_calls (chunk_tool_calls chunk)
     in case (if is_complete chunk then ToolsComplete st1 data usage rest else tool_loop V rest st1 data usage) of
          StreamFailed e \<Rightarrow> [Inl e]
        | StreamDone st2 \<Rightarrow> finish_openai_stream V st2
        | ToolsComplete st2 data2 usage2 rest2 \<Rightarrow>
            (let (ys, st3) = emit_calls V (sk_id chunk) st2 data2 usage2 in ys @ openai_loop V rest2 st3))"
  using assms by (simp add: openai_loop.simps(3) Let_def)

lemma finish_marks_from:
  assumes "os_limit_reached st1 \<longleftrightarrow> os_limit_reached st \<or> list_ex limit_frame chunks"
    and "os_limit_emitted st1 = os_limit_emitted st"
  shows "marks_limit (finish_openai_stream V st1) st chunks"
  using finish_marks [of V st1] assms by (simp add: marks_limit_def)

lemma calls_mark:
  assumes empty: "je_parse (oe_json V) [] = None" and ChunkLine: "read_line V response = ChunkLine chunk"
    and calls: "chunk_tool_calls chunk \<noteq> []" and noted: "limit_noted st"
    and ok: "\<not> failed (openai_loop V (Inr response # rest) st)"
    and ih: "\<And>items st. length items < length (Inr response # rest :: stream_line list) \<Longrightarrow>
      \<not> failed (openai_loop V items st) \<Longrightarrow> limit_noted st \<Longrightarrow> marks_limit (openai_loop V items st) st (frames V items)"
  shows "marks_limit (openai_loop V (Inr response # rest) st) st (frames V (Inr response # rest))"
proof -
  let ?st1 = "absorb_openai_chunk chunk st"
  let ?outcome = "if is_complete chunk
    then ToolsComplete ?st1 (first_tool_calls (chunk_tool_calls chunk)) (stamped_usage V chunk ?st1) rest
    else tool_loop V rest ?st1 (first_tool_calls (chunk_tool_calls chunk)) (stamped_usage V chunk ?st1)"
  note loop = openai_loop_calls [OF ChunkLine calls, of rest st, unfolded Let_def]
  note step = absorb_limit_noted [OF noted, of chunk]
  note tl = tool_loop_limit [OF empty step(1), where items = rest
      and data = "first_tool_calls (chunk_tool_calls chunk)" and usage = "stamped_usage V chunk ?st1"]
  show ?thesis
  proof (cases ?outcome)
    case (StreamFailed e)
    with ok loop show ?thesis by simp
  next
    case (StreamDone st2)
    with tl have "os_limit_reached st2 \<longleftrightarrow> os_limit_reached ?st1 \<or> list_ex limit_frame (frames V rest)"
      "os_limit_emitted st2 = os_limit_emitted st"
      by (simp_all split: if_splits)
    with step finish_marks_from [of st2 st "chunk # frames V rest" V] StreamDone loop ChunkLine
    show ?thesis by simp
  next
    case (ToolsComplete st2 data2 usage2 rest2)
    have "\<exists>taken. frames V rest = taken @ frames V rest2 \<and>
        (os_limit_reached st2 \<longleftrightarrow> os_limit_reached ?st1 \<or> list_ex limit_frame taken) \<and>
        limit_noted st2 \<and> os_limit_emitted st2 = os_limit_emitted st"
      using ToolsComplete tl step(1) by (cases "is_complete chunk") auto
    then obtain taken where taken: "frames V rest = taken @ frames V rest2"
      "os_limit_reached st2 \<longleftrightarrow> os_limit_reached ?st1 \<or> list_ex limit_frame taken"
      "limit_noted st2" "os_limit_emitted st2 = os_limit_emitted st" by blast
    have short: "length rest2 < length (Inr response # rest)"
      using ToolsComplete tool_loop_shorter [of V rest] by (auto split: if_splits simp: less_Suc_eq_le)
    obtain ys st3 where emit: "emit_calls V (sk_id chunk) st2 data2 usage2 = (ys, st3)" by fastforce
    have reach: "os_limit_reached st2 \<longleftrightarrow> os_limit_reached st \<or> list_ex limit_frame (chunk # taken)"
      using taken(2) step(2) by auto
    have out: "openai_loop V (Inr response # rest) st = ys @ openai_loop V rest2 st3"
      using loop ToolsComplete emit by simp
    have "marks_limit (openai_loop V rest2 st3) st3 (frames V rest2)"
      using ih [OF short] ok emit_calls_marks(1) [OF emit taken(3) reach taken(4)]
      by (simp add: out)
    from emit_calls_marks(2) [OF emit taken(3) reach taken(4) this] show ?thesis
      by (simp add: out) (simp add: ChunkLine taken(1))
  qed
qed

lemma openai_loop_marks:
  assumes "je_parse (oe_json V) [] = None"
  shows "\<not> failed (openai_loop V items st) \<Longrightarrow> limit_noted st \<Longrightarrow>
    marks_limit (openai_loop V items st) st (frames V items)"
proof (induction "length items" arbitrary: items st rule: less_induct)
  case less
  consider (Empty) "items = []" | (Bad) e rest where "items = Inl e # rest"
    | (Line) response rest where "items = Inr response # rest"
    by (cases items; cases "hd items") auto
  then show ?case
  proof cases
    case Empty
    then show ?thesis by (simp add: finish_marks)
  next
    case Bad
    then show ?thesis using less.prems by simp
  next
    case Line
    show ?thesis
    proof (cases "read_line V response")
      case (ChunkLine chunk)
      note step = absorb_limit_noted [OF less.prems(2), of chunk]
      show ?thesis
      proof (cases "chunk_tool_calls chunk = []")
        case True
        obtain ys st2 where plain: "plain_chunk V chunk (absorb_openai_chunk chunk st) = (ys, st2)" by fastforce
        note loop = openai_loop_plain [OF ChunkLine True plain]
        from less.hyps [of rest st2] less.prems plain_chunk_marks [OF plain less.prems(2)]
        show ?thesis by (simp add: Line loop ChunkLine)
      next
        case False
        from calls_mark [OF assms ChunkLine this less.prems(2), of rest] less.hyps less.prems(1) Line
        show ?thesis by blast
      qed
    qed (use less Line in \<open>simp_all add: openai_loop.simps(3) finish_marks\<close>)
  qed
qed

text \<open>
  C24: A streamed answer that does not fail marks a message as cut short by the output limit exactly
  when some frame finishes with \<open>length\<close>, and no tool call of a marked message can run: each of
  them is an error, whatever its pieces held.\<close>

theorem openai_stream_limit:
  assumes "je_parse (oe_json V) [] = None" "\<not> failed (response_to_streaming_message V items)"
  shows "((\<exists>m \<in> set (yielded_messages (response_to_streaming_message V items)). cut_short m) \<longleftrightarrow>
      (\<exists>chunk \<in> set (frames V items). chunk_finish chunk = Some ''length'')) \<and>
    (\<forall>m \<in> set (yielded_messages (response_to_streaming_message V items)). cut_short m \<longrightarrow> runnable_calls m = [])"
proof -
  have "limit_noted openai_stream_start" by (simp add: limit_noted_def openai_stream_start_def)
  from openai_loop_marks [OF assms(1) _ this, of items] assms(2)
  show ?thesis
    by (auto simp: marks_limit_def response_to_streaming_message_def openai_stream_start_def list_ex_iff limit_frame_def)
qed

subsection \<open>Tool calls in pieces\<close>

text \<open>The frames that the inner loop reads: up to the first that finishes or has no choice.\<close>

fun call_frames :: "streaming_chunk list \<Rightarrow> streaming_chunk list" where
  "call_frames [] = []"
| "call_frames (chunk # chunks) =
     chunk # (if sk_choices chunk = [] \<or> chunk_finish chunk \<noteq> None then [] else call_frames chunks)"

text \<open>The pieces of the call at an index, joined.\<close>

definition pieces_at :: "i32 \<Rightarrow> delta_tool_call list \<Rightarrow> string" where
  "pieces_at k calls = concat (filter_map (\<lambda>c. if dt_index c = Some k then Some (tf_arguments (dt_function c)) else None) calls)"

lemma pieces_at_simps [simp]:
  "pieces_at k [] = []"
  "pieces_at k (c # calls) = (if dt_index c = Some k then tf_arguments (dt_function c) else []) @ pieces_at k calls"
  "pieces_at k (calls @ calls') = pieces_at k calls @ pieces_at k calls'"
  by (simp_all add: pieces_at_def)

definition call_grows :: "i32 \<Rightarrow> string \<Rightarrow> tool_call_data \<Rightarrow> tool_call_data \<Rightarrow> bool" where
  "call_grows k pieces data data' \<longleftrightarrow>
     (\<forall>acc. map_of data k = Some acc \<longrightarrow>
        (\<exists>acc'. map_of data' k = Some acc' \<and> ta_id acc' = ta_id acc \<and> ta_arguments acc' = ta_arguments acc @ pieces))"

lemma call_grows_refl: "call_grows k [] data data"
  by (simp add: call_grows_def)

lemma call_grows_trans: "call_grows k p data data' \<Longrightarrow> call_grows k q data' data'' \<Longrightarrow> call_grows k (p @ q) data data''"
  unfolding call_grows_def by fastforce

lemma merge_tool_call_grows:
  "call_grows k (if dt_index c = Some k then tf_arguments (dt_function c) else []) data (merge_tool_call data c)"
  by (auto simp: call_grows_def merge_tool_call_def extend_call_def split: option.splits)

lemma merge_tool_calls_grow: "call_grows k (pieces_at k calls) data (foldl merge_tool_call data calls)"
proof (induction calls arbitrary: data)
  case (Cons c calls)
  from call_grows_trans [OF merge_tool_call_grows Cons.IH] show ?case by simp
qed (simp add: call_grows_refl)

lemma tool_chunk_grows:
  "case tool_chunk V chunk st data usage of
     ToolGoesOn st1 data1 usage1 \<Rightarrow> call_grows k (pieces_at k (chunk_tool_calls chunk)) data data1
   | ToolDone st1 data1 usage1 \<Rightarrow> call_grows k (pieces_at k (chunk_tool_calls chunk)) data data1 \<and>
       (sk_choices chunk = [] \<or> chunk_finish chunk \<noteq> None)
   | _ \<Rightarrow> True"
  by (auto simp: tool_chunk_def chunk_tool_calls_def Let_def chunk_finish_def first_opt_def
      intro: call_grows_refl merge_tool_calls_grow split: list.split)

lemma tool_loop_grows:
  assumes "je_parse (oe_json V) [] = None"
  shows "tool_loop V items st data usage = ToolsComplete st1 data1 usage1 rest \<Longrightarrow>
    call_grows k (pieces_at k (concat (map chunk_tool_calls (call_frames (frames V items))))) data data1"
  using assms
proof (induction V items st data usage rule: tool_loop.induct)
  case (3 V response rest' st data usage)
  note line = tool_line_read [OF 3(3), of response st data usage]
  show ?case
  proof (cases "read_line V response")
    case (ChunkLine chunk)
    note grows = tool_chunk_grows [where V = V and chunk = chunk and st = st and data = data and usage = usage and k = k]
    note state = tool_chunk_state [where V = V and chunk = chunk and st = st and data = data and usage = usage]
    show ?thesis
    proof (cases "tool_chunk V chunk st data usage")
      case (ToolGoesOn st2 data2 usage2)
      with 3(2) line ChunkLine have "tool_loop V rest' st2 data2 usage2 = ToolsComplete st1 data1 usage1 rest"
        by simp
      from 3(1) [OF _ this 3(3)] ToolGoesOn line ChunkLine state grows
      show ?thesis by (auto intro: call_grows_trans)
    qed (use 3(2) line ChunkLine grows state in simp_all)
  qed (use 3 line in \<open>auto split: if_splits\<close>)
qed (simp_all add: call_grows_refl)

lemma emitted_call:
  assumes "emit_calls V i st data usage = (ys, st1)" "map_of data k = Some acc" "\<not> os_limit_reached st"
  shows "\<exists>m \<in> set (yielded_messages ys). \<exists>md. mc_tool_request_with_provider_index (ta_id acc)
    (tool_call_of V False acc) md k \<in> set (msg_content m)"
proof -
  obtain before st' where f: "flush_before_calls V i st = (before, st')" by fastforce
  have "(k, acc) \<in> set (sorted_calls data)"
    using map_of_SomeD [OF assms(2)] by (simp add: sorted_calls_def)
  then have "tool_request_content V st' (k, acc) \<in> set (map (tool_request_content V st') (sorted_calls data))"
    unfolding set_map by (rule imageI)
  moreover have "tool_request_content V st' (k, acc) = mc_tool_request_with_provider_index (ta_id acc)
      (tool_call_of V False acc) (tool_metadata (os_signature st') (ta_extra acc)) k"
    using assms(3) flush_before_calls_fields(2) [OF f] by (simp add: tool_request_content_def)
  ultimately show ?thesis
    using assms(1) by (fastforce simp: emit_calls_def f Let_def)
qed

text \<open>
  C25: Once a tool call has begun at an index, the pieces that later frames hold for that index are
  appended to its arguments in order, those for other indices are not, and its id is kept; unless
  the output limit was reached, the message that is emitted asks for this call with the arguments
  that the joined text gives.\<close>

theorem tool_call_pieces:
  assumes "je_parse (oe_json V) [] = None" "map_of data k = Some acc"
    and "tool_loop V items st data usage = ToolsComplete st1 data1 usage1 rest"
    and "emit_calls V i st1 data1 usage1 = (ys, st2)" "\<not> os_limit_reached st1"
  shows "\<exists>m \<in> set (yielded_messages ys). \<exists>acc' md.
    ta_id acc' = ta_id acc \<and>
    ta_arguments acc' = ta_arguments acc @
      pieces_at k (concat (map chunk_tool_calls (call_frames (frames V items)))) \<and>
    mc_tool_request_with_provider_index (ta_id acc) (tool_call_of V False acc') md k \<in> set (msg_content m)"
proof -
  from tool_loop_grows [OF assms(1,3), of k] assms(2) obtain acc' where acc':
    "map_of data1 k = Some acc'" "ta_id acc' = ta_id acc" "ta_arguments acc' = ta_arguments acc @
      pieces_at k (concat (map chunk_tool_calls (call_frames (frames V items))))"
    by (auto simp: call_grows_def)
  from emitted_call [OF assms(4) acc'(1) assms(5)] acc' show ?thesis by metis
qed

subsection \<open>When a stream does not fail\<close>

definition fine_line :: "openai_env \<Rightarrow> stream_line \<Rightarrow> bool" where
  "fine_line V line \<longleftrightarrow>
     (case line of Inl e \<Rightarrow> False
      | Inr response \<Rightarrow> strip_data_prefix response \<noteq> Some [] \<and> (\<forall>e. read_line V response \<noteq> BadLine e))"

lemma tool_line_fine:
  assumes "je_parse (oe_json V) [] = None" "fine_line V (Inr response)"
  shows "tool_line V response st data usage \<noteq> ToolFailed e"
proof (cases "read_line V response")
  case (ChunkLine chunk)
  with tool_line_read [OF assms(1), of response st data usage]
    tool_chunk_state [where V = V and chunk = chunk and st = st and data = data and usage = usage]
  show ?thesis by (cases "tool_chunk V chunk st data usage") simp_all
qed (use assms tool_line_read [OF assms(1), of response st data usage] in \<open>simp_all add: fine_line_def\<close>)

lemma tool_loop_fine:
  assumes "je_parse (oe_json V) [] = None"
  shows "\<forall>line \<in> set items. fine_line V line \<Longrightarrow>
    case tool_loop V items st data usage of
      StreamFailed e \<Rightarrow> False | ToolsComplete st1 data1 usage1 rest \<Rightarrow> set rest \<subseteq> set items | StreamDone st1 \<Rightarrow> True"
  using assms
proof (induction V items st data usage rule: tool_loop.induct)
  case (3 V response rest st data usage)
  show ?case
  proof (cases "tool_line V response st data usage")
    case (ToolGoesOn st1 data1 usage1)
    with 3 show ?thesis by (auto split: tool_outcome.splits)
  next
    case (ToolFailed e)
    with 3(2) tool_line_fine [OF 3(3)] show ?thesis by simp
  qed (auto simp: subset_insertI)
qed (simp_all add: fine_line_def)

lemma openai_loop_fine:
  assumes "je_parse (oe_json V) [] = None"
  shows "\<forall>line \<in> set items. fine_line V line \<Longrightarrow> \<not> failed (openai_loop V items st)"
proof (induction "length items" arbitrary: items st rule: less_induct)
  case less
  show ?case
  proof (cases items)
    case Nil
    then show ?thesis by (simp add: finish_shown)
  next
    case (Cons line rest)
    with less.prems obtain response where Line: "items = Inr response # rest" "fine_line V (Inr response)"
      by (cases line) (auto simp: fine_line_def)
    have ih: "set rest' \<subseteq> set items \<Longrightarrow> length rest' < length items \<Longrightarrow> \<not> failed (openai_loop V rest' st')"
      for rest' st' using less.hyps [of rest' st'] less.prems by blast
    show ?thesis
    proof (cases "read_line V response")
      case (ChunkLine chunk)
      let ?st1 = "absorb_openai_chunk chunk st"
      show ?thesis
      proof (cases "chunk_tool_calls chunk = []")
        case True
        obtain ys st2 where plain: "plain_chunk V chunk ?st1 = (ys, st2)" by fastforce
        obtain out F where p: "push_text (frame_text chunk) (os_filter ?st1) = (out, F)" by fastforce
        show ?thesis
          using openai_loop_plain [OF ChunkLine True plain, of rest] plain_chunk_shown [OF plain p] ih [of rest st2] Line
          by (simp add: subset_insertI)
      next
        case False
        note loop = openai_loop_calls [OF ChunkLine False, of rest st, unfolded Let_def]
        note fine = tool_loop_fine [OF assms, of rest ?st1 "first_tool_calls (chunk_tool_calls chunk)"
            "stamped_usage V chunk ?st1"]
        note short = tool_loop_shorter [of V rest ?st1 "first_tool_calls (chunk_tool_calls chunk)"
            "stamped_usage V chunk ?st1"]
        show ?thesis
        proof (cases "if is_complete chunk
            then ToolsComplete ?st1 (first_tool_calls (chunk_tool_calls chunk)) (stamped_usage V chunk ?st1) rest
            else tool_loop V rest ?st1 (first_tool_calls (chunk_tool_calls chunk)) (stamped_usage V chunk ?st1)")
          case (ToolsComplete st2 data2 usage2 rest2)
          obtain ys st3 where emit: "emit_calls V (sk_id chunk) st2 data2 usage2 = (ys, st3)" by fastforce
          have "set rest2 \<subseteq> set rest \<and> length rest2 \<le> length rest"
            using ToolsComplete fine short less.prems Line by (auto split: if_splits)
          with ih [of rest2 st3] Line loop ToolsComplete emit emit_calls_limit(1) [OF emit] show ?thesis
            by (auto simp: less_Suc_eq_le)
        next
          case (StreamDone st2)
          with loop Line show ?thesis by (simp add: finish_shown)
        next
          case (StreamFailed e)
          with fine less.prems Line show ?thesis by (simp split: if_splits)
        qed
      qed
    qed (use Line ih [of rest st] in \<open>auto simp: openai_loop.simps(3) finish_shown fine_line_def\<close>)
  qed
qed

subsection \<open>A stream\<close>

definition delta_frame :: "json_object \<Rightarrow> json_object \<Rightarrow> json" where
  "delta_frame d finish = JObj [(''choices'', JArr [JObj ((''delta'', JObj d) # finish)])]"

definition call_piece :: "json_object \<Rightarrow> string \<Rightarrow> json_object" where
  "call_piece start args =
     [(''tool_calls'', JArr [JObj (start @ [(''index'', JInt 0), (''function'', JObj ([(''arguments'', JStr args)] @
        (if start = [] then [] else [(''name'', JStr ''t'')])))])])]"

definition wire_frame :: "string \<Rightarrow> json option" where
  "wire_frame line = map_of
     [(''a'', delta_frame [(''content'', JStr ''he'')] []),
      (''b'', delta_frame [(''content'', JStr ''llo'')] [(''finish_reason'', JStr ''stop'')]),
      (''c'', delta_frame (call_piece [(''id'', JStr ''1'')] ''{'') []),
      (''d'', delta_frame (call_piece [] ''}'') []),
      (''e'', delta_frame [] [(''finish_reason'', JStr ''length'')])] line"

definition wire_env :: openai_env where
  "wire_env = \<lparr>oe_json = \<lparr>je_parse = wire_frame, je_text = (\<lambda>v. []), je_pretty = (\<lambda>v. [])\<rparr>,
     oe_ext = \<lparr>nfc = id, b64_decode = Some, b64_encode = id, now = 0\<rparr>,
     oe_parse_error = (\<lambda>s. []), oe_decode_error = (\<lambda>v. []), oe_debug = id, oe_f64_of_int = (\<lambda>i. 0)\<rparr>"

definition data_line :: "char \<Rightarrow> stream_line" where
  "data_line c = Inr (''data: '' @ [c])"

definition wire_chunk :: "char \<Rightarrow> streaming_chunk" where
  "wire_chunk c = (case Option.bind (wire_frame [c]) de_chunk of Some chunk \<Rightarrow> chunk
     | None \<Rightarrow> \<lparr>sk_choices = [], sk_created = None, sk_id = None, sk_usage = None, sk_model = None\<rparr>)"

lemma wire_read:
  assumes "c \<in> set ''abcde''"
  shows "read_line wire_env (''data: '' @ [c]) = ChunkLine (wire_chunk c)"
    "strip_data_prefix (''data: '' @ [c]) = Some [c]"
proof -
  have "visible_ascii c" using assms by (auto simp: visible_ascii_def)
  then show p: "strip_data_prefix (''data: '' @ [c]) = Some [c]"
    by (simp add: strip_data_prefix_def option_or_def trim_visible)
  have "list_all (\<lambda>c. parse_streaming_chunk wire_env [c] = Inr (Some (wire_chunk c)) \<and> [c] \<noteq> ''[DONE]'') ''abcde''"
    by code_simp
  then have "parse_streaming_chunk wire_env [c] = Inr (Some (wire_chunk c)) \<and> [c] \<noteq> ''[DONE]''"
    using assms unfolding list_all_iff by (rule bspec)
  then show "read_line wire_env (''data: '' @ [c]) = ChunkLine (wire_chunk c)"
    unfolding read_line_def p by simp
qed

lemma wire_lines:
  assumes "set cs \<subseteq> set ''abcde''"
  shows "\<forall>line \<in> set (map data_line cs). fine_line wire_env line"
    "frames wire_env (map data_line cs) = map wire_chunk cs"
proof -
  show "\<forall>line \<in> set (map data_line cs). fine_line wire_env line"
  proof
    fix line assume "line \<in> set (map data_line cs)"
    then obtain c where c: "c \<in> set ''abcde''" "line = data_line c" using assms by auto
    show "fine_line wire_env line"
      unfolding c(2) data_line_def fine_line_def sum.case wire_read [OF c(1)] by simp
  qed
  show "frames wire_env (map data_line cs) = map wire_chunk cs"
    using assms
  proof (induction cs)
    case (Cons c cs)
    then have "c \<in> set ''abcde''" by simp
    from wire_read(1) [OF this] Cons show ?case
      by (simp add: data_line_def del: append.simps)
  qed simp
qed

lemma wire_rejects_empty: "je_parse (oe_json wire_env) [] = None"
  by (simp add: wire_env_def wire_frame_def)

lemma openai_stream_text_witness:
  "shown_text (response_to_streaming_message wire_env (map data_line ''ab'')) = ''hello''"
proof -
  let ?ys = "response_to_streaming_message wire_env (map data_line ''ab'')"
  have ok: "\<not> failed ?ys"
    unfolding response_to_streaming_message_def
    by (rule openai_loop_fine [OF wire_rejects_empty wire_lines(1)]) simp
  have fs: "frames wire_env (map data_line ''ab'') = map wire_chunk ''ab''"
    by (rule wire_lines(2)) simp
  have none: "\<forall>chunk \<in> set (map wire_chunk ''ab''). chunk_tool_calls chunk = []" by code_simp
  have "shown_text ?ys = fst (think_stream (filter_map frame_text (map wire_chunk ''ab'')))"
    by (rule conjunct1 [OF openai_stream_text [OF ok, unfolded fs, OF none]])
  also have "filter_map frame_text (map wire_chunk ''ab'') = [''he'', ''llo'']" by code_simp
  also have "fst (think_stream [''he'', ''llo'']) = ''hello''" by code_simp
  finally show ?thesis .
qed

lemma openai_stream_limit_witness:
  "\<exists>m \<in> set (yielded_messages (response_to_streaming_message wire_env (map data_line ''ce''))).
    cut_short m \<and> runnable_calls m = []"
proof -
  let ?ys = "response_to_streaming_message wire_env (map data_line ''ce'')"
  have ok: "\<not> failed ?ys"
    unfolding response_to_streaming_message_def
    by (rule openai_loop_fine [OF wire_rejects_empty wire_lines(1)]) simp
  have fs: "frames wire_env (map data_line ''ce'') = map wire_chunk ''ce''"
    by (rule wire_lines(2)) simp
  have "\<exists>chunk \<in> set (map wire_chunk ''ce''). chunk_finish chunk = Some ''length''" by code_simp
  with openai_stream_limit [OF wire_rejects_empty ok, unfolded fs] show ?thesis by blast
qed

lemma tool_call_pieces_witness:
  "\<exists>ys. \<exists>m \<in> set (yielded_messages ys). \<exists>acc' md. ta_id acc' = ''1'' \<and> ta_arguments acc' = ''{}'' \<and>
    mc_tool_request_with_provider_index ''1'' (tool_call_of wire_env False acc') md 0 \<in> set (msg_content m)"
proof -
  let ?data = "first_tool_calls (chunk_tool_calls (wire_chunk (CHR ''c'')))"
  let ?acc = "\<lparr>ta_id = ''1'', ta_name = ''t'', ta_arguments = ''{'', ta_extra = Some []\<rparr>"
  have d: "map_of ?data 0 = Some ?acc" by code_simp
  obtain st1 data1 usage1 where t: "tool_loop wire_env (map data_line ''d'') openai_stream_start ?data None =
      ToolsComplete st1 data1 usage1 []" "\<not> os_limit_reached st1"
  proof -
    have line: "tool_line wire_env (''data: '' @ ''d'') openai_stream_start ?data None =
        tool_chunk wire_env (wire_chunk (CHR ''d'')) openai_stream_start ?data None"
      using tool_line_read [OF wire_rejects_empty] wire_read [of "CHR ''d''"] by simp
    have "\<not> limit_frame (wire_chunk (CHR ''d''))" by code_simp
    with that line tool_chunk_state [where V = wire_env and chunk = "wire_chunk (CHR ''d'')"
        and st = openai_stream_start and data = ?data and usage = None]
    show thesis
      by (cases "tool_chunk wire_env (wire_chunk (CHR ''d'')) openai_stream_start ?data None")
        (simp_all add: data_line_def openai_stream_start_def)
  qed
  obtain ys st2 where e: "emit_calls wire_env None st1 data1 usage1 = (ys, st2)" by fastforce
  have f: "frames wire_env (map data_line ''d'') = map wire_chunk ''d''" by (rule wire_lines(2)) simp
  have p: "pieces_at 0 (concat (map chunk_tool_calls (call_frames (map wire_chunk ''d'')))) = ''}''" by code_simp
  from tool_call_pieces [OF wire_rejects_empty d t(1) e t(2)] have "\<exists>m \<in> set (yielded_messages ys). \<exists>acc' md.
      ta_id acc' = ''1'' \<and> ta_arguments acc' = ''{}'' \<and>
      mc_tool_request_with_provider_index ''1'' (tool_call_of wire_env False acc') md 0 \<in> set (msg_content m)"
    unfolding f p by simp
  then show ?thesis by (rule exI [of _ ys])
qed
end
