(* ===== verification/Openai_Response_Props.thy ===== *)
theory Openai_Response_Props
  imports Openai_Response Openai_Stream_Props
begin

text \<open>
  An answer that is streamed reads as the same answer delivered whole, and a whole answer that the
  output limit cut short runs no call.
\<close>

lemma filter_map_all_None: "\<forall>x \<in> set xs. f x = None \<Longrightarrow> filter_map f xs = []"
  by (induction xs) simp_all

lemma response_limited:
  assumes "response_to_message V response = Inr m"
  shows "cut_short m \<longleftrightarrow> response_limit response" "cut_short m \<Longrightarrow> runnable_calls m = []"
proof -
  obtain original where m: "m = (let m' = message_new Assistant (now (oe_ext V)) (structured_thinking original @ response_text original @
        response_calls V (response_limit response) original)
      in m'\<lparr>msg_metadata := (msg_metadata m')\<lparr>output_token_limit_reached := response_limit response\<rparr>\<rparr>)"
    using assms by (cases "response_original response") (auto simp: response_to_message_def Let_def)
  then show limit: "cut_short m \<longleftrightarrow> response_limit response" by (simp add: Let_def)
  have "\<forall>c \<in> set (structured_thinking original). \<exists>s t. c = mc_thinking s t"
    by (auto simp: structured_thinking_def thinking_blocks_def split: option.split json.split)
  moreover have "\<forall>c \<in> set (response_text original). (\<exists>s t. c = mc_thinking s t) \<or> (\<exists>s. c = mc_text s)"
    by (auto simp: response_text_def thinking_blocks_def text_blocks_def split: option.split json.split)
  moreover have "\<forall>c \<in> set (response_calls V True original). \<exists>i e md. c = mc_tool_request_with_metadata i (Inl e) md"
    by (auto simp: response_calls_def response_call_def Let_def)
  ultimately have "\<forall>c \<in> set (structured_thinking original @ response_text original @ response_calls V True original).
      (case c of ToolRequest r \<Rightarrow> (case tq_tool_call r of Inl e \<Rightarrow> None | Inr p \<Rightarrow> Some (tq_id r)) | _ \<Rightarrow> None) = None"
    by (auto simp: mc_thinking_def mc_text_def mc_tool_request_with_metadata_def)
  then show "runnable_calls m = []" if "cut_short m"
    using that limit m(1) by (simp add: runnable_calls_def Let_def message_new_def filter_map_all_None)
qed

text \<open>The text and the thoughts of a message.\<close>

definition message_text :: "message \<Rightarrow> string" where
  "message_text m = concat (filter_map as_text (msg_content m))"

definition message_thoughts :: "message \<Rightarrow> string" where
  "message_thoughts m = concat (map thinking (filter_map as_thinking (msg_content m)))"

lemma whole_answer:
  assumes "response_to_message V response = Inr m" "response_original response = Inr original"
    and "structured_thinking original = []" "json_get original ''content'' = Some (JStr s)"
    and "json_get original ''tool_calls'' = None"
  shows "message_text m = fst (split_think_blocks s)" "message_thoughts m = snd (split_think_blocks s)"
proof -
  obtain cleaned inline where parts: "split_think_blocks s = (cleaned, inline)" by fastforce
  have "msg_content m = thinking_blocks inline @ text_blocks cleaned"
    using assms by (auto simp: response_to_message_def Let_def message_new_def response_text_def response_calls_def parts simp del: blocks_empty)
  then show "message_text m = fst (split_think_blocks s)" "message_thoughts m = snd (split_think_blocks s)"
    by (simp_all add: message_text_def message_thoughts_def parts del: runnable_calls_blocks)
qed

text \<open>
  C40: A streamed answer shows the text and the thoughts of the same answer delivered whole, when
  the stream does not fail, no frame has tool calls or structured reasoning, the text is at most
  8192 bytes in all, every piece of it is whole characters, and no piece ends behind \<open><\<close>, \<open></\<close> or
  a tag whose name a slash and more follow; and the whole answer has the joined pieces as its
  content, no tool calls and no structured reasoning.
\<close>

theorem streamed_as_whole:
  assumes "\<not> failed (response_to_streaming_message V items)"
    and "\<forall>chunk \<in> set (frames V items). chunk_tool_calls chunk = []"
    and "filter_map frame_reasoning (frames V items) = []"
    and "filter_map frame_text (frames V items) = texts"
    and "length (concat texts) \<le> MAX_BUFFERED_THINK_TAG_BYTES" "\<forall>t \<in> set texts. whole_characters t"
    and "\<forall>i < length texts. \<not> awkward_cut (concat (take i texts))"
    and "response_to_message V response = Inr m" "response_original response = Inr original"
    and "structured_thinking original = []" "json_get original ''content'' = Some (JStr (concat texts))"
    and "json_get original ''tool_calls'' = None"
  shows "shown_text (response_to_streaming_message V items) = message_text m \<and>
    shown_thinking (response_to_streaming_message V items) = message_thoughts m"
proof -
  have "think_stream texts = (fo_content (filtered_from think_filter_new texts),
      fo_thinking (filtered_from think_filter_new texts))"
    by (simp add: think_stream_def filtered_from_def case_prod_beta Let_def)
  then have "split_think_blocks (concat texts) = (fo_content (filtered_from think_filter_new texts),
      fo_thinking (filtered_from think_filter_new texts))"
    using think_stream_whole [OF assms(5-7)] by simp
  with openai_loop_shows [of V items openai_stream_start] assms(1-4) whole_answer [OF assms(8-12)] show ?thesis
    by (simp add: shows_frames_def response_to_streaming_message_def openai_stream_start_def)
qed

definition whole_response :: json where
  "whole_response = JObj [(''choices'', JArr [JObj [(''message'', JObj [(''content'', JStr ''hello'')])]])]"

lemma streamed_as_whole_witness:
  "\<exists>m. response_to_message wire_env whole_response = Inr m \<and>
     shown_text (response_to_streaming_message wire_env (map data_line ''ab'')) = message_text m"
proof -
  let ?items = "map data_line ''ab''" and ?original = "JObj [(''content'', JStr ''hello'')]"
  have ok: "\<not> failed (response_to_streaming_message wire_env ?items)"
    unfolding response_to_streaming_message_def
    by (rule openai_loop_fine [OF wire_rejects_empty wire_lines(1)]) simp
  have fs: "frames wire_env ?items = map wire_chunk ''ab''" by (rule wire_lines(2)) simp
  have none: "\<forall>chunk \<in> set (map wire_chunk ''ab''). chunk_tool_calls chunk = []"
    and quiet: "filter_map frame_reasoning (map wire_chunk ''ab'') = []"
    and texts: "filter_map frame_text (map wire_chunk ''ab'') = [''he'', ''llo'']" by code_simp+
  have small: "length (concat [''he'', ''llo'']) \<le> MAX_BUFFERED_THINK_TAG_BYTES"
    by (simp add: MAX_BUFFERED_THINK_TAG_BYTES_def)
  have whole: "\<forall>t \<in> set [''he'', ''llo'']. whole_characters t" by code_simp
  have "list_all (\<lambda>i. \<not> awkward_cut (concat (take i [''he'', ''llo'']))) [0 ..< 2]" by code_simp
  then have cuts: "\<forall>i < length [''he'', ''llo'']. \<not> awkward_cut (concat (take i [''he'', ''llo'']))"
    by (simp add: list_all_iff)
  have original: "response_original whole_response = Inr ?original" "structured_thinking ?original = []"
    "json_get ?original ''content'' = Some (JStr (concat [''he'', ''llo'']))" "json_get ?original ''tool_calls'' = None"
    by code_simp+
  then obtain m where m: "response_to_message wire_env whole_response = Inr m"
    by (simp add: response_to_message_def Let_def)
  from streamed_as_whole [OF ok, unfolded fs, OF none quiet texts small whole cuts m original] m show ?thesis by blast
qed

end
