(* ===== verification/Model_Config.thy ===== *)
theory Model_Config
  imports Think_Filter Json_Repair
begin

text \<open>
  \<open>crates/aibuddy-provider-types/src/model.rs\<close> and the functions of \<open>formats/openai.rs\<close> on
  model names: what a name says of the reasoning effort, the configuration of a model and its
  request parameters.  Parameters: \<open>str::to_lowercase\<close>, the decimal digits outside ASCII that
  the regex class \<open>\\d\<close> knows, and the table of known models.  A \<open>HashMap\<close> is an association
  list in the order in which it is walked.
\<close>

record known_model =
  km_output_limit :: "nat option"
  km_context_limit :: nat
  km_reasoning :: "bool option"
  km_takes_images :: bool

record model_env =
  me_lowercase :: "string \<Rightarrow> string"
  me_wide_digit :: "string \<Rightarrow> bool"
  me_known :: "string \<Rightarrow> string \<Rightarrow> known_model option"

subsection \<open>Names of models\<close>

definition lower_ascii :: "string \<Rightarrow> string" where
  "lower_ascii s = map ascii_lower s"

definition regex_digit :: "model_env \<Rightarrow> string \<Rightarrow> bool" where
  "regex_digit E c \<longleftrightarrow>
     (case c of [b] \<Rightarrow> (let n = (of_char b :: nat) in 48 \<le> n \<and> n \<le> 57) | _ \<Rightarrow> me_wide_digit E c)"

text \<open>The two alternatives of the pattern, on the characters behind its anchor.\<close>

definition o_series :: "model_env \<Rightarrow> string list \<Rightarrow> bool" where
  "o_series E cs \<longleftrightarrow>
     (case cs of
        [] \<Rightarrow> False
      | c # rest \<Rightarrow> lower_ascii c = ''o'' \<and> takeWhile (regex_digit E) rest \<noteq> [] \<and>
          first_opt (dropWhile (regex_digit E) rest) \<in> {None, Some ''-''})"

definition gpt_series :: "string list \<Rightarrow> bool" where
  "gpt_series cs \<longleftrightarrow>
     lower_ascii (concat (take 4 cs)) = ''gpt-'' \<and> first_opt (drop 4 cs) \<in> {Some ''5'', Some ''6''} \<and>
     first_opt (drop 5 cs) \<in> {None, Some ''-'', Some ''.''}"

fun names_responses_model :: "model_env \<Rightarrow> bool \<Rightarrow> string list \<Rightarrow> bool" where
  "names_responses_model E anchored [] = False"
| "names_responses_model E anchored (c # cs) =
     (anchored \<and> (o_series E (c # cs) \<or> gpt_series (c # cs)) \<or>
      names_responses_model E (c = ''-'' \<or> c = ''/'') cs)"

definition is_openai_responses_model :: "model_env \<Rightarrow> string \<Rightarrow> bool" where
  "is_openai_responses_model E name = names_responses_model E True (utf8_chars name)"

text \<open>What stands before and behind the last separator, if there is one.\<close>

fun rsplit_at :: "char \<Rightarrow> string \<Rightarrow> (string \<times> string) option" where
  "rsplit_at p [] = None"
| "rsplit_at p (c # s) =
     (case rsplit_at p s of
        Some (a, b) \<Rightarrow> Some (c # a, b)
      | None \<Rightarrow> if c = p then Some ([], s) else None)"

abbreviation DASH :: char where "DASH \<equiv> CHR ''-''"

definition EFFORT_SUFFIXES :: "string list" where
  "EFFORT_SUFFIXES = [''none'', ''low'', ''medium'', ''high'', ''xhigh'']"

definition extract_reasoning_effort :: "model_env \<Rightarrow> string \<Rightarrow> string \<times> string option" where
  "extract_reasoning_effort E name =
     (if \<not> is_openai_responses_model E name then (name, None)
      else
        (case rsplit_at DASH name of
           Some (base, effort) \<Rightarrow>
             if base \<noteq> [] \<and> CHR 0x0A \<notin> set base \<and> lower_ascii effort \<in> set EFFORT_SUFFIXES
             then (base, Some (lower_ascii effort)) else (name, None)
         | None \<Rightarrow> (name, None)))"

definition supports_xai_reasoning_effort :: "string \<Rightarrow> bool" where
  "supports_xai_reasoning_effort name \<longleftrightarrow>
     (let n = lower_ascii name in
      starts_with n ''grok-4.5'' \<or> starts_with n ''grok-4.3'' \<or> starts_with n ''grok-3-mini'')"

definition is_xai_reasoning_model :: "string \<Rightarrow> bool" where
  "is_xai_reasoning_model name \<longleftrightarrow>
     (let n = lower_ascii name in
      if str_contains n ''non-reasoning'' \<or> str_contains n ''non_reasoning'' then False
      else supports_xai_reasoning_effort n \<or> starts_with n ''grok-4.20'' \<or> starts_with n ''grok-4-0709'' \<or>
           starts_with n ''grok-4-fast-reasoning'' \<or> starts_with n ''grok-4-1-fast-reasoning'')"

definition xai_reasoning_effort_for_thinking :: "string \<Rightarrow> thinking_effort \<Rightarrow> string option" where
  "xai_reasoning_effort_for_thinking name effort =
     (let n = lower_ascii name;
          supports_none = starts_with n ''grok-4.3'';
          supports_medium = (\<not> starts_with n ''grok-3-mini'')
      in case effort of
           EffortOff \<Rightarrow> if supports_none then Some ''none'' else Some ''low''
         | EffortLow \<Rightarrow> Some ''low''
         | EffortMedium \<Rightarrow> if supports_medium then Some ''medium'' else Some ''high''
         | EffortHigh \<Rightarrow> Some ''high''
         | EffortMax \<Rightarrow> Some ''high'')"

definition openai_reasoning_efforts_for_model :: "string \<Rightarrow> string list" where
  "openai_reasoning_efforts_for_model name =
     (let n = lower_ascii name in
      if str_contains n ''gpt-5'' \<or> str_contains n ''gpt-6'' then
        if str_contains n ''-pro'' \<or> str_contains n ''/pro'' then [''high'']
        else if list_ex (str_contains n)
                  [''gpt-5.4'', ''gpt-5-4'', ''gpt-5.5'', ''gpt-5-5'', ''gpt-5.6'', ''gpt-5-6'', ''gpt-6'']
             then [''none'', ''low'', ''medium'', ''high'', ''xhigh'']
             else [''low'', ''medium'', ''high'']
      else [''low'', ''medium'', ''high''])"

definition preferred_efforts :: "thinking_effort \<Rightarrow> string list" where
  "preferred_efforts effort =
     (case effort of
        EffortOff \<Rightarrow> [''none'', ''low'']
      | EffortLow \<Rightarrow> [''low'', ''medium'', ''high'', ''xhigh'']
      | EffortMedium \<Rightarrow> [''medium'', ''high'', ''low'', ''xhigh'']
      | EffortHigh \<Rightarrow> [''high'', ''medium'', ''xhigh'', ''low'']
      | EffortMax \<Rightarrow> [''xhigh'', ''high'', ''medium'', ''low''])"

definition openai_reasoning_effort_for_thinking :: "string \<Rightarrow> thinking_effort \<Rightarrow> string option" where
  "openai_reasoning_effort_for_thinking name effort =
     List.find (\<lambda>level. level \<in> set (openai_reasoning_efforts_for_model name)) (preferred_efforts effort)"

subsection \<open>The configuration of a model\<close>

definition DEFAULT_CONTEXT_LIMIT :: nat where "DEFAULT_CONTEXT_LIMIT = 128000"

definition INHERITED_SESSION_PARAM_KEYS :: "string list" where
  "INHERITED_SESSION_PARAM_KEYS =
     [''thinking_effort'', ''thinking_budget'', ''budget_tokens'', ''enable_thinking'',
      ''preserve_thinking_context'', ''preserve_unsigned_thinking'']"

definition is_aibuddy_internal_request_param :: "string \<Rightarrow> bool" where
  "is_aibuddy_internal_request_param key \<longleftrightarrow> key \<in>
     {''thinking_effort'', ''disable_prompt_cache'', ''cache_ttl'', ''emit_clear_thinking'',
      ''preserve_thinking_context'', ''preserve_unsigned_thinking''}"

text \<open>The temperature is the \<open>f32\<close>, by its bits.\<close>

record model_config =
  mo_model_name :: string
  mo_context_limit :: "nat option"
  mo_temperature :: "32 word option"
  mo_max_tokens :: "i32 option"
  mo_toolshim :: bool
  mo_toolshim_model :: "string option"
  mo_request_params :: "json_object option"
  mo_reasoning :: "bool option"
  mo_supports_vision :: "bool option"
  mo_request_headers :: "(string \<times> string) list option"

definition param_of :: "model_config \<Rightarrow> string \<Rightarrow> json option" where
  "param_of c key = Option.bind (mo_request_params c) (\<lambda>params. map_of params key)"

definition set_param :: "string \<Rightarrow> json \<Rightarrow> model_config \<Rightarrow> model_config" where
  "set_param key v c = c\<lparr>mo_request_params := Some (map_insert key v (unwrap_or (mo_request_params c) []))\<rparr>"

definition suffix_effort :: "string \<Rightarrow> thinking_effort option" where
  "suffix_effort s =
     (if s = ''none'' then Some EffortOff
      else if s = ''low'' then Some EffortLow
      else if s = ''medium'' then Some EffortMedium
      else if s = ''high'' then Some EffortHigh
      else if s = ''xhigh'' then Some EffortMax
      else None)"

definition last_part :: "string \<Rightarrow> string \<times> string" where
  "last_part name = (case rsplit_at DASH name of Some p \<Rightarrow> p | None \<Rightarrow> ([], name))"

definition is_openai_reasoning_model :: "model_env \<Rightarrow> model_config \<Rightarrow> bool" where
  "is_openai_reasoning_model E c = is_openai_responses_model E (mo_model_name c)"

definition normalize_effort_suffix :: "model_env \<Rightarrow> model_config \<Rightarrow> model_config" where
  "normalize_effort_suffix E c =
     (if \<not> is_openai_reasoning_model E c \<and> \<not> supports_xai_reasoning_effort (mo_model_name c) then c
      else
        (let (base, suffix) = last_part (mo_model_name c) in
         case suffix_effort suffix of
           None \<Rightarrow> c
         | Some effort \<Rightarrow>
             (let c1 = c\<lparr>mo_model_name := base\<rparr>
              in if param_of c1 ''thinking_effort'' \<noteq> None then c1
                 else set_param ''thinking_effort'' (JStr (effort_display effort)) c1)))"

definition model_config_new :: "model_env \<Rightarrow> string \<Rightarrow> model_config" where
  "model_config_new E name = normalize_effort_suffix E
     \<lparr>mo_model_name = name, mo_context_limit = None, mo_temperature = None, mo_max_tokens = None,
      mo_toolshim = False, mo_toolshim_model = None, mo_request_params = None, mo_reasoning = None,
      mo_supports_vision = None, mo_request_headers = None\<rparr>"

text \<open>Reading a stored configuration, from the fields that were read.\<close>

definition model_config_read :: "model_env \<Rightarrow> model_config \<Rightarrow> model_config" where
  "model_config_read E raw =
     normalize_effort_suffix E (raw\<lparr>mo_context_limit := None, mo_request_headers := None\<rparr>)"

definition with_canonical_limits :: "model_env \<Rightarrow> string \<Rightarrow> model_config \<Rightarrow> model_config" where
  "with_canonical_limits E provider c =
     (let base = fst (extract_reasoning_effort E (mo_model_name c));
          known = option_or (me_known E provider (mo_model_name c))
            (if base \<noteq> mo_model_name c then me_known E provider base else None)
      in case known of
           None \<Rightarrow> c
         | Some k \<Rightarrow>
             c\<lparr>mo_max_tokens := option_or (mo_max_tokens c)
                 (case km_output_limit k of
                    Some n \<Rightarrow> if n < km_context_limit k then Some (word_of_nat n) else None
                  | None \<Rightarrow> None),
               mo_reasoning := option_or (mo_reasoning c) (km_reasoning k),
               mo_supports_vision := option_or (mo_supports_vision c) (Some (km_takes_images k))\<rparr>)"

definition with_context_limit :: "nat option \<Rightarrow> model_config \<Rightarrow> model_config" where
  "with_context_limit limit c = (if limit \<noteq> None then c\<lparr>mo_context_limit := limit\<rparr> else c)"

definition with_temperature :: "32 word option \<Rightarrow> model_config \<Rightarrow> model_config" where
  "with_temperature temp c = c\<lparr>mo_temperature := temp\<rparr>"

definition with_max_tokens :: "i32 option \<Rightarrow> model_config \<Rightarrow> model_config" where
  "with_max_tokens tokens c = c\<lparr>mo_max_tokens := tokens\<rparr>"

definition with_default_context_limit :: "nat option \<Rightarrow> model_config \<Rightarrow> model_config" where
  "with_default_context_limit limit c = (if mo_context_limit c = None then c\<lparr>mo_context_limit := limit\<rparr> else c)"

definition with_default_max_tokens :: "i32 option \<Rightarrow> model_config \<Rightarrow> model_config" where
  "with_default_max_tokens tokens c = (if mo_max_tokens c = None then c\<lparr>mo_max_tokens := tokens\<rparr> else c)"

definition with_toolshim :: "bool \<Rightarrow> model_config \<Rightarrow> model_config" where
  "with_toolshim on c = c\<lparr>mo_toolshim := on\<rparr>"

definition with_toolshim_model :: "string option \<Rightarrow> model_config \<Rightarrow> model_config" where
  "with_toolshim_model model c = c\<lparr>mo_toolshim_model := model\<rparr>"

definition with_request_headers :: "(string \<times> string) list option \<Rightarrow> model_config \<Rightarrow> model_config" where
  "with_request_headers headers c = c\<lparr>mo_request_headers := headers\<rparr>"

definition with_vision_support :: "bool \<Rightarrow> model_config \<Rightarrow> model_config" where
  "with_vision_support on c = c\<lparr>mo_supports_vision := Some on\<rparr>"

definition insert_entry :: "json_object \<Rightarrow> string \<times> json \<Rightarrow> json_object" where
  "insert_entry m kv = map_insert (fst kv) (snd kv) m"

definition with_merged_request_params :: "json_object \<Rightarrow> model_config \<Rightarrow> model_config" where
  "with_merged_request_params params c =
     c\<lparr>mo_request_params :=
         (case mo_request_params c of
            Some existing \<Rightarrow> Some (foldl insert_entry existing params)
          | None \<Rightarrow> Some params)\<rparr>"

definition with_thinking_effort :: "thinking_effort \<Rightarrow> model_config \<Rightarrow> model_config" where
  "with_thinking_effort effort c = set_param ''thinking_effort'' (JStr (effort_display effort)) c"

definition string_param :: "model_config \<Rightarrow> string \<Rightarrow> string option" where
  "string_param c key = Option.bind (param_of c key) json_as_str"

definition bool_param :: "model_config \<Rightarrow> string \<Rightarrow> bool option" where
  "bool_param c key = Option.bind (param_of c key) json_as_bool"

definition with_default_thinking_effort :: "thinking_effort option \<Rightarrow> model_config \<Rightarrow> model_config" where
  "with_default_thinking_effort effort c =
     (if string_param c ''thinking_effort'' = None
      then (case effort of Some e \<Rightarrow> with_thinking_effort e c | None \<Rightarrow> c) else c)"

definition inherit_param :: "json_object \<Rightarrow> model_config \<Rightarrow> string \<Rightarrow> model_config" where
  "inherit_param previous c key =
     (case map_of previous key of
        None \<Rightarrow> c
      | Some v \<Rightarrow> if param_of c key \<noteq> None then c else set_param key v c)"

definition with_inherited_session_settings_from ::
  "model_config option \<Rightarrow> json_object option \<Rightarrow> model_config \<Rightarrow> model_config" where
  "with_inherited_session_settings_from previous params c =
     (let c1 = (case Option.bind previous mo_request_params of
                  Some old \<Rightarrow> foldl (inherit_param old) c INHERITED_SESSION_PARAM_KEYS
                | None \<Rightarrow> c)
      in case params of Some ps \<Rightarrow> with_merged_request_params ps c1 | None \<Rightarrow> c1)"

definition context_limit_of :: "model_config \<Rightarrow> nat" where
  "context_limit_of c = unwrap_or (mo_context_limit c) DEFAULT_CONTEXT_LIMIT"

definition is_gemini3_reasoning_model_name :: "model_env \<Rightarrow> string \<Rightarrow> bool" where
  "is_gemini3_reasoning_model_name E name \<longleftrightarrow>
     (let n = me_lowercase E name in
      starts_with n ''gemini-3'' \<or> str_contains n ''/gemini-3'' \<or> str_contains n ''-gemini-3'')"

definition is_reasoning_model :: "model_env \<Rightarrow> model_config \<Rightarrow> bool" where
  "is_reasoning_model E c =
     (case mo_reasoning c of
        Some r \<Rightarrow> r
      | None \<Rightarrow> is_openai_reasoning_model E c \<or> str_contains (me_lowercase E (mo_model_name c)) ''claude'' \<or>
          is_gemini3_reasoning_model_name E (mo_model_name c) \<or> is_xai_reasoning_model (mo_model_name c))"

definition max_output_tokens :: "model_config \<Rightarrow> i32" where
  "max_output_tokens c = unwrap_or (mo_max_tokens c) 4096"

definition thinking_effort_of :: "model_env \<Rightarrow> model_config \<Rightarrow> thinking_effort option" where
  "thinking_effort_of E c =
     Option.bind (string_param c ''thinking_effort'') (\<lambda>s. result_ok (effort_from_str (me_lowercase E) s))"

definition with_prompt_cache_disabled :: "model_config \<Rightarrow> model_config" where
  "with_prompt_cache_disabled c = with_merged_request_params [(''disable_prompt_cache'', JBool True)] c"

definition prompt_cache_disabled :: "model_config \<Rightarrow> bool" where
  "prompt_cache_disabled c = unwrap_or (bool_param c ''disable_prompt_cache'') False"

definition with_cache_ttl :: "string \<Rightarrow> model_config \<Rightarrow> model_config" where
  "with_cache_ttl ttl c = with_merged_request_params [(''cache_ttl'', JStr ttl)] c"

definition cache_ttl :: "model_config \<Rightarrow> string option" where
  "cache_ttl c = string_param c ''cache_ttl''"

definition without_cache_ttl :: "model_config \<Rightarrow> model_config" where
  "without_cache_ttl c =
     (case mo_request_params c of
        None \<Rightarrow> c
      | Some params \<Rightarrow>
          (let rest = filter (\<lambda>kv. fst kv \<noteq> ''cache_ttl'') params
           in c\<lparr>mo_request_params := (if rest = [] then None else Some rest)\<rparr>))"

definition with_cache_ttl_clamped :: "model_config \<Rightarrow> model_config" where
  "with_cache_ttl_clamped c =
     (if is_some_and (cache_ttl c) (\<lambda>ttl. ttl \<noteq> ''5m'') then with_cache_ttl ''5m'' c else c)"

end
