(* ===== verification/Images.thy ===== *)
theory Images
  imports Think_Filter Json_Repair Provider_Error Message_Ops
begin

text \<open>
  \<open>crates/aibuddy-provider-types/src/images.rs\<close> and \<open>documents.rs\<close>: images and documents as the
  providers take them, and images that the text of a message names by their path.  Paths are
  those of Unix.  Parameters: which paths are regular files and what reading one gives, the
  letters and digits outside ASCII, \<open>str::to_lowercase\<close> and base64.
\<close>

record image_env =
  ie_is_file :: "string \<Rightarrow> bool"
  ie_read :: "string \<Rightarrow> string + string"
  ie_wide_alphanumeric :: "string \<Rightarrow> bool"
  ie_lowercase :: "string \<Rightarrow> string"
  ie_base64 :: "string \<Rightarrow> string"

datatype image_format = ImageOpenAi | ImageAnthropic
datatype document_format = DocumentOpenAi | DocumentAnthropic

definition data_url :: "string \<Rightarrow> string \<Rightarrow> string" where
  "data_url mime data = ''data:'' @ mime @ '';base64,'' @ data"

definition base64_source :: "string \<Rightarrow> string \<Rightarrow> json" where
  "base64_source mime data =
     JObj [(''type'', JStr ''base64''), (''media_type'', JStr mime), (''data'', JStr data)]"

definition convert_image :: "image_content \<Rightarrow> image_format \<Rightarrow> json" where
  "convert_image img fmt =
     (case fmt of
        ImageOpenAi \<Rightarrow> JObj [(''type'', JStr ''image_url''),
          (''image_url'', JObj [(''url'', JStr (data_url (img_mime_type img) (img_data img)))])]
      | ImageAnthropic \<Rightarrow> JObj [(''type'', JStr ''image''),
          (''source'', base64_source (img_mime_type img) (img_data img))])"

subsection \<open>Documents\<close>

definition SUPPORTED_DOCUMENT_MEDIA_TYPES :: "string list" where
  "SUPPORTED_DOCUMENT_MEDIA_TYPES = [''application/pdf'']"

definition document_media_type_is_supported :: "string \<Rightarrow> bool" where
  "document_media_type_is_supported mime \<longleftrightarrow> mime \<in> set SUPPORTED_DOCUMENT_MEDIA_TYPES"

definition convert_document :: "document_content \<Rightarrow> document_format \<Rightarrow> json" where
  "convert_document document fmt =
     (case fmt of
        DocumentOpenAi \<Rightarrow> JObj [(''type'', JStr ''file''),
          (''file'', JObj [(''filename'', JStr (unwrap_or (doc_name document) ''document.pdf'')),
            (''file_data'', JStr (data_url (doc_mime_type document) (doc_data document)))])]
      | DocumentAnthropic \<Rightarrow> JObj ([(''type'', JStr ''document''),
          (''source'', base64_source (doc_mime_type document) (doc_data document))] @
          (case doc_name document of Some name \<Rightarrow> [(''title'', JStr name)] | None \<Rightarrow> [])))"

definition unsupported_document_text :: "document_content \<Rightarrow> string \<Rightarrow> string" where
  "unsupported_document_text document reason =
     (case doc_name document of
        Some name \<Rightarrow> ''[document '' @ [CHR 0x22] @ name @ [CHR 0x22] @ '' ('' @ doc_mime_type document @
          '') not sent: '' @ reason @ '']''
      | None \<Rightarrow> ''[document ('' @ doc_mime_type document @ '') not sent: '' @ reason @ '']'')"

definition UNSUPPORTED_MEDIA_TYPE_REASON :: string where
  "UNSUPPORTED_MEDIA_TYPE_REASON = ''only application/pdf documents can be sent to this provider''"

definition UNSUPPORTED_PROVIDER_REASON :: string where
  "UNSUPPORTED_PROVIDER_REASON = ''this provider does not accept document input''"

definition ASSISTANT_ROLE_REASON :: string where
  "ASSISTANT_ROLE_REASON = ''documents can only be sent in user messages''"

subsection \<open>Characters\<close>

definition low_bits :: "char \<Rightarrow> nat" where
  "low_bits c = of_char c mod 64"

text \<open>The code point of one character in UTF-8.\<close>

fun code_point :: "string \<Rightarrow> nat" where
  "code_point [a] = of_char a"
| "code_point [a, b] = of_char a mod 32 * 64 + low_bits b"
| "code_point [a, b, c] = (of_char a mod 16 * 64 + low_bits b) * 64 + low_bits c"
| "code_point [a, b, c, d] = ((of_char a mod 8 * 64 + low_bits b) * 64 + low_bits c) * 64 + low_bits d"
| "code_point _ = 0"

definition quote_code :: "nat \<Rightarrow> bool" where
  "quote_code n \<longleftrightarrow> n \<in> {0x22, 0x27, 0xAB, 0xBB, 0x2039, 0x203A}"

definition is_path_leading_boundary :: "string \<Rightarrow> bool" where
  "is_path_leading_boundary c \<longleftrightarrow>
     c \<in> set whitespace \<or> (let n = code_point c in quote_code n \<or> 0x2018 \<le> n \<and> n \<le> 0x201F)"

definition is_path_terminator :: "string \<Rightarrow> bool" where
  "is_path_terminator c \<longleftrightarrow>
     c = ''/'' \<or> c \<in> set whitespace \<or>
     (let n = code_point c in quote_code n \<or> n = 0x2026 \<or> 0x2013 \<le> n \<and> n \<le> 0x201F \<or>
        0x2300 \<le> n \<and> n \<le> 0x23FF \<or> 0x2600 \<le> n \<and> n \<le> 0x27BF \<or> 0x2B00 \<le> n \<and> n \<le> 0x2BFF \<or>
        0x1F1E6 \<le> n \<and> n \<le> 0x1F1FF \<or> 0x1F300 \<le> n \<and> n \<le> 0x1FAFF)"

definition is_alphanumeric :: "image_env \<Rightarrow> string \<Rightarrow> bool" where
  "is_alphanumeric E c \<longleftrightarrow>
     (case c of
        [b] \<Rightarrow> ascii_alphabetic b \<or> (let n = (of_char b :: nat) in 48 \<le> n \<and> n \<le> 57)
      | _ \<Rightarrow> ie_wide_alphanumeric E c)"

subsection \<open>Image files\<close>

definition has_image_magic :: "string \<Rightarrow> bool" where
  "has_image_magic bytes \<longleftrightarrow>
     4 \<le> length bytes \<and>
     (take 4 bytes = map byte [0x89, 0x50, 0x4E, 0x47] \<or> take 3 bytes = map byte [0xFF, 0xD8, 0xFF] \<or>
      take 4 bytes = map byte [0x47, 0x49, 0x46, 0x38])"

text \<open>The first bytes are read into a buffer of eight that is filled with zeros.\<close>

definition is_image_file :: "image_env \<Rightarrow> string \<Rightarrow> bool" where
  "is_image_file E path =
     (case ie_read E path of
        Inr bytes \<Rightarrow> has_image_magic (take 8 (bytes @ replicate 8 (byte 0)))
      | Inl e \<Rightarrow> False)"

definition is_existing_image_path :: "image_env \<Rightarrow> string \<Rightarrow> bool" where
  "is_existing_image_path E path \<longleftrightarrow> starts_with path ''/'' \<and> ie_is_file E path \<and> is_image_file E path"

fun clean_chars :: "image_env \<Rightarrow> string list \<Rightarrow> string" where
  "clean_chars E [] = []"
| "clean_chars E [c] = c"
| "clean_chars E (c # d # cs) =
     (if c = [CHR 0x5C] \<and> \<not> is_alphanumeric E d then d @ clean_chars E cs
      else c @ clean_chars E (d # cs))"

definition clean_path :: "image_env \<Rightarrow> string \<Rightarrow> string" where
  "clean_path E path = (if CHR 0x5C \<notin> set path then path else clean_chars E (utf8_chars path))"

definition image_path_candidate :: "image_env \<Rightarrow> string \<Rightarrow> string option" where
  "image_path_candidate E candidate =
     (if is_existing_image_path E candidate then Some candidate
      else
        (let cleaned = clean_path E candidate
         in if cleaned \<noteq> candidate \<and> is_existing_image_path E cleaned then Some cleaned else None))"

subsection \<open>Paths in a text\<close>

definition IMAGE_EXTENSIONS :: "string list" where
  "IMAGE_EXTENSIONS = [''.png'', ''.jpg'', ''.jpeg'']"

definition MAX_PATH_LEN :: nat where "MAX_PATH_LEN = 4096"

text \<open>\<open>find_ascii_ci\<close> on what follows \<open>from\<close>, with the position counted on.\<close>

fun find_ascii_ci :: "string \<Rightarrow> string \<Rightarrow> nat \<Rightarrow> nat option" where
  "find_ascii_ci [] needle i = None"
| "find_ascii_ci (c # s) needle i =
     (if needle \<noteq> [] \<and> length needle \<le> length (c # s) \<and>
         map ascii_lower (take (length needle) (c # s)) = map ascii_lower needle
      then Some i else find_ascii_ci s needle (Suc i))"

definition min_opt :: "nat list \<Rightarrow> nat option" where
  "min_opt ns = (case ns of [] \<Rightarrow> None | n # ms \<Rightarrow> Some (foldl min n ms))"

definition extension_end :: "string \<Rightarrow> nat \<Rightarrow> nat option" where
  "extension_end t i =
     min_opt (filter_map (\<lambda>ext. map_option (\<lambda>j. j + length ext) (find_ascii_ci (drop i t) ext i)) IMAGE_EXTENSIONS)"

definition is_char_boundary :: "string \<Rightarrow> nat \<Rightarrow> bool" where
  "is_char_boundary t i \<longleftrightarrow> i = length t \<or> i < length t \<and> \<not> is_cont (t ! i)"

text \<open>The first character boundary from \<open>i\<close> on, but not past \<open>stop\<close>.\<close>

function boundary_from :: "string \<Rightarrow> nat \<Rightarrow> nat \<Rightarrow> nat" where
  "boundary_from t i stop =
     (if i < stop \<and> \<not> is_char_boundary t i then boundary_from t (Suc i) stop else i)"
  by pat_completeness auto
termination
  by (relation "measure (\<lambda>(t, i, stop). stop - i)") auto

declare boundary_from.simps [simp del]

definition path_starts :: "string \<Rightarrow> nat \<Rightarrow> nat list" where
  "path_starts t stop =
     (let floor = boundary_from t (stop - MAX_PATH_LEN) stop
      in filter (\<lambda>i. t ! i = CHR ''/'') [floor ..< stop])"

definition path_at :: "image_env \<Rightarrow> string \<Rightarrow> nat \<Rightarrow> nat \<Rightarrow> (nat \<times> string) option" where
  "path_at E t stop start =
     (if (case last_opt (utf8_chars (take start t)) of None \<Rightarrow> True | Some c \<Rightarrow> is_path_leading_boundary c)
      then map_option (\<lambda>p. (start, p)) (image_path_candidate E (drop start (take stop t)))
      else None)"

text \<open>A path that starts where the best one does is longer, since it ends later.\<close>

definition better_path :: "(nat \<times> string) option \<Rightarrow> (nat \<times> string) option \<Rightarrow> (nat \<times> string) option" where
  "better_path best found =
     (case (best, found) of
        (_, None) \<Rightarrow> best
      | (None, Some p) \<Rightarrow> Some p
      | (Some b, Some p) \<Rightarrow> if fst p = fst b then Some p else Some b)"

definition ends_path :: "string \<Rightarrow> nat \<Rightarrow> bool" where
  "ends_path t stop = (case utf8_chars (drop stop t) of [] \<Rightarrow> True | c # _ \<Rightarrow> is_path_terminator c)"

lemma find_ascii_ci_from: "find_ascii_ci s needle i = Some j \<Longrightarrow> i \<le> j \<and> needle \<noteq> [] \<and> j + length needle \<le> i + length s"
  by (induction s needle i rule: find_ascii_ci.induct) (auto split: if_splits)

lemma foldl_min_in: "foldl min n ms \<in> insert (n :: nat) (set ms)"
  by (induction ms arbitrary: n) (auto simp: min_def split: if_splits)

lemma extension_end_from:
  assumes "extension_end t i = Some j"
  shows "i < j \<and> (i \<le> length t \<longrightarrow> j \<le> length t)"
proof -
  let ?f = "\<lambda>ext. map_option (\<lambda>j. j + length ext) (find_ascii_ci (drop i t) ext i)"
  from assms have "j \<in> set (filter_map ?f IMAGE_EXTENSIONS)"
    by (auto simp: extension_end_def min_opt_def split: list.splits) (use foldl_min_in in force)
  then obtain ext k where "find_ascii_ci (drop i t) ext i = Some k" "j = k + length ext"
    by (auto simp: set_filter_map)
  with find_ascii_ci_from [of "drop i t" ext i k] show ?thesis by (cases ext) auto
qed

function detect_from :: "image_env \<Rightarrow> string \<Rightarrow> nat \<Rightarrow> (nat \<times> string) option \<Rightarrow> (nat \<times> string) option" where
  "detect_from E t i best =
     (if i < length t
      then (case extension_end t i of
              None \<Rightarrow> best
            | Some stop \<Rightarrow>
                detect_from E t stop
                  (if ends_path t stop then better_path best (find_map (path_at E t stop) (path_starts t stop))
                   else best))
      else best)"
  by pat_completeness auto
termination
  by (relation "measure (\<lambda>(E, t, i, best). length t - i)") (auto dest: extension_end_from)

declare detect_from.simps [simp del]

definition detect_image_path :: "image_env \<Rightarrow> string \<Rightarrow> string option" where
  "detect_image_path E t = map_option snd (detect_from E t 0 None)"

subsection \<open>Loading an image\<close>

definition MAX_IMAGE_BYTES :: nat where "MAX_IMAGE_BYTES = 20 * 1024 * 1024"

definition path_file_name :: "string \<Rightarrow> string option" where
  "path_file_name path =
     (case last_opt (filter (\<lambda>w. w \<noteq> [] \<and> w \<noteq> ''.'') (split_char (CHR ''/'') path)) of
        Some w \<Rightarrow> if w = ''..'' then None else Some w
      | None \<Rightarrow> None)"

text \<open>What stands behind the last dot of the file name, unless the name begins with it.\<close>

definition path_extension :: "string \<Rightarrow> string option" where
  "path_extension path =
     Option.bind (path_file_name path) (\<lambda>name.
       let parts = split_char (CHR ''.'') name
       in if length parts \<le> 1 \<or> butlast parts = [[]] then None else Some (last parts))"

definition image_mime_type :: "image_env \<Rightarrow> string \<Rightarrow> provider_error + string" where
  "image_mime_type E path =
     (case path_extension path of
        Some ext \<Rightarrow>
          if ie_lowercase E ext = ''png'' then Inr ''image/png''
          else if ie_lowercase E ext \<in> {''jpg'', ''jpeg''} then Inr ''image/jpeg''
          else Inl (RequestFailed ''Unsupported image format'')
      | None \<Rightarrow> Inl (RequestFailed ''Unknown image format''))"

definition load_image_file :: "image_env \<Rightarrow> string \<Rightarrow> provider_error + image_content" where
  "load_image_file E path =
     result_bind (image_mime_type E path) (\<lambda>mime.
       case ie_read E path of
         Inl e \<Rightarrow> Inl (RequestFailed (''Failed to read image file: '' @ e))
       | Inr bytes \<Rightarrow>
           if MAX_IMAGE_BYTES < length bytes
           then Inl (RequestFailed (''Image file exceeds the '' @
                  show_nat (MAX_IMAGE_BYTES div (1024 * 1024)) @ '' MiB limit''))
           else if \<not> has_image_magic bytes then Inl (RequestFailed ''File is not a valid image'')
           else Inr \<lparr>img_data = ie_base64 E bytes, img_mime_type = mime, img_annotations = None, img_meta = None\<rparr>)"

subsection \<open>Only image files are found and loaded\<close>

lemma image_path_candidate_exists: "image_path_candidate E s = Some p \<Longrightarrow> is_existing_image_path E p"
  by (auto simp: image_path_candidate_def Let_def split: if_splits)

lemma path_at_exists: "path_at E t stop start = Some (i, p) \<Longrightarrow> is_existing_image_path E p"
  by (auto simp: path_at_def split: if_splits dest: image_path_candidate_exists)

lemma detect_from_exists:
  "\<forall>b. best = Some b \<longrightarrow> is_existing_image_path E (snd b) \<Longrightarrow>
   detect_from E t i best = Some (j, p) \<Longrightarrow> is_existing_image_path E p"
proof (induction E t i best rule: detect_from.induct)
  case (1 E t i best)
  have found: "is_existing_image_path E (snd b)"
    if "find_map (path_at E t stop) (path_starts t stop) = Some b" for stop b
    using find_map_SomeD [OF that] path_at_exists by (metis prod.collapse)
  have "\<forall>b. better_path best (find_map (path_at E t stop) (path_starts t stop)) = Some b \<longrightarrow>
      is_existing_image_path E (snd b)" for stop
    using 1(2) found by (auto simp: better_path_def split: option.splits if_splits)
  with 1 show ?case
    by (subst (asm) detect_from.simps) (auto split: if_splits option.splits)
qed

lemma detect_image_path_exists: "detect_image_path E t = Some p \<Longrightarrow> is_existing_image_path E p"
  by (auto simp: detect_image_path_def dest: detect_from_exists [rotated])

end
