(* ===== verification/Openai_Request.thy ===== *)
theory Openai_Request
  imports Openai_Response Model_Config Images Operation
begin

text \<open>
  \<open>crates/aibuddy-provider-types/src/formats/openai.rs\<close>, what is sent: messages, tools with their
  schemas, and the payload of a request.  Parameters: the text of JSON values, the printed form
  of an error, and the JSON number of an \<open>f32\<close>.
\<close>

record request_env =
  rq_ext :: ext_env
  rq_images :: image_env
  rq_model :: model_env
  rq_json_text :: "json \<Rightarrow> string"
  rq_print_error :: "error_data \<Rightarrow> string"
  rq_f32_json :: "32 word \<Rightarrow> json"

datatype thinking_preservation_format = ContentPrepend | ContentXml | ReasoningContent

record format_options =
  fm_preserve_thinking :: bool
  fm_supports_vision :: bool
  fm_thinking_format :: "thinking_preservation_format option"

subsection \<open>Names of functions\<close>

definition MAX_FUNCTION_NAME_LENGTH :: nat where "MAX_FUNCTION_NAME_LENGTH = 128"

definition name_byte :: "char \<Rightarrow> bool" where
  "name_byte c \<longleftrightarrow> ascii_alphabetic c \<or> is_digit c \<or> c = CHR ''_'' \<or> c = CHR ''-''"

definition name_char :: "string \<Rightarrow> bool" where
  "name_char c = (case c of [b] \<Rightarrow> name_byte b | _ \<Rightarrow> False)"

definition sanitize_function_name :: "string \<Rightarrow> string" where
  "sanitize_function_name name =
     concat (take MAX_FUNCTION_NAME_LENGTH (map (\<lambda>c. if name_char c then c else ''_'') (utf8_chars name)))"

definition is_valid_function_name :: "string \<Rightarrow> bool" where
  "is_valid_function_name name \<longleftrightarrow> name \<noteq> [] \<and> list_all name_char (utf8_chars name)"

subsection \<open>The blocks of a message\<close>

definition role_name :: "role \<Rightarrow> string" where
  "role_name r = (case r of User \<Rightarrow> ''user'' | Assistant \<Rightarrow> ''assistant'')"

definition text_item :: "string \<Rightarrow> json" where
  "text_item s = JObj [(''type'', JStr ''text''), (''text'', JStr s)]"

text \<open>A message while its blocks are read: the object that is built, the messages that go behind it,
  the items of its content, whether one of them is not text, and the thoughts.\<close>

record wire_draft =
  wd_object :: json_object
  wd_after :: "json list"
  wd_items :: "json list"
  wd_rich :: bool
  wd_reasoning :: string

definition draft_start :: "role \<Rightarrow> wire_draft" where
  "draft_start r = \<lparr>wd_object = [(''role'', JStr (role_name r))], wd_after = [], wd_items = [],
     wd_rich = False, wd_reasoning = []\<rparr>"

definition add_items :: "json list \<Rightarrow> bool \<Rightarrow> wire_draft \<Rightarrow> wire_draft" where
  "add_items items rich d = d\<lparr>wd_items := wd_items d @ items, wd_rich := wd_rich d \<or> rich\<rparr>"

definition user_text_items :: "request_env \<Rightarrow> format_options \<Rightarrow> image_format \<Rightarrow> string \<Rightarrow> json list \<times> bool" where
  "user_text_items E opts fmt s =
     (if fm_supports_vision opts
      then (case detect_image_path (rq_images E) s of
              None \<Rightarrow> ([text_item s], False)
            | Some path \<Rightarrow>
                (case load_image_file (rq_images E) path of
                   Inl e \<Rightarrow> ([text_item s], False)
                 | Inr img \<Rightarrow> ([text_item s, convert_image img fmt], True)))
      else ([text_item s], False))"

definition call_object :: "string \<Rightarrow> string \<Rightarrow> string \<Rightarrow> json_object" where
  "call_object i name args =
     [(''id'', JStr i), (''type'', JStr ''function''),
      (''function'', JObj [(''name'', JStr name), (''arguments'', JStr args)])]"

definition call_json :: "request_env \<Rightarrow> tool_request \<Rightarrow> json" where
  "call_json E r =
     (case tq_tool_call r of
        Inr call \<Rightarrow> JObj (foldl insert_entry
          (call_object (tq_id r) (sanitize_function_name (ct_name call))
            (case ct_arguments call of Some args \<Rightarrow> rq_json_text E (JObj args) | None \<Rightarrow> ''{}''))
          (unwrap_or (tq_metadata r) []))
      | Inl e \<Rightarrow> JObj (call_object (tq_id r) ''unparseable_tool_call'' ''{}''))"

text \<open>\<open>entry("tool_calls").or_insert([])\<close>, then a push.\<close>

definition push_call :: "json \<Rightarrow> json_object \<Rightarrow> json_object" where
  "push_call call m =
     map_insert ''tool_calls''
       (JArr (unwrap_or (Option.bind (map_of m ''tool_calls'') json_as_array) [] @ [call])) m"

definition IMAGE_UPLOADED :: string where
  "IMAGE_UPLOADED = ''This tool result included an image that is uploaded in the next message.''"

definition IMAGE_OMITTED :: string where
  "IMAGE_OMITTED = ''This tool result included an image that was omitted as the model does not support vision.''"

definition tool_block_text :: "request_env \<Rightarrow> format_options \<Rightarrow> content_block \<Rightarrow> string" where
  "tool_block_text E opts b =
     (case b of
        CImage img \<Rightarrow> if fm_supports_vision opts then IMAGE_UPLOADED else IMAGE_OMITTED
      | CResource r a \<Rightarrow> extract_text_from_resource (rq_ext E) r
      | CText t \<Rightarrow> tc_text t
      | _ \<Rightarrow> [])"

definition tool_block_image :: "format_options \<Rightarrow> image_format \<Rightarrow> content_block \<Rightarrow> json option" where
  "tool_block_image opts fmt b =
     (case b of
        CImage img \<Rightarrow>
          if fm_supports_vision opts
          then Some (JObj [(''role'', JStr ''user''), (''content'', JArr [convert_image img fmt])])
          else None
      | _ \<Rightarrow> None)"

definition tool_message :: "string \<Rightarrow> string \<Rightarrow> json" where
  "tool_message content i =
     JObj [(''role'', JStr ''tool''), (''content'', JStr content), (''tool_call_id'', JStr i)]"

definition response_messages ::
  "request_env \<Rightarrow> format_options \<Rightarrow> image_format \<Rightarrow> tool_response \<Rightarrow> json list" where
  "response_messages E opts fmt r =
     (case tr_tool_result r of
        Inr result \<Rightarrow>
          tool_message (join '' '' (map (tool_block_text E opts) (cr_content result))) (tr_id r) #
          filter_map (tool_block_image opts fmt) (cr_content result)
      | Inl e \<Rightarrow>
          [tool_message (''The tool call returned the following error:'' @ newline @ rq_print_error E e) (tr_id r)])"

definition image_items ::
  "format_options \<Rightarrow> image_format \<Rightarrow> role \<Rightarrow> image_content \<Rightarrow> json list \<times> bool" where
  "image_items opts fmt r img =
     (if r = User then
        if fm_supports_vision opts then ([convert_image img fmt], True)
        else ([text_item ''[image omitted: model does not support vision]''], False)
      else ([text_item ''[Image content removed - not supported in assistant messages]''], False))"

definition document_items :: "role \<Rightarrow> document_content \<Rightarrow> json list \<times> bool" where
  "document_items r document =
     (if r \<noteq> User then ([text_item (unsupported_document_text document ASSISTANT_ROLE_REASON)], False)
      else if document_media_type_is_supported (doc_mime_type document)
      then ([convert_document document DocumentOpenAi], True)
      else ([text_item (unsupported_document_text document UNSUPPORTED_MEDIA_TYPE_REASON)], False))"

definition add_block ::
  "request_env \<Rightarrow> format_options \<Rightarrow> image_format \<Rightarrow> role \<Rightarrow> wire_draft \<Rightarrow> message_content \<Rightarrow> wire_draft" where
  "add_block E opts fmt r d b =
     (case b of
        Text t \<Rightarrow>
          if tc_text t = [] then d
          else if r = User then case_prod add_items (user_text_items E opts fmt (tc_text t)) d
          else add_items [text_item (tc_text t)] False d
      | Thinking t \<Rightarrow> d\<lparr>wd_reasoning := wd_reasoning d @ thinking t\<rparr>
      | ToolRequest q \<Rightarrow> d\<lparr>wd_object := push_call (call_json E q) (wd_object d)\<rparr>
      | ToolResponse p \<Rightarrow> d\<lparr>wd_after := wd_after d @ response_messages E opts fmt p\<rparr>
      | Image img \<Rightarrow> case_prod add_items (image_items opts fmt r img) d
      | Document document \<Rightarrow> case_prod add_items (document_items r document) d
      | _ \<Rightarrow> d)"

definition draft_message ::
  "request_env \<Rightarrow> format_options \<Rightarrow> image_format \<Rightarrow> message \<Rightarrow> wire_draft" where
  "draft_message E opts fmt m =
     foldl (add_block E opts fmt (msg_role m)) (draft_start (msg_role m)) (msg_content m)"

definition item_text :: "json \<Rightarrow> string option" where
  "item_text v = Option.bind (json_get v ''text'') json_as_str"

definition wire_content :: "role \<Rightarrow> wire_draft \<Rightarrow> json_object" where
  "wire_content r d =
     (let m = (if wd_items d = [] then wd_object d
               else map_insert ''content''
                 (if wd_rich d then JArr (wd_items d)
                  else JStr (join newline (filter_map item_text (wd_items d)))) (wd_object d))
      in if r = Assistant \<and> map_of m ''tool_calls'' \<noteq> None \<and> map_of m ''content'' = None
         then map_insert ''content'' JNull m else m)"

subsection \<open>The messages\<close>

definition merge_reasoning_text :: "string \<Rightarrow> string \<Rightarrow> string" where
  "merge_reasoning_text a b =
     (if a = [] then b else if b = [] then a
      else if starts_with b a then b
      else if starts_with (rev a) (rev b) then a
      else a @ b)"

record format_state =
  fs_pending :: string
  fs_turn :: string
  fs_saw_response :: bool

definition format_start :: format_state where
  "format_start = \<lparr>fs_pending = [], fs_turn = [], fs_saw_response = False\<rparr>"

definition enter_message :: "format_options \<Rightarrow> message \<Rightarrow> format_state \<Rightarrow> format_state" where
  "enter_message opts m st =
     (if \<not> fm_preserve_thinking opts then st
      else if msg_role m = Assistant
      then (if fs_saw_response st then st\<lparr>fs_turn := [], fs_saw_response := False\<rparr> else st)
      else if list_ex (\<lambda>b. case b of ToolResponse p \<Rightarrow> True | _ \<Rightarrow> False) (msg_content m)
      then st\<lparr>fs_pending := [], fs_saw_response := True\<rparr>
      else st\<lparr>fs_pending := [], fs_turn := [], fs_saw_response := False\<rparr>)"

definition has_calls :: "json_object \<Rightarrow> bool" where
  "has_calls m \<longleftrightarrow> is_some_and (Option.bind (map_of m ''tool_calls'') json_as_array) (\<lambda>calls. calls \<noteq> [])"

text \<open>The reasoning of a message with a payload or with something behind it.\<close>

definition carry_reasoning :: "json_object \<Rightarrow> string \<Rightarrow> format_state \<Rightarrow> string \<times> format_state" where
  "carry_reasoning m reasoning st =
     (let merged = (if fs_pending st \<noteq> [] then merge_reasoning_text (fs_pending st) reasoning else reasoning);
          st1 = st\<lparr>fs_pending := []\<rparr>
      in if has_calls m \<and> merged = [] then (fs_turn st1, st1) else (merged, st1\<lparr>fs_turn := merged\<rparr>))"

definition format_message ::
  "request_env \<Rightarrow> format_options \<Rightarrow> image_format \<Rightarrow> message \<Rightarrow> format_state \<Rightarrow> json list \<times> format_state" where
  "format_message E opts fmt m st =
     (let st1 = enter_message opts m st;
          d = draft_message E opts fmt m;
          object = wire_content (msg_role m) d;
          payload = (map_of object ''content'' \<noteq> None \<or> map_of object ''tool_calls'' \<noteq> None);
          keeps = fm_preserve_thinking opts
      in if keeps \<and> msg_role m = Assistant \<and> \<not> payload \<and> wd_after d = [] \<and> wd_reasoning d \<noteq> []
         then ([], st1\<lparr>fs_pending := fs_pending st1 @ wd_reasoning d\<rparr>)
         else
           (let (reasoning, st2) =
                  (if keeps \<and> msg_role m = Assistant then carry_reasoning object (wd_reasoning d) st1
                   else (wd_reasoning d, st1));
                object1 = (if keeps \<and> reasoning \<noteq> []
                           then map_insert ''reasoning_content'' (JStr reasoning) object else object)
            in ((if payload then [JObj object1] else []) @ wd_after d, st2)))"

fun format_all ::
  "request_env \<Rightarrow> format_options \<Rightarrow> image_format \<Rightarrow> message list \<Rightarrow> format_state \<Rightarrow> json list" where
  "format_all E opts fmt [] st = []"
| "format_all E opts fmt (m # ms) st =
     (let (out, st1) = format_message E opts fmt m st in out @ format_all E opts fmt ms st1)"

subsection \<open>Messages that were split\<close>

definition get_equals :: "json \<Rightarrow> string \<Rightarrow> json \<Rightarrow> bool" where
  "get_equals v k w = is_some_and (json_get v k) (\<lambda>x. json_equal x w)"

definition wire_calls :: "json \<Rightarrow> json list" where
  "wire_calls v = unwrap_or (Option.bind (json_get v ''tool_calls'') json_as_array) []"

definition calls_tools :: "json \<Rightarrow> bool" where
  "calls_tools v \<longleftrightarrow> get_equals v ''role'' (JStr ''assistant'') \<and> wire_calls v \<noteq> []"

definition is_image_only_user_message :: "json \<Rightarrow> bool" where
  "is_image_only_user_message v \<longleftrightarrow>
     get_equals v ''role'' (JStr ''user'') \<and>
     is_some_and (Option.bind (json_get v ''content'') json_as_array)
       (\<lambda>items. items \<noteq> [] \<and> list_all (\<lambda>item. get_equals item ''type'' (JStr ''image_url'')) items)"

definition no_content :: "json \<Rightarrow> bool" where
  "no_content v \<longleftrightarrow> json_get v ''content'' \<in> {None, Some JNull, Some (JStr []), Some (JArr [])}"

definition is_split_of :: "json \<Rightarrow> json \<Rightarrow> bool" where
  "is_split_of base v \<longleftrightarrow>
     calls_tools v \<and> no_content v \<and> get_equals v ''reasoning_content'' base"

text \<open>The calls of the messages that were split off, the messages between them, and the rest.\<close>

function collect_split :: "json \<Rightarrow> json list \<Rightarrow> json list \<times> json list \<times> json list" where
  "collect_split base [] = ([], [], [])"
| "collect_split base (r # rs) =
     (if \<not> get_equals r ''role'' (JStr ''tool'') then ([], [], r # rs)
      else
        (case dropWhile is_image_only_user_message rs of
           [] \<Rightarrow> ([], [], r # rs)
         | next # later \<Rightarrow>
             if is_split_of base next then
               (let (calls, between, rest) = collect_split base later
                in (wire_calls next @ calls, r # takeWhile is_image_only_user_message rs @ between, rest))
             else ([], [], r # rs)))"
  by pat_completeness auto
termination
proof (relation "measure (\<lambda>(base, rs). length rs)", goal_cases)
  case (2 base r rs v later)
  then have "length (v # later) \<le> length rs" by (metis length_dropWhile_le)
  then show ?case by simp
qed simp

definition add_calls :: "json list \<Rightarrow> json \<Rightarrow> json" where
  "add_calls calls v =
     (case v of
        JObj m \<Rightarrow>
          (case map_of m ''tool_calls'' of
             Some (JArr own) \<Rightarrow> JObj (map_insert ''tool_calls'' (JArr (own @ calls)) m)
           | _ \<Rightarrow> v)
      | _ \<Rightarrow> v)"

lemma collect_split_shorter:
  "collect_split base rs = (calls, between, rest) \<Longrightarrow> length rest \<le> length rs"
proof (induction base rs arbitrary: calls between rest rule: collect_split.induct)
  case (2 base r rs)
  show ?case
  proof (cases "dropWhile is_image_only_user_message rs")
    case (Cons v later)
    then have "length (v # later) \<le> length rs" by (metis length_dropWhile_le)
    then show ?thesis using 2 Cons by (fastforce split: if_splits prod.splits)
  qed (use 2 in \<open>auto simp del: dropWhile_eq_Nil_conv split: if_splits\<close>)
qed simp

function merge_split_tool_call_messages :: "json list \<Rightarrow> json list" where
  "merge_split_tool_call_messages [] = []"
| "merge_split_tool_call_messages (v # vs) =
     (case (if calls_tools v then json_get v ''reasoning_content'' else None) of
        None \<Rightarrow> v # merge_split_tool_call_messages vs
      | Some base \<Rightarrow>
          (let (calls, between, rest) = collect_split base vs
           in if calls = [] then v # merge_split_tool_call_messages vs
              else add_calls calls v # between @ merge_split_tool_call_messages rest))"
  by pat_completeness auto
termination
  by (relation "measure length") (auto dest!: collect_split_shorter [OF sym] split: if_splits)

subsection \<open>Thoughts in the content\<close>

definition wrap_reasoning :: "thinking_preservation_format \<Rightarrow> string \<Rightarrow> string option" where
  "wrap_reasoning f s =
     (case f of
        ReasoningContent \<Rightarrow> None
      | ContentPrepend \<Rightarrow> Some (s @ newline @ newline)
      | ContentXml \<Rightarrow> Some (''<think>'' @ newline @ s @ newline @ ''</think>'' @ newline @ newline))"

text \<open>\<open>Map::remove\<close> puts the last entry in the place of the one that is removed.\<close>

definition swap_remove :: "string \<Rightarrow> json_object \<Rightarrow> json_object" where
  "swap_remove k m =
     (if k \<notin> set (map fst m) then m
      else
        (let i = length (takeWhile (\<lambda>kv. fst kv \<noteq> k) m)
         in if i = length m - 1 then butlast m else (butlast m)[i := last m]))"

definition inline_reasoning :: "thinking_preservation_format \<Rightarrow> json \<Rightarrow> json" where
  "inline_reasoning f v =
     (case v of
        JObj m \<Rightarrow>
          (let m1 = swap_remove ''reasoning_content'' m
           in case Option.bind (Option.bind (map_of m ''reasoning_content'') json_as_str) (wrap_reasoning f) of
                None \<Rightarrow> JObj m1
              | Some p \<Rightarrow>
                  JObj (map_insert ''content''
                    (case map_of m1 ''content'' of
                       Some (JStr s) \<Rightarrow> JStr (p @ s)
                     | Some (JArr items) \<Rightarrow> JArr (text_item p # items)
                     | _ \<Rightarrow> JStr (trim_end p)) m1))
      | _ \<Rightarrow> v)"

definition inline_reasoning_content :: "thinking_preservation_format \<Rightarrow> json list \<Rightarrow> json list" where
  "inline_reasoning_content f vs = (if f = ReasoningContent then vs else map (inline_reasoning f) vs)"

definition format_messages_with_options ::
  "request_env \<Rightarrow> message list \<Rightarrow> image_format \<Rightarrow> format_options \<Rightarrow> json list" where
  "format_messages_with_options E ms fmt opts =
     (let merged = merge_split_tool_call_messages (format_all E opts fmt ms format_start)
      in case fm_thinking_format opts of
           Some f \<Rightarrow> inline_reasoning_content f merged
         | None \<Rightarrow> merged)"

definition default_format_options :: "bool \<Rightarrow> format_options" where
  "default_format_options vision =
     \<lparr>fm_preserve_thinking = True, fm_supports_vision = vision, fm_thinking_format = None\<rparr>"

definition openai_format_messages :: "request_env \<Rightarrow> message list \<Rightarrow> image_format \<Rightarrow> json list" where
  "openai_format_messages E ms fmt = format_messages_with_options E ms fmt (default_format_options False)"

end
