(* ===== verification/Openai_Payload.thy ===== *)
theory Openai_Payload
  imports Openai_Request
begin

text \<open>
  \<open>crates/aibuddy-provider-types/src/formats/openai.rs\<close>: the tools of a request with their JSON
  schemas made acceptable to strict providers, and the payload as a whole.
\<close>

subsection \<open>Tools\<close>

definition tool_json :: "tool \<Rightarrow> json" where
  "tool_json t = JObj [(''type'', JStr ''function''),
     (''function'', JObj [(''name'', JStr (tl_name t)),
        (''description'', case tl_description t of Some d \<Rightarrow> JStr d | None \<Rightarrow> JNull),
        (''parameters'', JObj (tl_input_schema t))])]"

fun format_tools_from :: "string list \<Rightarrow> tool list \<Rightarrow> json list result" where
  "format_tools_from seen [] = Inr []"
| "format_tools_from seen (t # ts) =
     (if tl_name t \<in> set seen then Inl (''Duplicate tool name: '' @ tl_name t)
      else map_sum id (Cons (tool_json t)) (format_tools_from (tl_name t # seen) ts))"

definition format_tools :: "tool list \<Rightarrow> json list result" where
  "format_tools ts = format_tools_from [] ts"

subsection \<open>Schemas\<close>

definition one_of_to_any_of :: "json_object \<Rightarrow> json_object" where
  "one_of_to_any_of m =
     (if map_of m ''anyOf'' \<noteq> None then m
      else (case map_of m ''oneOf'' of
              Some v \<Rightarrow> map_insert ''anyOf'' v (swap_remove ''oneOf'' m)
            | None \<Rightarrow> m))"

definition not_null_type :: "json \<Rightarrow> bool" where
  "not_null_type t \<longleftrightarrow> json_as_str t \<noteq> Some ''null''"

definition scalar_type :: "json_object \<Rightarrow> json option" where
  "scalar_type m =
     (case Option.bind (map_of m ''type'') json_as_array of
        Some types \<Rightarrow> (case filter not_null_type types of [t] \<Rightarrow> Some t | _ \<Rightarrow> None)
      | None \<Rightarrow> None)"

definition null_variant :: "json \<Rightarrow> bool" where
  "null_variant v \<longleftrightarrow> Option.bind (json_get v ''type'') json_as_str = Some ''null''"

text \<open>The object that an \<open>anyOf\<close> of one schema and null stands for.\<close>

definition only_variant :: "json \<Rightarrow> json_object option" where
  "only_variant any_of =
     (case json_as_array any_of of
        Some [a, b] \<Rightarrow>
          if null_variant a then json_as_object b else if null_variant b then json_as_object a else None
      | _ \<Rightarrow> None)"

definition normalize_nullable :: "json_object \<Rightarrow> json_object" where
  "normalize_nullable m =
     (case scalar_type m of
        Some t \<Rightarrow> map_insert ''type'' t m
      | None \<Rightarrow>
          (case map_of m ''anyOf'' of
             None \<Rightarrow> m
           | Some any_of \<Rightarrow>
               (let m1 = swap_remove ''anyOf'' m
                in case only_variant any_of of
                     Some variant \<Rightarrow> foldl or_insert m1 variant
                   | None \<Rightarrow> map_insert ''anyOf'' any_of m1)))"

definition object_defaults :: "json_object \<Rightarrow> json_object" where
  "object_defaults m =
     (if Option.bind (map_of m ''type'') json_as_str = Some ''object''
      then or_insert (or_insert m (''properties'', JObj [])) (''required'', JArr [])
      else m)"

definition prepared_schema :: "json_object \<Rightarrow> json_object" where
  "prepared_schema m = object_defaults (normalize_nullable (one_of_to_any_of m))"

text \<open>The size of a value without its keys, for the recursion.\<close>

fun weight :: "json \<Rightarrow> nat" where
  "weight (JArr vs) = Suc (sum_list (map weight vs))"
| "weight (JObj m) = Suc (sum_list (map (\<lambda>kv. weight (snd kv)) m))"
| "weight v = 1"

lemma weight_pos [simp]: "0 < weight v"
  by (cases v) simp_all

lemma item_weight: "v \<in> set vs \<Longrightarrow> weight v < weight (JArr vs)"
  by (auto simp: less_Suc_eq_le member_le_sum_list)

lemma entry_weight: "kv \<in> set m \<Longrightarrow> weight (snd kv) < weight (JObj m)"
  by (auto simp: less_Suc_eq_le member_le_sum_list)

text \<open>The values of an object, each lighter than a bound.\<close>

definition lighter :: "nat \<Rightarrow> json_object \<Rightarrow> bool" where
  "lighter n m \<longleftrightarrow> (\<forall>kv \<in> set m. weight (snd kv) < n)"

lemma lighter_found: "lighter n m \<Longrightarrow> map_of m k = Some v \<Longrightarrow> weight v < n"
  by (auto simp: lighter_def dest!: map_of_SomeD)

lemma lighter_own: "lighter (weight (JObj m)) m"
  unfolding lighter_def using entry_weight by blast

lemma set_swap_remove: "set (swap_remove k m) \<subseteq> set m"
proof (cases "m = []")
  case False
  then have part: "insert (last m) (set (butlast m)) \<subseteq> set m" by (auto dest: in_set_butlastD)
  have "set ((butlast m)[i := last m]) \<subseteq> set m" for i
    using set_update_subset_insert part by (rule subset_trans)
  then show ?thesis using part by (simp add: swap_remove_def Let_def)
qed (simp add: swap_remove_def)

lemma lighter_swap_remove: "lighter n m \<Longrightarrow> lighter n (swap_remove k m)"
  using set_swap_remove [of k m] by (auto simp: lighter_def)

lemma map_insert_entryD: "kv \<in> set (map_insert k v m) \<Longrightarrow> snd kv = v \<or> kv \<in> set m"
  by (auto simp: map_insert_def split: if_splits)

lemma lighter_map_insert: "lighter n m \<Longrightarrow> weight v < n \<Longrightarrow> lighter n (map_insert k v m)"
  unfolding lighter_def using map_insert_entryD by metis

lemma set_or_inserts: "set (foldl or_insert m m') \<subseteq> set m \<union> set m'"
proof (induction m' arbitrary: m)
  case (Cons kv m')
  have "set (or_insert m kv) \<subseteq> insert kv (set m)" by (auto simp: or_insert_def)
  with Cons.IH [of "or_insert m kv"] show ?case by auto
qed simp

lemma lighter_or_inserts: "lighter n m \<Longrightarrow> lighter n m' \<Longrightarrow> lighter n (foldl or_insert m m')"
  using set_or_inserts [of m m'] unfolding lighter_def by blast

lemma only_variant_lighter:
  assumes "only_variant v = Some m" "weight v < n"
  shows "lighter n m"
proof -
  from assms(1) obtain a b where v: "v = JArr [a, b]" "a = JObj m \<or> b = JObj m"
    by (cases v) (auto simp: only_variant_def split: list.splits if_splits elim!: json_as_object.elims)
  then have "weight (JObj m) < n" using assms(2) by (auto simp del: weight.simps(2))
  with entry_weight [of _ m] show ?thesis unfolding lighter_def by (meson less_trans)
qed

lemma scalar_type_weight:
  assumes "scalar_type m = Some t" "lighter n m"
  shows "weight t < n"
proof -
  from assms(1) obtain types where types: "map_of m ''type'' = Some (JArr types)" "filter not_null_type types = [t]"
    by (auto simp: scalar_type_def bind_eq_Some_conv split: option.splits list.splits elim!: json_as_array.elims)
  then have "t \<in> set (filter not_null_type types)" by simp
  then have "t \<in> set types" by simp
  from lighter_found [OF assms(2) types(1)] item_weight [OF this] show ?thesis by (simp del: weight.simps)
qed

text \<open>Every value of a prepared schema comes from the schema, or is an empty default.\<close>

lemma one_of_lighter: "lighter n m \<Longrightarrow> lighter n (one_of_to_any_of m)"
  by (auto simp: one_of_to_any_of_def intro: lighter_map_insert lighter_swap_remove lighter_found split: option.split)

lemma normalize_lighter: "lighter n m \<Longrightarrow> lighter n (normalize_nullable m)"
  by (auto simp: normalize_nullable_def Let_def
      intro: lighter_map_insert lighter_or_inserts lighter_swap_remove lighter_found only_variant_lighter
        scalar_type_weight split: option.split)

lemma object_defaults_entry:
  "kv \<in> set (object_defaults m) \<Longrightarrow> kv \<in> set m \<or> snd kv \<in> {JObj [], JArr []}"
  by (auto simp: object_defaults_def or_insert_def split: if_splits)

lemma prepared_weight:
  assumes "kv \<in> set (prepared_schema m)"
  shows "weight (snd kv) < weight (JObj m)"
proof -
  have "prepared_schema [] = []"
    by (simp add: prepared_schema_def one_of_to_any_of_def normalize_nullable_def scalar_type_def object_defaults_def)
  with assms have "1 < weight (JObj m)" by (cases m) auto
  moreover have "lighter (weight (JObj m)) (normalize_nullable (one_of_to_any_of m))"
    by (intro normalize_lighter one_of_lighter lighter_own)
  ultimately show ?thesis
    using object_defaults_entry [of kv "normalize_nullable (one_of_to_any_of m)"] assms
    by (auto simp: prepared_schema_def lighter_def)
qed

lemma schema_child_weight:
  assumes "(k, v) \<in> set (prepared_schema m)"
  shows "v = JObj children \<Longrightarrow> kc \<in> set children \<Longrightarrow> weight (snd kc) < weight (JObj m)"
    "v = JArr items \<Longrightarrow> c \<in> set items \<Longrightarrow> weight c < weight (JObj m)"
    "weight v < weight (JObj m)"
  using prepared_weight [OF assms] entry_weight [of kc children] item_weight [of c items]
  by (auto simp del: weight.simps)

definition MAP_KEYS :: "string list" where "MAP_KEYS = [''properties'', ''$defs'', ''definitions'']"
definition LIST_KEYS :: "string list" where "LIST_KEYS = [''anyOf'', ''allOf'', ''prefixItems'']"
definition NODE_KEYS :: "string list" where "NODE_KEYS = [''items'', ''additionalProperties'']"

text \<open>\<open>sanitize_schema_node\<close>: the node, then the schemas inside it.\<close>

function sanitize_schema_node :: "json \<Rightarrow> json" where
  "sanitize_schema_node (JObj m) =
     JObj (map (\<lambda>(k, v).
       (k, case v of
             JObj children \<Rightarrow>
               if k \<in> set MAP_KEYS then JObj (map (\<lambda>(k', c). (k', sanitize_schema_node c)) children)
               else if k \<in> set NODE_KEYS then sanitize_schema_node (JObj children) else JObj children
           | JArr children \<Rightarrow>
               if k \<in> set LIST_KEYS then JArr (map sanitize_schema_node children) else JArr children
           | other \<Rightarrow> other)) (prepared_schema m))"
| "sanitize_schema_node JNull = JNull"
| "sanitize_schema_node (JBool b) = JBool b"
| "sanitize_schema_node (JInt i) = JInt i"
| "sanitize_schema_node (JFloat x) = JFloat x"
| "sanitize_schema_node (JStr s) = JStr s"
| "sanitize_schema_node (JArr vs) = JArr vs"
  by pat_completeness auto
termination
  by (relation "measure weight") (use schema_child_weight in \<open>force simp del: weight.simps\<close>)+

definition ensure_valid_json_schema :: "json_object \<Rightarrow> json" where
  "ensure_valid_json_schema m = sanitize_schema_node (JObj (or_insert m (''type'', JStr ''object'')))"

definition update_field :: "string \<Rightarrow> (json \<Rightarrow> json) \<Rightarrow> json \<Rightarrow> json" where
  "update_field k f v =
     (case v of
        JObj m \<Rightarrow> (case map_of m k of Some x \<Rightarrow> JObj (map_insert k (f x) m) | None \<Rightarrow> v)
      | _ \<Rightarrow> v)"

definition valid_parameters :: "json \<Rightarrow> json" where
  "valid_parameters v = (case v of JObj m \<Rightarrow> ensure_valid_json_schema m | _ \<Rightarrow> v)"

definition validate_tool_schemas :: "json list \<Rightarrow> json list" where
  "validate_tool_schemas tools = map (update_field ''function'' (update_field ''parameters'' valid_parameters)) tools"

subsection \<open>The payload\<close>

definition is_reserved_request_param_key :: "string \<Rightarrow> bool" where
  "is_reserved_request_param_key key \<longleftrightarrow> key \<in> {''messages'', ''model'', ''stream'', ''stream_options''}"

definition request_effort :: "request_env \<Rightarrow> model_config \<Rightarrow> string \<Rightarrow> string option" where
  "request_effort E config capability =
     (let (name, legacy) = extract_reasoning_effort (rq_model E) capability in
      if is_openai_responses_model (rq_model E) name
      then (case thinking_effort_of (rq_model E) config of
              Some effort \<Rightarrow> openai_reasoning_effort_for_thinking name effort
            | None \<Rightarrow> legacy)
      else if supports_xai_reasoning_effort name
      then Option.bind (thinking_effort_of (rq_model E) config) (xai_reasoning_effort_for_thinking name)
      else None)"

definition put_field :: "string \<Rightarrow> json option \<Rightarrow> json_object \<Rightarrow> json_object" where
  "put_field k v m = (case v of Some x \<Rightarrow> map_insert k x m | None \<Rightarrow> m)"

definition put_param :: "json_object \<Rightarrow> string \<times> json \<Rightarrow> json_object" where
  "put_param m kv =
     (if is_aibuddy_internal_request_param (fst kv) \<or> is_reserved_request_param_key (fst kv) then m
      else insert_entry m kv)"

definition request_payload ::
  "request_env \<Rightarrow> model_config \<Rightarrow> string \<Rightarrow> string \<Rightarrow> json list \<Rightarrow> json list \<Rightarrow> bool \<Rightarrow> json_object" where
  "request_payload E config wire_name capability messages tools streaming =
     (let name = fst (extract_reasoning_effort (rq_model E) capability);
          reasoning = is_openai_responses_model (rq_model E) name;
          xai = supports_xai_reasoning_effort name;
          p0 = [(''model'', JStr wire_name), (''messages'', JArr messages)];
          p1 = put_field ''reasoning_effort'' (map_option JStr (request_effort E config capability)) p0;
          p2 = put_field ''tools'' (if tools = [] then None else Some (JArr tools)) p1;
          p3 = put_field ''temperature''
                 (if reasoning \<or> xai then None else map_option (rq_f32_json E) (mo_temperature config)) p2;
          p4 = put_field (if reasoning then ''max_completion_tokens'' else ''max_tokens'')
                 (map_option (\<lambda>n. JInt (sint n)) (mo_max_tokens config)) p3;
          p5 = (if streaming
                then map_insert ''stream_options'' (JObj [(''include_usage'', JBool True)])
                       (map_insert ''stream'' (JBool True) p4)
                else p4)
      in foldl put_param p5 (unwrap_or (mo_request_params config) []))"

definition system_message :: "request_env \<Rightarrow> string \<Rightarrow> string \<Rightarrow> json" where
  "system_message E capability system =
     JObj [(''role'', JStr (if is_openai_responses_model (rq_model E)
              (fst (extract_reasoning_effort (rq_model E) capability)) then ''developer'' else ''system'')),
       (''content'', JStr system)]"

definition O1_MINI_ERROR :: string where
  "O1_MINI_ERROR = ''o1-mini model is not currently supported since aibuddy uses tool calling and o1-mini does not support it. Please use o1 or o3 models instead.''"

definition create_request_for_model_with_options ::
  "request_env \<Rightarrow> model_config \<Rightarrow> string \<Rightarrow> string \<Rightarrow> string \<Rightarrow> message list \<Rightarrow> tool list \<Rightarrow>
   image_format \<Rightarrow> bool \<Rightarrow> format_options \<Rightarrow> json result" where
  "create_request_for_model_with_options E config wire_name capability system messages tools fmt streaming opts =
     (if starts_with (mo_model_name config) ''o1-mini'' then Inl O1_MINI_ERROR
      else map_sum id
        (\<lambda>specs. JObj (request_payload E config wire_name capability
           (system_message E capability system # format_messages_with_options E messages fmt opts)
           (validate_tool_schemas specs) streaming))
        (format_tools tools))"

definition create_request_with_options ::
  "request_env \<Rightarrow> model_config \<Rightarrow> string \<Rightarrow> message list \<Rightarrow> tool list \<Rightarrow> image_format \<Rightarrow> bool \<Rightarrow>
   format_options \<Rightarrow> json result" where
  "create_request_with_options E config system messages tools fmt streaming opts =
     create_request_for_model_with_options E config
       (fst (extract_reasoning_effort (rq_model E) (mo_model_name config))) (mo_model_name config)
       system messages tools fmt streaming opts"

definition create_openai_request ::
  "request_env \<Rightarrow> model_config \<Rightarrow> string \<Rightarrow> message list \<Rightarrow> tool list \<Rightarrow> image_format \<Rightarrow> bool \<Rightarrow> json result" where
  "create_openai_request E config system messages tools fmt streaming =
     create_request_with_options E config system messages tools fmt streaming
       (default_format_options (unwrap_or (mo_supports_vision config) False))"

end
