(* ===== verification/Anthropic_Request.thy ===== *)
theory Anthropic_Request
  imports Openai_Payload Conversation_Pairing
begin

text \<open>
  \<open>crates/aibuddy-provider-types/src/formats/anthropic.rs\<close>, what is sent to Anthropic: messages,
  tools and the system text with their cache marks, and the thinking configuration.  The bundled
  table of models and \<open>rmcp\<close>'s \<open>object\<close> are parameters, besides those of the OpenAI format.
\<close>

datatype thinking_mode = ModeEnabled | ModeAdaptive | ModeAlwaysOnAdaptive

record canonical_facts =
  cf_thinking_mode :: "thinking_mode option"
  cf_reasoning :: "bool option"
  cf_temperature :: "bool option"

record anthropic_env =
  an_request :: request_env
  an_answers :: openai_env
  an_canonical :: "string \<Rightarrow> string \<Rightarrow> canonical_facts option"
  an_object :: "json \<Rightarrow> json_object"

datatype thinking_type = AdaptiveThinking | EnabledThinking | DisabledThinking
datatype cache_ttl_choice = FiveMinutes | OneHour

text \<open>\<open>value.get(key).and_then(as_str)\<close>.\<close>

definition field_str :: "json \<Rightarrow> string \<Rightarrow> string option" where
  "field_str v k = Option.bind (json_get v k) json_as_str"

text \<open>The \<open>string_enum!\<close> macro: \<open>FromStr\<close> and \<open>Display\<close>.\<close>

definition thinking_type_from_str :: "model_env \<Rightarrow> string \<Rightarrow> thinking_type result" where
  "thinking_type_from_str E s =
     (let t = me_lowercase E s
      in if t = ''adaptive'' then Inr AdaptiveThinking
         else if t = ''enabled'' then Inr EnabledThinking
         else if t = ''disabled'' then Inr DisabledThinking
         else Inl (''unknown ThinkingType: '' @ quoted t))"

fun thinking_type_display :: "thinking_type \<Rightarrow> string" where
  "thinking_type_display AdaptiveThinking = ''adaptive''"
| "thinking_type_display EnabledThinking = ''enabled''"
| "thinking_type_display DisabledThinking = ''disabled''"

definition cache_ttl_from_str :: "model_env \<Rightarrow> string \<Rightarrow> cache_ttl_choice result" where
  "cache_ttl_from_str E s =
     (let t = me_lowercase E s
      in if t = ''5m'' then Inr FiveMinutes
         else if t = ''1h'' then Inr OneHour
         else Inl (''unknown CacheTtl: '' @ quoted t))"

fun cache_ttl_display :: "cache_ttl_choice \<Rightarrow> string" where
  "cache_ttl_display FiveMinutes = ''5m''"
| "cache_ttl_display OneHour = ''1h''"

subsection \<open>Options\<close>

record anthropic_options =
  ao_preserve_unsigned :: bool
  ao_preserve_context :: bool
  ao_thinking_disabled :: bool
  ao_emit_clear :: bool
  ao_current_model :: "string option"
  ao_cache_disabled :: bool
  ao_cache_ttl :: "cache_ttl_choice option"

definition anthropic_options_default :: anthropic_options where
  "anthropic_options_default = \<lparr>ao_preserve_unsigned = False, ao_preserve_context = False,
     ao_thinking_disabled = False, ao_emit_clear = False, ao_current_model = None,
     ao_cache_disabled = False, ao_cache_ttl = None\<rparr>"

definition options_for_model :: "model_env \<Rightarrow> model_config \<Rightarrow> anthropic_options \<Rightarrow> anthropic_options" where
  "options_for_model E config opts =
     (let keeps = unwrap_or (bool_param config ''preserve_thinking_context'') (ao_preserve_context opts)
      in \<lparr>ao_preserve_unsigned =
            unwrap_or (bool_param config ''preserve_unsigned_thinking'') (ao_preserve_unsigned opts) \<or> keeps,
          ao_preserve_context = keeps,
          ao_thinking_disabled = (mo_reasoning config = Some False \<or> thinking_effort_of E config = Some EffortOff),
          ao_emit_clear = unwrap_or (bool_param config ''emit_clear_thinking'') (ao_emit_clear opts),
          ao_current_model = option_or (ao_current_model opts) (Some (mo_model_name config)),
          ao_cache_disabled = prompt_cache_disabled config,
          ao_cache_ttl = option_or (Option.bind (cache_ttl config) (\<lambda>ttl. result_ok (cache_ttl_from_str E ttl)))
            (ao_cache_ttl opts)\<rparr>)"

definition cache_control :: "anthropic_options \<Rightarrow> json" where
  "cache_control opts =
     (case ao_cache_ttl opts of
        Some OneHour \<Rightarrow> JObj [(''type'', JStr ''ephemeral''), (''ttl'', JStr ''1h'')]
      | _ \<Rightarrow> JObj [(''type'', JStr ''ephemeral'')])"

definition thinking_block_is_stale :: "message \<Rightarrow> string option \<Rightarrow> bool" where
  "thinking_block_is_stale m current =
     (case (current, inference (msg_metadata m)) of
        (Some name, Some inf_md) \<Rightarrow>
          (let requested = im_requested_model inf_md; resolved = unwrap_or (im_resolved_model inf_md) []
           in if requested = [] \<and> resolved = [] then False else name \<noteq> requested \<and> name \<noteq> resolved)
      | _ \<Rightarrow> False)"

subsection \<open>The thinking of a model\<close>

definition ANTHROPIC_PROVIDER_NAME :: string where "ANTHROPIC_PROVIDER_NAME = ''anthropic''"

definition canonical_thinking_mode :: "anthropic_env \<Rightarrow> string \<Rightarrow> string \<Rightarrow> thinking_mode option" where
  "canonical_thinking_mode A provider name = Option.bind (an_canonical A provider name) cf_thinking_mode"

definition requires_explicit_thinking_disable :: "anthropic_env \<Rightarrow> string \<Rightarrow> string \<Rightarrow> bool" where
  "requires_explicit_thinking_disable A provider name \<longleftrightarrow>
     canonical_thinking_mode A provider name = Some ModeAdaptive"

definition canonical_reasoning :: "anthropic_env \<Rightarrow> string \<Rightarrow> model_config \<Rightarrow> bool option" where
  "canonical_reasoning A provider config =
     Option.bind (an_canonical A provider (mo_model_name config)) cf_reasoning"

definition model_supports_temperature :: "anthropic_env \<Rightarrow> string \<Rightarrow> model_config \<Rightarrow> bool" where
  "model_supports_temperature A provider config =
     unwrap_or (Option.bind (an_canonical A provider (mo_model_name config)) cf_temperature) True"

definition i32_param :: "model_config \<Rightarrow> string \<Rightarrow> i32 option" where
  "i32_param config key = Option.bind (param_of config key) de_i32"

definition thinking_type_for_provider :: "anthropic_env \<Rightarrow> string \<Rightarrow> model_config \<Rightarrow> thinking_type" where
  "thinking_type_for_provider A provider config =
     (let mode = canonical_thinking_mode A provider (mo_model_name config);
          reasoning = option_or (mo_reasoning config) (canonical_reasoning A provider config);
          effort = thinking_effort_of (rq_model (an_request A)) config
      in if reasoning \<noteq> Some True then DisabledThinking
         else if mode = Some ModeAlwaysOnAdaptive then AdaptiveThinking
         else if effort = None \<and> i32_param config ''budget_tokens'' \<noteq> None
         then (if mode = Some ModeAdaptive then AdaptiveThinking else EnabledThinking)
         else if unwrap_or effort EffortOff = EffortOff then DisabledThinking
         else if mode = Some ModeAdaptive then AdaptiveThinking
         else EnabledThinking)"

definition thinking_type_of :: "anthropic_env \<Rightarrow> model_config \<Rightarrow> thinking_type" where
  "thinking_type_of A config = thinking_type_for_provider A ANTHROPIC_PROVIDER_NAME config"

definition anthropic_thinking_effort :: "anthropic_env \<Rightarrow> model_config \<Rightarrow> thinking_effort" where
  "anthropic_thinking_effort A config =
     unwrap_or (thinking_effort_of (rq_model (an_request A)) config) EffortHigh"

definition adaptive_output_effort :: "anthropic_env \<Rightarrow> model_config \<Rightarrow> thinking_effort" where
  "adaptive_output_effort A config =
     (case anthropic_thinking_effort A config of EffortOff \<Rightarrow> EffortHigh | effort \<Rightarrow> effort)"

text \<open>\<open>i32::max\<close>, \<open>min\<close> and \<open>saturating_sub\<close> compare and subtract signed values.\<close>

definition i32_max_of :: "i32 \<Rightarrow> i32 \<Rightarrow> i32" where
  "i32_max_of a b = (if sint a \<le> sint b then b else a)"

definition i32_min_of :: "i32 \<Rightarrow> i32 \<Rightarrow> i32" where
  "i32_min_of a b = (if sint a \<le> sint b then a else b)"

definition saturating_sub :: "i32 \<Rightarrow> i32 \<Rightarrow> i32" where
  "saturating_sub a b = word_of_int (clamp_i32 (sint a - sint b))"

definition effort_budget :: "thinking_effort \<Rightarrow> i32" where
  "effort_budget effort =
     (case effort of
        EffortOff \<Rightarrow> 1024 | EffortLow \<Rightarrow> 4000 | EffortMedium \<Rightarrow> 10000 | EffortHigh \<Rightarrow> 16000 | EffortMax \<Rightarrow> 32000)"

definition thinking_budget_tokens :: "anthropic_env \<Rightarrow> model_config \<Rightarrow> i32" where
  "thinking_budget_tokens A config =
     (case i32_param config ''budget_tokens'' of
        Some n \<Rightarrow> i32_max_of n 1024
      | None \<Rightarrow> effort_budget (anthropic_thinking_effort A config))"

definition MIN_ANSWER_TOKENS :: i32 where "MIN_ANSWER_TOKENS = 1024"

definition budgeted_thinking :: "anthropic_env \<Rightarrow> model_config \<Rightarrow> i32 \<Rightarrow> json_object \<Rightarrow> json_object" where
  "budgeted_thinking A config max_tokens obj =
     (let budget = i32_min_of (thinking_budget_tokens A config) (saturating_sub max_tokens MIN_ANSWER_TOKENS)
      in if sint MIN_ANSWER_TOKENS \<le> sint budget
         then map_insert ''thinking''
                (JObj [(''type'', JStr ''enabled''), (''budget_tokens'', JInt (sint budget))]) obj
         else obj)"

definition clear_thinking :: "json_object \<Rightarrow> json_object" where
  "clear_thinking obj =
     (case map_of obj ''thinking'' of
        Some (JObj t) \<Rightarrow> map_insert ''thinking'' (JObj (map_insert ''clear_thinking'' (JBool False) t)) obj
      | _ \<Rightarrow> obj)"

definition apply_thinking_config ::
  "anthropic_env \<Rightarrow> string \<Rightarrow> model_config \<Rightarrow> i32 \<Rightarrow> anthropic_options \<Rightarrow> json_object \<Rightarrow> json_object" where
  "apply_thinking_config A provider config max_tokens opts obj =
     (let o1 = (case thinking_type_for_provider A provider config of
                  AdaptiveThinking \<Rightarrow>
                    map_insert ''output_config''
                      (JObj [(''effort'', JStr (effort_display (adaptive_output_effort A config)))])
                      (map_insert ''thinking'' (JObj [(''type'', JStr ''adaptive'')]) obj)
                | EnabledThinking \<Rightarrow> budgeted_thinking A config max_tokens obj
                | DisabledThinking \<Rightarrow> obj);
          o2 = (if ao_preserve_context opts \<and> \<not> ao_thinking_disabled opts
                then (let o' = (if map_of o1 ''thinking'' = None then budgeted_thinking A config max_tokens o1 else o1)
                      in if ao_emit_clear opts then clear_thinking o' else o')
                else o1)
      in if map_of o2 ''thinking'' = None \<and> requires_explicit_thinking_disable A provider (mo_model_name config)
         then map_insert ''thinking'' (JObj [(''type'', JStr ''disabled'')]) o2 else o2)"

subsection \<open>The blocks of a message\<close>

definition ANTHROPIC_IMAGE_MEDIA_TYPES :: "string list" where
  "ANTHROPIC_IMAGE_MEDIA_TYPES = [''image/jpeg'', ''image/png'', ''image/gif'', ''image/webp'']"

definition args_to_input_value :: "json_object option \<Rightarrow> json" where
  "args_to_input_value args = JObj (unwrap_or args [])"

text \<open>What a block of a tool result adds: blocks, texts, and whether it is media.\<close>

definition result_parts ::
  "ext_env \<Rightarrow> content_block \<Rightarrow> json list \<times> string list \<times> bool" where
  "result_parts E b =
     (case b of
        CText t \<Rightarrow> (if tc_text t = [] then [] else [text_item (tc_text t)], [tc_text t], False)
      | CResource r a \<Rightarrow>
          (let text_of = extract_text_from_resource E r;
               as_text = (if text_of = [] then ([], [], False) else ([text_item text_of], [text_of], False))
           in case r of
                BlobResource uri mime blob \<Rightarrow>
                  (let mime = unwrap_or mime [] in
                   if mime \<in> set ANTHROPIC_IMAGE_MEDIA_TYPES
                   then ([JObj [(''type'', JStr ''image''), (''source'', base64_source mime blob)]], [], True)
                   else if mime = ''application/pdf''
                   then ([JObj [(''type'', JStr ''document''), (''source'', base64_source mime blob)]], [], True)
                   else as_text)
              | _ \<Rightarrow> as_text)
      | CImage img \<Rightarrow>
          if img_mime_type img \<in> set ANTHROPIC_IMAGE_MEDIA_TYPES
          then ([convert_image img ImageAnthropic], [], True)
          else (let marker = ''[Image: '' @ img_mime_type img @ '']'' in ([text_item marker], [marker], False))
      | _ \<Rightarrow> ([], [], False))"

definition result_content :: "ext_env \<Rightarrow> content_block list \<Rightarrow> json" where
  "result_content E bs =
     (let parts = map (result_parts E) bs
      in if list_ex (\<lambda>p. snd (snd p)) parts then JArr (concat (map fst parts))
         else JStr (join newline (concat (map (\<lambda>p. fst (snd p)) parts))))"

definition tool_use :: "tool_request \<Rightarrow> json" where
  "tool_use r =
     (case tq_tool_call r of
        Inr call \<Rightarrow> JObj [(''type'', JStr ''tool_use''), (''id'', JStr (tq_id r)),
          (''name'', JStr (ct_name call)), (''input'', args_to_input_value (ct_arguments call))]
      | Inl e \<Rightarrow> JObj [(''type'', JStr ''tool_use''), (''id'', JStr (tq_id r)),
          (''name'', JStr ''unparseable_tool_call''), (''input'', JObj [])])"

definition tool_result :: "request_env \<Rightarrow> tool_response \<Rightarrow> json" where
  "tool_result E r =
     (case tr_tool_result r of
        Inr result \<Rightarrow> JObj [(''type'', JStr ''tool_result''), (''tool_use_id'', JStr (tr_id r)),
          (''content'', result_content (rq_ext E) (cr_content result))]
      | Inl e \<Rightarrow> JObj [(''type'', JStr ''tool_result''), (''tool_use_id'', JStr (tr_id r)),
          (''content'', JStr (''Error: '' @ rq_print_error E e)), (''is_error'', JBool True)])"

definition thinking_item :: "anthropic_options \<Rightarrow> bool \<Rightarrow> thinking_block \<Rightarrow> json list" where
  "thinking_item opts stale t =
     (if ao_thinking_disabled opts then []
      else if signature t \<noteq> [] then
        (if stale then []
         else [JObj [(''type'', JStr ''thinking''), (''thinking'', JStr (thinking t)),
                (''signature'', JStr (signature t))]])
      else if ao_preserve_unsigned opts \<and> thinking t \<noteq> []
      then [JObj [(''type'', JStr ''thinking''), (''thinking'', JStr (thinking t))]]
      else [])"

definition document_item :: "role \<Rightarrow> document_content \<Rightarrow> json" where
  "document_item r document =
     (if r \<noteq> User then text_item (unsupported_document_text document ASSISTANT_ROLE_REASON)
      else if document_media_type_is_supported (doc_mime_type document)
      then convert_document document DocumentAnthropic
      else text_item (unsupported_document_text document UNSUPPORTED_MEDIA_TYPE_REASON))"

definition anthropic_items ::
  "request_env \<Rightarrow> anthropic_options \<Rightarrow> message \<Rightarrow> message_content \<Rightarrow> json list" where
  "anthropic_items E opts m b =
     (let stale = thinking_block_is_stale m (ao_current_model opts) in
      case b of
        Text t \<Rightarrow> if trim (tc_text t) = [] then [] else [text_item (tc_text t)]
      | ToolRequest r \<Rightarrow> [tool_use r]
      | ToolResponse r \<Rightarrow> [tool_result E r]
      | Thinking t \<Rightarrow> thinking_item opts stale t
      | RedactedThinking data \<Rightarrow>
          if ao_thinking_disabled opts \<or> stale then []
          else [JObj [(''type'', JStr ''redacted_thinking''), (''data'', JStr data)]]
      | Image img \<Rightarrow> [convert_image img ImageAnthropic]
      | Document document \<Rightarrow> [document_item (msg_role m) document]
      | _ \<Rightarrow> [])"

definition anthropic_message :: "role \<Rightarrow> json list \<Rightarrow> json" where
  "anthropic_message r items = JObj [(''role'', JStr (role_name r)), (''content'', JArr items)]"

definition anthropic_message_of :: "request_env \<Rightarrow> anthropic_options \<Rightarrow> message \<Rightarrow> json option" where
  "anthropic_message_of E opts m =
     (let items = concat (map (anthropic_items E opts m) (msg_content m))
      in if items = [] then None else Some (anthropic_message (msg_role m) items))"

subsection \<open>Cache marks\<close>

text \<open>The mark on the last block of a message, when there is an object to put it on.\<close>

definition mark_message :: "json \<Rightarrow> json \<Rightarrow> json option" where
  "mark_message mark v =
     (case Option.bind (json_get v ''content'') json_as_array of
        None \<Rightarrow> None
      | Some blocks \<Rightarrow>
          (case last_opt blocks of
             Some (JObj b) \<Rightarrow>
               Some (update_field ''content''
                 (\<lambda>_. JArr (butlast blocks @ [JObj (map_insert ''cache_control'' mark b)])) v)
           | _ \<Rightarrow> None))"

text \<open>From the last message backwards, until two user messages are marked.\<close>

fun mark_users :: "json \<Rightarrow> nat \<Rightarrow> json list \<Rightarrow> json list" where
  "mark_users mark n [] = []"
| "mark_users mark n (v # vs) =
     (if \<not> get_equals v ''role'' (JStr ''user'') then v # mark_users mark n vs
      else
        (case mark_message mark v of
           None \<Rightarrow> v # mark_users mark n vs
         | Some v' \<Rightarrow> if 2 \<le> n + 1 then v' # vs else v' # mark_users mark (n + 1) vs))"

definition anthropic_format_with_options ::
  "request_env \<Rightarrow> message list \<Rightarrow> anthropic_options \<Rightarrow> json list" where
  "anthropic_format_with_options E ms opts =
     (let formatted = filter_map (anthropic_message_of E opts) ms;
          present = (if formatted = [] then [anthropic_message User [text_item ''Ignore'']] else formatted)
      in if ao_cache_disabled opts then present
         else rev (mark_users (cache_control opts) 0 (rev present)))"

definition anthropic_format_messages :: "request_env \<Rightarrow> message list \<Rightarrow> json list" where
  "anthropic_format_messages E ms = anthropic_format_with_options E ms anthropic_options_default"

definition anthropic_flavored_input_schema :: "json_object \<Rightarrow> json_object" where
  "anthropic_flavored_input_schema schema = (if schema = [] then [(''type'', JStr ''object'')] else schema)"

fun unique_tools :: "string list \<Rightarrow> tool list \<Rightarrow> tool list" where
  "unique_tools seen [] = []"
| "unique_tools seen (t # ts) =
     (if tl_name t \<in> set seen then unique_tools seen ts else t # unique_tools (tl_name t # seen) ts)"

definition anthropic_tool :: "tool \<Rightarrow> json_object" where
  "anthropic_tool t = [(''name'', JStr (tl_name t)),
     (''description'', case tl_description t of Some d \<Rightarrow> JStr d | None \<Rightarrow> JNull),
     (''input_schema'', JObj (anthropic_flavored_input_schema (tl_input_schema t)))]"

definition anthropic_format_tools :: "tool list \<Rightarrow> anthropic_options \<Rightarrow> json list" where
  "anthropic_format_tools ts opts =
     (let specs = map anthropic_tool (unique_tools [] ts)
      in if ao_cache_disabled opts \<or> specs = [] then map JObj specs
         else map JObj (butlast specs @ [map_insert ''cache_control'' (cache_control opts) (last specs)]))"

definition format_system :: "string \<Rightarrow> anthropic_options \<Rightarrow> json" where
  "format_system system opts =
     JArr [JObj ([(''type'', JStr ''text''), (''text'', JStr system)] @
       (if ao_cache_disabled opts then [] else [(''cache_control'', cache_control opts)]))]"

subsection \<open>The request\<close>

definition anthropic_payload ::
  "anthropic_env \<Rightarrow> string \<Rightarrow> model_config \<Rightarrow> string \<Rightarrow> string \<Rightarrow> json list \<Rightarrow> json list \<Rightarrow>
   anthropic_options \<Rightarrow> json_object" where
  "anthropic_payload A provider config wire_name system messages tools opts =
     (let max_tokens = max_output_tokens config;
          p0 = [(''model'', JStr wire_name), (''messages'', JArr messages), (''max_tokens'', JInt (sint max_tokens))];
          p1 = put_field ''system'' (if system = [] then None else Some (format_system system opts)) p0;
          p2 = put_field ''tools'' (if tools = [] then None else Some (JArr tools)) p1;
          p3 = put_field ''temperature''
                 (if model_supports_temperature A provider config
                  then map_option (rq_f32_json (an_request A)) (mo_temperature config) else None) p2
      in apply_thinking_config A provider config max_tokens opts p3)"

definition create_anthropic_request_for_model ::
  "anthropic_env \<Rightarrow> string \<Rightarrow> model_config \<Rightarrow> string \<Rightarrow> string \<Rightarrow> message list \<Rightarrow> tool list \<Rightarrow>
   anthropic_options \<Rightarrow> json result" where
  "create_anthropic_request_for_model A provider config wire_name system messages tools opts =
     (let opts = options_for_model (rq_model (an_request A)) config opts;
          formatted = anthropic_format_with_options (an_request A) messages opts
      in if formatted = [] then Inl ''No valid messages to send to Anthropic API''
         else Inr (JObj (anthropic_payload A provider config wire_name system formatted
                (anthropic_format_tools tools opts) opts)))"

definition create_anthropic_request ::
  "anthropic_env \<Rightarrow> string \<Rightarrow> model_config \<Rightarrow> string \<Rightarrow> message list \<Rightarrow> tool list \<Rightarrow>
   anthropic_options \<Rightarrow> json result" where
  "create_anthropic_request A provider config system messages tools opts =
     create_anthropic_request_for_model A provider config (mo_model_name config) system messages tools opts"

end
