(* ===== verification/Cache_Semantics.thy ===== *)
theory Cache_Semantics
  imports Openai_Payload
begin

text \<open>
  \<open>crates/aibuddy-provider-types/src/cache_semantics.rs\<close>: how the prompt cache of a model is used,
  and the breakpoints put into an OpenAI-style payload that is passed on to Anthropic.
\<close>

datatype cache_semantics =
    ExplicitBreakpoints nat
  | ImplicitTolerant
  | ImplicitStrict
  | Uncached

definition cache_semantics_for_model :: "model_env \<Rightarrow> string \<Rightarrow> string \<Rightarrow> cache_semantics" where
  "cache_semantics_for_model E provider name =
     (if provider \<in> {''anthropic'', ''minimax'', ''zai'', ''kimi_code''} then ExplicitBreakpoints 4
      else if provider \<in> {''aws_bedrock'', ''databricks'', ''gcp_vertex_ai''} \<and> str_contains name ''claude''
      then ExplicitBreakpoints 4
      else if provider \<in> {''openrouter'', ''litellm''} \<and> starts_with name ''anthropic/''
      then ExplicitBreakpoints 4
      else if provider \<in> {''openai'', ''azure_openai'', ''github_copilot''}
      then (if is_openai_responses_model E name then ImplicitStrict else ImplicitTolerant)
      else if provider \<in> {''moonshot'', ''custom_deepseek'', ''groq'', ''together'', ''fireworks-ai'', ''mistral'',
          ''zhipu'', ''alibaba''} then ImplicitTolerant
      else if provider \<in> {''snowflake'', ''sagemaker_tgi''} then Uncached
      else ImplicitStrict)"

definition uses_explicit_breakpoints :: "cache_semantics \<Rightarrow> bool" where
  "uses_explicit_breakpoints c \<longleftrightarrow> (case c of ExplicitBreakpoints n \<Rightarrow> True | _ \<Rightarrow> False)"

definition LOOKBACK_BLOCKS :: nat where "LOOKBACK_BLOCKS = 20"

definition EPHEMERAL :: json where "EPHEMERAL = JObj [(''type'', JStr ''ephemeral'')]"

definition message_blocks :: "json \<Rightarrow> nat" where
  "message_blocks v =
     (case json_get v ''content'' of Some (JArr blocks) \<Rightarrow> length blocks | Some (JStr s) \<Rightarrow> 1 | _ \<Rightarrow> 0) +
     length (wire_calls v) + (if json_get v ''reasoning_content'' \<noteq> None then 1 else 0)"

text \<open>The number of blocks up to the end of each message.\<close>

fun offsets_from :: "nat \<Rightarrow> json list \<Rightarrow> nat list" where
  "offsets_from n [] = []"
| "offsets_from n (v # vs) = (n + message_blocks v) # offsets_from (n + message_blocks v) vs"

definition cumulative_block_offsets :: "json list \<Rightarrow> nat list" where
  "cumulative_block_offsets vs = offsets_from 0 vs"

definition has_cacheable_content :: "json \<Rightarrow> bool" where
  "has_cacheable_content v \<longleftrightarrow>
     (case json_get v ''content'' of
        Some (JStr s) \<Rightarrow> trim s \<noteq> []
      | Some (JArr blocks) \<Rightarrow>
          is_some_and (Option.bind (last_opt blocks) json_as_object) (\<lambda>b.
            (let ty = Option.bind (map_of b ''type'') json_as_str in
             if ty = Some ''text''
             then is_some_and (Option.bind (map_of b ''text'') json_as_str) (\<lambda>s. trim s \<noteq> [])
             else ty = Some ''image_url''))
      | _ \<Rightarrow> False)"

definition mark_content :: "json \<Rightarrow> json" where
  "mark_content content =
     (case content of
        JStr s \<Rightarrow> JArr [JObj [(''type'', JStr ''text''), (''text'', JStr s), (''cache_control'', EPHEMERAL)]]
      | JArr blocks \<Rightarrow>
          (case last_opt blocks of
             Some (JObj b) \<Rightarrow> JArr (butlast blocks @ [JObj (map_insert ''cache_control'' EPHEMERAL b)])
           | _ \<Rightarrow> content)
      | _ \<Rightarrow> content)"

definition mark_last_content_block :: "json \<Rightarrow> json" where
  "mark_last_content_block v =
     (if has_cacheable_content v then update_field ''content'' mark_content v else v)"

text \<open>The last index below a bound that satisfies a condition.\<close>

fun last_below :: "nat \<Rightarrow> (nat \<Rightarrow> bool) \<Rightarrow> nat option" where
  "last_below 0 P = None"
| "last_below (Suc n) P = (if P n then Some n else last_below n P)"

definition primary_breakpoint :: "json list \<Rightarrow> nat option" where
  "primary_breakpoint vs = last_below (length vs) (\<lambda>i. has_cacheable_content (vs ! i))"

text \<open>Looked for in the messages after the primary one was marked.\<close>

definition secondary_breakpoint :: "nat list \<Rightarrow> json list \<Rightarrow> nat \<Rightarrow> nat option" where
  "secondary_breakpoint offsets vs primary =
     (let target = offsets ! primary - LOOKBACK_BLOCKS
      in last_below primary (\<lambda>i. offsets ! i \<le> target \<and> has_cacheable_content (vs ! i)))"

definition mark_at :: "nat \<Rightarrow> json list \<Rightarrow> json list" where
  "mark_at i vs = vs[i := mark_last_content_block (vs ! i)]"

definition mark_conversation :: "json list \<Rightarrow> json list" where
  "mark_conversation vs =
     (let offsets = cumulative_block_offsets vs in
      case primary_breakpoint vs of
        None \<Rightarrow> vs
      | Some primary \<Rightarrow>
          (let vs1 = mark_at primary vs
           in case secondary_breakpoint offsets vs1 primary of
                Some secondary \<Rightarrow> mark_at secondary vs1
              | None \<Rightarrow> vs1))"

fun mark_system :: "json list \<Rightarrow> json list" where
  "mark_system [] = []"
| "mark_system (v # vs) =
     (if get_equals v ''role'' (JStr ''system'') then mark_last_content_block v # vs else v # mark_system vs)"

definition mark_last_tool :: "json \<Rightarrow> json" where
  "mark_last_tool tools =
     (case tools of
        JArr ts \<Rightarrow>
          (case last_opt ts of
             Some t \<Rightarrow>
               JArr (butlast ts @ [update_field ''function''
                 (\<lambda>f. case f of JObj m \<Rightarrow> JObj (map_insert ''cache_control'' EPHEMERAL m) | _ \<Rightarrow> f) t])
           | None \<Rightarrow> tools)
      | _ \<Rightarrow> tools)"

definition apply_chat_payload_breakpoints :: "json \<Rightarrow> json" where
  "apply_chat_payload_breakpoints payload =
     update_field ''tools'' mark_last_tool
       (update_field ''messages''
         (\<lambda>v. case v of JArr vs \<Rightarrow> JArr (mark_system (mark_conversation vs)) | _ \<Rightarrow> v) payload)"

subsection \<open>How many breakpoints there are\<close>

definition cache_marked :: "json \<Rightarrow> bool" where
  "cache_marked v \<longleftrightarrow> json_get v ''cache_control'' \<noteq> None"

definition content_blocks :: "json \<Rightarrow> json list" where
  "content_blocks v = unwrap_or (Option.bind (json_get v ''content'') json_as_array) []"

definition message_marks :: "json list \<Rightarrow> nat" where
  "message_marks vs = sum_list (map (\<lambda>v. length (filter cache_marked (content_blocks v))) vs)"

lemma message_marks_simps [simp]:
  "message_marks [] = 0"
  "message_marks (v # vs) = length (filter cache_marked (content_blocks v)) + message_marks vs"
  "message_marks (vs @ ws) = message_marks vs + message_marks ws"
  by (simp_all add: message_marks_def)

lemma last_below_SomeD: "last_below n P = Some i \<Longrightarrow> i < n \<and> P i \<and> (\<forall>j. i < j \<and> j < n \<longrightarrow> \<not> P j)"
  by (induction n) (auto split: if_splits simp: less_Suc_eq)

lemma update_field_content:
  "content_blocks (update_field ''content'' f v) =
     (case json_get v ''content'' of Some x \<Rightarrow> unwrap_or (json_as_array (f x)) [] | None \<Rightarrow> [])"
  by (auto simp: update_field_def content_blocks_def split: json.split option.split)

lemma mark_content_marks:
  "length (filter cache_marked (unwrap_or (json_as_array (mark_content x)) [])) \<le>
     Suc (length (filter cache_marked (unwrap_or (json_as_array x) [])))"
proof (cases x)
  case (JArr blocks)
  show ?thesis
  proof (cases blocks rule: rev_cases)
    case (snoc bs b)
    then show ?thesis using JArr by (cases b) (simp_all add: mark_content_def)
  qed (simp add: JArr mark_content_def)
qed (simp_all add: mark_content_def)

lemma mark_last_marks:
  "length (filter cache_marked (content_blocks (mark_last_content_block v))) \<le>
     Suc (length (filter cache_marked (content_blocks v)))"
proof (cases "json_get v ''content''")
  case (Some x)
  then have "content_blocks v = unwrap_or (json_as_array x) []" by (simp add: content_blocks_def)
  with Some mark_content_marks [of x] show ?thesis
    by (simp add: mark_last_content_block_def update_field_content)
qed (simp add: mark_last_content_block_def update_field_content)

lemma mark_at_marks: "i < length vs \<Longrightarrow> message_marks (mark_at i vs) \<le> Suc (message_marks vs)"
proof -
  assume i: "i < length vs"
  have "message_marks vs = message_marks (take i vs) + message_marks (vs ! i # drop (Suc i) vs)"
    using i by (metis Cons_nth_drop_Suc append_take_drop_id message_marks_simps(3))
  with i mark_last_marks [of "vs ! i"] show ?thesis by (simp add: mark_at_def upd_conv_take_nth_drop)
qed

lemma mark_system_marks: "message_marks (mark_system vs) \<le> Suc (message_marks vs)"
proof (induction vs)
  case (Cons v vs)
  then show ?case using mark_last_marks [of v] by simp
qed simp

lemma mark_conversation_marks: "message_marks (mark_conversation vs) \<le> message_marks vs + 2"
proof (cases "primary_breakpoint vs")
  case (Some primary)
  then have "primary < length vs" by (auto simp: primary_breakpoint_def dest: last_below_SomeD)
  then have 1: "message_marks (mark_at primary vs) \<le> Suc (message_marks vs)" by (rule mark_at_marks)
  show ?thesis
  proof (cases "secondary_breakpoint (cumulative_block_offsets vs) (mark_at primary vs) primary")
    case None
    with Some 1 show ?thesis by (simp add: mark_conversation_def)
  next
    case (Some secondary)
    then have "secondary < length (mark_at primary vs)" using \<open>primary < length vs\<close>
      by (auto simp: secondary_breakpoint_def Let_def mark_at_def dest!: last_below_SomeD)
    from mark_at_marks [OF this] 1 Some \<open>primary_breakpoint vs = Some primary\<close> show ?thesis
      by (simp add: mark_conversation_def)
  qed
qed (simp add: mark_conversation_def)

end
