(* ===== verification/Openai_Wire_Props.thy ===== *)
theory Openai_Wire_Props
  imports Openai_Payload Conversation_Pairing
begin

text \<open>
  What is sent: every tool message answers a call that was sent before it and every call is
  answered after it, whatever messages are merged and wherever the thoughts go; the parameters
  of a request never touch what the request is; schemas of objects are complete.
\<close>

subsection \<open>Lookups\<close>

lemma json_equal_string [simp]: "json_equal v (JStr s) \<longleftrightarrow> v = JStr s"
  by (cases v) auto

lemma get_equals_string [simp]: "get_equals v k (JStr s) \<longleftrightarrow> json_get v k = Some (JStr s)"
  by (auto simp: get_equals_def is_some_and_iff)

lemma insert_entries_lookup:
  "map_of (foldl insert_entry m ps) k = (case map_of (rev ps) k of Some v \<Rightarrow> Some v | None \<Rightarrow> map_of m k)"
  by (induction ps arbitrary: m) (auto simp: insert_entry_def map_add_def split: option.splits)

lemma swap_remove_found:
  assumes "k \<notin> set (map fst m1)"
  shows "swap_remove k (m1 @ (k, v) # m2) = (if m2 = [] then m1 else m1 @ last m2 # butlast m2)"
proof -
  have t: "length (takeWhile (\<lambda>kv. fst kv \<noteq> k) (m1 @ (k, v) # xs)) = length m1" for xs
    using assms by (subst takeWhile_append2) auto
  show ?thesis
    by (cases m2 rule: rev_cases) (simp_all add: swap_remove_def t butlast_append list_update_append)
qed

lemma removed_lookup:
  assumes "distinct (map fst (m1 @ (k, v) # m2))"
  shows "map_of (m1 @ m2) j = (if j = k then None else map_of (m1 @ (k, v) # m2) j)"
proof (cases "j = k")
  case True
  have "map_of m1 k = None" "map_of m2 k = None" using assms by (auto simp: map_of_eq_None_iff)
  with True show ?thesis by (simp add: map_add_def)
qed (auto simp: map_add_def split: option.split)

lemma swap_remove_lookup:
  assumes "distinct (map fst m)"
  shows "map_of (swap_remove k m) j = (if j = k then None else map_of m j)"
    "distinct (map fst (swap_remove k m))"
proof -
  have "map_of (swap_remove k m) j = (if j = k then None else map_of m j) \<and> distinct (map fst (swap_remove k m))"
  proof (cases "k \<in> set (map fst m)")
    case True
    then have "\<exists>kv \<in> set m. fst kv = k" by force
    from split_list_first_prop [OF this] obtain m1 kv m2 where "m = m1 @ kv # m2" "fst kv = k"
      "\<forall>p \<in> set m1. fst p \<noteq> k" by blast
    then obtain v where m: "m = m1 @ (k, v) # m2" "k \<notin> set (map fst m1)" by (cases kv) auto
    have sw: "swap_remove k m = (if m2 = [] then m1 else m1 @ last m2 # butlast m2)"
      unfolding m(1) by (rule swap_remove_found [OF m(2)])
    have set: "set (swap_remove k m) = set (m1 @ m2)"
      unfolding sw by (cases m2 rule: rev_cases) auto
    have d: "distinct (map fst (swap_remove k m))"
      using assms unfolding sw unfolding m(1) by (cases m2 rule: rev_cases) auto
    moreover have "distinct (map fst (m1 @ m2))" using assms m by auto
    ultimately have "map_of (swap_remove k m) = map_of (m1 @ m2)"
      using set by (simp only: map_of_inject_set)
    then show ?thesis using d removed_lookup [of m1 k v m2 j] assms unfolding m(1) by presburger
  next
    case False
    then have "map_of m k = None" by (simp add: map_of_eq_None_iff)
    with False assms show ?thesis by (auto simp: swap_remove_def)
  qed
  then show "map_of (swap_remove k m) j = (if j = k then None else map_of m j)"
    "distinct (map fst (swap_remove k m))" by auto
qed

subsection \<open>Calls and answers on the wire\<close>

definition call_id :: "json \<Rightarrow> string" where
  "call_id v = str_or_empty (json_at v ''id'')"

definition wire_event :: "json \<Rightarrow> tool_event list" where
  "wire_event v =
     (if json_get v ''role'' = Some (JStr ''assistant'') then map (\<lambda>c. Req (call_id c)) (wire_calls v)
      else if json_get v ''role'' = Some (JStr ''tool'') then [Resp (str_or_empty (json_at v ''tool_call_id''))]
      else [])"

definition wire_events :: "json list \<Rightarrow> tool_event list" where
  "wire_events vs = concat (map wire_event vs)"

lemma wire_events_simps [simp]:
  "wire_events [] = []" "wire_events (v # vs) = wire_event v @ wire_events vs"
  "wire_events (vs @ ws) = wire_events vs @ wire_events ws"
  by (simp_all add: wire_events_def)

text \<open>Requests may be moved to the front of responses.\<close>

inductive hoists :: "tool_event list \<Rightarrow> tool_event list \<Rightarrow> bool" where
  hoists_refl: "hoists es es"
| hoists_swap: "hoists es (p @ Resp j # Req i # s) \<Longrightarrow> hoists es (p @ Req i # Resp j # s)"

lemma hoists_trans: "hoists ds es \<Longrightarrow> hoists cs ds \<Longrightarrow> hoists cs es"
  by (induction ds es rule: hoists.induct) (auto intro: hoists.intros)

lemma hoists_over: "hoists es (p @ Resp j # map Req is @ s) \<Longrightarrow> hoists es (p @ map Req is @ Resp j # s)"
proof (induction "is" arbitrary: p)
  case (Cons i is')
  from Cons.prems have "hoists es (p @ Req i # Resp j # map Req is' @ s)" by (auto intro: hoists_swap)
  with Cons.IH [of "p @ [Req i]"] show ?case by simp
qed simp

text \<open>The two halves of \<open>paired\<close>, read from left to right.\<close>

fun answered_from :: "string set \<Rightarrow> tool_event list \<Rightarrow> bool" where
  "answered_from P [] = True"
| "answered_from P (Req i # es) = answered_from (insert i P) es"
| "answered_from P (Resp i # es) = (i \<in> P \<and> answered_from P es)"

fun all_asked :: "tool_event list \<Rightarrow> bool" where
  "all_asked [] = True"
| "all_asked (Req i # es) = (Resp i \<in> set es \<and> all_asked es)"
| "all_asked (Resp i # es) = all_asked es"

lemma after_other:
  "e \<noteq> x i \<Longrightarrow> (\<exists>post. e # es = pre @ x i # post) \<longleftrightarrow> (\<exists>pre' post. pre = e # pre' \<and> es = pre' @ x i # post)"
  by (auto simp: Cons_eq_append_conv)

lemma at_front:
  "(\<exists>post. Resp i # es = pre @ Resp j # post) \<longleftrightarrow>
   pre = [] \<and> j = i \<or> (\<exists>pre' post. pre = Resp i # pre' \<and> es = pre' @ Resp j # post)"
  by (auto simp: Cons_eq_append_conv)

lemma answered_from_iff:
  "answered_from P es \<longleftrightarrow> (\<forall>pre i. (\<exists>post. es = pre @ Resp i # post) \<longrightarrow> i \<in> P \<or> Req i \<in> set pre)"
proof (induction P es rule: answered_from.induct)
  case (2 P i es)
  have "(\<forall>pre j. (\<exists>post. Req i # es = pre @ Resp j # post) \<longrightarrow> j \<in> P \<or> Req j \<in> set pre) \<longleftrightarrow>
      (\<forall>pre j. (\<exists>post. es = pre @ Resp j # post) \<longrightarrow> j \<in> insert i P \<or> Req j \<in> set pre)"
    by (simp add: after_other [where x = Resp] del: append_Cons) (metis insert_iff set_ConsD list.set_intros tool_event.inject(1))
  with 2 show ?case by (simp only: answered_from.simps)
next
  case (3 P i es)
  have "(\<forall>pre j. (\<exists>post. Resp i # es = pre @ Resp j # post) \<longrightarrow> j \<in> P \<or> Req j \<in> set pre) \<longleftrightarrow>
      i \<in> P \<and> (\<forall>pre j. (\<exists>post. es = pre @ Resp j # post) \<longrightarrow> j \<in> P \<or> Req j \<in> set pre)"
    by (simp add: at_front del: append_Cons) (metis list.set_intros(2) set_ConsD tool_event.distinct(1))
  with 3 show ?case by (simp only: answered_from.simps)
qed simp

lemma all_asked_iff: "all_asked es \<longleftrightarrow> (\<forall>pre i post. es = pre @ Req i # post \<longrightarrow> Resp i \<in> set post)"
  by (induction es rule: all_asked.induct) (auto simp: Cons_eq_append_conv)

lemma paired_iff: "paired es \<longleftrightarrow> answered_from {} es \<and> all_asked es"
  by (simp add: paired_def answered_from_iff all_asked_iff)

lemma answered_swap: "answered_from P (p @ Resp j # Req i # s) \<Longrightarrow> answered_from P (p @ Req i # Resp j # s)"
proof (induction p arbitrary: P)
  case (Cons e p)
  then show ?case by (cases e) simp_all
qed simp

lemma asked_swap: "all_asked (p @ Resp j # Req i # s) \<Longrightarrow> all_asked (p @ Req i # Resp j # s)"
proof (induction p)
  case (Cons e p)
  then show ?case by (cases e) auto
qed auto

lemma hoists_paired: "hoists es es' \<Longrightarrow> paired es \<Longrightarrow> paired es'"
  by (induction rule: hoists.induct) (auto simp: paired_iff intro: answered_swap asked_swap)

subsection \<open>Merging keeps the pairing\<close>

lemma calls_tools_event: "calls_tools v \<Longrightarrow> wire_event v = map Req (map call_id (wire_calls v))"
  by (simp add: calls_tools_def wire_event_def comp_def)

lemma image_message_event: "is_image_only_user_message v \<Longrightarrow> wire_event v = []"
  by (simp add: is_image_only_user_message_def wire_event_def)

lemma image_messages_events: "\<forall>v \<in> set vs. is_image_only_user_message v \<Longrightarrow> wire_events vs = []"
  by (simp add: wire_events_def image_message_event)

lemma add_calls_event:
  assumes "calls_tools v"
  shows "wire_event (add_calls calls v) = wire_event v @ map Req (map call_id calls)"
proof -
  from assms obtain m where m: "v = JObj m" by (cases v) (auto simp: calls_tools_def)
  with assms obtain w where w: "map_of m ''tool_calls'' = Some w" "json_as_array w \<noteq> None"
    by (auto simp: calls_tools_def wire_calls_def unwrap_or_def bind_eq_Some_conv split: option.splits)
  then obtain own where "w = JArr own" by (cases w) auto
  with m w have v: "v = JObj m" "map_of m ''tool_calls'' = Some (JArr own)" by simp_all
  with assms show ?thesis
    by (simp add: calls_tools_def add_calls_def wire_event_def wire_calls_def comp_def)
qed

lemma collect_split_hoists:
  "collect_split base vs = (calls, between, rest) \<Longrightarrow>
   hoists (p @ wire_events vs) (p @ map Req (map call_id calls) @ wire_events between @ wire_events rest)"
proof (induction base vs arbitrary: calls between rest p rule: collect_split.induct)
  case (2 base r rs)
  show ?case
  proof (cases "get_equals r ''role'' (JStr ''tool'')")
    case True
    then have r: "wire_event r = [Resp (str_or_empty (json_at r ''tool_call_id''))]" by (simp add: wire_event_def)
    show ?thesis
    proof (cases "dropWhile is_image_only_user_message rs")
      case Nil
      with 2(2) True show ?thesis by (auto simp del: dropWhile_eq_Nil_conv intro: hoists_refl)
    next
      case (Cons v later)
      show ?thesis
      proof (cases "is_split_of base v")
        case split: True
        obtain calls' between' where later: "collect_split base later = (calls', between', rest)"
          "calls = wire_calls v @ calls'" "between = r # takeWhile is_image_only_user_message rs @ between'"
          using 2(2) True Cons split by (auto split: prod.splits)
        have images: "wire_events (takeWhile is_image_only_user_message rs) = []"
          by (rule image_messages_events) (auto dest: set_takeWhileD)
        have rs: "wire_events rs = map Req (map call_id (wire_calls v)) @ wire_events later"
          using split calls_tools_event [of v] images takeWhile_dropWhile_id [of is_image_only_user_message rs] Cons
          by (metis append_Nil is_split_of_def wire_events_simps(2,3))
        let ?r = "Resp (str_or_empty (json_at r ''tool_call_id''))"
        have "hoists (p @ wire_events (r # rs)) (p @ ?r # map Req (map call_id calls) @ wire_events between' @ wire_events rest)"
          using "2.IH" [OF _ Cons split later(1), of "p @ ?r # map Req (map call_id (wire_calls v))"] True
          by (simp add: r rs later(2))
        then have "hoists (p @ wire_events (r # rs)) (p @ map Req (map call_id calls) @ ?r # wire_events between' @ wire_events rest)"
          by (rule hoists_over)
        then show ?thesis by (simp add: later(3) r images)
      next
        case False
        with 2(2) True Cons show ?thesis by (auto intro: hoists_refl)
      qed
    qed
  next
    case False
    with 2(2) show ?thesis by (auto intro: hoists_refl)
  qed
qed (auto intro: hoists_refl)

lemma merge_split_hoists: "hoists (p @ wire_events vs) (p @ wire_events (merge_split_tool_call_messages vs))"
proof (induction vs arbitrary: p rule: merge_split_tool_call_messages.induct)
  case (2 v vs)
  have keep: "hoists (p @ wire_events (v # vs)) (p @ wire_events (v # merge_split_tool_call_messages vs))"
    if "\<And>q. hoists (q @ wire_events vs) (q @ wire_events (merge_split_tool_call_messages vs))"
    using that [of "p @ wire_event v"] by simp
  show ?case
  proof (cases "if calls_tools v then json_get v ''reasoning_content'' else None")
    case None
    with keep 2(1) show ?thesis by simp
  next
    case (Some base)
    then have v: "calls_tools v" by (simp split: if_splits)
    obtain calls between rest where split: "collect_split base vs = (calls, between, rest)"
      by (metis prod_cases3)
    show ?thesis
    proof (cases "calls = []")
      case True
      with keep "2.IH"(2) Some split show ?thesis by simp
    next
      case False
      let ?p = "p @ wire_event v"
      have "hoists (?p @ wire_events vs) (?p @ map Req (map call_id calls) @ wire_events between @ wire_events rest)"
        by (rule collect_split_hoists [OF split])
      moreover have "hoists (?p @ map Req (map call_id calls) @ wire_events between @ wire_events rest)
          (?p @ map Req (map call_id calls) @ wire_events between @ wire_events (merge_split_tool_call_messages rest))"
        using "2.IH"(3) [OF Some split [symmetric] refl refl False, of "?p @ map Req (map call_id calls) @ wire_events between"]
        by simp
      ultimately have "hoists (?p @ wire_events vs)
          (?p @ map Req (map call_id calls) @ wire_events between @ wire_events (merge_split_tool_call_messages rest))"
        by (rule hoists_trans [rotated])
      then show ?thesis using Some split False by (simp add: add_calls_event [OF v])
    qed
  qed
qed (simp add: hoists_refl)

subsection \<open>Thoughts in the content change no call\<close>

definition keyed_object :: "json \<Rightarrow> bool" where
  "keyed_object v \<longleftrightarrow> (\<exists>m. v = JObj m \<and> distinct (map fst m))"

lemma inline_reasoning_event:
  assumes "keyed_object v"
  shows "wire_event (inline_reasoning f v) = wire_event v"
proof -
  from assms obtain m where v: "v = JObj m" "distinct (map fst m)" by (auto simp: keyed_object_def)
  have "json_get (inline_reasoning f v) k = map_of m k" if "k \<notin> {''content'', ''reasoning_content''}" for k
    using that by (auto simp: inline_reasoning_def v(1) Let_def swap_remove_lookup [OF v(2)] split: option.split)
  then show ?thesis by (simp add: wire_event_def wire_calls_def json_at_def v(1))
qed

lemma inline_content_events:
  "list_all keyed_object vs \<Longrightarrow> wire_events (inline_reasoning_content f vs) = wire_events vs"
  by (induction vs) (simp_all add: inline_reasoning_content_def inline_reasoning_event split: if_splits)

lemma add_calls_keyed: "keyed_object v \<Longrightarrow> keyed_object (add_calls calls v)"
  by (auto simp: keyed_object_def add_calls_def intro: map_insert_distinct split: option.split json.split)

lemma collect_split_keyed:
  "collect_split base vs = (calls, between, rest) \<Longrightarrow> list_all keyed_object vs \<Longrightarrow>
   list_all keyed_object between \<and> list_all keyed_object rest"
proof (induction base vs arbitrary: calls between rest rule: collect_split.induct)
  case (2 base r rs)
  have parts: "list_all keyed_object (takeWhile is_image_only_user_message rs)"
    "list_all keyed_object (dropWhile is_image_only_user_message rs)"
    using 2(3) by (auto simp: list_all_iff dest: set_takeWhileD set_dropWhileD)
  show ?case
  proof (cases "dropWhile is_image_only_user_message rs")
    case Nil
    with 2(2,3) show ?thesis by (auto simp del: dropWhile_eq_Nil_conv split: if_splits)
  next
    case (Cons v later)
    with 2 parts show ?thesis by (fastforce split: if_splits prod.splits)
  qed
qed simp

lemma merge_split_keyed:
  "list_all keyed_object vs \<Longrightarrow> list_all keyed_object (merge_split_tool_call_messages vs)"
proof (induction vs rule: merge_split_tool_call_messages.induct)
  case (2 v vs)
  then show ?case
    using collect_split_keyed add_calls_keyed by (auto split: option.split prod.split if_splits)
qed simp

subsection \<open>The calls and answers of a message\<close>

definition requests_of :: "message_content list \<Rightarrow> tool_request list" where
  "requests_of bs = filter_map (\<lambda>b. case b of ToolRequest q \<Rightarrow> Some q | _ \<Rightarrow> None) bs"

definition responses_of :: "message_content list \<Rightarrow> tool_response list" where
  "responses_of bs = filter_map (\<lambda>b. case b of ToolResponse p \<Rightarrow> Some p | _ \<Rightarrow> None) bs"

lemma add_items_frame:
  "wd_object (add_items xs b d) = wd_object d" "wd_after (add_items xs b d) = wd_after d"
  by (simp_all add: add_items_def)

lemma add_blocks_parts:
  "wd_object (foldl (add_block E opts fmt r) d bs) =
     foldl (\<lambda>m q. push_call (call_json E q) m) (wd_object d) (requests_of bs) \<and>
   wd_after (foldl (add_block E opts fmt r) d bs) =
     wd_after d @ concat (map (response_messages E opts fmt) (responses_of bs))"
proof (induction bs arbitrary: d)
  case (Cons b bs)
  then show ?case
    by (cases b) (simp_all add: requests_of_def responses_of_def add_block_def add_items_frame case_prod_beta)
qed (simp add: requests_of_def responses_of_def)

lemma push_calls_lookup:
  "map_of (foldl (\<lambda>m q. push_call (f q) m) m qs) k =
    (if k = ''tool_calls'' \<and> qs \<noteq> []
     then Some (JArr (unwrap_or (Option.bind (map_of m ''tool_calls'') json_as_array) [] @ map f qs))
     else map_of m k)"
  by (induction qs arbitrary: m) (simp_all add: push_call_def)

lemma push_calls_distinct:
  "distinct (map fst m) \<Longrightarrow> distinct (map fst (foldl (\<lambda>m q. push_call (f q) m) m qs))"
  by (induction qs arbitrary: m) (simp_all add: push_call_def map_insert_distinct)

definition plain_metadata :: "message \<Rightarrow> bool" where
  "plain_metadata m \<longleftrightarrow>
     (\<forall>q \<in> set (requests_of (msg_content m)). ''id'' \<notin> fst ` set (unwrap_or (tq_metadata q) []))"

lemma call_json_id:
  "''id'' \<notin> fst ` set (unwrap_or (tq_metadata q) []) \<Longrightarrow> call_id (call_json E q) = tq_id q"
proof -
  assume "''id'' \<notin> fst ` set (unwrap_or (tq_metadata q) [])"
  then have "map_of (rev (unwrap_or (tq_metadata q) [])) ''id'' = None" by (simp add: map_of_eq_None_iff)
  then show ?thesis
    by (simp add: call_id_def call_json_def json_at_def str_or_empty_def insert_entries_lookup call_object_def
        split: sum.split)
qed

lemma image_message_quiet: "tool_block_image opts fmt b = Some v \<Longrightarrow> wire_event v = [] \<and> keyed_object v"
  by (auto simp: tool_block_image_def wire_event_def keyed_object_def split: content_block.splits if_splits)

lemma response_messages_events:
  "wire_events (response_messages E opts fmt p) = [Resp (tr_id p)] \<and> list_all keyed_object (response_messages E opts fmt p)"
proof -
  have images: "wire_events (filter_map (tool_block_image opts fmt) bs) = [] \<and>
      list_all keyed_object (filter_map (tool_block_image opts fmt) bs)" for bs
    by (induction bs) (auto dest: image_message_quiet split: option.split)
  have "wire_event (tool_message s i) = [Resp i]" "keyed_object (tool_message s i)" for s i
    by (simp_all add: tool_message_def wire_event_def json_at_def str_or_empty_def keyed_object_def)
  with images show ?thesis by (simp add: response_messages_def split: sum.split)
qed

lemma responses_events:
  "wire_events (concat (map (response_messages E opts fmt) ps)) = map (\<lambda>p. Resp (tr_id p)) ps \<and>
   list_all keyed_object (concat (map (response_messages E opts fmt) ps))"
  using response_messages_events by (induction ps) (simp_all add: list_all_append)

text \<open>What a message is, with its role: calls of the assistant, answers of the user.\<close>

lemma legal_events:
  assumes "\<forall>b \<in> set bs. block_legal r b"
  shows "content_events bs = (if r = Assistant then map (\<lambda>q. Req (tq_id q)) (requests_of bs)
    else map (\<lambda>p. Resp (tr_id p)) (responses_of bs))"
    "r = Assistant \<Longrightarrow> responses_of bs = []" "r = User \<Longrightarrow> requests_of bs = []"
  using assms
proof (induction bs)
  case (Cons b bs)
  { case 1 with Cons show ?case by (cases b; cases r) (simp_all add: requests_of_def responses_of_def) }
  { case 2 with Cons show ?case by (cases b) (simp_all add: requests_of_def responses_of_def) }
  { case 3 with Cons show ?case by (cases b) (simp_all add: requests_of_def responses_of_def) }
qed (simp_all add: requests_of_def responses_of_def)

lemma wire_content_lookup:
  "k \<noteq> ''content'' \<Longrightarrow> map_of (wire_content r d) k = map_of (wd_object d) k"
  "distinct (map fst (wd_object d)) \<Longrightarrow> distinct (map fst (wire_content r d))"
  by (simp_all add: wire_content_def Let_def map_insert_distinct)

lemma draft_message_parts:
  "wd_object (draft_message E opts fmt m) =
     foldl (\<lambda>o' q. push_call (call_json E q) o') [(''role'', JStr (role_name (msg_role m)))] (requests_of (msg_content m))"
  "wd_after (draft_message E opts fmt m) = concat (map (response_messages E opts fmt) (responses_of (msg_content m)))"
  using add_blocks_parts [of E opts fmt "msg_role m" "draft_start (msg_role m)" "msg_content m"]
  by (simp_all add: draft_message_def draft_start_def)

lemma format_message_shape:
  "\<exists>extra. fst (format_message E opts fmt m st) =
     (let object = wire_content (msg_role m) (draft_message E opts fmt m)
      in (if map_of object ''content'' = None \<and> map_of object ''tool_calls'' = None then []
          else [JObj (extra object)]) @ wd_after (draft_message E opts fmt m)) \<and>
     (\<forall>o' k. k \<noteq> ''reasoning_content'' \<longrightarrow> map_of (extra o') k = map_of o' k) \<and>
     (\<forall>o'. distinct (map fst o') \<longrightarrow> distinct (map fst (extra o')))"
proof -
  let ?st = "enter_message opts m st" and ?d = "draft_message E opts fmt m"
  let ?object = "wire_content (msg_role m) ?d"
  obtain reasoning st2 where carry: "(if fm_preserve_thinking opts \<and> msg_role m = Assistant
      then carry_reasoning ?object (wd_reasoning ?d) ?st else (wd_reasoning ?d, ?st)) = (reasoning, st2)"
    by fastforce
  let ?extra = "\<lambda>o'. if fm_preserve_thinking opts \<and> reasoning \<noteq> []
    then map_insert ''reasoning_content'' (JStr reasoning) o' else o'"
  have "fst (format_message E opts fmt m st) =
      (if map_of ?object ''content'' = None \<and> map_of ?object ''tool_calls'' = None then []
       else [JObj (?extra ?object)]) @ wd_after ?d"
    unfolding format_message_def Let_def carry prod.case by simp
  then show ?thesis
    by (intro exI [of _ ?extra]) (simp add: Let_def map_insert_distinct)
qed

lemma format_message_events:
  assumes "\<forall>b \<in> set (msg_content m). block_legal (msg_role m) b" "plain_metadata m"
  shows "wire_events (fst (format_message E opts fmt m st)) = content_events (msg_content m) \<and>
    list_all keyed_object (fst (format_message E opts fmt m st))"
proof -
  let ?d = "draft_message E opts fmt m" and ?qs = "requests_of (msg_content m)"
  let ?object = "wire_content (msg_role m) ?d"
  obtain extra where shape: "fst (format_message E opts fmt m st) =
       (if map_of ?object ''content'' = None \<and> map_of ?object ''tool_calls'' = None then []
        else [JObj (extra ?object)]) @ wd_after ?d"
    "\<And>o' k. k \<noteq> ''reasoning_content'' \<Longrightarrow> map_of (extra o') k = map_of o' k"
    "\<And>o'. distinct (map fst o') \<Longrightarrow> distinct (map fst (extra o'))"
    using format_message_shape [of E opts fmt m st] by (auto simp: Let_def)
  have calls: "map_of ?object ''tool_calls'' = (if ?qs = [] then None else Some (JArr (map (call_json E) ?qs)))"
    by (simp add: wire_content_lookup draft_message_parts push_calls_lookup)
  have role: "map_of ?object ''role'' = Some (JStr (role_name (msg_role m)))"
    by (simp add: wire_content_lookup draft_message_parts push_calls_lookup)
  have keyed: "distinct (map fst (extra ?object))"
    by (intro shape(3) wire_content_lookup(2)) (simp add: draft_message_parts push_calls_distinct)
  have ids: "map (\<lambda>c. Req (call_id c)) (map (call_json E) ?qs) = map (\<lambda>q. Req (tq_id q)) ?qs"
    using assms(2) by (simp add: plain_metadata_def call_json_id)
  have first: "wire_event (JObj (extra ?object)) = (if msg_role m = Assistant then map (\<lambda>q. Req (tq_id q)) ?qs else [])"
    using calls role ids by (cases "msg_role m") (simp_all add: wire_event_def wire_calls_def shape(2) role_name_def)
  note after = responses_events [of E opts fmt "responses_of (msg_content m)", folded draft_message_parts(2) [of E opts fmt m]]
  note legal = legal_events [OF assms(1)]
  show ?thesis
  proof (cases "msg_role m")
    case Assistant
    then show ?thesis
      using first after legal calls keyed shape(1) by (auto simp: keyed_object_def)
  next
    case User
    then show ?thesis
      using first after legal calls keyed shape(1) by (auto simp: keyed_object_def)
  qed
qed

lemma format_all_events:
  assumes "roles_legal ms" "\<forall>m \<in> set ms. plain_metadata m"
  shows "wire_events (format_all E opts fmt ms st) = tool_events ms \<and> list_all keyed_object (format_all E opts fmt ms st)"
  using assms
proof (induction ms arbitrary: st)
  case (Cons m ms)
  obtain out st1 where step: "format_message E opts fmt m st = (out, st1)" by fastforce
  have "wire_events out = content_events (msg_content m) \<and> list_all keyed_object out"
    using format_message_events [of m E opts fmt st] Cons.prems step by (simp add: roles_legal_def)
  moreover have "wire_events (format_all E opts fmt ms st1) = tool_events ms \<and> list_all keyed_object (format_all E opts fmt ms st1)"
    using Cons by (simp add: roles_legal_def)
  ultimately show ?case by (simp add: step tool_events_def)
qed (simp add: tool_events_def)

text \<open>
  C29: When a history pairs its tool calls with their results, in legal roles, what is sent to an
  OpenAI-compatible provider does too: each \<open>tool\<close> message answers a call of an assistant message
  before it and each call is answered by a \<open>tool\<close> message after it, also where messages that were
  split are merged again and where thoughts are moved into the content.
\<close>

theorem wire_messages_paired:
  assumes "paired (tool_events ms)" "roles_legal ms" "\<forall>m \<in> set ms. plain_metadata m"
  shows "paired (wire_events (format_messages_with_options E ms fmt opts))"
proof -
  let ?all = "format_all E opts fmt ms format_start"
  let ?merged = "merge_split_tool_call_messages ?all"
  note all = format_all_events [OF assms(2,3), of E opts fmt format_start]
  have "hoists (wire_events ?all) (wire_events ?merged)"
    using merge_split_hoists [of "[]" ?all] by simp
  with all assms(1) have "paired (wire_events ?merged)" by (auto intro: hoists_paired)
  moreover have "list_all keyed_object ?merged" using all by (simp add: merge_split_keyed)
  ultimately show ?thesis
    by (simp add: format_messages_with_options_def Let_def inline_content_events split: option.split)
qed


definition plain_image_env :: image_env where
  "plain_image_env = \<lparr>ie_is_file = (\<lambda>p. False), ie_read = (\<lambda>p. Inl []), ie_wide_alphanumeric = (\<lambda>c. False),
     ie_lowercase = id, ie_base64 = id\<rparr>"

definition plain_model_env :: model_env where
  "plain_model_env = \<lparr>me_lowercase = id, me_wide_digit = (\<lambda>c. False), me_known = (\<lambda>p n. None)\<rparr>"

definition plain_request_env :: request_env where
  "plain_request_env = \<lparr>rq_ext = plain_env, rq_images = plain_image_env, rq_model = plain_model_env,
     rq_json_text = (\<lambda>v. ''{}''), rq_print_error = ed_message, rq_f32_json = (\<lambda>b. JNull)\<rparr>"

definition called_tool :: "string \<Rightarrow> message_content" where
  "called_tool i = ToolRequest \<lparr>tq_id = i, tq_tool_call = Inr \<lparr>ct_name = ''t'', ct_arguments = None\<rparr>,
     tq_metadata = None, tq_tool_meta = None\<rparr>"

definition answered_tool :: "string \<Rightarrow> message_content" where
  "answered_tool i = ToolResponse \<lparr>tr_id = i, tr_tool_result = Inl (error_data_new 0 ''no''), tr_metadata = None\<rparr>"

definition split_turn :: "message list" where
  "split_turn =
     [message_new Assistant 0 [mc_thinking ''why'' [], called_tool ''1''], message_new User 0 [answered_tool ''1''],
      message_new Assistant 0 [mc_thinking ''why'' [], called_tool ''2''], message_new User 0 [answered_tool ''2'']]"

lemma wire_messages_paired_witness:
  "paired (tool_events split_turn) \<and>
   paired (wire_events (format_messages_with_options plain_request_env split_turn ImageOpenAi (default_format_options False)))"
proof -
  have "paired (tool_events split_turn)" unfolding paired_iff by code_simp
  moreover have "roles_legal split_turn" by code_simp
  moreover have "\<forall>m \<in> set split_turn. plain_metadata m" by code_simp
  ultimately show ?thesis using wire_messages_paired by blast
qed

subsection \<open>What the parameters of a request cannot touch\<close>

lemma put_params_lookup:
  "is_aibuddy_internal_request_param k \<or> is_reserved_request_param_key k \<Longrightarrow>
   map_of (foldl put_param m ps) k = map_of m k"
  by (induction ps arbitrary: m) (auto simp: put_param_def insert_entry_def)

lemma put_field_lookup:
  "map_of (put_field k v m) j = (if j = k then option_or v (map_of m j) else map_of m j)"
  by (simp add: put_field_def option_or_def split: option.split)

lemma request_payload_fixed:
  assumes "is_aibuddy_internal_request_param k \<or> is_reserved_request_param_key k"
  shows "map_of (request_payload E config wire_name capability messages tools streaming) k =
    (if k = ''model'' then Some (JStr wire_name) else if k = ''messages'' then Some (JArr messages)
     else if k = ''stream'' \<and> streaming then Some (JBool True)
     else if k = ''stream_options'' \<and> streaming then Some (JObj [(''include_usage'', JBool True)]) else None)"
proof -
  have other: "k \<noteq> ''reasoning_effort''" "k \<noteq> ''tools''" "k \<noteq> ''temperature''"
    "k \<noteq> ''max_tokens''" "k \<noteq> ''max_completion_tokens''"
    using assms by (auto simp: is_aibuddy_internal_request_param_def is_reserved_request_param_key_def)
  then have limit: "k \<noteq> (if b then ''max_completion_tokens'' else ''max_tokens'')" for b by simp
  show ?thesis
    unfolding request_payload_def Let_def put_params_lookup [OF assms]
    using other limit by (simp add: put_field_lookup del: if_split_asm)
qed

text \<open>
  C30: Whatever the configuration of a model says in its request parameters, a request that is made
  asks for the model and sends the messages it was made for, streams exactly when it was asked to,
  and holds none of the parameters that are only meant for the program itself.
\<close>

theorem request_params_confined:
  assumes "create_request_for_model_with_options E config wire_name capability system messages tools fmt streaming opts =
    Inr payload"
  shows "json_get payload ''model'' = Some (JStr wire_name) \<and>
    json_get payload ''messages'' = Some (JArr (system_message E capability system #
      format_messages_with_options E messages fmt opts)) \<and>
    json_get payload ''stream'' = (if streaming then Some (JBool True) else None) \<and>
    (\<forall>k. is_aibuddy_internal_request_param k \<longrightarrow> json_get payload k = None)"
proof -
  from assms obtain specs where p: "payload = JObj (request_payload E config wire_name capability
      (system_message E capability system # format_messages_with_options E messages fmt opts) specs streaming)"
    by (cases "format_tools tools") (auto simp: create_request_for_model_with_options_def split: if_splits)
  have "k \<notin> {''model'', ''messages'', ''stream'', ''stream_options''}" if "is_aibuddy_internal_request_param k" for k
    using that by (auto simp: is_aibuddy_internal_request_param_def)
  then show ?thesis
    by (auto simp: p request_payload_fixed is_reserved_request_param_key_def)
qed

lemma request_params_confined_witness:
  "\<exists>payload. create_request_for_model_with_options plain_request_env
       ((model_config_new plain_model_env ''m'')\<lparr>mo_request_params := Some [(''model'', JNull), (''cache_ttl'', JStr ''1h'')]\<rparr>)
       ''m'' ''m'' [] [] [] ImageOpenAi True (default_format_options False) = Inr payload \<and>
     json_get payload ''model'' = Some (JStr ''m'') \<and> json_get payload ''cache_ttl'' = None"
proof -
  let ?config = "(model_config_new plain_model_env ''m'')\<lparr>mo_request_params := Some [(''model'', JNull), (''cache_ttl'', JStr ''1h'')]\<rparr>"
  have "mo_model_name ?config = ''m''" by code_simp
  then have "\<not> starts_with (mo_model_name ?config) ''o1-mini''" by (simp add: starts_with_def)
  then obtain payload where made: "create_request_for_model_with_options plain_request_env ?config
      ''m'' ''m'' [] [] [] ImageOpenAi True (default_format_options False) = Inr payload"
    by (simp add: create_request_for_model_with_options_def format_tools_def)
  moreover have "is_aibuddy_internal_request_param ''cache_ttl''" by code_simp
  ultimately show ?thesis using request_params_confined [OF made] by blast
qed

subsection \<open>Schemas\<close>

lemma object_child_weight:
  assumes "(k, v) \<in> set m"
  shows "v = JObj children \<Longrightarrow> kc \<in> set children \<Longrightarrow> weight (snd kc) < weight (JObj m)"
    "v = JArr items \<Longrightarrow> c \<in> set items \<Longrightarrow> weight c < weight (JObj m)"
    "weight v < weight (JObj m)"
  using entry_weight [OF assms] entry_weight [of kc children] item_weight [of c items]
  by (auto simp del: weight.simps)

text \<open>
  The schemas that a schema holds in the places where both strict validators and the code look for
  them: the members of \<open>properties\<close>, \<open>$defs\<close> and \<open>definitions\<close>, the items of \<open>anyOf\<close>, \<open>allOf\<close>
  and \<open>prefixItems\<close>, and \<open>items\<close> and \<open>additionalProperties\<close> themselves.
\<close>

inductive schema_part :: "json \<Rightarrow> json \<Rightarrow> bool" for whole where
  itself: "schema_part whole whole"
| member: "schema_part whole (JObj m) \<Longrightarrow> (k, JObj children) \<in> set m \<Longrightarrow>
    k = ''properties'' \<or> k = ''$defs'' \<or> k = ''definitions'' \<Longrightarrow> (c, v) \<in> set children \<Longrightarrow>
    schema_part whole v"
| alternative: "schema_part whole (JObj m) \<Longrightarrow> (k, JArr children) \<in> set m \<Longrightarrow>
    k = ''anyOf'' \<or> k = ''allOf'' \<or> k = ''prefixItems'' \<Longrightarrow> v \<in> set children \<Longrightarrow>
    schema_part whole v"
| item: "schema_part whole (JObj m) \<Longrightarrow> (k, v) \<in> set m \<Longrightarrow>
    k = ''items'' \<or> k = ''additionalProperties'' \<Longrightarrow> schema_part whole v"

text \<open>A sanitized value: one that comes out of the sanitizer, or is no object.\<close>

definition sanitized :: "json \<Rightarrow> bool" where
  "sanitized v \<longleftrightarrow> (\<forall>m. v = JObj m \<longrightarrow> (\<exists>u. v = sanitize_schema_node u))"

lemma keys_disjoint:
  "k \<in> set MAP_KEYS \<Longrightarrow> k \<notin> set NODE_KEYS \<and> k \<notin> set LIST_KEYS"
  "k \<in> set NODE_KEYS \<Longrightarrow> k \<notin> set LIST_KEYS"
  "k \<in> set MAP_KEYS \<union> set NODE_KEYS \<union> set LIST_KEYS \<Longrightarrow> k \<noteq> ''type''"
  by (auto simp: MAP_KEYS_def NODE_KEYS_def LIST_KEYS_def)

definition sanitized_entry :: "string \<Rightarrow> json \<Rightarrow> json" where
  "sanitized_entry k v =
     (case v of
        JObj children \<Rightarrow>
          if k \<in> set MAP_KEYS then JObj (map (\<lambda>(k', c). (k', sanitize_schema_node c)) children)
          else if k \<in> set NODE_KEYS then sanitize_schema_node (JObj children) else JObj children
      | JArr children \<Rightarrow>
          if k \<in> set LIST_KEYS then JArr (map sanitize_schema_node children) else JArr children
      | other \<Rightarrow> other)"

lemma sanitize_object:
  "sanitize_schema_node (JObj m) = JObj (map (\<lambda>(k, v). (k, sanitized_entry k v)) (prepared_schema m))"
  by (simp add: sanitized_entry_def)

lemma sanitized_lookup:
  "map_of (map (\<lambda>(k, v). (k, sanitized_entry k v)) m) j = map_option (sanitized_entry j) (map_of m j)"
  by (induction m) auto

lemma sanitized_type: "sanitized_entry ''type'' v = v"
  using keys_disjoint(3) [of "''type''"] by (auto simp: sanitized_entry_def split: json.split)

lemma prepared_object:
  assumes "Option.bind (map_of (prepared_schema m) ''type'') json_as_str = Some ''object''"
  shows "map_of (prepared_schema m) ''properties'' \<noteq> None \<and> map_of (prepared_schema m) ''required'' \<noteq> None"
proof -
  let ?m = "normalize_nullable (one_of_to_any_of m)"
  have "map_of (object_defaults ?m) ''type'' = map_of ?m ''type''"
    by (simp add: object_defaults_def or_insert_def map_add_def split: option.split)
  with assms show ?thesis
    by (auto simp: prepared_schema_def object_defaults_def or_insert_def map_add_def split: if_splits option.splits)
qed

lemma sanitized_plain: "(\<And>m. v \<noteq> JObj m) \<Longrightarrow> sanitized v"
  by (simp add: sanitized_def)

lemma sanitized_node: "sanitized (sanitize_schema_node u)"
  unfolding sanitized_def by blast

lemma sanitized_node_object:
  assumes "sanitize_schema_node u = JObj m"
  obtains p where "m = map (\<lambda>(k, v). (k, sanitized_entry k v)) (prepared_schema p)"
  using assms by (cases u) (auto simp: sanitize_object simp del: sanitize_schema_node.simps(1))

lemma sanitized_entries:
  assumes "sanitized (JObj m)" and "(k, v) \<in> set m"
  obtains w where "v = sanitized_entry k w"
proof -
  from assms(1) obtain p where "m = map (\<lambda>(k, v). (k, sanitized_entry k v)) (prepared_schema p)"
    using sanitized_node_object unfolding sanitized_def by metis
  with assms(2) have "\<exists>w. v = sanitized_entry k w" by auto
  with that show ?thesis by blast
qed

lemma sanitized_part: "schema_part whole v \<Longrightarrow> sanitized whole \<Longrightarrow> sanitized v"
proof (induction rule: schema_part.induct)
  case (member m k children c v)
  then obtain w where w: "JObj children = sanitized_entry k w" using sanitized_entries by metis
  have "k \<in> set MAP_KEYS" using member.hyps(3) by (auto simp: MAP_KEYS_def)
  with w obtain cs where "children = map (\<lambda>(k', c). (k', sanitize_schema_node c)) cs"
    by (cases w) (auto simp: sanitized_entry_def split: if_splits)
  with member.hyps(4) show ?case by (auto simp: sanitized_node)
next
  case (alternative m k children v)
  then obtain w where w: "JArr children = sanitized_entry k w" using sanitized_entries by metis
  have "k \<in> set LIST_KEYS" using alternative.hyps(3) by (auto simp: LIST_KEYS_def)
  moreover have "k \<notin> set NODE_KEYS" using alternative.hyps(3) by (auto simp: NODE_KEYS_def)
  ultimately obtain cs where "children = map sanitize_schema_node cs"
    using w by (cases w) (auto simp: sanitized_entry_def split: if_splits)
  with alternative.hyps(4) show ?case by (auto simp: sanitized_node)
next
  case (item m k v)
  then obtain w where w: "v = sanitized_entry k w" using sanitized_entries by metis
  have k: "k \<in> set NODE_KEYS" "k \<notin> set MAP_KEYS"
    using item.hyps(3) by (auto simp: NODE_KEYS_def MAP_KEYS_def)
  show ?case
  proof (cases w)
    case (JObj cs)
    with w k have "v = sanitize_schema_node (JObj cs)"
      by (simp add: sanitized_entry_def del: sanitize_schema_node.simps)
    then show ?thesis by (simp only: sanitized_node)
  qed (use w in \<open>auto simp: sanitized_entry_def split: if_splits intro: sanitized_plain\<close>)
qed

lemma sanitized_object_type:
  assumes "sanitized (JObj m)" and "map_of m ''type'' = Some (JStr ''object'')"
  shows "map_of m ''properties'' \<noteq> None \<and> map_of m ''required'' \<noteq> None"
proof -
  from assms(1) obtain p where m: "m = map (\<lambda>(k, v). (k, sanitized_entry k v)) (prepared_schema p)"
    using sanitized_node_object unfolding sanitized_def by metis
  have "map_of (prepared_schema p) ''type'' = Some (JStr ''object'')"
    using assms(2) unfolding m sanitized_lookup by (auto simp: sanitized_type)
  then show ?thesis using prepared_object [of p] by (simp add: m sanitized_lookup)
qed

definition tool_parameters :: "json \<Rightarrow> json option" where
  "tool_parameters t = Option.bind (json_get t ''function'') (\<lambda>f. json_get f ''parameters'')"

lemma updated_field: "json_get (update_field k f v) k = Some w \<Longrightarrow> \<exists>x. w = f x"
  by (auto simp: update_field_def split: json.splits option.splits)

lemma sent_parameters_sanitized:
  assumes "v \<in> set (filter_map tool_parameters (validate_tool_schemas tools))"
  shows "sanitized v"
proof -
  from assms obtain t where "tool_parameters (update_field ''function'' (update_field ''parameters'' valid_parameters) t) = Some v"
    by (auto simp: validate_tool_schemas_def set_filter_map)
  then obtain f' where f': "json_get (update_field ''function'' (update_field ''parameters'' valid_parameters) t) ''function'' = Some f'"
    "json_get f' ''parameters'' = Some v" by (auto simp: tool_parameters_def bind_eq_Some_conv)
  from updated_field [OF f'(1)] obtain f where "f' = update_field ''parameters'' valid_parameters f" by blast
  with updated_field [of "''parameters''" valid_parameters f v] f'(2) obtain x where "v = valid_parameters x" by blast
  then show ?thesis
    by (cases x) (simp_all add: valid_parameters_def ensure_valid_json_schema_def sanitized_node sanitized_plain
        del: sanitize_schema_node.simps(1))
qed

text \<open>
  C31: In the schema of a tool as it is sent, every object type that stands at the top, in a
  member of \<open>properties\<close>, \<open>$defs\<close> or \<open>definitions\<close>, in an item of \<open>anyOf\<close>, \<open>allOf\<close> or
  \<open>prefixItems\<close>, or in \<open>items\<close> or \<open>additionalProperties\<close>, at any depth of these, has its
  properties and its required fields.  Other places, such as \<open>not\<close> or a \<open>oneOf\<close> that stays, are
  not looked at.
\<close>

theorem tool_schemas_complete:
  assumes "schema \<in> set (filter_map tool_parameters (validate_tool_schemas tools))"
    and "schema_part schema (JObj m)" and "map_of m ''type'' = Some (JStr ''object'')"
  shows "map_of m ''properties'' \<noteq> None \<and> map_of m ''required'' \<noteq> None"
  using sanitized_part [OF assms(2) sent_parameters_sanitized [OF assms(1)]] assms(3)
  by (rule sanitized_object_type)

lemma tool_schemas_complete_witness:
  "\<exists>schema m. schema \<in> set (filter_map tool_parameters (validate_tool_schemas
      [JObj [(''function'', JObj [(''parameters'', JObj [(''$defs'', JObj [(''d'', JObj [(''type'', JStr ''object'')])])])])]])) \<and>
    schema_part schema (JObj m) \<and> map_of m ''type'' = Some (JStr ''object'') \<and> schema \<noteq> JObj m \<and>
    map_of m ''properties'' \<noteq> None \<and> map_of m ''required'' \<noteq> None"
proof -
  let ?tools = "[JObj [(''function'', JObj [(''parameters'', JObj [(''$defs'', JObj [(''d'', JObj [(''type'', JStr ''object'')])])])])]]"
  let ?d = "[(''type'', JStr ''object''), (''properties'', JObj []), (''required'', JArr [])]"
  let ?schema = "JObj [(''$defs'', JObj [(''d'', JObj ?d)]), (''type'', JStr ''object''),
    (''properties'', JObj []), (''required'', JArr [])]"
  have sent: "?schema \<in> set (filter_map tool_parameters (validate_tool_schemas ?tools))" by code_simp
  have defs: "(''$defs'', JObj [(''d'', JObj ?d)]) \<in> set [(''$defs'', JObj [(''d'', JObj ?d)]), (''type'', JStr ''object''),
      (''properties'', JObj []), (''required'', JArr [])]" by (rule list.set_intros(1))
  have d: "(''d'', JObj ?d) \<in> set [(''d'', JObj ?d)]" by (rule list.set_intros(1))
  have part: "schema_part ?schema (JObj ?d)"
    by (rule schema_part.member [OF schema_part.itself defs _ d]) simp
  from tool_schemas_complete [OF sent part] sent part show ?thesis by (intro exI [of _ ?schema] exI [of _ ?d]) simp
qed

subsection \<open>A choice that an optional one stood for\<close>

text \<open>A choice of two schemas of which one is null, and the other.\<close>

definition null_typed :: "json \<Rightarrow> bool" where
  "null_typed v \<longleftrightarrow> (\<exists>m. v = JObj m \<and> map_of m ''type'' = Some (JStr ''null''))"

definition optional_schema :: "json \<Rightarrow> json_object \<Rightarrow> bool" where
  "optional_schema choice t \<longleftrightarrow>
     (\<exists>a b. choice = JArr [a, b] \<and> (null_typed a \<and> b = JObj t \<or> \<not> null_typed a \<and> null_typed b \<and> a = JObj t))"

lemma optional_variant: "only_variant choice = Some t \<longleftrightarrow> optional_schema choice t"
proof -
  have null: "null_variant v \<longleftrightarrow> null_typed v" for v
    by (cases v) (auto simp: null_variant_def null_typed_def bind_eq_Some_conv elim!: json_as_str.elims)
  show ?thesis
    by (cases choice) (auto simp: only_variant_def optional_schema_def null split: list.split elim!: json_as_object.elims)
qed

text \<open>A type given as a list with one entry beside null.\<close>

definition nullable_type :: "json_object \<Rightarrow> bool" where
  "nullable_type m \<longleftrightarrow>
     (\<exists>types t. map_of m ''type'' = Some (JArr types) \<and> filter (\<lambda>t. t \<noteq> JStr ''null'') types = [t])"

lemma nullable_scalar: "scalar_type m = None \<longleftrightarrow> \<not> nullable_type m"
proof -
  have "not_null_type t \<longleftrightarrow> t \<noteq> JStr ''null''" for t by (cases t) (auto simp: not_null_type_def)
  then have "filter not_null_type types = filter (\<lambda>t. t \<noteq> JStr ''null'') types" for types by (intro filter_cong) simp_all
  then show ?thesis
    by (auto simp: scalar_type_def nullable_type_def split: option.split list.split elim!: json_as_array.elims
        simp: bind_eq_Some_conv)
qed


lemma sanitized_one_of:
  "json_get (sanitize_schema_node (JObj m)) ''oneOf'' = map_of (normalize_nullable (one_of_to_any_of m)) ''oneOf''"
proof -
  have "sanitized_entry ''oneOf'' v = v" for v
    by (auto simp: sanitized_entry_def MAP_KEYS_def NODE_KEYS_def LIST_KEYS_def split: json.split)
  then have "json_get (sanitize_schema_node (JObj m)) ''oneOf'' = map_of (prepared_schema m) ''oneOf''"
    unfolding sanitize_object json_get.simps sanitized_lookup
    by (cases "map_of (prepared_schema m) ''oneOf''") simp_all
  moreover have "map_of (object_defaults n) ''oneOf'' = map_of n ''oneOf''" for n
    by (simp add: object_defaults_def or_insert_def map_add_def split: option.split)
  ultimately show ?thesis by (simp add: prepared_schema_def)
qed

lemma or_inserts_lookup:
  "map_of (foldl or_insert m ps) k = (case map_of m k of Some v \<Rightarrow> Some v | None \<Rightarrow> map_of ps k)"
  by (induction ps arbitrary: m) (auto simp: or_insert_def map_add_def split: option.splits)

lemma normalized_one_of:
  assumes "distinct (map fst m)"
  shows "map_of (normalize_nullable m) ''oneOf'' = Some x \<longleftrightarrow>
    map_of m ''oneOf'' = Some x \<or>
    map_of m ''oneOf'' = None \<and> \<not> nullable_type m \<and>
      (\<exists>choice t. map_of m ''anyOf'' = Some choice \<and> optional_schema choice t \<and> map_of t ''oneOf'' = Some x)"
proof (cases "scalar_type m")
  case None
  show ?thesis
  proof (cases "map_of m ''anyOf''")
    case None
    with \<open>scalar_type m = None\<close> show ?thesis by (simp add: normalize_nullable_def)
  next
    case (Some choice)
    have unique: "optional_schema choice t \<and> map_of t ''oneOf'' = Some x \<longleftrightarrow>
        only_variant choice = Some t \<and> map_of t ''oneOf'' = Some x" for t
      by (simp add: optional_variant)
    show ?thesis
      using None nullable_scalar [of m] Some swap_remove_lookup(1) [OF assms, of "''anyOf''"]
      by (cases "only_variant choice")
        (auto simp: normalize_nullable_def Let_def or_inserts_lookup unique split: option.split)
  qed
next
  case (Some t)
  then have "nullable_type m" using nullable_scalar [of m] by simp
  with Some show ?thesis by (simp add: normalize_nullable_def)
qed

text \<open>
  C32: Which \<open>oneOf\<close> a sanitized schema, whose keys are distinct, still has at its top: its own one,
  if it has an \<open>anyOf\<close> beside it, and otherwise the \<open>oneOf\<close> of the schema \<open>t\<close> for which it stands as
  a choice between \<open>t\<close> and null, unless its type is a list with one entry beside null.  In both
  cases the \<open>oneOf\<close> is sent as it is, although a \<open>oneOf\<close> alone is turned into an \<open>anyOf\<close>.
\<close>

theorem optional_one_of_survives:
  assumes "distinct (map fst m)"
  shows "json_get (sanitize_schema_node (JObj m)) ''oneOf'' = Some x \<longleftrightarrow>
    (map_of m ''anyOf'' \<noteq> None \<and> map_of m ''oneOf'' = Some x) \<or>
    ((map_of m ''anyOf'' = None \<or> map_of m ''oneOf'' = None) \<and> \<not> nullable_type m \<and>
      (\<exists>choice t. (map_of m ''anyOf'' = Some choice \<or> map_of m ''anyOf'' = None \<and> map_of m ''oneOf'' = Some choice) \<and>
        optional_schema choice t \<and> map_of t ''oneOf'' = Some x))"
proof (cases "map_of m ''anyOf'' = None \<and> map_of m ''oneOf'' \<noteq> None")
  case True
  then obtain choice where choice: "map_of m ''oneOf'' = Some choice" by blast
  let ?m = "map_insert ''anyOf'' choice (swap_remove ''oneOf'' m)"
  have "one_of_to_any_of m = ?m" using True choice by (simp add: one_of_to_any_of_def)
  moreover have "distinct (map fst ?m)"
    using swap_remove_lookup(2) [OF assms] by (rule map_insert_distinct)
  moreover have "nullable_type ?m \<longleftrightarrow> nullable_type m"
    using swap_remove_lookup(1) [OF assms, of "''oneOf''"] by (simp add: nullable_type_def)
  ultimately show ?thesis
    using True choice swap_remove_lookup(1) [OF assms, of "''oneOf''"]
    by (simp add: sanitized_one_of normalized_one_of del: sanitize_schema_node.simps json_get.simps)
next
  case False
  then have "one_of_to_any_of m = m" by (auto simp: one_of_to_any_of_def split: option.split)
  with False assms show ?thesis
    by (auto simp: sanitized_one_of normalized_one_of simp del: sanitize_schema_node.simps json_get.simps)
qed

definition optional_choice :: json_object where
  "optional_choice = [(''anyOf'', JArr [JObj [(''oneOf'', JArr [])], JObj [(''type'', JStr ''null'')]])]"

lemma optional_one_of_survives_witness:
  "json_get (sanitize_schema_node (JObj optional_choice)) ''oneOf'' = Some (JArr [])"
proof -
  have "distinct (map fst optional_choice)" by (simp add: optional_choice_def)
  moreover have "optional_schema (JArr [JObj [(''oneOf'', JArr [])], JObj [(''type'', JStr ''null'')]]) [(''oneOf'', JArr [])]"
    by (simp add: optional_schema_def null_typed_def)
  ultimately show ?thesis
    using optional_one_of_survives [of optional_choice "JArr []"]
    by (auto simp: optional_choice_def nullable_type_def simp del: sanitize_schema_node.simps json_get.simps)
qed

end
