(* ===== verification/Anthropic_Props.thy ===== *)
theory Anthropic_Props
  imports Anthropic_Request Cache_Semantics Openai_Wire_Props
begin

text \<open>
  What is sent to Anthropic: the tool calls and results of the history in their order, the cache
  breakpoints Anthropic allows, a thinking budget that leaves room for the answer, and no thoughts
  of another model.
\<close>

subsection \<open>Calls and results\<close>

definition block_event :: "json \<Rightarrow> tool_event option" where
  "block_event b =
     (if json_get b ''type'' = Some (JStr ''tool_use'') then Some (Req (str_or_empty (json_at b ''id'')))
      else if json_get b ''type'' = Some (JStr ''tool_result'')
      then Some (Resp (str_or_empty (json_at b ''tool_use_id'')))
      else None)"

definition sent_blocks :: "json list \<Rightarrow> json list" where
  "sent_blocks vs = concat (map content_blocks vs)"

definition anthropic_events :: "json list \<Rightarrow> tool_event list" where
  "anthropic_events vs = filter_map block_event (sent_blocks vs)"

lemma sent_blocks_simps [simp]:
  "sent_blocks [] = []" "sent_blocks (v # vs) = content_blocks v @ sent_blocks vs"
  "sent_blocks (vs @ ws) = sent_blocks vs @ sent_blocks ws"
  by (simp_all add: sent_blocks_def)

text \<open>What a block says apart from its cache mark.\<close>

definition ignores_mark :: "(json \<Rightarrow> 'a option) \<Rightarrow> bool" where
  "ignores_mark g \<longleftrightarrow> (\<forall>x m. g (JObj (map_insert ''cache_control'' x m)) = g (JObj m))"

lemma anthropic_message_blocks [simp]: "content_blocks (anthropic_message r items) = items"
  by (simp add: content_blocks_def anthropic_message_def)

lemma mark_message_blocks:
  assumes "mark_message mark v = Some v'"
  obtains b where "last_opt (content_blocks v) = Some (JObj b)"
    "content_blocks v' = butlast (content_blocks v) @ [JObj (map_insert ''cache_control'' mark b)]"
  using assms
  by (auto simp: mark_message_def content_blocks_def update_field_def split: option.splits json.splits)

lemma last_opt_split: "last_opt xs = Some x \<Longrightarrow> xs = butlast xs @ [x]"
  by (cases xs rule: rev_cases) auto

lemma mark_users_blocks:
  assumes "ignores_mark g"
  shows "filter_map g (sent_blocks (rev (mark_users mark n vs))) = filter_map g (sent_blocks (rev vs))"
proof (induction mark n vs rule: mark_users.induct)
  case (2 mark n v vs)
  have "filter_map g (content_blocks v') = filter_map g (content_blocks v)"
    if marked: "mark_message mark v = Some v'" for v'
  proof -
    obtain b where b: "last_opt (content_blocks v) = Some (JObj b)"
      "content_blocks v' = butlast (content_blocks v) @ [JObj (map_insert ''cache_control'' mark b)]"
      by (rule mark_message_blocks [OF marked])
    have "filter_map g (content_blocks v) = filter_map g (butlast (content_blocks v) @ [JObj b])"
      using last_opt_split [OF b(1)] by simp
    moreover have "g (JObj (map_insert ''cache_control'' mark b)) = g (JObj b)"
      using assms by (simp add: ignores_mark_def)
    ultimately show ?thesis by (simp add: b(2))
  qed
  then show ?case using 2 by (auto split: option.split)
qed simp

definition blocks_of_message :: "request_env \<Rightarrow> anthropic_options \<Rightarrow> message \<Rightarrow> json list" where
  "blocks_of_message E opts m = concat (map (anthropic_items E opts m) (msg_content m))"

lemma sent_message_blocks:
  "sent_blocks (filter_map (anthropic_message_of E opts) ms) = concat (map (blocks_of_message E opts) ms)"
  by (induction ms) (simp_all add: anthropic_message_of_def blocks_of_message_def Let_def del: concat_eq_Nil_conv)

lemma anthropic_blocks_kept:
  assumes "ignores_mark g" "g (text_item ''Ignore'') = None"
  shows "filter_map g (sent_blocks (anthropic_format_with_options E ms opts)) =
    concat (map (\<lambda>m. filter_map g (blocks_of_message E opts m)) ms)"
proof -
  let ?sent = "filter_map (anthropic_message_of E opts) ms"
  have "filter_map g (sent_blocks ?sent) = concat (map (\<lambda>m. filter_map g (blocks_of_message E opts m)) ms)"
    unfolding sent_message_blocks by (induction ms) simp_all
  moreover have "filter_map g (sent_blocks (if ?sent = [] then [anthropic_message User [text_item ''Ignore'']] else ?sent)) =
      filter_map g (sent_blocks ?sent)"
    using assms(2) by auto
  ultimately show ?thesis
    by (simp add: anthropic_format_with_options_def Let_def mark_users_blocks [OF assms(1)])
qed

lemma text_item_event [simp]: "block_event (text_item s) = None"
  by (simp add: block_event_def text_item_def)

lemma anthropic_items_events:
  "filter_map block_event (anthropic_items E opts m b) = (case event_of b of Some e \<Rightarrow> [e] | None \<Rightarrow> [])"
proof (cases b)
  case (ToolRequest r)
  then show ?thesis
    by (simp add: anthropic_items_def tool_use_def block_event_def json_at_def str_or_empty_def split: sum.split)
next
  case (ToolResponse r)
  then show ?thesis
    by (simp add: anthropic_items_def tool_result_def block_event_def json_at_def str_or_empty_def split: sum.split)
next
  case (Document d)
  then show ?thesis
    by (simp add: anthropic_items_def document_item_def convert_document_def block_event_def)
      (simp add: text_item_def)
qed (simp_all add: anthropic_items_def thinking_item_def convert_image_def block_event_def text_item_def Let_def)

lemma anthropic_message_events: "filter_map block_event (blocks_of_message E opts m) = content_events (msg_content m)"
proof -
  have "filter_map block_event (concat (map (anthropic_items E opts m) cs)) = content_events cs" for cs
    by (induction cs) (simp_all add: anthropic_items_events split: option.split)
  then show ?thesis by (simp add: blocks_of_message_def)
qed

text \<open>
  C33: The calls and results in what is sent to Anthropic are those of the history, in its order:
  a call without readable arguments, a failed result and one with media are sent as well, whatever
  the model, the thinking or the cache.
\<close>

theorem anthropic_keeps_tool_events:
  "anthropic_events (anthropic_format_with_options E ms opts) = tool_events ms"
proof -
  have "ignores_mark block_event" by (simp add: ignores_mark_def block_event_def json_at_def)
  then show ?thesis
    by (simp add: anthropic_events_def anthropic_blocks_kept anthropic_message_events tool_events_def)
qed

subsection \<open>Cache breakpoints\<close>

definition request_marks :: "json \<Rightarrow> nat" where
  "request_marks payload =
     message_marks (unwrap_or (Option.bind (json_get payload ''messages'') json_as_array) []) +
     length (filter cache_marked (unwrap_or (Option.bind (json_get payload ''tools'') json_as_array) [])) +
     length (filter cache_marked (unwrap_or (Option.bind (json_get payload ''system'') json_as_array) []))"

lemma convert_image_unmarked [simp]: "\<not> cache_marked (convert_image img fmt)"
  by (cases fmt) (simp_all add: convert_image_def cache_marked_def)

lemma text_item_unmarked [simp]: "\<not> cache_marked (text_item s)"
  by (simp add: cache_marked_def text_item_def)

lemma anthropic_items_unmarked: "v \<in> set (anthropic_items E opts m b) \<Longrightarrow> \<not> cache_marked v"
proof (cases b)
  case (Document d)
  then show "v \<in> set (anthropic_items E opts m b) \<Longrightarrow> ?thesis"
    by (auto simp: anthropic_items_def document_item_def convert_document_def cache_marked_def text_item_def
        split: if_splits option.splits)
qed (auto simp: anthropic_items_def thinking_item_def tool_use_def tool_result_def cache_marked_def text_item_def
    Let_def convert_image_def split: if_splits sum.splits)

lemma anthropic_message_unmarked: "anthropic_message_of E opts m = Some v \<Longrightarrow> filter cache_marked (content_blocks v) = []"
  by (auto simp: anthropic_message_of_def Let_def filter_empty_conv dest: anthropic_items_unmarked
      simp del: concat_eq_Nil_conv split: if_splits)

lemma unmarked_messages: "message_marks (filter_map (anthropic_message_of E opts) ms) = 0"
  by (induction ms) (auto simp: anthropic_message_unmarked split: option.split)

lemma mark_message_marks:
  assumes "mark_message mark v = Some v'"
  shows "length (filter cache_marked (content_blocks v')) \<le> Suc (length (filter cache_marked (content_blocks v)))"
proof -
  obtain b where b: "last_opt (content_blocks v) = Some (JObj b)"
    "content_blocks v' = butlast (content_blocks v) @ [JObj (map_insert ''cache_control'' mark b)]"
    by (rule mark_message_blocks [OF assms])
  have "length (filter cache_marked (content_blocks v)) =
      length (filter cache_marked (butlast (content_blocks v) @ [JObj b]))"
    using last_opt_split [OF b(1)] by simp
  then show ?thesis by (simp add: b(2))
qed

lemma message_marks_rev [simp]: "message_marks (rev vs) = message_marks vs"
  by (induction vs) simp_all

lemma mark_users_marks: "n \<le> 1 \<Longrightarrow> message_marks (mark_users mark n vs) + n \<le> message_marks vs + 2"
proof (induction mark n vs rule: mark_users.induct)
  case (2 mark n v vs)
  show ?case
  proof (cases "get_equals v ''role'' (JStr ''user'')")
    case True
    show ?thesis
    proof (cases "mark_message mark v")
      case (Some v')
      with mark_message_marks [OF Some] 2 True show ?thesis by (cases n) auto
    qed (use 2 True in auto)
  qed (use 2 in auto)
qed simp

lemma budgeted_lookup: "k \<noteq> ''thinking'' \<Longrightarrow> map_of (budgeted_thinking A config n obj) k = map_of obj k"
  by (simp add: budgeted_thinking_def Let_def)

lemma clear_lookup: "k \<noteq> ''thinking'' \<Longrightarrow> map_of (clear_thinking obj) k = map_of obj k"
  by (simp add: clear_thinking_def split: option.split json.split)

lemma apply_thinking_config_lookup:
  "k \<noteq> ''thinking'' \<Longrightarrow> k \<noteq> ''output_config'' \<Longrightarrow>
     map_of (apply_thinking_config A provider config n opts obj) k = map_of obj k"
  unfolding apply_thinking_config_def Let_def
  by (cases "thinking_type_for_provider A provider config") (simp_all add: budgeted_lookup clear_lookup)

lemma anthropic_payload_fields:
  fixes A provider config wire_name system messages tools opts
  defines "p \<equiv> anthropic_payload A provider config wire_name system messages tools opts"
  shows "map_of p ''messages'' = Some (JArr messages)"
    "map_of p ''tools'' = (if tools = [] then None else Some (JArr tools))"
    "map_of p ''system'' = (if system = [] then None else Some (format_system system opts))"
    "map_of p ''max_tokens'' = Some (JInt (sint (max_output_tokens config)))"
  by (simp_all add: p_def anthropic_payload_def Let_def apply_thinking_config_lookup put_field_def
      split: option.split)

lemma created_anthropic_payload:
  fixes A provider config wire_name system messages tools opts
  assumes "create_anthropic_request_for_model A provider config wire_name system messages tools opts = Inr payload"
  defines "os \<equiv> options_for_model (rq_model (an_request A)) config opts"
  shows "payload = JObj (anthropic_payload A provider config wire_name system
    (anthropic_format_with_options (an_request A) messages os) (anthropic_format_tools tools os) os)"
  using assms by (auto simp: create_anthropic_request_for_model_def Let_def split: if_splits)

lemma anthropic_tools_marks:
  "length (filter cache_marked (anthropic_format_tools tools opts)) \<le> (if ao_cache_disabled opts then 0 else 1)"
proof -
  have none: "filter (cache_marked \<circ> JObj) (map anthropic_tool ts) = []" for ts
    by (auto simp: filter_empty_conv anthropic_tool_def cache_marked_def)
  have "filter (cache_marked \<circ> JObj) (butlast (map anthropic_tool ts)) = []" for ts
    using none [of "butlast ts"] by (simp add: map_butlast)
  then show ?thesis using none by (simp add: anthropic_format_tools_def Let_def filter_map comp_assoc)
qed

lemma anthropic_message_list_marks:
  "message_marks (anthropic_format_with_options E ms opts) \<le> (if ao_cache_disabled opts then 0 else 2)"
proof -
  let ?present = "if filter_map (anthropic_message_of E opts) ms = [] then [anthropic_message User [text_item ''Ignore'']]
    else filter_map (anthropic_message_of E opts) ms"
  have "message_marks ?present = 0" by (simp add: unmarked_messages)
  then show ?thesis using mark_users_marks [of 0 "cache_control opts" "rev ?present"]
    by (simp add: anthropic_format_with_options_def Let_def)
qed

definition chat_marks :: "json \<Rightarrow> nat" where
  "chat_marks payload =
     message_marks (unwrap_or (Option.bind (json_get payload ''messages'') json_as_array) []) +
     length (filter (\<lambda>t. cache_marked (json_at t ''function''))
       (unwrap_or (Option.bind (json_get payload ''tools'') json_as_array) []))"

lemma mark_last_tool_marks:
  "length (filter (\<lambda>t. cache_marked (json_at t ''function'')) (unwrap_or (json_as_array (mark_last_tool v)) [])) \<le>
     Suc (length (filter (\<lambda>t. cache_marked (json_at t ''function'')) (unwrap_or (json_as_array v) [])))"
proof (cases v)
  case (JArr ts)
  then show ?thesis by (cases ts rule: rev_cases) (simp_all add: mark_last_tool_def)
qed (simp_all add: mark_last_tool_def)

lemma chat_breakpoints_marks: "chat_marks (apply_chat_payload_breakpoints payload) \<le> chat_marks payload + 4"
proof (cases payload)
  case (JObj m)
  let ?f = "\<lambda>v. case v of JArr vs \<Rightarrow> JArr (mark_system (mark_conversation vs)) | _ \<Rightarrow> v"
  have messages: "message_marks (unwrap_or (json_as_array (?f v)) []) \<le> message_marks (unwrap_or (json_as_array v) []) + 3" for v
  proof (cases v)
    case (JArr vs)
    then show ?thesis using mark_system_marks [of "mark_conversation vs"] mark_conversation_marks [of vs] by simp
  qed simp_all
  show ?thesis
  proof (cases "map_of m ''messages''")
    case None
    then show ?thesis using mark_last_tool_marks [of "the (map_of m ''tools'')"]
      by (auto simp: JObj apply_chat_payload_breakpoints_def chat_marks_def update_field_def split: option.split)
  next
    case (Some v)
    then show ?thesis using messages [of v] mark_last_tool_marks [of "the (map_of m ''tools'')"]
      by (auto simp: JObj apply_chat_payload_breakpoints_def chat_marks_def update_field_def split: option.split)
  qed
qed (simp_all add: apply_chat_payload_breakpoints_def update_field_def)

text \<open>
  C34: A request has no more cache breakpoints than the cache of its model takes: a request to
  Anthropic has none but those the formatter sets, none at all when the cache is disabled, and a
  payload that is passed on to it gets at most as many more.
\<close>

theorem cache_breakpoints_bounded:
  assumes "cache_semantics_for_model M provider name = ExplicitBreakpoints n"
    and "create_anthropic_request_for_model A provider config wire_name system messages tools opts = Inr payload"
  shows "request_marks payload \<le> (if prompt_cache_disabled config then 0 else n) \<and>
    chat_marks (apply_chat_payload_breakpoints chat) \<le> chat_marks chat + n"
proof -
  let ?os = "options_for_model (rq_model (an_request A)) config opts"
  have n: "n = 4" using assms(1) by (auto simp: cache_semantics_for_model_def split: if_splits)
  have disabled: "ao_cache_disabled ?os = prompt_cache_disabled config"
    by (simp add: options_for_model_def Let_def)
  have "length (filter cache_marked (unwrap_or (json_as_array (format_system system ?os)) [])) \<le>
      (if ao_cache_disabled ?os then 0 else 1)"
    by (simp add: format_system_def cache_marked_def)
  then have "request_marks payload \<le> (if prompt_cache_disabled config then 0 else 4)"
    using anthropic_message_list_marks [of "an_request A" messages ?os] anthropic_tools_marks [of tools ?os]
    by (simp add: created_anthropic_payload [OF assms(2)] request_marks_def anthropic_payload_fields disabled
        split: if_splits)
  then show ?thesis using chat_breakpoints_marks [of chat]
    by (cases "prompt_cache_disabled config") (simp_all add: n)
qed

subsection \<open>Thoughts\<close>

lemma i32_minus: "sint (saturating_sub a b) = clamp_i32 (sint a - sint b)"
  by (simp add: saturating_sub_def sint_word_of_int_i32 clamp_i32_range)

text \<open>What the thinking of a request may be: a budget within its bounds, or no budget.\<close>

definition budget_fits :: "i32 \<Rightarrow> json_object \<Rightarrow> bool" where
  "budget_fits n obj \<longleftrightarrow>
     (\<forall>t b. map_of obj ''thinking'' = Some t \<and> json_get t ''budget_tokens'' = Some (JInt b) \<longrightarrow>
        1024 \<le> b \<and> b + 1024 \<le> sint n)"

lemma budgeted_fits: "budget_fits n obj \<Longrightarrow> budget_fits n (budgeted_thinking A config n obj)"
proof -
  assume fits: "budget_fits n obj"
  let ?b = "i32_min_of (thinking_budget_tokens A config) (saturating_sub n MIN_ANSWER_TOKENS)"
  have "sint ?b \<le> clamp_i32 (sint n - 1024)"
    by (auto simp: i32_min_of_def i32_minus MIN_ANSWER_TOKENS_def)
  moreover have "clamp_i32 (sint n - 1024) \<le> max (sint n - 1024) i32_min"
    by (simp add: clamp_i32_def)
  ultimately have "1024 \<le> sint ?b \<Longrightarrow> sint ?b + 1024 \<le> sint n"
    by (simp add: i32_min_def)
  with fits show ?thesis
    by (auto simp: budgeted_thinking_def budget_fits_def Let_def MIN_ANSWER_TOKENS_def)
qed

lemma clear_fits: "budget_fits n obj \<Longrightarrow> budget_fits n (clear_thinking obj)"
  by (auto simp: clear_thinking_def budget_fits_def split: option.split json.split)

lemma thinking_config_fits:
  "budget_fits n obj \<Longrightarrow> budget_fits n (apply_thinking_config A provider config n opts obj)"
proof -
  assume fits: "budget_fits n obj"
  have insert: "budget_fits n (map_insert ''thinking'' t o')" if "json_get t ''budget_tokens'' = None" for t o'
    using that by (simp add: budget_fits_def)
  have other: "budget_fits n o' \<Longrightarrow> budget_fits n (map_insert ''output_config'' x o')" for x o'
    by (simp add: budget_fits_def)
  show ?thesis
    by (auto simp: apply_thinking_config_def Let_def fits insert other budgeted_fits clear_fits
        split: thinking_type.split)
qed

text \<open>
  C35: A thinking budget is at least the least Anthropic takes and leaves at least as many of the
  output tokens to the answer; with a limit that is too small for both, no budget is sent.
\<close>

theorem thinking_budget_leaves_answer:
  assumes "create_anthropic_request_for_model A provider config wire_name system messages tools opts = Inr payload"
    and "json_get payload ''thinking'' = Some t" "json_get t ''budget_tokens'' = Some (JInt b)"
  shows "1024 \<le> b \<and> b + 1024 \<le> sint (max_output_tokens config) \<and>
    json_get payload ''max_tokens'' = Some (JInt (sint (max_output_tokens config)))"
proof -
  note payload = created_anthropic_payload [OF assms(1)]
  have "budget_fits (max_output_tokens config) (anthropic_payload A provider config wire_name system msgs specs os)" for msgs specs os
    unfolding anthropic_payload_def Let_def
    by (rule thinking_config_fits) (simp add: budget_fits_def put_field_def split: option.split)
  with assms(2,3) show ?thesis
    by (auto simp: payload budget_fits_def anthropic_payload_fields)
qed

text \<open>The thoughts that were signed, or hidden, by a model.\<close>

definition sent_thought :: "json \<Rightarrow> (string + string \<times> string) option" where
  "sent_thought b =
     (if field_str b ''type'' = Some ''redacted_thinking'' then Some (Inl (unwrap_or (field_str b ''data'') []))
      else if field_str b ''type'' = Some ''thinking''
      then map_option (\<lambda>g. Inr (unwrap_or (field_str b ''thinking'') [], g)) (field_str b ''signature'')
      else None)"

definition model_thought :: "message_content \<Rightarrow> (string + string \<times> string) option" where
  "model_thought c =
     (case c of
        RedactedThinking data \<Rightarrow> Some (Inl data)
      | Thinking t \<Rightarrow> if signature t = [] then None else Some (Inr (thinking t, signature t))
      | _ \<Rightarrow> None)"

lemma anthropic_items_thoughts:
  "filter_map sent_thought (anthropic_items E opts m b) =
     (if ao_thinking_disabled opts \<or> thinking_block_is_stale m (ao_current_model opts) then []
      else case model_thought b of Some t \<Rightarrow> [t] | None \<Rightarrow> [])"
proof (cases b)
  case (Document d)
  then show ?thesis
    by (simp add: anthropic_items_def document_item_def convert_document_def sent_thought_def field_str_def
        model_thought_def text_item_def)
next
  case (ToolRequest r)
  then show ?thesis
    by (simp add: anthropic_items_def tool_use_def sent_thought_def field_str_def model_thought_def split: sum.split)
next
  case (ToolResponse r)
  then show ?thesis
    by (simp add: anthropic_items_def tool_result_def sent_thought_def field_str_def model_thought_def split: sum.split)
qed (simp_all add: anthropic_items_def thinking_item_def convert_image_def sent_thought_def field_str_def
    model_thought_def text_item_def Let_def)

lemma sent_thoughts:
  "filter_map sent_thought (sent_blocks (anthropic_format_with_options E ms opts)) =
     (if ao_thinking_disabled opts then []
      else concat (map (\<lambda>m. filter_map model_thought (msg_content m))
        (filter (\<lambda>m. \<not> thinking_block_is_stale m (ao_current_model opts)) ms)))"
proof -
  have "filter_map sent_thought (concat (map (anthropic_items E opts m) cs)) =
      (if ao_thinking_disabled opts \<or> thinking_block_is_stale m (ao_current_model opts) then []
       else filter_map model_thought cs)" for m cs
    by (induction cs) (simp_all add: anthropic_items_thoughts split: option.split)
  then have "filter_map sent_thought (blocks_of_message E opts m) =
      (if ao_thinking_disabled opts \<or> thinking_block_is_stale m (ao_current_model opts) then []
       else filter_map model_thought (msg_content m))" for m
    by (simp add: blocks_of_message_def)
  moreover have "ignores_mark sent_thought" by (simp add: ignores_mark_def sent_thought_def field_str_def)
  ultimately show ?thesis
    by (simp add: anthropic_blocks_kept sent_thought_def field_str_def text_item_def) (induction ms; simp)
qed

text \<open>
  C36: The thoughts that only their model can read, signed or redacted, are sent back exactly for
  the messages that are not known to be of another model, in order and unchanged, and none of
  them when thinking is turned off.
\<close>

theorem anthropic_sends_own_thoughts:
  "filter_map sent_thought (sent_blocks (anthropic_format_with_options E ms opts)) =
     (if ao_thinking_disabled opts then []
      else concat (map (\<lambda>m. filter_map model_thought (msg_content m))
        (filter (\<lambda>m. \<not> thinking_block_is_stale m (ao_current_model opts)) ms)))"
  by (rule sent_thoughts)

subsection \<open>Instances\<close>

definition some_request_env :: anthropic_env where
  "some_request_env = \<lparr>an_request = plain_request_env,
     an_answers = \<lparr>oe_json = \<lparr>je_parse = (\<lambda>s. None), je_text = (\<lambda>v. []), je_pretty = (\<lambda>v. [])\<rparr>, oe_ext = plain_env,
       oe_parse_error = id, oe_decode_error = (\<lambda>v. []), oe_debug = id, oe_f64_of_int = word_of_int\<rparr>,
     an_canonical = (\<lambda>p n. Some \<lparr>cf_thinking_mode = Some ModeEnabled, cf_reasoning = Some True, cf_temperature = None\<rparr>),
     an_object = (\<lambda>v. case v of JObj m \<Rightarrow> m | _ \<Rightarrow> [])\<rparr>"

lemma some_request_fields [simp]:
  "an_request some_request_env = plain_request_env" "rq_model plain_request_env = plain_model_env"
  by (simp_all add: some_request_env_def plain_request_env_def)

definition budgeted_config :: model_config where
  "budgeted_config = \<lparr>mo_model_name = ''claude'', mo_context_limit = None, mo_temperature = None,
     mo_max_tokens = Some 3000, mo_toolshim = False, mo_toolshim_model = None,
     mo_request_params = Some [(''budget_tokens'', JInt 9999)], mo_reasoning = None, mo_supports_vision = None,
     mo_request_headers = None\<rparr>"

definition one_question :: "message list" where
  "one_question = [message_new User 0 [mc_text ''hello'']]"

lemma budgeted_request:
  obtains payload where "create_anthropic_request_for_model some_request_env ''anthropic'' budgeted_config ''claude'' ''rules''
      one_question [] anthropic_options_default = Inr payload"
    "json_get payload ''thinking'' = Some (JObj [(''type'', JStr ''enabled''), (''budget_tokens'', JInt 1976)])"
proof -
  let ?made = "create_anthropic_request_for_model some_request_env ''anthropic'' budgeted_config ''claude'' ''rules''
      one_question [] anthropic_options_default"
  have "(case ?made of Inr payload \<Rightarrow> json_get payload ''thinking'' | Inl e \<Rightarrow> None) =
      Some (JObj [(''type'', JStr ''enabled''), (''budget_tokens'', JInt 1976)])" by code_simp
  with that show thesis by (cases ?made) simp_all
qed

lemma cache_breakpoints_bounded_witness:
  "\<exists>payload. create_anthropic_request_for_model some_request_env ''anthropic'' budgeted_config ''claude'' ''rules''
      one_question [] anthropic_options_default = Inr payload \<and> request_marks payload \<le> 4"
proof -
  obtain payload where made: "create_anthropic_request_for_model some_request_env ''anthropic'' budgeted_config ''claude'' ''rules''
      one_question [] anthropic_options_default = Inr payload" by (rule budgeted_request)
  have "cache_semantics_for_model plain_model_env ''anthropic'' ''claude'' = ExplicitBreakpoints 4" by code_simp
  from cache_breakpoints_bounded [OF this made, of "JObj []"] made show ?thesis by (auto split: if_splits)
qed

lemma thinking_budget_leaves_answer_witness:
  "\<exists>payload. create_anthropic_request_for_model some_request_env ''anthropic'' budgeted_config ''claude'' ''rules''
      one_question [] anthropic_options_default = Inr payload \<and>
     json_get payload ''thinking'' = Some (JObj [(''type'', JStr ''enabled''), (''budget_tokens'', JInt 1976)]) \<and>
     (1024 :: int) \<le> 1976 \<and> 1976 + 1024 \<le> sint (max_output_tokens budgeted_config)"
proof -
  obtain payload where made: "create_anthropic_request_for_model some_request_env ''anthropic'' budgeted_config ''claude'' ''rules''
      one_question [] anthropic_options_default = Inr payload"
    "json_get payload ''thinking'' = Some (JObj [(''type'', JStr ''enabled''), (''budget_tokens'', JInt 1976)])"
    by (rule budgeted_request)
  from thinking_budget_leaves_answer [OF made, of 1976] made show ?thesis by simp
qed

text \<open>A model that thinks when told to, told nothing, and an earlier answer of it with thoughts.\<close>

definition silent_config :: model_config where
  "silent_config = budgeted_config\<lparr>mo_request_params := None\<rparr>"

definition thoughtful_history :: "message list" where
  "thoughtful_history = [message_new User 0 [mc_text ''hello''],
     message_new Assistant 0 [mc_thinking ''well'' ''sig'', mc_text ''yes''], message_new User 0 [mc_text ''and?'']]"

text \<open>
  Without an effort for the model the request asks for no thinking, yet the signed thoughts of
  its earlier answers are sent with it.
\<close>

theorem thoughts_without_thinking:
  "\<exists>payload blocks. create_anthropic_request some_request_env ''anthropic'' silent_config ''rules'' thoughtful_history []
      anthropic_options_default = Inr payload \<and>
     json_get payload ''thinking'' = None \<and>
     json_get payload ''messages'' = Some (JArr blocks) \<and>
     filter_map sent_thought (sent_blocks blocks) = [Inr (''well'', ''sig'')]"
proof -
  let ?os = "options_for_model plain_model_env silent_config anthropic_options_default"
  let ?blocks = "anthropic_format_with_options plain_request_env thoughtful_history ?os"
  have "thinking_type_for_provider some_request_env ''anthropic'' silent_config = DisabledThinking"
    "\<not> requires_explicit_thinking_disable some_request_env ''anthropic'' (mo_model_name silent_config)"
    "\<not> ao_preserve_context ?os" "mo_temperature silent_config = None" by code_simp+
  then have quiet: "map_of (anthropic_payload some_request_env ''anthropic'' silent_config w ''rules'' ?blocks specs ?os) ''thinking'' = None"
    for w specs by (simp add: anthropic_payload_def apply_thinking_config_def Let_def put_field_def)
  have "filter_map sent_thought (sent_blocks ?blocks) = [Inr (''well'', ''sig'')]"
    unfolding sent_thoughts by code_simp
  moreover from this have "?blocks \<noteq> []" by auto
  ultimately show ?thesis
    using quiet by (simp add: create_anthropic_request_def create_anthropic_request_for_model_def Let_def
        anthropic_payload_fields some_request_fields)
qed

end
