(* ===== verification/Anthropic_Stream.thy ===== *)
theory Anthropic_Stream
  imports Anthropic_Request Openai_Stream
begin

text \<open>
  \<open>crates/aibuddy-provider-types/src/formats/anthropic.rs\<close>, answers of Anthropic: a whole one, its
  usage, and the events of a streamed one.  The JSON parser is taken to give objects whose keys
  are distinct.
\<close>

subsection \<open>A whole answer\<close>

text \<open>\<open>ok_or_else\<close>.\<close>

definition required :: "string \<Rightarrow> 'a option \<Rightarrow> 'a result" where
  "required e v = (case v of Some x \<Rightarrow> Inr x | None \<Rightarrow> Inl e)"

definition anthropic_block :: "anthropic_env \<Rightarrow> json \<Rightarrow> message \<Rightarrow> message result" where
  "anthropic_block A block m =
     (let ty = field_str block ''type'' in
      if ty = Some ''text'' then
        Inr (case field_str block ''text'' of
               Some s \<Rightarrow> with_text (rq_ext (an_request A)) s m | None \<Rightarrow> m)
      else if ty = Some ''tool_use'' then
        result_bind (required ''Missing tool_use id'' (field_str block ''id'')) (\<lambda>i.
        result_bind (required ''Missing tool_use name'' (field_str block ''name'')) (\<lambda>name.
        result_bind (required ''Missing tool_use input'' (json_get block ''input'')) (\<lambda>input.
          Inr (with_content (mc_tool_request i
            (Inr \<lparr>ct_name = name, ct_arguments = Some (an_object A input)\<rparr>)) m))))
      else if ty = Some ''thinking'' then
        result_bind (required ''Missing thinking content'' (field_str block ''thinking'')) (\<lambda>t.
          Inr (with_content (mc_thinking t (unwrap_or (field_str block ''signature'') [])) m))
      else if ty = Some ''redacted_thinking'' then
        result_bind (required ''Missing redacted_thinking data'' (field_str block ''data'')) (\<lambda>data.
          Inr (with_content (RedactedThinking data) m))
      else Inr m)"

fun anthropic_blocks :: "anthropic_env \<Rightarrow> json list \<Rightarrow> message \<Rightarrow> message result" where
  "anthropic_blocks A [] m = Inr m"
| "anthropic_blocks A (b # bs) m = result_bind (anthropic_block A b m) (anthropic_blocks A bs)"

definition anthropic_response_to_message :: "anthropic_env \<Rightarrow> json \<Rightarrow> message result" where
  "anthropic_response_to_message A response =
     result_bind (required ''Invalid response format: missing content array''
         (Option.bind (json_get response ''content'') json_as_array)) (\<lambda>blocks.
       anthropic_blocks A blocks (message_assistant (rq_ext (an_request A))))"

subsection \<open>Usage\<close>

text \<open>A count of at most \<open>i32::MAX\<close>.\<close>

definition count_field :: "json \<Rightarrow> string \<Rightarrow> i32 option" where
  "count_field v k =
     map_option (\<lambda>n. word_of_int (min (int n) i32_max)) (Option.bind (json_get v k) json_as_u64)"

definition usage_from_anthropic_fields :: "json \<Rightarrow> usage" where
  "usage_from_anthropic_fields v =
     from_cache_exclusive_input (Some (unwrap_or (count_field v ''input_tokens'') 0))
       (Some (unwrap_or (count_field v ''output_tokens'') 0)) None
       (count_field v ''cache_read_input_tokens'') (count_field v ''cache_creation_input_tokens'')"

definition merge_delta_usage :: "usage \<Rightarrow> usage \<Rightarrow> json \<Rightarrow> usage" where
  "merge_delta_usage existing new_usage data =
     (let reports = (\<lambda>k. json_get data k \<noteq> None);
          out = (if reports ''output_tokens'' then output_tokens new_usage else output_tokens existing)
      in if \<not> reports ''input_tokens'' then
           with_cache_tokens (cache_read_input_tokens existing) (cache_write_input_tokens existing)
             (usage_new (input_tokens existing) out None)
         else if reports ''cache_read_input_tokens'' \<or> reports ''cache_creation_input_tokens'' then
           with_cache_tokens (cache_read_input_tokens new_usage) (cache_write_input_tokens new_usage)
             (usage_new (input_tokens new_usage) out None)
         else
           from_cache_exclusive_input (input_tokens new_usage) out None
             (cache_read_input_tokens existing) (cache_write_input_tokens existing))"

definition anthropic_get_usage :: "json \<Rightarrow> usage" where
  "anthropic_get_usage data =
     (case json_get data ''usage'' of
        Some u \<Rightarrow> usage_from_anthropic_fields u
      | None \<Rightarrow>
          if json_is_object data
          then (let u = usage_from_anthropic_fields data
                in if 0 < sint (unwrap_or (total_tokens u) 0) then u else usage_new None None None)
          else usage_new None None None)"

definition ADDITIONAL_USAGE_FIELDS :: "string list" where
  "ADDITIONAL_USAGE_FIELDS = [''service_tier'']"

definition get_additional_data :: "json \<Rightarrow> json_object option" where
  "get_additional_data data =
     Option.bind (Option.bind (json_get data ''usage'') json_as_object) (\<lambda>u.
       (let found = filter_map (\<lambda>k. map_option (Pair k) (map_of u k)) ADDITIONAL_USAGE_FIELDS
        in if found = [] then None else Some found))"

definition provider_usage_with_cost ::
  "openai_env \<Rightarrow> string \<Rightarrow> usage \<Rightarrow> json \<Rightarrow> f64_bits option \<Rightarrow> provider_usage" where
  "provider_usage_with_cost V model u data fallback =
     (case option_or (get_cost V data) fallback of
        Some c \<Rightarrow> pu_with_cost c ProviderReported (provider_usage_new model u)
      | None \<Rightarrow> provider_usage_new model u)"

subsection \<open>Events\<close>

record streaming_tool_call =
  sc_id :: string
  sc_name :: string
  sc_arguments :: string

record anthropic_stream =
  as_calls :: "(i32 \<times> streaming_tool_call) list"
  as_usage :: "provider_usage option"
  as_id :: "string option"
  as_thoughts :: "(string \<times> string) option"
  as_stop_reason :: "string option"
  as_additional :: "json_object option"

definition anthropic_stream_start :: anthropic_stream where
  "anthropic_stream_start = \<lparr>as_calls = [], as_usage = None, as_id = None, as_thoughts = None,
     as_stop_reason = None, as_additional = None\<rparr>"

datatype anthropic_line = SkipAnthropic | EndAnthropic | AnthropicEvent string json

text \<open>\<open>StreamingEvent\<close>: the type, and the other fields as \<open>data\<close>.\<close>

definition read_event :: "json \<Rightarrow> (string \<times> json) option" where
  "read_event v =
     (case v of
        JObj m \<Rightarrow>
          (case map_of m ''type'' of
             Some (JStr ty) \<Rightarrow> Some (ty, JObj (filter (\<lambda>kv. fst kv \<noteq> ''type'') m))
           | _ \<Rightarrow> None)
      | _ \<Rightarrow> None)"

definition read_anthropic_line :: "openai_env \<Rightarrow> string \<Rightarrow> anthropic_line" where
  "read_anthropic_line V line =
     (if trim line = [] \<or> \<not> starts_with line ''data:'' then SkipAnthropic
      else
        (let part = unwrap_or (option_or (strip_prefix ''data: '' line) (strip_prefix ''data:'' line)) line
         in if trim part = ''[DONE]'' then EndAnthropic
            else
              (case Option.bind (je_parse (oe_json V) part) read_event of
                 None \<Rightarrow> SkipAnthropic
               | Some (ty, data) \<Rightarrow> AnthropicEvent ty data)))"

definition block_index :: "json \<Rightarrow> i32 option" where
  "block_index data = map_option word_of_int (i64_field data ''index'')"

definition with_stream_id :: "anthropic_stream \<Rightarrow> message \<Rightarrow> message" where
  "with_stream_id st m = m\<lparr>msg_id := as_id st\<rparr>"

definition yield_message :: "anthropic_stream \<Rightarrow> message \<Rightarrow> stream_yield" where
  "yield_message st m = Inr (Some (with_stream_id st m), None)"

definition event_model :: "json \<Rightarrow> string" where
  "event_model data = unwrap_or (field_str data ''model'') ''unknown''"

definition message_start :: "openai_env \<Rightarrow> json \<Rightarrow> anthropic_stream \<Rightarrow> anthropic_stream" where
  "message_start V data st =
     (case json_get data ''message'' of
        None \<Rightarrow> st
      | Some message \<Rightarrow>
          (let st1 = st\<lparr>as_additional := get_additional_data message,
                 as_id := option_or (field_str message ''id'') (as_id st)\<rparr>
           in case json_get message ''usage'' of
                None \<Rightarrow> st1
              | Some u \<Rightarrow> st1\<lparr>as_usage :=
                  Some (provider_usage_with_cost V (event_model message) (anthropic_get_usage u) u None)\<rparr>))"

definition block_start ::
  "ext_env \<Rightarrow> json \<Rightarrow> anthropic_stream \<Rightarrow> stream_yield list \<times> anthropic_stream" where
  "block_start E data st =
     (case json_get data ''content_block'' of
        None \<Rightarrow> ([], st)
      | Some block \<Rightarrow>
          (let ty = field_str block ''type'' in
           if ty = Some ''tool_use'' then
             (case (block_index data, field_str block ''id'', field_str block ''name'') of
                (Some index, Some i, Some name) \<Rightarrow>
                  ([], st\<lparr>as_calls := map_insert index \<lparr>sc_id = i, sc_name = name, sc_arguments = []\<rparr> (as_calls st)\<rparr>)
              | _ \<Rightarrow> ([], st))
           else if ty = Some ''thinking'' then
             ([], st\<lparr>as_thoughts := Some (unwrap_or (field_str block ''thinking'') [],
                unwrap_or (field_str block ''signature'') [])\<rparr>)
           else if ty = Some ''redacted_thinking'' then
             (case field_str block ''data'' of
                Some data \<Rightarrow> ([yield_message st (with_content (RedactedThinking data) (message_assistant E))], st)
              | None \<Rightarrow> ([], st))
           else ([], st)))"

datatype block_delta =
    TextDelta string | InputJsonDelta string | ThinkingDelta string | SignatureDelta string

text \<open>An enum with an internal tag is read from an object, or from an array that begins with the tag.\<close>

definition read_block_delta :: "json \<Rightarrow> block_delta option" where
  "read_block_delta v =
     (let part = (\<lambda>k. case v of
             JObj m \<Rightarrow> Option.bind (map_of m k) json_as_str
           | JArr [t, JStr s] \<Rightarrow> Some s
           | _ \<Rightarrow> None);
          tag = (case v of JObj m \<Rightarrow> Option.bind (map_of m ''type'') json_as_str
                 | JArr (JStr t # vs) \<Rightarrow> Some t | _ \<Rightarrow> None)
      in if tag = Some ''text_delta'' then map_option TextDelta (part ''text'')
         else if tag = Some ''input_json_delta'' then map_option InputJsonDelta (part ''partial_json'')
         else if tag = Some ''thinking_delta'' then map_option ThinkingDelta (part ''thinking'')
         else if tag = Some ''signature_delta'' then map_option SignatureDelta (part ''signature'')
         else None)"

definition extend_arguments :: "i32 \<Rightarrow> string \<Rightarrow> anthropic_stream \<Rightarrow> anthropic_stream" where
  "extend_arguments index s st =
     (case map_of (as_calls st) index of
        Some call \<Rightarrow> st\<lparr>as_calls := map_insert index (call\<lparr>sc_arguments := sc_arguments call @ s\<rparr>) (as_calls st)\<rparr>
      | None \<Rightarrow> st)"

definition take_delta ::
  "ext_env \<Rightarrow> json \<Rightarrow> block_delta \<Rightarrow> anthropic_stream \<Rightarrow> stream_yield list \<times> anthropic_stream" where
  "take_delta E data d st =
     (case d of
        TextDelta s \<Rightarrow> ([yield_message st (with_text E s (message_assistant E))], st)
      | InputJsonDelta s \<Rightarrow>
          ([], case block_index data of Some index \<Rightarrow> extend_arguments index s st | None \<Rightarrow> st)
      | ThinkingDelta s \<Rightarrow> ([], st\<lparr>as_thoughts := map_option (\<lambda>(t, g). (t @ s, g)) (as_thoughts st)\<rparr>)
      | SignatureDelta s \<Rightarrow> ([], st\<lparr>as_thoughts := map_option (\<lambda>(t, g). (t, g @ s)) (as_thoughts st)\<rparr>))"

definition handle_delta ::
  "ext_env \<Rightarrow> json \<Rightarrow> anthropic_stream \<Rightarrow> stream_yield list \<times> anthropic_stream" where
  "handle_delta E data st =
     (case Option.bind (json_get data ''delta'') read_block_delta of
        Some d \<Rightarrow> take_delta E data d st
      | None \<Rightarrow> ([], st))"

definition unparsed_arguments_error :: "openai_env \<Rightarrow> string \<Rightarrow> error_data" where
  "unparsed_arguments_error V args = error_data_new INVALID_PARAMS
     (unwrap_or (truncation_error_message (oe_json V) args) (''Could not parse tool arguments: '' @ args))"

text \<open>
  \<open>rmcp::object\<close>, which takes the fields of an object, is the parameter \<open>an_object\<close>: on what is no
  object it gives no fields in a release build and panics in a debug build.
\<close>

definition finished_call :: "anthropic_env \<Rightarrow> streaming_tool_call \<Rightarrow> error_data + call_tool_params" where
  "finished_call A call =
     (let V = an_answers A; args = sc_arguments call;
          parsed = (if args = [] then Some (JObj []) else parse_tool_arguments (oe_json V) args)
      in case parsed of
           None \<Rightarrow> Inl (unparsed_arguments_error V args)
         | Some v \<Rightarrow> Inr \<lparr>ct_name = sc_name call, ct_arguments = Some (an_object A v)\<rparr>)"

definition call_message ::
  "anthropic_env \<Rightarrow> i32 \<Rightarrow> string \<Rightarrow> error_data + call_tool_params \<Rightarrow> message" where
  "call_message A index i call =
     message_new Assistant (now (rq_ext (an_request A))) [mc_tool_request_with_provider_index i call None index]"

definition end_thoughts :: "ext_env \<Rightarrow> anthropic_stream \<Rightarrow> stream_yield list \<times> anthropic_stream" where
  "end_thoughts E st =
     (case as_thoughts st of
        Some (t, g) \<Rightarrow>
          (if t = [] then [] else [yield_message st (with_content (mc_thinking t g) (message_assistant E))],
           st\<lparr>as_thoughts := None\<rparr>)
      | None \<Rightarrow> ([], st))"

definition block_stop ::
  "anthropic_env \<Rightarrow> json \<Rightarrow> anthropic_stream \<Rightarrow> stream_yield list \<times> anthropic_stream" where
  "block_stop A data st =
     (let (ys, st1) = end_thoughts (rq_ext (an_request A)) st in
      case block_index data of
        None \<Rightarrow> (ys, st1)
      | Some index \<Rightarrow>
          (case map_of (as_calls st1) index of
             None \<Rightarrow> (ys, st1)
           | Some call \<Rightarrow>
               (ys @ [yield_message st1 (call_message A index (sc_id call) (finished_call A call))],
                st1\<lparr>as_calls := filter (\<lambda>c. fst c \<noteq> index) (as_calls st1)\<rparr>)))"

definition delta_usage :: "openai_env \<Rightarrow> json \<Rightarrow> anthropic_stream \<Rightarrow> anthropic_stream" where
  "delta_usage V data st =
     (case json_get data ''usage'' of
        None \<Rightarrow> st
      | Some u \<Rightarrow>
          (let new_usage = anthropic_get_usage u
           in st\<lparr>as_usage := Some (case as_usage st of
                Some existing \<Rightarrow> provider_usage_with_cost V (pu_model existing)
                  (merge_delta_usage (pu_usage existing) new_usage u) u (pu_cost existing)
              | None \<Rightarrow> provider_usage_with_cost V (event_model data) new_usage u None)\<rparr>))"

definition REFUSAL_FALLBACK_DETAILS :: string where
  "REFUSAL_FALLBACK_DETAILS = ''No additional details were provided.''"

definition stop_details :: "json \<Rightarrow> json option" where
  "stop_details d = (case json_get d ''stop_details'' of Some JNull \<Rightarrow> None | v \<Rightarrow> v)"

definition refusal_of :: "openai_env \<Rightarrow> json \<Rightarrow> provider_error" where
  "refusal_of V d =
     (let str_field = (\<lambda>k. Option.bind (stop_details d) (\<lambda>v. field_str v k))
      in Refusal
           (unwrap_or (option_or (str_field ''explanation'') (map_option (je_text (oe_json V)) (stop_details d)))
             REFUSAL_FALLBACK_DETAILS)
           (str_field ''category''))"

definition refused_usage :: "anthropic_stream \<Rightarrow> stream_yield list" where
  "refused_usage st =
     (case as_usage st of
        Some u \<Rightarrow> [Inr (None, Some (u\<lparr>pu_finish_reasons := Some [''refusal''], pu_response_id := as_id st,
                    pu_additional_data := as_additional st\<rparr>))]
      | None \<Rightarrow> [])"

text \<open>The yields and either the error that ends the stream or the state to go on with.\<close>

definition message_delta ::
  "anthropic_env \<Rightarrow> json \<Rightarrow> anthropic_stream \<Rightarrow> stream_yield list \<times> (provider_error + anthropic_stream)" where
  "message_delta A data st =
     (let V = an_answers A; E = rq_ext (an_request A); st1 = delta_usage V data st in
      case json_get data ''delta'' of
        None \<Rightarrow> ([], Inr st1)
      | Some d \<Rightarrow>
          (let st2 = st1\<lparr>as_stop_reason := option_or (as_stop_reason st1) (field_str d ''stop_reason'')\<rparr> in
           if field_str d ''stop_reason'' = Some ''refusal''
           then (refused_usage st2, Inl (refusal_of V d))
           else
             (case stop_details d of
                Some details \<Rightarrow>
                  ([yield_message st2 (with_text E (''The provider ended the response with: '' @
                      je_text (oe_json V) details) (message_assistant E))], Inr st2)
              | None \<Rightarrow> ([], Inr st2))))"

definition message_stop :: "openai_env \<Rightarrow> json \<Rightarrow> anthropic_stream \<Rightarrow> anthropic_stream" where
  "message_stop V data st =
     (case json_get data ''usage'' of
        None \<Rightarrow> st
      | Some u \<Rightarrow> st\<lparr>as_usage := Some (provider_usage_with_cost V (event_model data) (anthropic_get_usage u) u
          (Option.bind (as_usage st) pu_cost))\<rparr>)"

subsection \<open>The end of the stream\<close>

definition EM_DASH :: string where "EM_DASH = [byte 0xE2, byte 0x80, byte 0x94]"

definition CUT_BY_LIMIT :: string where
  "CUT_BY_LIMIT = ''The model's response was truncated '' @ EM_DASH @ '' it hit the output token limit while generating this tool call. Try increasing max_tokens for this provider or breaking the task into smaller steps.''"

definition CUT_BY_END :: string where
  "CUT_BY_END = ''A tool call was not completed before the stream ended. Try resending your message or breaking the task into smaller steps.''"

definition unfinished_error :: "bool \<Rightarrow> streaming_tool_call \<Rightarrow> error_data" where
  "unfinished_error limit call =
     (let cs = utf8_chars (sc_arguments call)
      in error_data_new INVALID_PARAMS ((if limit then CUT_BY_LIMIT else CUT_BY_END) @ newline @
           ''Received '' @ show_nat (length cs) @ '' characters of arguments; cut off at: '' @ ELLIPSIS @
           concat (drop (length cs - 80) cs)))"

text \<open>The calls that were left open, in the order of their indices; the mark of the limit; the usage.\<close>

definition open_call_errors :: "anthropic_env \<Rightarrow> anthropic_stream \<Rightarrow> stream_yield list" where
  "open_call_errors A st =
     (let limit = (as_stop_reason st = Some ''max_tokens'')
      in map (\<lambda>c. yield_message st (call_message A (fst c) (sc_id (snd c)) (Inl (unfinished_error limit (snd c)))))
           (sort_key (\<lambda>c. sint (fst c)) (as_calls st)))"

definition limit_marker :: "anthropic_env \<Rightarrow> anthropic_stream \<Rightarrow> stream_yield list" where
  "limit_marker A st =
     (let marker = message_assistant (rq_ext (an_request A))
      in if as_stop_reason st = Some ''max_tokens''
         then [yield_message st (marker\<lparr>msg_metadata := (msg_metadata marker)\<lparr>output_token_limit_reached := True\<rparr>\<rparr>)]
         else [])"

definition final_report :: "anthropic_stream \<Rightarrow> stream_yield list" where
  "final_report st =
     (case as_usage st of
        None \<Rightarrow> []
      | Some u \<Rightarrow>
          (let u1 = (case as_stop_reason st of Some r \<Rightarrow> u\<lparr>pu_finish_reasons := Some [r]\<rparr> | None \<Rightarrow> u);
               u2 = (case as_id st of Some i \<Rightarrow> u1\<lparr>pu_response_id := Some i\<rparr> | None \<Rightarrow> u1)
           in [Inr (None, Some (u2\<lparr>pu_additional_data := as_additional st\<rparr>))]))"

definition finish_anthropic :: "anthropic_env \<Rightarrow> anthropic_stream \<Rightarrow> stream_yield list" where
  "finish_anthropic A st = open_call_errors A st @ limit_marker A st @ final_report st"

fun anthropic_loop :: "anthropic_env \<Rightarrow> stream_line list \<Rightarrow> anthropic_stream \<Rightarrow> stream_yield list" where
  "anthropic_loop A [] st = finish_anthropic A st"
| "anthropic_loop A (Inl e # rest) st = [Inl (LineFailure e)]"
| "anthropic_loop A (Inr line # rest) st =
     (let V = an_answers A; E = rq_ext (an_request A) in
      case read_anthropic_line V line of
        SkipAnthropic \<Rightarrow> anthropic_loop A rest st
      | EndAnthropic \<Rightarrow> finish_anthropic A st
      | AnthropicEvent ty data \<Rightarrow>
          if ty = ''message_start'' then anthropic_loop A rest (message_start V data st)
          else if ty = ''content_block_start'' then
            (let (ys, st1) = block_start E data st in ys @ anthropic_loop A rest st1)
          else if ty = ''content_block_delta'' then
            (let (ys, st1) = handle_delta E data st in ys @ anthropic_loop A rest st1)
          else if ty = ''content_block_stop'' then
            (let (ys, st1) = block_stop A data st in ys @ anthropic_loop A rest st1)
          else if ty = ''message_delta'' then
            (let (ys, next_state) = message_delta A data st
             in ys @ (case next_state of
                        Inl e \<Rightarrow> [Inl (ProviderFailure e)]
                      | Inr st1 \<Rightarrow> anthropic_loop A rest st1))
          else if ty = ''message_stop'' then finish_anthropic A (message_stop V data st)
          else anthropic_loop A rest st)"

definition anthropic_streaming_message :: "anthropic_env \<Rightarrow> stream_line list \<Rightarrow> stream_yield list" where
  "anthropic_streaming_message A items = anthropic_loop A items anthropic_stream_start"

end
