(* ===== verification/Anthropic_Stream_Props.thy ===== *)
theory Anthropic_Stream_Props
  imports Anthropic_Stream Openai_Stream_Props "HOL-Library.Multiset"
begin

text \<open>
  What a streamed answer of Anthropic becomes: its tool calls are put together by their index and
  only run once their block was ended, and the usage of the turn is reported once, last.
\<close>

subsection \<open>The steps that concern tool calls\<close>

datatype call_step = Started i32 string string | Piece i32 string | Stopped i32 | Elsewhere

definition call_step :: "string \<Rightarrow> json \<Rightarrow> call_step" where
  "call_step ty data =
     (if ty = ''content_block_start'' then
        (case json_get data ''content_block'' of
           None \<Rightarrow> Elsewhere
         | Some block \<Rightarrow>
             if field_str block ''type'' = Some ''tool_use'' then
               (case (block_index data, field_str block ''id'', field_str block ''name'') of
                  (Some k, Some i, Some name) \<Rightarrow> Started k i name | _ \<Rightarrow> Elsewhere)
             else Elsewhere)
      else if ty = ''content_block_delta'' then
        (case (Option.bind (json_get data ''delta'') read_block_delta, block_index data) of
           (Some (InputJsonDelta s), Some k) \<Rightarrow> Piece k s | _ \<Rightarrow> Elsewhere)
      else if ty = ''content_block_stop'' then
        (case block_index data of Some k \<Rightarrow> Stopped k | None \<Rightarrow> Elsewhere)
      else Elsewhere)"

definition refuses :: "string \<Rightarrow> json \<Rightarrow> bool" where
  "refuses ty data \<longleftrightarrow> ty = ''message_delta'' \<and>
     Option.bind (json_get data ''delta'') (\<lambda>d. field_str d ''stop_reason'') = Some ''refusal''"

text \<open>The steps of a stream, up to its end, its failure or a refusal.\<close>

fun read_steps :: "openai_env \<Rightarrow> stream_line list \<Rightarrow> call_step list" where
  "read_steps V [] = []"
| "read_steps V (Inl e # rest) = []"
| "read_steps V (Inr line # rest) =
     (case read_anthropic_line V line of
        SkipAnthropic \<Rightarrow> read_steps V rest
      | EndAnthropic \<Rightarrow> []
      | AnthropicEvent ty data \<Rightarrow>
          if ty = ''message_stop'' \<or> refuses ty data then [] else call_step ty data # read_steps V rest)"

text \<open>The call that is open under an index, from the steps so far, the last one first.\<close>

fun open_call :: "i32 \<Rightarrow> call_step list \<Rightarrow> streaming_tool_call option" where
  "open_call k [] = None"
| "open_call k (Started j i name # h) =
     (if j = k then Some \<lparr>sc_id = i, sc_name = name, sc_arguments = []\<rparr> else open_call k h)"
| "open_call k (Piece j s # h) =
     (if j = k then map_option (\<lambda>c. c\<lparr>sc_arguments := sc_arguments c @ s\<rparr>) (open_call k h) else open_call k h)"
| "open_call k (Stopped j # h) = (if j = k then None else open_call k h)"
| "open_call k (Elsewhere # h) = open_call k h"

definition call_request :: "i32 \<Rightarrow> string \<Rightarrow> error_data + call_tool_params \<Rightarrow> tool_request" where
  "call_request k i call = \<lparr>tq_id = i, tq_tool_call = call, tq_metadata = None,
     tq_tool_meta = Some (JObj [(META_PROVIDER_INDEX, JInt (sint k))])\<rparr>"

text \<open>A call is asked for when its block ends, with what was open under its index by then.\<close>

fun ended_calls :: "anthropic_env \<Rightarrow> call_step list \<Rightarrow> call_step list \<Rightarrow> tool_request list" where
  "ended_calls A h [] = []"
| "ended_calls A h (Stopped k # ss) =
     (case open_call k h of Some c \<Rightarrow> [call_request k (sc_id c) (finished_call A c)] | None \<Rightarrow> []) @
     ended_calls A (Stopped k # h) ss"
| "ended_calls A h (s # ss) = ended_calls A (s # h) ss"

definition tool_requests :: "stream_yield list \<Rightarrow> tool_request list" where
  "tool_requests ys = concat (map (\<lambda>m. filter_map as_tool_request (msg_content m)) (yielded_messages ys))"

definition usage_reports :: "stream_yield list \<Rightarrow> provider_usage list" where
  "usage_reports ys = filter_map (\<lambda>y. case y of Inr (m, u) \<Rightarrow> u | Inl e \<Rightarrow> None) ys"

text \<open>Yields that are messages only.\<close>

definition only_messages :: "stream_yield list \<Rightarrow> bool" where
  "only_messages ys \<longleftrightarrow> list_all (\<lambda>y. case y of Inr (Some m, None) \<Rightarrow> True | _ \<Rightarrow> False) ys"

lemma tool_requests_simps [simp]:
  "tool_requests [] = []" "tool_requests (ys @ zs) = tool_requests ys @ tool_requests zs"
  "tool_requests (Inr (Some m, u) # ys) = filter_map as_tool_request (msg_content m) @ tool_requests ys"
  "tool_requests (Inr (None, u) # ys) = tool_requests ys" "tool_requests (Inl e # ys) = tool_requests ys"
  by (simp_all add: tool_requests_def)

lemma usage_reports_simps [simp]:
  "usage_reports [] = []" "usage_reports (ys @ zs) = usage_reports ys @ usage_reports zs"
  "usage_reports (Inr (m, Some u) # ys) = u # usage_reports ys"
  "usage_reports (Inr (m, None) # ys) = usage_reports ys" "usage_reports (Inl e # ys) = usage_reports ys"
  by (simp_all add: usage_reports_def)

lemma only_messages_simps [simp]:
  "only_messages []" "only_messages (ys @ zs) \<longleftrightarrow> only_messages ys \<and> only_messages zs"
  "only_messages (yield_message st m # ys) \<longleftrightarrow> only_messages ys"
  by (auto simp: only_messages_def yield_message_def)

lemma only_messages_quiet: "only_messages ys \<Longrightarrow> \<not> failed ys \<and> usage_reports ys = []"
  by (induction ys) (auto simp: only_messages_def split: sum.splits option.splits prod.splits)

lemma yield_message_parts [simp]:
  "tool_requests (yield_message st m # ys) = filter_map as_tool_request (msg_content m) @ tool_requests ys"
  "failed (yield_message st m # ys) = failed ys" "usage_reports (yield_message st m # ys) = usage_reports ys"
  by (simp_all add: yield_message_def with_stream_id_def)

lemma quiet_messages [simp]:
  "msg_content (message_assistant E) = []" "msg_content (with_content c m) = msg_content m @ [c]"
  "filter_map as_tool_request (msg_content (with_text E s m)) = filter_map as_tool_request (msg_content m)"
  "msg_content (call_message A k i call) = [ToolRequest (call_request k i call)]"
  by (simp_all add: message_assistant_def message_new_def with_content_def with_text_def call_message_def
      mc_tool_request_with_provider_index_def call_request_def)

subsection \<open>The handlers\<close>

text \<open>The state holds for each index the call that is open under it.\<close>

definition calls_are :: "call_step list \<Rightarrow> anthropic_stream \<Rightarrow> bool" where
  "calls_are h st \<longleftrightarrow> distinct (map fst (as_calls st)) \<and> (\<forall>k. map_of (as_calls st) k = open_call k h)"

lemma message_start_calls [simp]: "as_calls (message_start V data st) = as_calls st"
  by (simp add: message_start_def Let_def split: option.split)

lemma delta_usage_calls [simp]: "as_calls (delta_usage V data st) = as_calls st"
  by (simp add: delta_usage_def Let_def split: option.split)

lemma message_stop_calls [simp]: "as_calls (message_stop V data st) = as_calls st"
  by (simp add: message_stop_def split: option.split)

lemma calls_are_simps [simp]:
  "calls_are (Elsewhere # h) st \<longleftrightarrow> calls_are h st" "calls_are h (as_thoughts_update f st) \<longleftrightarrow> calls_are h st"
  "calls_are h (message_start V data st) \<longleftrightarrow> calls_are h st"
  by (simp_all add: calls_are_def)

lemma block_start_calls:
  assumes "block_start E data st = (ys, st1)" "calls_are h st"
  shows "only_messages ys" "tool_requests ys = []" "calls_are (call_step ''content_block_start'' data # h) st1" "as_usage st1 = as_usage st"
proof -
  have "only_messages ys \<and> tool_requests ys = [] \<and> calls_are (call_step ''content_block_start'' data # h) st1 \<and>
      as_usage st1 = as_usage st"
  proof (cases "json_get data ''content_block''")
    case None
    with assms show ?thesis by (auto simp: block_start_def call_step_def)
  next
    case block: (Some block)
    show ?thesis
    proof (cases "field_str block ''type'' = Some ''tool_use''")
      case True
      with assms block show ?thesis
        by (auto simp: block_start_def call_step_def calls_are_def map_insert_distinct split: option.splits)
    next
      case False
      with block have "call_step ''content_block_start'' data = Elsewhere" by (simp add: call_step_def)
      with assms block False show ?thesis
        by (auto simp: block_start_def Let_def calls_are_def split: if_splits option.splits)
    qed
  qed
  then show "only_messages ys" "tool_requests ys = []" "calls_are (call_step ''content_block_start'' data # h) st1"
    "as_usage st1 = as_usage st" by auto
qed

lemma extend_arguments_calls:
  "calls_are h st \<Longrightarrow> calls_are (Piece k s # h) (extend_arguments k s st)"
  "as_usage (extend_arguments k s st) = as_usage st"
  by (auto simp: calls_are_def extend_arguments_def map_insert_distinct split: option.split)

lemma handle_delta_calls:
  assumes "handle_delta E data st = (ys, st1)" "calls_are h st"
  shows "only_messages ys" "tool_requests ys = []" "calls_are (call_step ''content_block_delta'' data # h) st1" "as_usage st1 = as_usage st"
proof -
  let ?d = "Option.bind (json_get data ''delta'') read_block_delta"
  have "only_messages ys \<and> tool_requests ys = [] \<and> calls_are (call_step ''content_block_delta'' data # h) st1 \<and>
      as_usage st1 = as_usage st"
  proof (cases ?d)
    case None
    with assms show ?thesis by (auto simp: handle_delta_def call_step_def)
  next
    case (Some d)
    with assms show ?thesis
      by (cases d) (auto simp: handle_delta_def call_step_def take_delta_def extend_arguments_calls
          split: option.splits)
  qed
  then show "only_messages ys" "tool_requests ys = []" "calls_are (call_step ''content_block_delta'' data # h) st1"
    "as_usage st1 = as_usage st" by auto
qed

lemma end_thoughts_calls:
  assumes "end_thoughts E st = (ys, st1)"
  shows "only_messages ys" "tool_requests ys = []" "as_calls st1 = as_calls st" "as_usage st1 = as_usage st"
  using assms by (auto simp: end_thoughts_def mc_thinking_def split: option.splits if_splits)

lemma map_of_removed: "map_of (filter (\<lambda>c. fst c \<noteq> k) m) j = (if j = k then None else map_of m j)"
  by (induction m) auto

lemma block_stop_calls:
  assumes "block_stop A data st = (ys, st1)" "calls_are h st"
  shows "only_messages ys" "tool_requests ys = ended_calls A h [call_step ''content_block_stop'' data]"
    "calls_are (call_step ''content_block_stop'' data # h) st1" "as_usage st1 = as_usage st"
proof -
  obtain zs st0 where ended: "end_thoughts (rq_ext (an_request A)) st = (zs, st0)" by fastforce
  note zs = end_thoughts_calls [OF ended]
  have "only_messages ys \<and> tool_requests ys = ended_calls A h [call_step ''content_block_stop'' data] \<and>
      calls_are (call_step ''content_block_stop'' data # h) st1 \<and> as_usage st1 = as_usage st"
  proof (cases "block_index data")
    case None
    with assms zs ended show ?thesis by (auto simp: block_stop_def call_step_def calls_are_def)
  next
    case (Some k)
    with assms zs ended show ?thesis
      by (auto simp: block_stop_def call_step_def calls_are_def map_of_removed distinct_map_filter
          split: option.splits)
  qed
  then show "only_messages ys" "tool_requests ys = ended_calls A h [call_step ''content_block_stop'' data]"
    "calls_are (call_step ''content_block_stop'' data # h) st1" "as_usage st1 = as_usage st" by auto
qed

lemma refused_usage_parts [simp]: "tool_requests (refused_usage st) = []" "\<not> failed (refused_usage st)"
  by (simp_all add: refused_usage_def split: option.split)

lemma message_delta_calls:
  assumes "message_delta A data st = (ys, next_state)"
  shows "tool_requests ys = []" "\<not> failed ys"
    "isl next_state \<longleftrightarrow> refuses ''message_delta'' data"
    "next_state = Inr st1 \<Longrightarrow> only_messages ys \<and> as_calls st1 = as_calls st"
  using assms
  by (auto simp: message_delta_def Let_def refuses_def split: option.splits if_splits)

subsection \<open>The whole stream\<close>

lemma call_step_other [simp]:
  "call_step ''message_start'' data = Elsewhere" "call_step ''message_delta'' data = Elsewhere"
  by (simp_all add: call_step_def)

text \<open>What is left of the calls when the stream is over: nothing of them runs.\<close>

definition unfinished_requests :: "bool \<Rightarrow> (i32 \<times> streaming_tool_call) list \<Rightarrow> tool_request list" where
  "unfinished_requests limit cs =
     map (\<lambda>(k, c). call_request k (sc_id c) (Inl (unfinished_error limit c))) cs"

definition leaves :: "call_step list \<Rightarrow> stream_yield list \<Rightarrow> tool_request list \<Rightarrow> bool" where
  "leaves h ys left \<longleftrightarrow>
     (if failed ys then left = []
      else \<exists>limit cs. left = unfinished_requests limit cs \<and> sorted (map (\<lambda>c. sint (fst c)) cs) \<and>
        distinct (map fst cs) \<and> (\<forall>k. map_of cs k = open_call k h))"

lemma finish_parts [simp]:
  "tool_requests (limit_marker A st) = []" "\<not> failed (limit_marker A st)" "only_messages (limit_marker A st)"
  "tool_requests (final_report st) = []" "\<not> failed (final_report st)"
  by (simp_all add: limit_marker_def final_report_def Let_def split: option.split)

lemma finish_anthropic_calls:
  assumes "calls_are h st"
  shows "leaves h (finish_anthropic A st) (tool_requests (finish_anthropic A st))"
proof -
  let ?cs = "sort_key (\<lambda>c. sint (fst c)) (as_calls st)" and ?limit = "as_stop_reason st = Some ''max_tokens''"
  have perm: "mset ?cs = mset (as_calls st)" by simp
  have distinct: "distinct (map fst ?cs)"
    using assms perm by (simp add: calls_are_def distinct_map)
  moreover have "map_of ?cs = map_of (as_calls st)"
    using distinct assms by (intro map_of_inject_set [THEN iffD2]) (simp_all add: calls_are_def)
  moreover have "tool_requests (map (\<lambda>c. yield_message st (call_message A (fst c) (sc_id (snd c))
      (Inl (unfinished_error ?limit (snd c))))) cs) = unfinished_requests ?limit cs" for cs
    by (induction cs) (simp_all add: unfinished_requests_def case_prod_beta)
  moreover have "\<not> failed (map (\<lambda>c. yield_message st (call_message A (fst c) (sc_id (snd c))
      (Inl (unfinished_error ?limit (snd c))))) cs)" for cs by (induction cs) simp_all
  ultimately show ?thesis using assms
    by (auto simp: leaves_def finish_anthropic_def open_call_errors_def calls_are_def
        intro!: exI [of _ ?limit] exI [of _ ?cs])
qed

lemma ended_calls_Cons: "ended_calls A h (s # ss) = ended_calls A h [s] @ ended_calls A (s # h) ss"
  by (cases s) simp_all

definition asks_for :: "anthropic_env \<Rightarrow> call_step list \<Rightarrow> call_step list \<Rightarrow> stream_yield list \<Rightarrow> bool" where
  "asks_for A h ss ys \<longleftrightarrow> (\<exists>left. tool_requests ys = ended_calls A h ss @ left \<and> leaves (rev ss @ h) ys left)"

lemma asks_for_step:
  assumes "asks_for A (s # h) ss zs" "tool_requests ys = ended_calls A h [s]" "\<not> failed ys"
  shows "asks_for A h (s # ss) (ys @ zs)"
  using assms by (auto simp: asks_for_def ended_calls_Cons [of A h s ss] leaves_def)

lemma asks_for_end: "leaves h ys (tool_requests ys) \<Longrightarrow> asks_for A h [] ys"
  by (simp add: asks_for_def)

lemma event_calls:
  assumes IH: "\<And>st h. calls_are h st \<Longrightarrow> asks_for A h (read_steps (an_answers A) rest) (anthropic_loop A rest st)"
    and st: "calls_are h st" and read: "read_anthropic_line (an_answers A) line = AnthropicEvent ty data"
    and on: "ty \<noteq> ''message_stop''" "ty \<noteq> ''message_delta''"
  shows "asks_for A h (call_step ty data # read_steps (an_answers A) rest) (anthropic_loop A (Inr line # rest) st)"
proof -
  let ?E = "rq_ext (an_request A)" and ?rest = "read_steps (an_answers A) rest"
  have go: "asks_for A h (call_step ty data # ?rest) (ys @ anthropic_loop A rest st1)"
    if "only_messages ys" "tool_requests ys = ended_calls A h [call_step ty data]" "calls_are (call_step ty data # h) st1"
    for ys st1
    using asks_for_step [OF IH [OF that(3)] that(2)] only_messages_quiet [OF that(1)] by blast
  show ?thesis
  proof (cases "ty = ''content_block_start''")
    case True
    obtain ys st1 where step: "block_start ?E data st = (ys, st1)" by fastforce
    have no_end: "ended_calls A h [call_step ty data] = []" using True
      by (simp add: call_step_def split: option.split)
    from go [of ys st1] block_start_calls [OF step st] no_end True read step show ?thesis by simp
  next
    case start: False
    show ?thesis
    proof (cases "ty = ''content_block_delta''")
      case True
      obtain ys st1 where step: "handle_delta ?E data st = (ys, st1)" by fastforce
      have no_end: "ended_calls A h [call_step ty data] = []" using True
        by (simp add: call_step_def split: option.split block_delta.split)
      from go [of ys st1] handle_delta_calls [OF step st] no_end True read step show ?thesis by simp
    next
      case delta: False
      show ?thesis
      proof (cases "ty = ''content_block_stop''")
        case True
        obtain ys st1 where step: "block_stop A data st = (ys, st1)" by fastforce
        from go [of ys st1] block_stop_calls [OF step st] True read step show ?thesis by simp
      next
        case False
        then have "call_step ty data = Elsewhere" using start delta by (simp add: call_step_def)
        then show ?thesis using go [of "[]" st] go [of "[]" "message_start (an_answers A) data st"] st False start delta on read
          by (cases "ty = ''message_start''") (simp_all add: Let_def)
      qed
    qed
  qed
qed

lemma anthropic_loop_calls: "calls_are h st \<Longrightarrow> asks_for A h (read_steps (an_answers A) items) (anthropic_loop A items st)"
proof (induction items arbitrary: h st)
  case Nil
  then show ?case by (simp add: asks_for_end finish_anthropic_calls)
next
  case (Cons item rest)
  show ?case
  proof (cases item)
    case (Inl e)
    then show ?thesis by (simp add: asks_for_end leaves_def)
  next
    case line: (Inr line)
    show ?thesis
    proof (cases "read_anthropic_line (an_answers A) line")
      case (AnthropicEvent ty data)
      note read = AnthropicEvent
      consider (stop) "ty = ''message_stop''" | (delta) "ty = ''message_delta''"
        | (other) "ty \<noteq> ''message_stop''" "ty \<noteq> ''message_delta''" by blast
      then show ?thesis
      proof cases
        case stop
        have "calls_are h (message_stop (an_answers A) data st)" using Cons.prems by (simp add: calls_are_def)
        then show ?thesis using line read stop by (simp add: asks_for_end finish_anthropic_calls)
      next
        case delta
        obtain ys next_state where step: "message_delta A data st = (ys, next_state)" by fastforce
        note parts = message_delta_calls [OF step]
        show ?thesis
        proof (cases next_state)
          case (Inl e)
          with parts delta line read step show ?thesis by (simp add: asks_for_end leaves_def)
        next
          case (Inr st1)
          then have "calls_are (Elsewhere # h) st1" using parts(4) Cons.prems by (simp add: calls_are_def)
          from asks_for_step [OF Cons.IH [OF this], of ys] parts Inr delta line read step show ?thesis by simp
        qed
      next
        case other
        then have "\<not> refuses ty data" by (simp add: refuses_def)
        with event_calls [OF Cons.IH Cons.prems read other] other line read show ?thesis
          by (simp del: anthropic_loop.simps)
      qed
    qed (use line Cons in \<open>simp_all add: asks_for_end finish_anthropic_calls\<close>)
  qed
qed

text \<open>
  C37: The calls of a streamed answer are asked for once each: when the block of a call ends, with
  the name and the id it began with and the arguments put together from its pieces in order; a
  call whose block is open when the stream ends is answered by an error, in the order of the
  indices.  A stream that fails asks for the ended calls only.
\<close>

theorem anthropic_calls_ended:
  "\<exists>left. tool_requests (anthropic_streaming_message A items) =
      ended_calls A [] (read_steps (an_answers A) items) @ left \<and>
    leaves (rev (read_steps (an_answers A) items)) (anthropic_streaming_message A items) left"
proof -
  have "calls_are [] anthropic_stream_start" by (simp add: calls_are_def anthropic_stream_start_def)
  from anthropic_loop_calls [OF this, of A items] show ?thesis
    by (simp add: asks_for_def anthropic_streaming_message_def)
qed

subsection \<open>The usage of a turn\<close>

definition carries_usage :: "string \<Rightarrow> json \<Rightarrow> bool" where
  "carries_usage ty data \<longleftrightarrow>
     ty = ''message_start'' \<and> Option.bind (json_get data ''message'') (\<lambda>m. json_get m ''usage'') \<noteq> None \<or>
     ty \<in> {''message_delta'', ''message_stop''} \<and> json_get data ''usage'' \<noteq> None"

text \<open>Whether an event that carries usage came before the end of the stream; a stream that is cut
  off is not accounted for.\<close>

fun accounted :: "openai_env \<Rightarrow> bool \<Rightarrow> stream_line list \<Rightarrow> bool" where
  "accounted V seen [] = seen"
| "accounted V seen (Inl e # rest) = False"
| "accounted V seen (Inr line # rest) =
     (case read_anthropic_line V line of
        SkipAnthropic \<Rightarrow> accounted V seen rest
      | EndAnthropic \<Rightarrow> seen
      | AnthropicEvent ty data \<Rightarrow>
          (let seen' = (seen \<or> carries_usage ty data)
           in if ty = ''message_stop'' \<or> refuses ty data then seen' else accounted V seen' rest))"

text \<open>Messages, then at most one report, then at most an error.\<close>

fun report_tail :: "stream_yield list \<Rightarrow> bool" where
  "report_tail [] = True"
| "report_tail [Inr (None, Some u)] = True"
| "report_tail [Inl e] = True"
| "report_tail [Inr (None, Some u), Inl (ProviderFailure (Refusal d c))] = (pu_finish_reasons u = Some [''refusal''])"
| "report_tail _ = False"

definition reported_last :: "stream_yield list \<Rightarrow> bool" where
  "reported_last ys \<longleftrightarrow> (\<exists>ms tail. ys = ms @ tail \<and> only_messages ms \<and> report_tail tail)"

lemma reported_tail: "report_tail ys \<Longrightarrow> reported_last ys"
  unfolding reported_last_def by (intro exI [of _ "[]"] exI [of _ ys]) simp

lemma reported_last_after: "only_messages ys \<Longrightarrow> reported_last zs \<Longrightarrow> reported_last (ys @ zs)"
  unfolding reported_last_def by (metis append_assoc only_messages_simps(2))

lemma message_start_usage:
  "(as_usage (message_start V data st) \<noteq> None) \<longleftrightarrow> as_usage st \<noteq> None \<or> carries_usage ''message_start'' data"
  by (cases "json_get data ''message''")
    (simp_all add: message_start_def Let_def carries_usage_def split: option.split)

lemma delta_usage_usage:
  "(as_usage (delta_usage V data st) \<noteq> None) \<longleftrightarrow> as_usage st \<noteq> None \<or> carries_usage ''message_delta'' data"
  by (auto simp: delta_usage_def Let_def carries_usage_def split: option.split)

lemma message_stop_usage:
  "(as_usage (message_stop V data st) \<noteq> None) \<longleftrightarrow> as_usage st \<noteq> None \<or> carries_usage ''message_stop'' data"
  by (auto simp: message_stop_def carries_usage_def split: option.split)

definition accounts :: "stream_yield list \<Rightarrow> bool \<Rightarrow> bool" where
  "accounts ys b \<longleftrightarrow> reported_last ys \<and> length (usage_reports ys) = (if b then 1 else 0)"

lemma accounts_after: "only_messages ys \<Longrightarrow> accounts zs b \<Longrightarrow> accounts (ys @ zs) b"
  by (auto simp: accounts_def reported_last_after dest: only_messages_quiet)

lemma finish_accounts: "accounts (finish_anthropic A st) (as_usage st \<noteq> None)"
proof -
  have "only_messages (map (\<lambda>c. yield_message st (f c)) cs)" for f :: "i32 \<times> streaming_tool_call \<Rightarrow> message" and cs
    by (induction cs) simp_all
  then have ms: "only_messages (open_call_errors A st @ limit_marker A st)" by (simp add: open_call_errors_def Let_def)
  have "accounts (final_report st) (as_usage st \<noteq> None)"
    by (simp add: accounts_def reported_tail final_report_def Let_def split: option.split)
  from accounts_after [OF ms this] show ?thesis by (simp add: finish_anthropic_def)
qed

lemma refusal_accounts:
  assumes "message_delta A data st = (ys, Inl e)"
  shows "accounts (ys @ [Inl (ProviderFailure e)]) (as_usage st \<noteq> None \<or> carries_usage ''message_delta'' data)"
proof -
  let ?st = "delta_usage (an_answers A) data st"
  obtain d st2 where e: "ys = refused_usage st2" "e = refusal_of (an_answers A) d" "as_usage st2 = as_usage ?st"
    using assms by (auto simp: message_delta_def Let_def split: option.splits if_splits)
  moreover obtain a b where "refusal_of (an_answers A) d = Refusal a b" by (simp add: refusal_of_def Let_def)
  moreover have "accounts (refused_usage st2 @ [Inl (ProviderFailure (Refusal a b))]) (as_usage st2 \<noteq> None)"
    by (cases "as_usage st2") (simp_all add: accounts_def refused_usage_def reported_tail)
  ultimately show ?thesis by (simp add: delta_usage_usage del: not_None_eq)
qed

lemma message_delta_usage:
  assumes "message_delta A data st = (ys, Inr st1)"
  shows "(as_usage st1 \<noteq> None) \<longleftrightarrow> as_usage st \<noteq> None \<or> carries_usage ''message_delta'' data"
proof -
  have "as_usage st1 = as_usage (delta_usage (an_answers A) data st)"
    using assms by (auto simp: message_delta_def Let_def split: option.splits if_splits)
  then show ?thesis by (simp only: delta_usage_usage)
qed

lemma event_accounts:
  assumes IH: "\<And>h st. calls_are h st \<Longrightarrow>
      accounts (anthropic_loop A rest st) (accounted (an_answers A) (as_usage st \<noteq> None) rest)"
    and st: "calls_are h st" and read: "read_anthropic_line (an_answers A) line = AnthropicEvent ty data"
    and on: "ty \<noteq> ''message_stop''" "ty \<noteq> ''message_delta''"
  shows "accounts (anthropic_loop A (Inr line # rest) st)
    (accounted (an_answers A) (as_usage st \<noteq> None \<or> carries_usage ty data) rest)"
proof -
  let ?E = "rq_ext (an_request A)"
  show ?thesis
  proof (cases "ty = ''message_start''")
    case True
    have "calls_are h (message_start (an_answers A) data st)" using st by simp
    from IH [OF this] True read show ?thesis
      by (simp add: message_start_usage del: not_None_eq disj_not1)
  next
    case no_start: False
    then have quiet: "\<not> carries_usage ty data" using on by (simp add: carries_usage_def)
    have go: "accounts (ys @ anthropic_loop A rest st1) (accounted (an_answers A) (as_usage st \<noteq> None \<or> carries_usage ty data) rest)"
      if "only_messages ys" "calls_are h' st1" "as_usage st1 = as_usage st" for ys st1 h'
      using accounts_after [OF that(1) IH [OF that(2)]] that(3) quiet by simp
    show ?thesis
    proof (cases "ty = ''content_block_start''")
      case True
      obtain ys st1 where step: "block_start ?E data st = (ys, st1)" by fastforce
      from go [of ys _ st1] block_start_calls [OF step st] True read step show ?thesis by simp
    next
      case start: False
      show ?thesis
      proof (cases "ty = ''content_block_delta''")
        case True
        obtain ys st1 where step: "handle_delta ?E data st = (ys, st1)" by fastforce
        from go [of ys _ st1] handle_delta_calls [OF step st] True read step show ?thesis by simp
      next
        case delta: False
        show ?thesis
        proof (cases "ty = ''content_block_stop''")
          case True
          obtain ys st1 where step: "block_stop A data st = (ys, st1)" by fastforce
          from go [of ys _ st1] block_stop_calls [OF step st] True read step show ?thesis by simp
        next
          case False
          with go [of "[]" h st] st start delta on no_start read show ?thesis by (simp add: Let_def)
        qed
      qed
    qed
  qed
qed

lemma anthropic_loop_accounts:
  "calls_are h st \<Longrightarrow>
     accounts (anthropic_loop A items st) (accounted (an_answers A) (as_usage st \<noteq> None) items)"
proof (induction items arbitrary: h st)
  case Nil
  then show ?case using finish_accounts [of A st] by simp
next
  case (Cons item rest)
  show ?case
  proof (cases item)
    case (Inl e)
    then show ?thesis by (simp add: accounts_def reported_tail)
  next
    case line: (Inr line)
    show ?thesis
    proof (cases "read_anthropic_line (an_answers A) line")
      case (AnthropicEvent ty data)
      note read = AnthropicEvent
      consider (stop) "ty = ''message_stop''" | (delta) "ty = ''message_delta''"
        | (other) "ty \<noteq> ''message_stop''" "ty \<noteq> ''message_delta''" by blast
      then show ?thesis
      proof cases
        case stop
        then show ?thesis using finish_accounts [of A "message_stop (an_answers A) data st"] line read
          by (simp add: message_stop_usage del: not_None_eq disj_not1)
      next
        case delta
        obtain ys next_state where step: "message_delta A data st = (ys, next_state)" by fastforce
        note parts = message_delta_calls [OF step]
        show ?thesis
        proof (cases next_state)
          case (Inl e)
          with refusal_accounts [of A data st ys e] parts delta line read step show ?thesis
            by (simp del: not_None_eq)
        next
          case (Inr st1)
          then have "calls_are h st1" using parts(4) Cons.prems by (simp add: calls_are_def)
          have "only_messages ys" using parts(4) Inr by blast
          from accounts_after [OF this Cons.IH [OF \<open>calls_are h st1\<close>]]
          have "accounts (ys @ anthropic_loop A rest st1)
              (accounted (an_answers A) (as_usage st \<noteq> None \<or> carries_usage ''message_delta'' data) rest)"
            unfolding message_delta_usage [OF step [unfolded Inr]] .
          moreover have "anthropic_loop A (item # rest) st = ys @ anthropic_loop A rest st1"
            using delta line read step Inr by simp
          moreover have "\<not> refuses ty data" using parts(3) Inr delta by simp
          ultimately show ?thesis using delta line read
            by (simp del: anthropic_loop.simps not_None_eq disj_not1)
        qed
      next
        case other
        then have "\<not> refuses ty data" by (simp add: refuses_def)
        with event_accounts [OF Cons.IH Cons.prems read other] other line read show ?thesis
          by (simp del: anthropic_loop.simps not_None_eq)
      qed
    qed (use line Cons finish_accounts [of A st] in simp_all)
  qed
qed

text \<open>
  C38: The usage of a streamed answer is reported once, behind everything else, whenever an event
  before the end of the stream carried it, also when the model refuses to go on: the report then
  stands before the error and says so.  A stream that is cut off reports nothing.
\<close>

theorem anthropic_usage_accounted:
  "reported_last (anthropic_streaming_message A items) \<and>
   length (usage_reports (anthropic_streaming_message A items)) = (if accounted (an_answers A) False items then 1 else 0)"
proof -
  have "calls_are [] anthropic_stream_start" by (simp add: calls_are_def anthropic_stream_start_def)
  from anthropic_loop_accounts [OF this, of A items] show ?thesis
    by (simp add: accounts_def anthropic_streaming_message_def anthropic_stream_start_def)
qed

subsection \<open>Arguments that are not an object\<close>

lemma stopped_split:
  "(\<exists>pre k post. s # ss = pre @ Stopped k # post \<and> P k (rev pre @ h)) \<longleftrightarrow>
     (\<exists>k. s = Stopped k \<and> P k h) \<or>
     (\<exists>pre k post. ss = pre @ Stopped k # post \<and> P k (rev pre @ s # h))"
  (is "?whole \<longleftrightarrow> ?now \<or> ?later")
proof
  assume ?whole
  then obtain pre k post where "s # ss = pre @ Stopped k # post" "P k (rev pre @ h)" by blast
  then show "?now \<or> ?later" by (cases pre) auto
next
  assume "?now \<or> ?later"
  then show ?whole
  proof
    assume ?now
    then obtain k where "s = Stopped k" "P k h" by blast
    then show ?whole by (intro exI [of _ "[]"]) simp
  next
    assume ?later
    then obtain pre k post where "ss = pre @ Stopped k # post" "P k (rev pre @ s # h)" by blast
    then show ?whole by (intro exI [of _ "s # pre"]) auto
  qed
qed

lemma ended_calls_iff:
  "r \<in> set (ended_calls A h ss) \<longleftrightarrow>
     (\<exists>pre k post. ss = pre @ Stopped k # post \<and>
       (\<exists>c. open_call k (rev pre @ h) = Some c \<and> r = call_request k (sc_id c) (finished_call A c)))"
proof (induction ss arbitrary: h)
  case (Cons s ss)
  have "r \<in> set (ended_calls A h (s # ss)) \<longleftrightarrow>
      (\<exists>k. s = Stopped k \<and> (\<exists>c. open_call k h = Some c \<and> r = call_request k (sc_id c) (finished_call A c))) \<or>
      r \<in> set (ended_calls A (s # h) ss)"
  proof (cases s)
    case (Stopped k)
    then show ?thesis by (cases "open_call k h") simp_all
  qed simp_all
  also have "r \<in> set (ended_calls A (s # h) ss) \<longleftrightarrow> (\<exists>pre k post. ss = pre @ Stopped k # post \<and>
      (\<exists>c. open_call k (rev pre @ s # h) = Some c \<and> r = call_request k (sc_id c) (finished_call A c)))"
    by (rule Cons.IH)
  also note stopped_split [of s ss "\<lambda>k h'. \<exists>c. open_call k h' = Some c \<and>
      r = call_request k (sc_id c) (finished_call A c)" h, symmetric]
  finally show ?case .
qed simp

text \<open>A call that a format of OpenAI would make of the same texts.\<close>

lemma finished_call_agrees:
  assumes "\<forall>v. an_object A v = (case v of JObj m \<Rightarrow> m | _ \<Rightarrow> [])"
  shows "finished_call A c = Inr p \<longleftrightarrow>
    call_of_arguments (an_answers A) (sc_id c) (sc_name c) (sc_arguments c) = Inr p \<or>
    p = \<lparr>ct_name = sc_name c, ct_arguments = Some []\<rparr> \<and>
      (\<exists>v. parse_tool_arguments (oe_json (an_answers A)) (sc_arguments c) = Some v \<and> (\<forall>m. v \<noteq> JObj m))"
proof -
  have empty: "parse_tool_arguments J [] = Some (JObj [])" for J by (simp add: parse_tool_arguments_def)
  show ?thesis
  proof (cases "parse_tool_arguments (oe_json (an_answers A)) (sc_arguments c)")
    case None
    then have "sc_arguments c \<noteq> []" using empty by auto
    with None show ?thesis by (simp add: finished_call_def call_of_arguments_def)
  next
    case (Some v)
    then have "finished_call A c = Inr \<lparr>ct_name = sc_name c, ct_arguments = Some (an_object A v)\<rparr>"
      using empty by (cases "sc_arguments c = []") (simp_all add: finished_call_def)
    with Some assms show ?thesis by (cases v) (auto simp: call_of_arguments_def)
  qed
qed

text \<open>
  C39: With \<open>rmcp::object\<close> giving no fields for what is not an object, as it does in a release
  build: the calls that an Anthropic stream asks to run are those of the ended blocks for which the
  reader of the OpenAI format would make the same call of the same arguments text, and besides
  those whose arguments are JSON but not an object.  These are run without arguments, although the
  OpenAI format answers them with an error.
\<close>

theorem anthropic_runs_without_arguments:
  assumes "\<forall>v. an_object A v = (case v of JObj m \<Rightarrow> m | _ \<Rightarrow> [])"
  shows "(r \<in> set (tool_requests (anthropic_streaming_message A items)) \<and> tq_tool_call r = Inr p) \<longleftrightarrow>
    (\<exists>pre k post c. read_steps (an_answers A) items = pre @ Stopped k # post \<and>
       open_call k (rev pre) = Some c \<and> r = call_request k (sc_id c) (Inr p) \<and>
       (call_of_arguments (an_answers A) (sc_id c) (sc_name c) (sc_arguments c) = Inr p \<or>
        p = \<lparr>ct_name = sc_name c, ct_arguments = Some []\<rparr> \<and>
        isl (call_of_arguments (an_answers A) (sc_id c) (sc_name c) (sc_arguments c)) \<and>
        (\<exists>v. parse_tool_arguments (oe_json (an_answers A)) (sc_arguments c) = Some v \<and> (\<forall>m. v \<noteq> JObj m))))"
proof -
  have "calls_are [] anthropic_stream_start" by (simp add: calls_are_def anthropic_stream_start_def)
  from anthropic_loop_calls [OF this, of A items] obtain left where
    asked: "tool_requests (anthropic_streaming_message A items) =
      ended_calls A [] (read_steps (an_answers A) items) @ left"
    and "leaves (rev (read_steps (an_answers A) items)) (anthropic_streaming_message A items) left"
    by (auto simp: asks_for_def anthropic_streaming_message_def)
  then have unrun: "\<forall>q \<in> set left. isl (tq_tool_call q)"
    by (auto simp: leaves_def unfinished_requests_def call_request_def split: if_splits)
  have error: "isl (call_of_arguments (an_answers A) i n args)"
    if "parse_tool_arguments (oe_json (an_answers A)) args = Some v" "\<forall>m. v \<noteq> JObj m" for i n args v
    using that by (cases v) (simp_all add: call_of_arguments_def)
  have "(r \<in> set (tool_requests (anthropic_streaming_message A items)) \<and> tq_tool_call r = Inr p) \<longleftrightarrow>
      (\<exists>pre k post c. read_steps (an_answers A) items = pre @ Stopped k # post \<and>
        open_call k (rev pre) = Some c \<and> r = call_request k (sc_id c) (Inr p) \<and> finished_call A c = Inr p)"
  proof -
    have "tq_tool_call (call_request k i call) = call" for k i call by (simp add: call_request_def)
    moreover have "r \<in> set left \<Longrightarrow> tq_tool_call r \<noteq> Inr p" using unrun by force
    ultimately show ?thesis
      unfolding asked set_append Un_iff ended_calls_iff append_Nil2 by metis
  qed
  also have "\<dots> \<longleftrightarrow> (\<exists>pre k post c. read_steps (an_answers A) items = pre @ Stopped k # post \<and>
       open_call k (rev pre) = Some c \<and> r = call_request k (sc_id c) (Inr p) \<and>
       (call_of_arguments (an_answers A) (sc_id c) (sc_name c) (sc_arguments c) = Inr p \<or>
        p = \<lparr>ct_name = sc_name c, ct_arguments = Some []\<rparr> \<and>
        isl (call_of_arguments (an_answers A) (sc_id c) (sc_name c) (sc_arguments c)) \<and>
        (\<exists>v. parse_tool_arguments (oe_json (an_answers A)) (sc_arguments c) = Some v \<and> (\<forall>m. v \<noteq> JObj m))))"
    unfolding finished_call_agrees [OF assms] using error by blast
  finally show ?thesis .
qed

text \<open>An environment that reads a list as arguments, and the events of a stream with a call of it.\<close>

definition list_call_events :: "string \<Rightarrow> json option" where
  "list_call_events s =
     (if s = ''[1]'' then Some (JArr [JInt 1])
      else if s = ''1'' then Some (JObj [(''type'', JStr ''content_block_start''), (''index'', JInt 0),
        (''content_block'', JObj [(''type'', JStr ''tool_use''), (''id'', JStr ''c''), (''name'', JStr ''t'')])])
      else if s = ''2'' then Some (JObj [(''type'', JStr ''content_block_delta''), (''index'', JInt 0),
        (''delta'', JObj [(''type'', JStr ''input_json_delta''), (''partial_json'', JStr ''[1]'')])])
      else if s = ''3'' then Some (JObj [(''type'', JStr ''content_block_stop''), (''index'', JInt 0)])
      else None)"

definition list_arguments_env :: anthropic_env where
  "list_arguments_env = \<lparr>an_request = \<lparr>rq_ext = oe_ext wire_env, rq_images = \<lparr>ie_is_file = (\<lambda>p. False), ie_read = (\<lambda>p. Inl []),
       ie_wide_alphanumeric = (\<lambda>c. False), ie_lowercase = id, ie_base64 = id\<rparr>,
       rq_model = \<lparr>me_lowercase = id, me_wide_digit = (\<lambda>c. False), me_known = (\<lambda>p n. None)\<rparr>,
       rq_json_text = (\<lambda>v. []), rq_print_error = ed_message, rq_f32_json = (\<lambda>b. JNull)\<rparr>,
     an_answers = wire_env\<lparr>oe_json := \<lparr>je_parse = list_call_events, je_text = (\<lambda>v. []), je_pretty = (\<lambda>v. [])\<rparr>\<rparr>,
     an_canonical = (\<lambda>p n. None), an_object = (\<lambda>v. case v of JObj m \<Rightarrow> m | _ \<Rightarrow> [])\<rparr>"

lemma list_arguments:
  "parse_tool_arguments (oe_json (an_answers list_arguments_env)) ''[1]'' = Some (JArr [JInt 1])"
  by (simp add: parse_tool_arguments_def list_arguments_env_def list_call_events_def unwrap_double_encoded_object_def)

lemma list_call_lines:
  "read_anthropic_line (an_answers list_arguments_env) ''data:1'' = AnthropicEvent ''content_block_start''
     (JObj [(''index'', JInt 0),
        (''content_block'', JObj [(''type'', JStr ''tool_use''), (''id'', JStr ''c''), (''name'', JStr ''t'')])])"
  "read_anthropic_line (an_answers list_arguments_env) ''data:2'' = AnthropicEvent ''content_block_delta''
     (JObj [(''index'', JInt 0),
        (''delta'', JObj [(''type'', JStr ''input_json_delta''), (''partial_json'', JStr ''[1]'')])])"
  "read_anthropic_line (an_answers list_arguments_env) ''data:3'' = AnthropicEvent ''content_block_stop''
     (JObj [(''index'', JInt 0)])"
  by (simp_all add: read_anthropic_line_def trim_visible visible_ascii_def list_arguments_env_def
      list_call_events_def read_event_def starts_with_def)

lemma list_call_steps:
  "read_steps (an_answers list_arguments_env) [Inr ''data:1'', Inr ''data:2'', Inr ''data:3''] =
     [Started 0 ''c'' ''t'', Piece 0 ''[1]'', Stopped 0]"
proof -
  have "call_step ''content_block_start'' (JObj [(''index'', JInt 0),
      (''content_block'', JObj [(''type'', JStr ''tool_use''), (''id'', JStr ''c''), (''name'', JStr ''t'')])]) =
      Started 0 ''c'' ''t''"
    "call_step ''content_block_delta'' (JObj [(''index'', JInt 0),
      (''delta'', JObj [(''type'', JStr ''input_json_delta''), (''partial_json'', JStr ''[1]'')])]) = Piece 0 ''[1]''"
    "call_step ''content_block_stop'' (JObj [(''index'', JInt 0)]) = Stopped 0"
    by code_simp+
  then show ?thesis by (simp add: list_call_lines refuses_def)
qed

lemma anthropic_runs_without_arguments_witness:
  "\<exists>r. r \<in> set (tool_requests (anthropic_streaming_message list_arguments_env
        [Inr ''data:1'', Inr ''data:2'', Inr ''data:3''])) \<and>
     tq_tool_call r = Inr \<lparr>ct_name = ''t'', ct_arguments = Some []\<rparr>"
proof -
  let ?c = "\<lparr>sc_id = ''c'', sc_name = ''t'', sc_arguments = ''[1]''\<rparr>"
  let ?p = "\<lparr>ct_name = ''t'', ct_arguments = Some []\<rparr>"
  have object: "\<forall>v. an_object list_arguments_env v = (case v of JObj m \<Rightarrow> m | _ \<Rightarrow> [])"
    by (simp add: list_arguments_env_def)
  have "read_steps (an_answers list_arguments_env) [Inr ''data:1'', Inr ''data:2'', Inr ''data:3''] =
      [Started 0 ''c'' ''t'', Piece 0 ''[1]''] @ Stopped 0 # []"
    by (simp only: list_call_steps append.simps)
  moreover have "open_call 0 (rev [Started 0 ''c'' ''t'', Piece 0 ''[1]'']) = Some ?c" by simp
  moreover have "isl (call_of_arguments (an_answers list_arguments_env) (sc_id ?c) (sc_name ?c) (sc_arguments ?c))"
    by (simp add: call_of_arguments_def list_arguments)
  moreover have "parse_tool_arguments (oe_json (an_answers list_arguments_env)) (sc_arguments ?c) = Some (JArr [JInt 1])"
    by (simp add: list_arguments)
  ultimately have "call_request 0 (sc_id ?c) (Inr ?p) \<in> set (tool_requests (anthropic_streaming_message list_arguments_env
        [Inr ''data:1'', Inr ''data:2'', Inr ''data:3''])) \<and>
      tq_tool_call (call_request 0 (sc_id ?c) (Inr ?p)) = Inr ?p"
    unfolding anthropic_runs_without_arguments [OF object] by fastforce
  then show ?thesis by blast
qed

end
