(* ===== verification/Spec2Isabelle.thy ===== *)
theory Spec2Isabelle
  imports Conversation_Props Message_Props Token_Usage Provider_Error Inference_Props
    Tool_Inspection_Props Session_Store_Props Tool_Approval_Props Hooks_Props Turn_Props
    Tool_Execution_Props Provider_Adapter_Props Agent_Machine_Props
    Json_Repair Compaction_Props Think_Reading Openai_Response_Props Anthropic_Props Anthropic_Stream_Props
begin

text \<open>
  The agent core of AIBuddy: what a conversation is and how it is repaired, how the agent's
  state machine drives a turn of it, and the operations that turn is made of.

  \<^bold>\<open>Parts of the program.\<close>  A session holds a conversation, a list of messages with content
  blocks (\<open>aibuddy-provider-types\<close>).  The state machine (\<open>aibuddy-agent\<close>) loads the session,
  offers the conversation to its operations in order, takes the effects of the first that
  applies, carries them out and goes on until an operation yields or the run is cancelled;
  when no operation applies the inference asks the model.  The main crate (\<open>aibuddy\<close>) supplies
  the operations of the desktop agent, the session store their effects are carried out on,
  the permissions, the inspectors and the plugin hooks.  A conversation that outgrows the context
  of the model is compacted to a summary (\<open>aibuddy-context-management\<close>), and the request and
  the answer of an inference go over the wire in the format of the provider, the OpenAI or the
  Anthropic one here.

  \<^bold>\<open>Theories.\<close>
  \<^item> \<open>Prelude\<close>, \<open>Json\<close>, \<open>Keyed_Store\<close>: bytes, strings, results, association lists, JSON
    values, and the contract of a store keyed by names (locale), shared by the rest.
  \<^item> \<open>Token_Usage\<close>, \<open>Provider_Error\<close>, \<open>Messages\<close>, \<open>Message_Ops\<close>, \<open>Message_Props\<close>:
    \<open>conversation/token_usage.rs\<close>, \<open>errors.rs\<close>, \<open>conversation/message.rs\<close>.
  \<^item> \<open>Json_Repair\<close>: \<open>json.rs\<close>, the arguments of a tool call as a model wrote them.
  \<^item> \<open>Conversation\<close>, \<open>Conversation_Fix\<close>, \<open>Conversation_Pairing\<close>, \<open>Conversation_Ready\<close>,
    \<open>Conversation_Props\<close>, \<open>Conversation_Leading\<close>: \<open>conversation.rs\<close>, the repair pipeline,
    what it establishes, and what becomes of messages before the first user text.
  \<^item> \<open>Agent_World\<close>, \<open>Operation\<close>, \<open>Machine\<close>, \<open>Machine_Props\<close>: \<open>aibuddy-agent\<close>'s operations,
    emitter and machine; the contract \<open>operation_laws\<close> that an operation only moves the world
    forward, and \<open>machine_laws\<close> for a machine of such operations.
  \<^item> \<open>Tool_Operation\<close>, \<open>Inference\<close> and their \<open>_Props\<close>: \<open>tool.rs\<close> and \<open>inference.rs\<close>.
  \<^item> \<open>Permissions\<close>, \<open>Tool_Inspection\<close>, \<open>Tool_Inspection_Props\<close>: \<open>config/permission.rs\<close>,
    \<open>tool_inspection.rs\<close>, \<open>permission/\<close>, \<open>tool_monitor.rs\<close>.
  \<^item> \<open>Session_Store\<close>, \<open>Session_Effects\<close> and their \<open>_Props\<close>: the message table of
    \<open>session/session_manager.rs\<close>, and the effects of the agent's operations on it
    (\<open>state_machine/effects.rs\<close>, \<open>session.rs\<close>, \<open>usage.rs\<close>).
  \<^item> \<open>Tool_Approval\<close>, \<open>Tool_Approval_Props\<close>: \<open>ops_tool_approval.rs\<close>, \<open>tool_confirmation.rs\<close>.
  \<^item> \<open>Hooks\<close>, \<open>Hooks_Props\<close>, \<open>Tool_Hooks\<close>: \<open>hooks/mod.rs\<close> and the hooks around a tool call.
  \<^item> \<open>Turn_Operations\<close>, \<open>Retry\<close>, \<open>Turn_Props\<close>: the operations that begin, steer, retry and
    end a turn.
  \<^item> \<open>Tool_Execution\<close>, \<open>Tool_Execution_Props\<close>: \<open>ops_toolcalling.rs\<close>, \<open>ops_unknown_tool.rs\<close>.
  \<^item> \<open>Provider_Adapter\<close>, \<open>Provider_Adapter_Props\<close>: \<open>ops_llm.rs\<close>.
  \<^item> \<open>Agent_Machine\<close>, \<open>Agent_Laws\<close>, \<open>Agent_Machine_Props\<close>: \<open>Agent::create_state_machine\<close>,
    the contract for every operation of it, and properties of whole steps and runs.
  \<^item> \<open>Summary\<close>, \<open>Summarize\<close> and their \<open>_Props\<close>: \<open>aibuddy-context-management\<close>, the structured
    summary, the request for it and the compacting provider.
  \<^item> \<open>Float64\<close>, \<open>Token_Counter\<close>, \<open>Compaction\<close>, \<open>Compaction_Operations\<close>, \<open>Compaction_Laws\<close>,
    \<open>Compaction_Props\<close>: \<open>f64\<close>, \<open>token_counter.rs\<close>, \<open>context_mgmt/mod.rs\<close>, \<open>ops_compaction.rs\<close>
    and \<open>ops_tool_pair_compaction.rs\<close>.
  \<^item> \<open>Think_Filter\<close>, \<open>Think_Filter_Props\<close>, \<open>Think_Reading\<close>: \<open>thinking.rs\<close>, how the filter works
    through a stream, and the grammar of think tags it is compared with.
  \<^item> \<open>Openai_Chunk\<close>, \<open>Openai_Stream\<close>, \<open>Openai_Response\<close>, \<open>Openai_Request\<close>, \<open>Openai_Payload\<close>,
    \<open>Openai_Stream_Props\<close>, \<open>Openai_Response_Props\<close>, \<open>Openai_Wire_Props\<close>: \<open>formats/openai.rs\<close>,
    the frames of a streamed answer, the answer they make, a whole answer, messages, tools and
    the payload of a request.
  \<^item> \<open>Anthropic_Request\<close>, \<open>Anthropic_Stream\<close> and \<open>Anthropic_Props\<close>, \<open>Anthropic_Stream_Props\<close>:
    \<open>formats/anthropic.rs\<close>.
  \<^item> \<open>Cache_Semantics\<close>, \<open>Model_Config\<close>, \<open>Images\<close>: \<open>cache_semantics.rs\<close>, \<open>model.rs\<close>,
    \<open>images.rs\<close> and \<open>documents.rs\<close>.

  \<^bold>\<open>Correspondence.\<close>  A struct is a record and an enum a datatype with the source's
  constructors; an operation is the record of the trait's methods.  Code that waits on the
  world is a function of a state \<open>world\<close> (the events emitted, the fresh identifiers, a clock
  that ticks at every look at the cancellation token) extended by the parts of the session
  (permissions, mode, goals, steering queue, message table).  \<open>Result\<close> is a sum whose left
  side is the error; \<open>u32\<close> is a 32-bit word, \<open>u64\<close> and \<open>usize\<close> are natural numbers; strings
  are lists of bytes; a \<open>serde_json\<close> map is an association list, a \<open>HashMap\<close> a function or a
  set; floating point numbers are their bit patterns.

  \<^bold>\<open>What is shown.\<close>
  \<^item> Conversations: the repaired conversation is one a provider accepts when its history opens
    with user text, has distinct request ids and uniform flags, and validation accepts exactly the
    conversations the repair leaves alone; a leading assistant message that calls a tool is the
    case the repair does not handle.  The request of an inference is well-formed under the
    corresponding conditions on the visible conversation.
  \<^item> Turns: a cancelled run of the machine returns; stop hooks, retries, the turn budget and
    compactions because of a context error cannot keep a turn going for ever.
  \<^item> Tools: every tool request is answered exactly once, whether it runs, is denied, is unknown
    or is cut off; no call runs that the user, the inspectors or the policy hooks did not let
    pass; a denied call is answered with the hook and its reason; arguments are never completed.
  \<^item> Storage: the effects do to the conversation that is read back from the table what they say,
    for stored messages with distinct ids.  A tool request is patched only if one of the last
    hundred stored messages (\<open>RECENT_ROWS\<close>) asks for it.
  \<^item> Compaction: no message is lost and the user sees what he saw; a summary is read back as it
    was written, and from a whole object.
  \<^item> Thoughts: the filter gives the answer and the thoughts of the reading of the text by a
    grammar of nested tags, also when the text is cut into pieces, except behind the beginnings of
    a tag that it does not recognise.
  \<^item> OpenAI format: pairing survives into the messages that are sent, schemas of tools are complete
    where the sanitizer looks, reserved parameters stay; calls are joined from their pieces, an
    answer cut off by the output limit runs no call, and a streamed answer shows what the whole one
    shows.
  \<^item> Anthropic format: tool calls, results and the model's own thoughts are sent in order, cache
    breakpoints and thinking budgets keep their bounds, each call of a stream is asked for once and
    its usage is reported once.

  \<^bold>\<open>Loops and bounds.\<close>  The run loop of the machine is a \<open>partial_function\<close> on options, since a
  run may go on for ever; the liveness properties show it returns.  All other loops are structurally
  recursive or carry a termination proof; no fuel is used.  The bounds in the statements are those
  of the code: 8192 bytes for a think tag, 100 stored messages for a patch, the cap of the stop
  hooks, \<open>max_retries\<close>, two compactions for a context error, 1024 tokens for a thinking budget.

  \<^bold>\<open>Not modelled.\<close>  The clients of the providers and the wire formats other than the two, local
  inference, the command line, the MCP servers, the server protocols, roaming, downloads and the
  desktop front end: input and output outside the agent core.  Of the main crate, the recipes'
  templates, the scheduler, the extension manager's connections and the other tables of the session
  store.  The doctor, project, skills, recipe and status operations of the agent are parameters of
  its construction.  Processes, the network, the file system, JSON text, regular expressions of
  users, Unicode normalization, base64, the tables of known models, templates, tokenizers, prices
  and the model itself are parameters, too.  Tracing and telemetry are left out.
  Assumptions of the model: the columns of the message table are read back as the values that
  were stored, and the database does not fail; the streams of running tool calls
  (\<open>tool_stream\<close> of \<open>tool_execution.rs\<close> and their merging) are given as one sequence of deliveries
  in which each call has at most one result (\<open>delivery_once\<close>), and the hooks after a call run when
  its result is taken; the tasks that share the permission file interleave between whole
  operations; a build without debug assertions.
\<close>

end
